(* ===== verification/Prelude.thy ===== *)
theory Prelude
  imports Main "HOL-Library.Char_ord" "HOL-Library.List_Lexorder"
begin

text \<open>
  Shared vocabulary of the development.

  A Python call either returns or raises, so a fallible function returns a
  value of \<open>'a res\<close>, the sum of an exception and a result.  \<open>ebind\<close> sequences
  two computations, \<open>require\<close> is the scripts' own \<open>require\<close>/\<open>need\<close> helper
  (raise a ValueError with a message unless a condition holds) written with its
  continuation, and \<open>efold\<close>, \<open>eall\<close>, \<open>eany\<close>, \<open>emap\<close> are a loop over a list
  and the short-circuiting generator forms \<open>all(...)\<close>, \<open>any(...)\<close> and a list
  comprehension whose element expression may raise.

  Python strings are lists of code points; the model uses \<open>string\<close>, so it
  covers the code points below 256.  The order on strings is the code-point
  order of Python's \<open>sorted\<close>.
\<close>

section \<open>Exceptions and results\<close>

datatype exn =
    ValueError string
  | KeyError string
  | TypeError string
  | AttributeError string
  | IndexError string
  | OverflowError string
  | ZeroDivisionError string
  | OSError string
  | URLError string
  | HTTPError nat string
  | BadZipFile string
  | ParseError string

type_synonym 'a res = "exn + 'a"

named_theorems only_intros \<open>which exceptions a computation can raise\<close>

definition is_value_error :: "exn \<Rightarrow> bool" where
  "is_value_error e = (case e of ValueError _ \<Rightarrow> True | _ \<Rightarrow> False)"

lemma is_value_error_simps [simp]:
  "is_value_error (ValueError m)" "\<not> is_value_error (KeyError m)" "\<not> is_value_error (TypeError m)"
  "\<not> is_value_error (AttributeError m)" "\<not> is_value_error (IndexError m)"
  "\<not> is_value_error (OverflowError m)" "\<not> is_value_error (ZeroDivisionError m)"
  "\<not> is_value_error (OSError m)" "\<not> is_value_error (URLError m)" "\<not> is_value_error (HTTPError n m)"
  "\<not> is_value_error (BadZipFile m)" "\<not> is_value_error (ParseError m)"
  by (simp_all add: is_value_error_def)

text \<open>\<open>except OSError\<close>: the exceptions of \<open>urllib\<close> are its subclasses.\<close>

definition os_error :: "exn \<Rightarrow> bool" where
  "os_error e = (case e of OSError _ \<Rightarrow> True | URLError _ \<Rightarrow> True | HTTPError _ _ \<Rightarrow> True | _ \<Rightarrow> False)"

lemma os_error_simps [simp]:
  "os_error (OSError m)" "os_error (URLError m)" "os_error (HTTPError n m)" "\<not> os_error (ValueError m)"
  "\<not> os_error (KeyError m)" "\<not> os_error (TypeError m)" "\<not> os_error (AttributeError m)"
  "\<not> os_error (IndexError m)" "\<not> os_error (OverflowError m)" "\<not> os_error (ZeroDivisionError m)"
  "\<not> os_error (BadZipFile m)" "\<not> os_error (ParseError m)"
  by (simp_all add: os_error_def)

text \<open>\<open>str(error)\<close>: a KeyError prints its key quoted.\<close>

definition exn_text :: "exn \<Rightarrow> string" where
  "exn_text e = (case e of KeyError k \<Rightarrow> [CHR 0x27] @ k @ [CHR 0x27] | ValueError m \<Rightarrow> m | TypeError m \<Rightarrow> m
     | AttributeError m \<Rightarrow> m | IndexError m \<Rightarrow> m | OverflowError m \<Rightarrow> m | ZeroDivisionError m \<Rightarrow> m | OSError m \<Rightarrow> m
     | URLError m \<Rightarrow> m | HTTPError _ m \<Rightarrow> m | BadZipFile m \<Rightarrow> m | ParseError m \<Rightarrow> m)"

fun ebind :: "'e + 'a \<Rightarrow> ('a \<Rightarrow> 'e + 'b) \<Rightarrow> 'e + 'b" where
  "ebind (Inl e) f = Inl e"
| "ebind (Inr x) f = f x"

definition require :: "bool \<Rightarrow> string \<Rightarrow> 'a res \<Rightarrow> 'a res" where
  "require c m k = (if c then k else Inl (ValueError m))"

text \<open>\<open>only P r\<close>: every exception \<open>r\<close> can raise satisfies \<open>P\<close>.\<close>

definition only :: "(exn \<Rightarrow> bool) \<Rightarrow> 'a res \<Rightarrow> bool" where
  "only P r = (case r of Inl e \<Rightarrow> P e | Inr _ \<Rightarrow> True)"

lemma ebind_eq_Inr: "ebind m f = Inr y \<longleftrightarrow> (\<exists>x. m = Inr x \<and> f x = Inr y)"
  by (cases m) auto

lemma ebindE: "ebind m f = Inr y \<Longrightarrow> (\<And>x. m = Inr x \<Longrightarrow> f x = Inr y \<Longrightarrow> P) \<Longrightarrow> P"
  by (cases m) auto

lemma ebind_eq_Inl: "ebind m f = Inl e \<longleftrightarrow> m = Inl e \<or> (\<exists>x. m = Inr x \<and> f x = Inl e)"
  by (cases m) auto

lemma ebind_assoc: "ebind (ebind m f) g = ebind m (\<lambda>x. ebind (f x) g)"
  by (cases m) auto

lemma ebind_cong [fundef_cong]:
  "m = m' \<Longrightarrow> (\<And>x. m' = Inr x \<Longrightarrow> f x = g x) \<Longrightarrow> ebind m f = ebind m' g"
  by (cases m') auto

lemma require_True [simp]: "require True m k = k"
  by (simp add: require_def)

lemma require_False [simp]: "require False m k = Inl (ValueError m)"
  by (simp add: require_def)

lemma require_eq_Inr [simp]: "require c m k = Inr x \<longleftrightarrow> c \<and> k = Inr x"
  by (simp add: require_def)

lemma require_eq_Inl: "require c m k = Inl e \<longleftrightarrow> (\<not> c \<and> e = ValueError m) \<or> (c \<and> k = Inl e)"
  by (auto simp: require_def)

lemma only_Inr [simp, only_intros]: "only P (Inr x)"
  by (simp add: only_def)

lemma only_Inl [simp]: "only P (Inl e) = P e"
  by (simp add: only_def)

lemma only_require [only_intros]:
  "P (ValueError m) \<Longrightarrow> (c \<Longrightarrow> only P k) \<Longrightarrow> only P (require c m k)"
  by (cases c) auto

lemma only_ebind [only_intros]:
  "only P m \<Longrightarrow> (\<And>x. m = Inr x \<Longrightarrow> only P (f x)) \<Longrightarrow> only P (ebind m f)"
  by (cases m) auto

lemma only_if [only_intros]:
  "(c \<Longrightarrow> only P a) \<Longrightarrow> (\<not> c \<Longrightarrow> only P b) \<Longrightarrow> only P (if c then a else b)"
  by simp

lemma onlyD: "only P r \<Longrightarrow> r = Inl e \<Longrightarrow> P e"
  by (simp add: only_def)

lemma onlyI: "(\<And>e. r = Inl e \<Longrightarrow> P e) \<Longrightarrow> only P r"
  by (cases r) (auto simp: only_def)

lemma only_mono: "only P r \<Longrightarrow> (\<And>e. P e \<Longrightarrow> Q e) \<Longrightarrow> only Q r"
  by (cases r) auto

section \<open>Loops and generators whose body may raise\<close>

fun efold :: "('a \<Rightarrow> 's \<Rightarrow> 's res) \<Rightarrow> 'a list \<Rightarrow> 's \<Rightarrow> 's res" where
  "efold f [] s = Inr s"
| "efold f (x # xs) s = ebind (f x s) (efold f xs)"

fun eall :: "('a \<Rightarrow> bool res) \<Rightarrow> 'a list \<Rightarrow> bool res" where
  "eall p [] = Inr True"
| "eall p (x # xs) = ebind (p x) (\<lambda>b. if b then eall p xs else Inr False)"

fun eany :: "('a \<Rightarrow> bool res) \<Rightarrow> 'a list \<Rightarrow> bool res" where
  "eany p [] = Inr False"
| "eany p (x # xs) = ebind (p x) (\<lambda>b. if b then Inr True else eany p xs)"

fun emap :: "('a \<Rightarrow> 'b res) \<Rightarrow> 'a list \<Rightarrow> 'b list res" where
  "emap f [] = Inr []"
| "emap f (x # xs) = ebind (f x) (\<lambda>y. ebind (emap f xs) (\<lambda>ys. Inr (y # ys)))"

fun efilter :: "('a \<Rightarrow> bool res) \<Rightarrow> 'a list \<Rightarrow> 'a list res" where
  "efilter p [] = Inr []"
| "efilter p (x # xs) =
     ebind (p x) (\<lambda>b. ebind (efilter p xs) (\<lambda>ys. Inr (if b then x # ys else ys)))"

definition eand :: "bool res \<Rightarrow> bool res \<Rightarrow> bool res" where
  "eand a b = ebind a (\<lambda>x. if x then b else Inr False)"

definition eor :: "bool res \<Rightarrow> bool res \<Rightarrow> bool res" where
  "eor a b = ebind a (\<lambda>x. if x then Inr True else b)"

text \<open>A \<open>for\<close> loop that only checks.\<close>

definition efor :: "('a \<Rightarrow> unit res) \<Rightarrow> 'a list \<Rightarrow> unit res" where
  "efor f xs = efold (\<lambda>x _. f x) xs ()"

text \<open>\<open>require\<close> on a condition that may itself raise.\<close>

definition erequire :: "bool res \<Rightarrow> string \<Rightarrow> 'a res \<Rightarrow> 'a res" where
  "erequire c m k = ebind c (\<lambda>b. require b m k)"

lemma eand_simps [simp]: "eand (Inr True) b = b" "eand (Inr False) b = Inr False" "eand (Inl e) b = Inl e"
  by (simp_all add: eand_def)

lemma eor_simps [simp]: "eor (Inr True) b = Inr True" "eor (Inr False) b = b" "eor (Inl e) b = Inl e"
  by (simp_all add: eor_def)

lemma erequire_eq_Inr [simp]: "erequire c m k = Inr x \<longleftrightarrow> c = Inr True \<and> k = Inr x"
  by (auto simp: erequire_def ebind_eq_Inr)

lemma erequire_Inr [simp]: "erequire (Inr b) m k = require b m k"
  by (simp add: erequire_def)

lemma eand_eq_True [simp]: "eand a b = Inr True \<longleftrightarrow> a = Inr True \<and> b = Inr True"
  by (auto simp: eand_def ebind_eq_Inr)

lemma eor_eq_False [simp]: "eor a b = Inr False \<longleftrightarrow> a = Inr False \<and> b = Inr False"
  by (auto simp: eor_def ebind_eq_Inr)

lemma eall_eq_True [simp]: "eall p xs = Inr True \<longleftrightarrow> (\<forall>x \<in> set xs. p x = Inr True)"
  by (induction xs) (auto simp: ebind_eq_Inr split: if_splits)

lemma eany_eq_False [simp]: "eany p xs = Inr False \<longleftrightarrow> (\<forall>x \<in> set xs. p x = Inr False)"
  by (induction xs) (auto simp: ebind_eq_Inr split: if_splits)

lemma eall_pure [simp]: "eall (\<lambda>x. Inr (P x)) xs = Inr (list_all P xs)"
  by (induction xs) auto

lemma eany_pure [simp]: "eany (\<lambda>x. Inr (P x)) xs = Inr (list_ex P xs)"
  by (induction xs) auto

lemma emap_pure [simp]: "emap (\<lambda>x. Inr (f x)) xs = Inr (map f xs)"
  by (induction xs) auto

lemma emap_eq_Inr: "emap f xs = Inr ys \<longleftrightarrow> list_all2 (\<lambda>x y. f x = Inr y) xs ys"
  by (induction xs arbitrary: ys) (auto simp: ebind_eq_Inr list_all2_Cons1)

lemma efor_eq_Inr [simp]: "efor f xs = Inr u \<longleftrightarrow> (\<forall>x \<in> set xs. f x = Inr ())"
  by (induction xs) (auto simp: efor_def ebind_eq_Inr)

lemma efor_Nil [simp]: "efor f [] = Inr ()"
  by (simp add: efor_def)

lemma efor_Cons [simp]: "efor f (x # xs) = ebind (f x) (\<lambda>_. efor f xs)"
proof -
  have "efold (\<lambda>x _. f x) xs = (\<lambda>u. efold (\<lambda>x _. f x) xs ())"
    by (rule ext) simp
  then show ?thesis
    by (metis efor_def efold.simps(2))
qed

lemma efold_append: "efold f (xs @ ys) s = ebind (efold f xs s) (efold f ys)"
proof (induction xs arbitrary: s)
  case (Cons x xs)
  then show ?case by (cases "f x s") auto
qed simp

text \<open>Loop rules: an invariant every successful iteration keeps, and the
  exceptions of a loop come from its body.\<close>

lemma efold_invariant:
  assumes "efold f xs s = Inr t" "I s"
    and "\<And>x s t. x \<in> set xs \<Longrightarrow> I s \<Longrightarrow> f x s = Inr t \<Longrightarrow> I t"
  shows "I t"
  using assms
proof (induction xs arbitrary: s)
  case (Cons x xs)
  from Cons.prems(1) obtain s' where s': "f x s = Inr s'" "efold f xs s' = Inr t"
    by (auto simp: ebind_eq_Inr)
  have "I s'" using Cons.prems(2,3) s'(1) by auto
  with s'(2) show ?case using Cons.prems(3) by (intro Cons.IH) auto
qed simp

lemma only_efold:
  assumes "\<And>x s. x \<in> set xs \<Longrightarrow> only P (f x s)"
  shows "only P (efold f xs s)"
  using assms by (induction xs arbitrary: s) (auto intro!: only_ebind)

lemma only_efor [only_intros]: "(\<And>x. x \<in> set xs \<Longrightarrow> only P (f x)) \<Longrightarrow> only P (efor f xs)"
  unfolding efor_def by (rule only_efold)

lemma only_eall [only_intros]: "(\<And>x. x \<in> set xs \<Longrightarrow> only P (p x)) \<Longrightarrow> only P (eall p xs)"
  by (induction xs) (auto intro!: only_ebind)

lemma only_eany [only_intros]: "(\<And>x. x \<in> set xs \<Longrightarrow> only P (p x)) \<Longrightarrow> only P (eany p xs)"
  by (induction xs) (auto intro!: only_ebind)

lemma only_emap [only_intros]: "(\<And>x. x \<in> set xs \<Longrightarrow> only P (f x)) \<Longrightarrow> only P (emap f xs)"
  by (induction xs) (auto intro!: only_ebind)

lemma only_eand [only_intros]: "only P a \<Longrightarrow> (a = Inr True \<Longrightarrow> only P b) \<Longrightarrow> only P (eand a b)"
  by (auto simp: eand_def intro!: only_ebind)

lemma only_eor [only_intros]: "only P a \<Longrightarrow> (a = Inr False \<Longrightarrow> only P b) \<Longrightarrow> only P (eor a b)"
  by (auto simp: eor_def intro!: only_ebind)

lemma only_erequire [only_intros]:
  "only P c \<Longrightarrow> P (ValueError m) \<Longrightarrow> (c = Inr True \<Longrightarrow> only P k) \<Longrightarrow> only P (erequire c m k)"
  by (auto simp: erequire_def intro!: only_ebind only_require)

section \<open>Strings\<close>

definition startswith :: "string \<Rightarrow> string \<Rightarrow> bool" where
  "startswith s p = (take (length p) s = p)"

definition endswith :: "string \<Rightarrow> string \<Rightarrow> bool" where
  "endswith s p = startswith (rev s) (rev p)"

fun contains :: "string \<Rightarrow> string \<Rightarrow> bool" where
  "contains [] p = (p = [])"
| "contains (c # s) p = (startswith (c # s) p \<or> contains s p)"

text \<open>\<open>str.isspace\<close> on one character, for the code points below 256.\<close>

definition char_code :: "char \<Rightarrow> nat" where
  "char_code c = of_char c"

definition is_space :: "char \<Rightarrow> bool" where
  "is_space c = (let n = char_code c in (9 \<le> n \<and> n \<le> 13) \<or> (28 \<le> n \<and> n \<le> 32) \<or> n = 133 \<or> n = 160)"

definition strip :: "string \<Rightarrow> string" where
  "strip s = rev (dropWhile is_space (rev (dropWhile is_space s)))"

definition is_digit :: "char \<Rightarrow> bool" where
  "is_digit c = (CHR ''0'' \<le> c \<and> c \<le> CHR ''9'')"

definition is_lower :: "char \<Rightarrow> bool" where
  "is_lower c = (CHR ''a'' \<le> c \<and> c \<le> CHR ''z'')"

definition is_upper :: "char \<Rightarrow> bool" where
  "is_upper c = (CHR ''A'' \<le> c \<and> c \<le> CHR ''Z'')"

definition is_hex :: "char \<Rightarrow> bool" where
  "is_hex c = (is_digit c \<or> (CHR ''a'' \<le> c \<and> c \<le> CHR ''f''))"

definition is_alnum :: "char \<Rightarrow> bool" where
  "is_alnum c = (is_digit c \<or> is_lower c \<or> is_upper c)"

text \<open>\<open>re.fullmatch('[0-9a-f]{n}', s)\<close>\<close>

definition hex_string :: "nat \<Rightarrow> string \<Rightarrow> bool" where
  "hex_string n s = (length s = n \<and> list_all is_hex s)"

text \<open>\<open>s.split(c)\<close> for a one-character separator: always at least one piece.\<close>

fun split_on :: "char \<Rightarrow> string \<Rightarrow> string list" where
  "split_on c [] = [[]]"
| "split_on c (x # s) =
     (if x = c then [] # split_on c s
      else (case split_on c s of [] \<Rightarrow> [[x]] | p # ps \<Rightarrow> (x # p) # ps))"

text \<open>\<open>sep.join(parts)\<close>\<close>

fun join :: "string \<Rightarrow> string list \<Rightarrow> string" where
  "join sep [] = []"
| "join sep [p] = p"
| "join sep (p # ps) = p @ sep @ join sep ps"

lemma split_on_neq_Nil [simp]: "split_on c s \<noteq> []"
  by (cases s) (auto split: list.splits)

lemma join_split_on: "join [c] (split_on c s) = s"
proof (induction s)
  case (Cons x s)
  show ?case
  proof (cases "split_on c s")
    case (Cons p ps)
    then show ?thesis using Cons.IH by (cases ps) auto
  qed simp
qed simp

lemma split_on_no_sep: "p \<in> set (split_on c s) \<Longrightarrow> c \<notin> set p"
proof (induction s arbitrary: p)
  case (Cons x s)
  then show ?case by (cases "split_on c s") (auto split: if_splits)
qed simp

lemma startswith_append [simp]: "startswith (p @ s) p"
  by (simp add: startswith_def)

lemma startswith_iff: "startswith s p \<longleftrightarrow> (\<exists>t. s = p @ t)"
  by (metis append_eq_conv_conj startswith_def append_take_drop_id)

text \<open>Decimal notation of a natural number and of an integer.\<close>

fun show_nat :: "nat \<Rightarrow> string" where
  "show_nat n = (if n < 10 then [char_of (48 + n)] else show_nat (n div 10) @ [char_of (48 + n mod 10)])"

declare show_nat.simps [simp del]

definition show_int :: "int \<Rightarrow> string" where
  "show_int i = (if i < 0 then ''-'' @ show_nat (nat (- i)) else show_nat (nat i))"

text \<open>\<open>'%0wd' % n\<close> for a natural number.\<close>

definition pad_nat :: "nat \<Rightarrow> nat \<Rightarrow> string" where
  "pad_nat w n = (let s = show_nat n in replicate (w - length s) (CHR ''0'') @ s)"

text \<open>The value of a string of ASCII digits, as \<open>int(s)\<close> reads it.\<close>

definition read_nat :: "string \<Rightarrow> nat" where
  "read_nat s = foldl (\<lambda>n c. 10 * n + (char_code c - 48)) 0 s"

lemma read_nat_append: "read_nat (s @ [c]) = 10 * read_nat s + (char_code c - 48)"
  by (simp add: read_nat_def)

lemma char_code_of [simp]: "n < 256 \<Longrightarrow> char_code (char_of n) = n"
  by (simp add: char_code_def)

lemma read_show_nat: "read_nat (show_nat n) = n"
proof (induction n rule: show_nat.induct)
  case (1 n)
  show ?case
  proof (cases "n < 10")
    case True
    then show ?thesis by (simp add: show_nat.simps [of n] read_nat_def)
  next
    case False
    then have "read_nat (show_nat (n div 10)) = n div 10" using 1 by simp
    then show ?thesis using False by (simp add: show_nat.simps [of n] read_nat_append)
  qed
qed

lemma show_nat_inject [simp]: "show_nat m = show_nat n \<longleftrightarrow> m = n"
  by (metis read_show_nat)

lemma read_nat_pad: "read_nat (replicate k (CHR ''0'') @ s) = read_nat s"
proof -
  have "foldl (\<lambda>n c. 10 * n + (char_code c - 48)) 0 (replicate k (CHR ''0'')) = 0"
    by (induction k) (auto simp: char_code_def)
  then show ?thesis by (simp add: read_nat_def)
qed

lemma pad_nat_inject [simp]: "pad_nat w m = pad_nat w n \<longleftrightarrow> m = n"
  by (metis pad_nat_def read_nat_pad read_show_nat)

section \<open>Lists\<close>

text \<open>\<open>list.index(x)\<close> as a natural number, the length when absent.\<close>

fun index_of :: "'a \<Rightarrow> 'a list \<Rightarrow> nat" where
  "index_of x [] = 0"
| "index_of x (y # ys) = (if x = y then 0 else Suc (index_of x ys))"

lemma index_of_nth: "x \<in> set xs \<Longrightarrow> index_of x xs < length xs \<and> xs ! index_of x xs = x"
  by (induction xs) auto

lemma map_of_eq_Some_distinct: "distinct (map fst xs) \<Longrightarrow> (k, v) \<in> set xs \<Longrightarrow> map_of xs k = Some v"
  by simp

end
