(* ===== verification/Binary64.thy ===== *)
theory Binary64
  imports Complex_Main "HOL-Library.Log_Nat"
begin

text \<open>
  IEEE 754 binary64, the arithmetic behind Python's \<open>float\<close>.  A finite float
  is the rational it denotes (the two zeros are one value; no code of the
  repository tells them apart), and every operation is the exact rational
  operation followed by \<open>rnd\<close>: round to nearest, ties to even, with the
  subnormal range (exponent at least -1074) and overflow to an infinity.
  The lemmas are the facts a proof about float code needs: rounding is
  monotone and leaves representable values unchanged.
\<close>

section \<open>Rounding\<close>

text \<open>Round half to even.\<close>

definition rne :: "rat \<Rightarrow> int" where
  "rne x = (let f = floor x; d = x - of_int f in
     if d < 1 / 2 then f else if d > 1 / 2 then f + 1 else if even f then f else f + 1)"

text \<open>The binary exponent of a positive rational: \<open>2 powi ilog2 x \<le> x < 2 powi (ilog2 x + 1)\<close>.\<close>

definition ilog2 :: "rat \<Rightarrow> int" where
  "ilog2 x = (let (p, q) = quotient_of x; k = int (floorlog 2 (nat p)) - int (floorlog 2 (nat q)) in
     if (2::rat) powi k \<le> x then k else k - 1)"

text \<open>The exponent of the unit in the last place of a positive value.\<close>

definition ulp_exp :: "rat \<Rightarrow> int" where
  "ulp_exp x = max (ilog2 x - 52) (-1074)"

definition rnd_pos :: "rat \<Rightarrow> rat" where
  "rnd_pos x = of_int (rne (x / 2 powi ulp_exp x)) * 2 powi ulp_exp x"

definition rnd :: "rat \<Rightarrow> rat" where
  "rnd x = (if x = 0 then 0 else if 0 < x then rnd_pos x else - rnd_pos (- x))"

definition max_finite :: rat where
  "max_finite = 2 ^ 1024 - 2 ^ 971"

definition representable :: "rat \<Rightarrow> bool" where
  "representable x = (rnd x = x \<and> \<bar>x\<bar> \<le> max_finite)"

lemma rne_of_int [simp]: "rne (of_int i) = i"
  by (simp add: rne_def)

lemma rne_lower: "floor x \<le> rne x"
  by (simp add: rne_def Let_def)

lemma rne_upper: "rne x \<le> floor x + 1"
  by (simp add: rne_def Let_def)

lemma rne_mono: "x \<le> y \<Longrightarrow> rne x \<le> rne y"
proof -
  assume le: "x \<le> y"
  then have fl: "floor x \<le> floor y" by (rule floor_mono)
  show ?thesis
  proof (cases "floor x = floor y")
    case True
    then show ?thesis using le by (simp add: rne_def Let_def)
  next
    case False
    with fl have "floor x + 1 \<le> floor y" by simp
    then show ?thesis using rne_upper [of x] rne_lower [of y] by simp
  qed
qed

lemma ilog2_bounds:
  assumes "0 < x"
  shows "2 powi ilog2 x \<le> x" "x < 2 powi (ilog2 x + 1)"
proof -
  obtain p q where pq: "quotient_of x = (p, q)" by (cases "quotient_of x")
  then have q: "0 < q" and x: "x = of_int p / of_int q"
    by (auto simp: quotient_of_denom_pos quotient_of_div)
  with assms have p: "0 < p" by (simp add: zero_less_divide_iff)
  define a b where "a = floorlog 2 (nat p)" and "b = floorlog 2 (nat q)"
  have "int (2 ^ (a - 1)) \<le> p \<and> p < int (2 ^ a)"
    using floorlog_bounds [of "nat p" 2] p unfolding a_def by (simp add: nat_less_iff le_nat_iff)
  moreover have "int (2 ^ (b - 1)) \<le> q \<and> q < int (2 ^ b)"
    using floorlog_bounds [of "nat q" 2] q unfolding b_def by (simp add: nat_less_iff le_nat_iff)
  ultimately have B: "2 ^ (a - 1) \<le> (of_int p :: rat)" "(of_int p :: rat) < 2 ^ a"
      "2 ^ (b - 1) \<le> (of_int q :: rat)" "(of_int q :: rat) < 2 ^ b"
    by (metis of_int_le_iff of_int_less_iff of_int_of_nat_eq of_int_numeral of_int_power of_nat_numeral of_nat_power)+
  have ab: "a \<noteq> 0" "b \<noteq> 0" unfolding a_def b_def using p q by (auto simp: floorlog_eq_zero_iff)
  define k where "k = int a - int b"
  have A1: "(2::rat) ^ a = 2 * 2 ^ (a - 1)" using ab(1) by (cases a) auto
  have B1: "(2::rat) ^ b = 2 * 2 ^ (b - 1)" using ab(2) by (cases b) auto
  have pw: "(2::rat) powi k = 2 ^ a / 2 ^ b"
    by (simp add: k_def power_int_diff)
  have pw1: "(2::rat) powi (k + 1) = 2 * 2 ^ a / 2 ^ b" and pw2: "(2::rat) powi (k - 1) = 2 ^ a / 2 ^ b / 2"
    using pw by (simp_all add: power_int_add power_int_diff)
  have qpos: "(0::rat) < of_int q" using q by simp
  have "x < 2 ^ a / of_int q" using B(2) qpos by (simp add: x divide_strict_right_mono)
  also have "\<dots> \<le> 2 ^ a / 2 ^ (b - 1)" using B(3) q by (intro divide_left_mono) auto
  also have "\<dots> = 2 powi (k + 1)" by (simp add: pw1 B1)
  finally have up: "x < 2 powi (k + 1)" .
  have "(2::rat) powi (k - 1) = 2 ^ (a - 1) / 2 ^ b" by (simp add: pw2 A1)
  also have "\<dots> \<le> 2 ^ (a - 1) / of_int q" using B(4) qpos q by (intro divide_left_mono) auto
  also have "\<dots> \<le> x" using B(1) qpos by (simp add: x divide_right_mono)
  finally have lo: "2 powi (k - 1) \<le> x" .
  have e: "ilog2 x = (if 2 powi k \<le> x then k else k - 1)"
    by (simp add: ilog2_def pq k_def a_def b_def)
  show "2 powi ilog2 x \<le> x" "x < 2 powi (ilog2 x + 1)"
    using e up lo by (auto split: if_splits)
qed

lemma powi_mono2: "i \<le> j \<Longrightarrow> (2::rat) powi i \<le> 2 powi j"
  by (simp add: power_int_increasing)

lemma ilog2_unique:
  assumes "2 powi k \<le> x" "x < 2 powi (k + 1)"
  shows "ilog2 x = k"
proof -
  have "0 < x" using assms(1) by (smt (verit) zero_less_power_int less_le_trans zero_less_numeral)
  note b = ilog2_bounds [OF this]
  have "\<not> ilog2 x + 1 \<le> k" using b(2) assms(1) powi_mono2 [of "ilog2 x + 1" k] by linarith
  moreover have "\<not> k + 1 \<le> ilog2 x" using b(1) assms(2) powi_mono2 [of "k + 1" "ilog2 x"] by linarith
  ultimately show ?thesis by simp
qed

lemma ilog2_mono: "0 < x \<Longrightarrow> x \<le> y \<Longrightarrow> ilog2 x \<le> ilog2 y"
proof (rule ccontr)
  assume h: "0 < x" "x \<le> y" "\<not> ilog2 x \<le> ilog2 y"
  then have "2 powi (ilog2 y + 1) \<le> (2::rat) powi ilog2 x" by (intro powi_mono2) simp
  then show False using ilog2_bounds [of x] ilog2_bounds [of y] h by linarith
qed

lemma ulp_exp_mono: "0 < x \<Longrightarrow> x \<le> y \<Longrightarrow> ulp_exp x \<le> ulp_exp y"
  using ilog2_mono [of x y] by (simp add: ulp_exp_def)

text \<open>A power of two at or above the unit in the last place is a fixed point of the
  scaled rounding.\<close>

lemma powi_ratio_int: "e \<le> n \<Longrightarrow> (2::rat) powi n / 2 powi e = of_int (2 ^ nat (n - e))"
proof -
  assume "e \<le> n"
  have "(2::rat) powi n / 2 powi e = 2 powi (n - e)" by (simp add: power_int_diff)
  also have "\<dots> = of_int (2 ^ nat (n - e))" using \<open>e \<le> n\<close> by (simp add: power_int_def)
  finally show ?thesis .
qed

lemma rnd_pos_mono:
  assumes "0 < x" "x \<le> y"
  shows "rnd_pos x \<le> rnd_pos y"
proof (cases "ulp_exp x = ulp_exp y")
  case True
  have "rne (x / 2 powi ulp_exp x) \<le> rne (y / 2 powi ulp_exp x)"
    using assms by (intro rne_mono divide_right_mono) auto
  then show ?thesis using True by (simp add: rnd_pos_def)
next
  case False
  with ulp_exp_mono [OF assms] have lt: "ulp_exp x < ulp_exp y" by simp
  define n where "n = ilog2 y"
  from lt have n: "ulp_exp y = n - 52" and nx: "ilog2 x < n"
    by (auto simp: ulp_exp_def n_def)
  have y0: "0 < y" using assms by simp
  have "x \<le> 2 powi n"
    using ilog2_bounds(2) [OF assms(1)] powi_mono2 [of "ilog2 x + 1" n] nx by linarith
  then have "rne (x / 2 powi ulp_exp x) \<le> rne (2 powi n / 2 powi ulp_exp x)"
    by (intro rne_mono divide_right_mono) auto
  also have "\<dots> = 2 ^ nat (n - ulp_exp x)"
    using lt n by (subst powi_ratio_int) (simp, simp only: rne_of_int)
  finally have "of_int (rne (x / 2 powi ulp_exp x)) \<le> (of_int (2 ^ nat (n - ulp_exp x)) :: rat)"
    by (simp only: of_int_le_iff)
  also have "\<dots> = 2 powi n / 2 powi ulp_exp x"
    using lt n by (subst powi_ratio_int) auto
  finally have "rnd_pos x \<le> 2 powi n"
    unfolding rnd_pos_def by (simp add: pos_le_divide_eq)
  moreover have "2 powi n \<le> rnd_pos y"
  proof -
    have "2 powi n / 2 powi ulp_exp y \<le> y / 2 powi ulp_exp y"
      using ilog2_bounds(1) [OF y0] by (intro divide_right_mono) (auto simp: n_def)
    then have "rne (2 powi n / 2 powi ulp_exp y) \<le> rne (y / 2 powi ulp_exp y)" by (rule rne_mono)
    moreover have r: "(2::rat) powi n / 2 powi ulp_exp y = of_int (2 ^ nat (n - ulp_exp y))"
      using n by (intro powi_ratio_int) simp
    ultimately have "2 ^ nat (n - ulp_exp y) \<le> rne (y / 2 powi ulp_exp y)" by (simp only: rne_of_int)
    then have "(of_int (2 ^ nat (n - ulp_exp y)) :: rat) \<le> of_int (rne (y / 2 powi ulp_exp y))"
      by (simp only: of_int_le_iff)
    then show ?thesis unfolding rnd_pos_def r [symmetric] by (simp add: pos_divide_le_eq)
  qed
  ultimately show ?thesis by simp
qed

lemma rnd_pos_nonneg: "0 < x \<Longrightarrow> 0 \<le> rnd_pos x"
proof -
  assume "0 < x"
  then have "rne 0 \<le> rne (x / 2 powi ulp_exp x)" by (intro rne_mono) simp
  moreover have "rne 0 = 0" using rne_of_int [of 0] by simp
  ultimately show ?thesis by (simp add: rnd_pos_def)
qed

lemma rnd_mono: "x \<le> y \<Longrightarrow> rnd x \<le> rnd y"
proof -
  assume le: "x \<le> y"
  consider "0 < x" | "x \<le> 0" "0 \<le> y" | "y < 0" by linarith
  then show ?thesis
  proof cases
    case 1 then show ?thesis using le rnd_pos_mono [of x y] by (simp add: rnd_def)
  next
    case 2
    then have "rnd x \<le> 0" "0 \<le> rnd y"
      using rnd_pos_nonneg [of y] rnd_pos_nonneg [of "- x"] by (auto simp: rnd_def)
    then show ?thesis by simp
  next
    case 3 then show ?thesis using le rnd_pos_mono [of "- y" "- x"] by (simp add: rnd_def)
  qed
qed

lemma rnd_0 [simp]: "rnd 0 = 0"
  by (simp add: rnd_def)

lemma rnd_minus: "rnd (- x) = - rnd x"
  by (auto simp: rnd_def)

lemma rnd_nonneg: "0 \<le> x \<Longrightarrow> 0 \<le> rnd x"
  using rnd_mono [of 0 x] by simp

text \<open>An integer of at most 53 bits is its own rounding.\<close>

lemma rnd_pos_scaled:
  assumes "x = of_int m * 2 powi e" "0 < m" "m \<le> 2 ^ 53" "-1074 \<le> e"
  shows "rnd_pos x = x"
proof -
  have x0: "0 < x" using assms by simp
  have m53: "(of_int m :: rat) \<le> 2 powi 53"
  proof -
    have "(of_int m :: rat) \<le> of_int (2 ^ 53)" using assms(3) by (simp only: of_int_le_iff)
    then show ?thesis by (simp add: power_int_def)
  qed
  have up: "x \<le> 2 powi (53 + e)"
    using m53 by (simp add: assms(1) power_int_add)
  have il: "ilog2 x \<le> 53 + e"
  proof (rule ccontr)
    assume "\<not> ilog2 x \<le> 53 + e"
    then have "2 powi (53 + e + 1) \<le> (2::rat) powi ilog2 x" by (intro powi_mono2) simp
    moreover have "(2::rat) powi (53 + e) < 2 powi (53 + e + 1)"
      by (intro power_int_strict_increasing) auto
    ultimately show False using ilog2_bounds(1) [OF x0] up by linarith
  qed
  show ?thesis
  proof (cases "ulp_exp x \<le> e")
    case True
    define u where "u = ulp_exp x"
    have r: "(2::rat) powi e / 2 powi u = of_int (2 ^ nat (e - u))"
      using True unfolding u_def by (rule powi_ratio_int)
    have "x / 2 powi u = of_int m * (2 powi e / 2 powi u)" by (simp add: assms(1))
    also have "\<dots> = of_int (m * 2 ^ nat (e - u))" by (simp only: r of_int_mult)
    finally have xu: "x / 2 powi u = of_int (m * 2 ^ nat (e - u))" .
    have "rnd_pos x = of_int (m * 2 ^ nat (e - u)) * 2 powi u"
      unfolding rnd_pos_def u_def [symmetric] xu by (simp only: rne_of_int)
    also have "\<dots> = x" by (simp only: xu [symmetric]) simp
    finally show ?thesis .
  next
    case False
    with il assms(4) have eq: "ilog2 x = 53 + e" by (auto simp: ulp_exp_def)
    then have xe: "x = 2 powi (53 + e)" using ilog2_bounds(1) [OF x0] up by simp
    have u: "ulp_exp x = e + 1" using eq assms(4) by (simp add: ulp_exp_def)
    have "x / 2 powi ulp_exp x = of_int (2 ^ nat (53 + e - ulp_exp x))"
      unfolding xe by (rule powi_ratio_int) (use u xe in simp)
    then show ?thesis unfolding rnd_pos_def by (simp only: rne_of_int) (simp add: field_simps)
  qed
qed

lemma rnd_of_int: "\<bar>i\<bar> \<le> 2 ^ 53 \<Longrightarrow> rnd (of_int i) = of_int i"
proof -
  assume h: "\<bar>i\<bar> \<le> 2 ^ 53"
  consider "i = 0" | "0 < i" | "i < 0" by linarith
  then show ?thesis
  proof cases
    case 2 then show ?thesis using h rnd_pos_scaled [of "of_int i" i 0] by (simp add: rnd_def)
  next
    case 3 then show ?thesis using h rnd_pos_scaled [of "- of_int i" "- i" 0] by (simp add: rnd_def)
  qed simp
qed

text \<open>A rounded value is a multiple \<open>m\<close> of a power of two with \<open>m\<close> of at most 53 bits, so
  rounding is idempotent.\<close>

lemma rnd_pos_form:
  assumes "0 < x"
  shows "\<exists>m e. rnd_pos x = of_int m * 2 powi e \<and> 0 \<le> m \<and> m \<le> 2 ^ 53 \<and> -1074 \<le> e"
proof -
  define e where "e = ulp_exp x"
  have "ilog2 x + 1 \<le> 53 + e" by (simp add: e_def ulp_exp_def)
  then have "x < 2 powi (53 + e)"
    using ilog2_bounds(2) [OF assms] powi_mono2 [of "ilog2 x + 1" "53 + e"] by linarith
  then have "x / 2 powi e \<le> of_int (2 ^ 53)"
    by (simp add: power_int_add pos_divide_le_eq power_int_def [of _ 53])
  then have "rne (x / 2 powi e) \<le> 2 ^ 53" using rne_mono by (metis rne_of_int)
  moreover have "0 \<le> rne (x / 2 powi e)"
    using rne_mono [of 0 "x / 2 powi e"] rne_of_int [of 0] assms by simp
  ultimately show ?thesis
    by (intro exI [of _ "rne (x / 2 powi e)"] exI [of _ e]) (simp add: rnd_pos_def e_def ulp_exp_def)
qed

lemma rnd_pos_idem: "0 < x \<Longrightarrow> rnd (rnd_pos x) = rnd_pos x"
proof -
  assume "0 < x"
  from rnd_pos_form [OF this] obtain m e where me:
    "rnd_pos x = of_int m * 2 powi e" "0 \<le> m" "m \<le> 2 ^ 53" "-1074 \<le> e" by blast
  show ?thesis
  proof (cases "m = 0")
    case False
    with me have "0 < m" by simp
    then have "rnd_pos (rnd_pos x) = rnd_pos x" using me rnd_pos_scaled by blast
    then show ?thesis using me \<open>0 < m\<close> by (simp add: rnd_def)
  qed (simp add: me)
qed

lemma rnd_idem [simp]: "rnd (rnd x) = rnd x"
  using rnd_pos_idem [of x] rnd_pos_idem [of "- x"] by (simp add: rnd_def [of x] rnd_minus)

section \<open>Floats and their operations\<close>

datatype flt = Fin rat | PosInf | NegInf | NaN

definition to_flt :: "rat \<Rightarrow> flt" where
  "to_flt x = (let r = rnd x in if r > max_finite then PosInf else if r < - max_finite then NegInf else Fin r)"

definition is_finite :: "flt \<Rightarrow> bool" where
  "is_finite f = (case f of Fin _ \<Rightarrow> True | _ \<Rightarrow> False)"

text \<open>Comparisons: every comparison with a NaN is false.\<close>

fun flt_le :: "flt \<Rightarrow> flt \<Rightarrow> bool" where
  "flt_le NaN _ = False"
| "flt_le _ NaN = False"
| "flt_le NegInf _ = True"
| "flt_le _ PosInf = True"
| "flt_le (Fin a) (Fin b) = (a \<le> b)"
| "flt_le _ _ = False"

fun flt_eq :: "flt \<Rightarrow> flt \<Rightarrow> bool" where
  "flt_eq NaN _ = False"
| "flt_eq a b = (a = b)"

definition flt_less :: "flt \<Rightarrow> flt \<Rightarrow> bool" where
  "flt_less a b = (flt_le a b \<and> \<not> flt_le b a)"

fun flt_neg :: "flt \<Rightarrow> flt" where
  "flt_neg (Fin a) = Fin (- a)"
| "flt_neg PosInf = NegInf"
| "flt_neg NegInf = PosInf"
| "flt_neg NaN = NaN"

fun flt_add :: "flt \<Rightarrow> flt \<Rightarrow> flt" where
  "flt_add (Fin a) (Fin b) = to_flt (a + b)"
| "flt_add NaN _ = NaN"
| "flt_add _ NaN = NaN"
| "flt_add PosInf NegInf = NaN"
| "flt_add NegInf PosInf = NaN"
| "flt_add PosInf _ = PosInf"
| "flt_add _ PosInf = PosInf"
| "flt_add NegInf _ = NegInf"
| "flt_add _ NegInf = NegInf"

definition flt_sub :: "flt \<Rightarrow> flt \<Rightarrow> flt" where
  "flt_sub a b = flt_add a (flt_neg b)"

definition inf_of :: "rat \<Rightarrow> flt" where
  "inf_of s = (if s = 0 then NaN else if 0 < s then PosInf else NegInf)"

fun flt_sgn :: "flt \<Rightarrow> rat" where
  "flt_sgn (Fin a) = sgn a"
| "flt_sgn PosInf = 1"
| "flt_sgn NegInf = -1"
| "flt_sgn NaN = 0"

fun flt_mul :: "flt \<Rightarrow> flt \<Rightarrow> flt" where
  "flt_mul (Fin a) (Fin b) = to_flt (a * b)"
| "flt_mul NaN _ = NaN"
| "flt_mul _ NaN = NaN"
| "flt_mul a b = inf_of (flt_sgn a * flt_sgn b)"

text \<open>Division by a nonzero divisor (Python raises ZeroDivisionError first).\<close>

fun flt_div :: "flt \<Rightarrow> flt \<Rightarrow> flt" where
  "flt_div (Fin a) (Fin b) = to_flt (a / b)"
| "flt_div NaN _ = NaN"
| "flt_div _ NaN = NaN"
| "flt_div (Fin _) _ = Fin 0"
| "flt_div a (Fin b) = inf_of (flt_sgn a * (if 0 \<le> b then 1 else -1))"
| "flt_div _ _ = NaN"

lemma to_flt_0 [simp]: "to_flt 0 = Fin 0"
  by (simp add: to_flt_def max_finite_def)

lemma to_flt_representable: "representable x \<Longrightarrow> to_flt x = Fin x"
  by (auto simp: to_flt_def representable_def Let_def)

lemma to_flt_mono: "x \<le> y \<Longrightarrow> flt_le (to_flt x) (to_flt y)"
  using rnd_mono [of x y] by (auto simp: to_flt_def Let_def)

lemma to_flt_Fin: "to_flt x = Fin r \<Longrightarrow> r = rnd x \<and> representable r"
  by (auto simp: to_flt_def representable_def Let_def split: if_splits)

lemma to_flt_not_NaN [simp]: "to_flt x \<noteq> NaN"
  by (simp add: to_flt_def Let_def)

lemma flt_le_refl [simp]: "flt_le a a \<longleftrightarrow> a \<noteq> NaN"
  by (cases a) auto

lemma flt_le_trans: "flt_le a b \<Longrightarrow> flt_le b c \<Longrightarrow> flt_le a c"
  by (cases a; cases b; cases c) auto

lemma flt_le_total: "a \<noteq> NaN \<Longrightarrow> b \<noteq> NaN \<Longrightarrow> flt_le a b \<or> flt_le b a"
  by (cases a; cases b) auto

lemma flt_le_Fin [simp]: "flt_le (Fin a) (Fin b) \<longleftrightarrow> a \<le> b"
  by simp

lemma flt_less_Fin [simp]: "flt_less (Fin a) (Fin b) \<longleftrightarrow> a < b"
  by (auto simp: flt_less_def)

lemma flt_eq_refl [simp]: "flt_eq a a \<longleftrightarrow> a \<noteq> NaN"
  by (cases a) auto

lemma flt_eq_iff: "flt_eq a b \<longleftrightarrow> a = b \<and> a \<noteq> NaN"
  by (cases a; cases b) auto

lemma to_flt_numeral: "(numeral n :: int) \<le> 2 ^ 53 \<Longrightarrow> to_flt (numeral n) = Fin (numeral n)"
proof -
  assume n: "(numeral n :: int) \<le> 2 ^ 53"
  then have "rnd (of_int (numeral n)) = of_int (numeral n)" by (intro rnd_of_int) simp
  moreover have "of_int (numeral n) \<le> (of_int (2 ^ 53) :: rat)" using n by (simp only: of_int_le_iff)
  then have "of_int (numeral n) \<le> max_finite" by (rule order_trans) (simp add: max_finite_def)
  moreover have "- max_finite \<le> (0 :: rat)" by (simp add: max_finite_def)
  from order_trans [OF this zero_le_numeral] have "\<not> (numeral n :: rat) < - max_finite" by (simp only: not_less)
  ultimately show ?thesis unfolding of_int_numeral by (auto simp: to_flt_def Let_def)
qed

end
