(* ===== verification/PyValue.thy ===== *)
theory PyValue
  imports Prelude Binary64
begin

text \<open>
  The values the Python code computes with after \<open>json.loads\<close>: None, bool,
  int, float, str, list and dict.  A dict is an association list in insertion
  order; \<open>wf_pv\<close> says that no key occurs twice, which the loaders of the
  repository enforce (\<open>object_pairs_hook\<close>).  Subscripts, \<open>.get\<close>, iteration and
  comparison raise where Python raises.  \<open>json_equal\<close> is the comparison of
  \<open>harness/common.py\<close>; \<open>py_eq\<close> is Python's own \<open>==\<close> on the same values.
  The texts of interpreter-raised TypeError and AttributeError are abbreviated
  to the key or operator concerned.
\<close>

datatype pv =
    PNone
  | PBool bool
  | PInt int
  | PFloat flt
  | PStr string
  | PList "pv list"
  | PDict "(string \<times> pv) list"

section \<open>Types and truth\<close>

definition is_str :: "pv \<Rightarrow> bool" where
  "is_str v = (case v of PStr _ \<Rightarrow> True | _ \<Rightarrow> False)"

definition is_dict :: "pv \<Rightarrow> bool" where
  "is_dict v = (case v of PDict _ \<Rightarrow> True | _ \<Rightarrow> False)"

definition is_list :: "pv \<Rightarrow> bool" where
  "is_list v = (case v of PList _ \<Rightarrow> True | _ \<Rightarrow> False)"

definition is_int :: "pv \<Rightarrow> bool" where
  "is_int v = (case v of PInt _ \<Rightarrow> True | _ \<Rightarrow> False)"

definition is_bool :: "pv \<Rightarrow> bool" where
  "is_bool v = (case v of PBool _ \<Rightarrow> True | _ \<Rightarrow> False)"

text \<open>\<open>type(v) in (int, float)\<close>: a bool is not a number here.\<close>

definition is_num :: "pv \<Rightarrow> bool" where
  "is_num v = (case v of PInt _ \<Rightarrow> True | PFloat _ \<Rightarrow> True | _ \<Rightarrow> False)"

definition str_of :: "pv \<Rightarrow> string" where
  "str_of v = (case v of PStr s \<Rightarrow> s | _ \<Rightarrow> [])"

definition items_of :: "pv \<Rightarrow> (string \<times> pv) list" where
  "items_of v = (case v of PDict d \<Rightarrow> d | _ \<Rightarrow> [])"

definition elems_of :: "pv \<Rightarrow> pv list" where
  "elems_of v = (case v of PList xs \<Rightarrow> xs | _ \<Rightarrow> [])"

definition int_of_pv :: "pv \<Rightarrow> int" where
  "int_of_pv v = (case v of PInt i \<Rightarrow> i | _ \<Rightarrow> 0)"

definition truthy :: "pv \<Rightarrow> bool" where
  "truthy v = (case v of PNone \<Rightarrow> False | PBool b \<Rightarrow> b | PInt i \<Rightarrow> i \<noteq> 0 | PFloat f \<Rightarrow> f \<noteq> Fin 0
     | PStr s \<Rightarrow> s \<noteq> [] | PList xs \<Rightarrow> xs \<noteq> [] | PDict d \<Rightarrow> d \<noteq> [])"

lemmas type_tests = is_str_def is_dict_def is_list_def is_int_def is_bool_def is_num_def

lemma type_test_simps [simp]:
  "is_str (PStr s)" "\<not> is_str PNone" "\<not> is_str (PBool b)" "\<not> is_str (PInt i)" "\<not> is_str (PFloat f)"
  "\<not> is_str (PList xs)" "\<not> is_str (PDict d)"
  "is_dict (PDict d)" "\<not> is_dict PNone" "\<not> is_dict (PBool b)" "\<not> is_dict (PInt i)"
  "\<not> is_dict (PFloat f)" "\<not> is_dict (PStr s)" "\<not> is_dict (PList xs)"
  "is_list (PList xs)" "\<not> is_list PNone" "\<not> is_list (PBool b)" "\<not> is_list (PInt i)"
  "\<not> is_list (PFloat f)" "\<not> is_list (PStr s)" "\<not> is_list (PDict d)"
  "is_int (PInt i)" "\<not> is_int PNone" "\<not> is_int (PBool b)" "\<not> is_int (PFloat f)"
  "\<not> is_int (PStr s)" "\<not> is_int (PList xs)" "\<not> is_int (PDict d)"
  "is_bool (PBool b)" "\<not> is_bool PNone" "\<not> is_bool (PInt i)" "\<not> is_bool (PFloat f)"
  "\<not> is_bool (PStr s)" "\<not> is_bool (PList xs)" "\<not> is_bool (PDict d)"
  "is_num (PInt i)" "is_num (PFloat f)" "\<not> is_num PNone" "\<not> is_num (PBool b)"
  "\<not> is_num (PStr s)" "\<not> is_num (PList xs)" "\<not> is_num (PDict d)"
  by (simp_all add: type_tests)

lemma accessor_simps [simp]:
  "str_of (PStr s) = s" "items_of (PDict d) = d" "elems_of (PList xs) = xs" "int_of_pv (PInt i) = i"
  by (simp_all add: str_of_def items_of_def elems_of_def int_of_pv_def)

lemma is_str_iff: "is_str v \<longleftrightarrow> v = PStr (str_of v)"
  by (cases v) auto

lemma is_dict_iff: "is_dict v \<longleftrightarrow> v = PDict (items_of v)"
  by (cases v) auto

lemma is_list_iff: "is_list v \<longleftrightarrow> v = PList (elems_of v)"
  by (cases v) auto

lemma is_int_iff: "is_int v \<longleftrightarrow> v = PInt (int_of_pv v)"
  by (cases v) auto

lemma truthy_simps [simp]:
  "\<not> truthy PNone" "truthy (PBool b) = b" "truthy (PInt i) = (i \<noteq> 0)" "truthy (PStr s) = (s \<noteq> [])"
  "truthy (PList xs) = (xs \<noteq> [])" "truthy (PDict d) = (d \<noteq> [])" "truthy (PFloat f) = (f \<noteq> Fin 0)"
  by (simp_all add: truthy_def)

section \<open>Access\<close>

text \<open>\<open>v[k]\<close> for a string key, \<open>v.get(k, d)\<close>, \<open>k in v\<close> for a dict, and the membership test
  of a dict key.\<close>

definition getitem :: "pv \<Rightarrow> string \<Rightarrow> pv res" where
  "getitem v k = (case v of
     PDict d \<Rightarrow> (case map_of d k of Some x \<Rightarrow> Inr x | None \<Rightarrow> Inl (KeyError k))
   | _ \<Rightarrow> Inl (TypeError k))"

definition pget :: "pv \<Rightarrow> string \<Rightarrow> pv \<Rightarrow> pv res" where
  "pget v k d = (case v of
     PDict m \<Rightarrow> Inr (case map_of m k of Some x \<Rightarrow> x | None \<Rightarrow> d)
   | _ \<Rightarrow> Inl (AttributeError k))"

abbreviation pgetn :: "pv \<Rightarrow> string \<Rightarrow> pv res" where
  "pgetn v k \<equiv> pget v k PNone"

text \<open>Reading \<open>v[k]\<close> and going on with it.\<close>

abbreviation item :: "pv \<Rightarrow> string \<Rightarrow> (pv \<Rightarrow> 'a res) \<Rightarrow> 'a res" where
  "item v k f \<equiv> ebind (getitem v k) f"

definition has_key :: "pv \<Rightarrow> string \<Rightarrow> bool" where
  "has_key v k = (k \<in> fst ` set (items_of v))"

definition keys :: "pv \<Rightarrow> string list" where
  "keys v = map fst (items_of v)"

definition vals :: "pv \<Rightarrow> pv list" where
  "vals v = map snd (items_of v)"

text \<open>\<open>v.items()\<close>, \<open>v.values()\<close> and \<open>for x in v\<close> on a list: a value of another type raises.\<close>

definition py_items :: "pv \<Rightarrow> (string \<times> pv) list res" where
  "py_items v = (case v of PDict d \<Rightarrow> Inr d | _ \<Rightarrow> Inl (AttributeError ''items''))"

definition py_values :: "pv \<Rightarrow> pv list res" where
  "py_values v = (case v of PDict d \<Rightarrow> Inr (map snd d) | _ \<Rightarrow> Inl (AttributeError ''values''))"

text \<open>Iteration: a dict yields its keys, a str its characters.\<close>

definition py_iter :: "pv \<Rightarrow> pv list res" where
  "py_iter v = (case v of
     PList xs \<Rightarrow> Inr xs
   | PDict d \<Rightarrow> Inr (map (\<lambda>p. PStr (fst p)) d)
   | PStr s \<Rightarrow> Inr (map (\<lambda>c. PStr [c]) s)
   | _ \<Rightarrow> Inl (TypeError ''iter''))"

text \<open>\<open>n in v\<close>\<close>

definition py_in :: "string \<Rightarrow> pv \<Rightarrow> bool res" where
  "py_in n v = (case v of PDict d \<Rightarrow> Inr (n \<in> set (map fst d)) | PList xs \<Rightarrow> Inr (PStr n \<in> set xs)
     | PStr s \<Rightarrow> Inr (contains s n) | _ \<Rightarrow> Inl (TypeError ''not iterable''))"

text \<open>\<open>str(v)\<close>; \<open>render\<close> prints floats, lists and dicts.\<close>

definition py_str :: "(pv \<Rightarrow> string) \<Rightarrow> pv \<Rightarrow> string" where
  "py_str render v = (case v of PStr s \<Rightarrow> s | PInt i \<Rightarrow> show_int i | PBool b \<Rightarrow> if b then ''True'' else ''False''
     | PNone \<Rightarrow> ''None'' | _ \<Rightarrow> render v)"

lemma access_simps [simp]:
  "getitem (PDict d) k = (case map_of d k of Some x \<Rightarrow> Inr x | None \<Rightarrow> Inl (KeyError k))"
  "pget (PDict d) k x = Inr (case map_of d k of Some y \<Rightarrow> y | None \<Rightarrow> x)"
  "py_items (PDict d) = Inr d" "py_values (PDict d) = Inr (map snd d)"
  "py_iter (PList xs) = Inr xs" "py_iter (PDict d) = Inr (map (\<lambda>p. PStr (fst p)) d)"
  "py_iter (PStr s) = Inr (map (\<lambda>c. PStr [c]) s)"
  "keys (PDict d) = map fst d" "vals (PDict d) = map snd d"
  "has_key (PDict d) k = (k \<in> fst ` set d)"
  by (simp_all add: getitem_def pget_def py_items_def py_values_def py_iter_def keys_def vals_def has_key_def)

lemma getitem_eq_Inr: "getitem v k = Inr x \<longleftrightarrow> is_dict v \<and> map_of (items_of v) k = Some x"
  by (cases v) (auto simp: getitem_def split: option.splits)

lemma pget_eq_Inr: "pget v k d = Inr x \<longleftrightarrow> is_dict v \<and> x = (case map_of (items_of v) k of Some y \<Rightarrow> y | None \<Rightarrow> d)"
  by (cases v) (auto simp: pget_def)

lemma py_items_eq_Inr: "py_items v = Inr d \<longleftrightarrow> v = PDict d"
  by (cases v) (auto simp: py_items_def)

lemma py_values_eq_Inr: "py_values v = Inr xs \<longleftrightarrow> (\<exists>d. v = PDict d \<and> xs = map snd d)"
  by (cases v) (auto simp: py_values_def)

lemma pget_dict: "is_dict v \<Longrightarrow> \<exists>x. pget v k d = Inr x"
  by (cases v) auto

lemma getitem_has_key: "is_dict v \<Longrightarrow> has_key v k \<Longrightarrow> \<exists>x. getitem v k = Inr x \<and> (k, x) \<in> set (items_of v)"
proof (cases v)
  case (PDict d)
  moreover assume "has_key v k"
  ultimately have "k \<in> dom (map_of d)" by (simp add: dom_map_of_conv_image_fst)
  then show ?thesis using PDict by (auto dest: map_of_SomeD)
qed auto

lemma only_pget [only_intros]: "is_dict v \<Longrightarrow> only P (pget v k d)"
  by (cases v) auto

section \<open>Well-formed values\<close>

fun wf_pv :: "pv \<Rightarrow> bool" where
  "wf_pv (PList xs) = list_all wf_pv xs"
| "wf_pv (PDict d) = (distinct (map fst d) \<and> list_all (\<lambda>(k, v). wf_pv v) d)"
| "wf_pv (PFloat f) = is_finite f"
| "wf_pv _ = True"

lemma wf_getitem: "wf_pv v \<Longrightarrow> getitem v k = Inr x \<Longrightarrow> wf_pv x"
  by (cases v) (fastforce simp: getitem_def list_all_iff split: option.splits dest!: map_of_SomeD)+

section \<open>Numbers\<close>

text \<open>The exact value of a number (bool counts as 0 or 1 in arithmetic and comparison);
  Python compares an int with a float exactly.\<close>

fun numval :: "pv \<Rightarrow> flt option" where
  "numval (PBool b) = Some (Fin (if b then 1 else 0))"
| "numval (PInt i) = Some (Fin (of_int i))"
| "numval (PFloat f) = Some f"
| "numval _ = None"

definition py_le :: "pv \<Rightarrow> pv \<Rightarrow> bool res" where
  "py_le a b = (case (numval a, numval b) of
     (Some x, Some y) \<Rightarrow> Inr (flt_le x y)
   | _ \<Rightarrow> (case (a, b) of (PStr s, PStr t) \<Rightarrow> Inr (s \<le> t) | _ \<Rightarrow> Inl (TypeError ''<='')))"

definition py_less :: "pv \<Rightarrow> pv \<Rightarrow> bool res" where
  "py_less a b = (case (numval a, numval b) of
     (Some x, Some y) \<Rightarrow> Inr (flt_less x y)
   | _ \<Rightarrow> (case (a, b) of (PStr s, PStr t) \<Rightarrow> Inr (s < t) | _ \<Rightarrow> Inl (TypeError ''<'')))"

text \<open>Conversion to float: an int is rounded, and raises OverflowError when out of range.\<close>

definition to_float :: "pv \<Rightarrow> flt res" where
  "to_float v = (case v of
     PFloat f \<Rightarrow> Inr f
   | PInt i \<Rightarrow> (case to_flt (of_int i) of Fin x \<Rightarrow> Inr (Fin x) | _ \<Rightarrow> Inl (OverflowError ''int too large to convert to float''))
   | PBool b \<Rightarrow> Inr (Fin (if b then 1 else 0))
   | _ \<Rightarrow> Inl (TypeError ''float''))"

text \<open>\<open>math.isfinite(v)\<close> of a number: a huge int raises OverflowError.\<close>

definition isfinite :: "pv \<Rightarrow> bool res" where
  "isfinite v = ebind (to_float v) (\<lambda>f. Inr (is_finite f))"

definition int_like :: "pv \<Rightarrow> int option" where
  "int_like v = (case v of PInt i \<Rightarrow> Some i | PBool b \<Rightarrow> Some (if b then 1 else 0) | _ \<Rightarrow> None)"

definition num_op :: "(int \<Rightarrow> int \<Rightarrow> int) \<Rightarrow> (flt \<Rightarrow> flt \<Rightarrow> flt) \<Rightarrow> pv \<Rightarrow> pv \<Rightarrow> pv res" where
  "num_op iop fop a b = (case (int_like a, int_like b) of
     (Some i, Some j) \<Rightarrow> Inr (PInt (iop i j))
   | _ \<Rightarrow> ebind (to_float a) (\<lambda>x. ebind (to_float b) (\<lambda>y. Inr (PFloat (fop x y)))))"

definition py_add :: "pv \<Rightarrow> pv \<Rightarrow> pv res" where "py_add = num_op (+) flt_add"
definition py_sub :: "pv \<Rightarrow> pv \<Rightarrow> pv res" where "py_sub = num_op (-) flt_sub"
definition py_mul :: "pv \<Rightarrow> pv \<Rightarrow> pv res" where "py_mul = num_op (*) flt_mul"

text \<open>True division: two ints are divided exactly and rounded once.\<close>

definition py_div :: "pv \<Rightarrow> pv \<Rightarrow> pv res" where
  "py_div a b = (case (int_like a, int_like b) of
     (Some i, Some j) \<Rightarrow>
       (if j = 0 then Inl (ZeroDivisionError ''division by zero'')
        else (case to_flt (of_int i / of_int j) of
            Fin x \<Rightarrow> Inr (PFloat (Fin x))
          | _ \<Rightarrow> Inl (OverflowError ''integer division result too large for a float'')))
   | _ \<Rightarrow> ebind (to_float a) (\<lambda>x. ebind (to_float b) (\<lambda>y.
       if y = Fin 0 then Inl (ZeroDivisionError ''float division by zero'')
       else Inr (PFloat (flt_div x y)))))"

section \<open>Equality\<close>

definition num_eq :: "pv \<Rightarrow> pv \<Rightarrow> bool" where
  "num_eq a b = (case (numval a, numval b) of (Some x, Some y) \<Rightarrow> flt_eq x y | _ \<Rightarrow> False)"

text \<open>\<open>json_equal\<close> of \<open>common.py\<close>: numbers compare by value, everything else must have the
  same type, so \<open>True\<close> differs from \<open>1\<close>.\<close>

fun json_equal :: "pv \<Rightarrow> pv \<Rightarrow> bool"
and json_equal_list :: "pv list \<Rightarrow> pv list \<Rightarrow> bool"
and json_equal_items :: "(string \<times> pv) list \<Rightarrow> (string \<times> pv) list \<Rightarrow> bool" where
  "json_equal (PInt i) r = (is_num r \<and> num_eq (PInt i) r)"
| "json_equal (PFloat f) r = (is_num r \<and> num_eq (PFloat f) r)"
| "json_equal PNone r = (r = PNone)"
| "json_equal (PBool b) r = (r = PBool b)"
| "json_equal (PStr s) r = (r = PStr s)"
| "json_equal (PList xs) r = (case r of PList ys \<Rightarrow> length xs = length ys \<and> json_equal_list xs ys | _ \<Rightarrow> False)"
| "json_equal (PDict d) r = (case r of PDict e \<Rightarrow> set (map fst d) = set (map fst e) \<and> json_equal_items d e | _ \<Rightarrow> False)"
| "json_equal_list [] ys = True"
| "json_equal_list (x # xs) ys = (case ys of [] \<Rightarrow> True | y # ys' \<Rightarrow> json_equal x y \<and> json_equal_list xs ys')"
| "json_equal_items [] e = True"
| "json_equal_items ((k, v) # d) e =
     ((case map_of e k of Some w \<Rightarrow> json_equal v w | None \<Rightarrow> False) \<and> json_equal_items d e)"

text \<open>Python's \<open>==\<close>: a bool is also a number.\<close>

fun py_eq :: "pv \<Rightarrow> pv \<Rightarrow> bool"
and py_eq_list :: "pv list \<Rightarrow> pv list \<Rightarrow> bool"
and py_eq_items :: "(string \<times> pv) list \<Rightarrow> (string \<times> pv) list \<Rightarrow> bool" where
  "py_eq (PInt i) r = num_eq (PInt i) r"
| "py_eq (PFloat f) r = num_eq (PFloat f) r"
| "py_eq (PBool b) r = num_eq (PBool b) r"
| "py_eq PNone r = (r = PNone)"
| "py_eq (PStr s) r = (r = PStr s)"
| "py_eq (PList xs) r = (case r of PList ys \<Rightarrow> length xs = length ys \<and> py_eq_list xs ys | _ \<Rightarrow> False)"
| "py_eq (PDict d) r = (case r of PDict e \<Rightarrow> set (map fst d) = set (map fst e) \<and> py_eq_items d e | _ \<Rightarrow> False)"
| "py_eq_list [] ys = True"
| "py_eq_list (x # xs) ys = (case ys of [] \<Rightarrow> True | y # ys' \<Rightarrow> py_eq x y \<and> py_eq_list xs ys')"
| "py_eq_items [] e = True"
| "py_eq_items ((k, v) # d) e =
     ((case map_of e k of Some w \<Rightarrow> py_eq v w | None \<Rightarrow> False) \<and> py_eq_items d e)"

lemma json_equal_list_conv:
  "length xs = length ys \<Longrightarrow> json_equal_list xs ys = list_all2 json_equal xs ys"
  by (induction xs ys rule: list_induct2) auto

lemma py_eq_list_conv: "length xs = length ys \<Longrightarrow> py_eq_list xs ys = list_all2 py_eq xs ys"
  by (induction xs ys rule: list_induct2) auto

lemma json_equal_PList: "json_equal (PList xs) (PList ys) = list_all2 json_equal xs ys"
  using json_equal_list_conv [of xs ys] list_all2_lengthD [of json_equal xs ys] by auto

lemma json_equal_items_conv:
  "json_equal_items d e \<longleftrightarrow> (\<forall>(k, v) \<in> set d. \<exists>w. map_of e k = Some w \<and> json_equal v w)"
  by (induction d) (auto split: option.splits)

lemma py_eq_items_conv:
  "py_eq_items d e \<longleftrightarrow> (\<forall>(k, v) \<in> set d. \<exists>w. map_of e k = Some w \<and> py_eq v w)"
  by (induction d) (auto split: option.splits)

lemma num_eq_sym: "num_eq a b = num_eq b a"
  by (auto simp: num_eq_def flt_eq_iff split: option.splits)

lemma num_eq_trans: "num_eq a b \<Longrightarrow> num_eq b c \<Longrightarrow> num_eq a c"
  by (auto simp: num_eq_def flt_eq_iff split: option.splits)

lemma num_eq_PInt [simp]: "num_eq (PInt i) (PInt j) \<longleftrightarrow> i = j"
  by (simp add: num_eq_def)

lemma json_equal_num: "is_num v \<Longrightarrow> json_equal v r \<longleftrightarrow> is_num r \<and> num_eq v r"
  by (cases v) auto

lemma json_equal_PNone [simp]: "json_equal v PNone \<longleftrightarrow> v = PNone"
  by (cases v) (auto simp: type_tests)

lemma json_equal_PBool [simp]: "json_equal v (PBool b) \<longleftrightarrow> v = PBool b"
  by (cases v) auto

lemma json_equal_PStr [simp]: "json_equal v (PStr s) \<longleftrightarrow> v = PStr s"
  by (cases v) auto

lemma json_equal_is_num: "json_equal a b \<Longrightarrow> is_num a = is_num b"
  by (cases a) (auto simp: type_tests split: pv.splits)

lemma json_equal_refl: "wf_pv v \<Longrightarrow> json_equal v v"
proof (induction v rule: wf_pv.induct)
  case (1 xs)
  then show ?case by (auto simp: json_equal_list_conv list_all_iff list_all2_same)
next
  case (2 d)
  then show ?case by (fastforce simp: json_equal_items_conv list_all_iff)
qed (auto simp: num_eq_def is_finite_def split: flt.splits)

lemma json_equal_sym_aux:
  "\<forall>r. wf_pv v \<longrightarrow> wf_pv r \<longrightarrow> json_equal v r \<longrightarrow> json_equal r v"
proof (induction v)
  case (PInt i)
  then show ?case by (auto simp: json_equal_num num_eq_sym)
next
  case (PFloat f)
  then show ?case by (auto simp: json_equal_num num_eq_sym)
next
  case (PList xs)
  show ?case
  proof (intro allI impI)
    fix r assume h: "wf_pv (PList xs)" "wf_pv r" "json_equal (PList xs) r"
    then obtain ys where r: "r = PList ys" by (cases r) auto
    from h r have "list_all2 json_equal xs ys" by (auto simp: json_equal_list_conv)
    then have "list_all2 json_equal ys xs"
      using h r PList by (fastforce simp: list_all2_conv_all_nth list_all_length)
    then show "json_equal r (PList xs)" using r json_equal_PList by blast
  qed
next
  case (PDict d)
  show ?case
  proof (intro allI impI)
    fix r assume h: "wf_pv (PDict d)" "wf_pv r" "json_equal (PDict d) r"
    then obtain e where r: "r = PDict e" by (cases r) auto
    from h r have k: "set (map fst d) = set (map fst e)" and dd: "distinct (map fst d)"
      and de: "distinct (map fst e)" and it: "json_equal_items d e" by auto
    have "json_equal_items e d"
      unfolding json_equal_items_conv
    proof clarify
      fix key w assume kw: "(key, w) \<in> set e"
      then have "key \<in> set (map fst d)" using k by (force simp: image_iff)
      then obtain v where v: "(key, v) \<in> set d" by auto
      with it obtain w' where w': "map_of e key = Some w'" "json_equal v w'"
        by (auto simp: json_equal_items_conv)
      moreover have "map_of e key = Some w" using kw de by simp
      ultimately have "json_equal v w" by simp
      moreover have "wf_pv v" "wf_pv w" using h r v kw by (auto simp: list_all_iff)
      ultimately have "json_equal w v" using PDict v by fastforce
      moreover have "map_of d key = Some v" using v dd by simp
      ultimately show "\<exists>w'. map_of d key = Some w' \<and> json_equal w w'" by blast
    qed
    then show "json_equal r (PDict d)" using r k by simp
  qed
qed auto

lemma json_equal_trans_aux:
  "\<forall>b c. json_equal a b \<longrightarrow> json_equal b c \<longrightarrow> json_equal a c"
proof (induction a)
  case (PInt i)
  then show ?case using num_eq_trans by (auto simp: json_equal_num)
next
  case (PFloat f)
  then show ?case using num_eq_trans by (auto simp: json_equal_num)
next
  case (PList xs)
  show ?case
  proof (intro allI impI)
    fix b c assume h: "json_equal (PList xs) b" "json_equal b c"
    then obtain ys where b: "b = PList ys" by (cases b) auto
    with h obtain zs where c: "c = PList zs" by (cases c) auto
    have l: "list_all2 json_equal xs ys" "list_all2 json_equal ys zs"
      using h by (simp_all only: b c json_equal_PList)
    have "list_all2 json_equal xs zs"
      unfolding list_all2_conv_all_nth
    proof (intro conjI allI impI)
      show "length xs = length zs" using l [THEN list_all2_lengthD] by simp
      fix i assume "i < length xs"
      then have "json_equal (xs ! i) (ys ! i)" "json_equal (ys ! i) (zs ! i)" "xs ! i \<in> set xs"
        using l by (auto simp: list_all2_conv_all_nth)
      then show "json_equal (xs ! i) (zs ! i)" using PList by blast
    qed
    then show "json_equal (PList xs) c" by (simp only: c json_equal_PList)
  qed
next
  case (PDict d)
  show ?case
  proof (intro allI impI)
    fix b c assume h: "json_equal (PDict d) b" "json_equal b c"
    then obtain e where b: "b = PDict e" by (cases b) auto
    with h obtain f where c: "c = PDict f" by (cases c) auto
    from h b c have "json_equal_items d f"
      unfolding json_equal_items_conv
      using PDict by (fastforce simp: json_equal_items_conv dest: map_of_SomeD)
    then show "json_equal (PDict d) c" using h b c by simp
  qed
qed auto

lemma json_equal_imp_py_eq_aux: "\<forall>b. json_equal a b \<longrightarrow> py_eq a b"
proof (induction a)
  case (PBool x)
  then show ?case by (simp add: num_eq_def)
next
  case (PList xs)
  then show ?case
    by (auto simp: json_equal_list_conv py_eq_list_conv list_all2_conv_all_nth split: pv.splits)
next
  case (PDict d)
  then show ?case
    by (fastforce simp: json_equal_items_conv py_eq_items_conv split: pv.splits)
qed auto

end
