(* ===== verification/Common.thy ===== *)
theory Common
  imports PyValue "HOL-Library.Product_Lexorder" "HOL-Library.Multiset"
begin

text \<open>
  \<open>experiments/gate-performance/harness/common.py\<close>: number tests, safe bundle
  paths, the sealed inventory of a bundle, the frozen sampling plan and the
  assignment order.

  A path is the list of its components.  A bundle is the list of its entries
  below the root (\<open>Path.rglob\<close>), each a directory, a regular file with its
  device/inode identity, link count and bytes, a symbolic link, or another kind of entry.  The
  digest (\<open>hashlib.sha256(...).hexdigest()\<close>) and the JSON text codec
  (\<open>json.dumps\<close>, \<open>json.loads\<close>) are arguments: every lemma holds for each choice
  of them, and the ones that need a fact about them name it.
\<close>

section \<open>Numbers\<close>

definition finite_number :: "pv \<Rightarrow> bool" where
  "finite_number v = (case v of
     PInt i \<Rightarrow> (case to_float (PInt i) of Inr f \<Rightarrow> is_finite f | Inl _ \<Rightarrow> False)
   | PFloat f \<Rightarrow> is_finite f
   | _ \<Rightarrow> False)"

definition positive :: "pv \<Rightarrow> bool" where
  "positive v = (finite_number v \<and> py_less (PInt 0) v = Inr True)"

definition counter :: "pv \<Rightarrow> bool" where
  "counter v = (finite_number v \<and> py_le (PInt 0) v = Inr True)"

lemma positive_counter: "positive v \<Longrightarrow> counter v"
  by (cases v) (auto simp: positive_def counter_def py_less_def py_le_def flt_less_def)

lemma counter_is_num: "counter v \<Longrightarrow> is_num v"
  by (cases v) (auto simp: counter_def finite_number_def)

lemma counter_PFloat: "counter (PFloat f) \<longleftrightarrow> (\<exists>x. f = Fin x \<and> 0 \<le> x)"
  by (cases f) (auto simp: counter_def finite_number_def is_finite_def py_le_def)

lemma positive_numeral: "(numeral n :: int) \<le> 2 ^ 53 \<Longrightarrow> positive (PInt (numeral n))"
  by (simp add: positive_def finite_number_def to_float_def to_flt_numeral py_less_def flt_less_def is_finite_def)

section \<open>Paths\<close>

type_synonym path = "string list"

text \<open>\<open>Path(name).parts\<close> of a relative name: empty and \<open>.\<close> components disappear.\<close>

definition path_parts :: "string \<Rightarrow> path" where
  "path_parts name = filter (\<lambda>p. p \<noteq> [] \<and> p \<noteq> ''.'') (split_on (CHR ''/'') name)"

definition is_absolute :: "string \<Rightarrow> bool" where
  "is_absolute name = startswith name ''/''"

definition path_str :: "path \<Rightarrow> string" where
  "path_str p = join ''/'' p"

fun child_walk :: "(path \<Rightarrow> bool) \<Rightarrow> path \<Rightarrow> path \<Rightarrow> string \<Rightarrow> path res" where
  "child_walk is_symlink result [] name = Inr result"
| "child_walk is_symlink result (part # parts) name =
     (if is_symlink (result @ [part]) then Inl (ValueError (''symlink in bundle: '' @ name))
      else child_walk is_symlink (result @ [part]) parts name)"

definition child :: "(path \<Rightarrow> bool) \<Rightarrow> path \<Rightarrow> pv \<Rightarrow> path res" where
  "child is_symlink base name = (case name of
     PStr s \<Rightarrow>
       (if s = [] \<or> char_of (0::nat) \<in> set s then Inl (ValueError (''unsafe relative path: '' @ s))
        else let parts = path_parts s in
          if is_absolute s \<or> parts = [] \<or> list_ex (\<lambda>p. p = ''.'' \<or> p = ''..'') parts
          then Inl (ValueError (''unsafe relative path: '' @ s))
          else child_walk is_symlink base parts s)
   | _ \<Rightarrow> Inl (ValueError ''unsafe relative path''))"

lemma child_walk_result:
  "child_walk sl r ps n = Inr q \<Longrightarrow>
     q = r @ ps \<and> (\<forall>i < length ps. \<not> sl (r @ take (Suc i) ps))"
proof (induction ps arbitrary: r)
  case (Cons p ps)
  then have nl: "\<not> sl (r @ [p])" and w: "child_walk sl (r @ [p]) ps n = Inr q"
    by (auto split: if_splits)
  from Cons.IH [OF w] have q: "q = r @ p # ps" and f: "\<forall>i < length ps. \<not> sl (r @ p # take (Suc i) ps)"
    by auto
  have "\<not> sl (r @ take (Suc i) (p # ps))" if "i < length (p # ps)" for i
    using that nl f by (cases i) auto
  with q show ?case by blast
qed simp

lemma child_walk_ok:
  "(\<And>i. i < length ps \<Longrightarrow> \<not> sl (r @ take (Suc i) ps)) \<Longrightarrow> child_walk sl r ps n = Inr (r @ ps)"
proof (induction ps arbitrary: r)
  case (Cons p ps)
  have "\<not> sl (r @ [p])" using Cons.prems [of 0] by simp
  moreover have "child_walk sl (r @ [p]) ps n = Inr ((r @ [p]) @ ps)"
  proof (rule Cons.IH)
    fix i assume "i < length ps"
    then show "\<not> sl ((r @ [p]) @ take (Suc i) ps)" using Cons.prems [of "Suc i"] by simp
  qed
  ultimately show ?case by simp
qed simp

lemma only_child_walk [only_intros]: "only is_value_error (child_walk sl r ps n)"
  by (induction ps arbitrary: r) auto

lemma only_child [only_intros]: "only is_value_error (child sl d name)"
  by (cases name) (auto simp: child_def Let_def intro: only_child_walk)

lemma path_parts_no_slash: "p \<in> set (path_parts s) \<Longrightarrow> CHR ''/'' \<notin> set p \<and> p \<noteq> []"
  by (auto simp: path_parts_def dest: split_on_no_sep)

section \<open>Bundles\<close>

record inode =
  dev :: nat
  ino :: nat

text \<open>The content of a regular file.\<close>

datatype node =
    Dir
  | File inode nat string
  | Symlink
  | Other

type_synonym bundle_tree = "(path \<times> node) list"

definition is_file :: "node \<Rightarrow> bool" where
  "is_file n = (case n of File _ _ _ \<Rightarrow> True | _ \<Rightarrow> False)"

definition is_dir :: "node \<Rightarrow> bool" where
  "is_dir n = (n = Dir)"

definition bytes_of :: "node \<Rightarrow> string" where
  "bytes_of n = (case n of File _ _ b \<Rightarrow> b | _ \<Rightarrow> [])"

definition entries :: "bundle_tree \<Rightarrow> (path \<times> node) list res" where
  "entries b = emap (\<lambda>(p, n).
     if n = Symlink then Inl (ValueError (''symlink in bundle: '' @ path_str p))
     else if \<not> is_file n \<and> \<not> is_dir n then Inl (ValueError (''non-regular entry in bundle: '' @ path_str p))
     else Inr (p, n)) (sort_key fst b)"

definition files :: "bundle_tree \<Rightarrow> (path \<times> node) list res" where
  "files b = ebind (entries b) (\<lambda>es. Inr (filter (\<lambda>(p, n). is_file n) es))"

definition bundle_inventory :: "(string \<Rightarrow> string) \<Rightarrow> bundle_tree \<Rightarrow> (string \<times> pv) list res" where
  "bundle_inventory sha b = ebind (entries b) (\<lambda>es. Inr
     (map (\<lambda>(p, n). (path_str p, if is_dir n then PNone else PStr (sha (bytes_of n)))) es))"

definition SUMS :: string where
  "SUMS = ''SHA256SUMS''"

definition without :: "string \<Rightarrow> (string \<times> pv) list \<Rightarrow> (string \<times> pv) list" where
  "without k d = filter (\<lambda>(k', v). k' \<noteq> k) d"

definition put_file :: "path \<Rightarrow> inode \<Rightarrow> string \<Rightarrow> bundle_tree \<Rightarrow> bundle_tree" where
  "put_file p i c b = (p, File i 1 c) # filter (\<lambda>(q, n). q \<noteq> p) b"

definition read_file :: "bundle_tree \<Rightarrow> path \<Rightarrow> string res" where
  "read_file b p = (case map_of b p of
     Some (File _ _ c) \<Rightarrow> Inr c
   | _ \<Rightarrow> Inl (OSError (path_str p)))"

text \<open>\<open>seal\<close> writes the inventory (without a previous seal) as \<open>SHA256SUMS\<close>; the new file
  replaces the old one under a fresh inode.\<close>

definition seal :: "(string \<Rightarrow> string) \<Rightarrow> (pv \<Rightarrow> string) \<Rightarrow> inode \<Rightarrow> bundle_tree \<Rightarrow> bundle_tree res" where
  "seal sha dumps fresh b = ebind (bundle_inventory sha b) (\<lambda>iv.
     Inr (put_file [SUMS] fresh (dumps (PDict (without SUMS iv))) b))"

definition verify :: "(string \<Rightarrow> string) \<Rightarrow> (string \<Rightarrow> pv res) \<Rightarrow> bundle_tree \<Rightarrow> unit res" where
  "verify sha loads b = ebind (read_file b [SUMS]) (\<lambda>text.
     ebind (loads text) (\<lambda>expected.
     ebind (bundle_inventory sha b) (\<lambda>iv.
       if py_eq expected (PDict (without SUMS iv)) then Inr ()
       else Inl (ValueError ''bundle checksum inventory differs''))))"

text \<open>A bundle holds each path once, and no component holds the separator.\<close>

definition wf_bundle :: "bundle_tree \<Rightarrow> bool" where
  "wf_bundle b = (distinct (map fst b) \<and>
     list_all (\<lambda>(p, n). p \<noteq> [] \<and> list_all (\<lambda>c. c \<noteq> [] \<and> CHR ''/'' \<notin> set c) p) b)"

definition regular :: "bundle_tree \<Rightarrow> bool" where
  "regular b = list_all (\<lambda>(p, n). is_file n \<or> is_dir n) b"

lemma split_on_join:
  "list_all (\<lambda>c. CHR ''/'' \<notin> set c) p \<Longrightarrow> p \<noteq> [] \<Longrightarrow> split_on (CHR ''/'') (path_str p) = p"
proof (induction p)
  case (Cons c p)
  have pre: "split_on (CHR ''/'') (c @ s) = (case split_on (CHR ''/'') s of [] \<Rightarrow> [c] | x # xs \<Rightarrow> (c @ x) # xs)"
    if "CHR ''/'' \<notin> set c" for c s
    using that
  proof (induction c)
    case Nil
    then show ?case by (cases "split_on (CHR ''/'') s") auto
  next
    case (Cons x c)
    then show ?case by (cases "split_on (CHR ''/'') s") auto
  qed
  show ?case
  proof (cases p)
    case Nil
    then show ?thesis using Cons.prems pre [of c "[]"] by (simp add: path_str_def)
  next
    case (Cons d q)
    then have "split_on (CHR ''/'') (path_str p) = p" using Cons.IH Cons.prems by simp
    then show ?thesis using Cons \<open>list_all _ (c # p)\<close> pre [of c "CHR ''/'' # path_str p"]
      by (simp add: path_str_def)
  qed
qed simp

lemma wf_bundle_path: "wf_bundle b \<Longrightarrow> (p, n) \<in> set b \<Longrightarrow> split_on (CHR ''/'') (path_str p) = p"
  by (rule split_on_join) (auto simp: wf_bundle_def list_all_iff)

lemma path_str_inj_on: "wf_bundle b \<Longrightarrow> inj_on path_str (fst ` set b)"
  by (rule inj_onI) (metis (no_types, lifting) image_iff prod.collapse wf_bundle_path)

lemma emap_id_check: "(\<And>x. f x = Inr x \<longleftrightarrow> P x) \<Longrightarrow> (\<And>x y. f x = Inr y \<Longrightarrow> y = x) \<Longrightarrow>
    emap f xs = Inr ys \<longleftrightarrow> list_all P xs \<and> ys = xs"
proof (induction xs arbitrary: ys)
  case (Cons x xs)
  show ?case
  proof (cases "P x")
    case True
    then have "f x = Inr x" using Cons.prems(1) by simp
    then show ?thesis using True Cons.IH [OF Cons.prems] by (auto simp: ebind_eq_Inr)
  next
    case False
    then have "f x \<noteq> Inr y" for y using Cons.prems by metis
    then show ?thesis using False by (cases "f x") auto
  qed
qed auto

lemma entries_eq_Inr: "entries b = Inr es \<longleftrightarrow> regular b \<and> es = sort_key fst b"
proof -
  have "entries b = Inr es \<longleftrightarrow>
      list_all (\<lambda>x. is_file (snd x) \<or> is_dir (snd x)) (sort_key fst b) \<and> es = sort_key fst b"
    unfolding entries_def
    by (rule emap_id_check) (auto simp: is_file_def is_dir_def split: node.splits if_splits)
  then show ?thesis by (auto simp: regular_def list_all_iff)
qed

definition inv_entry :: "(string \<Rightarrow> string) \<Rightarrow> path \<times> node \<Rightarrow> string \<times> pv" where
  "inv_entry sha x = (path_str (fst x), if is_dir (snd x) then PNone else PStr (sha (bytes_of (snd x))))"

lemma bundle_inventory_eq_Inr:
  "bundle_inventory sha b = Inr iv \<longleftrightarrow> regular b \<and> iv = map (inv_entry sha) (sort_key fst b)"
  by (auto simp: bundle_inventory_def ebind_eq_Inr entries_eq_Inr inv_entry_def split_beta)

lemma distinct_inventory:
  assumes "wf_bundle b"
  shows "distinct (map fst (map (inv_entry sha) (sort_key fst b)))"
proof -
  have "distinct (map fst b)" using assms by (simp add: wf_bundle_def)
  then have "distinct (map path_str (map fst b))"
    using path_str_inj_on [OF assms] unfolding distinct_map [of path_str] by simp
  moreover have "mset (map fst (map (inv_entry sha) (sort_key fst b))) = mset (map path_str (map fst b))"
    by (simp add: inv_entry_def comp_def)
  ultimately show ?thesis using mset_eq_imp_distinct_iff by blast
qed

lemma without_map: "without k (map f xs) = map f (filter (\<lambda>x. fst (f x) \<noteq> k) xs)"
  by (simp add: without_def filter_map comp_def split_beta)

lemma path_str_SUMS [simp]: "path_str [SUMS] = SUMS"
  by (simp add: path_str_def)

text \<open>The entry \<open>SHA256SUMS\<close> itself is the only one the inventory leaves out.\<close>

lemma path_str_eq_SUMS: "wf_bundle b \<Longrightarrow> (p, n) \<in> set b \<Longrightarrow> path_str p = SUMS \<longleftrightarrow> p = [SUMS]"
proof
  assume wf: "wf_bundle b" "(p, n) \<in> set b" and eq: "path_str p = SUMS"
  from wf_bundle_path [OF wf] eq have "p = split_on (CHR ''/'') SUMS" by simp
  then show "p = [SUMS]" by (simp add: SUMS_def)
qed simp

definition payload :: "bundle_tree \<Rightarrow> bundle_tree" where
  "payload b = filter (\<lambda>(p, n). p \<noteq> [SUMS]) b"

lemma inventory_payload:
  assumes "wf_bundle b"
  shows "without SUMS (map (inv_entry sha) (sort_key fst b)) = map (inv_entry sha) (sort_key fst (payload b))"
proof -
  have "filter (\<lambda>x. path_str (fst x) \<noteq> SUMS) (sort_key fst b) = filter (\<lambda>(p, n). p \<noteq> [SUMS]) (sort_key fst b)"
    using path_str_eq_SUMS [OF assms] by (intro filter_cong) auto
  then show ?thesis by (simp add: without_map inv_entry_def payload_def filter_sort)
qed

lemma payload_put_file: "payload (put_file [SUMS] i c b) = payload b"
  by (auto simp: payload_def put_file_def filter_filter intro!: filter_cong)

lemma wf_put_file: "wf_bundle b \<Longrightarrow> wf_bundle (put_file [SUMS] i c b)"
  by (auto simp: wf_bundle_def put_file_def list_all_iff SUMS_def distinct_map_filter image_iff)

lemma regular_put_file: "regular b \<Longrightarrow> regular (put_file p i c b)"
  by (auto simp: regular_def put_file_def list_all_iff is_file_def)

text \<open>What the inventory is about: of each path but \<open>SHA256SUMS\<close>, whether it is a directory
  (None) or a file with which bytes.\<close>

definition node_kind :: "node \<Rightarrow> string option" where
  "node_kind n = (if is_dir n then None else Some (bytes_of n))"

definition content :: "bundle_tree \<Rightarrow> path \<Rightarrow> string option option" where
  "content b p = (if p = [SUMS] then None else map_option node_kind (map_of b p))"

definition contents :: "bundle_tree \<Rightarrow> string set" where
  "contents b = bytes_of ` snd ` set b"

text \<open>The sealed inventory, and a JSON codec that returns it as the same mapping.\<close>

definition sealed_inventory :: "(string \<Rightarrow> string) \<Rightarrow> bundle_tree \<Rightarrow> (string \<times> pv) list" where
  "sealed_inventory sha b = map (inv_entry sha) (sort_key fst (payload b))"

definition codec_ok :: "(string \<Rightarrow> pv res) \<Rightarrow> (pv \<Rightarrow> string) \<Rightarrow> (string \<times> pv) list \<Rightarrow> bool" where
  "codec_ok loads dumps d = (case loads (dumps (PDict d)) of
     Inr (PDict e) \<Rightarrow> distinct (map fst e) \<and> mset e = mset d
   | _ \<Rightarrow> False)"

lemma wf_payload: "wf_bundle b \<Longrightarrow> wf_bundle (payload b)"
  by (auto simp: wf_bundle_def payload_def list_all_iff distinct_map_filter)

lemma distinct_sealed: "wf_bundle b \<Longrightarrow> distinct (map fst (sealed_inventory sha b))"
  unfolding sealed_inventory_def by (rule distinct_inventory [OF wf_payload])

lemma set_sealed: "set (sealed_inventory sha b) = inv_entry sha ` set (payload b)"
  by (simp add: sealed_inventory_def)

lemma flat_py_eq:
  assumes "distinct (map fst e)" "distinct (map fst d)"
    and flat: "\<forall>(k, v) \<in> set e. v = PNone \<or> is_str v"
  shows "py_eq (PDict e) (PDict d) \<longleftrightarrow> set e = set d"
proof -
  have val: "py_eq v w \<longleftrightarrow> v = w" if "(k, v) \<in> set e" for k v w
  proof -
    have "v = PNone \<or> v = PStr (str_of v)" using flat that is_str_iff by blast
    then show ?thesis by (metis py_eq.simps(4,5))
  qed
  have look: "map_of d k = Some v \<longleftrightarrow> (k, v) \<in> set d" for k v using assms(2) by simp
  have items: "py_eq_items e d \<longleftrightarrow> set e \<subseteq> set d"
    using val look by (fastforce simp: py_eq_items_conv)
  have "set d \<subseteq> set e" if sub: "set e \<subseteq> set d" and keys: "fst ` set e = fst ` set d"
  proof clarify
    fix k v assume kv: "(k, v) \<in> set d"
    then have "k \<in> fst ` set d" by force
    then have "k \<in> fst ` set e" using keys by simp
    then obtain v' where v': "(k, v') \<in> set e" by auto
    then show "(k, v) \<in> set e" using kv sub look by (metis option.inject subsetD)
  qed
  then show ?thesis using items by auto
qed

lemma inv_entry_inject:
  assumes "CHR ''/'' \<notin> \<Union> (set ` set (fst x))" "CHR ''/'' \<notin> \<Union> (set ` set (fst y))" "fst x \<noteq> []" "fst y \<noteq> []"
    and "inj_on sha {bytes_of (snd x), bytes_of (snd y)}"
  shows "inv_entry sha x = inv_entry sha y \<longleftrightarrow> fst x = fst y \<and> node_kind (snd x) = node_kind (snd y)"
proof -
  have "split_on (CHR ''/'') (path_str (fst x)) = fst x" "split_on (CHR ''/'') (path_str (fst y)) = fst y"
    using assms by (auto intro!: split_on_join simp: list_all_iff)
  then have "path_str (fst x) = path_str (fst y) \<longleftrightarrow> fst x = fst y" by metis
  moreover have "sha (bytes_of (snd x)) = sha (bytes_of (snd y)) \<longleftrightarrow> bytes_of (snd x) = bytes_of (snd y)"
    by (rule inj_on_eq_iff [OF assms(5)]) simp_all
  ultimately show ?thesis by (simp add: inv_entry_def node_kind_def)
qed

lemma payload_content:
  assumes "wf_bundle b"
  shows "content b p = Some k \<longleftrightarrow> (\<exists>n. (p, n) \<in> set (payload b) \<and> node_kind n = k)"
proof -
  have "map_of b p = Some n \<longleftrightarrow> (p, n) \<in> set b" for n using assms by (simp add: wf_bundle_def)
  then show ?thesis by (auto simp: content_def payload_def)
qed

lemma kinds_sub:
  "(\<forall>x \<in> A. \<exists>y \<in> C. fst x = fst y \<and> f (snd x) = f (snd y)) \<longleftrightarrow>
     (\<forall>p k. (\<exists>n. (p, n) \<in> A \<and> f n = k) \<longrightarrow> (\<exists>n. (p, n) \<in> C \<and> f n = k))"
proof (intro iffI allI impI ballI)
  fix p k assume a: "\<forall>x \<in> A. \<exists>y \<in> C. fst x = fst y \<and> f (snd x) = f (snd y)" "\<exists>n. (p, n) \<in> A \<and> f n = k"
  then obtain n where n: "(p, n) \<in> A" "f n = k" by blast
  from bspec [OF a(1) n(1)] obtain y where "y \<in> C" "p = fst y" "f n = f (snd y)" by auto
  then show "\<exists>n. (p, n) \<in> C \<and> f n = k" using n by (cases y) auto
next
  fix x assume a: "\<forall>p k. (\<exists>n. (p, n) \<in> A \<and> f n = k) \<longrightarrow> (\<exists>n. (p, n) \<in> C \<and> f n = k)" "x \<in> A"
  then have "(fst x, snd x) \<in> A" by simp
  then obtain m where "(fst x, m) \<in> C" "f m = f (snd x)" using a(1) by blast
  then show "\<exists>y \<in> C. fst x = fst y \<and> f (snd x) = f (snd y)"
    by (intro bexI [of _ "(fst x, m)"]) simp_all
qed

lemma maps_eq_iff:
  "m = m' \<longleftrightarrow> (\<forall>p k. m p = Some k \<longrightarrow> m' p = Some k) \<and> (\<forall>p k. m' p = Some k \<longrightarrow> m p = Some k)"
proof (intro iffI ext)
  fix p assume h: "(\<forall>p k. m p = Some k \<longrightarrow> m' p = Some k) \<and> (\<forall>p k. m' p = Some k \<longrightarrow> m p = Some k)"
  have fwd: "m p = Some k \<Longrightarrow> m' p = Some k" and bwd: "m' p = Some k \<Longrightarrow> m p = Some k" for k
    using h by blast+
  show "m p = m' p"
  proof (cases "m p")
    case None
    then show ?thesis using bwd by (cases "m' p") auto
  next
    case (Some k)
    then show ?thesis using fwd by auto
  qed
qed blast+

lemma same_sealed_iff:
  assumes wf: "wf_bundle b" "wf_bundle t" and inj: "inj_on sha (contents b \<union> contents t)"
  shows "inv_entry sha ` set (payload t) = inv_entry sha ` set (payload b) \<longleftrightarrow> content t = content b"
proof -
  have one: "inv_entry sha x = inv_entry sha y \<longleftrightarrow> fst x = fst y \<and> node_kind (snd x) = node_kind (snd y)"
    if "x \<in> set (payload b) \<union> set (payload t)" "y \<in> set (payload b) \<union> set (payload t)" for x y
  proof (rule inv_entry_inject)
    have xy: "x \<in> set b \<union> set t" "y \<in> set b \<union> set t" using that by (auto simp: payload_def)
    show "CHR ''/'' \<notin> \<Union> (set ` set (fst x))" "CHR ''/'' \<notin> \<Union> (set ` set (fst y))"
      "fst x \<noteq> []" "fst y \<noteq> []"
      using wf xy by (auto simp: wf_bundle_def list_all_iff)
    show "inj_on sha {bytes_of (snd x), bytes_of (snd y)}"
      using xy by (intro inj_on_subset [OF inj]) (auto simp: contents_def)
  qed
  have dir: "inv_entry sha ` set (payload a) \<subseteq> inv_entry sha ` set (payload c) \<longleftrightarrow>
      (\<forall>p k. content a p = Some k \<longrightarrow> content c p = Some k)"
    if "a = b \<and> c = t \<or> a = t \<and> c = b" for a c
  proof -
    have wfs: "wf_bundle a" "wf_bundle c" using that wf by auto
    have "inv_entry sha ` set (payload a) \<subseteq> inv_entry sha ` set (payload c) \<longleftrightarrow>
        (\<forall>x \<in> set (payload a). \<exists>y \<in> set (payload c). inv_entry sha x = inv_entry sha y)" by blast
    also have "\<dots> \<longleftrightarrow> (\<forall>x \<in> set (payload a). \<exists>y \<in> set (payload c). fst x = fst y \<and> node_kind (snd x) = node_kind (snd y))"
    proof (intro ball_cong bex_cong refl)
      fix x y assume "x \<in> set (payload a)" "y \<in> set (payload c)"
      then show "inv_entry sha x = inv_entry sha y \<longleftrightarrow> fst x = fst y \<and> node_kind (snd x) = node_kind (snd y)"
        using that by (intro one) auto
    qed
    also have "\<dots> \<longleftrightarrow> (\<forall>p k. content a p = Some k \<longrightarrow> content c p = Some k)"
      unfolding payload_content [OF wfs(1)] payload_content [OF wfs(2)] by (rule kinds_sub)
    finally show ?thesis .
  qed
  show ?thesis unfolding maps_eq_iff [of "content t"] using dir [of t b] dir [of b t] by blast
qed

lemma verify_eq_Inr:
  assumes "wf_bundle t" "read_file t [SUMS] = Inr text" "loads text = Inr v"
  shows "verify sha loads t = Inr () \<longleftrightarrow> regular t \<and> py_eq v (PDict (sealed_inventory sha t))"
proof -
  have inv: "without SUMS (map (inv_entry sha) (sort_key fst t)) = sealed_inventory sha t"
    unfolding sealed_inventory_def by (rule inventory_payload [OF assms(1)])
  show ?thesis
  proof (cases "regular t")
    case True
    then have "bundle_inventory sha t = Inr (map (inv_entry sha) (sort_key fst t))"
      by (simp add: bundle_inventory_eq_Inr)
    then show ?thesis using assms inv True by (simp add: verify_def)
  next
    case False
    then have "bundle_inventory sha t \<noteq> Inr iv" for iv by (simp add: bundle_inventory_eq_Inr)
    then show ?thesis using assms False by (cases "bundle_inventory sha t") (auto simp: verify_def)
  qed
qed

section \<open>Sampling plan and assignment order\<close>

definition example_workloads :: "string list" where
  "example_workloads = [''example-fixed-replay'', ''example-vulnerable-replay'',
     ''example-fixed-explore'', ''example-vulnerable-explore'']"

type_synonym strata = "(string \<times> nat list) list"

definition sampling :: "string \<Rightarrow> string \<Rightarrow> strata res" where
  "sampling experiment phase =
     (if experiment = ''E1'' then
        (if phase = ''pilot'' then Inr (map (\<lambda>w. (w, [4, 4])) example_workloads)
         else if phase = ''confirmation'' then
           Inr (map (\<lambda>w. (w, [10, 10, 10])) example_workloads @
                map (\<lambda>w. (w, [4, 3, 3])) [''spring-fixed-replay'', ''spring-vulnerable-replay''])
         else if phase = ''adoption-cold'' then Inr [(''example-fixed-replay'', [4, 4])]
         else Inl (ValueError ''unregistered experiment/phase''))
      else if experiment = ''E2'' then
        (if phase = ''pilot'' then Inr [(''external-acceptance'', [3, 3])]
         else if phase = ''confirmation'' then Inr [(''external-acceptance'', [4, 4, 4])]
         else Inl (ValueError ''unregistered experiment/phase''))
      else Inl (ValueError ''unregistered experiment/phase''))"

text \<open>The fields of a manifest that \<open>order\<close> reads, and the rows it produces.\<close>

record plan_inputs =
  plan_seed :: string
  plan_experiment :: string
  plan_phase :: string
  plan_strata :: strata
  plan_dates :: "string list"

record slot =
  slot_block :: string
  slot_block_id :: string
  slot_workload :: string
  slot_date_slot :: string
  slot_date :: string
  slot_arms :: "string list"

definition order_key :: "(string \<Rightarrow> string) \<Rightarrow> plan_inputs \<Rightarrow> string \<Rightarrow> string \<Rightarrow> string \<Rightarrow> string \<Rightarrow> string" where
  "order_key sha m w s b suffix =
     sha (join ''|'' [plan_seed m, plan_experiment m, plan_phase m, w, s, b, suffix])"

definition block_ids :: "nat \<Rightarrow> string list" where
  "block_ids n = map (pad_nat 3) [1..<Suc n]"

definition first_half :: "nat \<Rightarrow> nat \<Rightarrow> nat" where
  "first_half date_index n = n div 2 + (if odd date_index then n mod 2 else 0)"

definition baseline_first :: "(string \<Rightarrow> string) \<Rightarrow> plan_inputs \<Rightarrow> string \<Rightarrow> nat \<Rightarrow> nat \<Rightarrow> string list" where
  "baseline_first sha m w date_index n =
     take (first_half date_index n)
       (sort_key (\<lambda>b. (order_key sha m w (pad_nat 2 date_index) b ''order'', b)) (block_ids n))"

definition stratum_rows :: "(string \<Rightarrow> string) \<Rightarrow> plan_inputs \<Rightarrow> string \<Rightarrow> nat \<Rightarrow> nat \<Rightarrow> string \<Rightarrow> slot list" where
  "stratum_rows sha m w date_index n d =
     (let s = pad_nat 2 date_index; first = baseline_first sha m w date_index n in
      map (\<lambda>b. \<lparr>slot_block = join ''-'' [w, s, b], slot_block_id = b, slot_workload = w, slot_date_slot = s, slot_date = d,
                 slot_arms = (if b \<in> set first then [''baseline'', ''candidate''] else [''candidate'', ''baseline''])\<rparr>)
        (sort_key (\<lambda>b. (order_key sha m w s b ''sequence'', b)) (block_ids n)))"

text \<open>One workload: the counts are taken with their date index from 1; a date that the manifest
  does not list raises IndexError (only when the stratum has a row).\<close>

fun workload_rows :: "(string \<Rightarrow> string) \<Rightarrow> plan_inputs \<Rightarrow> string \<Rightarrow> nat \<Rightarrow> nat list \<Rightarrow> slot list res" where
  "workload_rows sha m w i [] = Inr []"
| "workload_rows sha m w i (n # counts) =
     (if length (plan_dates m) < i \<and> 0 < n then Inl (IndexError ''list index out of range'')
      else ebind (workload_rows sha m w (Suc i) counts) (\<lambda>rest.
        Inr (stratum_rows sha m w i n (if length (plan_dates m) < i then [] else plan_dates m ! (i - 1)) @ rest)))"

definition order :: "(string \<Rightarrow> string) \<Rightarrow> plan_inputs \<Rightarrow> slot list res" where
  "order sha m = ebind (emap (\<lambda>(w, counts). workload_rows sha m w 1 counts) (sort_key fst (plan_strata m)))
     (\<lambda>rows. Inr (concat rows))"

lemma set_block_ids: "set (block_ids n) = pad_nat 3 ` {1..n}"
  unfolding block_ids_def set_map set_upt atLeastLessThanSuc_atLeastAtMost by simp

lemma distinct_block_ids [simp]: "distinct (block_ids n)"
  by (simp add: block_ids_def distinct_map inj_on_def)

lemma length_block_ids [simp]: "length (block_ids n) = n"
  by (simp add: block_ids_def)

lemma length_stratum_rows [simp]: "length (stratum_rows sha m w i c d) = c"
  by (simp add: stratum_rows_def Let_def)

lemma stratum_rows_ids: "mset (map slot_block_id (stratum_rows sha m w i c d)) = mset (block_ids c)"
  by (simp add: stratum_rows_def Let_def comp_def)

lemma first_half_le: "first_half i c \<le> c"
proof -
  have "c div 2 + c mod 2 \<le> c" by linarith
  then show ?thesis by (auto simp: first_half_def)
qed

lemma baseline_first_props:
  "length (baseline_first sha m w i c) = first_half i c"
  "distinct (baseline_first sha m w i c)"
  "set (baseline_first sha m w i c) \<subseteq> set (block_ids c)"
proof -
  show "length (baseline_first sha m w i c) = first_half i c"
    using first_half_le [of i c] unfolding baseline_first_def length_take length_sort length_block_ids
    by (simp add: min_absorb2)
  show "distinct (baseline_first sha m w i c)"
    by (simp add: baseline_first_def distinct_take)
  show "set (baseline_first sha m w i c) \<subseteq> set (block_ids c)"
    unfolding baseline_first_def by (rule subset_trans [OF set_take_subset]) simp
qed

text \<open>Exactly the first half of a stratum runs the baseline first.\<close>

lemma stratum_balance:
  "length (filter (\<lambda>s. slot_arms s = [''baseline'', ''candidate'']) (stratum_rows sha m w i c d)) = first_half i c"
proof -
  let ?first = "baseline_first sha m w i c"
  let ?seq = "sort_key (\<lambda>b. (order_key sha m w (pad_nat 2 i) b ''sequence'', b)) (block_ids c)"
  have "length (filter (\<lambda>s. slot_arms s = [''baseline'', ''candidate'']) (stratum_rows sha m w i c d))
      = length (filter (\<lambda>b. b \<in> set ?first) ?seq)"
  proof -
    have arms: "(if c then [''baseline'', ''candidate''] else [''candidate'', ''baseline'']) = [''baseline'', ''candidate''] \<longleftrightarrow> c"
      for c by simp
    show ?thesis unfolding stratum_rows_def Let_def filter_map length_map comp_def slot.simps arms by (rule refl)
  qed
  also have "\<dots> = card (set ?first)"
  proof -
    have eq: "set (filter (\<lambda>b. b \<in> set ?first) ?seq) = set ?first"
      using baseline_first_props(3) [of sha m w i c] by auto
    have "distinct (filter (\<lambda>b. b \<in> set ?first) ?seq)" by simp
    from distinct_card [OF this, symmetric] show ?thesis by (simp only: eq)
  qed
  also have "\<dots> = first_half i c"
    using baseline_first_props(1,2) by (simp add: distinct_card)
  finally show ?thesis .
qed

lemma workload_rows_length:
  "workload_rows sha m w i counts = Inr rows \<Longrightarrow> length rows = sum_list counts"
  by (induction counts arbitrary: i rows) (auto simp: ebind_eq_Inr split: if_splits)

lemma workload_rows_workload:
  "workload_rows sha m w i counts = Inr rows \<Longrightarrow> r \<in> set rows \<Longrightarrow> slot_workload r = w"
  by (induction counts arbitrary: i rows)
     (auto simp: ebind_eq_Inr stratum_rows_def Let_def split: if_splits)

lemma workload_rows_ok:
  "i + length counts \<le> Suc (length (plan_dates m)) \<Longrightarrow> \<exists>rows. workload_rows sha m w i counts = Inr rows"
proof (induction counts arbitrary: i)
  case (Cons c counts)
  then obtain rest where "workload_rows sha m w (Suc i) counts = Inr rest" by fastforce
  then show ?case using Cons.prems by auto
qed simp

text \<open>The rows of one workload: one per date index and block number.\<close>

definition slot_key :: "slot \<Rightarrow> string \<times> string \<times> string" where
  "slot_key r = (slot_workload r, slot_date_slot r, slot_block_id r)"

definition baseline_leads :: "slot \<Rightarrow> bool" where
  "baseline_leads r = (slot_arms r = [''baseline'', ''candidate''])"

definition planned :: "string \<times> nat list \<Rightarrow> (string \<times> string \<times> string) list" where
  "planned = (\<lambda>(w, counts). concat (map (\<lambda>(i, n). map (\<lambda>b. (w, pad_nat 2 i, b)) (block_ids n)) (enumerate 1 counts)))"

lemma stratum_row_fields:
  "r \<in> set (stratum_rows sha m w i n d) \<Longrightarrow>
     slot_workload r = w \<and> slot_date_slot r = pad_nat 2 i \<and> slot_date r = d \<and> slot_block r = join ''-'' [w, pad_nat 2 i, slot_block_id r] \<and>
     (slot_arms r = [''baseline'', ''candidate''] \<or> slot_arms r = [''candidate'', ''baseline''])"
  by (auto simp: stratum_rows_def Let_def split: if_splits)

lemma workload_rows_keys:
  "workload_rows sha m w i counts = Inr rows \<Longrightarrow>
     mset (map slot_key rows) =
       mset (concat (map (\<lambda>(j, n). map (\<lambda>b. (w, pad_nat 2 j, b)) (block_ids n)) (enumerate i counts)))"
proof (induction counts arbitrary: i rows)
  case (Cons n counts)
  then obtain rest d where r: "workload_rows sha m w (Suc i) counts = Inr rest"
    "rows = stratum_rows sha m w i n d @ rest"
    by (auto simp: ebind_eq_Inr split: if_splits)
  have "mset (map slot_key (stratum_rows sha m w i n d)) = mset (map (\<lambda>b. (w, pad_nat 2 i, b)) (block_ids n))"
    by (simp add: stratum_rows_def Let_def comp_def slot_key_def)
  then show ?case using Cons.IH [OF r(1)] r(2) by simp
qed simp

lemma workload_rows_balance:
  "workload_rows sha m w i counts = Inr rows \<Longrightarrow>
     length (filter (\<lambda>r. slot_date_slot r = pad_nat 2 j \<and> baseline_leads r) rows) =
       (if i \<le> j \<and> j < i + length counts then first_half j (counts ! (j - i)) else 0)"
proof (induction counts arbitrary: i rows)
  case (Cons n counts)
  then obtain rest d where r: "workload_rows sha m w (Suc i) counts = Inr rest"
    "rows = stratum_rows sha m w i n d @ rest"
    by (auto simp: ebind_eq_Inr split: if_splits)
  have head: "length (filter (\<lambda>r. slot_date_slot r = pad_nat 2 j \<and> baseline_leads r) (stratum_rows sha m w i n d)) =
      (if i = j then first_half j n else 0)"
  proof (cases "i = j")
    case True
    have "filter (\<lambda>r. slot_date_slot r = pad_nat 2 j \<and> baseline_leads r) (stratum_rows sha m w i n d) =
        filter (\<lambda>r. slot_arms r = [''baseline'', ''candidate'']) (stratum_rows sha m w i n d)"
      using True by (intro filter_cong) (auto dest: stratum_row_fields simp: baseline_leads_def)
    then show ?thesis using True by (simp add: stratum_balance)
  next
    case False
    then have "filter (\<lambda>r. slot_date_slot r = pad_nat 2 j \<and> baseline_leads r) (stratum_rows sha m w i n d) = []"
      by (auto simp: filter_empty_conv dest: stratum_row_fields)
    then show ?thesis using False by simp
  qed
  show ?case using Cons.IH [OF r(1)] head r(2) by (auto simp: nth_Cons' Suc_diff_le)
qed simp

lemma workload_rows_arms:
  "workload_rows sha m w i counts = Inr rows \<Longrightarrow> r \<in> set rows \<Longrightarrow>
     slot_arms r = [''baseline'', ''candidate''] \<or> slot_arms r = [''candidate'', ''baseline'']"
  by (induction counts arbitrary: i rows)
     (auto simp: ebind_eq_Inr dest!: stratum_row_fields split: if_splits)

definition enough_dates :: "plan_inputs \<Rightarrow> bool" where
  "enough_dates m = list_all (\<lambda>(w, counts). length counts \<le> length (plan_dates m)) (plan_strata m)"

lemma order_parts:
  assumes "enough_dates m"
  obtains parts where
    "list_all2 (\<lambda>x rows. workload_rows sha m (fst x) 1 (snd x) = Inr rows) (sort_key fst (plan_strata m)) parts"
    "order sha m = Inr (concat parts)"
proof -
  let ?f = "\<lambda>(w, counts). workload_rows sha m w 1 counts"
  have "\<exists>rows. ?f x = Inr rows" if "x \<in> set (plan_strata m)" for x
    using that assms workload_rows_ok [of 1 "snd x" m sha "fst x"]
    by (auto simp: enough_dates_def list_all_iff split_beta)
  then have "\<exists>parts. emap ?f xs = Inr parts" if "set xs \<subseteq> set (plan_strata m)" for xs
    using that by (induction xs) fastforce+
  then obtain parts where e: "emap ?f (sort_key fst (plan_strata m)) = Inr parts" by fastforce
  show ?thesis
  proof (rule that)
    show "list_all2 (\<lambda>x rows. workload_rows sha m (fst x) 1 (snd x) = Inr rows) (sort_key fst (plan_strata m)) parts"
      using e unfolding emap_eq_Inr by (simp add: split_beta)
    show "order sha m = Inr (concat parts)" unfolding order_def e by simp
  qed
qed

lemma parts_keys:
  "list_all2 (\<lambda>x rows. workload_rows sha m (fst x) 1 (snd x) = Inr rows) xs parts \<Longrightarrow>
     mset (map slot_key (concat parts)) = mset (concat (map planned xs))"
proof (induction rule: list_all2_induct)
  case (Cons x xs rows parts)
  show ?case using Cons.IH workload_rows_keys [OF Cons.hyps(1)] by (simp add: planned_def split_beta)
qed simp

lemma parts_balance:
  "list_all2 (\<lambda>x rows. workload_rows sha m (fst x) 1 (snd x) = Inr rows) xs parts \<Longrightarrow> distinct (map fst xs) \<Longrightarrow>
     length (filter (\<lambda>r. slot_workload r = w \<and> slot_date_slot r = pad_nat 2 j \<and> baseline_leads r) (concat parts)) =
       (case map_of xs w of
          Some counts \<Rightarrow> if 1 \<le> j \<and> j \<le> length counts then first_half j (counts ! (j - 1)) else 0
        | None \<Rightarrow> 0)"
proof (induction rule: list_all2_induct)
  case (Cons x xs rows parts)
  have "filter (\<lambda>r. slot_workload r = w \<and> slot_date_slot r = pad_nat 2 j \<and> baseline_leads r) rows =
      (if fst x = w then filter (\<lambda>r. slot_date_slot r = pad_nat 2 j \<and> baseline_leads r) rows else [])"
    using workload_rows_workload [OF Cons.hyps(1)] by (auto intro!: filter_cong simp: filter_empty_conv)
  then have "length (filter (\<lambda>r. slot_workload r = w \<and> slot_date_slot r = pad_nat 2 j \<and> baseline_leads r) rows) =
      (if fst x = w \<and> 1 \<le> j \<and> j \<le> length (snd x) then first_half j (snd x ! (j - 1)) else 0)"
    using workload_rows_balance [OF Cons.hyps(1), of j] by auto
  moreover have "map_of xs w = None" if "fst x = w"
    using that Cons.prems by (auto simp: map_of_eq_None_iff)
  ultimately show ?case using Cons.IH Cons.prems by (cases x) auto
qed simp

lemma distinct_planned: "distinct (planned x)"
proof -
  have "distinct (concat (map (\<lambda>(i, n). map (\<lambda>b. (w, pad_nat 2 i, b)) (block_ids n)) (enumerate k counts))) \<and>
      (\<forall>y \<in> set (concat (map (\<lambda>(i, n). map (\<lambda>b. (w, pad_nat 2 i, b)) (block_ids n)) (enumerate k counts))).
         \<exists>i \<ge> k. fst (snd y) = pad_nat 2 i)" for w k counts
  proof (induction counts arbitrary: k)
    case (Cons n counts)
    show ?case using Cons.IH [of "Suc k"] by (fastforce simp: distinct_map inj_on_def dest: Suc_leD)
  qed simp
  from this [THEN conjunct1] show ?thesis unfolding planned_def split_beta .
qed

lemma planned_workload: "y \<in> set (planned x) \<Longrightarrow> fst y = fst x"
  by (auto simp: planned_def split_beta)

lemma distinct_all_planned: "distinct (map fst xs) \<Longrightarrow> distinct (concat (map planned xs))"
proof (induction xs)
  case (Cons x xs)
  have "fst y \<noteq> fst x" if "x' \<in> set xs" "y \<in> set (planned x')" for x' y
    using that Cons.prems planned_workload [of y x'] by force
  then show ?case using Cons distinct_planned [of x] planned_workload [of _ x] by fastforce
qed simp

section \<open>Properties\<close>

definition safe_part :: "string \<Rightarrow> bool" where
  "safe_part p = (p \<noteq> [] \<and> p \<noteq> ''.'' \<and> p \<noteq> ''..'' \<and> CHR ''/'' \<notin> set p \<and> char_of (0::nat) \<notin> set p)"

lemma set_split_on: "p \<in> set (split_on c s) \<Longrightarrow> set p \<subseteq> set s"
proof (induction s arbitrary: p)
  case (Cons x s)
  then show ?case by (cases "split_on c s") (fastforce split: if_splits)+
qed simp

lemma set_path_str: "set (path_str ps) \<subseteq> {CHR ''/''} \<union> \<Union> (set ` set ps)"
  unfolding path_str_def by (induction "''/''" ps rule: join.induct) auto

text \<open>
  \<open>child\<close> never leaves the root: a name it accepts is the root extended by at least one
  component, none of them empty, \<open>.\<close>, \<open>..\<close>, or holding a separator or NUL, and no prefix of the result
  below the root is a symbolic link.  Every refusal, of any JSON value, is a ValueError.
\<close>

theorem child_confined:
  "case child is_symlink base v of
     Inl e \<Rightarrow> is_value_error e
   | Inr q \<Rightarrow> \<exists>parts. parts \<noteq> [] \<and> q = base @ parts \<and> list_all safe_part parts \<and>
       list_all (\<lambda>i. \<not> is_symlink (base @ take (Suc i) parts)) [0..<length parts]"
proof (cases "child is_symlink base v")
  case (Inl e)
  then show ?thesis using onlyD [OF only_child] by simp
next
  case (Inr q)
  then obtain s where s: "s \<noteq> []" "char_of (0::nat) \<notin> set s" "path_parts s \<noteq> []"
    "\<not> list_ex (\<lambda>p. p = ''.'' \<or> p = ''..'') (path_parts s)"
    "child_walk is_symlink base (path_parts s) s = Inr q"
    by (cases v) (auto simp: child_def Let_def split: if_splits)
  have "list_all safe_part (path_parts s)"
    using s(2,4) set_split_on
    by (fastforce simp: list_all_iff list_ex_iff safe_part_def path_parts_def dest: split_on_no_sep)
  moreover have "q = base @ path_parts s \<and> (\<forall>i < length (path_parts s). \<not> is_symlink (base @ take (Suc i) (path_parts s)))"
    by (rule child_walk_result [OF s(5)])
  ultimately show ?thesis using Inr s(3) by (auto simp: list_all_iff)
qed

text \<open>
  Every plain relative path is accepted and resolved to itself: printing safe components with
  \<open>/\<close> between them and resolving the text below the root gives the root extended by the components.
\<close>

theorem child_path_str:
  assumes "ps \<noteq> []" "list_all safe_part ps"
    and "\<And>i. i < length ps \<Longrightarrow> \<not> is_symlink (base @ take (Suc i) ps)"
  shows "child is_symlink base (PStr (path_str ps)) = Inr (base @ ps)"
proof -
  have "split_on (CHR ''/'') (path_str ps) = ps"
    using assms(1,2) by (intro split_on_join) (auto simp: list_all_iff safe_part_def)
  then have parts: "path_parts (path_str ps) = ps"
    unfolding path_parts_def using assms(2) by (auto simp: list_all_iff safe_part_def intro!: filter_True)
  obtain p qs where ps: "ps = p # qs" "p \<noteq> []" "CHR ''/'' \<notin> set p"
    using assms(1,2) by (cases ps) (auto simp: safe_part_def)
  then obtain c p' where p: "p = c # p'" "c \<noteq> CHR ''/''" by (cases p) auto
  then have "hd (path_str ps) = c" "path_str ps \<noteq> []"
    using ps by (cases qs; simp add: path_str_def)+
  then have rel: "\<not> is_absolute (path_str ps)" "path_str ps \<noteq> []"
    using p by (cases "path_str ps"; simp add: is_absolute_def startswith_def)+
  have "char_of (0::nat) \<notin> set (path_str ps)"
  proof
    assume "char_of (0::nat) \<in> set (path_str ps)"
    moreover have "char_of (0::nat) \<noteq> CHR ''/''" by (simp add: char_of_def)
    ultimately show False using set_path_str [of ps] assms(2) by (auto simp: list_all_iff safe_part_def)
  qed
  moreover have "\<not> list_ex (\<lambda>p. p = ''.'' \<or> p = ''..'') ps"
    using assms(2) by (auto simp: list_all_iff list_ex_iff safe_part_def)
  moreover have "child_walk is_symlink base ps n = Inr (base @ ps)" for n
    by (rule child_walk_ok) (rule assms(3))
  ultimately show ?thesis
    using rel parts assms(1) by (simp add: child_def Let_def)
qed

lemma child_path_str_witness:
  "child (\<lambda>p. False) [''bundle''] (PStr ''a/b.json'') = Inr [''bundle'', ''a'', ''b.json'']"
  using child_path_str [of "[''a'', ''b.json'']" "\<lambda>p. False" "[''bundle'']"]
  by (simp add: path_str_def safe_part_def char_of_def)

text \<open>
  \<open>json_equal\<close> is an equivalence on well-formed JSON values and is finer than Python's \<open>==\<close>.
\<close>

theorem json_equal_equivalence:
  assumes "wf_pv a" "wf_pv b"
  shows "json_equal a a \<and> json_equal a b = json_equal b a \<and> (json_equal a b \<and> json_equal b c \<longrightarrow> json_equal a c) \<and>
    (json_equal a b \<longrightarrow> py_eq a b)"
  using assms json_equal_refl json_equal_sym_aux json_equal_trans_aux json_equal_imp_py_eq_aux by blast

lemma json_equal_equivalence_witness:
  "json_equal (PDict [(''n'', PInt 1), (''x'', PNone)]) (PDict [(''x'', PNone), (''n'', PFloat (Fin 1))]) \<and>
   json_equal (PDict [(''x'', PNone), (''n'', PFloat (Fin 1))]) (PDict [(''n'', PInt 1), (''x'', PNone)])"
proof -
  have "json_equal (PDict [(''n'', PInt 1), (''x'', PNone)]) (PDict [(''x'', PNone), (''n'', PFloat (Fin 1))])"
    by (simp add: num_eq_def insert_commute)
  then show ?thesis
    using json_equal_equivalence [of "PDict [(''n'', PInt 1), (''x'', PNone)]"
        "PDict [(''x'', PNone), (''n'', PFloat (Fin 1))]"]
    by (simp add: is_finite_def)
qed

text \<open>
  C39. The seal detects every change: a bundle holding the inventory that \<open>seal\<close> wrote for \<open>b\<close> passes
  \<open>verify\<close> exactly when it has only files and directories and the same paths, kinds and bytes as \<open>b\<close>
  outside \<open>SHA256SUMS\<close>.  The digest must separate the byte strings at hand, and the JSON codec must
  return the inventory it was given.
\<close>

theorem verify_detects_change:
  assumes wf: "wf_bundle b" "wf_bundle t" and sealed: "seal sha dumps fresh b = Inr s"
    and held: "read_file t [SUMS] = read_file s [SUMS]"
    and codec: "codec_ok loads dumps (sealed_inventory sha b)"
    and inj: "inj_on sha (contents b \<union> contents t)"
  shows "verify sha loads t = Inr () \<longleftrightarrow> regular t \<and> content t = content b"
proof -
  from sealed obtain txt0 where "s = put_file [SUMS] fresh (dumps (PDict (sealed_inventory sha b))) b"
    and txt0: "txt0 = dumps (PDict (sealed_inventory sha b))"
    by (auto simp: seal_def ebind_eq_Inr bundle_inventory_eq_Inr inventory_payload [OF wf(1)] sealed_inventory_def)
  then have rd: "read_file t [SUMS] = Inr txt0" using held by (simp add: read_file_def put_file_def)
  from codec txt0 obtain e where e: "loads txt0 = Inr (PDict e)" "distinct (map fst e)" "mset e = mset (sealed_inventory sha b)"
    by (auto simp: codec_ok_def split: sum.splits pv.splits)
  have se: "set e = set (sealed_inventory sha b)" using e(3) by (rule mset_eq_setD)
  have "py_eq (PDict e) (PDict (sealed_inventory sha t)) \<longleftrightarrow> set e = set (sealed_inventory sha t)"
  proof (rule flat_py_eq [OF e(2) distinct_sealed [OF wf(2)]])
    show "\<forall>(k, v) \<in> set e. v = PNone \<or> is_str v" unfolding se set_sealed by (auto simp: inv_entry_def)
  qed
  also have "\<dots> \<longleftrightarrow> content t = content b"
    unfolding se set_sealed using same_sealed_iff [OF wf inj] by auto
  finally show ?thesis using verify_eq_Inr [OF wf(2) rd, of loads "PDict e" sha] e(1) by simp
qed

lemma verify_detects_change_witness:
  "verify id (\<lambda>_. Inr (PDict [(''a'', PStr ''x'')])) [([''SHA256SUMS''], File \<lparr>dev = 0, ino = 2\<rparr> 1 ''sums''), ([''a''], File \<lparr>dev = 0, ino = 1\<rparr> 1 ''y'')]
     \<noteq> Inr ()"
proof -
  let ?i = "\<lparr>dev = 0, ino = 1\<rparr>"
  let ?b = "[([''a''], File ?i 1 ''x'')]"
  let ?t = "[([''SHA256SUMS''], File \<lparr>dev = 0, ino = 2\<rparr> 1 ''sums''), ([''a''], File ?i 1 ''y'')]"
  have pay: "payload ?b = ?b" by (simp add: payload_def SUMS_def)
  have inv: "sealed_inventory id ?b = [(''a'', PStr ''x'')]"
    unfolding sealed_inventory_def pay by (simp add: inv_entry_def path_str_def is_dir_def bytes_of_def)
  have "verify id (\<lambda>_. Inr (PDict [(''a'', PStr ''x'')])) ?t = Inr () \<longleftrightarrow> regular ?t \<and> content ?t = content ?b"
  proof (rule verify_detects_change [where fresh = "\<lparr>dev = 0, ino = 2\<rparr>" and dumps = "\<lambda>_. ''sums''"])
    show "wf_bundle ?b" "wf_bundle ?t" by (simp_all add: wf_bundle_def)
    have "bundle_inventory id ?b = Inr [(''a'', PStr ''x'')]"
      by (simp add: bundle_inventory_eq_Inr regular_def is_file_def inv_entry_def path_str_def is_dir_def bytes_of_def)
    then show "seal id (\<lambda>_. ''sums'') \<lparr>dev = 0, ino = 2\<rparr> ?b = Inr (put_file [SUMS] \<lparr>dev = 0, ino = 2\<rparr> ''sums'' ?b)"
      by (simp add: seal_def)
    show "read_file ?t [SUMS] = read_file (put_file [SUMS] \<lparr>dev = 0, ino = 2\<rparr> ''sums'' ?b) [SUMS]"
      by (simp add: read_file_def put_file_def SUMS_def)
    show "codec_ok (\<lambda>_. Inr (PDict [(''a'', PStr ''x'')])) (\<lambda>_. ''sums'') (sealed_inventory id ?b)"
      unfolding inv by (simp add: codec_ok_def)
  qed simp
  moreover have "content ?t [''a''] \<noteq> content ?b [''a'']"
    by (simp add: content_def SUMS_def node_kind_def is_dir_def bytes_of_def)
  ultimately show ?thesis by metis
qed

text \<open>
  C36. The assignment order of a campaign covers its plan exactly: for every digest, the rows are a
  permutation of the planned blocks, each once; every block runs both arms; and in the stratum of
  each workload and date exactly the planned half of the blocks runs the baseline first.
\<close>

theorem order_complete_and_balanced:
  assumes "enough_dates m" "distinct (map fst (plan_strata m))"
  shows "\<exists>rows. order sha m = Inr rows \<and>
    mset (map slot_key rows) = mset (concat (map planned (plan_strata m))) \<and> distinct (map slot_key rows) \<and>
    list_all (\<lambda>r. mset (slot_arms r) = {#''baseline'', ''candidate''#}) rows \<and>
    (\<forall>w counts j. map_of (plan_strata m) w = Some counts \<and> 1 \<le> j \<and> j \<le> length counts \<longrightarrow>
       length (filter (\<lambda>r. slot_workload r = w \<and> slot_date_slot r = pad_nat 2 j \<and> baseline_leads r) rows) =
         first_half j (counts ! (j - 1)))"
proof -
  let ?xs = "sort_key fst (plan_strata m)"
  obtain parts where p: "list_all2 (\<lambda>x rows. workload_rows sha m (fst x) 1 (snd x) = Inr rows) ?xs parts"
    "order sha m = Inr (concat parts)" by (rule order_parts [OF assms(1)])
  have ms: "mset (concat (map planned ?xs)) = mset (concat (map planned (plan_strata m)))"
    unfolding mset_concat sum_mset_sum_list [symmetric] mset_map mset_sort by (rule refl)
  have keys: "mset (map slot_key (concat parts)) = mset (concat (map planned (plan_strata m)))"
    using parts_keys [OF p(1)] ms by simp
  then have dist: "distinct (map slot_key (concat parts))"
    using distinct_all_planned [OF assms(2)] mset_eq_imp_distinct_iff by blast
  have arms: "list_all (\<lambda>r. mset (slot_arms r) = {#''baseline'', ''candidate''#}) (concat parts)"
    unfolding list_all_iff
  proof
    fix r assume "r \<in> set (concat parts)"
    then obtain x rows where "workload_rows sha m (fst x) 1 (snd x) = Inr rows" "r \<in> set rows"
      using p(1) by (force simp: list_all2_conv_all_nth in_set_conv_nth)
    then show "mset (slot_arms r) = {#''baseline'', ''candidate''#}"
      using workload_rows_arms [of sha m "fst x" 1 "snd x" rows r] by auto
  qed
  have "mset (map fst ?xs) = mset (map fst (plan_strata m))" by simp
  then have dx: "distinct (map fst ?xs)" using assms(2) mset_eq_imp_distinct_iff by blast
  then have "map_of ?xs = map_of (plan_strata m)"
    using assms(2) by (intro map_of_inject_set [THEN iffD2]) auto
  then show ?thesis using p(2) keys dist arms parts_balance [OF p(1) dx] by (intro exI [of _ "concat parts"]) auto
qed

lemma order_complete_and_balanced_witness:
  "\<exists>rows. order id \<lparr>plan_seed = ''s'', plan_experiment = ''E2'', plan_phase = ''pilot'',
      plan_strata = [(''external-acceptance'', [3, 3])], plan_dates = [''d1'', ''d2'']\<rparr> = Inr rows \<and>
    length (filter (\<lambda>r. slot_workload r = ''external-acceptance'' \<and> slot_date_slot r = pad_nat 2 1 \<and> baseline_leads r) rows) = 2"
  using order_complete_and_balanced [of "\<lparr>plan_seed = ''s'', plan_experiment = ''E2'', plan_phase = ''pilot'',
      plan_strata = [(''external-acceptance'', [3, 3])], plan_dates = [''d1'', ''d2'']\<rparr>" id]
  by (fastforce simp: enough_dates_def first_half_def)

end
