(* ===== verification/Frames.thy ===== *)
theory Frames
  imports Common
begin

text \<open>
  \<open>scripts/check-external-sut-vectors.py\<close>, the shape of one wire frame:
  \<open>integer\<close>, \<open>string\<close>, \<open>frame_shape\<close> and the length-prefix framing \<open>framed\<close>.

  A frame is a JSON value.  The compact JSON text of a frame (\<open>json.dumps\<close>) is an
  argument \<open>dumps\<close>.  After a \<open>need\<close> has established that a key is present the
  model reads it with the total accessor \<open>fld\<close>; the lemmas show the key is there.
\<close>

section \<open>Accessors\<close>

definition fld :: "pv \<Rightarrow> string \<Rightarrow> pv" where
  "fld v k = (case map_of (items_of v) k of Some x \<Rightarrow> x | None \<Rightarrow> PNone)"

definition has_keys :: "pv \<Rightarrow> string list \<Rightarrow> bool" where
  "has_keys v ks = (is_dict v \<and> set (keys v) = set ks)"

text \<open>The canonical hash key of a value: equal numbers are one key, and a list or dict raises.\<close>

definition hkey :: "pv \<Rightarrow> pv res" where
  "hkey v = (case v of
     PList _ \<Rightarrow> Inl (TypeError ''unhashable type'')
   | PDict _ \<Rightarrow> Inl (TypeError ''unhashable type'')
   | PBool b \<Rightarrow> Inr (PInt (if b then 1 else 0))
   | PFloat (Fin q) \<Rightarrow> Inr (if q = of_int \<lfloor>q\<rfloor> then PInt \<lfloor>q\<rfloor> else PFloat (Fin q))
   | _ \<Rightarrow> Inr v)"

lemma hkey_PStr [simp]: "hkey (PStr s) = Inr (PStr s)"
  by (simp add: hkey_def)

lemma py_eq_PStr [simp]: "py_eq v (PStr s) \<longleftrightarrow> v = PStr s"
  by (cases v) (auto simp: num_eq_def)

lemma fld_dict [simp]: "fld (PDict d) k = (case map_of d k of Some x \<Rightarrow> x | None \<Rightarrow> PNone)"
  by (simp add: fld_def)

lemma has_keys_getitem: "has_keys v ks \<Longrightarrow> k \<in> set ks \<Longrightarrow> getitem v k = Inr (fld v k)"
  by (cases v) (auto simp: has_keys_def fld_def map_of_eq_None_iff split: option.splits)

section \<open>Scalars\<close>

definition integer_in :: "pv \<Rightarrow> int \<Rightarrow> int \<Rightarrow> bool" where
  "integer_in v low high = (is_int v \<and> low \<le> int_of_pv v \<and> int_of_pv v \<le> high)"

text \<open>The length of the UTF-8 encoding, for code points below 256 (no surrogates, so encoding succeeds).\<close>

definition utf8_len :: "string \<Rightarrow> nat" where
  "utf8_len s = sum_list (map (\<lambda>c. if char_code c < 128 then 1 else 2) s)"

definition control_char :: "char \<Rightarrow> bool" where
  "control_char c = (char_code c < 32 \<or> (127 \<le> char_code c \<and> char_code c \<le> 159))"

definition string_ok :: "pv \<Rightarrow> string \<Rightarrow> bool \<Rightarrow> nat option \<Rightarrow> bool \<Rightarrow> unit res" where
  "string_ok v label nonempty max_bytes is_name =
     require (is_str v) (label @ '' string'') (
     require (\<not> nonempty \<or> str_of v \<noteq> []) (label @ '' empty'') (
     require (case max_bytes of None \<Rightarrow> True | Some n \<Rightarrow> utf8_len (str_of v) \<le> n) (label @ '' too long'') (
     if is_name then
       require (str_of v \<noteq> [] \<and> utf8_len (str_of v) \<le> 128 \<and> str_of v = strip (str_of v)) (label @ '' name bounds'') (
       require (\<not> list_ex control_char (str_of v)) (label @ '' control character'') (Inr ()))
     else Inr ())))"

abbreviation name_ok :: "pv \<Rightarrow> string \<Rightarrow> unit res" where
  "name_ok v label \<equiv> string_ok v label False None True"

text \<open>\<open>re.fullmatch('[a-f0-9]{32}', s)\<close> and \<open>re.fullmatch('[1-9][0-9]*', s)\<close>\<close>

definition identity32 :: "pv \<Rightarrow> bool" where
  "identity32 v = (is_str v \<and> hex_string 32 (str_of v))"

definition positive_decimal :: "string \<Rightarrow> bool" where
  "positive_decimal s = (case s of [] \<Rightarrow> False | c # cs \<Rightarrow> CHR ''1'' \<le> c \<and> c \<le> CHR ''9'' \<and> list_all is_digit cs)"

definition arrival_no :: "pv \<Rightarrow> int" where
  "arrival_no b = int (read_nat (str_of (fld b ''arrival'')))"

section \<open>Frames\<close>

definition body_fields :: "string \<Rightarrow> string list option" where
  "body_fields = map_of [
     (''start'', [''variant'', ''params'', ''commands'', ''points'', ''capacity'', ''database'', ''startup_ms'', ''cancel_ms'']),
     (''ready'', [''commands'', ''points'', ''capacity'']),
     (''invoke'', [''invocation'', ''worker'', ''command'']),
     (''accepted'', [''invocation'', ''worker'']),
     (''arrive'', [''invocation'', ''worker'', ''arrival'', ''point'']),
     (''release'', [''invocation'', ''worker'', ''arrival'', ''point'']),
     (''terminal'', [''invocation'', ''worker'', ''transaction'', ''connection'', ''error'']),
     (''cancel'', [''invocation'', ''worker'', ''reason'']),
     (''stop'', [''budget_ms'']), (''stopped'', []), (''fatal'', [''kind'', ''message''])]"

definition to_java :: "string list" where
  "to_java = [''start'', ''invoke'', ''release'', ''cancel'', ''stop'']"

definition fatal_kinds :: "string list" where
  "fatal_kinds = [''version'', ''protocol'', ''startup'', ''transport'', ''transaction'', ''cleanup'', ''shutdown'']"

definition str_in :: "pv \<Rightarrow> string list \<Rightarrow> bool" where
  "str_in v ss = (is_str v \<and> str_of v \<in> set ss)"

text \<open>The envelope, and the message type with its body fields.\<close>

definition envelope_shape :: "(pv \<Rightarrow> string) \<Rightarrow> pv \<Rightarrow> unit res" where
  "envelope_shape dumps f =
     require (has_keys f [''v'', ''type'', ''run'', ''session'', ''seq'', ''body'']) ''frame envelope'' (
     require (integer_in (fld f ''v'') 1 2147483647 \<and> integer_in (fld f ''seq'') 1 100000) ''version/sequence type or range'' (
     ebind (efor (\<lambda>k. require (identity32 (fld f k)) (k @ '' identity'') (Inr ())) [''run'', ''session'']) (\<lambda>_.
     erequire (ebind (hkey (fld f ''type'')) (\<lambda>_. Inr (
         is_str (fld f ''type'') \<and> (case body_fields (str_of (fld f ''type'')) of
           None \<Rightarrow> False | Some ks \<Rightarrow> has_keys (fld f ''body'') ks)))) ''message body fields'' (
     require (utf8_len (dumps f) \<le> 1048576) ''frame too large'' (Inr ())))))"

text \<open>The fields every message that has them shares.\<close>

definition identity_shape :: "pv \<Rightarrow> unit res" where
  "identity_shape b =
     ebind (if has_key b ''invocation'' then
              require (identity32 (fld b ''invocation'')) ''invocation identity'' (name_ok (fld b ''worker'') ''worker'')
            else Inr ()) (\<lambda>_.
     ebind (if has_key b ''arrival'' then
              require (is_str (fld b ''arrival'') \<and> positive_decimal (str_of (fld b ''arrival'')) \<and> arrival_no b \<le> 100000)
                ''arrival identity'' (Inr ())
            else Inr ()) (\<lambda>_.
     efor (\<lambda>k. if has_key b k then require (integer_in (fld b k) 1 2147483647) (''invalid '' @ k) (Inr ()) else Inr ())
       [''startup_ms'', ''cancel_ms'', ''budget_ms'']))"

definition distinct_names :: "pv \<Rightarrow> string \<Rightarrow> unit res" where
  "distinct_names b k =
     erequire (eand (Inr (is_list (fld b k)))
         (ebind (emap hkey (elems_of (fld b k))) (\<lambda>ks. Inr (distinct ks)))) k
       (efor (\<lambda>v. name_ok v k) (elems_of (fld b k)))"

definition plan_shape :: "pv \<Rightarrow> unit res" where
  "plan_shape b = require (integer_in (fld b ''capacity'') 1 1024) ''capacity''
     (efor (distinct_names b) [''commands'', ''points''])"

definition start_shape :: "pv \<Rightarrow> unit res" where
  "start_shape b = ebind (name_ok (fld b ''variant'') ''variant'') (\<lambda>_.
     let db = fld b ''database'' in
     require (has_keys db [''driver'', ''host'', ''port'', ''name'', ''username'', ''password'']) ''database fields'' (
     require (fld db ''driver'' = PStr ''mysql'' \<and> integer_in (fld db ''port'') 1 65535) ''database driver/port'' (
     ebind (efor (\<lambda>k. string_ok (fld db k) (''database.'' @ k) True None False) [''host'', ''name'', ''username'']) (\<lambda>_.
     ebind (string_ok (fld db ''password'') ''database.password'' False None False) (\<lambda>_.
     require (is_dict (fld b ''params'')) ''params''
       (efor (\<lambda>(k, v). ebind (name_ok (PStr k) ''parameter key'') (\<lambda>_. string_ok v ''parameter value'' False None False))
         (items_of (fld b ''params''))))))))"

text \<open>\<open>re.fullmatch('[A-Z0-9]{5}', s)\<close>\<close>

definition sql_state :: "string \<Rightarrow> bool" where
  "sql_state s = (length s = 5 \<and> list_all (\<lambda>c. is_upper c \<or> is_digit c) s)"

definition error_shape :: "pv \<Rightarrow> unit res" where
  "error_shape err =
     require (has_keys err [''kind'', ''message'', ''mysql_code'', ''sql_state'']) ''error fields'' (
     require (str_in (fld err ''kind'') [''application'', ''mysql'', ''cancelled'']) ''error kind'' (
     ebind (string_ok (fld err ''message'') ''error message'' False (Some 1024) False) (\<lambda>_.
     require (integer_in (fld err ''mysql_code'') 0 65535) ''MySQL code'' (
     require (if fld err ''kind'' = PStr ''mysql''
         then 0 < int_of_pv (fld err ''mysql_code'') \<and> is_str (fld err ''sql_state'') \<and> sql_state (str_of (fld err ''sql_state''))
         else int_of_pv (fld err ''mysql_code'') = 0 \<and> fld err ''sql_state'' = PStr [])
       ''SQL error metadata'' (Inr ())))))"

definition terminal_shape :: "pv \<Rightarrow> unit res" where
  "terminal_shape b =
     require (str_in (fld b ''transaction'') [''committed'', ''rolled_back'', ''not_started'']) ''transaction outcome'' (
     require (str_in (fld b ''connection'') [''returned'', ''not_acquired'']) ''lease outcome'' (
     require (fld b ''connection'' \<noteq> PStr ''not_acquired'' \<or> fld b ''transaction'' = PStr ''not_started'') ''unacquired transaction'' (
     if fld b ''error'' = PNone then
       require (fld b ''transaction'' = PStr ''committed'' \<and> fld b ''connection'' = PStr ''returned'') ''nil terminal error'' (Inr ())
     else error_shape (fld b ''error''))))"

text \<open>The fields of one message type.\<close>

definition typed_shape :: "string \<Rightarrow> pv \<Rightarrow> unit res" where
  "typed_shape t b =
     (if t = ''start'' then ebind (plan_shape b) (\<lambda>_. start_shape b)
      else if t = ''ready'' then plan_shape b
      else if t = ''invoke'' then name_ok (fld b ''command'') ''command''
      else if t = ''arrive'' \<or> t = ''release'' then name_ok (fld b ''point'') ''point''
      else if t = ''cancel'' then require (str_in (fld b ''reason'') [''context'', ''stop'']) ''cancel reason'' (Inr ())
      else if t = ''terminal'' then terminal_shape b
      else if t = ''fatal'' then
        erequire (ebind (hkey (fld b ''kind'')) (\<lambda>_. Inr (str_in (fld b ''kind'') fatal_kinds))) ''fatal kind''
          (string_ok (fld b ''message'') ''fatal message'' False (Some 1024) False)
      else Inr ())"

definition ftype :: "pv \<Rightarrow> string" where
  "ftype f = str_of (fld f ''type'')"

definition fbody :: "pv \<Rightarrow> pv" where
  "fbody f = fld f ''body''"

definition frame_shape :: "(pv \<Rightarrow> string) \<Rightarrow> pv \<Rightarrow> unit res" where
  "frame_shape dumps f = ebind (envelope_shape dumps f) (\<lambda>_.
     ebind (identity_shape (fbody f)) (\<lambda>_. typed_shape (ftype f) (fbody f)))"

section \<open>Framing\<close>

text \<open>\<open>int.from_bytes(raw, 'big')\<close> and \<open>framed\<close>: four length bytes, then exactly that many.\<close>

definition from_bytes_big :: "string \<Rightarrow> nat" where
  "from_bytes_big raw = foldl (\<lambda>n c. 256 * n + char_code c) 0 raw"

definition framed :: "string \<Rightarrow> string res" where
  "framed raw = require (4 \<le> length raw \<and> from_bytes_big (take 4 raw) = length raw - 4) ''framing length mismatch''
     (Inr (drop 4 raw))"

section \<open>What an accepted frame guarantees\<close>

lemma frame_shape_keys:
  assumes "frame_shape dumps f = Inr ()"
  shows "has_keys f [''v'', ''type'', ''run'', ''session'', ''seq'', ''body'']"
    and "fld f ''type'' = PStr (ftype f)"
    and "\<exists>ks. body_fields (ftype f) = Some ks \<and> has_keys (fbody f) ks"
    and "is_int (fld f ''seq'') \<and> 1 \<le> int_of_pv (fld f ''seq'')"
    and "identity_shape (fbody f) = Inr ()" and "typed_shape (ftype f) (fbody f) = Inr ()"
  using assms
  by (auto simp: frame_shape_def envelope_shape_def ebind_eq_Inr ftype_def fbody_def integer_in_def
      is_str_iff split: option.splits)

lemma has_keys_has_key: "has_keys v ks \<Longrightarrow> has_key v k \<longleftrightarrow> k \<in> set ks"
  by (simp add: has_keys_def has_key_def keys_def)

lemma body_fields_invocation:
  "body_fields t = Some ks \<Longrightarrow>
     ''invocation'' \<in> set ks \<longleftrightarrow> t \<in> {''invoke'', ''accepted'', ''arrive'', ''release'', ''terminal'', ''cancel''}"
  "body_fields t = Some ks \<Longrightarrow> ''arrival'' \<in> set ks \<longleftrightarrow> t \<in> {''arrive'', ''release''}"
  by (auto simp: body_fields_def split: if_splits)

definition worker_messages :: "string list" where
  "worker_messages = [''invoke'', ''accepted'', ''arrive'', ''release'', ''terminal'', ''cancel'']"

lemma string_ok_is_str: "string_ok v l n m nm = Inr () \<Longrightarrow> v = PStr (str_of v)"
  by (simp add: string_ok_def is_str_iff)

lemma frame_worker_fields:
  assumes "frame_shape dumps f = Inr ()" "ftype f \<in> set worker_messages"
  shows "fld (fbody f) ''invocation'' = PStr (str_of (fld (fbody f) ''invocation''))"
    and "hex_string 32 (str_of (fld (fbody f) ''invocation''))"
    and "fld (fbody f) ''worker'' = PStr (str_of (fld (fbody f) ''worker''))"
proof -
  obtain ks where ks: "body_fields (ftype f) = Some ks" "has_keys (fbody f) ks"
    using frame_shape_keys(3) [OF assms(1)] by blast
  then have "has_key (fbody f) ''invocation''"
    using assms(2) body_fields_invocation(1) [OF ks(1)] by (auto simp: has_keys_has_key worker_messages_def)
  then have "identity32 (fld (fbody f) ''invocation'')" "name_ok (fld (fbody f) ''worker'') ''worker'' = Inr ()"
    using frame_shape_keys(5) [OF assms(1)] by (auto simp: identity_shape_def ebind_eq_Inr)
  then show "fld (fbody f) ''invocation'' = PStr (str_of (fld (fbody f) ''invocation''))"
    "hex_string 32 (str_of (fld (fbody f) ''invocation''))"
    "fld (fbody f) ''worker'' = PStr (str_of (fld (fbody f) ''worker''))"
    by (auto simp: identity32_def is_str_iff dest: string_ok_is_str)
qed

text \<open>A canonical decimal is the printed form of its value, so identities that differ as text differ
  as numbers.\<close>

lemma digit_code: "is_digit c \<longleftrightarrow> 48 \<le> char_code c \<and> char_code c \<le> 57"
  by (simp add: is_digit_def char_code_def less_eq_char_def)

lemma digit_char: "is_digit c \<Longrightarrow> char_of (48 + (char_code c - 48)) = c"
  by (simp add: digit_code char_code_def)

lemma read_nat_pos: "positive_decimal s \<Longrightarrow> 1 \<le> read_nat s"
proof (induction s rule: rev_induct)
  case (snoc c s)
  show ?case
  proof (cases s)
    case Nil
    then show ?thesis using snoc.prems
      by (auto simp: positive_decimal_def read_nat_def char_code_def less_eq_char_def)
  next
    case (Cons d ds)
    then have "positive_decimal s" using snoc.prems by (simp add: positive_decimal_def)
    then show ?thesis using snoc.IH by (simp add: read_nat_append)
  qed
qed (simp add: positive_decimal_def)

lemma show_read_nat: "positive_decimal s \<Longrightarrow> show_nat (read_nat s) = s"
proof (induction s rule: rev_induct)
  case (snoc c s)
  show ?case
  proof (cases s)
    case Nil
    then have "is_digit c" "1 \<le> char_code c - 48" using snoc.prems
      by (auto simp: positive_decimal_def is_digit_def char_code_def less_eq_char_def)
    moreover have "char_code c - 48 < 10" using \<open>is_digit c\<close> unfolding digit_code by linarith
    ultimately show ?thesis using Nil digit_char [of c]
      by (simp add: read_nat_def show_nat.simps [of "char_code c - 48"])
  next
    case (Cons d ds)
    then have ps: "positive_decimal s" and dc: "is_digit c"
      using snoc.prems by (auto simp: positive_decimal_def)
    obtain k where k: "char_code c = 48 + k" "k < 10"
      using dc by (intro that [of "char_code c - 48"]) (unfold digit_code, linarith+)
    have rd: "read_nat (s @ [c]) = 10 * read_nat s + k" using k by (simp add: read_nat_append)
    have ch: "char_of (48 + k) = c" using k by (metis char_code_def char_of_char)
    show ?thesis
      unfolding rd using snoc.IH [OF ps] read_nat_pos [OF ps] k(2) ch
      by (simp add: show_nat.simps [of "10 * read_nat s + k"])
  qed
qed (simp add: positive_decimal_def)

lemma frame_arrival:
  assumes "frame_shape dumps f = Inr ()" "ftype f \<in> {''arrive'', ''release''}"
  shows "\<exists>n. 1 \<le> n \<and> n \<le> 100000 \<and> fld (fbody f) ''arrival'' = PStr (show_nat n) \<and> arrival_no (fbody f) = int n"
proof -
  obtain ks where ks: "body_fields (ftype f) = Some ks" "has_keys (fbody f) ks"
    using frame_shape_keys(3) [OF assms(1)] by blast
  then have "has_key (fbody f) ''arrival''"
    using assms(2) body_fields_invocation(2) [OF ks(1)] by (auto simp: has_keys_has_key)
  then have a: "is_str (fld (fbody f) ''arrival'')" "positive_decimal (str_of (fld (fbody f) ''arrival''))"
      "arrival_no (fbody f) \<le> 100000"
    using frame_shape_keys(5) [OF assms(1)] by (auto simp: identity_shape_def ebind_eq_Inr)
  show ?thesis
    using a read_nat_pos [OF a(2)] show_read_nat [OF a(2)]
    by (intro exI [of _ "read_nat (str_of (fld (fbody f) ''arrival''))"]) (auto simp: arrival_no_def is_str_iff)
qed

end
