(* ===== verification/History.thy ===== *)
theory History
  imports Frames "HOL-Library.AList"
begin

text \<open>
  \<open>history\<close> of \<open>scripts/check-external-sut-vectors.py\<close>: the linter that replays one
  constructed history of the external-SUT protocol, step by step, and raises at the
  first step that the protocol does not allow.

  The state is the set of dictionaries the function keeps.  A dictionary is an
  association list in insertion order (\<open>AList.update\<close> replaces in place or appends),
  keyed by canonical hash keys; a set is a set of keys.  The loop body is \<open>history_step\<close>:
  a local event goes to one of the \<open>on_...\<close> handlers, a received frame passes the shape,
  direction, version, session and sequence checks of \<open>receive_step\<close> and then the handler
  of its type.  The digest and the JSON printer are arguments.
\<close>

section \<open>Vocabulary and state\<close>

definition event_names :: "string list" where
  "event_names = [
     ''advance_cancel_cleanup_clock'', ''advance_fatal_cleanup_clock'', ''advance_startup_clock'',
     ''advance_stop_clock'', ''application_cleanup_complete'', ''begin_evaluation'',
     ''cancel_context'', ''check_operation_result'', ''check_stop_results'', ''child_exit'',
     ''command_exception'', ''complete_evaluation'', ''completion'', ''exhaust_arrivals'',
     ''exhaust_outbound_sequence'', ''hold_cleanup'', ''hold_release_enqueue'', ''invoke_call'',
     ''invoke_rejected'', ''jdbc_blocked'', ''launch_child'', ''provisional_evaluation'',
     ''readiness_complete'', ''resume_release_enqueue'', ''runtime_arrive_returns'',
     ''startup_before_write'', ''startup_deadline'', ''stderr_bytes'', ''stop_call'',
     ''stop_deadline'', ''stop_half_deadline'', ''wait_arrive_timeout'', ''worker_arrives'']"

definition expectation_names :: "string list" where
  "expectation_names = [
     ''abort_run'', ''all_calls_return_same_failure'', ''all_calls_return_success'',
     ''application_cleanup_blocked'', ''application_shutdown_barrier_armed'',
     ''arm_cleanup_watchdog'', ''arm_startup_watchdog'', ''arm_stop_watchdog'',
     ''await_active_cleanup'', ''await_eof_and_exit'', ''await_reaping'',
     ''begin_bounded_cleanup'', ''begin_detached_cleanup'', ''best_effort_stop'', ''call_pending'',
     ''cancel_bridge'', ''cancel_latched'', ''cancel_latched_atomically'', ''cancel_startup'',
     ''child_reaped'', ''cleanup_still_blocked'', ''client_arrive_once'', ''close_admission'',
     ''close_control_stream'', ''close_pipes'', ''close_pool_and_application'',
     ''close_result_channel'', ''committed_terminal_unchanged'', ''consume_cancelled_arrival'',
     ''consume_retired_invocation'', ''database_lock_released'',
     ''discard_provisional_evaluation'', ''dispatch_once'', ''drop_foreign_session'',
     ''enqueue_held'', ''evaluation_started'', ''exit_nonzero'', ''failure_class_error'',
     ''failure_class_mysql_deadlock'', ''fatal_cleanup'', ''fatal_protocol'', ''fatal_shutdown'',
     ''fatal_startup'', ''fatal_transaction'', ''fatal_version'', ''fault_supervision_active'',
     ''force_nonzero_exit'', ''hold_evaluation_return'', ''ignore_cancelled_gate'',
     ''ignore_duplicate'', ''initialization_barrier_armed'', ''initialization_blocked'',
     ''initialization_still_blocked'', ''initialize_application'', ''install_gate'',
     ''invalidate_evaluation'', ''kill_child'', ''latch_adapter_fault'', ''latch_startup_error'',
     ''latch_startup_fault'', ''latch_stop_timeout_failure'', ''latch_transport_fault'',
     ''mark_accepted'', ''no_arrive_for_w2'', ''no_child_exit'', ''no_cleanup_success'',
     ''no_client_arrive'', ''no_command_start'', ''no_fatal'', ''no_handle'', ''no_invoke'',
     ''no_new_deadline'', ''no_nil_stop_result'', ''no_protocol_effect'', ''no_ready'',
     ''no_redispatch'', ''no_release'', ''no_release_before_runtime_return'', ''no_reply'',
     ''no_resume'', ''no_rollback'', ''no_run_success'', ''no_runtime_finish'',
     ''no_second_child'', ''no_second_terminal'', ''no_start_frame'', ''no_start_return'',
     ''no_stop_frame'', ''no_stop_success'', ''no_stopped'', ''no_stopped_required'',
     ''no_wire_output'', ''admission_rejected'', ''no_terminal'', ''no_transport_fault'',
     ''no_worker_block'', ''no_worker_result'', ''operation_context_error'', ''operation_error'',
     ''owned_child_waiting_start'', ''pending_arrival_resolves'', ''prevent_command_start'',
     ''probe_database'', ''quarantine_fixture'', ''record_source_exception'',
     ''release_barrier_armed'', ''release_candidate_ready'', ''release_enqueued_atomically'',
     ''request_jdbc_cancel'', ''reserve_invocation'', ''reset_allowed'', ''reset_rejected'',
     ''result_channel_created'', ''retain_adapter_fault'', ''retain_earlier_cleanup_deadline'',
     ''retain_startup_fault'', ''retain_transport_fault'', ''retained_tail_matches_digest'',
     ''retire_invocation'', ''return_latched_failure'', ''reuse_deadline'',
     ''rollback_barrier_armed'', ''runtime_db_blocked'', ''script_holds_response'',
     ''script_observes_nonzero_exit'', ''script_records_cancel'', ''script_records_fatal'',
     ''send_arrive'', ''send_cancel'', ''send_fatal'', ''send_invoke'', ''send_ready'',
     ''send_release'', ''send_stop'', ''send_stopped'', ''send_terminal'', ''sequence_unchanged'',
     ''set_single_deadline'', ''start_returns_handle'', ''start_returns_no_handle'',
     ''startup_error'', ''startup_error_preserved'', ''stop_error'', ''stop_ok'',
     ''stop_still_pending'', ''supplied_invocation_context_cancelled'', ''unstarted_outcome'',
     ''validate_registration'', ''wake_exact_gate'', ''wake_gate_exceptionally'',
     ''worker_outcome_preserved'', ''worker_result_cancelled'', ''worker_result_error'',
     ''worker_result_nil'', ''no_bridge_tasks'', ''no_new_worker_effect'',
     ''outbound_sequence_at_limit'', ''arrival_sequence_at_limit'', ''fatal_without_wire'']"

record hist =
  seen_go :: "(int \<times> string) list"
  seen_java :: "(int \<times> string) list"
  invocations :: "(pv \<times> pv \<times> pv) list"
  active :: "(pv \<times> pv) list"
  sources :: "(pv \<times> pv) list"
  reasons :: "(pv \<times> pv) list"
  outstanding :: "(pv \<times> pv) list"
  completed :: "pv set"
  canceled :: "pv set"
  pending_arrivals :: "(pv \<times> pv) list"
  last_arrival :: "(pv \<times> int) list"
  exhausted_arrivals :: "pv set"
  accepted :: "pv set"
  bridges :: "(pv \<times> pv) list"
  returned :: "(pv \<times> pv \<times> pv) list"
  cleanup :: "(pv \<times> pv) list"
  terminals :: "(pv \<times> pv) list"
  fatal_seen :: bool
  binding :: "(pv \<times> pv) option"
  start :: pv
  stop_seen :: bool

definition initial :: hist where
  "initial = \<lparr>seen_go = [], seen_java = [], invocations = [], active = [], sources = [], reasons = [],
     outstanding = [], completed = {}, canceled = {}, pending_arrivals = [], last_arrival = [],
     exhausted_arrivals = {}, accepted = {}, bridges = [], returned = [], cleanup = [], terminals = [],
     fatal_seen = False, binding = None, start = PNone, stop_seen = False\<rparr>"

text \<open>\<open>d.get(k)\<close> on a dict of the state, and \<open>invocations.get(k, (None,))[0]\<close>.\<close>

definition dget :: "(pv \<times> pv) list \<Rightarrow> pv \<Rightarrow> pv" where
  "dget d k = (case map_of d k of Some v \<Rightarrow> v | None \<Rightarrow> PNone)"

definition inv_worker :: "hist \<Rightarrow> pv \<Rightarrow> pv" where
  "inv_worker st i = (case map_of (invocations st) i of Some wc \<Rightarrow> fst wc | None \<Rightarrow> PNone)"

definition last_no :: "hist \<Rightarrow> pv \<Rightarrow> int" where
  "last_no st i = (case map_of (last_arrival st) i of Some n \<Rightarrow> n | None \<Rightarrow> 0)"

text \<open>\<open>invocations.get(i) == (w, c)\<close> and \<open>returned.get(i) == (b, 'nil')\<close>.\<close>

definition bound_to :: "hist \<Rightarrow> pv \<Rightarrow> pv \<Rightarrow> pv \<Rightarrow> bool" where
  "bound_to st i w c = (case map_of (invocations st) i of Some (w', c') \<Rightarrow> py_eq w' w \<and> py_eq c' c | None \<Rightarrow> False)"

definition returned_nil :: "hist \<Rightarrow> pv \<Rightarrow> pv \<Rightarrow> bool" where
  "returned_nil st i b = (case map_of (returned st) i of Some (b', r) \<Rightarrow> py_eq b' b \<and> r = PStr ''nil'' | None \<Rightarrow> False)"

definition has :: "(pv \<times> 'b) list \<Rightarrow> pv \<Rightarrow> bool" where
  "has d k = (k \<in> fst ` set d)"

text \<open>\<open>int(v)\<close>: a decimal string may carry blanks, a sign and single underscores.\<close>

fun digits_ok :: "string \<Rightarrow> bool" where
  "digits_ok [] = False"
| "digits_ok [c] = is_digit c"
| "digits_ok (c # d # s) = (is_digit c \<and> (if d = CHR ''_'' then digits_ok s else digits_ok (d # s)))"

definition py_int_str :: "string \<Rightarrow> int res" where
  "py_int_str s = (let t = strip s;
       neg = startswith t ''-''; u = (if neg \<or> startswith t ''+'' then tl t else t) in
     if digits_ok u then Inr ((if neg then -1 else 1) * int (read_nat (filter is_digit u)))
     else Inl (ValueError ''invalid literal for int() with base 10''))"

definition py_int :: "pv \<Rightarrow> int res" where
  "py_int v = (case v of
     PInt i \<Rightarrow> Inr i
   | PBool b \<Rightarrow> Inr (if b then 1 else 0)
   | PFloat (Fin q) \<Rightarrow> Inr (if 0 \<le> q then \<lfloor>q\<rfloor> else \<lceil>q\<rceil>)
   | PFloat NaN \<Rightarrow> Inl (ValueError ''cannot convert float NaN to integer'')
   | PFloat _ \<Rightarrow> Inl (OverflowError ''cannot convert float infinity to integer'')
   | PStr s \<Rightarrow> py_int_str s
   | _ \<Rightarrow> Inl (TypeError ''int''))"

section \<open>Local events\<close>

definition on_stop_call :: "pv \<Rightarrow> string list \<Rightarrow> hist \<Rightarrow> hist res" where
  "on_stop_call a effects st =
     require (integer_in (fld a ''budget_ms'') 1 2147483647) ''local Stop budget'' (
     require (if ''set_single_deadline'' \<in> set effects then hd effects = ''set_single_deadline''
              else ''reuse_deadline'' \<in> set effects \<or> ''no_new_deadline'' \<in> set effects)
       ''Stop deadline must precede writes'' (Inr st))"

definition on_invoke_call :: "pv \<Rightarrow> hist \<Rightarrow> hist res" where
  "on_invoke_call a st = ebind (getitem a ''invocation'') (\<lambda>i. ebind (hkey i) (\<lambda>iid.
     erequire (if has (invocations st) iid then Inr False
               else ebind (getitem a ''worker'') (\<lambda>w. ebind (hkey w) (\<lambda>wk. Inr (\<not> has (active st) wk))))
       ''duplicate/unretired Go reservation'' (
     ebind (getitem a ''worker'') (\<lambda>w. ebind (getitem a ''command'') (\<lambda>c. ebind (hkey w) (\<lambda>wk.
       Inr (st\<lparr>invocations := AList.update iid (w, c) (invocations st),
               active := AList.update wk iid (active st)\<rparr>)))))))"

definition on_invoke_rejected :: "pv \<Rightarrow> string list \<Rightarrow> hist \<Rightarrow> hist res" where
  "on_invoke_rejected a effects st =
     require (has_keys a [''worker'', ''command'', ''reason''] \<and> str_in (fld a ''reason'') [''unknown_command'', ''capacity''] \<and>
         ''admission_rejected'' \<in> set effects \<and> ''no_wire_output'' \<in> set effects) ''rejected invocation shape/evidence'' (
     erequire (if fld a ''reason'' = PStr ''unknown_command'' then Inr (fld a ''command'' \<noteq> PStr ''assign'')
         else eand (Inr (start st \<noteq> PNone \<and> list_ex (\<lambda>c. py_eq c (fld a ''command'')) (elems_of (fld (start st) ''commands''))))
           (ebind (hkey (fld a ''worker'')) (\<lambda>wk.
             Inr (\<not> has (active st) wk \<and> int_of_pv (fld (start st) ''capacity'') \<le> int (length (active st))))))
       ''rejected invocation premise'' (Inr st))"

definition on_worker_arrives :: "pv \<Rightarrow> hist \<Rightarrow> hist res" where
  "on_worker_arrives a st = ebind (getitem a ''identity'') (\<lambda>identity.
     ebind (getitem identity ''invocation'') (\<lambda>i. ebind (hkey i) (\<lambda>iid.
     erequire (ebind (getitem identity ''worker'') (\<lambda>w. Inr (py_eq (inv_worker st iid) w)))
       ''arrival event changes invocation binding'' (
     require (\<not> has (outstanding st) iid \<and> \<not> has (pending_arrivals st) iid) ''arrival event while gate is live'' (
     erequire (ebind (getitem identity ''arrival'') (\<lambda>n. ebind (py_int n) (\<lambda>n. Inr (n = last_no st iid + 1))))
       ''arrival event does not increment'' (
     Inr (st\<lparr>pending_arrivals := AList.update iid identity (pending_arrivals st)\<rparr>)))))))"

definition on_exhaust_arrivals :: "pv \<Rightarrow> string list \<Rightarrow> hist \<Rightarrow> hist res" where
  "on_exhaust_arrivals a effects st =
     erequire (eand (Inr (py_eq (fld a ''limit'') (PInt 100000)))
         (ebind (hkey (fld a ''invocation'')) (\<lambda>i. Inr (has (invocations st) i \<and> ''arrival_sequence_at_limit'' \<in> set effects))))
       ''arrival exhaustion setup'' (
     ebind (getitem a ''invocation'') (\<lambda>i. ebind (hkey i) (\<lambda>iid.
       Inr (st\<lparr>last_arrival := AList.update iid 100000 (last_arrival st),
               exhausted_arrivals := insert iid (exhausted_arrivals st)\<rparr>))))"

definition on_command_exception :: "pv \<Rightarrow> hist \<Rightarrow> hist res" where
  "on_command_exception a st = ebind (getitem a ''exception'') (\<lambda>x. ebind (getitem a ''invocation'') (\<lambda>i.
     ebind (hkey i) (\<lambda>iid. Inr (st\<lparr>sources := AList.update iid x (sources st)\<rparr>))))"

definition on_cancel_context :: "pv \<Rightarrow> hist \<Rightarrow> hist res" where
  "on_cancel_context a st = ebind (getitem a ''invocation'') (\<lambda>i. ebind (hkey i) (\<lambda>iid.
     require (has (invocations st) iid) ''cancel lacks invocation''
       (Inr (st\<lparr>canceled := insert iid (canceled st)\<rparr>))))"

definition on_runtime_return :: "pv \<Rightarrow> hist \<Rightarrow> hist res" where
  "on_runtime_return a st = ebind (getitem a ''identity'') (\<lambda>identity.
     ebind (getitem identity ''invocation'') (\<lambda>i. ebind (hkey i) (\<lambda>iid.
     require (py_eq (dget (outstanding st) iid) identity) ''runtime return changes arrival binding'' (
     require (py_eq (dget (bridges st) iid) identity) ''runtime return lacks live bridge'' (
     ebind (getitem a ''result'') (\<lambda>r.
       Inr (st\<lparr>bridges := AList.delete iid (bridges st),
               returned := AList.update iid (identity, r) (returned st)\<rparr>)))))))"

text \<open>\<open>a.get('invocation', next(iter(invocations), None))\<close>: the first reservation by default.\<close>

definition on_completion :: "pv \<Rightarrow> hist \<Rightarrow> hist res" where
  "on_completion a st =
     ebind (hkey (if has_key a ''invocation'' then fld a ''invocation''
                  else case invocations st of [] \<Rightarrow> PNone | p # ps \<Rightarrow> fst p)) (\<lambda>iid.
     require (iid \<in> accepted st) ''completion lacks accepted invocation'' (
     require (is_bool (fld a ''proxy_exited'') \<and>
         str_in (fld a ''transaction'') [''committed'', ''rolled_back'', ''not_started'', ''unknown''] \<and>
         str_in (fld a ''lease'') [''held'', ''returned'', ''not_acquired'', ''close_failed'']) ''completion facts'' (
     Inr (st\<lparr>cleanup := AList.update iid a (cleanup st)\<rparr>))))"

text \<open>\<open>bytes.fromhex(v['hex']) * v['repeat']\<close>\<close>

definition hex_digit :: "char \<Rightarrow> nat" where
  "hex_digit c = (if is_digit c then char_code c - 48 else if is_lower c then char_code c - 87 else char_code c - 55)"

definition is_hex_any :: "char \<Rightarrow> bool" where
  "is_hex_any c = (is_digit c \<or> (CHR ''a'' \<le> c \<and> c \<le> CHR ''f'') \<or> (CHR ''A'' \<le> c \<and> c \<le> CHR ''F''))"

fun from_hex :: "string \<Rightarrow> string res" where
  "from_hex [] = Inr []"
| "from_hex (c # s) =
     (if is_space c \<and> char_code c < 128 \<and> \<not> (28 \<le> char_code c \<and> char_code c \<le> 31) then from_hex s
      else (case s of
         [] \<Rightarrow> Inl (ValueError ''non-hexadecimal number found in fromhex() arg'')
       | d # s' \<Rightarrow> (if is_hex_any c \<and> is_hex_any d
           then ebind (from_hex s') (\<lambda>r. Inr (char_of (16 * hex_digit c + hex_digit d) # r))
           else Inl (ValueError ''non-hexadecimal number found in fromhex() arg''))))"

definition segment_bytes :: "pv \<Rightarrow> string res" where
  "segment_bytes v = ebind (getitem v ''hex'') (\<lambda>h.
     ebind (if is_str h then from_hex (str_of h) else Inl (TypeError ''fromhex() argument must be str'')) (\<lambda>b.
     ebind (getitem v ''repeat'') (\<lambda>r. (case int_like r of
        Some n \<Rightarrow> Inr (concat (replicate (nat n) b))
      | None \<Rightarrow> Inl (TypeError ''can not multiply sequence'')))))"

definition on_stderr_bytes :: "(string \<Rightarrow> string) \<Rightarrow> pv \<Rightarrow> hist \<Rightarrow> hist res" where
  "on_stderr_bytes sha a st = ebind (getitem a ''segments'') (\<lambda>segs. ebind (py_iter segs) (\<lambda>xs.
     ebind (emap segment_bytes xs) (\<lambda>parts. let raw = concat parts in
     erequire (ebind (getitem a ''byte_count'') (\<lambda>n. eand (Inr (py_eq (PInt (int (length raw))) n))
         (ebind (getitem a ''retained_bytes'') (\<lambda>k. eand (py_less (PInt 0) k) (py_less k (PInt (int (length raw))))))))
       ''stderr input size'' (
     ebind (getitem a ''retained_bytes'') (\<lambda>k. (case int_like k of
         None \<Rightarrow> Inl (TypeError ''slice indices must be integers'')
       | Some n \<Rightarrow> erequire (ebind (getitem a ''retained_sha256'') (\<lambda>d.
             Inr (d = PStr (sha (drop (length raw - nat n) raw))))) ''stderr retained content'' (Inr st)))))))"

definition local_effect :: "(string \<Rightarrow> string) \<Rightarrow> string \<Rightarrow> string \<Rightarrow> pv \<Rightarrow> string list \<Rightarrow> hist \<Rightarrow> hist res" where
  "local_effect sha ev peer a effects st =
     (if ev = ''stop_call'' then on_stop_call a effects st
      else if ev = ''invoke_call'' \<and> peer = ''go'' then on_invoke_call a st
      else if ev = ''invoke_rejected'' \<and> peer = ''go'' then on_invoke_rejected a effects st
      else if ev = ''worker_arrives'' \<and> peer = ''java'' then on_worker_arrives a st
      else if ev = ''exhaust_outbound_sequence'' then
        require (py_eq a (PDict [(''limit'', PInt 100000)]) \<and> ''outbound_sequence_at_limit'' \<in> set effects)
          ''outbound exhaustion setup'' (Inr st)
      else if ev = ''exhaust_arrivals'' then on_exhaust_arrivals a effects st
      else if ev = ''command_exception'' \<and> peer = ''java'' then on_command_exception a st
      else if ev = ''cancel_context'' \<and> peer = ''go'' then on_cancel_context a st
      else if ev = ''runtime_arrive_returns'' \<and> peer = ''go'' then on_runtime_return a st
      else if ev = ''completion'' \<and> peer = ''java'' then on_completion a st
      else if ev = ''stderr_bytes'' then on_stderr_bytes sha a st
      else Inr st)"

definition local_step :: "(string \<Rightarrow> string) \<Rightarrow> string \<Rightarrow> pv \<Rightarrow> string list \<Rightarrow> hist \<Rightarrow> hist res" where
  "local_step sha peer step effects st =
     erequire (eand (Inr (has_keys step [''peer'', ''action'', ''event'', ''args'', ''expect'']))
         (ebind (hkey (fld step ''event'')) (\<lambda>_. Inr (str_in (fld step ''event'') event_names \<and> is_dict (fld step ''args'')))))
       ''local event shape/vocabulary''
       (local_effect sha (str_of (fld step ''event'')) peer (fld step ''args'') effects st)"

section \<open>Injected inputs\<close>

text \<open>The parts of a case the replay reads: its id and the receivers it targets.\<close>

record scope =
  case_id :: string
  targets :: "string list"

definition go_premise :: "string \<Rightarrow> pv \<Rightarrow> string \<Rightarrow> hist \<Rightarrow> bool" where
  "go_premise c body kind st =
     (let i = fld body ''invocation'' in
      if kind \<noteq> ''arrive'' \<or> \<not> has (invocations st) i \<or> i \<in> completed st \<or> has (outstanding st) i then False
      else
        let worker_matches = py_eq (fld body ''worker'') (inv_worker st i);
            point_known = (start st \<noteq> PNone \<and> list_ex (\<lambda>p. py_eq p (fld body ''point'')) (elems_of (fld (start st) ''points'')));
            next_arrival = (arrival_no body = last_no st i + 1)
        in if c = ''go_unknown_point'' then
             worker_matches \<and> next_arrival \<and> fld body ''point'' = PStr ''missing'' \<and> \<not> point_known
           else if c = ''go_immutable_worker'' then \<not> worker_matches \<and> point_known \<and> next_arrival
           else worker_matches \<and> point_known \<and> i \<in> exhausted_arrivals st \<and> fld body ''arrival'' = PStr ''100000'')"

definition same_fields :: "pv \<Rightarrow> pv \<Rightarrow> string list \<Rightarrow> bool" where
  "same_fields a b ks = list_all (\<lambda>k. py_eq (fld a k) (fld b k)) ks"

definition injected_premise :: "string \<Rightarrow> pv \<Rightarrow> string list \<Rightarrow> hist \<Rightarrow> bool" where
  "injected_premise c frame effects st =
     (let body = fbody frame; kind = ftype frame; i = fld body ''invocation'';
          live = has (outstanding st) i; current = dget (outstanding st) i in
      if c = ''go_wrong_direction'' then kind = ''invoke'' \<and> ''fatal_protocol'' \<in> set effects
      else if c \<in> set [''go_unknown_point'', ''go_immutable_worker'', ''go_arrival_sequence_exhausted''] then
        go_premise c body kind st
      else if c = ''go_semantic_duplicate_start'' then
        kind = ''start'' \<and> py_eq (start st) body \<and> ''fatal_protocol'' \<in> set effects
      else if c = ''go_semantic_duplicate_invoke'' then
        kind = ''invoke'' \<and> bound_to st i (fld body ''worker'') (fld body ''command'')
      else if c = ''go_released_arrival_duplicate'' then kind = ''arrive'' \<and> \<not> live \<and> returned_nil st i body
      else if c = ''java_immutable_worker'' then
        kind = ''cancel'' \<and> has (invocations st) i \<and> \<not> py_eq (fld body ''worker'') (inv_worker st i)
      else if c = ''java_semantic_duplicate_start'' then
        kind = ''start'' \<and> py_eq (start st) body \<and> ''fatal_protocol'' \<in> set effects
      else if c = ''java_semantic_duplicate_invoke'' then
        kind = ''invoke'' \<and> bound_to st i (fld body ''worker'') (fld body ''command'')
      else if c = ''java_released_arrival_duplicate'' then kind = ''release'' \<and> \<not> live \<and> returned_nil st i body
      else if c = ''java_retired_cancel'' then
        kind = ''cancel'' \<and> i \<in> completed st \<and> py_eq (fld body ''worker'') (inv_worker st i)
      else if c = ''cancel_racing_release'' then
        kind = ''release'' \<and> i \<in> canceled st \<and> py_eq current body
      else if c = ''late_arrival_after_cancel'' then
        kind = ''arrive'' \<and> i \<in> canceled st \<and> py_eq (inv_worker st i) (fld body ''worker'')
      else if c = ''stale_session'' then
        kind = ''arrive'' \<and> has (invocations st) i \<and> \<not> live \<and> ''client_arrive_once'' \<in> set effects
      else if c = ''retired_invocation_worker_reuse'' then
        (kind = ''arrive'' \<or> kind = ''release'') \<and> i \<in> completed st \<and> py_eq (inv_worker st i) (fld body ''worker'')
      else if c = ''unknown_invocation'' then \<not> has (invocations st) i
      else if c = ''future_release'' then
        kind = ''release'' \<and> live \<and> same_fields body current [''invocation'', ''worker'', ''point''] \<and>
        arrival_no current < arrival_no body
      else if c = ''wrong_point_release'' then
        kind = ''release'' \<and> live \<and> same_fields body current [''invocation'', ''worker'', ''arrival''] \<and>
        \<not> py_eq (fld body ''point'') (fld current ''point'')
      else if c = ''release_before_arrival'' then
        kind = ''release'' \<and> py_eq (inv_worker st i) (fld body ''worker'') \<and> \<not> live
      else if c = ''terminal_while_arrived'' then
        kind = ''terminal'' \<and> live \<and> py_eq (inv_worker st i) (fld body ''worker'')
      else if c = ''readiness_mismatch'' then
        kind = ''ready'' \<and> start st \<noteq> PNone \<and> \<not> same_fields body (start st) [''commands'', ''points'', ''capacity'']
      else if c = ''unsolicited_startup_stopped'' then kind = ''stopped'' \<and> \<not> stop_seen st
      else if c = ''fatal_after_terminals'' then
        kind = ''fatal'' \<and> invocations st \<noteq> [] \<and> list_all (\<lambda>p. fst p \<in> completed st) (invocations st)
      else False)"

section \<open>Received frames\<close>

definition on_invoke :: "pv \<Rightarrow> hist \<Rightarrow> hist res" where
  "on_invoke b st = require (bound_to st (fld b ''invocation'') (fld b ''worker'') (fld b ''command''))
     ''invoke lacks Go Handle call'' (Inr st)"

definition on_accepted :: "pv \<Rightarrow> hist \<Rightarrow> hist res" where
  "on_accepted b st = (let i = fld b ''invocation'' in
     require (py_eq (inv_worker st i) (fld b ''worker'')) ''accepted changes invocation binding'' (
     require (i \<notin> accepted st) ''invocation accepted twice''
       (Inr (st\<lparr>accepted := insert i (accepted st)\<rparr>))))"

definition on_arrive :: "pv \<Rightarrow> hist \<Rightarrow> hist res" where
  "on_arrive b st = (let i = fld b ''invocation'' in
     require (py_eq (inv_worker st i) (fld b ''worker'')) ''arrival changes invocation binding'' (
     require (py_eq (dget (pending_arrivals st) i) b \<and> \<not> has (outstanding st) i) ''arrival lacks matching gate event'' (
     require (i \<in> accepted st) ''arrival before accepted''
       (Inr (st\<lparr>outstanding := AList.update i b (outstanding st),
               bridges := AList.update i b (bridges st),
               last_arrival := AList.update i (arrival_no b) (last_arrival st),
               pending_arrivals := AList.delete i (pending_arrivals st)\<rparr>)))))"

definition on_release :: "pv \<Rightarrow> hist \<Rightarrow> hist res" where
  "on_release b st = (let i = fld b ''invocation'' in
     require (py_eq (dget (outstanding st) i) b) ''release lacks matching arrival'' (
     require (returned_nil st i b) ''release before successful runtime return''
       (Inr (st\<lparr>outstanding := AList.delete i (outstanding st)\<rparr>))))"

text \<open>\<open>reasons.setdefault\<close> keeps the first reason.\<close>

definition on_cancel :: "string list \<Rightarrow> string list \<Rightarrow> pv \<Rightarrow> hist \<Rightarrow> hist res" where
  "on_cancel tgts effects b st = (let i = fld b ''invocation'' in
     require (py_eq (inv_worker st i) (fld b ''worker'')) ''cancel changes invocation binding'' (
     let st' = st\<lparr>reasons := (if has (reasons st) i then reasons st else AList.update i (fld b ''reason'') (reasons st)),
                  canceled := insert i (canceled st)\<rparr> in
     if ''request_jdbc_cancel'' \<in> set effects \<and> ''java'' \<in> set tgts then
       require (''cancel_latched'' \<notin> set effects \<or>
           (''arm_cleanup_watchdog'' \<in> set effects \<and>
            index_of ''arm_cleanup_watchdog'' effects < index_of ''request_jdbc_cancel'' effects))
         ''Java cancellation watchdog must precede JDBC cancel'' (Inr st')
     else Inr st'))"

definition terminal_source :: "pv \<Rightarrow> pv \<Rightarrow> hist \<Rightarrow> unit res" where
  "terminal_source i err st =
     (if fld err ''kind'' = PStr ''cancelled'' then
        require (has (reasons st) i \<and> fld err ''message'' = PStr (''cancelled by '' @ str_of (dget (reasons st) i)))
          ''cancellation message/source'' (Inr ())
      else let source = dget (sources st) i in
        erequire (eand (Inr (source \<noteq> PNone))
            (ebind (getitem source ''message'') (\<lambda>m. ebind (getitem source ''vendor_code'') (\<lambda>c.
             ebind (getitem source ''sql_state'') (\<lambda>q.
               Inr (py_eq m (fld err ''message'') \<and> py_eq c (fld err ''mysql_code'') \<and> py_eq q (fld err ''sql_state'')))))))
          ''terminal exception lacks independent source'' (Inr ()))"

definition on_terminal :: "string list \<Rightarrow> string list \<Rightarrow> pv \<Rightarrow> hist \<Rightarrow> hist res" where
  "on_terminal tgts effects b st =
     (let i = fld b ''invocation''; err = fld b ''error''; facts = dget (cleanup st) i in
     require (py_eq (inv_worker st i) (fld b ''worker'')) ''terminal changes invocation binding'' (
     require (i \<in> accepted st \<and> \<not> has (terminals st) i) ''terminal before accepted or repeated terminal'' (
     require (\<not> has (bridges st) i \<and> \<not> has (pending_arrivals st) i) ''terminal before bridge/gate cleanup'' (
     require (\<not> has (outstanding st) i \<or> has (reasons st) i) ''terminal with outstanding gate'' (
     require (has (cleanup st) i \<and> py_eq (fld facts ''transaction'') (fld b ''transaction'') \<and>
         py_eq (fld facts ''lease'') (fld b ''connection'')) ''terminal contradicts completion facts'' (
     require (fld b ''transaction'' = PStr ''not_started'' \<or> truthy (fld facts ''proxy_exited'')) ''terminal before proxy exit'' (
     let st' = st\<lparr>outstanding := AList.delete i (outstanding st), terminals := AList.update i b (terminals st)\<rparr> in
     ebind (if err \<noteq> PNone \<and> ''java'' \<in> set tgts then terminal_source i err st' else Inr ()) (\<lambda>_.
     require (fld b ''transaction'' \<noteq> PStr ''not_started'' \<or> ''no_worker_result'' \<in> set effects)
       ''unstarted WorkerResult contradicts G5'' (
     if ''close_result_channel'' \<in> set effects then
       Inr (st'\<lparr>active := AList.delete (fld b ''worker'') (active st'), completed := insert i (completed st')\<rparr>)
     else Inr st')))))))))"

definition on_exchange :: "string list \<Rightarrow> string list \<Rightarrow> string \<Rightarrow> pv \<Rightarrow> hist \<Rightarrow> hist res" where
  "on_exchange tgts effects t b st =
     (if t = ''invoke'' then on_invoke b st
      else if t = ''accepted'' then on_accepted b st
      else if t = ''arrive'' then on_arrive b st
      else if t = ''release'' then on_release b st
      else if t = ''cancel'' then on_cancel tgts effects b st
      else if t = ''terminal'' then on_terminal tgts effects b st
      else if t = ''stop'' then Inr (st\<lparr>stop_seen := True\<rparr>)
      else Inr st)"

text \<open>A retired terminal delivered as an injected input.\<close>

definition on_retired_terminal :: "string \<Rightarrow> string list \<Rightarrow> pv \<Rightarrow> hist \<Rightarrow> hist res" where
  "on_retired_terminal c effects b st =
     require (c = ''retired_terminal_identical'' \<or> c = ''retired_terminal_conflict'') ''undeclared retired terminal input'' (
     let same = py_eq b (dget (terminals st) (fld b ''invocation'')) in
     require (same = (c = ''retired_terminal_identical'')) ''retired terminal body premise'' (
     require (set (if same then [''consume_retired_invocation'', ''no_worker_result'', ''no_new_worker_effect'', ''no_fatal'', ''no_reply'']
                   else [''fatal_protocol'', ''no_worker_result'', ''abort_run'']) \<subseteq> set effects)
       ''retired terminal effects'' (Inr st)))"

definition on_input :: "string \<Rightarrow> pv \<Rightarrow> string list \<Rightarrow> hist \<Rightarrow> hist res" where
  "on_input c f effects st =
     (if ftype f = ''terminal'' \<and> fld (fbody f) ''invocation'' \<in> completed st
      then on_retired_terminal c effects (fbody f) st
      else require (injected_premise c f effects st) ''injected input lacks declared lifecycle premise'' (Inr st))"

definition seen_of :: "string \<Rightarrow> hist \<Rightarrow> (int \<times> string) list" where
  "seen_of peer st = (if peer = ''go'' then seen_go st else seen_java st)"

definition set_seen :: "string \<Rightarrow> (int \<times> string) list \<Rightarrow> hist \<Rightarrow> hist" where
  "set_seen peer d st = (if peer = ''go'' then st\<lparr>seen_go := d\<rparr> else st\<lparr>seen_java := d\<rparr>)"

text \<open>From the fatal latch on: the frame has its place in the peer's sequence.\<close>

definition deliver :: "scope \<Rightarrow> bool \<Rightarrow> pv \<Rightarrow> string list \<Rightarrow> hist \<Rightarrow> hist res" where
  "deliver sc is_input f effects st = (let t = ftype f; b = fbody f in
     require (\<not> fatal_seen st \<or> t = ''fatal'' \<or> (t = ''stop'' \<and> ''no_stopped_required'' \<in> set effects)) ''normal frame after fatal'' (
     let st1 = (if t = ''fatal'' then st\<lparr>fatal_seen := True\<rparr> else st);
         st2 = (if t = ''start'' then st1\<lparr>start := b\<rparr> else st1) in
     require (\<not> (t = ''ready'' \<and> truthy (start st2)) \<or> same_fields b (start st2) [''commands'', ''points'', ''capacity''] \<or>
         (targets sc = [''go''] \<and> is_input \<and> ''startup_error'' \<in> set effects)) ''mismatched ready must be Go-only input'' (
     if is_input then on_input (case_id sc) f effects st2
     else on_exchange (targets sc) effects t b st2)))"

text \<open>The sequence check: exact duplicates are ignored, gaps and conflicts must be marked fatal.\<close>

definition sequence_step :: "(pv \<Rightarrow> string) \<Rightarrow> scope \<Rightarrow> string \<Rightarrow> bool \<Rightarrow> pv \<Rightarrow> string list \<Rightarrow> hist \<Rightarrow> hist res" where
  "sequence_step dumps sc peer is_input f effects st =
     (let seen = seen_of peer st; n = int_of_pv (fld f ''seq'') in
      if map_of seen n \<noteq> None \<or> n \<noteq> int (length seen) + 1 then
        (if map_of seen n = Some (dumps f) then
           require (is_input \<and> ''ignore_duplicate'' \<in> set effects \<and> ''no_reply'' \<in> set effects) ''exact duplicate effects'' (Inr st)
         else require (is_input \<and> ''fatal_protocol'' \<in> set effects) ''unmarked sequence conflict/gap'' (Inr st))
      else deliver sc is_input f effects (set_seen peer (AList.update n (dumps f) seen) st))"

definition wrong_direction_case :: "string \<Rightarrow> string \<Rightarrow> string \<Rightarrow> bool" where
  "wrong_direction_case c peer t =
     ((c = ''java_wrong_direction'' \<and> peer = ''java'' \<and> t = ''ready'') \<or>
      (c \<in> set [''go_wrong_direction'', ''go_semantic_duplicate_invoke''] \<and> peer = ''go'' \<and> t = ''invoke'') \<or>
      (c = ''go_semantic_duplicate_start'' \<and> peer = ''go'' \<and> t = ''start''))"

text \<open>The first frame of the accepted version binds the run and session.\<close>

definition session_of :: "pv \<Rightarrow> pv \<times> pv" where
  "session_of f = (fld f ''run'', fld f ''session'')"

definition bind_session :: "pv \<Rightarrow> hist \<Rightarrow> hist" where
  "bind_session f st = (if binding st = None then st\<lparr>binding := Some (session_of f)\<rparr> else st)"

definition receive_frame :: "(pv \<Rightarrow> string) \<Rightarrow> scope \<Rightarrow> string \<Rightarrow> bool \<Rightarrow> pv \<Rightarrow> string list \<Rightarrow> hist \<Rightarrow> hist res" where
  "receive_frame dumps sc peer is_input f effects st = (let t = ftype f in
     require (\<not> is_input \<or> peer \<in> set (targets sc)) ''injected input has no target receiver'' (
     if wrong_direction_case (case_id sc) peer t \<and> is_input then
       require (''fatal_protocol'' \<in> set effects) ''wrong direction must be rejected'' (
       require (case_id sc \<notin> set [''go_semantic_duplicate_start'', ''go_semantic_duplicate_invoke''] \<or>
           injected_premise (case_id sc) f effects st) ''semantic duplicate lacks prior matching body'' (Inr st))
     else
       require (t = ''fatal'' \<or> (peer = ''java'') = (t \<in> set to_java)) ''message direction'' (
       if fld f ''v'' \<noteq> PInt 1 then
         require (is_input \<and> ''fatal_version'' \<in> set effects) ''unmarked incompatible version'' (Inr st)
       else
       if binding (bind_session f st) \<noteq> Some (session_of f) then
         require (is_input \<and> ''drop_foreign_session'' \<in> set effects) ''foreign session must be injected and dropped''
           (Inr (bind_session f st))
       else sequence_step dumps sc peer is_input f effects (bind_session f st))))"

definition receive_step :: "(pv \<Rightarrow> string) \<Rightarrow> scope \<Rightarrow> string \<Rightarrow> pv \<Rightarrow> string list \<Rightarrow> hist \<Rightarrow> hist res" where
  "receive_step dumps sc peer step effects st =
     erequire (eand (Inr (pget step ''action'' PNone = Inr (PStr ''receive'') \<and>
             has_keys step [''peer'', ''action'', ''frame'', ''expect'', ''delivery'']))
         (Inr (str_in (fld step ''delivery'') [''input'', ''exchange'']))) ''receive shape/delivery'' (
     ebind (frame_shape dumps (fld step ''frame'')) (\<lambda>_.
       receive_frame dumps sc peer (fld step ''delivery'' = PStr ''input'') (fld step ''frame'') effects st))"

section \<open>The replay\<close>

definition effects_of :: "pv \<Rightarrow> string list" where
  "effects_of step = map str_of (elems_of (fld step ''expect''))"

definition history_step :: "(string \<Rightarrow> string) \<Rightarrow> (pv \<Rightarrow> string) \<Rightarrow> scope \<Rightarrow> pv \<Rightarrow> hist \<Rightarrow> hist res" where
  "history_step sha dumps sc step st =
     ebind (pgetn step ''peer'') (\<lambda>p. ebind (hkey p) (\<lambda>_.
     require (str_in p [''go'', ''java''] \<and> is_list (fld step ''expect'') \<and> elems_of (fld step ''expect'') \<noteq> [] \<and>
         list_all is_str (elems_of (fld step ''expect''))) ''step receiver/effects'' (
     require (set (effects_of step) \<subseteq> set expectation_names) ''unknown expectation label'' (
     if fld step ''action'' = PStr ''local'' then local_step sha (str_of p) step (effects_of step) st
     else receive_step dumps sc (str_of p) step (effects_of step) st))))"

definition scope_ok :: "pv \<Rightarrow> scope \<Rightarrow> bool" where
  "scope_ok execution sc = (execution = PStr ''isolated'' \<and> targets sc \<noteq> [] \<and> distinct (targets sc) \<and>
     set (targets sc) \<subseteq> {''go'', ''java''})"

definition replay :: "(string \<Rightarrow> string) \<Rightarrow> (pv \<Rightarrow> string) \<Rightarrow> scope \<Rightarrow> pv list \<Rightarrow> hist res" where
  "replay sha dumps sc steps = efold (history_step sha dumps sc) steps initial"

definition history :: "(string \<Rightarrow> string) \<Rightarrow> (pv \<Rightarrow> string) \<Rightarrow> pv \<Rightarrow> scope \<Rightarrow> pv list \<Rightarrow> hist res" where
  "history sha dumps execution sc steps =
     require (scope_ok execution sc) ''case scope'' (replay sha dumps sc steps)"

section \<open>The lifecycle part of the state\<close>

lemma has_iff: "has d k \<longleftrightarrow> map_of d k \<noteq> None"
  by (simp add: has_def map_of_eq_None_iff)

lemma has_update [simp]: "has (AList.update k v d) k' \<longleftrightarrow> k' = k \<or> has d k'"
  by (simp add: has_iff AList.update_conv')

lemma has_delete [simp]: "has (AList.delete k d) k' \<longleftrightarrow> k' \<noteq> k \<and> has d k'"
  by (simp add: has_iff AList.delete_conv')

lemma dget_neq_None: "dget d k \<noteq> PNone \<Longrightarrow> map_of d k = Some (dget d k)"
  by (auto simp: dget_def split: option.splits)

lemma py_eq_PNone_left: "py_eq PNone v \<longleftrightarrow> v = PNone"
  by simp

lemma dget_py_eq: "py_eq (dget d k) v \<Longrightarrow> v \<noteq> PNone \<Longrightarrow> map_of d k = Some (dget d k)"
  by (rule dget_neq_None) auto

text \<open>Everything but the transport bookkeeping (sequences, session binding, fault latch, start, Stop).\<close>

definition core :: "hist \<Rightarrow> hist" where
  "core st = st\<lparr>seen_go := [], seen_java := [], fatal_seen := False, binding := None, start := PNone, stop_seen := False\<rparr>"

lemma core_eqD:
  assumes "core s = core t"
  shows "invocations s = invocations t" "active s = active t" "sources s = sources t" "reasons s = reasons t"
    "outstanding s = outstanding t" "completed s = completed t" "canceled s = canceled t"
    "pending_arrivals s = pending_arrivals t" "last_arrival s = last_arrival t"
    "exhausted_arrivals s = exhausted_arrivals t" "accepted s = accepted t" "bridges s = bridges t"
    "returned s = returned t" "cleanup s = cleanup t" "terminals s = terminals t"
proof -
  from assms have "invocations (core s) = invocations (core t)" "active (core s) = active (core t)"
    "sources (core s) = sources (core t)" "reasons (core s) = reasons (core t)"
    "outstanding (core s) = outstanding (core t)" "completed (core s) = completed (core t)"
    "canceled (core s) = canceled (core t)" "pending_arrivals (core s) = pending_arrivals (core t)"
    "last_arrival (core s) = last_arrival (core t)" "exhausted_arrivals (core s) = exhausted_arrivals (core t)"
    "accepted (core s) = accepted (core t)" "bridges (core s) = bridges (core t)"
    "returned (core s) = returned (core t)" "cleanup (core s) = cleanup (core t)"
    "terminals (core s) = terminals (core t)" by simp_all
  then show "invocations s = invocations t" "active s = active t" "sources s = sources t" "reasons s = reasons t"
    "outstanding s = outstanding t" "completed s = completed t" "canceled s = canceled t"
    "pending_arrivals s = pending_arrivals t" "last_arrival s = last_arrival t"
    "exhausted_arrivals s = exhausted_arrivals t" "accepted s = accepted t" "bridges s = bridges t"
    "returned s = returned t" "cleanup s = cleanup t" "terminals s = terminals t"
    unfolding core_def by simp_all
qed

lemma core_transport [simp]:
  "core (st\<lparr>seen_go := a\<rparr>) = core st" "core (st\<lparr>seen_java := a\<rparr>) = core st" "core (st\<lparr>fatal_seen := b\<rparr>) = core st"
  "core (st\<lparr>binding := c\<rparr>) = core st" "core (st\<lparr>start := d\<rparr>) = core st" "core (st\<lparr>stop_seen := b\<rparr>) = core st"
  "core (set_seen p a st) = core st"
  by (simp_all add: core_def set_seen_def)

lemma on_input_state: "on_input c f effects st = Inr st' \<Longrightarrow> st' = st"
  by (auto simp: on_input_def on_retired_terminal_def Let_def split: if_splits)

lemma deliver_cases:
  assumes "deliver sc is_input f effects st = Inr st'"
  obtains st1 where "core st1 = core st" "seen_go st1 = seen_go st" "seen_java st1 = seen_java st"
    "binding st1 = binding st" "fatal_seen st1 = (fatal_seen st \<or> ftype f = ''fatal'')"
    "\<not> fatal_seen st \<or> ftype f = ''fatal'' \<or> ftype f = ''stop''"
    "if is_input then st' = st1 else on_exchange (targets sc) effects (ftype f) (fbody f) st1 = Inr st'"
proof -
  let ?st1 = "if ftype f = ''fatal'' then st\<lparr>fatal_seen := True\<rparr> else st"
  let ?st2 = "if ftype f = ''start'' then ?st1\<lparr>start := fbody f\<rparr> else ?st1"
  show ?thesis
  proof (rule that [of ?st2])
    show "if is_input then st' = ?st2 else on_exchange (targets sc) effects (ftype f) (fbody f) ?st2 = Inr st'"
      using assms by (auto simp: deliver_def Let_def dest: on_input_state split del: if_split split: if_splits)
    show "\<not> fatal_seen st \<or> ftype f = ''fatal'' \<or> ftype f = ''stop''"
      using assms by (auto simp: deliver_def Let_def)
  qed simp_all
qed

text \<open>The handlers of received frames as equations.\<close>

lemmas exchange_defs = on_exchange_def on_invoke_def on_accepted_def on_arrive_def on_release_def Let_def

lemma bind_session_same [simp]:
  "core (bind_session f st) = core st" "seen_go (bind_session f st) = seen_go st"
  "seen_java (bind_session f st) = seen_java st" "fatal_seen (bind_session f st) = fatal_seen st"
  "seen_of peer (bind_session f st) = seen_of peer st"
  by (simp_all add: bind_session_def seen_of_def)

lemma receive_frame_cases:
  assumes "receive_frame dumps sc peer is_input f effects st = Inr st'"
  obtains (dropped) "is_input" "core st' = core st" "seen_go st' = seen_go st" "seen_java st' = seen_java st"
      "fatal_seen st' = fatal_seen st"
  | (delivered) n where "n = int_of_pv (fld f ''seq'')" "map_of (seen_of peer st) n = None"
      "n = int (length (seen_of peer st)) + 1"
      "deliver sc is_input f effects
         (set_seen peer (AList.update n (dumps f) (seen_of peer st)) (bind_session f st)) = Inr st'"
      "ftype f = ''fatal'' \<or> (peer = ''java'') = (ftype f \<in> set to_java)"
proof -
  let ?n = "int_of_pv (fld f ''seq'')"
  note r = assms [unfolded receive_frame_def Let_def require_eq_Inr]
  show ?thesis
  proof (cases "wrong_direction_case (case_id sc) peer (ftype f) \<and> is_input")
    case True
    with r have "st' = st" by simp
    with True show ?thesis by (intro dropped) simp_all
  next
    case right: False
    show ?thesis
    proof (cases "fld f ''v'' \<noteq> PInt 1")
      case True
      with r right have "st' = st \<and> is_input" by simp
      then show ?thesis by (intro dropped) simp_all
    next
      case v1: False
      show ?thesis
      proof (cases "binding (bind_session f st) \<noteq> Some (session_of f)")
        case True
        with r right v1 have "st' = bind_session f st \<and> is_input" by simp
        then show ?thesis by (intro dropped) simp_all
      next
        case False
        with r right v1 have dir: "ftype f = ''fatal'' \<or> (peer = ''java'') = (ftype f \<in> set to_java)"
          and q: "sequence_step dumps sc peer is_input f effects (bind_session f st) = Inr st'" by auto
        note q = q [unfolded sequence_step_def Let_def bind_session_same]
        show ?thesis
        proof (cases "map_of (seen_of peer st) ?n \<noteq> None \<or> ?n \<noteq> int (length (seen_of peer st)) + 1")
          case True
          with q have "st' = bind_session f st \<and> is_input" by (simp split: if_splits)
          then show ?thesis by (intro dropped) simp_all
        next
          case False
          have "deliver sc is_input f effects
              (set_seen peer (AList.update ?n (dumps f) (seen_of peer st)) (bind_session f st)) = Inr st'"
            using q unfolding if_not_P [OF False] .
          with False dir show ?thesis by (intro delivered [of ?n]) auto
        qed
      qed
    qed
  qed
qed

text \<open>What kind of step was taken.\<close>

definition is_local :: "pv \<Rightarrow> string \<Rightarrow> string \<Rightarrow> bool" where
  "is_local s peer ev = (fld s ''action'' = PStr ''local'' \<and> fld s ''peer'' = PStr peer \<and> fld s ''event'' = PStr ev)"

definition is_exchange :: "pv \<Rightarrow> string \<Rightarrow> bool" where
  "is_exchange s t = (fld s ''action'' = PStr ''receive'' \<and> fld s ''delivery'' = PStr ''exchange'' \<and>
     ftype (fld s ''frame'') = t)"

definition body_of :: "pv \<Rightarrow> pv" where
  "body_of s = fbody (fld s ''frame'')"

lemma core_step_cases:
  assumes "history_step sha dumps sc s st = Inr st'"
  obtains (local) peer ev where "is_local s peer ev" "is_dict (fld s ''args'')"
      "local_effect sha ev peer (fld s ''args'') (effects_of s) st = Inr st'"
  | (quiet) "core st' = core st" "\<And>t. \<not> is_exchange s t" "fatal_seen st \<Longrightarrow> fatal_seen st'"
  | (exchange) t st1 where "is_exchange s t" "core st1 = core st" "frame_shape dumps (fld s ''frame'') = Inr ()"
      "\<not> fatal_seen st \<or> t = ''fatal'' \<or> t = ''stop''" "fatal_seen st1 = (fatal_seen st \<or> t = ''fatal'')"
      "on_exchange (targets sc) (effects_of s) t (body_of s) st1 = Inr st'"
proof -
  from assms obtain p where p: "pgetn s ''peer'' = Inr p" "str_in p [''go'', ''java'']"
    and r: "(if fld s ''action'' = PStr ''local'' then local_step sha (str_of p) s (effects_of s) st
       else receive_step dumps sc (str_of p) s (effects_of s) st) = Inr st'"
    by (auto simp: history_step_def ebind_eq_Inr)
  have peer: "fld s ''peer'' = PStr (str_of p)"
    using p by (auto simp: pget_eq_Inr fld_def str_in_def is_str_iff split: option.splits)
  show ?thesis
  proof (cases "fld s ''action'' = PStr ''local''")
    case True
    then have "local_step sha (str_of p) s (effects_of s) st = Inr st'" using r by simp
    then show ?thesis using True peer
      by (intro local [of "str_of p" "str_of (fld s ''event'')"])
         (auto simp: local_step_def ebind_eq_Inr is_local_def str_in_def is_str_iff)
  next
    case False
    then have "receive_step dumps sc (str_of p) s (effects_of s) st = Inr st'" using r by simp
    then have recv: "fld s ''action'' = PStr ''receive''" "frame_shape dumps (fld s ''frame'') = Inr ()"
      "str_in (fld s ''delivery'') [''input'', ''exchange'']"
      and rf: "receive_frame dumps sc (str_of p) (fld s ''delivery'' = PStr ''input'') (fld s ''frame'') (effects_of s) st = Inr st'"
      by (auto simp: receive_step_def ebind_eq_Inr pget_eq_Inr fld_def split: option.splits)
    from rf show ?thesis
    proof (cases rule: receive_frame_cases)
      case dropped
      then show ?thesis by (intro quiet) (auto simp: is_exchange_def)
    next
      case (delivered n)
      from delivered(4) obtain st1 where d: "core st1 = core st"
        "fatal_seen st1 = (fatal_seen st \<or> ftype (fld s ''frame'') = ''fatal'')"
        "\<not> fatal_seen st \<or> ftype (fld s ''frame'') = ''fatal'' \<or> ftype (fld s ''frame'') = ''stop''"
        "if fld s ''delivery'' = PStr ''input'' then st' = st1
         else on_exchange (targets sc) (effects_of s) (ftype (fld s ''frame'')) (body_of s) st1 = Inr st'"
        by (rule deliver_cases) (auto simp: body_of_def set_seen_def split: if_splits)
      show ?thesis
      proof (cases "fld s ''delivery'' = PStr ''input''")
        case True
        then show ?thesis using d by (intro quiet) (auto simp: is_exchange_def)
      next
        case False
        then show ?thesis using d recv
          by (intro exchange [of "ftype (fld s ''frame'')" st1]) (auto simp: is_exchange_def str_in_def is_str_iff)
      qed
    qed
  qed
qed

section \<open>Reachable states\<close>

inductive reaches :: "(string \<Rightarrow> string) \<Rightarrow> (pv \<Rightarrow> string) \<Rightarrow> scope \<Rightarrow> pv list \<Rightarrow> hist \<Rightarrow> bool"
  for sha dumps sc where
  empty: "reaches sha dumps sc [] initial"
| snoc: "reaches sha dumps sc pre st \<Longrightarrow> history_step sha dumps sc s st = Inr st' \<Longrightarrow>
    reaches sha dumps sc (pre @ [s]) st'"

inductive_simps reaches_Nil: "reaches sha dumps sc [] st"
inductive_cases reaches_snocE: "reaches sha dumps sc (pre @ [s]) st"

lemma replay_snoc:
  "replay sha dumps sc (pre @ [s]) = ebind (replay sha dumps sc pre) (history_step sha dumps sc s)"
proof -
  have "efold (history_step sha dumps sc) [s] = history_step sha dumps sc s"
  proof
    fix st
    show "efold (history_step sha dumps sc) [s] st = history_step sha dumps sc s st"
      by (cases "history_step sha dumps sc s st") simp_all
  qed
  then show ?thesis by (simp add: replay_def efold_append del: efold.simps)
qed

lemma replay_reaches: "replay sha dumps sc steps = Inr st \<longleftrightarrow> reaches sha dumps sc steps st"
proof
  show "reaches sha dumps sc steps st" if "replay sha dumps sc steps = Inr st"
    using that
  proof (induction steps arbitrary: st rule: rev_induct)
    case Nil
    then show ?case by (simp add: replay_def reaches.empty)
  next
    case (snoc s pre)
    then show ?case by (auto simp: replay_snoc ebind_eq_Inr intro: reaches.snoc)
  qed
  show "replay sha dumps sc steps = Inr st" if "reaches sha dumps sc steps st"
    using that by induction (simp_all add: replay_snoc, simp add: replay_def)
qed

text \<open>The prefix before one step of an accepted history is accepted, and so is the step.\<close>

lemma replay_split:
  assumes "replay sha dumps sc (pre @ s # post) = Inr st"
  obtains st0 st1 where "reaches sha dumps sc pre st0" "history_step sha dumps sc s st0 = Inr st1"
    "efold (history_step sha dumps sc) post st1 = Inr st"
  using assms by (auto simp: replay_def efold_append ebind_eq_Inr simp flip: replay_reaches)

section \<open>Live invocations\<close>

text \<open>What the local events do to the lifecycle state.\<close>

definition keeps :: "hist \<Rightarrow> hist \<Rightarrow> bool" where
  "keeps st st' = (invocations st' = invocations st \<and> active st' = active st \<and> accepted st' = accepted st \<and>
     outstanding st' = outstanding st \<and> completed st' = completed st \<and> terminals st' = terminals st \<and>
     bridges st' = bridges st \<and> returned st' = returned st \<and> fatal_seen st' = fatal_seen st \<and>
     seen_go st' = seen_go st \<and> seen_java st' = seen_java st)"

lemma handlers_keep:
  "on_stop_call a effects st = Inr st' \<Longrightarrow> keeps st st' \<and> cleanup st' = cleanup st"
  "on_invoke_rejected a effects st = Inr st' \<Longrightarrow> keeps st st' \<and> cleanup st' = cleanup st"
  "on_worker_arrives a st = Inr st' \<Longrightarrow> keeps st st' \<and> cleanup st' = cleanup st"
  "on_exhaust_arrivals a effects st = Inr st' \<Longrightarrow> keeps st st' \<and> cleanup st' = cleanup st"
  "on_command_exception a st = Inr st' \<Longrightarrow> keeps st st' \<and> cleanup st' = cleanup st"
  "on_cancel_context a st = Inr st' \<Longrightarrow> keeps st st' \<and> cleanup st' = cleanup st"
  "on_stderr_bytes sha a st = Inr st' \<Longrightarrow> keeps st st' \<and> cleanup st' = cleanup st"
  "on_completion a st = Inr st' \<Longrightarrow> keeps st st'"
  by (auto simp: keeps_def on_stop_call_def on_invoke_rejected_def on_worker_arrives_def on_exhaust_arrivals_def
      on_command_exception_def on_cancel_context_def on_completion_def on_stderr_bytes_def Let_def ebind_eq_Inr
      split: option.splits)

lemma keeps_refl: "keeps st st"
  by (simp add: keeps_def)

text \<open>What the local events do to the lifecycle state.\<close>

lemma local_effect_cases:
  assumes "local_effect sha ev peer a effects st = Inr st'"
  obtains (same) "keeps st st'" "cleanup st' = cleanup st \<or> (ev = ''completion'' \<and> peer = ''java'' \<and> on_completion a st = Inr st')"
  | (reserve) i i' w c wk where "ev = ''invoke_call''" "peer = ''go''" "getitem a ''invocation'' = Inr i" "hkey i = Inr i'"
      "hkey w = Inr wk" "\<not> has (invocations st) i'" "\<not> has (active st) wk"
      "st' = st\<lparr>invocations := AList.update i' (w, c) (invocations st), active := AList.update wk i' (active st)\<rparr>"
  | (runtime) identity i i' r where "ev = ''runtime_arrive_returns''" "peer = ''go''" "getitem a ''identity'' = Inr identity"
      "getitem identity ''invocation'' = Inr i" "hkey i = Inr i'" "getitem a ''result'' = Inr r"
      "py_eq (dget (outstanding st) i') identity" "py_eq (dget (bridges st) i') identity"
      "st' = st\<lparr>bridges := AList.delete i' (bridges st), returned := AList.update i' (identity, r) (returned st)\<rparr>"
proof -
  consider (invoke) "ev = ''invoke_call'' \<and> peer = ''go''" | (ret) "ev = ''runtime_arrive_returns'' \<and> peer = ''go''"
    | (completion) "ev = ''completion'' \<and> peer = ''java''"
    | (other) "\<not> (ev = ''invoke_call'' \<and> peer = ''go'')" "\<not> (ev = ''runtime_arrive_returns'' \<and> peer = ''go'')"
        "\<not> (ev = ''completion'' \<and> peer = ''java'')" by blast
  then show ?thesis
  proof cases
    case invoke
    then have "on_invoke_call a st = Inr st'" using assms by (simp add: local_effect_def)
    then show ?thesis using invoke by (auto simp: on_invoke_call_def ebind_eq_Inr split: if_splits intro: reserve)
  next
    case ret
    then have "on_runtime_return a st = Inr st'" using assms by (simp add: local_effect_def)
    then show ?thesis using ret by (auto simp: on_runtime_return_def ebind_eq_Inr intro: runtime)
  next
    case completion
    then have "on_completion a st = Inr st'" using assms by (simp add: local_effect_def)
    then show ?thesis using completion handlers_keep(8) by (intro same) auto
  next
    case other
    then have "keeps st st' \<and> cleanup st' = cleanup st"
      using assms unfolding local_effect_def if_not_P [OF other(1)] if_not_P [OF other(2)] if_not_P [OF other(3)]
      by (auto simp: keeps_refl dest: handlers_keep split: if_split_asm)
    then show ?thesis by (intro same) auto
  qed
qed

text \<open>The reservations not yet retired are exactly the active entries, one per worker.\<close>

definition live_inv :: "hist \<Rightarrow> bool" where
  "live_inv st = (\<forall>wk i. map_of (active st) wk = Some i \<longleftrightarrow>
     (i \<notin> completed st \<and> (\<exists>w c. map_of (invocations st) i = Some (w, c) \<and> hkey w = Inr wk)))"

text \<open>Each stage of the lifecycle implies the one before.\<close>

definition stage_inv :: "hist \<Rightarrow> bool" where
  "stage_inv st = ((\<forall>i. i \<in> accepted st \<longrightarrow> has (invocations st) i) \<and>
     (\<forall>i. has (terminals st) i \<longrightarrow> i \<in> accepted st) \<and>
     (\<forall>i. i \<in> completed st \<longrightarrow> has (terminals st) i) \<and>
     (\<forall>i. has (outstanding st) i \<longrightarrow> i \<in> accepted st) \<and>
     (\<forall>i. has (bridges st) i \<longrightarrow> i \<in> accepted st))"

lemma live_inv_keys:
  assumes "core s = core t"
  shows "live_inv s = live_inv t" "stage_inv s = stage_inv t"
  using core_eqD [OF assms] by (simp_all add: live_inv_def stage_inv_def)

lemma keeps_inv: "keeps st st' \<Longrightarrow> live_inv st' = live_inv st \<and> stage_inv st' = stage_inv st"
  by (simp add: keeps_def live_inv_def stage_inv_def)

lemma local_live:
  assumes "local_effect sha ev peer a effects st = Inr st'" "live_inv st" "stage_inv st"
  shows "live_inv st' \<and> stage_inv st'"
  using assms(1)
proof (cases rule: local_effect_cases)
  case same
  then show ?thesis using assms(2,3) keeps_inv by blast
next
  case (reserve i i' w c wk)
  have fresh: "i' \<notin> completed st"
    using assms(3) reserve(6) unfolding stage_inv_def by blast
  have new: "map_of (invocations st) i' = None" using reserve(6) by (metis has_iff)
  have free: "map_of (active st) wk = None" using reserve(7) by (simp add: has_iff)
  have "map_of (active st') k = Some j \<longleftrightarrow>
      j \<notin> completed st' \<and> (\<exists>w c. map_of (invocations st') j = Some (w, c) \<and> hkey w = Inr k)" for k j
  proof (cases "j = i'")
    case True
    have "map_of (active st) k \<noteq> Some i'" using assms(2) new by (auto simp: live_inv_def)
    then show ?thesis using True reserve(5,8) fresh by (auto simp: AList.update_conv')
  next
    case False
    have "hkey w' = Inr wk \<Longrightarrow> map_of (invocations st) j = Some (w', c') \<Longrightarrow> j \<in> completed st" for w' c'
      using assms(2) free unfolding live_inv_def by (metis option.distinct(1))
    then show ?thesis using False reserve(8) assms(2) unfolding live_inv_def by (auto simp: AList.update_conv')
  qed
  then show ?thesis using assms(3) reserve(8) by (auto simp: live_inv_def stage_inv_def)
next
  case (runtime identity i i' r)
  then show ?thesis using assms(2,3) by (auto simp: live_inv_def stage_inv_def)
qed

lemma terminal_effect:
  assumes "on_terminal tgts effects b st = Inr st'"
  shows "py_eq (inv_worker st (fld b ''invocation'')) (fld b ''worker'')"
    and "fld b ''invocation'' \<in> accepted st" "\<not> has (terminals st) (fld b ''invocation'')"
    and "\<not> has (bridges st) (fld b ''invocation'')"
    and "py_eq (fld (dget (cleanup st) (fld b ''invocation'')) ''transaction'') (fld b ''transaction'')"
    and "py_eq (fld (dget (cleanup st) (fld b ''invocation'')) ''lease'') (fld b ''connection'')"
    and "fld b ''transaction'' = PStr ''not_started'' \<or> truthy (fld (dget (cleanup st) (fld b ''invocation'')) ''proxy_exited'')"
    and "has (cleanup st) (fld b ''invocation'')"
    and "st' = (let st1 = st\<lparr>outstanding := AList.delete (fld b ''invocation'') (outstanding st),
                  terminals := AList.update (fld b ''invocation'') b (terminals st)\<rparr> in
           if ''close_result_channel'' \<in> set effects
           then st1\<lparr>active := AList.delete (fld b ''worker'') (active st), completed := insert (fld b ''invocation'') (completed st)\<rparr>
           else st1)"
  using assms unfolding on_terminal_def Let_def require_eq_Inr
  by (auto simp: ebind_eq_Inr split: if_split_asm)

lemma exchange_cases:
  assumes "on_exchange tgts effects t b st = Inr st'"
  obtains (same) "t \<noteq> ''terminal''" "t \<noteq> ''accepted''" "t \<noteq> ''arrive''" "t \<noteq> ''release''" "keeps st st'" "cleanup st' = cleanup st"
  | (accept) "t = ''accepted''" "py_eq (inv_worker st (fld b ''invocation'')) (fld b ''worker'')"
      "fld b ''invocation'' \<notin> accepted st" "st' = st\<lparr>accepted := insert (fld b ''invocation'') (accepted st)\<rparr>"
  | (arrive) l p where "t = ''arrive''" "py_eq (inv_worker st (fld b ''invocation'')) (fld b ''worker'')"
      "py_eq (dget (pending_arrivals st) (fld b ''invocation'')) b" "\<not> has (outstanding st) (fld b ''invocation'')"
      "fld b ''invocation'' \<in> accepted st"
      "st' = st\<lparr>outstanding := AList.update (fld b ''invocation'') b (outstanding st),
               bridges := AList.update (fld b ''invocation'') b (bridges st),
               last_arrival := l, pending_arrivals := p\<rparr>"
  | (release) "t = ''release''" "py_eq (dget (outstanding st) (fld b ''invocation'')) b" "returned_nil st (fld b ''invocation'') b"
      "st' = st\<lparr>outstanding := AList.delete (fld b ''invocation'') (outstanding st)\<rparr>"
  | (terminal) "t = ''terminal''" "on_terminal tgts effects b st = Inr st'"
proof -
  consider "t = ''accepted''" | "t = ''arrive''" | "t = ''release''" | "t = ''terminal''"
    | (other) "t \<noteq> ''accepted''" "t \<noteq> ''arrive''" "t \<noteq> ''release''" "t \<noteq> ''terminal''" by blast
  then show ?thesis
  proof cases
    case other
    have "on_cancel tgts effects b st = Inr st' \<Longrightarrow> keeps st st' \<and> cleanup st' = cleanup st"
      by (auto simp: on_cancel_def keeps_def Let_def split: if_split_asm)
    moreover have "on_invoke b st = Inr st' \<Longrightarrow> keeps st st' \<and> cleanup st' = cleanup st"
      by (simp add: on_invoke_def keeps_def)
    ultimately have "keeps st st' \<and> cleanup st' = cleanup st"
      using assms other by (auto simp: on_exchange_def keeps_def split: if_split_asm)
    then show ?thesis using other by (intro same) auto
  qed (use assms in \<open>auto simp: exchange_defs intro: accept arrive release terminal\<close>)
qed

lemma terminal_live:
  assumes ot: "on_terminal tgts effects b st = Inr st'" and inv: "live_inv st" "stage_inv st"
    and w: "fld b ''worker'' = PStr (str_of (fld b ''worker''))"
  shows "live_inv st' \<and> stage_inv st'"
proof -
  let ?i = "fld b ''invocation''"
  let ?w = "fld b ''worker''"
  note te = terminal_effect [OF ot]
  have "inv_worker st ?i = ?w" using w te(1) by (metis py_eq_PStr)
  then obtain c where mine: "map_of (invocations st) ?i = Some (?w, c)"
    using w by (auto simp: inv_worker_def split: option.splits)
  have hw: "hkey ?w = Inr ?w" using w by (metis hkey_PStr)
  have open_i: "?i \<notin> completed st" using te(3) inv(2) unfolding stage_inv_def by blast
  then have act: "map_of (active st) ?w = Some ?i" using inv(1) mine hw by (auto simp: live_inv_def)
  have stage: "stage_inv st'"
    using inv(2) te(2) unfolding te(9) by (simp add: stage_inv_def Let_def)
  show ?thesis
  proof (cases "''close_result_channel'' \<in> set effects")
    case True
    then have st': "active st' = AList.delete ?w (active st)" "completed st' = insert ?i (completed st)"
      "invocations st' = invocations st" using te(9) by (simp_all add: Let_def)
    have "map_of (active st') k = Some j \<longleftrightarrow>
        j \<notin> completed st' \<and> (\<exists>w c. map_of (invocations st') j = Some (w, c) \<and> hkey w = Inr k)" for k j
    proof (cases "k = ?w")
      case True
      have "map_of (invocations st) j = Some (w', c') \<Longrightarrow> hkey w' = Inr ?w \<Longrightarrow> j \<notin> completed st \<Longrightarrow> j = ?i" for w' c'
        using inv(1) act unfolding live_inv_def by (metis option.inject)
      then show ?thesis using True st' by (auto simp: AList.delete_conv')
    next
      case False
      have "map_of (active st) k \<noteq> Some ?i" using inv(1) mine hw False by (auto simp: live_inv_def)
      then show ?thesis using False st' inv(1) mine hw
        by (auto simp: AList.delete_conv' live_inv_def)
    qed
    then show ?thesis using stage by (simp add: live_inv_def)
  next
    case False
    then show ?thesis using stage te(9) inv(1) by (simp add: live_inv_def Let_def)
  qed
qed

lemma inv_worker_has: "py_eq (inv_worker st i) (PStr w) \<Longrightarrow> has (invocations st) i"
  by (auto simp: inv_worker_def has_iff split: option.splits)

lemma exchange_live:
  assumes "on_exchange tgts effects t b st = Inr st'" "live_inv st" "stage_inv st"
    and str: "t \<in> set worker_messages \<Longrightarrow> fld b ''worker'' = PStr (str_of (fld b ''worker''))"
  shows "live_inv st' \<and> stage_inv st'"
  using assms(1)
proof (cases rule: exchange_cases)
  case same
  then show ?thesis using assms(2,3) keeps_inv by blast
next
  case accept
  have "has (invocations st) (fld b ''invocation'')"
    using accept(1,2) str by (metis inv_worker_has list.set_intros(1,2) worker_messages_def)
  then show ?thesis using assms(2,3) accept(4) by (simp add: live_inv_def stage_inv_def)
next
  case (arrive l p)
  then show ?thesis using assms(2,3) by (simp add: live_inv_def stage_inv_def)
next
  case release
  then show ?thesis using assms(2,3) by (simp add: live_inv_def stage_inv_def)
next
  case terminal
  then show ?thesis using assms(2,3) str terminal_live by (simp add: worker_messages_def)
qed

lemma reaches_live: "reaches sha dumps sc steps st \<Longrightarrow> live_inv st \<and> stage_inv st"
proof (induction rule: reaches.induct)
  case empty
  then show ?case by (simp add: initial_def live_inv_def stage_inv_def has_iff)
next
  case (snoc pre st s st')
  from snoc.hyps(2) show ?case
  proof (cases rule: core_step_cases)
    case local
    then show ?thesis using local_live snoc.IH by blast
  next
    case quiet
    then show ?thesis using live_inv_keys [OF quiet(1)] snoc.IH by simp
  next
    case (exchange t st1)
    have inv: "live_inv st1 \<and> stage_inv st1" using live_inv_keys [OF exchange(2)] snoc.IH by simp
    have "t \<in> set worker_messages \<Longrightarrow> fld (body_of s) ''worker'' = PStr (str_of (fld (body_of s) ''worker''))"
      using frame_worker_fields(3) [OF exchange(3)] exchange(1) by (simp add: body_of_def is_exchange_def)
    then show ?thesis using exchange_live [OF exchange(6)] inv by blast
  qed
qed

section \<open>Justified steps\<close>

text \<open>What the events of the accepted prefix must have been for the state to be as it is.\<close>

definition args_of :: "pv \<Rightarrow> pv" where
  "args_of s = fld s ''args''"

definition returns_after_arrival :: "pv list \<Rightarrow> pv \<Rightarrow> pv \<Rightarrow> bool" where
  "returns_after_arrival pre d r = (\<exists>p1 a p2 e p3. pre = p1 @ a # p2 @ e # p3 \<and>
     is_exchange a ''arrive'' \<and> py_eq (body_of a) d \<and>
     is_local e ''go'' ''runtime_arrive_returns'' \<and> fld (args_of e) ''identity'' = d \<and> fld (args_of e) ''result'' = r)"

definition justified :: "pv list \<Rightarrow> hist \<Rightarrow> bool" where
  "justified pre st = (
     (\<forall>i b. map_of (outstanding st) i = Some b \<longrightarrow> (\<exists>a \<in> set pre. is_exchange a ''arrive'' \<and> body_of a = b)) \<and>
     (\<forall>i d r. map_of (returned st) i = Some (d, r) \<longrightarrow> returns_after_arrival pre d r) \<and>
     (\<forall>i. i \<in> accepted st \<longrightarrow> (\<exists>a \<in> set pre. is_exchange a ''accepted'' \<and> fld (body_of a) ''invocation'' = i)) \<and>
     (\<forall>i f. map_of (cleanup st) i = Some f \<longrightarrow>
        (\<exists>c \<in> set pre. is_local c ''java'' ''completion'' \<and> args_of c = f \<and> is_bool (fld f ''proxy_exited''))) \<and>
     (\<forall>a \<in> set pre. is_exchange a ''terminal'' \<longrightarrow> has (terminals st) (fld (body_of a) ''invocation'')) \<and>
     (\<forall>a \<in> set pre. is_exchange a ''fatal'' \<longrightarrow> fatal_seen st))"

lemma returns_after_snoc: "returns_after_arrival pre d r \<Longrightarrow> returns_after_arrival (pre @ [s]) d r"
  unfolding returns_after_arrival_def by (metis append.assoc append_Cons)

lemma returns_after_new:
  assumes "a \<in> set pre" "is_exchange a ''arrive''" "py_eq (body_of a) d" "is_local e ''go'' ''runtime_arrive_returns''"
    "fld (args_of e) ''identity'' = d" "fld (args_of e) ''result'' = r"
  shows "returns_after_arrival (pre @ [e]) d r"
proof -
  obtain p1 p2 where "pre = p1 @ a # p2" using assms(1) by (meson split_list)
  then have "pre @ [e] = p1 @ a # p2 @ e # []" by simp
  with assms show ?thesis unfolding returns_after_arrival_def by blast
qed

lemma justified_mono:
  assumes "justified pre st" "outstanding st' = outstanding st" "returned st' = returned st" "accepted st' = accepted st"
    "cleanup st' = cleanup st" "terminals st' = terminals st" "fatal_seen st \<Longrightarrow> fatal_seen st'"
    "is_exchange s ''terminal'' \<Longrightarrow> has (terminals st') (fld (body_of s) ''invocation'')"
    "is_exchange s ''fatal'' \<Longrightarrow> fatal_seen st'"
  shows "justified (pre @ [s]) st'"
  using assms unfolding justified_def by (auto intro: returns_after_snoc)

lemma local_not_exchange: "is_local s peer ev \<Longrightarrow> \<not> is_exchange s t"
  by (simp add: is_local_def is_exchange_def)

lemma getitem_fld: "getitem v k = Inr x \<Longrightarrow> fld v k = x"
  by (auto simp: getitem_eq_Inr fld_def)

lemma justified_completion:
  assumes "justified pre st" "on_completion (args_of s) st = Inr st'" "is_local s ''java'' ''completion''"
  shows "justified (pre @ [s]) st'"
proof -
  from assms(2) obtain i where st': "st' = st\<lparr>cleanup := AList.update i (args_of s) (cleanup st)\<rparr>"
    and b: "is_bool (fld (args_of s) ''proxy_exited'')"
    by (auto simp: on_completion_def ebind_eq_Inr)
  have "\<exists>c \<in> set (pre @ [s]). is_local c ''java'' ''completion'' \<and> args_of c = f \<and> is_bool (fld f ''proxy_exited'')"
    if "map_of (cleanup st') j = Some f" for j f
  proof (cases "j = i")
    case True
    then have "f = args_of s" using that st' by (simp add: AList.update_conv')
    then show ?thesis using assms(3) b by auto
  next
    case False
    then have "map_of (cleanup st) j = Some f" using that st' by (simp add: AList.update_conv')
    then show ?thesis using assms(1) unfolding justified_def by fastforce
  qed
  moreover have "justified (pre @ [s]) (st\<lparr>cleanup := cleanup st\<rparr>)"
    using assms(1,3) local_not_exchange by (intro justified_mono [OF assms(1)]) (auto dest: local_not_exchange)
  ultimately show ?thesis using st' unfolding justified_def by simp
qed

lemma justified_runtime:
  assumes j: "justified pre st" and s: "is_local s ''go'' ''runtime_arrive_returns''"
    and d: "fld (args_of s) ''identity'' = d" "fld (args_of s) ''result'' = r"
    and out: "py_eq (dget (outstanding st) i) d" "d \<noteq> PNone"
  shows "justified (pre @ [s]) (st\<lparr>bridges := B, returned := AList.update i (d, r) (returned st)\<rparr>)"
proof -
  let ?st' = "st\<lparr>bridges := B, returned := AList.update i (d, r) (returned st)\<rparr>"
  have "map_of (outstanding st) i = Some (dget (outstanding st) i)" by (rule dget_py_eq [OF out])
  then obtain a where a: "a \<in> set pre" "is_exchange a ''arrive''" "body_of a = dget (outstanding st) i"
    using j unfolding justified_def by blast
  have new: "returns_after_arrival (pre @ [s]) d r"
    using a out(1) s d by (intro returns_after_new [of a]) simp_all
  have ret: "returns_after_arrival (pre @ [s]) d' r'" if "map_of (returned ?st') k = Some (d', r')" for k d' r'
  proof (cases "k = i")
    case True
    then show ?thesis using that new by (simp add: AList.update_conv')
  next
    case False
    then have "map_of (returned st) k = Some (d', r')" using that by (simp add: AList.update_conv')
    then show ?thesis using j returns_after_snoc unfolding justified_def by blast
  qed
  have "justified (pre @ [s]) (st\<lparr>bridges := B\<rparr>)"
    using s by (intro justified_mono [OF j]) (auto dest: local_not_exchange)
  then show ?thesis using ret unfolding justified_def by simp
qed

lemma justified_local:
  assumes "local_effect sha ev peer (args_of s) effects st = Inr st'" "is_local s peer ev" "justified pre st"
  shows "justified (pre @ [s]) st'"
  using assms(1)
proof (cases rule: local_effect_cases)
  case same
  show ?thesis
  proof (cases "ev = ''completion'' \<and> peer = ''java'' \<and> on_completion (args_of s) st = Inr st'")
    case True
    then show ?thesis using justified_completion assms(2,3) by blast
  next
    case False
    then have "cleanup st' = cleanup st" using same by blast
    then show ?thesis using same(1) assms(2)
      by (intro justified_mono [OF assms(3)]) (auto simp: keeps_def dest: local_not_exchange)
  qed
next
  case (reserve i i' w c wk)
  then show ?thesis using assms(2)
    by (intro justified_mono [OF assms(3)]) (auto dest: local_not_exchange)
next
  case (runtime identity i i' r)
  have "identity \<noteq> PNone" using runtime(4) by (auto simp: getitem_def)
  then show ?thesis using runtime assms(2,3) unfolding runtime(9)
    by (intro justified_runtime) (auto dest: getitem_fld)
qed

lemma justified_exchange:
  assumes ex: "on_exchange tgts effects t (body_of s) st = Inr st'" and s: "is_exchange s t" and j: "justified pre st"
    and fatal: "t = ''fatal'' \<Longrightarrow> fatal_seen st"
  shows "justified (pre @ [s]) st'"
proof -
  have jj: "justified (pre @ [s]) st" if "t \<noteq> ''terminal''"
    using that s fatal by (intro justified_mono [OF j]) (auto simp: is_exchange_def)
  from ex show ?thesis
  proof (cases rule: exchange_cases)
    case same
    then show ?thesis using jj unfolding justified_def keeps_def by simp
  next
    case accept
    then have "justified (pre @ [s]) st" using jj by simp
    then show ?thesis using s accept(1) unfolding accept(4) justified_def by simp
  next
    case (arrive l p)
    have "justified (pre @ [s]) st" using jj arrive(1) by simp
    then show ?thesis using s arrive(1) unfolding arrive(6) justified_def by (auto simp: AList.update_conv')
  next
    case release
    have "justified (pre @ [s]) st" using jj release(1) by simp
    then show ?thesis unfolding release(4) justified_def by (auto simp: AList.delete_conv' split: if_splits)
  next
    case terminal
    let ?i = "fld (body_of s) ''invocation''"
    have st': "outstanding st' = AList.delete ?i (outstanding st)" "terminals st' = AList.update ?i (body_of s) (terminals st)"
      "returned st' = returned st" "accepted st' = accepted st" "cleanup st' = cleanup st" "fatal_seen st' = fatal_seen st"
      using terminal_effect(9) [OF terminal(2)] by (simp_all add: Let_def)
    show ?thesis using j s terminal(1) unfolding justified_def st'
      by (auto simp: AList.delete_conv' is_exchange_def intro: returns_after_snoc split: if_splits)
  qed
qed

lemma core_justified:
  "core s = core t \<Longrightarrow> (fatal_seen t \<Longrightarrow> fatal_seen s) \<Longrightarrow> justified pre t \<Longrightarrow> justified pre s"
  using core_eqD [of s t] unfolding justified_def by simp

lemma reaches_justified: "reaches sha dumps sc steps st \<Longrightarrow> justified steps st"
proof (induction rule: reaches.induct)
  case empty
  then show ?case by (simp add: initial_def justified_def has_iff)
next
  case (snoc pre st s st')
  from snoc.hyps(2) show ?case
  proof (cases rule: core_step_cases)
    case (local peer ev)
    then show ?thesis using justified_local snoc.IH by (simp add: args_of_def)
  next
    case quiet
    have "justified (pre @ [s]) st"
      using quiet(2) by (intro justified_mono [OF snoc.IH]) auto
    then show ?thesis using core_justified [OF quiet(1,3)] by blast
  next
    case (exchange t st1)
    have "justified pre st1" using core_justified [OF exchange(2)] exchange(5) snoc.IH by simp
    then show ?thesis using justified_exchange [OF exchange(6,1)] exchange(5) by simp
  qed
qed

section \<open>A sample history\<close>

text \<open>One invocation from reservation to release and terminal, for both receivers.\<close>

definition hex32 :: "char \<Rightarrow> string" where
  "hex32 c = replicate 32 c"

definition frame_of :: "int \<Rightarrow> string \<Rightarrow> (string \<times> pv) list \<Rightarrow> pv" where
  "frame_of n t b = PDict [(''v'', PInt 1), (''type'', PStr t), (''run'', PStr (hex32 CHR ''a'')),
     (''session'', PStr (hex32 CHR ''b'')), (''seq'', PInt n), (''body'', PDict b)]"

definition exchange_of :: "string \<Rightarrow> int \<Rightarrow> string \<Rightarrow> (string \<times> pv) list \<Rightarrow> string list \<Rightarrow> pv" where
  "exchange_of peer n t b es = PDict [(''peer'', PStr peer), (''action'', PStr ''receive''), (''frame'', frame_of n t b),
     (''expect'', PList (map PStr es)), (''delivery'', PStr ''exchange'')]"

definition local_of :: "string \<Rightarrow> string \<Rightarrow> (string \<times> pv) list \<Rightarrow> string list \<Rightarrow> pv" where
  "local_of peer ev a es = PDict [(''peer'', PStr peer), (''action'', PStr ''local''), (''event'', PStr ev),
     (''args'', PDict a), (''expect'', PList (map PStr es))]"

definition sample_id :: "(string \<times> pv) list" where
  "sample_id = [(''invocation'', PStr (hex32 CHR ''1'')), (''worker'', PStr ''w1'')]"

definition sample_arrival :: "(string \<times> pv) list" where
  "sample_arrival = sample_id @ [(''arrival'', PStr ''1''), (''point'', PStr ''before_write'')]"

definition sample_prefix :: "pv list" where
  "sample_prefix = [
     local_of ''go'' ''invoke_call'' (sample_id @ [(''command'', PStr ''assign'')]) [''reserve_invocation'', ''send_invoke''],
     exchange_of ''java'' 1 ''invoke'' (sample_id @ [(''command'', PStr ''assign'')]) [''dispatch_once''],
     exchange_of ''go'' 1 ''accepted'' sample_id [''mark_accepted''],
     local_of ''java'' ''worker_arrives'' [(''identity'', PDict sample_arrival)] [''install_gate'', ''send_arrive''],
     exchange_of ''go'' 2 ''arrive'' sample_arrival [''client_arrive_once''],
     local_of ''go'' ''runtime_arrive_returns'' [(''identity'', PDict sample_arrival), (''result'', PStr ''nil'')] [''send_release'']]"

definition sample_release :: pv where
  "sample_release = exchange_of ''java'' 2 ''release'' sample_arrival [''wake_exact_gate'']"

definition sample_completion :: pv where
  "sample_completion = local_of ''java'' ''completion'' [(''proxy_exited'', PBool True), (''transaction'', PStr ''committed''),
     (''lease'', PStr ''returned'')] [''send_terminal'']"

definition sample_terminal :: pv where
  "sample_terminal = exchange_of ''go'' 3 ''terminal'' (sample_id @ [(''transaction'', PStr ''committed''),
     (''connection'', PStr ''returned''), (''error'', PNone)]) [''worker_result_nil'', ''close_result_channel'', ''retire_invocation'']"

definition sample_scope :: scope where
  "sample_scope = \<lparr>case_id = ''success'', targets = [''go'', ''java'']\<rparr>"

definition sample_history :: "pv list" where
  "sample_history = sample_prefix @ [sample_release, sample_completion, sample_terminal]"

definition returns :: "'a res \<Rightarrow> bool" where
  "returns r = (case r of Inr _ \<Rightarrow> True | Inl _ \<Rightarrow> False)"

lemma sample_facts:
  "is_hex (CHR ''a'')" "is_hex (CHR ''b'')" "is_hex (CHR ''1'')"
  "identity32 (PStr (hex32 c)) = is_hex c"
  "name_ok (PStr ''w1'') l = Inr ()" "name_ok (PStr ''assign'') l = Inr ()" "name_ok (PStr ''before_write'') l = Inr ()"
  "positive_decimal ''1''" "read_nat ''1'' = 1" "py_int (PStr ''1'') = Inr 1"
  by (simp_all add: is_hex_def is_digit_def less_eq_char_def identity32_def hex_string_def hex32_def list_all_iff
      string_ok_def utf8_len_def strip_def is_space_def control_char_def char_code_def positive_decimal_def
      read_nat_def py_int_def py_int_str_def startswith_def)

lemma sample_vocabulary:
  "x \<in> set [''reserve_invocation'', ''send_invoke'', ''dispatch_once'', ''mark_accepted'', ''install_gate'', ''send_arrive'',
     ''client_arrive_once'', ''send_release'', ''wake_exact_gate'', ''send_terminal'', ''worker_result_nil'',
     ''close_result_channel'', ''retire_invocation'', ''fatal_protocol'', ''abort_run''] \<Longrightarrow> x \<in> set expectation_names"
  "y \<in> set [''invoke_call'', ''worker_arrives'', ''runtime_arrive_returns'', ''completion''] \<Longrightarrow> y \<in> set event_names"
  by (auto simp: expectation_names_def event_names_def)

lemmas frame_eval = frame_shape_def envelope_shape_def identity_shape_def typed_shape_def terminal_shape_def
  has_keys_def integer_in_def body_fields_def ftype_def fbody_def str_in_def has_key_def keys_def utf8_len_def
  frame_of_def exchange_of_def local_of_def sample_id_def sample_arrival_def arrival_no_def

lemmas step_eval = history_step_def effects_of_def local_step_def local_effect_def receive_step_def receive_frame_def
  wrong_direction_case_def sequence_step_def deliver_def on_exchange_def seen_of_def set_seen_def bind_session_def
  session_of_def initial_def to_java_def same_fields_def dget_def inv_worker_def bound_to_def returned_nil_def has_def
  last_no_def on_invoke_call_def on_worker_arrives_def on_runtime_return_def on_completion_def exchange_defs on_terminal_def

lemma sample_replay: "returns (replay id (\<lambda>_. []) sample_scope sample_history)"
  unfolding replay_def sample_history_def sample_prefix_def sample_release_def sample_completion_def sample_terminal_def
    append.simps
  by (simp add: step_eval frame_eval sample_scope_def list_all_iff sample_facts sample_vocabulary returns_def)

section \<open>Sequence numbers\<close>

lemma update_new: "map_of d k = None \<Longrightarrow> AList.update k v d = d @ [(k, v)]"
  by (induction d) (auto split: if_splits)

lemma keeps_seen: "keeps st st' \<Longrightarrow> seen_of p st' = seen_of p st"
  by (simp add: keeps_def seen_of_def)

lemma local_seen: "local_effect sha ev peer a effects st = Inr st' \<Longrightarrow> seen_of p st' = seen_of p st"
  by (erule local_effect_cases) (auto simp: keeps_def seen_of_def)

lemma exchange_seen: "on_exchange tgts effects t b st = Inr st' \<Longrightarrow> seen_of p st' = seen_of p st"
proof (erule exchange_cases)
  assume "on_terminal tgts effects b st = Inr st'"
  from terminal_effect(9) [OF this] show "seen_of p st' = seen_of p st" by (simp add: seen_of_def Let_def)
qed (auto simp: keeps_def seen_of_def)

lemma deliver_seen: "deliver sc is_input f effects st = Inr st' \<Longrightarrow> seen_of p st' = seen_of p st"
  by (erule deliver_cases) (auto simp: seen_of_def dest!: exchange_seen [of _ _ _ _ _ _ p] split: if_splits)

definition contiguous :: "(int \<times> string) list \<Rightarrow> bool" where
  "contiguous d = (map fst d = map int [1..<Suc (length d)])"

lemma contiguous_snoc: "contiguous d \<Longrightarrow> contiguous (d @ [(int (length d) + 1, v)])"
  by (simp add: contiguous_def)

lemma step_seen:
  assumes "history_step sha dumps sc s st = Inr st'" "contiguous (seen_go st)" "contiguous (seen_java st)"
  shows "contiguous (seen_of p st')"
proof -
  have now: "contiguous (seen_of p st)" using assms(2,3) by (simp add: seen_of_def)
  from assms(1) obtain peer where
    r: "(if fld s ''action'' = PStr ''local'' then local_step sha peer s (effects_of s) st
       else receive_step dumps sc peer s (effects_of s) st) = Inr st'" and peer: "peer = ''go'' \<or> peer = ''java''"
    by (auto simp: history_step_def ebind_eq_Inr str_in_def)
  show ?thesis
  proof (cases "fld s ''action'' = PStr ''local''")
    case True
    then show ?thesis using r now by (auto simp: local_step_def dest!: local_seen [of _ _ _ _ _ _ _ p])
  next
    case False
    then obtain i where "receive_frame dumps sc peer i (fld s ''frame'') (effects_of s) st = Inr st'"
      using r by (auto simp: receive_step_def ebind_eq_Inr)
    then show ?thesis
    proof (cases rule: receive_frame_cases)
      case dropped
      then have "seen_of p st' = seen_of p st" by (simp add: seen_of_def)
      then show ?thesis using now by simp
    next
      case (delivered n)
      have "seen_of p st' = seen_of p (set_seen peer (AList.update n (dumps (fld s ''frame'')) (seen_of peer st)) (bind_session (fld s ''frame'') st))"
        using deliver_seen delivered(4) .
      also have "\<dots> = (if (p = ''go'') = (peer = ''go'') then seen_of peer st @ [(n, dumps (fld s ''frame''))] else seen_of p st)"
        using peer update_new [OF delivered(2)] by (auto simp: set_seen_def seen_of_def)
      finally show ?thesis
        using now assms(2,3) contiguous_snoc delivered(3) by (auto simp: seen_of_def)
    qed
  qed
qed

lemma reaches_contiguous:
  "reaches sha dumps sc steps st \<Longrightarrow> contiguous (seen_go st) \<and> contiguous (seen_java st)"
proof (induction rule: reaches.induct)
  case empty
  then show ?case by (simp add: initial_def contiguous_def)
next
  case (snoc pre st s st')
  then show ?case using step_seen [of sha dumps sc s st st' "''go''"] step_seen [of sha dumps sc s st st' "''java''"]
    by (simp add: seen_of_def)
qed

section \<open>Properties\<close>

text \<open>
  C1. In every history the linter accepts, the runtime has returned before the gate opens: a release
  written on the wire is preceded by the arrival of the same identity and, after it, by a successful
  runtime return for that identity.
\<close>

theorem release_follows_runtime_return:
  assumes "replay sha dumps sc (pre @ s # post) = Inr st" "is_exchange s ''release''"
  shows "\<exists>d. returns_after_arrival pre d (PStr ''nil'') \<and> py_eq d (body_of s)"
proof -
  obtain st0 st1 where r: "reaches sha dumps sc pre st0" "history_step sha dumps sc s st0 = Inr st1"
    using replay_split [OF assms(1)] by blast
  from r(2) obtain st2 where ex: "core st2 = core st0" "on_exchange (targets sc) (effects_of s) ''release'' (body_of s) st2 = Inr st1"
    using assms(2) by (cases rule: core_step_cases) (auto simp: is_exchange_def dest: local_not_exchange)
  from ex(2) have "returned_nil st2 (fld (body_of s) ''invocation'') (body_of s)"
    by (cases rule: exchange_cases) auto
  then obtain d where "map_of (returned st0) (fld (body_of s) ''invocation'') = Some (d, PStr ''nil'')" "py_eq d (body_of s)"
    using core_eqD(13) [OF ex(1)] by (auto simp: returned_nil_def split: option.splits)
  then show ?thesis using reaches_justified [OF r(1)] unfolding justified_def by blast
qed

lemma release_follows_runtime_return_witness:
  "\<exists>d. returns_after_arrival sample_prefix d (PStr ''nil'') \<and> py_eq d (body_of sample_release)"
proof -
  obtain st where "replay id (\<lambda>_. []) sample_scope (sample_prefix @ sample_release # [sample_completion, sample_terminal]) = Inr st"
    using sample_replay by (auto simp: returns_def sample_history_def split: sum.splits)
  then show ?thesis
    by (rule release_follows_runtime_return) (simp add: is_exchange_def sample_release_def frame_eval)
qed



text \<open>
  C7. The state of every accepted history is consistent: the active table holds exactly the reserved
  invocations not yet retired, so a worker has at most one; a terminal presupposes acceptance,
  retirement a terminal, and an outstanding arrival or live bridge acceptance.
\<close>

theorem accepted_history_consistent:
  assumes "history sha dumps execution sc steps = Inr st"
  shows "live_inv st \<and> stage_inv st \<and> contiguous (seen_go st) \<and> contiguous (seen_java st)"
  using assms reaches_live reaches_contiguous by (auto simp: history_def simp flip: replay_reaches)

lemma accepted_history_consistent_witness:
  "\<exists>st. history id (\<lambda>_. []) (PStr ''isolated'') sample_scope sample_history = Inr st \<and> live_inv st"
proof -
  obtain st where "history id (\<lambda>_. []) (PStr ''isolated'') sample_scope sample_history = Inr st"
    using sample_replay by (auto simp: returns_def history_def scope_ok_def sample_scope_def split: sum.splits)
  then show ?thesis using accepted_history_consistent by blast
qed



end
