(* ===== verification/Vectors.thy ===== *)
theory Vectors
  imports History
begin

text \<open>
  The rest of \<open>scripts/check-external-sut-vectors.py\<close>: prefix expansion (\<open>expand\<close>), the pairing of emitted
  effects with wire exchanges (\<open>emissions\<close>), the coverage rules (\<open>coverage\<close>), the framing cases
  (\<open>validate_framing\<close>) and the whole check (\<open>validate\<close>).

  \<open>coverage\<close> and \<open>emissions\<close> run on steps that \<open>history\<close> accepted: a step has a peer and a list of known
  effects, a local step an event and an args dict, a received step a frame of the right shape and a
  delivery.  Those fields are read with \<open>fld\<close>; the keys of args are read with \<open>getitem\<close> and may be missing.
  The JSON decoder, whose answers the framing cases compare, is an argument.
\<close>

section \<open>Prefixes\<close>

text \<open>\<open>set(step) == {'prefix'}\<close>: a step that only names a prefix.\<close>

definition prefix_of :: "pv \<Rightarrow> pv option res" where
  "prefix_of step = (case step of
     PDict d \<Rightarrow> Inr (if set (map fst d) = {''prefix''} then map_of d ''prefix'' else None)
   | PList xs \<Rightarrow> if xs \<noteq> [] \<and> set xs = {PStr ''prefix''} \<or> list_ex (\<lambda>x. is_list x \<or> is_dict x) xs then Inl (TypeError ''step'') else Inr None
   | PStr _ \<Rightarrow> Inr None
   | _ \<Rightarrow> Inl (TypeError ''step''))"

definition prefix_steps :: "pv \<Rightarrow> string \<Rightarrow> pv list res" where
  "prefix_steps prefixes name = ebind (getitem prefixes name) py_iter"

definition max_steps :: nat where "max_steps = 10000"

function expand :: "pv \<Rightarrow> pv \<Rightarrow> string list \<Rightarrow> pv list res"
  and expand_steps :: "pv \<Rightarrow> string list \<Rightarrow> pv list \<Rightarrow> pv list \<Rightarrow> pv list res"
where
  "expand prefixes name seen =
     (case name of
        PStr n \<Rightarrow> if n \<in> set (keys prefixes) \<and> n \<notin> set seen
          then ebind (prefix_steps prefixes n) (\<lambda>steps. expand_steps prefixes (seen @ [n]) steps [])
          else Inl (ValueError (''missing/cyclic prefix: '' @ n))
      | _ \<Rightarrow> Inl (TypeError ''prefix name''))"
| "expand_steps prefixes seen [] out = Inr out"
| "expand_steps prefixes seen (step # steps) out =
     ebind (prefix_of step) (\<lambda>p.
     ebind (case p of Some name \<Rightarrow> expand prefixes name seen | None \<Rightarrow> Inr [step]) (\<lambda>xs.
     require (length (out @ xs) \<le> max_steps) ''prefix expansion too large'' (expand_steps prefixes seen steps (out @ xs))))"
  by pat_completeness auto

text \<open>The recursion ends because every call adds a prefix name to those seen on the way.\<close>

definition names_left :: "pv \<Rightarrow> string list \<Rightarrow> nat" where
  "names_left prefixes seen = card (set (keys prefixes) - set seen)"

lemma names_left_less: "n \<in> set (keys prefixes) \<Longrightarrow> n \<notin> set seen \<Longrightarrow> names_left prefixes (seen @ [n]) < names_left prefixes seen"
  unfolding names_left_def by (intro psubset_card_mono) auto

termination expand
  by (relation "measures [\<lambda>x. case x of Inl (p, n, seen) \<Rightarrow> names_left p seen | Inr (p, seen, steps, out) \<Rightarrow> names_left p seen,
        \<lambda>x. case x of Inl _ \<Rightarrow> 0 | Inr (p, seen, steps, out) \<Rightarrow> length steps + 1]")
    (auto simp: names_left_less)

declare expand.simps [simp del]

section \<open>Events and messages of a step\<close>

definition evt :: "string \<Rightarrow> pv \<Rightarrow> bool" where
  "evt n s = (fld s ''event'' = PStr n)"

definition by_peer :: "string \<Rightarrow> pv \<Rightarrow> bool" where
  "by_peer p s = (fld s ''peer'' = PStr p)"

definition msg :: "string \<Rightarrow> pv \<Rightarrow> bool" where
  "msg k s = (fld (fld s ''frame'') ''type'' = PStr k)"

definition dlv :: "string \<Rightarrow> pv \<Rightarrow> bool" where
  "dlv d s = (fld s ''delivery'' = PStr d)"

definition eff :: "string \<Rightarrow> pv \<Rightarrow> bool" where
  "eff e s = (e \<in> set (effects_of s))"

definition effs :: "string list \<Rightarrow> pv \<Rightarrow> bool" where
  "effs es s = (set es \<subseteq> set (effects_of s))"

definition bod :: "pv \<Rightarrow> pv" where
  "bod s = fld (fld s ''frame'') ''body''"

definition arg :: "pv \<Rightarrow> string \<Rightarrow> pv res" where
  "arg s k = getitem (fld s ''args'') k"

definition arg_is :: "pv \<Rightarrow> string \<Rightarrow> string \<Rightarrow> bool res" where
  "arg_is s k v = ebind (arg s k) (\<lambda>x. Inr (x = PStr v))"

text \<open>\<open>indices\<close>, for a pure predicate and for one that may raise.\<close>

definition at_steps :: "(pv \<Rightarrow> bool) \<Rightarrow> pv list \<Rightarrow> nat list" where
  "at_steps P steps = map fst (filter (\<lambda>(i, s). P s) (enumerate 0 steps))"

definition eat_steps :: "(pv \<Rightarrow> bool res) \<Rightarrow> pv list \<Rightarrow> nat list res" where
  "eat_steps P steps = ebind (efilter (\<lambda>(i, s). P s) (enumerate 0 steps)) (\<lambda>ys. Inr (map fst ys))"

lemma at_steps_iff: "i \<in> set (at_steps P steps) \<longleftrightarrow> i < length steps \<and> P (steps ! i)"
  by (force simp: at_steps_def in_set_enumerate_eq)

section \<open>Emissions\<close>

definition message_of_effect :: "string \<Rightarrow> (string \<times> string option) option" where
  "message_of_effect e =
     (if e \<in> set [''send_ready'', ''send_invoke'', ''send_arrive'', ''send_release'', ''send_cancel'', ''send_stop'', ''send_stopped'',
         ''send_terminal'', ''send_fatal''] then Some (drop 5 e, None)
      else if \<exists>k \<in> set fatal_kinds. e = ''fatal_'' @ k then Some (''fatal'', Some (drop 6 e))
      else None)"

text \<open>The exchanges after a step that can carry its message and are not yet used.\<close>

definition carriers :: "pv list \<Rightarrow> nat set \<Rightarrow> nat \<Rightarrow> string \<Rightarrow> nat list" where
  "carriers steps used index kind = filter (\<lambda>i. i \<notin> used \<and> dlv ''exchange'' (steps ! i) \<and>
     fld (steps ! i) ''peer'' \<noteq> fld (steps ! index) ''peer'' \<and> msg kind (steps ! i)) [index + 1..<length steps]"

definition emit_effect :: "string \<Rightarrow> pv list \<Rightarrow> nat \<Rightarrow> string \<Rightarrow> nat set \<Rightarrow> nat set res" where
  "emit_effect cid steps index effect used = (case message_of_effect effect of
     None \<Rightarrow> Inr used
   | Some (kind, fatal) \<Rightarrow>
       (let outputs = carriers steps used index kind in
        require (outputs \<noteq> []) (cid @ '': '' @ effect @ '' lacks explicit wire exchange'') (
        require (case fatal of None \<Rightarrow> True | Some k \<Rightarrow> fld (bod (steps ! hd outputs)) ''kind'' = PStr k)
          (cid @ '': '' @ effect @ '' emits wrong fatal kind'') (Inr (insert (hd outputs) used)))))"

definition emit_step :: "string \<Rightarrow> string list \<Rightarrow> pv list \<Rightarrow> nat \<Rightarrow> nat set \<Rightarrow> nat set res" where
  "emit_step cid ts steps index used =
     (if str_of (fld (steps ! index) ''peer'') \<notin> set ts then Inr used
      else efold (emit_effect cid steps index) (effects_of (steps ! index)) used)"

definition emissions :: "string \<Rightarrow> string list \<Rightarrow> pv list \<Rightarrow> unit res" where
  "emissions cid ts steps = ebind (efold (emit_step cid ts steps) [0..<length steps] {}) (\<lambda>_. Inr ())"


section \<open>Coverage\<close>

record vcase =
  vc_id :: string
  vc_prefix :: pv
  vc_steps :: "pv list"
  vc_scope :: pv
  vc_targets :: "string list"
  vc_execution :: pv

text \<open>\<open>case['targets'] == [...]\<close> on the JSON value; \<open>vc_targets\<close> lists its members.\<close>

definition scope_is :: "vcase \<Rightarrow> string list \<Rightarrow> bool" where
  "scope_is c ts = (vc_scope c = PList (map PStr ts))"

definition java_wire_cases :: "(string \<times> string) list" where
  "java_wire_cases = [(''java_unknown_command'', ''ready''), (''java_unknown_point'', ''active''), (''java_wrong_direction'', ''ready''),
     (''java_immutable_worker'', ''active''), (''java_semantic_duplicate_start'', ''ready''), (''java_semantic_duplicate_invoke'', ''active''),
     (''java_released_arrival_duplicate'', ''released''), (''java_retired_cancel'', ''completed''), (''java_sequence_gap'', ''ready''),
     (''java_capacity_exceeded'', ''ready''), (''java_outbound_sequence_exhausted'', ''ready''), (''java_arrival_sequence_exhausted'', ''active'')]"

definition go_wire_cases :: "(string \<times> string) list" where
  "go_wire_cases = [(''go_wrong_direction'', ''ready''), (''go_unknown_point'', ''active''), (''go_immutable_worker'', ''active''),
     (''go_semantic_duplicate_start'', ''ready''), (''go_semantic_duplicate_invoke'', ''active''), (''go_released_arrival_duplicate'', ''released''),
     (''go_unknown_command'', ''ready''), (''go_capacity_exceeded'', ''ready''), (''go_outbound_sequence_exhausted'', ''ready''),
     (''go_arrival_sequence_exhausted'', ''active'')]"

definition required_rules :: "string list" where
  "required_rules = [''duplicate_go'', ''duplicate_java'', ''late_process_fault'', ''late_wire_fault'', ''startup_watchdog'', ''stop_watchdog'',
     ''cancel_watchdog'', ''fatal_watchdog'', ''active_stop_watchdog'', ''cancel_wins_enqueue'', ''enqueue_wins_cancel'', ''readiness_rejection'',
     ''canceled_reuse'', ''normal_active_stop'', ''exception_input'', ''parent_startup_cleanup'', ''callback_terminal'', ''unknown_outcome_fatal'',
     ''version_rejection'', ''incremented_arrival'', ''retired_terminal_identical'', ''retired_terminal_conflict'', ''process_death_cleanup'',
     ''java_wire_matrix'', ''go_wire_matrix'']"

text \<open>The effects of the steps of one peer, and the exchanges of a message.\<close>

definition peer_effects :: "string \<Rightarrow> pv list \<Rightarrow> string list" where
  "peer_effects p own = concat (map effects_of (filter (by_peer p) own))"

definition prefix_differs :: "(string \<times> string) list \<Rightarrow> vcase \<Rightarrow> bool" where
  "prefix_differs table c = (vc_prefix c \<noteq> (case map_of table (vc_id c) of Some p \<Rightarrow> PStr p | None \<Rightarrow> PNone))"

definition exchanged :: "string \<Rightarrow> string \<Rightarrow> pv \<Rightarrow> bool" where
  "exchanged k p s = (msg k s \<and> by_peer p s \<and> dlv ''exchange'' s)"

definition cov_go_wire :: "vcase \<Rightarrow> bool" where
  "cov_go_wire c =
     (if \<not> scope_is c [''go''] \<or> prefix_differs go_wire_cases c then False
      else (let es = set (peer_effects ''go'' (vc_steps c)) in
        if vc_id c \<in> {''go_unknown_command'', ''go_capacity_exceeded''} then {''admission_rejected'', ''no_wire_output''} \<subseteq> es
        else if vc_id c = ''go_outbound_sequence_exhausted'' then {''outbound_sequence_at_limit'', ''fatal_without_wire''} \<subseteq> es
        else ''fatal_protocol'' \<in> es \<and> list_ex (exchanged ''fatal'' ''java'') (vc_steps c)))"

definition cov_java_wire :: "vcase \<Rightarrow> bool" where
  "cov_java_wire c =
     (if \<not> scope_is c [''java''] \<or> prefix_differs java_wire_cases c then False
      else (let es = set (peer_effects ''java'' (vc_steps c)) in
        if vc_id c \<in> {''java_released_arrival_duplicate'', ''java_retired_cancel''} then {''no_fatal'', ''no_reply''} \<subseteq> es
        else if vc_id c = ''java_outbound_sequence_exhausted'' then {''outbound_sequence_at_limit'', ''fatal_without_wire''} \<subseteq> es
        else ''fatal_protocol'' \<in> es \<and> list_ex (exchanged ''fatal'' ''go'') (vc_steps c)))"

text \<open>\<open>retired_terminal_identical\<close> and \<open>retired_terminal_conflict\<close>\<close>

definition cov_retired :: "bool \<Rightarrow> vcase \<Rightarrow> pv list \<Rightarrow> bool res" where
  "cov_retired identical c steps =
     (let old = filter (\<lambda>s. msg ''terminal'' s \<and> dlv ''exchange'' s) steps; late = filter (\<lambda>s. msg ''terminal'' s \<and> dlv ''input'' s) (vc_steps c);
          calls = filter (\<lambda>s. evt ''invoke_call'' s \<and> by_peer ''go'' s) (vc_steps c) in
      if \<not> scope_is c [''go''] \<or> old = [] \<or> length late \<noteq> 1 \<or> calls = [] then Inr False
      else (let p = bod (hd old); q = bod (hd late); reuse = hd calls in
        ebind (arg reuse ''worker'') (\<lambda>w.
        ebind (if py_eq w (fld p ''worker'') then ebind (arg reuse ''invocation'') (\<lambda>i. Inr (\<not> py_eq i (fld p ''invocation''))) else Inr False) (\<lambda>valid.
        ebind (py_less (fld (fld (hd old) ''frame'') ''seq'') (fld (fld (hd late) ''frame'') ''seq'')) (\<lambda>later.
        let valid = (valid \<and> later \<and> py_eq (fld q ''invocation'') (fld p ''invocation'')) in
        Inr (valid \<and> (py_eq q p = identical)))))))"

definition first_before :: "nat list \<Rightarrow> nat list \<Rightarrow> bool" where
  "first_before xs ys = (hd xs < hd ys)"

definition cov_process_death :: "vcase \<Rightarrow> bool res" where
  "cov_process_death c =
     (let own = vc_steps c;
          death = at_steps (\<lambda>s. evt ''child_exit'' s \<and> by_peer ''go'' s \<and> eff ''cancel_bridge'' s) own;
          stop = at_steps (\<lambda>s. evt ''stop_call'' s \<and> by_peer ''go'' s \<and> eff ''child_reaped'' s) own in
      ebind (eat_steps (\<lambda>s. if evt ''runtime_arrive_returns'' s \<and> by_peer ''go'' s
          then eand (arg_is s ''result'' ''cancelled'') (Inr (effs [''no_release'', ''no_bridge_tasks''] s)) else Inr False) own) (\<lambda>unwind.
      ebind (eat_steps (\<lambda>s. if evt ''check_stop_results'' s \<and> by_peer ''go'' s
          then eand (arg_is s ''expected_error'' ''transport_failure'') (Inr (effs [''reset_rejected'', ''no_worker_result'', ''no_bridge_tasks''] s))
          else Inr False) own) (\<lambda>checked.
      if scope_is c [''go''] \<and> vc_prefix c = PStr ''arrived'' \<and> death \<noteq> [] \<and> unwind \<noteq> [] \<and> stop \<noteq> [] \<and> checked \<noteq> [] \<and>
          first_before death unwind \<and> first_before unwind stop \<and> first_before stop checked
      then ebind (arg (own ! hd stop) ''call_id'') (\<lambda>call. ebind (arg (own ! hd checked) ''call_ids'') (\<lambda>value.
        ebind (py_iter value) (\<lambda>ids. Inr (list_ex (\<lambda>v. py_eq v call) ids))))
      else Inr False)))"

definition cov_duplicate :: "string \<Rightarrow> vcase \<Rightarrow> bool" where
  "cov_duplicate peer c =
     (let ds = filter (\<lambda>s. dlv ''input'' s \<and> by_peer peer s \<and> eff ''ignore_duplicate'' s) (vc_steps c) in
      peer \<in> set (vc_targets c) \<and> ds \<noteq> [] \<and>
      list_all (\<lambda>s. eff ''no_reply'' s \<and> eff (if peer = ''java'' then ''no_redispatch'' else ''no_client_arrive'') s) ds)"

definition cov_late :: "bool \<Rightarrow> vcase \<Rightarrow> pv list \<Rightarrow> bool res" where
  "cov_late wire c steps =
     (let earlier = at_steps (\<lambda>s. msg ''terminal'' s \<and> by_peer ''go'' s) steps; provisional = at_steps (evt ''provisional_evaluation'') steps;
          fault = at_steps (\<lambda>s. (if wire then msg ''fatal'' s else evt ''child_exit'' s) \<and> by_peer ''go'' s) steps;
          completion = at_steps (evt ''complete_evaluation'') steps in
      if ''go'' \<in> set (vc_targets c) \<and> earlier \<noteq> [] \<and> provisional \<noteq> [] \<and> fault \<noteq> [] \<and> completion \<noteq> [] \<and>
         last earlier < hd provisional \<and> first_before provisional fault \<and> first_before fault completion \<and>
         eff ''invalidate_evaluation'' (steps ! hd fault) \<and> evt ''check_operation_result'' (last steps)
      then ebind (arg (last steps) ''expected_error'') (\<lambda>x. Inr (x \<in> {PStr ''transport_failure'', PStr ''adapter_failure''}))
      else Inr False)"


text \<open>The watchdogs: the clock, the effect that arms it and the message that triggers it, by phase.\<close>

definition watchdog_clock :: "string \<Rightarrow> string" where
  "watchdog_clock phase = ''advance_'' @ (if phase = ''startup'' then ''startup'' else if phase = ''stop'' then ''stop''
     else if phase = ''fatal'' then ''fatal_cleanup'' else ''cancel_cleanup'') @ ''_clock''"

definition watchdog_effect :: "string \<Rightarrow> string" where
  "watchdog_effect phase = (if phase = ''startup'' then ''arm_startup_watchdog'' else if phase = ''stop'' then ''arm_stop_watchdog''
     else ''arm_cleanup_watchdog'')"

definition watchdog_trigger :: "string \<Rightarrow> string" where
  "watchdog_trigger phase = (if phase = ''startup'' then ''start'' else if phase = ''stop'' then ''stop''
     else if phase = ''fatal'' then ''fatal'' else ''cancel'')"

definition watchdog_budget :: "string \<Rightarrow> pv list \<Rightarrow> pv" where
  "watchdog_budget phase steps =
     (let start = (case find (msg ''start'') steps of Some s \<Rightarrow> bod s | None \<Rightarrow> PDict []);
          stops = filter (\<lambda>s. msg ''stop'' s \<and> by_peer ''java'' s) steps in
      if phase = ''startup'' then fld start ''startup_ms''
      else if phase = ''stop'' \<and> stops \<noteq> [] then fld (bod (last stops)) ''budget_ms'' else fld start ''cancel_ms'')"

definition elapsed_is :: "pv \<Rightarrow> int \<Rightarrow> bool res" where
  "elapsed_is s n = ebind (arg s ''elapsed_ms'') (\<lambda>x. Inr (py_eq x (PInt n)))"

definition nonzero_exit :: "pv \<Rightarrow> bool res" where
  "nonzero_exit s = ebind (arg s ''exit_code'') (\<lambda>x. Inr (\<not> py_eq x (PInt 0)))"

definition stop_shortens :: "pv list \<Rightarrow> int \<Rightarrow> bool" where
  "stop_shortens steps budget =
     (let cancels = filter (\<lambda>s. msg ''cancel'' s \<and> by_peer ''java'' s) steps; stops = filter (\<lambda>s. msg ''stop'' s \<and> by_peer ''java'' s) steps in
      cancels \<noteq> [] \<and> stops \<noteq> [] \<and> fld (bod (last cancels)) ''reason'' = PStr ''stop'' \<and> eff ''arm_cleanup_watchdog'' (last cancels) \<and>
      eff ''retain_earlier_cleanup_deadline'' (last stops) \<and> budget < int_of_pv (fld (bod (last stops)) ''budget_ms''))"

definition cov_watchdog :: "string \<Rightarrow> vcase \<Rightarrow> pv list \<Rightarrow> bool res" where
  "cov_watchdog phase c steps =
     (let clocks = at_steps (\<lambda>s. evt (watchdog_clock phase) s \<and> by_peer ''java'' s) steps;
          triggers = at_steps (\<lambda>s. msg (watchdog_trigger phase) s \<and> by_peer ''java'' s \<and> eff (watchdog_effect phase) s) steps;
          exits = at_steps (\<lambda>s. evt ''child_exit'' s \<and> by_peer ''go'' s) steps; value = watchdog_budget phase steps; budget = int_of_pv value in
      if \<not> (''java'' \<in> set (vc_targets c) \<and> length clocks = 2 \<and> truthy value \<and> triggers \<noteq> [] \<and> exits \<noteq> []) then Inr False
      else (let first = steps ! (clocks ! 0); second = steps ! (clocks ! 1); final = last steps in
        ebind (eand (elapsed_is first (budget - 1)) (eand (elapsed_is second budget)
          (Inr (eff ''no_child_exit'' first \<and> eff ''force_nonzero_exit'' second \<and> eff ''no_stopped'' second)))) (\<lambda>timed.
        let ordered = (last triggers < clocks ! 0 \<and> clocks ! 0 < clocks ! 1 \<and> clocks ! 1 < last exits);
            held = (list_ex (\<lambda>s. evt ''hold_cleanup'' s \<and> by_peer ''java'' s) steps \<and>
              \<not> list_ex (\<lambda>s. evt ''completion'' s \<or> evt ''application_cleanup_complete'' s \<or> evt ''stop_half_deadline'' s) (vc_steps c)) in
        ebind (if evt ''child_exit'' final \<and> by_peer ''go'' final then eand (nonzero_exit final) (Inr (eff ''reset_rejected'' final)) else Inr False) (\<lambda>ended.
        Inr (timed \<and> ordered \<and> held \<and> ended \<and> (phase = ''active_stop'' \<longrightarrow> stop_shortens steps budget))))))"

text \<open>\<open>cancel_wins_enqueue\<close> and \<open>enqueue_wins_cancel\<close>\<close>

definition names_identity :: "pv \<Rightarrow> pv \<Rightarrow> bool res" where
  "names_identity identity s =
     ebind (getitem (bod s) ''invocation'') (\<lambda>a. ebind (getitem identity ''invocation'') (\<lambda>b. if \<not> py_eq a b then Inr False else
     ebind (getitem (bod s) ''worker'') (\<lambda>w. ebind (getitem identity ''worker'') (\<lambda>v. Inr (py_eq w v)))))"

definition cov_enqueue :: "bool \<Rightarrow> vcase \<Rightarrow> pv list \<Rightarrow> bool res" where
  "cov_enqueue cancel_wins c steps =
     (let hold = at_steps (evt ''hold_release_enqueue'') steps;
          ready = at_steps (\<lambda>s. evt ''runtime_arrive_returns'' s \<and> eff ''enqueue_held'' s) steps;
          cancel = at_steps (evt ''cancel_context'') steps; resume = at_steps (evt ''resume_release_enqueue'') steps in
      if hold = [] \<or> ready = [] \<or> cancel = [] \<or> resume = [] \<or> \<not> scope_is c [''go''] then Inr False
      else
        (let ordered = (hd hold < hd ready \<and> hd ready < min (hd cancel) (hd resume) \<and> eff ''cancel_latched_atomically'' (steps ! hd cancel)) in
        ebind (arg (steps ! hd hold) ''identity'') (\<lambda>identity.
        ebind (if py_eq (fld (steps ! hd ready) ''args'') (PDict [(''identity'', identity), (''result'', PStr ''nil'')])
          then ebind (arg (steps ! hd resume) ''identity'') (\<lambda>r. if \<not> py_eq r identity then Inr False
            else ebind (arg (steps ! hd cancel) ''invocation'') (\<lambda>i. ebind (getitem identity ''invocation'') (\<lambda>j. Inr (py_eq i j))))
          else Inr False) (\<lambda>same.
        let outputs = filter (\<lambda>s. dlv ''exchange'' s \<and> by_peer ''java'' s) (vc_steps c);
            types = (map (\<lambda>s. fld (fld s ''frame'') ''type'') outputs = (if cancel_wins then [PStr ''cancel''] else [PStr ''release'', PStr ''cancel''])) in
        ebind (eall (names_identity identity) outputs) (\<lambda>named.
        let valid = (ordered \<and> same \<and> types \<and> named) in
        Inr (if cancel_wins then valid \<and> hd cancel < hd resume \<and> eff ''no_release'' (steps ! hd resume) \<and> \<not> list_ex (msg ''release'') (vc_steps c)
          else valid \<and> hd resume < hd cancel \<and> eff ''release_enqueued_atomically'' (steps ! hd resume) \<and> py_eq (bod (hd outputs)) identity))))))"

definition cov_readiness :: "vcase \<Rightarrow> bool" where
  "cov_readiness c = (scope_is c [''go''] \<and> list_ex (\<lambda>s. msg ''ready'' s \<and> by_peer ''go'' s \<and> dlv ''input'' s \<and> eff ''startup_error'' s) (vc_steps c))"

definition terminal_error :: "pv \<Rightarrow> pv" where
  "terminal_error s = fld (bod s) ''error''"

definition cov_canceled_reuse :: "vcase \<Rightarrow> bool res" where
  "cov_canceled_reuse c =
     (let own = vc_steps c; retire = at_steps (\<lambda>s. msg ''terminal'' s \<and> by_peer ''go'' s \<and> truthy (terminal_error s) \<and>
            fld (terminal_error s) ''kind'' = PStr ''cancelled'' \<and> eff ''retire_invocation'' s) own;
          calls = at_steps (\<lambda>s. evt ''invoke_call'' s \<and> by_peer ''go'' s) own in
      if retire \<noteq> [] \<and> calls \<noteq> [] \<and> hd retire < last calls then arg_is (own ! last calls) ''context'' ''fresh'' else Inr False)"

definition cov_active_stop :: "vcase \<Rightarrow> bool res" where
  "cov_active_stop c =
     (let own = vc_steps c; terminal = at_steps (\<lambda>s. msg ''terminal'' s \<and> by_peer ''go'' s) own;
          stopped = at_steps (\<lambda>s. msg ''stopped'' s \<and> by_peer ''go'' s) own in
      ebind (eat_steps (\<lambda>s. if evt ''runtime_arrive_returns'' s then arg_is s ''result'' ''cancelled'' else Inr False) own) (\<lambda>unwind.
      Inr (vc_prefix c = PStr ''arrived'' \<and> terminal \<noteq> [] \<and> stopped \<noteq> [] \<and> unwind \<noteq> [] \<and> first_before unwind terminal \<and>
        first_before terminal stopped \<and> eff ''stop_still_pending'' (own ! hd stopped))))"

definition cov_exception :: "vcase \<Rightarrow> bool" where
  "cov_exception c = (''java'' \<in> set (vc_targets c) \<and> list_ex (\<lambda>s. evt ''command_exception'' s \<and> by_peer ''java'' s) (vc_steps c) \<and>
     list_ex (\<lambda>s. msg ''terminal'' s \<and> by_peer ''go'' s \<and> truthy (terminal_error s)) (vc_steps c))"

definition cov_startup_cleanup :: "vcase \<Rightarrow> bool" where
  "cov_startup_cleanup c =
     (let own = vc_steps c; deadline = at_steps (\<lambda>s. evt ''startup_deadline'' s \<and> by_peer ''go'' s) own;
          cutoff = at_steps (\<lambda>s. evt ''stop_half_deadline'' s \<and> by_peer ''go'' s) own;
          exited = at_steps (\<lambda>s. evt ''child_exit'' s \<and> by_peer ''go'' s) own in
      scope_is c [''go''] \<and> deadline \<noteq> [] \<and> cutoff \<noteq> [] \<and> exited \<noteq> [] \<and> first_before deadline cutoff \<and> first_before cutoff exited \<and>
      eff ''kill_child'' (own ! hd cutoff) \<and> effs [''child_reaped'', ''startup_error'', ''reset_rejected''] (own ! hd exited))"

definition completion_args :: "bool \<Rightarrow> string \<Rightarrow> pv" where
  "completion_args exited lease = PDict [(''proxy_exited'', PBool exited), (''transaction'', PStr ''committed''), (''lease'', PStr lease)]"

definition cov_callback :: "vcase \<Rightarrow> bool" where
  "cov_callback c =
     (let completions = filter (\<lambda>s. evt ''completion'' s \<and> by_peer ''java'' s) (vc_steps c); ends = filter (exchanged ''terminal'' ''go'') (vc_steps c) in
      scope_is c [''go'', ''java''] \<and> length completions = 3 \<and> length ends = 1 \<and>
      list_all2 (\<lambda>s a. py_eq (fld s ''args'') a) completions
        [completion_args False ''held'', completion_args True ''held'', completion_args True ''returned''] \<and>
      fld (bod (hd ends)) ''transaction'' = PStr ''committed'' \<and> fld (bod (hd ends)) ''connection'' = PStr ''returned'' \<and>
      terminal_error (hd ends) = PNone)"

definition cov_unknown_outcome :: "vcase \<Rightarrow> bool" where
  "cov_unknown_outcome c =
     (let own = vc_steps c; completion = at_steps (\<lambda>s. evt ''completion'' s \<and> by_peer ''java'' s \<and> fld (fld s ''args'') ''transaction'' = PStr ''unknown'') own;
          fatal = at_steps (\<lambda>s. exchanged ''fatal'' ''go'' s \<and> fld (bod s) ''kind'' = PStr ''transaction'') own in
      scope_is c [''go'', ''java''] \<and> completion \<noteq> [] \<and> fatal \<noteq> [] \<and> first_before completion fatal \<and>
      effs [''latch_adapter_fault'', ''no_worker_result'', ''abort_run'', ''quarantine_fixture''] (own ! hd fatal))"

definition cov_version :: "vcase \<Rightarrow> bool res" where
  "cov_version c =
     (let own = vc_steps c; bad = at_steps (\<lambda>s. msg ''start'' s \<and> by_peer ''java'' s \<and> dlv ''input'' s \<and>
            \<not> py_eq (fld (fld s ''frame'') ''v'') (PInt 1) \<and> eff ''fatal_version'' s) own;
          fatal = at_steps (\<lambda>s. exchanged ''fatal'' ''go'' s \<and> fld (bod s) ''kind'' = PStr ''version'' \<and> py_eq (fld (fld s ''frame'') ''seq'') (PInt 1)) own in
      ebind (eat_steps (\<lambda>s. if evt ''child_exit'' s \<and> by_peer ''go'' s then nonzero_exit s else Inr False) own) (\<lambda>exited.
      Inr (scope_is c [''java''] \<and> bad \<noteq> [] \<and> fatal \<noteq> [] \<and> exited \<noteq> [] \<and> first_before bad fatal \<and> first_before fatal exited \<and>
        effs [''no_ready'', ''no_terminal'', ''no_stopped''] (own ! hd exited))))"

definition cov_increment :: "vcase \<Rightarrow> bool" where
  "cov_increment c =
     (let arrivals = filter (exchanged ''arrive'' ''go'') (vc_steps c); releases = filter (exchanged ''release'' ''java'') (vc_steps c) in
      scope_is c [''go'', ''java''] \<and> length arrivals = 1 \<and> length releases = 1 \<and> vc_prefix c = PStr ''released'' \<and>
      py_eq (bod (hd arrivals)) (bod (hd releases)) \<and> fld (bod (hd arrivals)) ''arrival'' = PStr ''2'' \<and>
      fld (bod (hd arrivals)) ''point'' = PStr ''before_write'')"

text \<open>The rules in the order of the code's tests.\<close>

definition coverage :: "string \<Rightarrow> vcase \<Rightarrow> pv list \<Rightarrow> bool res" where
  "coverage rule c steps =
     (if rule = ''go_wire_matrix'' then Inr (cov_go_wire c)
      else if rule = ''java_wire_matrix'' then Inr (cov_java_wire c)
      else if startswith rule ''retired_terminal_'' then cov_retired (rule = ''retired_terminal_identical'') c steps
      else if rule = ''process_death_cleanup'' then cov_process_death c
      else if startswith rule ''duplicate_'' then Inr (cov_duplicate (drop 10 rule) c)
      else if startswith rule ''late_'' then cov_late (rule = ''late_wire_fault'') c steps
      else if endswith rule ''watchdog'' then cov_watchdog (take (length rule - 9) rule) c steps
      else if rule = ''cancel_wins_enqueue'' \<or> rule = ''enqueue_wins_cancel'' then cov_enqueue (rule = ''cancel_wins_enqueue'') c steps
      else if rule = ''readiness_rejection'' then Inr (cov_readiness c)
      else if rule = ''canceled_reuse'' then cov_canceled_reuse c
      else if rule = ''normal_active_stop'' then cov_active_stop c
      else if rule = ''exception_input'' then Inr (cov_exception c)
      else if rule = ''parent_startup_cleanup'' then Inr (cov_startup_cleanup c)
      else if rule = ''callback_terminal'' then Inr (cov_callback c)
      else if rule = ''unknown_outcome_fatal'' then Inr (cov_unknown_outcome c)
      else if rule = ''version_rejection'' then cov_version c
      else if rule = ''incremented_arrival'' then Inr (cov_increment c)
      else Inr False)"


section \<open>Framing cases\<close>

text \<open>What the JSON library answers: the strict decoder (duplicate keys raise), the first value and the rest of
  a text, the decoder of bytes with replacement characters, and the plain decoder.\<close>

datatype decoded = Json pv | Bad_utf8 | Duplicate_key string | Bad_json string

record json_codec =
  jc_strict :: "string \<Rightarrow> decoded"
  jc_first :: "string \<Rightarrow> (pv \<times> string) res"
  jc_replace :: "string \<Rightarrow> pv res"
  jc_plain :: "string \<Rightarrow> pv res"

definition duplicate_text :: string where "duplicate_text = ''duplicate JSON key: ''"

definition strict :: "json_codec \<Rightarrow> string \<Rightarrow> pv res" where
  "strict jc raw = (case jc_strict jc raw of
     Json v \<Rightarrow> Inr v
   | Bad_utf8 \<Rightarrow> Inl (ValueError ''invalid start byte'')
   | Duplicate_key k \<Rightarrow> Inl (ValueError (duplicate_text @ k))
   | Bad_json m \<Rightarrow> Inl (ValueError m))"

definition hex_value :: "char \<Rightarrow> nat" where
  "hex_value c = (if is_digit c then char_code c - 48 else char_code c - 87)"

fun from_hex :: "string \<Rightarrow> string" where
  "from_hex (a # b # s) = char_of (16 * hex_value a + hex_value b) # from_hex s"
| "from_hex _ = []"

definition hex_bytes :: "pv \<Rightarrow> bool" where
  "hex_bytes v = (is_str v \<and> even (length (str_of v)) \<and> list_all is_hex (str_of v))"

definition framing_names :: "string list" where
  "framing_names = [''fragmented_valid_frame'', ''zero_length'', ''oversized_length'', ''partial_header_eof'', ''partial_payload_eof'',
     ''invalid_utf8'', ''stdout_banner'', ''duplicate_json_key'', ''trailing_value'', ''unknown_field'', ''duplicate_nested_json_key'']"

definition framing_fields :: "string \<Rightarrow> string list" where
  "framing_fields n = [''id'', ''input_hex'', ''expect'', ''targets''] @
     (if n = ''fragmented_valid_frame'' then [''read_chunk_sizes'', ''decoded'']
      else if n = ''partial_header_eof'' \<or> n = ''partial_payload_eof'' then [''eof'']
      else if n = ''invalid_utf8'' \<or> n = ''duplicate_json_key'' \<or> n = ''duplicate_nested_json_key'' then [''control_hex''] else [])"

definition framing_effects :: "string \<Rightarrow> string list" where
  "framing_effects n =
     (if n = ''fragmented_valid_frame'' then [''one_ready_frame_after_complete_payload'']
      else if n = ''oversized_length'' then [''fatal_protocol'', ''no_payload_allocation'']
      else if n = ''partial_header_eof'' \<or> n = ''partial_payload_eof'' then [''fatal_transport'']
      else if n = ''invalid_utf8'' \<or> n = ''duplicate_json_key'' \<or> n = ''duplicate_nested_json_key'' then [''fatal_protocol'', ''no_dispatch'']
      else [''fatal_protocol''])"

definition max_frame :: nat where "max_frame = 1048576"

definition banner :: string where "banner = ''Spring Boot'' @ [CHR 0x0A]"

text \<open>\<open>payload[end:] and payload[end:].strip() == '{}'\<close>; a text is kept as its bytes.\<close>

definition trailing_ok :: "string \<Rightarrow> bool" where
  "trailing_ok rest = (rest \<noteq> [] \<and> strip rest = ''{}'')"

definition fragmented_case :: "json_codec \<Rightarrow> (pv \<Rightarrow> string) \<Rightarrow> pv \<Rightarrow> string \<Rightarrow> string \<Rightarrow> unit res" where
  "fragmented_case jc dumps c n raw =
     ebind (framed raw) (\<lambda>text. ebind (strict jc text) (\<lambda>actual. ebind (frame_shape dumps actual) (\<lambda>_.
     require (py_eq actual (fld c ''decoded'')) (n @ '': decoded control differs'') (
     let chunks = fld c ''read_chunk_sizes'' in
     require (is_list chunks \<and> list_all (\<lambda>v. integer_in v 1 (int (length raw))) (elems_of chunks) \<and>
         sum_list (map int_of_pv (elems_of chunks)) < int (length raw)) (n @ '': chunk plan'') (Inr ())))))"

definition trailing_case :: "json_codec \<Rightarrow> (pv \<Rightarrow> string) \<Rightarrow> string \<Rightarrow> string \<Rightarrow> unit res" where
  "trailing_case jc dumps n raw = ebind (framed raw) (\<lambda>text. ebind (jc_first jc text) (\<lambda>(first, rest).
     ebind (frame_shape dumps first) (\<lambda>_. require (trailing_ok rest) (n @ '': missing trailing JSON value'') (Inr ()))))"

definition unknown_case :: "json_codec \<Rightarrow> (pv \<Rightarrow> string) \<Rightarrow> string \<Rightarrow> string \<Rightarrow> unit res" where
  "unknown_case jc dumps n raw = ebind (framed raw) (\<lambda>text. ebind (strict jc text) (\<lambda>invalid.
     require (has_keys invalid [''v'', ''type'', ''run'', ''session'', ''seq'', ''body'', ''extra''] \<and> fld invalid ''extra'' = PBool True)
       (n @ '': unknown-field premise'') (frame_shape dumps (PDict (filter (\<lambda>p. fst p \<noteq> ''extra'') (items_of invalid))))))"

text \<open>The two encodings of a control frame that the strict decoder must reject for the right cause.\<close>

definition rejected_for :: "string \<Rightarrow> decoded res \<Rightarrow> unit res" where
  "rejected_for n answer = (case answer of
     Inr Bad_utf8 \<Rightarrow> require (n = ''invalid_utf8'') (n @ '': wrong rejection cause'') (Inr ())
   | Inr (Duplicate_key _) \<Rightarrow> require (n = ''duplicate_json_key'' \<or> n = ''duplicate_nested_json_key'') (n @ '': wrong rejection cause'') (Inr ())
   | Inr (Json _) \<Rightarrow> Inl (ValueError (n @ '': negative encoding input accepted strictly''))
   | _ \<Rightarrow> Inl (ValueError (n @ '': wrong rejection cause'')))"

definition encoding_case :: "json_codec \<Rightarrow> (pv \<Rightarrow> string) \<Rightarrow> pv \<Rightarrow> string \<Rightarrow> string \<Rightarrow> unit res" where
  "encoding_case jc dumps c n raw =
     (let control_text = fld c ''control_hex'' in
      require (hex_bytes control_text \<and> str_of control_text \<noteq> []) (n @ '': control hex'') (
      ebind (framed (from_hex (str_of control_text))) (\<lambda>text. ebind (strict jc text) (\<lambda>control. ebind (frame_shape dumps control) (\<lambda>_.
      ebind (rejected_for n (ebind (framed raw) (\<lambda>text. Inr (jc_strict jc text)))) (\<lambda>_.
      ebind (framed raw) (\<lambda>text.
      if n = ''invalid_utf8'' then ebind (jc_replace jc text) (frame_shape dumps)
      else ebind (jc_plain jc text) (\<lambda>v. require (py_eq v control) (n @ '': duplicate-key control differs'') (Inr ())))))))))"

definition validate_framing :: "json_codec \<Rightarrow> (pv \<Rightarrow> string) \<Rightarrow> pv \<Rightarrow> unit res" where
  "validate_framing jc dumps c =
     ebind (getitem c ''id'') (\<lambda>v. case v of PStr n \<Rightarrow>
       require (n \<in> set framing_names) (''unknown framing case: '' @ n) (
       erequire (if \<not> has_keys c (framing_fields n) then Inr False
           else ebind (py_iter (fld c ''expect'')) (\<lambda>es. Inr (es = map PStr (framing_effects n)))) (n @ '': framing fields/effects'') (
       require (fld c ''targets'' = PList [PStr ''go'', PStr ''java'']) (n @ '': framing decoder scope'') (
       let value = fld c ''input_hex'' in
       require (hex_bytes value) (n @ '': input hex'') (
       let raw = from_hex (str_of value); eof = (fld c ''eof'' = PBool True); announced = from_bytes_big (take 4 raw) in
       if n = ''fragmented_valid_frame'' then fragmented_case jc dumps c n raw
       else if n = ''zero_length'' then require (raw = replicate 4 (CHR 0x00)) (n @ '': not a zero length header'') (Inr ())
       else if n = ''oversized_length'' then
         require (length raw = 4 \<and> max_frame < from_bytes_big raw) (n @ '': not an allocation-free oversized header'') (Inr ())
       else if n = ''partial_header_eof'' then require (eof \<and> 0 < length raw \<and> length raw < 4) (n @ '': not a partial header EOF'') (Inr ())
       else if n = ''partial_payload_eof'' then
         require (eof \<and> 4 \<le> length raw \<and> 1 \<le> announced \<and> announced \<le> max_frame \<and> length raw - 4 < announced)
           (n @ '': not a partial payload EOF'') (Inr ())
       else if n = ''stdout_banner'' then require (raw = banner) (n @ '': banner premise'') (Inr ())
       else if n = ''trailing_value'' then trailing_case jc dumps n raw
       else if n = ''unknown_field'' then unknown_case jc dumps n raw
       else encoding_case jc dumps c n raw))))
     | _ \<Rightarrow> Inl (TypeError ''framing id''))"


section \<open>The vector file\<close>

definition case_fields :: "string list" where
  "case_fields = [''id'', ''prefix'', ''steps'', ''covers'', ''targets'', ''execution'']"

text \<open>The members of \<open>targets\<close>; a value that is not a string cannot be in the scope.\<close>

definition target_names :: "pv \<Rightarrow> string list res" where
  "target_names v = ebind (py_iter v) (\<lambda>ts. ebind (emap hkey ts) (\<lambda>_. Inr (map (\<lambda>t. if is_str t then str_of t else []) ts)))"

definition read_case :: "pv \<Rightarrow> string \<Rightarrow> vcase res" where
  "read_case v cid = require (has_keys v case_fields) ''case fields'' (
     ebind (py_iter (fld v ''steps'')) (\<lambda>own. ebind (target_names (fld v ''targets'')) (\<lambda>ts.
     Inr \<lparr>vc_id = cid, vc_prefix = fld v ''prefix'', vc_steps = own, vc_scope = fld v ''targets'', vc_targets = ts,
       vc_execution = fld v ''execution''\<rparr>)))"

definition case_error :: "string \<Rightarrow> exn \<Rightarrow> exn" where
  "case_error cid e = (case e of
     ValueError m \<Rightarrow> ValueError (cid @ '': '' @ m)
   | KeyError k \<Rightarrow> ValueError (cid @ '': '' @ [CHR 0x27] @ k @ [CHR 0x27])
   | TypeError m \<Rightarrow> ValueError (cid @ '': '' @ m)
   | _ \<Rightarrow> e)"

definition wrap_case :: "string \<Rightarrow> 'a res \<Rightarrow> 'a res" where
  "wrap_case cid r = (case r of Inl e \<Rightarrow> Inl (case_error cid e) | Inr x \<Rightarrow> Inr x)"

text \<open>One case: expanded, replayed, its effects paired.\<close>

definition check_case :: "(string \<Rightarrow> string) \<Rightarrow> (pv \<Rightarrow> string) \<Rightarrow> pv \<Rightarrow> pv \<Rightarrow> (string \<times> vcase \<times> pv list) res" where
  "check_case sha dumps prefixes v = ebind (getitem v ''id'') (\<lambda>i. case i of
     PStr cid \<Rightarrow> wrap_case cid (
       ebind (read_case v cid) (\<lambda>c. ebind (expand prefixes (vc_prefix c) []) (\<lambda>pre. let steps = pre @ vc_steps c in
       ebind (history sha dumps (vc_execution c) \<lparr>case_id = cid, targets = vc_targets c\<rparr> steps) (\<lambda>_.
       ebind (emissions cid (vc_targets c) steps) (\<lambda>_. Inr (cid, c, steps))))))
   | _ \<Rightarrow> Inl (TypeError ''case id''))"

definition cover_rule :: "(string \<times> vcase \<times> pv list) list \<Rightarrow> string \<times> pv \<Rightarrow> unit res" where
  "cover_rule cases = (\<lambda>(rule, names). ebind (py_iter names) (\<lambda>ns. ebind (emap hkey ns) (\<lambda>ks.
     require (ns \<noteq> [] \<and> distinct ks) (rule @ '': empty/duplicate coverage'') (
     efor (\<lambda>n. if \<not> is_str n then Inl (TypeError ''case name'') else
       erequire (case map_of cases (str_of n) of Some (c, steps) \<Rightarrow> coverage rule c steps | None \<Rightarrow> Inr False)
         (rule @ '': missing premise in '' @ str_of n) (Inr ())) ns))))"

definition validate :: "(string \<Rightarrow> string) \<Rightarrow> (pv \<Rightarrow> string) \<Rightarrow> json_codec \<Rightarrow> pv \<Rightarrow> unit res" where
  "validate sha dumps jc data =
     ebind (pgetn data ''vector_format'') (\<lambda>f. ebind (pgetn data ''wire_version'') (\<lambda>w.
     require (py_eq f (PInt 1) \<and> py_eq w (PInt 1)) ''vector version'' (
     ebind (ebind (getitem data ''cases'') py_iter) (\<lambda>cases. ebind (ebind (getitem data ''framing'') py_iter) (\<lambda>framing.
     ebind (emap (\<lambda>c. ebind (getitem c ''id'') hkey) (cases @ framing)) (\<lambda>ids.
     require (distinct ids) ''duplicate case ID'' (
     ebind (getitem data ''prefixes'') (\<lambda>prefixes.
     ebind (emap (check_case sha dumps prefixes) cases) (\<lambda>checked.
     ebind (getitem data ''coverage'') (\<lambda>matrix.
     require (set (keys matrix) = set required_rules) ''coverage matrix families'' (
     ebind (ebind (getitem matrix ''java_wire_matrix'') py_iter) (\<lambda>js.
     require (set js = PStr ` fst ` set java_wire_cases) ''Java wire matrix inventory'' (
     ebind (ebind (getitem matrix ''go_wire_matrix'') py_iter) (\<lambda>gs.
     require (set gs = PStr ` fst ` set go_wire_cases) ''Go wire matrix inventory'' (
     ebind (efor (cover_rule checked) (items_of matrix)) (\<lambda>_.
     ebind (emap (\<lambda>c. getitem c ''id'') framing) (\<lambda>fids.
     require (set fids = PStr ` set framing_names) ''framing inventory'' (
     efor (validate_framing jc dumps) framing))))))))))))))))))"

section \<open>Expansion\<close>



section \<open>Expansion\<close>

lemma expand_PStr:
  "expand prefixes (PStr n) seen = Inr out \<longleftrightarrow> n \<in> set (keys prefixes) \<and> n \<notin> set seen \<and>
     (\<exists>steps. prefix_steps prefixes n = Inr steps \<and> expand_steps prefixes (seen @ [n]) steps [] = Inr out)"
  by (subst expand.simps) (auto simp: ebind_eq_Inr)

lemma expand_is_name: "expand prefixes name seen = Inr out \<Longrightarrow> \<exists>n. name = PStr n"
  by (cases name) (simp_all add: expand.simps)

lemma expand_shape:
  "\<forall>out. expand prefixes name seen = Inr out \<longrightarrow> length out \<le> max_steps \<and> (\<forall>s \<in> set out. prefix_of s = Inr None)"
  "\<forall>out. expand_steps prefixes seen' steps acc = Inr out \<longrightarrow> length acc \<le> max_steps \<longrightarrow> (\<forall>s \<in> set acc. prefix_of s = Inr None) \<longrightarrow>
     length out \<le> max_steps \<and> (\<forall>s \<in> set out. prefix_of s = Inr None)"
proof (induction prefixes name seen and prefixes seen' steps acc rule: expand_expand_steps.induct)
  case (1 prefixes name seen)
  show ?case
  proof (intro allI impI)
    fix out assume e: "expand prefixes name seen = Inr out"
    then obtain n where n: "name = PStr n" using expand_is_name by blast
    then obtain steps where s: "n \<in> set (keys prefixes) \<and> n \<notin> set seen" "prefix_steps prefixes n = Inr steps"
        "expand_steps prefixes (seen @ [n]) steps [] = Inr out"
      using e by (auto simp: expand_PStr)
    show "length out \<le> max_steps \<and> (\<forall>s \<in> set out. prefix_of s = Inr None)"
      using "1.IH" [OF n s(1) s(2)] s(3) by (simp add: max_steps_def)
  qed
next
  case (2 prefixes seen out)
  then show ?case by simp
next
  case (3 prefixes seen step steps acc)
  show ?case
  proof (intro allI impI)
    fix out assume e: "expand_steps prefixes seen (step # steps) acc = Inr out" "length acc \<le> max_steps" "\<forall>s \<in> set acc. prefix_of s = Inr None"
    then obtain p xs where p: "prefix_of step = Inr p" "(case p of Some name \<Rightarrow> expand prefixes name seen | None \<Rightarrow> Inr [step]) = Inr xs"
        "length (acc @ xs) \<le> max_steps" "expand_steps prefixes seen steps (acc @ xs) = Inr out"
      by (auto simp: ebind_eq_Inr)
    have "\<forall>s \<in> set xs. prefix_of s = Inr None"
      using p(1,2) "3.IH"(1) [OF p(1)] by (auto split: option.splits)
    then show "length out \<le> max_steps \<and> (\<forall>s \<in> set out. prefix_of s = Inr None)"
      using "3.IH"(2) [OF p(1) p(2)] p(3,4) e(3) by auto
  qed
qed

text \<open>The references between prefixes.\<close>

definition refers :: "pv \<Rightarrow> (string \<times> string) set" where
  "refers prefixes = {(n, m). \<exists>steps. prefix_steps prefixes n = Inr steps \<and> (\<exists>s \<in> set steps. prefix_of s = Inr (Some (PStr m)))}"

lemma expand_reachable:
  "\<forall>out n m. expand prefixes name seen = Inr out \<longrightarrow> name = PStr n \<longrightarrow> (n, m) \<in> (refers prefixes)\<^sup>* \<longrightarrow> m \<in> set (keys prefixes) \<and> m \<notin> set seen"
  "\<forall>out s k. expand_steps prefixes seen' steps acc = Inr out \<longrightarrow> s \<in> set steps \<longrightarrow> prefix_of s = Inr (Some k) \<longrightarrow>
     (\<exists>n. k = PStr n \<and> (\<forall>m. (n, m) \<in> (refers prefixes)\<^sup>* \<longrightarrow> m \<in> set (keys prefixes) \<and> m \<notin> set seen'))"
proof (induction prefixes name seen and prefixes seen' steps acc rule: expand_expand_steps.induct)
  case (1 prefixes name seen)
  show ?case
  proof (intro allI impI)
    fix out n m assume e: "expand prefixes name seen = Inr out" "name = PStr n" "(n, m) \<in> (refers prefixes)\<^sup>*"
    then obtain steps where s: "n \<in> set (keys prefixes) \<and> n \<notin> set seen" "prefix_steps prefixes n = Inr steps"
        "expand_steps prefixes (seen @ [n]) steps [] = Inr out"
      by (auto simp: expand_PStr)
    from e(3) show "m \<in> set (keys prefixes) \<and> m \<notin> set seen"
    proof (cases rule: converse_rtranclE)
      case base
      then show ?thesis using s(1) by simp
    next
      case (step k)
      then obtain st where "st \<in> set steps" "prefix_of st = Inr (Some (PStr k))" using s(2) by (auto simp: refers_def)
      then show ?thesis using "1.IH" [OF e(2) s(1) s(2)] s(3) step(2) by fastforce
    qed
  qed
next
  case (2 prefixes seen out)
  then show ?case by simp
next
  case (3 prefixes seen step steps acc)
  show ?case
  proof (intro allI impI)
    fix out s k assume e: "expand_steps prefixes seen (step # steps) acc = Inr out" "s \<in> set (step # steps)" "prefix_of s = Inr (Some k)"
    then obtain p xs where p: "prefix_of step = Inr p" "(case p of Some name \<Rightarrow> expand prefixes name seen | None \<Rightarrow> Inr [step]) = Inr xs"
        "expand_steps prefixes seen steps (acc @ xs) = Inr out"
      by (auto simp: ebind_eq_Inr)
    show "\<exists>n. k = PStr n \<and> (\<forall>m. (n, m) \<in> (refers prefixes)\<^sup>* \<longrightarrow> m \<in> set (keys prefixes) \<and> m \<notin> set seen)"
    proof (cases "s = step")
      case True
      then have x: "p = Some k" "expand prefixes k seen = Inr xs" using p(1,2) e(3) by auto
      obtain n where n: "k = PStr n" using expand_is_name [OF x(2)] by blast
      then show ?thesis using "3.IH"(1) [OF p(1) x(1)] x(2) by blast
    next
      case False
      then show ?thesis using "3.IH"(2) [OF p(1) p(2)] p(3) e(2,3) by auto
    qed
  qed
qed


definition sample_prefixes :: pv where
  "sample_prefixes = PDict [(''new'', PList []), (''ready'', PList [PDict [(''prefix'', PStr ''new'')], PDict [(''peer'', PStr ''go'')]])]"



section \<open>Emissions\<close>

text \<open>The effects the case's targets must emit, in order, with the index of their step.\<close>

definition emitted :: "string list \<Rightarrow> pv list \<Rightarrow> (nat \<times> string) list" where
  "emitted ts steps = concat (map (\<lambda>i. if str_of (fld (steps ! i) ''peer'') \<in> set ts then map (Pair i) (effects_of (steps ! i)) else [])
     [0..<length steps])"

definition carries :: "pv list \<Rightarrow> nat \<times> string \<Rightarrow> nat \<Rightarrow> bool" where
  "carries steps = (\<lambda>(i, e) j. case message_of_effect e of None \<Rightarrow> False
     | Some (kind, fatal) \<Rightarrow> i < j \<and> j < length steps \<and> dlv ''exchange'' (steps ! j) \<and>
         fld (steps ! j) ''peer'' \<noteq> fld (steps ! i) ''peer'' \<and> msg kind (steps ! j) \<and>
         (case fatal of None \<Rightarrow> True | Some k \<Rightarrow> fld (bod (steps ! j)) ''kind'' = PStr k))"

lemma emit_effect_carries:
  assumes "emit_effect cid steps i e used = Inr used'"
  shows "(message_of_effect e = None \<and> used' = used) \<or> (\<exists>j. j \<notin> used \<and> used' = insert j used \<and> carries steps (i, e) j)"
proof (cases "message_of_effect e")
  case None
  then show ?thesis using assms by (simp add: emit_effect_def)
next
  case (Some p)
  obtain kind fatal where p: "p = (kind, fatal)" by (cases p)
  let ?os = "carriers steps used i kind"
  have a: "?os \<noteq> []" "used' = insert (hd ?os) used" "case fatal of None \<Rightarrow> True | Some k \<Rightarrow> fld (bod (steps ! hd ?os)) ''kind'' = PStr k"
    using assms Some p by (auto simp: emit_effect_def Let_def)
  obtain j where j: "hd ?os = j" by blast
  then have "j \<in> set ?os" using a(1) hd_in_set by metis
  moreover have "case fatal of None \<Rightarrow> True | Some k \<Rightarrow> fld (bod (steps ! j)) ''kind'' = PStr k"
    using a(3) unfolding j .
  ultimately have "j \<notin> used" "carries steps (i, e) j"
    using Some p by (auto simp: carries_def carriers_def)
  then show ?thesis using a(2) j by blast
qed

lemma efold_pairs: "efold (\<lambda>(i, x). h i x) (map (Pair i) ys) = efold (h i) ys"
  by (induction ys) (auto intro!: ext)

lemma efold_nested:
  "efold (\<lambda>i. efold (h i) (l i)) xs = efold (\<lambda>(i, x). h i x) (concat (map (\<lambda>i. map (Pair i) (l i)) xs))"
  by (induction xs) (auto simp: efold_append efold_pairs intro!: ext)

lemma emissions_flat: "emissions cid ts steps = ebind (efold (\<lambda>(i, e). emit_effect cid steps i e) (emitted ts steps) {}) (\<lambda>_. Inr ())"
proof -
  let ?l = "\<lambda>i. if str_of (fld (steps ! i) ''peer'') \<in> set ts then effects_of (steps ! i) else []"
  have "emit_step cid ts steps = (\<lambda>i. efold (emit_effect cid steps i) (?l i))"
    by (intro ext) (simp add: emit_step_def)
  moreover have "emitted ts steps = concat (map (\<lambda>i. map (Pair i) (?l i)) [0..<length steps])"
    unfolding emitted_def by (rule arg_cong [where f = concat]) simp
  ultimately show ?thesis unfolding emissions_def by (simp only: efold_nested)
qed

text \<open>A loop that claims a fresh element for some of its items assigns them injectively.\<close>

lemma claims_injective:
  assumes "efold f xs used = Inr used'"
    and "\<And>x u u'. f x u = Inr u' \<Longrightarrow> (\<not> P x \<and> u' = u) \<or> (\<exists>y. y \<notin> u \<and> u' = insert y u \<and> R x y)"
  shows "\<exists>g. inj_on g {k. k < length xs \<and> P (xs ! k)} \<and> (\<forall>k < length xs. P (xs ! k) \<longrightarrow> R (xs ! k) (g k) \<and> g k \<in> used' - used) \<and> used \<subseteq> used'"
  using assms(1)
proof (induction xs arbitrary: used)
  case Nil
  then show ?case by simp
next
  case (Cons x xs)
  obtain u where u: "f x used = Inr u" "efold f xs u = Inr used'" using Cons.prems by (auto simp: ebind_eq_Inr)
  obtain g where g: "inj_on g {k. k < length xs \<and> P (xs ! k)}" "\<forall>k < length xs. P (xs ! k) \<longrightarrow> R (xs ! k) (g k) \<and> g k \<in> used' - u" "u \<subseteq> used'"
    using Cons.IH [OF u(2)] by blast
  consider (skip) "\<not> P x" "u = used" | (claim) y where "y \<notin> used" "u = insert y used" "R x y" using assms(2) [OF u(1)] by blast
  then show ?case
  proof cases
    case skip
    let ?g = "\<lambda>k. g (k - 1)"
    have "inj_on ?g {k. k < length (x # xs) \<and> P ((x # xs) ! k)}"
    proof (intro inj_onI)
      fix a b assume ab: "a \<in> {k. k < length (x # xs) \<and> P ((x # xs) ! k)}" "b \<in> {k. k < length (x # xs) \<and> P ((x # xs) ! k)}" "?g a = ?g b"
      then show "a = b" using g(1) skip(1) by (cases a; cases b) (auto simp: inj_on_def)
    qed
    moreover have "\<forall>k < length (x # xs). P ((x # xs) ! k) \<longrightarrow> R ((x # xs) ! k) (?g k) \<and> ?g k \<in> used' - used"
      using g(2) skip by (auto simp: nth_Cons split: nat.splits)
    ultimately show ?thesis using g(3) skip(2) by blast
  next
    case claim
    let ?g = "\<lambda>k. if k = 0 then y else g (k - 1)"
    have fresh: "g k \<noteq> y" if "k < length xs" "P (xs ! k)" for k using g(2) that claim(2) by auto
    have "inj_on ?g {k. k < length (x # xs) \<and> P ((x # xs) ! k)}"
    proof (rule inj_onI)
      fix a b assume ab: "a \<in> {k. k < length (x # xs) \<and> P ((x # xs) ! k)}" "b \<in> {k. k < length (x # xs) \<and> P ((x # xs) ! k)}" "?g a = ?g b"
      show "a = b" using ab g(1) fresh [of "a - 1"] fresh [of "b - 1"]
        by (cases a; cases b) (auto simp: inj_on_def)
    qed
    moreover have "\<forall>k < length (x # xs). P ((x # xs) ! k) \<longrightarrow> R ((x # xs) ! k) (?g k) \<and> ?g k \<in> used' - used"
      using g(2,3) claim by (auto simp: nth_Cons split: nat.splits)
    ultimately show ?thesis using g(3) claim(2) by blast
  qed
qed

text \<open>
  No emitted message is counted twice: an accepted case has, for every effect of its targets that emits a
  message, an exchange of its own later on the wire, written by the other peer, of that message type and,
  for a fatal, of that kind.
\<close>

theorem emissions_matched:
  assumes "emissions cid ts steps = Inr ()"
  shows "\<exists>g. inj_on g {k. k < length (emitted ts steps) \<and> message_of_effect (snd (emitted ts steps ! k)) \<noteq> None} \<and>
    (\<forall>k < length (emitted ts steps). message_of_effect (snd (emitted ts steps ! k)) \<noteq> None \<longrightarrow> carries steps (emitted ts steps ! k) (g k))"
proof -
  obtain used' where fold: "efold (\<lambda>(i, e). emit_effect cid steps i e) (emitted ts steps) {} = Inr used'"
    using assms by (auto simp: emissions_flat ebind_eq_Inr)
  have step: "(\<not> message_of_effect (snd x) \<noteq> None \<and> u' = u) \<or> (\<exists>y. y \<notin> u \<and> u' = insert y u \<and> carries steps x y)"
    if "(case x of (i, e) \<Rightarrow> emit_effect cid steps i e) u = Inr u'" for x u u'
    using that emit_effect_carries [of cid steps "fst x" "snd x" u u'] by (cases x) (simp del: not_None_eq)
  show ?thesis
    using claims_injective [where P = "\<lambda>x. message_of_effect (snd x) \<noteq> None" and R = "carries steps", OF fold step] by blast
qed

definition sample_emissions :: "pv list" where
  "sample_emissions =
     [PDict [(''peer'', PStr ''java''), (''action'', PStr ''local''), (''expect'', PList [PStr ''send_ready''])],
      PDict [(''peer'', PStr ''go''), (''delivery'', PStr ''exchange''), (''frame'', PDict [(''type'', PStr ''ready'')]),
        (''expect'', PList [PStr ''start_returns_handle''])]]"

lemma sample_emissions_steps: "length sample_emissions = 2" "effects_of (sample_emissions ! 0) = [''send_ready'']"
    "fld (sample_emissions ! 0) ''peer'' = PStr ''java''" "fld (sample_emissions ! 1) ''peer'' = PStr ''go''"
    "dlv ''exchange'' (sample_emissions ! 1)" "msg ''ready'' (sample_emissions ! 1)"
  by (simp_all add: sample_emissions_def effects_of_def dlv_def msg_def)

lemma send_ready_message: "message_of_effect ''send_ready'' = Some (''ready'', None)"
  by (simp add: message_of_effect_def)

lemma emissions_matched_witness:
  "\<exists>g :: nat \<Rightarrow> nat. carries sample_emissions (0, ''send_ready'') (g 0)"
proof -
  have two: "[0..<2] = [0, 1 :: nat]" by (simp add: numeral_2_eq_2)
  have "carriers sample_emissions {} 0 ''ready'' = [1]"
    using sample_emissions_steps by (simp add: carriers_def numeral_2_eq_2)
  then have "emissions ''c'' [''java''] sample_emissions = Inr ()"
    using sample_emissions_steps by (simp add: emissions_def two emit_step_def emit_effect_def send_ready_message)
  note m = emissions_matched [OF this]
  have "emitted [''java''] sample_emissions = [(0, ''send_ready'')]"
    using sample_emissions_steps by (simp add: emitted_def two)
  then show ?thesis using m by (auto simp: send_ready_message)
qed

end
