(* ===== verification/Slots.thy ===== *)
theory Slots
  imports Common
begin

text \<open>
  The fixed design of the E5 control comparison,
  \<open>experiments/control-comparison/runner/support.py\<close>: the registered arms,
  workloads and caps, the assignment order of the 600 slots (\<open>order\<close>), the
  schedule inventory (\<open>candidates\<close>) and the prerequisite markers.  The digest and
  the JSON printer are arguments.
\<close>

section \<open>The registered design\<close>

definition seed_e5 :: string where
  "seed_e5 = ''weavegate-e5-v1-20261019''"

definition arm_names :: "string list" where
  "arm_names = [''B0'', ''B1'', ''B2'', ''T-R'', ''T-E'']"

definition caps :: "string \<Rightarrow> nat option" where
  "caps = map_of (zip arm_names [120, 600, 900, 600, 900])"

definition workload_names :: "string list" where
  "workload_names = [''matching'', ''quota'', ''job'']"

definition variant_names :: "string list" where
  "variant_names = [''vulnerable'', ''fixed'']"

text \<open>A block of a cell: workload, variant, cache, block number.\<close>

type_synonym block_key = "string \<times> string \<times> string \<times> string"

record e5_slot =
  s_key :: block_key
  s_arm :: string
  s_id :: string
  s_ordinal :: nat
  s_attempt :: nat
  s_cap :: nat

section \<open>Assignment order\<close>

definition key_parts :: "block_key \<Rightarrow> string list" where
  "key_parts = (\<lambda>(w, v, c, b). [w, v, c, b])"

definition hashed :: "(string \<Rightarrow> string) \<Rightarrow> block_key \<Rightarrow> string \<Rightarrow> string" where
  "hashed sha key suffix = sha (join ''|'' (seed_e5 # key_parts key @ [suffix]))"

definition latin_rows :: "string list list" where
  "latin_rows = [[''B0'', ''B1'', ''T'', ''B2''], [''B1'', ''B2'', ''B0'', ''T''],
                 [''B2'', ''T'', ''B1'', ''B0''], [''T'', ''B0'', ''B2'', ''B1'']]"

definition cell_ids :: "string list" where
  "cell_ids = map (pad_nat 2) [1..<11]"

definition cell_blocks :: "(string \<Rightarrow> string) \<Rightarrow> string \<Rightarrow> string \<Rightarrow> string \<Rightarrow> (block_key \<times> string list) list" where
  "cell_blocks sha w v c = map (\<lambda>(rank, b). ((w, v, c, b), latin_rows ! (rank mod 4)))
     (enumerate 0 (sort_key (\<lambda>b. (hashed sha (w, v, c, b) ''arm-order'', b)) cell_ids))"

definition cells :: "(string \<times> string \<times> string) list" where
  "cells = concat (map (\<lambda>w. concat (map (\<lambda>v. map (\<lambda>c. (w, v, c)) [''cold'', ''warm'']) variant_names)) workload_names)"

definition all_blocks :: "(string \<Rightarrow> string) \<Rightarrow> (block_key \<times> string list) list" where
  "all_blocks sha = concat (map (\<lambda>(w, v, c). cell_blocks sha w v c) cells)"

text \<open>The arm \<open>T\<close> stands for its two sub-arms, whose order alternates with the block number.\<close>

definition sub_arms :: "block_key \<Rightarrow> string \<Rightarrow> string list" where
  "sub_arms key arm = (if arm = ''T'' then
       (if read_nat (snd (snd (snd key))) mod 2 \<noteq> 0 then [''T-R'', ''T-E''] else [''T-E'', ''T-R''])
     else [arm])"

definition block_runs :: "block_key \<times> string list \<Rightarrow> (block_key \<times> string) list" where
  "block_runs = (\<lambda>(key, arms). concat (map (\<lambda>arm. map (\<lambda>s. (key, s)) (sub_arms key arm)) arms))"

definition e5_order :: "(string \<Rightarrow> string) \<Rightarrow> e5_slot list" where
  "e5_order sha = map (\<lambda>(n, key, arm). \<lparr>s_key = key, s_arm = arm, s_id = join ''-'' (key_parts key @ [arm]),
       s_ordinal = n, s_attempt = 1, s_cap = the (caps arm)\<rparr>)
     (enumerate 1 (concat (map block_runs (sort_key (\<lambda>b. (hashed sha (fst b) ''sequence'', fst b)) (all_blocks sha)))))"

definition run_of :: "e5_slot \<Rightarrow> block_key \<times> string" where
  "run_of s = (s_key s, s_arm s)"

text \<open>Every workload, variant, cache, block and arm.\<close>

definition design :: "(block_key \<times> string) list" where
  "design = concat (map (\<lambda>(w, v, c). concat (map (\<lambda>b. map (\<lambda>a. ((w, v, c, b), a)) arm_names) cell_ids)) cells)"

lemma order_runs:
  "map run_of (e5_order sha) =
     concat (map block_runs (sort_key (\<lambda>b. (hashed sha (fst b) ''sequence'', fst b)) (all_blocks sha)))"
  by (simp add: e5_order_def run_of_def comp_def split_beta)

lemma mset_concat_map: "mset xs = mset ys \<Longrightarrow> mset (concat (map f xs)) = mset (concat (map f ys))"
  unfolding mset_concat sum_mset_sum_list [symmetric] mset_map by simp

lemma latin_row_arms: "r < 4 \<Longrightarrow> mset (latin_rows ! r) = {#''B0'', ''B1'', ''B2'', ''T''#}"
  by (cases r; simp add: latin_rows_def nth_Cons' add_mset_commute)+

lemma block_runs_mset:
  assumes "mset arms = {#''B0'', ''B1'', ''B2'', ''T''#}"
  shows "mset (block_runs (key, arms)) = mset (map (\<lambda>a. (key, a)) arm_names)"
proof -
  have "mset (block_runs (key, arms)) = mset (block_runs (key, [''B0'', ''B1'', ''B2'', ''T'']))"
    unfolding block_runs_def prod.case using assms by (intro mset_concat_map) simp
  also have "\<dots> = mset (map (\<lambda>a. (key, a)) arm_names)"
    by (simp add: block_runs_def sub_arms_def arm_names_def)
  finally show ?thesis .
qed

lemma cell_blocks_rows:
  "(key, arms) \<in> set (cell_blocks sha w v c) \<Longrightarrow> \<exists>r < 4. arms = latin_rows ! r"
  by (auto simp: cell_blocks_def intro: exI [of _ "_ mod 4"])

lemma cell_blocks_keys:
  "mset (map fst (cell_blocks sha w v c)) = mset (map (\<lambda>b. (w, v, c, b)) cell_ids)"
proof -
  let ?ids = "sort_key (\<lambda>b. (hashed sha (w, v, c, b) ''arm-order'', b)) cell_ids"
  have "map fst (cell_blocks sha w v c) = map (\<lambda>b. (w, v, c, b)) (map snd (enumerate 0 ?ids))"
    unfolding cell_blocks_def map_map comp_def split_beta by simp
  then have "map fst (cell_blocks sha w v c) = map (\<lambda>b. (w, v, c, b)) ?ids" by (simp only: map_snd_enumerate)
  then show ?thesis by simp
qed

lemma runs_of_blocks:
  assumes "\<And>b. b \<in> set bs \<Longrightarrow> mset (snd b) = {#''B0'', ''B1'', ''B2'', ''T''#}"
  shows "mset (concat (map block_runs bs)) = mset (concat (map (\<lambda>k. map (\<lambda>a. (k, a)) arm_names) (map fst bs)))"
  using assms
proof (induction bs)
  case (Cons b bs)
  have "mset (block_runs b) = mset (map (\<lambda>a. (fst b, a)) arm_names)"
    using block_runs_mset [of "snd b" "fst b"] Cons.prems by simp
  then show ?case using Cons by simp
qed simp

lemma order_runs_mset: "mset (map run_of (e5_order sha)) = mset design"
proof -
  let ?sorted = "sort_key (\<lambda>b. (hashed sha (fst b) ''sequence'', fst b)) (all_blocks sha)"
  have arms: "mset (snd b) = {#''B0'', ''B1'', ''B2'', ''T''#}" if mem: "b \<in> set (all_blocks sha)" for b
  proof -
    obtain key arms where b: "b = (key, arms)" by (cases b)
    then obtain w v c where "(key, arms) \<in> set (cell_blocks sha w v c)"
      using mem by (auto simp: all_blocks_def)
    then obtain r where "r < 4" "arms = latin_rows ! r" using cell_blocks_rows by blast
    then show ?thesis using b latin_row_arms by simp
  qed
  have "mset (map run_of (e5_order sha)) = mset (concat (map block_runs (all_blocks sha)))"
    unfolding order_runs by (rule mset_concat_map) simp
  also have "\<dots> = mset (concat (map (\<lambda>k. map (\<lambda>a. (k, a)) arm_names) (map fst (all_blocks sha))))"
    by (rule runs_of_blocks [OF arms])
  also have "\<dots> = mset (concat (map (\<lambda>k. map (\<lambda>a. (k, a)) arm_names)
      (concat (map (\<lambda>(w, v, c). map (\<lambda>b. (w, v, c, b)) cell_ids) cells))))"
  proof (rule mset_concat_map)
    have "mset (map fst (concat (map (\<lambda>(w, v, c). cell_blocks sha w v c) xs))) =
        mset (concat (map (\<lambda>(w, v, c). map (\<lambda>b. (w, v, c, b)) cell_ids) xs))" for xs
    proof (induction xs)
      case (Cons x xs)
      obtain w v c where x: "x = (w, v, c)" by (cases x)
      show ?case using Cons cell_blocks_keys [of sha w v c] unfolding x by simp
    qed simp
    then show "mset (map fst (all_blocks sha)) = mset (concat (map (\<lambda>(w, v, c). map (\<lambda>b. (w, v, c, b)) cell_ids) cells))"
      by (simp only: all_blocks_def)
  qed
  also have "concat (map (\<lambda>k. map (\<lambda>a. (k, a)) arm_names)
      (concat (map (\<lambda>(w, v, c). map (\<lambda>b. (w, v, c, b)) cell_ids) xs))) =
    concat (map (\<lambda>(w, v, c). concat (map (\<lambda>b. map (\<lambda>a. ((w, v, c, b), a)) arm_names) cell_ids)) xs)" for xs
    by (induction xs) (auto simp: comp_def)
  finally show ?thesis by (simp only: design_def)
qed

lemma cell_ids_eq: "cell_ids = [''01'', ''02'', ''03'', ''04'', ''05'', ''06'', ''07'', ''08'', ''09'', ''10'']"
proof -
  have "[1..<11] = [1, 2, 3, 4, 5, 6, 7, 8, 9, 10::nat]" by (simp add: upt_rec)
  then show ?thesis by (simp add: cell_ids_def pad_nat_def show_nat.simps char_of_def bit_Suc_0_iff)
qed

lemma length_cell_ids: "length cell_ids = 10"
  by (simp add: cell_ids_def)

lemma length_design: "length design = 600"
  by (simp add: design_def cells_def workload_names_def variant_names_def cell_ids_eq arm_names_def)

lemma distinct_design: "distinct design"
proof -
  have c: "distinct cells" by (simp add: cells_def workload_names_def variant_names_def)
  have b: "distinct cell_ids" "distinct arm_names" by (simp_all add: cell_ids_eq arm_names_def)
  have "distinct (concat (map (\<lambda>(w, v, c). concat (map (\<lambda>b. map (\<lambda>a. ((w, v, c, b), a)) arm_names) bs)) cs))"
    if "distinct cs" "distinct bs" for cs bs
    using that
  proof (induction cs)
    case (Cons x cs)
    obtain w v c where x: "x = (w, v, c)" by (cases x)
    have "distinct (concat (map (\<lambda>b. map (\<lambda>a. ((w, v, c, b), a)) arm_names) bs))"
      using Cons.prems(2) b(2)
    proof (induction bs)
      case (Cons y bs)
      then show ?case by (auto simp: distinct_map inj_on_def)
    qed simp
    then show ?case using Cons x by auto
  qed simp
  then show ?thesis using b(1) c unfolding design_def by blast
qed

text \<open>Distinct runs have distinct slot ids: only the arm can hold the separator.\<close>

definition slot_id :: "block_key \<times> string \<Rightarrow> string" where
  "slot_id = (\<lambda>(key, arm). join ''-'' (key_parts key @ [arm]))"

lemma first_part:
  "w @ CHR ''-'' # x = w' @ CHR ''-'' # x' \<Longrightarrow> CHR ''-'' \<notin> set w \<Longrightarrow> CHR ''-'' \<notin> set w' \<Longrightarrow> w = w' \<and> x = x'"
proof (induction w arbitrary: w')
  case Nil
  then show ?case by (cases w') auto
next
  case (Cons c w)
  then show ?case by (cases w') auto
qed

lemma design_parts:
  assumes "((w, v, c, b), a) \<in> set design"
  shows "CHR ''-'' \<notin> set w \<and> CHR ''-'' \<notin> set v \<and> CHR ''-'' \<notin> set c \<and> CHR ''-'' \<notin> set b"
proof -
  have "w \<in> set workload_names" "v \<in> set variant_names" "c \<in> set [''cold'', ''warm'']" "b \<in> set cell_ids"
    using assms by (auto simp: design_def cells_def)
  then show ?thesis by (auto simp: workload_names_def variant_names_def cell_ids_eq)
qed

lemma inj_slot_id: "inj_on slot_id (set design)"
proof (rule inj_onI)
  fix x y assume xy: "x \<in> set design" "y \<in> set design" "slot_id x = slot_id y"
  obtain w v c b a where x: "x = ((w, v, c, b), a)" by (cases x) auto
  obtain w' v' c' b' a' where y: "y = ((w', v', c', b'), a')" by (cases y) auto
  note px = design_parts [OF xy(1) [unfolded x]] and py = design_parts [OF xy(2) [unfolded y]]
  have "w @ CHR ''-'' # (v @ CHR ''-'' # (c @ CHR ''-'' # (b @ CHR ''-'' # a))) =
      w' @ CHR ''-'' # (v' @ CHR ''-'' # (c' @ CHR ''-'' # (b' @ CHR ''-'' # a')))"
    using xy(3) by (simp add: x y slot_id_def key_parts_def)
  then show "x = y" using px py first_part unfolding x y by metis
qed

lemma order_ids: "map s_id (e5_order sha) = map slot_id (map run_of (e5_order sha))"
  by (simp add: e5_order_def slot_id_def run_of_def split_beta)

text \<open>In every cell the four rows of the Latin square are used three, three, two and two times.\<close>

lemma cell_rows: "map snd (cell_blocks sha w v c) = map (\<lambda>k. latin_rows ! (k mod 4)) [0..<10]"
proof -
  let ?ids = "sort_key (\<lambda>b. (hashed sha (w, v, c, b) ''arm-order'', b)) cell_ids"
  have "map snd (cell_blocks sha w v c) = map (\<lambda>k. latin_rows ! (k mod 4)) (map fst (enumerate 0 ?ids))"
    unfolding cell_blocks_def map_map comp_def split_beta by simp
  then show ?thesis by (simp add: length_cell_ids)
qed

definition row_count :: "string list \<Rightarrow> (block_key \<times> string list) list \<Rightarrow> nat" where
  "row_count row bs = length (filter (\<lambda>r. r = row) (map snd bs))"

lemma cell_row_count:
  assumes "r < 4"
  shows "row_count (latin_rows ! r) (cell_blocks sha w v c) = (if r < 2 then 3 else 2)"
proof -
  have ten: "[0..<10] = [0, 1, 2, 3, 4, 5, 6, 7, 8, 9::nat]" by (simp add: upt_rec)
  have "r = 0 \<or> r = 1 \<or> r = 2 \<or> r = 3" using assms by linarith
  then show ?thesis
    unfolding row_count_def cell_rows ten by (elim disjE) (simp_all add: latin_rows_def)
qed

section \<open>The schedule inventory\<close>

type_synonym sched_step = "string \<times> string"

definition sched_points :: "string \<Rightarrow> string list" where
  "sched_points w = (if w = ''matching'' then [''after_read_request'', ''before_insert_assignment'']
     else [''before_read'', ''after_read'', ''before_write'', ''after_commit''])"

text \<open>\<open>walk\<close>: the positions of the two workers and the steps so far; depth first, worker 1 first.\<close>

function walk :: "string list \<Rightarrow> nat \<Rightarrow> nat \<Rightarrow> sched_step list \<Rightarrow> sched_step list list" where
  "walk points i j steps =
     (if i = length points \<and> j = length points then [steps] else []) @
     (if i < length points then walk points (Suc i) j (steps @ [(''w1'', points ! i)]) else []) @
     (if j < length points then walk points i (Suc j) (steps @ [(''w2'', points ! j)]) else [])"
  by pat_completeness auto
termination
  by (relation "measure (\<lambda>(points, i, j, steps). (length points - i) + (length points - j))") auto

declare walk.simps [simp del]

record candidate =
  cand_id :: string
  cand_steps :: "sched_step list"

definition candidates :: "(string \<Rightarrow> string) \<Rightarrow> (sched_step list \<Rightarrow> string) \<Rightarrow> string \<Rightarrow> candidate list" where
  "candidates sha dumps w = map (\<lambda>steps. \<lparr>cand_id = ''sch_'' @ take 12 (sha (dumps steps)), cand_steps = steps\<rparr>)
     (walk (sched_points w) 0 0 [])"

definition lane :: "string \<Rightarrow> string list \<Rightarrow> sched_step list" where
  "lane w points = map (\<lambda>p. (w, p)) points"

lemma lane_drop:
  "i < length points \<Longrightarrow> lane w (drop i points) = (w, points ! i) # lane w (drop (Suc i) points)"
  by (simp add: lane_def Cons_nth_drop_Suc [symmetric])

lemma walk_set:
  "i \<le> length points \<Longrightarrow> j \<le> length points \<Longrightarrow>
     set (walk points i j steps) = (\<lambda>t. steps @ t) ` shuffles (lane ''w1'' (drop i points)) (lane ''w2'' (drop j points))"
proof (induction points i j steps rule: walk.induct)
  case (1 points i j steps)
  note IH1 = "1.IH"(1) and IH2 = "1.IH"(2)
  consider (fin) "i = length points" "j = length points" | (one) "i < length points" "j = length points"
    | (two) "i = length points" "j < length points" | (both) "i < length points" "j < length points"
    using "1.prems" by linarith
  then show ?case
  proof cases
    case fin
    then show ?thesis by (simp add: walk.simps [of points "length points" "length points"] lane_def)
  next
    case one
    then have "set (walk points i j steps) = set (walk points (Suc i) j (steps @ [(''w1'', points ! i)]))"
      unfolding walk.simps [of points i j] by simp
    also have "\<dots> = (\<lambda>t. steps @ t) ` shuffles (lane ''w1'' (drop i points)) (lane ''w2'' (drop j points))"
      using IH1 one by (simp add: lane_drop) (simp add: lane_def)
    finally show ?thesis .
  next
    case two
    then have "set (walk points i j steps) = set (walk points i (Suc j) (steps @ [(''w2'', points ! j)]))"
      unfolding walk.simps [of points i j] by simp
    also have "\<dots> = (\<lambda>t. steps @ t) ` shuffles (lane ''w1'' (drop i points)) (lane ''w2'' (drop j points))"
      using IH2 two by (simp add: lane_drop) (simp add: lane_def)
    finally show ?thesis .
  next
    case both
    then have "set (walk points i j steps) = set (walk points (Suc i) j (steps @ [(''w1'', points ! i)])) \<union>
        set (walk points i (Suc j) (steps @ [(''w2'', points ! j)]))"
      unfolding walk.simps [of points i j] by simp
    also have "\<dots> = (\<lambda>t. steps @ t) ` shuffles (lane ''w1'' (drop i points)) (lane ''w2'' (drop j points))"
      using IH1 IH2 both
      by (simp add: lane_drop image_Un image_image)
    finally show ?thesis .
  qed
qed

text \<open>Lexicographic order of the worker sequences.\<close>

definition lex_less :: "sched_step list \<Rightarrow> sched_step list \<Rightarrow> bool" where
  "lex_less s t = (map fst s < map fst t)"

lemma lex_less_eq: "lex_less = (\<lambda>s t. map fst s < map fst t)"
  by (intro ext) (simp add: lex_less_def)

lemma walk_prefix: "t \<in> set (walk points i j steps) \<Longrightarrow> \<exists>u. t = steps @ u"
proof (induction points i j steps rule: walk.induct)
  case (1 points i j steps)
  from "1.prems" show ?case
    unfolding walk.simps [of points i j] using "1.IH" by (fastforce split: if_splits)
qed

lemma walk_sorted: "sorted_wrt lex_less (walk points i j steps)"
proof (induction points i j steps rule: walk.induct)
  case (1 points i j steps)
  let ?a = "if i < length points then walk points (Suc i) j (steps @ [(''w1'', points ! i)]) else []"
  let ?b = "if j < length points then walk points i (Suc j) (steps @ [(''w2'', points ! j)]) else []"
  have "lex_less s t" if st: "s \<in> set ?a" "t \<in> set ?b" for s t
  proof -
    have mem: "s \<in> set (walk points (Suc i) j (steps @ [(''w1'', points ! i)]))"
      "t \<in> set (walk points i (Suc j) (steps @ [(''w2'', points ! j)]))"
      using st by (simp_all split: if_splits)
    from walk_prefix [OF mem(1)] walk_prefix [OF mem(2)] obtain u v
      where "s = (steps @ [(''w1'', points ! i)]) @ u" "t = (steps @ [(''w2'', points ! j)]) @ v" by blast
    then show ?thesis
      by (simp add: lex_less_def list_less_def lexord_append_leftI)
  qed
  moreover have "sorted_wrt lex_less ?a" "sorted_wrt lex_less ?b" using "1.IH" by auto
  moreover have "?a = [] \<and> ?b = []" if "i = length points \<and> j = length points" using that by simp
  ultimately show ?case
    unfolding walk.simps [of points i j] sorted_wrt_append by (cases "i = length points \<and> j = length points") auto
qed

lemma choose_values: "(4 choose 2) = (6::nat)" "(8 choose 4) = (70::nat)"
  by code_simp+

section \<open>Prerequisite markers\<close>

definition baseline_marker :: "string \<Rightarrow> string \<Rightarrow> string" where
  "baseline_marker w v = ''E5_BASELINE_RESULT workload='' @ w @ '' variant='' @ v @
     '' executions=20 proxy=original hooks=inactive oracle=existing resets=checked cleanup=proved''"

definition corpus_marker :: "string \<Rightarrow> string \<Rightarrow> string \<Rightarrow> string" where
  "corpus_marker f ord v = (let violation = (ord = ''overlap'' \<and> v = ''vulnerable'') in
     ''SPRING_CORPUS_RESULT fixture='' @ f @ '' order='' @ ord @ '' variant='' @ v @ '' repeat=20 exit='' @
     show_nat (if violation then 2 else 0) @ '' violation_runs='' @ show_nat (if violation then 20 else 0) @
     '' fingerprints=1 requested=realized timeouts=0 resets=checked jvm=reaped connections=closed'')"

definition prerequisite_markers :: "string \<Rightarrow> string list" where
  "prerequisite_markers k =
     (if k = ''baseline_feasibility'' then
        concat (map (\<lambda>w. map (\<lambda>v. baseline_marker w v) variant_names) workload_names)
      else if k = ''corpus_acceptance'' then
        concat (map (\<lambda>f. concat (map (\<lambda>ord. map (\<lambda>v. corpus_marker f ord v) variant_names) [''serial'', ''overlap'']))
          [''spring-quota'', ''spring-job-claim''])
      else [])"

section \<open>Properties\<close>

text \<open>
  Whatever the digest, the assignment order schedules the registered design and nothing else: 600
  slots numbered 1 to 600, one for every workload, variant, cache, block and arm, with distinct ids, and
  in every cell the four rows of the Latin square are used three, three, two and two times.
\<close>

theorem e5_order_complete:
  "length (e5_order sha) = 600 \<and> map s_ordinal (e5_order sha) = [1..<601] \<and>
   mset (map run_of (e5_order sha)) = mset design \<and> distinct (map s_id (e5_order sha)) \<and>
   map (\<lambda>r. row_count (latin_rows ! r) (cell_blocks sha w v c)) [0, 1, 2, 3] = [3, 3, 2, 2]"
proof -
  have len: "length (e5_order sha) = 600"
    using order_runs_mset [of sha] length_design by (metis length_map mset_eq_length)
  have "map s_ordinal (e5_order sha) = map fst (enumerate 1 (map run_of (e5_order sha)))"
    unfolding order_runs e5_order_def map_map comp_def split_beta by simp
  then have ord: "map s_ordinal (e5_order sha) = [1..<601]" using len by simp
  have set_eq: "set (map run_of (e5_order sha)) = set design" using order_runs_mset by (rule mset_eq_setD)
  have "distinct (map run_of (e5_order sha))"
    using order_runs_mset [of sha] distinct_design mset_eq_imp_distinct_iff by blast
  then have "distinct (map slot_id (map run_of (e5_order sha)))"
    using inj_slot_id unfolding distinct_map [of slot_id] set_eq by blast
  then have ids: "distinct (map s_id (e5_order sha))" unfolding order_ids .
  show ?thesis using len ord order_runs_mset [of sha] ids by (simp add: cell_row_count)
qed

text \<open>
  The schedule inventory of a workload is exactly the set of interleavings of the two workers'
  points, each once, in lexicographic order of the worker sequence: 6 for matching and 70 otherwise.
\<close>

theorem candidates_exact:
  "set (map cand_steps (candidates sha dumps w)) =
     shuffles (lane ''w1'' (sched_points w)) (lane ''w2'' (sched_points w)) \<and>
   sorted_wrt lex_less (map cand_steps (candidates sha dumps w)) \<and> distinct (map cand_steps (candidates sha dumps w)) \<and>
   length (candidates sha dumps w) = (if w = ''matching'' then 6 else 70)"
proof -
  let ?p = "sched_points w"
  have steps: "map cand_steps (candidates sha dumps w) = walk ?p 0 0 []"
    by (simp add: candidates_def comp_def)
  have sh: "set (walk ?p 0 0 []) = shuffles (lane ''w1'' ?p) (lane ''w2'' ?p)"
    using walk_set [of 0 ?p 0 "[]"] by simp
  have srt: "sorted_wrt lex_less (walk ?p 0 0 [])" by (rule walk_sorted)
  then have dist: "distinct (walk ?p 0 0 [])"
    using strict_sorted_iff [of "map (map fst) (walk ?p 0 0 [])"]
    by (simp add: sorted_wrt_map lex_less_eq distinct_map)
  have "card (set (walk ?p 0 0 [])) = (length ?p + length ?p) choose length ?p"
    unfolding sh by (subst card_disjoint_shuffles) (auto simp: lane_def)
  then have "length (walk ?p 0 0 []) = (length ?p + length ?p) choose length ?p"
    using dist by (simp add: distinct_card)
  also have "\<dots> = (if w = ''matching'' then 6 else 70)"
    using choose_values by (simp add: sched_points_def)
  finally have "length (candidates sha dumps w) = (if w = ''matching'' then 6 else 70)"
    by (simp add: candidates_def)
  then show ?thesis using sh srt dist unfolding steps by blast
qed

end
