(* ===== verification/Support.thy ===== *)
theory Support
  imports Slots Frames
begin

text \<open>
  The manifest checks of the E5 runner,
  \<open>experiments/control-comparison/runner/support.py\<close>: disclosures
  (\<open>campaign_deviations\<close>, \<open>campaign_id\<close>, \<open>unsupported_declarations\<close>,
  \<open>resource_observations\<close>), command records (\<open>command_valid\<close>, \<open>command_config\<close>,
  \<open>command_output\<close>) and the effective configuration (\<open>config_document\<close>).

  The file system questions a check asks (does the file exist) and the JSON reader are
  arguments.  \<open>urlsplit\<close> is modelled as far as \<open>unsupported_declarations\<close> reads
  it; the address test of a bracketed host (\<open>ipaddress\<close>) is an argument.
\<close>

section \<open>Disclosures\<close>

text \<open>\<open>m.get(k, d)\<close> on the manifest, which is a dict.\<close>

definition mget :: "pv \<Rightarrow> string \<Rightarrow> pv \<Rightarrow> pv" where
  "mget m k d = (case map_of (items_of m) k of Some x \<Rightarrow> x | None \<Rightarrow> d)"

definition nonblank :: "pv \<Rightarrow> bool" where
  "nonblank v = (is_str v \<and> strip (str_of v) \<noteq> [])"

definition campaign_deviations :: "pv \<Rightarrow> pv res" where
  "campaign_deviations m = (let v = mget m ''deviations'' (PList []) in
     require (is_list v \<and> list_all nonblank (elems_of v)) ''deviations must be a list of nonempty descriptions'' (Inr v))"

definition id_char :: "char \<Rightarrow> bool" where
  "id_char c = (is_alnum c \<or> c = CHR ''.'' \<or> c = CHR ''_'' \<or> c = CHR ''-'')"

definition campaign_id :: "pv \<Rightarrow> pv res" where
  "campaign_id m = (let v = mget m ''campaign_id'' PNone in
     require (is_str v \<and> (case str_of v of [] \<Rightarrow> False | c # cs \<Rightarrow> is_alnum c \<and> list_all id_char cs))
       ''campaign ID must start with an ASCII letter or digit and contain only letters, digits, dot, underscore or hyphen''
       (Inr v))"

text \<open>\<open>s.partition(c)\<close> and \<open>s.rpartition(c)\<close>: the parts and whether the separator occurs.\<close>

fun partition_on :: "char \<Rightarrow> string \<Rightarrow> string \<times> bool \<times> string" where
  "partition_on c [] = ([], False, [])"
| "partition_on c (x # s) = (if x = c then ([], True, s)
     else (case partition_on c s of (a, f, b) \<Rightarrow> (x # a, f, b)))"

definition rpartition_on :: "char \<Rightarrow> string \<Rightarrow> string \<times> bool \<times> string" where
  "rpartition_on c s = (case partition_on c (rev s) of
     (b, True, a) \<Rightarrow> (rev a, True, rev b) | (b, False, a) \<Rightarrow> ([], False, s))"

definition lower_char :: "char \<Rightarrow> char" where
  "lower_char c = (let n = char_code c in
     if is_upper c \<or> (192 \<le> n \<and> n \<le> 222 \<and> n \<noteq> 215) then char_of (n + 32) else c)"

definition scheme_char :: "char \<Rightarrow> bool" where
  "scheme_char c = (is_alnum c \<or> c = CHR ''+'' \<or> c = CHR ''-'' \<or> c = CHR ''.'')"

record url =
  url_scheme :: string
  url_netloc :: string
  url_path :: string

definition split_scheme :: "string \<Rightarrow> string \<times> string" where
  "split_scheme s = (case partition_on (CHR '':'') s of (a, found, b) \<Rightarrow>
     if found \<and> a \<noteq> [] \<and> (is_lower (hd a) \<or> is_upper (hd a)) \<and> list_all scheme_char a
     then (map lower_char a, b) else ([], s))"

definition urlsplit :: "(string \<Rightarrow> bool) \<Rightarrow> string \<Rightarrow> url res" where
  "urlsplit address_ok s = (case split_scheme s of (scheme, rest) \<Rightarrow>
     let stop = (\<lambda>c. c = CHR ''/'' \<or> c = CHR ''?'' \<or> c = CHR ''#'');
         has_net = startswith rest ''//'';
         netloc = (if has_net then takeWhile (\<lambda>c. \<not> stop c) (drop 2 rest) else []);
         tail = (if has_net then dropWhile (\<lambda>c. \<not> stop c) (drop 2 rest) else rest);
         path = takeWhile (\<lambda>c. c \<noteq> CHR ''?'' \<and> c \<noteq> CHR ''#'') tail;
         opened = (CHR ''['' \<in> set netloc); closed = (CHR '']'' \<in> set netloc)
     in if opened \<noteq> closed then Inl (ValueError ''Invalid IPv6 URL'')
        else if opened \<and> \<not> address_ok netloc then Inl (ValueError ''Invalid IPv6 URL'')
        else Inr \<lparr>url_scheme = scheme, url_netloc = netloc, url_path = path\<rparr>)"

definition url_host_port :: "url \<Rightarrow> string \<times> string" where
  "url_host_port u = (let hostinfo = snd (snd (rpartition_on (CHR ''@'') (url_netloc u))) in
     case partition_on (CHR ''['') hostinfo of (a, opened, bracketed) \<Rightarrow>
       if opened then (case partition_on (CHR '']'') bracketed of (host, f, rest) \<Rightarrow>
           (host, snd (snd (partition_on (CHR '':'') rest))))
       else (case partition_on (CHR '':'') hostinfo of (host, f, port) \<Rightarrow> (host, port)))"

text \<open>\<open>parsed.port\<close>: absent when empty, a ValueError when not a number up to 65535.\<close>

definition url_port :: "url \<Rightarrow> nat option res" where
  "url_port u = (let p = snd (url_host_port u) in
     if p = [] then Inr None
     else if list_all is_digit p \<and> read_nat p \<le> 65535 then Inr (Some (read_nat p))
     else Inl (ValueError ''Port could not be cast to integer value''))"

text \<open>The URL test of an unsupported declaration; a ValueError of the parser makes it false.\<close>

definition issue_url_ok :: "(string \<Rightarrow> bool) \<Rightarrow> string \<Rightarrow> bool" where
  "issue_url_ok address_ok s = (case urlsplit address_ok s of
     Inl _ \<Rightarrow> False
   | Inr u \<Rightarrow>
       (let userinfo = fst (snd (rpartition_on (CHR ''@'') (url_netloc u))) in
        if url_scheme u = ''https'' \<and> fst (url_host_port u) \<noteq> [] \<and> url_path u \<noteq> [] \<and> url_path u \<noteq> ''/'' \<and> \<not> userinfo
        then (case url_port u of Inl _ \<Rightarrow> False | Inr None \<Rightarrow> True | Inr (Some p) \<Rightarrow> 0 < p)
        else False))"

definition url_char_bad :: "char \<Rightarrow> bool" where
  "url_char_bad c = (is_space c \<or> char_code c < 32 \<or> char_code c = 127)"

definition declaration_keys :: "string list" where
  "declaration_keys = concat (map (\<lambda>w. map (\<lambda>a. w @ ''/'' @ a) arm_names) workload_names)"

definition declaration_ok :: "(string \<Rightarrow> bool) \<Rightarrow> string \<times> pv \<Rightarrow> unit res" where
  "declaration_ok address_ok = (\<lambda>(key, v).
     require (key \<in> set declaration_keys) (''unsupported workload/arm is not registered: '' @ key) (
     require (has_keys v [''issue_url'', ''reason'']) ''unsupported declaration requires issue_url and reason'' (
     require (nonblank (fld v ''reason'')) ''unsupported reason required'' (
     require (is_str (fld v ''issue_url'') \<and> str_of (fld v ''issue_url'') \<noteq> [] \<and>
         \<not> list_ex url_char_bad (str_of (fld v ''issue_url''))) ''unsupported issue URL invalid'' (
     require (issue_url_ok address_ok (str_of (fld v ''issue_url'')))
       ''unsupported issue URL must identify an HTTPS issue without credentials'' (Inr ()))))))"

definition unsupported_declarations :: "(string \<Rightarrow> bool) \<Rightarrow> pv \<Rightarrow> pv res" where
  "unsupported_declarations address_ok m = (let d = mget m ''unsupported'' (PDict []) in
     require (is_dict d) ''unsupported must be a workload/arm mapping'' (
     ebind (efor (declaration_ok address_ok) (items_of d)) (\<lambda>_. Inr d)))"

section \<open>Resource observations\<close>

definition resource_counters :: "string list" where
  "resource_counters = [''cpu_seconds'', ''memory_bytes'', ''container_creations'', ''evidence_bytes'', ''cache_bytes'']"

definition unavailable_resources :: "string \<Rightarrow> pv" where
  "unavailable_resources reason =
     PDict (map (\<lambda>n. (n, PDict [(''value'', PNone), (''reason'', PStr reason)])) resource_counters)"

definition text_field :: "pv \<Rightarrow> string \<Rightarrow> bool" where
  "text_field r k = nonblank (fld r k)"

text \<open>A counter that was observed: its type and range, and the metadata it must carry.\<close>

definition observed_ok :: "string \<Rightarrow> pv \<Rightarrow> unit res" where
  "observed_ok name r = (let v = fld r ''value'' in
     require ((is_int v \<or> (name = ''cpu_seconds'' \<and> is_num v)) \<and> py_le (PInt 0) v = Inr True \<and>
         (case v of PFloat f \<Rightarrow> is_finite f | _ \<Rightarrow> True)) (''resource value invalid: '' @ name) (
     require (text_field r ''scope'') (''resource counter scope required: '' @ name) (
     if name = ''memory_bytes'' then
       require (str_in (fld r ''method'') [''sampled'', ''high_water_mark'']) ''resource memory method required'' (
       if fld r ''method'' = PStr ''sampled'' then
         require (fld r ''cadence_ms'' = PInt 100 \<and> text_field r ''limitation'') ''resource memory cadence/limitation required'' (
         require (has_keys r [''value'', ''scope'', ''method'', ''cadence_ms'', ''limitation''])
           (''resource counter metadata differs: '' @ name) (Inr ()))
       else require (has_keys r [''value'', ''scope'', ''method'']) (''resource counter metadata differs: '' @ name) (Inr ()))
     else require (has_keys r [''value'', ''scope'']) (''resource counter metadata differs: '' @ name) (Inr ()))))"

definition resource_ok :: "string \<times> pv \<Rightarrow> unit res" where
  "resource_ok = (\<lambda>(name, r).
     require (is_dict r \<and> has_key r ''value'') (''resource value required: '' @ name) (
     if fld r ''value'' = PNone then
       require (text_field r ''reason'') (''resource null reason required: '' @ name) (
       require (has_keys r [''value'', ''reason'']) (''resource null metadata differs: '' @ name) (Inr ()))
     else observed_ok name r))"

definition resource_observations :: "pv \<Rightarrow> pv res" where
  "resource_observations v =
     require (has_keys v resource_counters) ''resource counter inventory differs'' (
     ebind (efor resource_ok (items_of v)) (\<lambda>_. Inr v))"

section \<open>Commands\<close>

definition no_nul :: "string \<Rightarrow> bool" where
  "no_nul s = (char_of (0::nat) \<notin> set s)"

definition env_ok :: "string \<times> pv \<Rightarrow> bool" where
  "env_ok = (\<lambda>(k, v). k \<noteq> [] \<and> CHR ''='' \<notin> set k \<and> is_str v \<and> no_nul k \<and> no_nul (str_of v))"

definition command_valid :: "(string \<Rightarrow> bool) \<Rightarrow> pv \<Rightarrow> unit res" where
  "command_valid file_exists spec = (let argv = elems_of (fld spec ''argv'') in
     require (is_dict spec \<and> is_list (fld spec ''argv'') \<and> argv \<noteq> []) ''command argv required'' (
     require (list_all (\<lambda>a. is_str a \<and> no_nul (str_of a)) argv) ''invalid argv'' (
     require (is_absolute (str_of (hd argv))) ''absolute executable required'' (
     require (file_exists (str_of (hd argv))) ''executable file required'' (
     require (is_str (fld spec ''cwd'') \<and> is_absolute (str_of (fld spec ''cwd''))) ''absolute cwd required'' (
     require (is_dict (fld spec ''env'') \<and> list_all env_ok (items_of (fld spec ''env''))) ''allowlisted env required'' (
     efor (\<lambda>k. if k = ''timeout_seconds'' \<or> has_key spec k then
         require (positive (fld spec k)) (k @ '' must be a finite positive number'') (Inr ()) else Inr ())
       [''timeout_seconds'', ''cancel_grace_seconds''])))))))"

text \<open>The values an option is given in an argument vector, in the separate or the \<open>=\<close> form.\<close>

fun option_values :: "string \<Rightarrow> string \<Rightarrow> string list \<Rightarrow> string list res" where
  "option_values name missing [] = Inr []"
| "option_values name missing (a # rest) =
     (if a = ''--'' @ name \<or> a = ''-'' @ name then
        (case rest of [] \<Rightarrow> Inl (ValueError missing)
         | v # _ \<Rightarrow> ebind (option_values name missing rest) (\<lambda>vs. Inr (v # vs)))
      else if startswith a (''--'' @ name @ ''='') \<or> startswith a (''-'' @ name @ ''='') then
        ebind (option_values name missing rest) (\<lambda>vs. Inr (snd (snd (partition_on (CHR ''='') a)) # vs))
      else option_values name missing rest)"

definition command_output :: "string list \<Rightarrow> unit res" where
  "command_output argv =
     require (''--'' \<notin> set argv) ''output command option terminator is unsupported'' (
     ebind (option_values ''out'' ''output path required'' argv) (\<lambda>paths.
     require (paths = [''{trial_dir}/raw'']) ''one output destination {trial_dir}/raw required'' (Inr ())))"

section \<open>The effective configuration\<close>

text \<open>\<open>re.sub(r'([A-Z]+)([A-Z][a-z])', r'\1_\2', s)\<close>: a run of at least two capitals followed by a
  lower case letter is split before its last capital; matching resumes after the lower case letter.\<close>

lemma dropWhile_shorter: "dropWhile p s = c # s' \<Longrightarrow> length s' < length s"
  using length_dropWhile_le [of p s] by simp

function split_caps :: "string \<Rightarrow> string" where
  "split_caps s = (let caps = takeWhile is_upper s; rest = dropWhile is_upper s in
     if 2 \<le> length caps then
       (case rest of
          c # rest' \<Rightarrow> if is_lower c then butlast caps @ ''_'' @ [last caps, c] @ split_caps rest'
                      else caps @ c # split_caps rest'
        | [] \<Rightarrow> caps)
     else (case s of [] \<Rightarrow> [] | c # s' \<Rightarrow> c # split_caps s'))"
  by pat_completeness auto
termination
proof (relation "measure length")
  show "wf (measure length)" by simp
qed (auto dest!: sym [of _ "dropWhile is_upper _"] simp: less_Suc_eq_le dest: dropWhile_shorter)

declare split_caps.simps [simp del]

text \<open>\<open>re.sub(r'([a-z0-9])([A-Z])', r'\1_\2', s)\<close>\<close>

fun split_words :: "string \<Rightarrow> string" where
  "split_words (c # d # s) =
     (if (is_lower c \<or> is_digit c) \<and> is_upper d then c # CHR ''_'' # d # split_words s
      else c # split_words (d # s))"
| "split_words s = s"

definition snake :: "string \<Rightarrow> string" where
  "snake name = map lower_char (split_words (split_caps name))"

text \<open>Assignment to a dict key: replace in place or append.\<close>

fun put :: "string \<Rightarrow> 'a \<Rightarrow> (string \<times> 'a) list \<Rightarrow> (string \<times> 'a) list" where
  "put k v [] = [(k, v)]"
| "put k v ((k', v') # d) = (if k = k' then (k, v) # d else (k', v') # put k v d)"

fun config_document :: "pv \<Rightarrow> pv res"
and config_list :: "pv list \<Rightarrow> pv list res"
and config_items :: "(string \<times> pv) list \<Rightarrow> (string \<times> pv) list \<Rightarrow> (string \<times> pv) list res"
and config_values :: "(string \<times> pv) list \<Rightarrow> (string \<times> pv) list res" where
  "config_document (PList xs) = ebind (config_list xs) (\<lambda>ys. Inr (PList ys))"
| "config_document (PDict d) = ebind (config_items d []) (\<lambda>e. Inr (PDict e))"
| "config_document (PStr s) = Inr (PStr s)"
| "config_document (PInt i) = Inr (PInt i)"
| "config_document (PFloat f) = Inr (PFloat f)"
| "config_document (PBool b) = Inr (PBool b)"
| "config_document PNone = Inr PNone"
| "config_list [] = Inr []"
| "config_list (x # xs) = ebind (config_document x) (\<lambda>y. ebind (config_list xs) (\<lambda>ys. Inr (y # ys)))"
| "config_items [] acc = Inr acc"
| "config_items ((k, v) # d) acc = ebind
     (if k = ''Scenarios'' then (case v of
          PDict e \<Rightarrow> ebind (config_values e) (\<lambda>e'. Inr (PDict e'))
        | _ \<Rightarrow> Inl (AttributeError ''items''))
      else if k = ''Args'' then Inr v else config_document v) (\<lambda>v'. config_items d (put (snake k) v' acc))"
| "config_values [] = Inr []"
| "config_values ((k, v) # d) = ebind (config_document v) (\<lambda>v'. ebind (config_values d) (\<lambda>d'. Inr ((k, v') # d')))"

definition command_config :: "(string \<Rightarrow> pv res) \<Rightarrow> string \<Rightarrow> string list \<Rightarrow> pv \<Rightarrow> unit res" where
  "command_config read_config cwd argv expected =
     require (''--'' \<notin> set argv) ''config command option terminator is unsupported'' (
     ebind (option_values ''config'' ''config path required'' argv) (\<lambda>paths.
     require (length paths = 1 \<and> hd paths \<noteq> [] \<and> CHR ''{'' \<notin> set (hd paths)) ''one explicit frozen config required'' (
     let path = (if is_absolute (hd paths) then hd paths else cwd @ ''/'' @ hd paths) in
     ebind (case read_config path of
         Inl e \<Rightarrow> Inl (if is_value_error e \<or> os_error e then ValueError (''command config must be JSON-subset YAML: '' @ path) else e)
       | Inr d \<Rightarrow> Inr d) (\<lambda>document.
     ebind (getitem expected ''config'') (\<lambda>config.
     ebind (config_document config) (\<lambda>frozen.
     require (json_equal document frozen) ''command config differs from frozen effective config'' (Inr ())))))))"

section \<open>Lemmas\<close>

lemma option_values_cons:
  assumes "option_values name m (a # rest) = Inr vs"
  shows "\<exists>vs'. option_values name m rest = Inr vs' \<and>
       (if a = ''--'' @ name \<or> a = ''-'' @ name then (\<exists>v t. rest = v # t \<and> vs = v # vs')
        else if startswith a (''--'' @ name @ ''='') \<or> startswith a (''-'' @ name @ ''='')
        then vs = snd (snd (partition_on (CHR ''='') a)) # vs' else vs = vs')"
proof (cases "a = ''--'' @ name \<or> a = ''-'' @ name")
  case True
  show ?thesis
  proof (cases rest)
    case Nil
    then show ?thesis using assms unfolding option_values.simps(2) if_P [OF True] by simp
  next
    case (Cons v t)
    then obtain vs' where "option_values name m rest = Inr vs'" "vs = v # vs'"
      using assms unfolding option_values.simps(2) [of name m a] if_P [OF True] Cons
      by (auto simp: ebind_eq_Inr simp del: option_values.simps)
    then show ?thesis using Cons unfolding if_P [OF True] by blast
  qed
next
  case False
  show ?thesis
    using assms unfolding option_values.simps(2) if_not_P [OF False]
    by (cases "startswith a (''--'' @ name @ ''='') \<or> startswith a (''-'' @ name @ ''='')") (auto simp: ebind_eq_Inr)
qed

text \<open>How often an argument vector sets an option.\<close>

definition sets_option :: "string \<Rightarrow> string \<Rightarrow> bool" where
  "sets_option name a = (a = ''--'' @ name \<or> a = ''-'' @ name \<or>
     startswith a (''--'' @ name @ ''='') \<or> startswith a (''-'' @ name @ ''=''))"

definition option_value_at :: "string \<Rightarrow> string list \<Rightarrow> nat \<Rightarrow> string option" where
  "option_value_at name argv i =
     (if argv ! i = ''--'' @ name \<or> argv ! i = ''-'' @ name then
        (if Suc i < length argv then Some (argv ! Suc i) else None)
      else Some (snd (snd (partition_on (CHR ''='') (argv ! i)))))"

lemma option_value_Cons: "option_value_at name (a # argv) (Suc i) = option_value_at name argv i"
  by (simp add: option_value_at_def)

lemma option_values_all:
  "option_values name m argv = Inr vs \<Longrightarrow>
     length vs = length (filter (sets_option name) argv) \<and>
     (\<forall>i < length argv. sets_option name (argv ! i) \<longrightarrow> (\<exists>v \<in> set vs. option_value_at name argv i = Some v))"
proof (induction argv arbitrary: vs)
  case (Cons a argv)
  obtain vs' where vs': "option_values name m argv = Inr vs'"
    and c: "if a = ''--'' @ name \<or> a = ''-'' @ name then (\<exists>v t. argv = v # t \<and> vs = v # vs')
        else if startswith a (''--'' @ name @ ''='') \<or> startswith a (''-'' @ name @ ''='')
        then vs = snd (snd (partition_on (CHR ''='') a)) # vs' else vs = vs'"
    using option_values_cons [OF Cons.prems] by blast
  note IH = Cons.IH [OF vs']
  have sub: "set vs' \<subseteq> set vs" using c by (auto split: if_splits)
  have head: "sets_option name a \<Longrightarrow> \<exists>v \<in> set vs. option_value_at name (a # argv) 0 = Some v"
    using c by (auto simp: option_value_at_def sets_option_def split: if_splits)
  have "\<exists>v \<in> set vs. option_value_at name (a # argv) i = Some v"
    if "i < length (a # argv)" "sets_option name ((a # argv) ! i)" for i
  proof (cases i)
    case 0
    then show ?thesis using that head by simp
  next
    case (Suc j)
    then have "\<exists>v \<in> set vs'. option_value_at name argv j = Some v" using that IH by simp
    then show ?thesis using Suc sub by (auto simp: option_value_Cons)
  qed
  moreover have "length vs = (if sets_option name a then Suc (length vs') else length vs')"
  proof (cases "a = ''--'' @ name \<or> a = ''-'' @ name")
    case True
    then have "sets_option name a" unfolding sets_option_def by blast
    then show ?thesis using c unfolding if_P [OF True] by auto
  next
    case False
    then have "sets_option name a \<longleftrightarrow> startswith a (''--'' @ name @ ''='') \<or> startswith a (''-'' @ name @ ''='')"
      unfolding sets_option_def by blast
    then show ?thesis using c unfolding if_not_P [OF False] by (simp split: if_splits)
  qed
  then have "length vs = length (filter (sets_option name) (a # argv))" using IH by simp
  ultimately show ?case by blast
qed simp

lemma only_declaration_ok [only_intros]: "only is_value_error (declaration_ok addr kv)"
  by (cases kv) (auto simp: declaration_ok_def intro!: only_intros)

lemma only_unsupported [only_intros]: "only is_value_error (unsupported_declarations addr m)"
  by (auto simp: unsupported_declarations_def Let_def intro!: only_intros)

definition counter_ok :: "string \<Rightarrow> pv \<Rightarrow> bool" where
  "counter_ok name r =
     ((fld r ''value'' = PNone \<and> nonblank (fld r ''reason'')) \<or>
      ((is_int (fld r ''value'') \<or> (name = ''cpu_seconds'' \<and> is_num (fld r ''value''))) \<and> counter (fld r ''value'') \<and>
       nonblank (fld r ''scope'')))"

lemma resource_ok_counter:
  assumes "resource_ok (name, r) = Inr ()" "\<And>i. fld r ''value'' = PInt i \<Longrightarrow> finite_number (PInt i)"
  shows "counter_ok name r"
proof (cases "fld r ''value'' = PNone")
  case True
  then show ?thesis using assms by (auto simp: resource_ok_def counter_ok_def text_field_def)
next
  case False
  then have "observed_ok name r = Inr ()" using assms by (auto simp: resource_ok_def)
  then show ?thesis using assms(2)
    by (cases "fld r ''value''") (auto simp: observed_ok_def counter_ok_def text_field_def counter_def Let_def
        finite_number_def split: if_splits)
qed

section \<open>Properties\<close>

text \<open>
  A command that passes \<open>command_output\<close> writes to the trial's raw directory and nowhere else:
  exactly one of its arguments sets the output option, in whatever spelling, and its value is the
  placeholder of the current invocation.
\<close>

lemma command_output_pinned:
  assumes "command_output argv = Inr ()"
  shows "length (filter (sets_option ''out'') argv) = 1 \<and>
    (\<forall>i < length argv. sets_option ''out'' (argv ! i) \<longrightarrow> option_value_at ''out'' argv i = Some ''{trial_dir}/raw'')"
proof -
  have "option_values ''out'' ''output path required'' argv = Inr [''{trial_dir}/raw'']"
    using assms by (auto simp: command_output_def ebind_eq_Inr)
  from option_values_all [OF this] show ?thesis by auto
qed

lemma command_output_pinned_witness:
  "option_value_at ''out'' [''/bin/weavegate'', ''explore'', ''--out'', ''{trial_dir}/raw''] 2 = Some ''{trial_dir}/raw''"
proof -
  have "command_output [''/bin/weavegate'', ''explore'', ''--out'', ''{trial_dir}/raw''] = Inr ()"
    by (simp add: command_output_def startswith_def)
  from command_output_pinned [OF this] show ?thesis
    by (auto simp: sets_option_def dest: spec [of _ 2])
qed

text \<open>
  Disclosed resources are complete and meaningful: when \<open>resource_observations\<close> accepts, it returns
  its argument, exactly the five registered counters are present, and each is either null with a stated
  reason or a finite nonnegative number (an integer unless it is CPU time) with a stated scope.  The
  record written for unavailable resources is accepted.
\<close>

lemma resource_observations_sound:
  assumes "resource_observations v = Inr w" "\<And>k r i. (k, r) \<in> set (items_of v) \<Longrightarrow> fld r ''value'' = PInt i \<Longrightarrow> finite_number (PInt i)"
    and "strip reason \<noteq> []"
  shows "w = v \<and> set (keys v) = set resource_counters \<and> list_all (\<lambda>(k, r). counter_ok k r) (items_of v) \<and>
    resource_observations (unavailable_resources reason) = Inr (unavailable_resources reason)"
proof -
  have acc: "w = v" "has_keys v resource_counters" "\<forall>kr \<in> set (items_of v). resource_ok kr = Inr ()"
    using assms(1) by (auto simp: resource_observations_def ebind_eq_Inr)
  have "counter_ok k r" if "(k, r) \<in> set (items_of v)" for k r
    using resource_ok_counter [of k r] acc(3) assms(2) that by blast
  moreover have "resource_observations (unavailable_resources reason) = Inr (unavailable_resources reason)"
    using assms(3) by (simp add: resource_observations_def unavailable_resources_def resource_counters_def has_keys_def
        keys_def resource_ok_def text_field_def nonblank_def has_key_def)
  ultimately show ?thesis using acc(1,2) by (auto simp: list_all_iff has_keys_def)
qed

lemma resource_observations_sound_witness:
  "resource_observations (unavailable_resources ''no cgroup'') = Inr (unavailable_resources ''no cgroup'')"
proof -
  let ?v = "PDict (map (\<lambda>n. (n, PDict [(''value'', PNone), (''reason'', PStr ''x'')])) resource_counters)"
  have "resource_observations ?v = Inr ?v"
    by (simp add: resource_observations_def resource_counters_def has_keys_def keys_def resource_ok_def text_field_def
        nonblank_def has_key_def strip_def is_space_def char_code_def)
  then show ?thesis
    by (rule resource_observations_sound [THEN conjunct2, THEN conjunct2, THEN conjunct2])
       (auto simp: resource_counters_def strip_def is_space_def char_code_def)
qed


end
