(* ===== verification/Campaign.thy ===== *)
theory Campaign
  imports Support
begin

text \<open>
  The durable state of an E5 campaign: \<open>save_progress\<close>, \<open>retained_registration\<close> and
  \<open>retained_progress\<close> of \<open>runner/support.py\<close>, the body of one slot and its final
  checkpoint (\<open>collect_locked\<close> of \<open>runner/tool.py\<close>), and the campaign as a step
  relation in which the collector process can die between any two durable writes.

  A retained slot directory is a record of what the collector later reads back: whether
  its seal verifies, the digest of its \<open>SHA256SUMS\<close>, the content of \<open>slot.json\<close> and whether
  \<open>run.command.json\<close> exists.  The results of hooks, commands and of the integrity
  checks of one slot are the fields of an environment record.
\<close>

section \<open>Retained state\<close>

record retained =
  r_id :: string
  r_sealed :: bool
  r_digest :: string
  r_state :: pv
  r_ran :: bool

record campaign =
  c_slots :: "retained list"
  c_checkpoint_ok :: bool
  c_checkpoint :: pv
  c_registration :: "pv option"
  c_manifest_sha :: string
  c_order_sha :: string
  c_stop_marker :: "pv option"

text \<open>What the checks compare with: the phase, the unsupported declarations and the frozen order.\<close>

record plan =
  p_phase :: string
  p_declared :: pv
  p_slots :: "e5_slot list"

definition slot_doc :: "e5_slot \<Rightarrow> pv" where
  "slot_doc s = (case s_key s of (w, v, c, b) \<Rightarrow>
     PDict [(''workload'', PStr w), (''variant'', PStr v), (''cache'', PStr c), (''block'', PStr b),
       (''arm'', PStr (s_arm s)), (''id'', PStr (s_id s)), (''ordinal'', PInt (int (s_ordinal s))),
       (''attempt'', PInt (int (s_attempt s))), (''cap_seconds'', PInt (int (s_cap s)))])"

definition declaration_of :: "plan \<Rightarrow> e5_slot \<Rightarrow> pv" where
  "declaration_of p s = fld (p_declared p) (fst (s_key s) @ ''/'' @ s_arm s)"

definition slot_ids :: "plan \<Rightarrow> string list" where
  "slot_ids p = map s_id (p_slots p)"

text \<open>\<open>save_progress\<close>: the registration of the previous checkpoint is kept.\<close>

definition progress_doc :: "nat \<Rightarrow> pv \<Rightarrow> (string \<times> pv) list \<Rightarrow> pv \<Rightarrow> pv \<Rightarrow> pv" where
  "progress_doc n_slots registration consumed act stopped = PDict [(''slots'', PDict consumed), (''active'', act),
     (''stopped'', stopped), (''registration'', registration),
     (''complete'', PBool (length consumed = n_slots \<and> act = PNone \<and> stopped = PNone))]"

definition save_progress :: "nat \<Rightarrow> (string \<times> pv) list \<Rightarrow> pv \<Rightarrow> pv \<Rightarrow> campaign \<Rightarrow> campaign res" where
  "save_progress n_slots consumed act stopped c =
     (if \<not> c_checkpoint_ok c then Inl (ValueError ''bundle checksum inventory differs'')
      else ebind (getitem (c_checkpoint c) ''registration'') (\<lambda>registration.
        Inr (c\<lparr>c_checkpoint := progress_doc n_slots registration consumed act stopped, c_checkpoint_ok := True\<rparr>)))"

definition retained_registration :: "campaign \<Rightarrow> pv \<Rightarrow> pv res" where
  "retained_registration c progress = ebind (getitem progress ''registration'') (\<lambda>value.
     if value = PNone then Inr value
     else require (c_registration c \<noteq> None) ''retained registration missing'' (
       require (json_equal (the (c_registration c)) value) ''registration differs from sealed checkpoint'' (
       ebind (pgetn value ''manifest_sha256'') (\<lambda>m.
       require (m = PStr (c_manifest_sha c)) ''registration hash differs: manifest.json'' (
       ebind (pgetn value ''order_sha256'') (\<lambda>h.
       require (h = PStr (c_order_sha c)) ''registration hash differs: order.json'' (Inr value)))))))"

definition retained_of :: "campaign \<Rightarrow> string \<Rightarrow> retained option" where
  "retained_of c n = find (\<lambda>r. r_id r = n) (c_slots c)"

text \<open>One iteration over the consumed slots; the state is the stop seen so far.\<close>

definition check_slot :: "plan \<Rightarrow> campaign \<Rightarrow> nat \<times> e5_slot \<Rightarrow> pv \<Rightarrow> pv res" where
  "check_slot p c = (\<lambda>(index, s) stopped. (case retained_of c (s_id s) of
     None \<Rightarrow> Inl (OSError ''slot.json'')
   | Some r \<Rightarrow> let d = declaration_of p s; state = r_state r in
       ebind (pgetn state ''slot'') (\<lambda>own.
       require (py_eq own (slot_doc s)) ''slot identity differs'' (
       ebind (pgetn state ''unsupported'') (\<lambda>u.
       require (json_equal u d) ''unsupported slot declaration differs'' (
       ebind (pgetn state ''cleanup_proven'') (\<lambda>clean. ebind (pgetn state ''stop'') (\<lambda>stop.
       require (if d \<noteq> PNone then py_eq u d \<and> \<not> r_ran r else clean = PBool True \<or> truthy stop)
         (if d \<noteq> PNone then ''unsupported slot was executed/unregistered''
          else ''allocation cleanup unproven without sealed stop checkpoint'') (
       if truthy stop then
         ebind (pgetn stop ''slot'') (\<lambda>n. ebind (pgetn stop ''reason'') (\<lambda>why.
         require (n = PStr (s_id s) \<and> truthy why \<and> Suc index = length (c_slots c)) ''slot follows sealed stop checkpoint''
           (Inr stop)))
       else Inr stopped)))))))))"

definition retained_progress :: "plan \<Rightarrow> campaign \<Rightarrow> pv res" where
  "retained_progress p c = (let k = length (c_slots c); progress = c_checkpoint c in
     require (set (map r_id (c_slots c)) = set (take k (slot_ids p))) ''consumed slots are not an ordered prefix'' (
     require (list_all r_sealed (c_slots c)) ''bundle checksum inventory differs'' (
     require (c_checkpoint_ok c) ''bundle checksum inventory differs'' (
     ebind (retained_registration c progress) (\<lambda>registration.
     ebind (getitem progress ''active'') (\<lambda>act.
     require (\<not> (p_phase p = ''measurement'' \<and> (k \<noteq> 0 \<or> act \<noteq> PNone)) \<or> registration \<noteq> PNone)
       ''registration missing from consumed checkpoint'' (
     ebind (getitem progress ''slots'') (\<lambda>recorded.
     require (py_eq recorded (PDict (map (\<lambda>r. (r_id r, PStr (r_digest r))) (c_slots c))))
       ''retained slots differ from progress checkpoint'' (
     require (act = PNone) ''unfinished checkpoint; no replacement attempts'' (
     ebind (efold (check_slot p c) (enumerate 0 (take k (p_slots p))) PNone) (\<lambda>stopped.
     ebind (getitem progress ''stopped'') (\<lambda>was.
     require (json_equal was stopped) ''stop differs from sealed checkpoint'' (
     ebind (getitem progress ''complete'') (\<lambda>full.
     require (full = PBool (k = length (p_slots p) \<and> stopped = PNone)) ''completion checkpoint differs from retained slots'' (
     require (case c_stop_marker c of None \<Rightarrow> True | Some m \<Rightarrow> json_equal m stopped) ''stop marker differs from sealed checkpoint''
       (Inr progress))))))))))))))))"

section \<open>One slot\<close>

text \<open>A failure of the body: an exception, or an interrupt (KeyboardInterrupt).\<close>

datatype fault = Raised string | Interrupt string

record command_result =
  succeeds :: bool
  contained :: bool

text \<open>What the external steps of one slot do; \<open>None\<close> is a check that passes.\<close>

record slot_env =
  e_delivered :: "fault option"
  e_boundary_start :: "fault option"
  e_prepare :: "fault + command_result"
  e_preparation :: "fault option"
  e_warm :: "fault option"
  e_prepared_boundary :: "fault option"
  e_run_ready :: "fault option"
  e_run :: "fault + command_result"
  e_evidence :: "fault + (string + bool)"
  e_after_run :: "fault option"
  e_observe :: "fault + command_result"
  e_observation :: "fault option"
  e_cleanup_ready :: "fault option"
  e_cleanup :: "fault + command_result"
  e_cleanup_proof :: "fault option"
  e_unfinished :: "string list"
  e_integrity :: "string option"

record body_state =
  b_started :: bool
  b_clean :: bool
  b_error :: "string option"
  b_interrupted :: bool
  b_ran :: bool

definition pass :: "fault option \<Rightarrow> fault + unit" where
  "pass r = (case r of None \<Rightarrow> Inr () | Some f \<Rightarrow> Inl f)"

definition need_success :: "string \<Rightarrow> fault + command_result \<Rightarrow> fault + unit" where
  "need_success m r = ebind r (\<lambda>x. if succeeds x \<and> contained x then Inr () else Inl (Raised m))"

text \<open>The part of the body after the allocation has started: the state that survives a failure is
  threaded through; \<open>cleanup_proven\<close> is set by the evidence of the measured command.\<close>

definition measured :: "string \<Rightarrow> bool \<Rightarrow> slot_env \<Rightarrow> body_state \<Rightarrow> (fault + unit) \<times> body_state" where
  "measured ph warm_cell env b =
     (case ebind (pass (e_boundary_start env)) (\<lambda>_.
        if ph = ''measurement'' then
          ebind (need_success ''restore failed'' (e_prepare env)) (\<lambda>_. ebind (pass (e_preparation env)) (\<lambda>_.
            ebind (if warm_cell then pass (e_warm env) else Inr ()) (\<lambda>_. pass (e_prepared_boundary env))))
        else Inr ()) of
      Inl f \<Rightarrow> (Inl f, b)
    | Inr _ \<Rightarrow> (case pass (e_run_ready env) of Inl f \<Rightarrow> (Inl f, b)
    | Inr _ \<Rightarrow> (let b = b\<lparr>b_ran := True\<rparr> in case e_run env of
        Inl f \<Rightarrow> (Inl f, b)
      | Inr run \<Rightarrow> (
          if \<not> contained run then (Inl (Raised ''measured process containment unproven''), b)
          else (case e_evidence env of
            Inl f \<Rightarrow> (Inl f, b)
          | Inr ev \<Rightarrow>
            (let b = (case ev of Inl m \<Rightarrow> b\<lparr>b_error := Some (''evidence: '' @ m)\<rparr> | Inr proven \<Rightarrow> b\<lparr>b_clean := proven\<rparr>) in
             (ebind (pass (e_after_run env)) (\<lambda>_.
                if ph = ''measurement'' then
                  ebind (need_success ''observation failed'' (e_observe env)) (\<lambda>_. pass (e_observation env))
                else Inr ()), b)))))))"

definition slot_body :: "string \<Rightarrow> bool \<Rightarrow> bool \<Rightarrow> slot_env \<Rightarrow> body_state" where
  "slot_body ph warm_cell declared env =
     (let b0 = \<lparr>b_started = False, b_clean = True, b_error = None, b_interrupted = False, b_ran = False\<rparr>;
          r = (case pass (e_delivered env) of
                 Inl f \<Rightarrow> (Inl f, b0)
               | Inr _ \<Rightarrow> if declared then (Inr (), b0)
                   else measured ph warm_cell env (b0\<lparr>b_started := True, b_clean := False\<rparr>)) in
      case r of
        (Inr _, b) \<Rightarrow> b
      | (Inl (Raised m), b) \<Rightarrow> b\<lparr>b_error := Some m\<rparr>
      | (Inl (Interrupt m), b) \<Rightarrow> b\<lparr>b_error := Some m, b_interrupted := True\<rparr>)"

text \<open>The cleanup hook of a measurement: \<open>cleanup_proven\<close> becomes true only when it succeeded, its
  processes are contained and its proof holds; any failure makes it false.\<close>

definition run_cleanup :: "string \<Rightarrow> slot_env \<Rightarrow> body_state \<Rightarrow> body_state" where
  "run_cleanup ph env b =
     (if ph = ''measurement'' \<and> b_started b then
        (case ebind (pass (e_cleanup_ready env)) (\<lambda>_. ebind (need_success ''cleanup command failed'' (e_cleanup env))
            (\<lambda>_. pass (e_cleanup_proof env))) of
           Inr _ \<Rightarrow> b\<lparr>b_clean := True\<rparr>
         | Inl _ \<Rightarrow> b\<lparr>b_clean := False\<rparr>)
      else b)"

text \<open>The stop reason of the final checkpoint: the last of the tests that fails.\<close>

definition stop_reason :: "slot_env \<Rightarrow> body_state \<Rightarrow> string option" where
  "stop_reason env b =
     (let r0 = (if b_interrupted b then Some ''collector interrupted'' else None);
          r1 = (if \<not> b_clean b \<and> r0 = None then Some ''allocation cleanup unproven'' else r0);
          r2 = (case e_unfinished env of [] \<Rightarrow> r1
                | ns \<Rightarrow> Some (''process containment unproven: '' @ last ns)) in
      case e_integrity env of None \<Rightarrow> r2 | Some m \<Rightarrow> Some m)"

definition finish_slot :: "string \<Rightarrow> bool \<Rightarrow> bool \<Rightarrow> slot_env \<Rightarrow> body_state \<times> string option" where
  "finish_slot ph warm_cell declared env =
     (let b = run_cleanup ph env (slot_body ph warm_cell declared env) in (b, stop_reason env b))"

text \<open>\<open>if stop_reason\<close>: an empty reason is no reason.\<close>

definition stop_doc :: "string \<Rightarrow> string option \<Rightarrow> string \<Rightarrow> pv" where
  "stop_doc now r sid = (case r of None \<Rightarrow> PNone
     | Some m \<Rightarrow> if m = [] then PNone
         else PDict [(''reason'', PStr m), (''slot'', PStr sid), (''at'', PStr now)])"

definition state_doc :: "e5_slot \<Rightarrow> pv \<Rightarrow> body_state \<Rightarrow> pv \<Rightarrow> pv" where
  "state_doc s d b stop = PDict ([(''slot'', slot_doc s), (''cleanup_proven'', PBool (b_clean b))] @
     (if d = PNone then [] else [(''unsupported'', d)]) @
     (case b_error b of None \<Rightarrow> [] | Some m \<Rightarrow> [(''error'', PStr m)]) @
     (if b_interrupted b then [(''interrupted'', PBool True)] else []) @ [(''stop'', stop)])"

section \<open>The campaign as a step relation\<close>

text \<open>Where the collector process is, with the \<open>consumed\<close> mapping it carries.\<close>

datatype collector =
    Down
  | Ready "(string \<times> pv) list"
  | Activated "(string \<times> pv) list" e5_slot
  | Created "(string \<times> pv) list" e5_slot
  | Sealed "(string \<times> pv) list" e5_slot pv
  | Recorded "(string \<times> pv) list" e5_slot pv

text \<open>The next slot: the first of the order whose directory does not exist.\<close>

definition next_slot :: "plan \<Rightarrow> campaign \<Rightarrow> e5_slot option" where
  "next_slot p c = find (\<lambda>s. s_id s \<notin> r_id ` set (c_slots c)) (p_slots p)"

definition new_directory :: "e5_slot \<Rightarrow> campaign \<Rightarrow> campaign" where
  "new_directory s c = c\<lparr>c_slots := c_slots c @ [\<lparr>r_id = s_id s, r_sealed = False, r_digest = [],
     r_state = PDict [(''slot'', slot_doc s), (''cleanup_proven'', PBool True)], r_ran = False\<rparr>]\<rparr>"

definition seal_slot :: "e5_slot \<Rightarrow> string \<Rightarrow> pv \<Rightarrow> bool \<Rightarrow> campaign \<Rightarrow> campaign" where
  "seal_slot s d state did_run c = c\<lparr>c_slots := map (\<lambda>r. if r_id r = s_id s
     then r\<lparr>r_sealed := True, r_digest := d, r_state := state, r_ran := did_run\<rparr> else r) (c_slots c)\<rparr>"

definition warm_slot :: "e5_slot \<Rightarrow> bool" where
  "warm_slot s = (fst (snd (snd (s_key s))) = ''warm'')"

type_synonym system = "collector \<times> campaign \<times> string list"

text \<open>The third component is a history variable: the slots whose directory was created, in order.
  The texts of the errors that stop a slot are not empty (\<open>seal\<close>, \<open>interrupted\<close>).\<close>

inductive cstep :: "plan \<Rightarrow> system \<Rightarrow> system \<Rightarrow> bool" for p where
  start: "retained_progress p c = Inr progress \<Longrightarrow> fld progress ''stopped'' = PNone \<Longrightarrow>
    cstep p (Down, c, tr) (Ready (items_of (fld progress ''slots'')), c, tr)"
| register: "c_slots c = [] \<Longrightarrow> fld (c_checkpoint c) ''registration'' = PNone \<Longrightarrow> is_dict v \<Longrightarrow> json_equal v v \<Longrightarrow>
    fld v ''manifest_sha256'' = PStr (c_manifest_sha c) \<Longrightarrow> fld v ''order_sha256'' = PStr (c_order_sha c) \<Longrightarrow>
    cstep p (Ready consumed, c, tr)
      (Ready consumed, c\<lparr>c_registration := Some v, c_checkpoint := progress_doc (length (p_slots p)) v consumed PNone PNone\<rparr>, tr)"
| activate: "(p_phase p = ''measurement'' \<Longrightarrow> fld (c_checkpoint c) ''registration'' \<noteq> PNone) \<Longrightarrow>
    next_slot p c = Some s \<Longrightarrow> save_progress (length (p_slots p)) consumed (PStr (s_id s)) PNone c = Inr c' \<Longrightarrow>
    cstep p (Ready consumed, c, tr) (Activated consumed s, c', tr)"
| create: "cstep p (Activated consumed s, c, tr) (Created consumed s, new_directory s c, tr @ [s_id s])"
| seal: "finish_slot (p_phase p) (warm_slot s) (declaration_of p s \<noteq> PNone) env = (b, r) \<Longrightarrow>
    r \<noteq> Some [] \<Longrightarrow> stop = stop_doc now r (s_id s) \<Longrightarrow>
    cstep p (Created consumed s, c, tr)
      (Sealed consumed s stop, seal_slot s d (state_doc s (declaration_of p s) b stop) (b_ran b) c, tr)"
| recorded: "retained_of c (s_id s) = Some r \<Longrightarrow> consumed' = put (s_id s) (PStr (r_digest r)) consumed \<Longrightarrow>
    save_progress (length (p_slots p)) consumed' PNone stop c = Inr c' \<Longrightarrow>
    cstep p (Sealed consumed s stop, c, tr) (Recorded consumed' s stop, c', tr)"
| marker: "stop \<noteq> PNone \<Longrightarrow> cstep p (Recorded consumed s stop, c, tr) (Down, c\<lparr>c_stop_marker := Some stop\<rparr>, tr)"
| continue: "cstep p (Recorded consumed s PNone, c, tr) (Ready consumed, c, tr)"
| interrupted: "m \<noteq> [] \<Longrightarrow> stop = stop_doc now (Some m) (s_id s) \<Longrightarrow>
    cstep p (Recorded consumed s PNone, c, tr)
      (Sealed consumed s stop, seal_slot s d (state_doc s (declaration_of p s) b stop) did_run c, tr)"
| crash: "cstep p (x, c, tr) (Down, c, tr)"
| torn: "cstep p (x, c, tr) (Down, c\<lparr>c_checkpoint_ok := False\<rparr>, tr)"

definition frozen_campaign :: "plan \<Rightarrow> string \<Rightarrow> string \<Rightarrow> pv \<Rightarrow> pv option \<Rightarrow> campaign" where
  "frozen_campaign p m h reg file = \<lparr>c_slots = [], c_checkpoint_ok = True,
     c_checkpoint = progress_doc (length (p_slots p)) reg [] PNone PNone, c_registration = file,
     c_manifest_sha = m, c_order_sha = h, c_stop_marker = None\<rparr>"

inductive reachable :: "plan \<Rightarrow> campaign \<Rightarrow> system \<Rightarrow> bool" for p c0 where
  initial: "reachable p c0 (Down, c0, [])"
| step: "reachable p c0 x \<Longrightarrow> cstep p x y \<Longrightarrow> reachable p c0 y"

inductive_cases activated_stepE: "cstep p (Activated consumed s, c, tr) y"

section \<open>Each slot once, in order, and none after a stop\<close>

definition stop_of :: "retained \<Rightarrow> pv" where
  "stop_of r = fld (r_state r) ''stop''"

definition settled :: "retained \<Rightarrow> bool" where
  "settled r = (r_sealed r \<and> \<not> truthy (stop_of r))"

lemma save_progress_slots: "save_progress n consumed act stopped c = Inr c' \<Longrightarrow>
    c_slots c' = c_slots c \<and> c_stop_marker c' = c_stop_marker c \<and> c_registration c' = c_registration c"
  by (auto simp: save_progress_def ebind_eq_Inr split: if_splits)

lemma pgetn_fld: "pgetn v k = Inr x \<Longrightarrow> fld v k = x"
  by (auto simp: pget_eq_Inr fld_def split: option.splits)

lemma check_slot_stop:
  assumes "check_slot p c (i, s) stopped = Inr PNone"
  shows "stopped = PNone \<and> (\<exists>r. retained_of c (s_id s) = Some r \<and> \<not> truthy (stop_of r))"
  using assms
  by (auto simp: check_slot_def ebind_eq_Inr stop_of_def Let_def dest!: pgetn_fld split: option.splits if_splits)

lemma check_slots_stop:
  "efold (check_slot p c) xs stopped = Inr PNone \<Longrightarrow>
     stopped = PNone \<and> (\<forall>x \<in> set xs. \<exists>r. retained_of c (s_id (snd x)) = Some r \<and> \<not> truthy (stop_of r))"
proof (induction xs arbitrary: stopped)
  case (Cons x xs)
  then obtain t where t: "check_slot p c x stopped = Inr t" "efold (check_slot p c) xs t = Inr PNone"
    by (auto simp: ebind_eq_Inr)
  from Cons.IH [OF t(2)] have "t = PNone" and rest: "\<forall>x \<in> set xs. \<exists>r. retained_of c (s_id (snd x)) = Some r \<and> \<not> truthy (stop_of r)"
    by auto
  with t(1) check_slot_stop [of p c "fst x" "snd x" stopped] show ?case by auto
qed simp

lemma retained_of_mem: "retained_of c n = Some r \<Longrightarrow> r \<in> set (c_slots c) \<and> r_id r = n"
  by (auto simp: retained_of_def find_Some_iff)

lemma retained_of_distinct:
  "distinct (map r_id (c_slots c)) \<Longrightarrow> r \<in> set (c_slots c) \<Longrightarrow> retained_of c (r_id r) = Some r"
proof -
  have "distinct (map r_id rs) \<Longrightarrow> r \<in> set rs \<Longrightarrow> find (\<lambda>x. r_id x = r_id r) rs = Some r" for rs
    by (induction rs) auto
  then show "distinct (map r_id (c_slots c)) \<Longrightarrow> r \<in> set (c_slots c) \<Longrightarrow> retained_of c (r_id r) = Some r"
    by (simp add: retained_of_def)
qed

text \<open>A campaign that may go on has only sealed slots without a stop.\<close>

lemma retained_settled:
  assumes ok: "retained_progress p c = Inr progress" "fld progress ''stopped'' = PNone"
    and dist: "distinct (map r_id (c_slots c))" and pref: "length (c_slots c) \<le> length (p_slots p)"
  shows "\<forall>r \<in> set (c_slots c). settled r"
proof -
  let ?k = "length (c_slots c)"
  from ok obtain stopped was where fold: "efold (check_slot p c) (enumerate 0 (take ?k (p_slots p))) PNone = Inr stopped"
    and was: "getitem progress ''stopped'' = Inr was" "json_equal was stopped"
    and sealed: "list_all r_sealed (c_slots c)" and ids: "set (map r_id (c_slots c)) = set (take ?k (slot_ids p))"
    by (auto simp: retained_progress_def Let_def ebind_eq_Inr)
  have "was = PNone" using was(1) ok(2) by (auto simp: getitem_eq_Inr fld_def)
  then have "stopped = PNone" using was(2) by simp
  then have chk: "\<forall>x \<in> set (enumerate 0 (take ?k (p_slots p))). \<exists>r. retained_of c (s_id (snd x)) = Some r \<and> \<not> truthy (stop_of r)"
    using check_slots_stop fold by blast
  show ?thesis
  proof
    fix r assume r: "r \<in> set (c_slots c)"
    then have "r_id r \<in> set (take ?k (slot_ids p))" using ids by auto
    then obtain s where s: "s \<in> set (take ?k (p_slots p))" "s_id s = r_id r"
      by (auto simp: slot_ids_def take_map)
    then have "s \<in> snd ` set (enumerate 0 (take ?k (p_slots p)))" by (metis list.set_map map_snd_enumerate)
    then obtain r' where "retained_of c (s_id s) = Some r'" "\<not> truthy (stop_of r')" using chk by auto
    moreover have "retained_of c (s_id s) = Some r" using retained_of_distinct [OF dist r] s(2) by simp
    ultimately show "settled r" using sealed r by (auto simp: settled_def list_all_iff)
  qed
qed

definition in_order :: "plan \<Rightarrow> campaign \<Rightarrow> string list \<Rightarrow> bool" where
  "in_order p c tr = (map r_id (c_slots c) = tr \<and> tr = take (length tr) (slot_ids p))"

definition others_settled :: "campaign \<Rightarrow> e5_slot \<Rightarrow> bool" where
  "others_settled c s = (\<forall>r \<in> set (c_slots c). r_id r \<noteq> s_id s \<longrightarrow> settled r)"

fun collector_ok :: "plan \<Rightarrow> system \<Rightarrow> bool" where
  "collector_ok p (Down, c, tr) = in_order p c tr"
| "collector_ok p (Ready consumed, c, tr) = (in_order p c tr \<and> (\<forall>r \<in> set (c_slots c). settled r))"
| "collector_ok p (Activated consumed s, c, tr) =
     (in_order p c tr \<and> (\<forall>r \<in> set (c_slots c). settled r) \<and> next_slot p c = Some s)"
| "collector_ok p (Created consumed s, c, tr) = (in_order p c tr \<and> others_settled c s)"
| "collector_ok p (Sealed consumed s stop, c, tr) = (in_order p c tr \<and> others_settled c s \<and>
     (\<forall>r \<in> set (c_slots c). r_id r = s_id s \<longrightarrow> r_sealed r \<and> stop_of r = stop))"
| "collector_ok p (Recorded consumed s stop, c, tr) = (in_order p c tr \<and> others_settled c s \<and>
     (\<forall>r \<in> set (c_slots c). r_id r = s_id s \<longrightarrow> r_sealed r \<and> stop_of r = stop))"

lemma next_slot_in_order:
  assumes "in_order p c tr" "next_slot p c = Some s" "distinct (slot_ids p)"
  shows "tr @ [s_id s] = take (length (tr @ [s_id s])) (slot_ids p)"
proof -
  have names: "r_id ` set (c_slots c) = set (take (length tr) (slot_ids p))"
    using assms(1) by (metis in_order_def list.set_map)
  from assms(2) obtain i where i: "i < length (p_slots p)" "s = p_slots p ! i"
      "s_id s \<notin> set (take (length tr) (slot_ids p))"
      "\<And>j. j < i \<Longrightarrow> s_id (p_slots p ! j) \<in> set (take (length tr) (slot_ids p))"
    unfolding next_slot_def find_Some_iff names by auto
  have len: "length tr \<le> length (slot_ids p)"
    using assms(1) unfolding in_order_def by (metis length_take min.cobounded1)
  have nth: "s_id (p_slots p ! j) = slot_ids p ! j" if "j < length (p_slots p)" for j
    using that by (simp add: slot_ids_def)
  have ge: "length tr \<le> i"
  proof (rule ccontr)
    assume "\<not> length tr \<le> i"
    then have "slot_ids p ! i \<in> set (take (length tr) (slot_ids p))"
      using i(1) by (auto simp: in_set_conv_nth slot_ids_def intro!: exI [of _ i])
    then show False using i nth by simp
  qed
  have "i \<le> length tr"
  proof (rule ccontr)
    assume "\<not> i \<le> length tr"
    then have "slot_ids p ! length tr \<in> set (take (length tr) (slot_ids p))"
      using i(1) i(4) [of "length tr"] nth [of "length tr"] by simp
    then obtain j where "j < length tr" "slot_ids p ! j = slot_ids p ! length tr"
      by (auto simp: in_set_conv_nth)
    moreover have "length tr < length (slot_ids p)" using i(1) \<open>\<not> i \<le> length tr\<close> by (simp add: slot_ids_def)
    ultimately show False using assms(3) len by (simp add: nth_eq_iff_index_eq)
  qed
  then have "i = length tr" using ge by simp
  then have "take (Suc (length tr)) (slot_ids p) = take (length tr) (slot_ids p) @ [s_id s]"
    using i(1,2) nth by (simp add: take_Suc_conv_app_nth slot_ids_def)
  then show ?thesis using assms(1) unfolding in_order_def by simp
qed

lemma in_order_settled_start:
  assumes "in_order p c tr" "retained_progress p c = Inr progress" "fld progress ''stopped'' = PNone" "distinct (slot_ids p)"
  shows "\<forall>r \<in> set (c_slots c). settled r"
proof (rule retained_settled [OF assms(2,3)])
  have names: "map r_id (c_slots c) = take (length tr) (slot_ids p)" using assms(1) by (simp add: in_order_def)
  then show "distinct (map r_id (c_slots c))" using assms(4) by simp
  have "length (c_slots c) = length (take (length tr) (slot_ids p))" using names by (metis length_map)
  then show "length (c_slots c) \<le> length (p_slots p)" by (simp add: slot_ids_def)
qed

lemma stop_of_state_doc [simp]: "fld (state_doc s d b stop) ''stop'' = stop"
  by (simp add: state_doc_def split: option.splits)

lemma seal_slot_props:
  "map r_id (c_slots (seal_slot s d (state_doc s e b stop) ran' c)) = map r_id (c_slots c)"
  "r \<in> set (c_slots (seal_slot s d (state_doc s e b stop) ran' c)) \<Longrightarrow> r_id r = s_id s \<Longrightarrow> r_sealed r \<and> stop_of r = stop"
  "others_settled c s \<Longrightarrow> others_settled (seal_slot s d (state_doc s e b stop) ran' c) s"
  by (auto simp: seal_slot_def stop_of_def others_settled_def settled_def split: if_splits)

lemma cstep_ok:
  assumes "cstep p x y" "collector_ok p x" "distinct (slot_ids p)"
  shows "collector_ok p y"
  using assms(1)
proof (cases rule: cstep.cases)
  case (start c progress tr)
  then show ?thesis using assms(2,3) in_order_settled_start by simp
next
  case (register c v consumed tr)
  then show ?thesis using assms(2) by (simp add: in_order_def)
next
  case (activate c s consumed c' tr)
  then show ?thesis using assms(2) save_progress_slots [OF activate(5)]
    by (simp add: in_order_def next_slot_def)
next
  case (create consumed s c tr)
  have i: "in_order p c tr" "next_slot p c = Some s" "\<forall>r \<in> set (c_slots c). settled r"
    using assms(2) create(1) by simp_all
  then have ext: "tr @ [s_id s] = take (length (tr @ [s_id s])) (slot_ids p)" using next_slot_in_order assms(3) by blast
  have "map r_id (c_slots (new_directory s c)) = tr @ [s_id s]"
    using i(1) by (simp add: in_order_def new_directory_def)
  then have "in_order p (new_directory s c) (tr @ [s_id s])" using ext unfolding in_order_def by blast
  moreover have "others_settled (new_directory s c) s" using i(3) by (auto simp: others_settled_def new_directory_def)
  ultimately show ?thesis using create(2) by simp
next
  case (seal s env b r stop now consumed c tr d)
  have i: "in_order p c tr" "others_settled c s" using assms(2) seal(1) by simp_all
  show ?thesis unfolding seal(2)
    using seal_slot_props(2) seal_slot_props(3) [OF i(2)] i(1) by (simp add: in_order_def seal_slot_props(1))
next
  case (recorded c s r consumed' consumed stop c' tr)
  then show ?thesis using assms(2) save_progress_slots [OF recorded(5)]
    by (simp add: in_order_def others_settled_def)
next
  case (marker stop consumed s c tr)
  then show ?thesis using assms(2) by (simp add: in_order_def)
next
  case (continue consumed s c tr)
  then have "in_order p c tr" "others_settled c s"
    "\<forall>r \<in> set (c_slots c). r_id r = s_id s \<longrightarrow> r_sealed r \<and> stop_of r = PNone" using assms(2) by simp_all
  then show ?thesis using continue by (auto simp: others_settled_def settled_def)
next
  case (interrupted m stop now s consumed c tr d b did_run)
  have i: "in_order p c tr" "others_settled c s" using assms(2) interrupted(1) by simp_all
  show ?thesis unfolding interrupted(2)
    using seal_slot_props(2) seal_slot_props(3) [OF i(2)] i(1) by (simp add: in_order_def seal_slot_props(1))
next
  case (crash z c tr)
  then show ?thesis using assms(2) by (cases z) (simp_all add: in_order_def)
next
  case (torn z c tr)
  then show ?thesis using assms(2) by (cases z) (simp_all add: in_order_def)
qed

lemma reachable_ok:
  "reachable p c0 x \<Longrightarrow> c_slots c0 = [] \<Longrightarrow> distinct (slot_ids p) \<Longrightarrow> collector_ok p x"
proof (induction rule: reachable.induct)
  case initial
  then show ?case by (simp add: in_order_def)
next
  case (step x y)
  then show ?case using cstep_ok by blast
qed

section \<open>Slot boundaries are resumable\<close>

text \<open>What the collector can rely on between two slots.\<close>

definition recorded_as :: "campaign \<Rightarrow> (string \<times> pv) list" where
  "recorded_as c = map (\<lambda>r. (r_id r, PStr (r_digest r))) (c_slots c)"

definition slot_clean :: "plan \<Rightarrow> campaign \<Rightarrow> e5_slot \<Rightarrow> bool" where
  "slot_clean p c s = (\<forall>i. check_slot p c (i, s) PNone = Inr PNone)"

definition checkpoint_is :: "plan \<Rightarrow> campaign \<Rightarrow> (string \<times> pv) list \<Rightarrow> pv \<Rightarrow> pv \<Rightarrow> pv \<Rightarrow> bool" where
  "checkpoint_is p c consumed act stopped reg = (c_checkpoint_ok c \<and> distinct (map fst consumed) \<and>
     c_checkpoint c = progress_doc (length (p_slots p)) reg consumed act stopped)"

definition boundary :: "plan \<Rightarrow> campaign \<Rightarrow> (string \<times> pv) list \<Rightarrow> bool" where
  "boundary p c consumed = (\<exists>reg. checkpoint_is p c consumed PNone PNone reg \<and>
     retained_registration c (c_checkpoint c) = Inr reg \<and>
     (p_phase p = ''measurement'' \<longrightarrow> c_slots c \<noteq> [] \<longrightarrow> reg \<noteq> PNone) \<and>
     set consumed = set (recorded_as c) \<and> list_all r_sealed (c_slots c) \<and>
     (\<forall>s \<in> set (take (length (c_slots c)) (p_slots p)). slot_clean p c s) \<and>
     (case c_stop_marker c of None \<Rightarrow> True | Some m \<Rightarrow> m = PNone))"

lemma progress_doc_get [simp]:
  "getitem (progress_doc n reg consumed act stopped) ''registration'' = Inr reg"
  "getitem (progress_doc n reg consumed act stopped) ''active'' = Inr act"
  "getitem (progress_doc n reg consumed act stopped) ''slots'' = Inr (PDict consumed)"
  "getitem (progress_doc n reg consumed act stopped) ''stopped'' = Inr stopped"
  "getitem (progress_doc n reg consumed act stopped) ''complete'' =
     Inr (PBool (length consumed = n \<and> act = PNone \<and> stopped = PNone))"
  "fld (progress_doc n reg consumed act stopped) ''slots'' = PDict consumed"
  "fld (progress_doc n reg consumed act stopped) ''stopped'' = stopped"
  "fld (progress_doc n reg consumed act stopped) ''registration'' = reg"
  by (simp_all add: progress_doc_def)

lemma check_slot_clean:
  assumes "check_slot p c (i, s) PNone = Inr PNone"
  shows "slot_clean p c s"
  using assms unfolding slot_clean_def
  by (fastforce simp: check_slot_def ebind_eq_Inr Let_def split: option.splits if_splits)

lemma slots_clean:
  "efold (check_slot p c) xs PNone = Inr PNone \<longleftrightarrow> (\<forall>x \<in> set xs. slot_clean p c (snd x))"
proof (induction xs)
  case (Cons x xs)
  have "efold (check_slot p c) (x # xs) PNone = Inr PNone \<longleftrightarrow>
      check_slot p c x PNone = Inr PNone \<and> efold (check_slot p c) xs PNone = Inr PNone"
    using check_slots_stop [of p c xs] by (auto simp: ebind_eq_Inr)
  also have "check_slot p c x PNone = Inr PNone \<longleftrightarrow> slot_clean p c (snd x)"
    using check_slot_clean [of p c "fst x" "snd x"] unfolding slot_clean_def by (metis prod.collapse)
  finally show ?case using Cons by auto
qed simp

lemma snd_enumerate_set: "(\<forall>x \<in> set (enumerate 0 xs). P (snd x)) \<longleftrightarrow> (\<forall>y \<in> set xs. P y)"
  by (metis (mono_tags, lifting) image_iff list.set_map map_snd_enumerate)

lemma recorded_flat: "\<forall>(k, v) \<in> set (recorded_as c). v = PNone \<or> is_str v"
  by (auto simp: recorded_as_def)

lemma fst_recorded: "map fst (recorded_as c) = map r_id (c_slots c)"
  by (simp add: recorded_as_def comp_def)

lemma boundary_accepted:
  assumes b: "boundary p c consumed" and o: "in_order p c tr" and d: "distinct (slot_ids p)"
  shows "retained_progress p c = Inr (c_checkpoint c)"
proof -
  from b obtain reg where cp: "c_checkpoint_ok c" "distinct (map fst consumed)"
      "c_checkpoint c = progress_doc (length (p_slots p)) reg consumed PNone PNone"
    and reg: "retained_registration c (c_checkpoint c) = Inr reg"
      "p_phase p = ''measurement'' \<longrightarrow> c_slots c \<noteq> [] \<longrightarrow> reg \<noteq> PNone"
    and rec: "set consumed = set (recorded_as c)" and sealed: "list_all r_sealed (c_slots c)"
    and clean: "\<forall>s \<in> set (take (length (c_slots c)) (p_slots p)). slot_clean p c s"
    and mark: "case c_stop_marker c of None \<Rightarrow> True | Some m \<Rightarrow> m = PNone"
    unfolding boundary_def checkpoint_is_def by blast
  let ?k = "length (c_slots c)"
  have tr: "tr = map r_id (c_slots c)" "tr = take (length tr) (slot_ids p)"
    using o unfolding in_order_def by blast+
  have names: "map r_id (c_slots c) = take ?k (slot_ids p)" using tr by (metis length_map)
  have dn: "distinct (map fst (recorded_as c))" unfolding fst_recorded names using d by simp
  have eq: "py_eq (PDict consumed) (PDict (recorded_as c))"
    using flat_py_eq [OF cp(2) dn] rec recorded_flat by metis
  have len: "length consumed = ?k"
  proof -
    have "length consumed = card (set consumed)" using cp(2) by (simp add: distinct_map distinct_card)
    also have "\<dots> = card (set (recorded_as c))" using rec by simp
    also have "\<dots> = length (recorded_as c)" using dn by (simp add: distinct_map distinct_card)
    finally show ?thesis by (simp add: recorded_as_def)
  qed
  have fold: "efold (check_slot p c) (enumerate 0 (take ?k (p_slots p))) PNone = Inr PNone"
    unfolding slots_clean snd_enumerate_set using clean .
  have m: "case c_stop_marker c of None \<Rightarrow> True | Some m \<Rightarrow> json_equal m PNone"
    using mark by (simp split: option.splits)
  show ?thesis
    using cp(1,3) reg sealed fold eq len m unfolding retained_progress_def Let_def recorded_as_def
    by (auto simp: names)
qed

text \<open>The checkpoint is always one \<open>save_progress\<close> wrote, with each slot once.\<close>

lemma put_keys: "map fst (put k v d) = (if k \<in> fst ` set d then map fst d else map fst d @ [k])"
  by (induction d) (auto simp: rev_image_eqI)

lemma put_distinct: "distinct (map fst d) \<Longrightarrow> distinct (map fst (put k v d))"
  by (simp add: put_keys)

lemma set_put_new: "k \<notin> fst ` set d \<Longrightarrow> set (put k v d) = insert (k, v) (set d)"
  by (induction d) auto

lemma save_progress_doc:
  assumes "save_progress n consumed act stopped c = Inr c'" "checkpoint_is p c cs a st reg"
  shows "c' = c\<lparr>c_checkpoint := progress_doc n reg consumed act stopped\<rparr>"
  using assms by (auto simp: save_progress_def checkpoint_is_def ebind_eq_Inr)

fun checkpoint_ok :: "plan \<Rightarrow> system \<Rightarrow> bool" where
  "checkpoint_ok p (x, c, tr) = (c_checkpoint_ok c \<longrightarrow> (\<exists>cs a st reg. checkpoint_is p c cs a st reg \<and>
     (case x of Down \<Rightarrow> True | Ready consumed \<Rightarrow> distinct (map fst consumed)
      | Activated consumed s \<Rightarrow> distinct (map fst consumed) | Created consumed s \<Rightarrow> distinct (map fst consumed)
      | Sealed consumed s stop \<Rightarrow> distinct (map fst consumed) | Recorded consumed s stop \<Rightarrow> distinct (map fst consumed))))"

lemma checkpoint_is_new:
  "c_checkpoint_ok c \<Longrightarrow> distinct (map fst consumed) \<Longrightarrow>
     checkpoint_is p (c\<lparr>c_checkpoint := progress_doc (length (p_slots p)) reg consumed a st\<rparr>) consumed a st reg"
  by (simp add: checkpoint_is_def)

lemma cstep_checkpoint_ok:
  assumes "cstep p x y" "checkpoint_ok p x"
  shows "checkpoint_ok p y"
  using assms(1)
proof (cases rule: cstep.cases)
  case (start c progress tr)
  have pr: "progress = c_checkpoint c" "c_checkpoint_ok c"
    using start(3) by (auto simp: retained_progress_def Let_def ebind_eq_Inr)
  then obtain cs a st reg where "checkpoint_is p c cs a st reg" using assms(2) start(1) by auto
  then show ?thesis using start(2) pr by (auto simp: checkpoint_is_def)
next
  case (register c v consumed tr)
  then show ?thesis using assms(2) by (auto simp: checkpoint_is_def)
next
  case (activate c s consumed c' tr)
  have "c_checkpoint_ok c" using activate(5) by (auto simp: save_progress_def split: if_splits)
  then obtain cs a st reg where "checkpoint_is p c cs a st reg" "distinct (map fst consumed)"
    using assms(2) activate(1) by auto
  with save_progress_doc [OF activate(5)] checkpoint_is_new [of c consumed p] show ?thesis
    unfolding activate(2) by (fastforce simp: checkpoint_is_def)
next
  case (recorded c s r consumed' consumed stop c' tr)
  have "c_checkpoint_ok c" using recorded(5) by (auto simp: save_progress_def split: if_splits)
  then obtain cs a st reg where "checkpoint_is p c cs a st reg" "distinct (map fst consumed)"
    using assms(2) recorded(1) by auto
  with save_progress_doc [OF recorded(5)] checkpoint_is_new [of c consumed' p] show ?thesis
    using put_distinct recorded(4) unfolding recorded(2) by (fastforce simp: checkpoint_is_def)
next
  case (crash z c tr)
  then show ?thesis using assms(2) by (cases z) (auto simp: checkpoint_is_def)
qed (use assms(2) in \<open>auto simp: checkpoint_is_def new_directory_def seal_slot_def\<close>)

text \<open>A slot that ends without a stop: its cleanup is proven, nothing is unfinished, no check failed.\<close>

lemma stop_reason_None:
  "stop_reason env b = None \<Longrightarrow> b_clean b \<and> \<not> b_interrupted b \<and> e_unfinished env = [] \<and> e_integrity env = None"
  by (auto simp: stop_reason_def Let_def split: if_splits option.splits list.splits)

lemma slot_body_declared: "\<not> b_ran (slot_body ph w True env) \<and> \<not> b_started (slot_body ph w True env)"
  by (auto simp: slot_body_def Let_def split: sum.splits fault.splits)

lemma run_cleanup_ran [simp]: "b_ran (run_cleanup ph env b) = b_ran b"
  by (simp add: run_cleanup_def split: sum.splits)

lemma finish_declared: "finish_slot ph w True env = (b, r) \<Longrightarrow> \<not> b_ran b"
  using slot_body_declared by (auto simp: finish_slot_def Let_def)

lemma stop_doc_PNone: "r \<noteq> Some [] \<Longrightarrow> stop_doc now r sid = PNone \<longleftrightarrow> r = None"
  by (auto simp: stop_doc_def split: option.splits)

lemma state_doc_get:
  "pgetn (state_doc s d b stop) ''slot'' = Inr (slot_doc s)"
  "pgetn (state_doc s d b stop) ''unsupported'' = Inr d"
  "pgetn (state_doc s d b stop) ''cleanup_proven'' = Inr (PBool (b_clean b))"
  "pgetn (state_doc s d b stop) ''stop'' = Inr stop"
  by (simp_all add: state_doc_def split: option.splits)

lemma py_eq_slot_doc: "py_eq (slot_doc s) (slot_doc s)"
  by (simp add: slot_doc_def split: prod.splits)

lemma new_slot_clean:
  assumes "retained_of c (s_id s) = Some r" "r_state r = state_doc s (declaration_of p s) b PNone"
    and "declaration_of p s = PNone \<Longrightarrow> b_clean b" "declaration_of p s \<noteq> PNone \<Longrightarrow> \<not> r_ran r"
    and wf: "wf_pv (declaration_of p s)"
  shows "slot_clean p c s"
proof -
  have refl: "json_equal (declaration_of p s) (declaration_of p s)" by (rule json_equal_refl [OF wf])
  then have "py_eq (declaration_of p s) (declaration_of p s)" using json_equal_imp_py_eq_aux by blast
  then show ?thesis
    using assms(1-4) refl py_eq_slot_doc
    by (auto simp: slot_clean_def check_slot_def Let_def state_doc_get)
qed

lemma slot_clean_other:
  assumes "retained_of c' (s_id s) = retained_of c (s_id s)" "slot_clean p c s"
  shows "slot_clean p c' s"
proof -
  have "check_slot p c' (i, s) PNone = Inr PNone" for i
    using assms(2) [unfolded slot_clean_def, rule_format, of i] unfolding check_slot_def prod.case assms(1)
    by (auto simp: ebind_eq_Inr Let_def split: option.splits if_splits)
  then show ?thesis by (simp add: slot_clean_def)
qed

lemma registration_same:
  "c_registration c' = c_registration c \<Longrightarrow> c_manifest_sha c' = c_manifest_sha c \<Longrightarrow> c_order_sha c' = c_order_sha c \<Longrightarrow>
     getitem d' ''registration'' = getitem d ''registration'' \<Longrightarrow>
     retained_registration c' d' = retained_registration c d"
  by (simp add: retained_registration_def cong: if_cong)

lemma accepted_boundary:
  assumes acc: "retained_progress p c = Inr progress" "fld progress ''stopped'' = PNone"
    and cp: "checkpoint_is p c cs a st reg" and o: "in_order p c tr" and d: "distinct (slot_ids p)"
  shows "boundary p c (items_of (fld progress ''slots''))"
proof -
  let ?k = "length (c_slots c)"
  have pr: "progress = progress_doc (length (p_slots p)) reg cs a st"
    using acc(1) cp by (auto simp: retained_progress_def checkpoint_is_def Let_def ebind_eq_Inr)
  have st: "st = PNone" using acc(2) pr by simp
  from acc(1) cp pr st obtain stopped where
    reg: "retained_registration c progress = Inr reg" "\<not> (p_phase p = ''measurement'' \<and> ?k \<noteq> 0) \<or> reg \<noteq> PNone"
    and eq: "py_eq (PDict cs) (PDict (recorded_as c))" and a: "a = PNone"
    and fold: "efold (check_slot p c) (enumerate 0 (take ?k (p_slots p))) PNone = Inr stopped" "json_equal PNone stopped"
    and sealed: "list_all r_sealed (c_slots c)"
    and mark: "case c_stop_marker c of None \<Rightarrow> True | Some m \<Rightarrow> json_equal m stopped"
    by (auto simp: retained_progress_def checkpoint_is_def Let_def ebind_eq_Inr recorded_as_def retained_registration_def
        split: if_splits)
  have stopped: "stopped = PNone" using fold(2) by simp
  have "map r_id (c_slots c) = take ?k (slot_ids p)" using o unfolding in_order_def by (metis length_map)
  then have dn: "distinct (map fst (recorded_as c))" unfolding fst_recorded using d by simp
  have dc: "distinct (map fst cs)" using cp by (simp add: checkpoint_is_def)
  have "py_eq (PDict (recorded_as c)) (PDict cs) \<longleftrightarrow> set (recorded_as c) = set cs"
    by (rule flat_py_eq [OF dn dc recorded_flat])
  have "set cs = set (recorded_as c)"
  proof -
    have items: "\<forall>(k, v) \<in> set cs. \<exists>w. map_of (recorded_as c) k = Some w \<and> py_eq v w"
      using eq by (simp add: py_eq_items_conv)
    have "\<forall>(k, v) \<in> set cs. v = PNone \<or> is_str v"
    proof clarify
      fix k v assume kv: "(k, v) \<in> set cs" "\<not> is_str v"
      then obtain w where "map_of (recorded_as c) k = Some w" "py_eq v w" using items by blast
      moreover then have "is_str w" using recorded_flat by (auto simp: recorded_as_def dest!: map_of_SomeD)
      ultimately show "v = PNone" using kv(2) by (metis is_str_iff py_eq_PStr)
    qed
    from flat_py_eq [OF dc dn this] eq show ?thesis by simp
  qed
  moreover have "\<forall>s \<in> set (take ?k (p_slots p)). slot_clean p c s"
    using fold(1) unfolding stopped slots_clean snd_enumerate_set .
  moreover have "case c_stop_marker c of None \<Rightarrow> True | Some m \<Rightarrow> m = PNone"
    using mark stopped by (simp split: option.splits)
  moreover have "checkpoint_is p c cs PNone PNone reg" using cp a st by simp
  moreover have "c_checkpoint c = progress" using cp pr by (simp add: checkpoint_is_def)
  ultimately show ?thesis using reg sealed pr unfolding boundary_def by auto
qed

text \<open>During a slot: the campaign without the new directory is at a boundary.\<close>

definition before :: "plan \<Rightarrow> campaign \<Rightarrow> e5_slot \<Rightarrow> (string \<times> pv) list \<Rightarrow> campaign" where
  "before p c s consumed = c\<lparr>c_slots := filter (\<lambda>r. r_id r \<noteq> s_id s) (c_slots c),
     c_checkpoint := progress_doc (length (p_slots p)) (fld (c_checkpoint c) ''registration'') consumed PNone PNone\<rparr>"

definition active_in :: "plan \<Rightarrow> campaign \<Rightarrow> e5_slot \<Rightarrow> (string \<times> pv) list \<Rightarrow> bool" where
  "active_in p c s consumed = (boundary p (before p c s consumed) consumed \<and>
     checkpoint_is p c consumed (PStr (s_id s)) PNone (fld (c_checkpoint c) ''registration'') \<and>
     (p_phase p = ''measurement'' \<longrightarrow> fld (c_checkpoint c) ''registration'' \<noteq> PNone) \<and> s \<in> set (p_slots p))"

definition sealed_clean :: "plan \<Rightarrow> campaign \<Rightarrow> e5_slot \<Rightarrow> bool" where
  "sealed_clean p c s = (\<exists>r b. retained_of c (s_id s) = Some r \<and> r_sealed r \<and>
     r_state r = state_doc s (declaration_of p s) b PNone \<and> (declaration_of p s = PNone \<longrightarrow> b_clean b) \<and>
     (declaration_of p s \<noteq> PNone \<longrightarrow> \<not> r_ran r))"

fun resumable :: "plan \<Rightarrow> system \<Rightarrow> bool" where
  "resumable p (Down, c, tr) = True"
| "resumable p (Ready consumed, c, tr) = boundary p c consumed"
| "resumable p (Activated consumed s, c, tr) = active_in p c s consumed"
| "resumable p (Created consumed s, c, tr) = (active_in p c s consumed \<and> tr \<noteq> [] \<and> last tr = s_id s)"
| "resumable p (Sealed consumed s stop, c, tr) = (stop = PNone \<longrightarrow>
     active_in p c s consumed \<and> tr \<noteq> [] \<and> last tr = s_id s \<and> sealed_clean p c s)"
| "resumable p (Recorded consumed s stop, c, tr) = (stop = PNone \<longrightarrow> boundary p c consumed)"

lemma before_same [simp]:
  "c_registration (before p c s cs) = c_registration c" "c_manifest_sha (before p c s cs) = c_manifest_sha c"
  "c_order_sha (before p c s cs) = c_order_sha c" "c_stop_marker (before p c s cs) = c_stop_marker c"
  "c_checkpoint_ok (before p c s cs) = c_checkpoint_ok c"
  "c_slots (before p c s cs) = filter (\<lambda>r. r_id r \<noteq> s_id s) (c_slots c)"
  by (simp_all add: before_def)

lemma before_new_directory: "before p (new_directory s c) s cs = before p c s cs"
  by (simp add: before_def new_directory_def)

lemma before_seal: "before p (seal_slot s d st ran' c) s cs = before p c s cs"
proof -
  have "filter (\<lambda>r. r_id r \<noteq> s_id s) (c_slots (seal_slot s d st ran' c)) = filter (\<lambda>r. r_id r \<noteq> s_id s) (c_slots c)"
  proof -
    have "filter (\<lambda>r. r_id r \<noteq> s_id s) (map (\<lambda>r. if r_id r = s_id s
        then r\<lparr>r_sealed := True, r_digest := d, r_state := st, r_ran := ran'\<rparr> else r) rs) =
      filter (\<lambda>r. r_id r \<noteq> s_id s) rs" for rs by (induction rs) auto
    then show ?thesis by (simp add: seal_slot_def)
  qed
  then show ?thesis by (simp add: before_def seal_slot_def)
qed

lemma retained_of_find: "retained_of c n = find (\<lambda>r. r_id r = n) (c_slots c)"
  by (simp add: retained_of_def)

lemma retained_of_before: "n \<noteq> s_id s \<Longrightarrow> retained_of (before p c s cs) n = retained_of c n"
proof -
  assume "n \<noteq> s_id s"
  then have "find (\<lambda>r. r_id r = n) (filter (\<lambda>r. r_id r \<noteq> s_id s) rs) = find (\<lambda>r. r_id r = n) rs" for rs
    by (induction rs) auto
  then show ?thesis by (simp add: retained_of_find)
qed

text \<open>The new directory is the last one.\<close>

lemma last_directory:
  assumes o: "in_order p c tr" and l: "tr \<noteq> []" "last tr = s_id s" and d: "distinct (slot_ids p)"
  obtains old new where "c_slots c = old @ [new]" "r_id new = s_id s"
    "filter (\<lambda>r. r_id r \<noteq> s_id s) (c_slots c) = old" "length old < length (p_slots p)"
    "s_id (p_slots p ! length old) = s_id s" "retained_of c (s_id s) = Some new" "s_id s \<notin> r_id ` set old"
proof -
  have names: "map r_id (c_slots c) = tr" "tr = take (length tr) (slot_ids p)" using o unfolding in_order_def by blast+
  then have ne: "c_slots c \<noteq> []" using l(1) by auto
  let ?old = "butlast (c_slots c)" and ?new = "last (c_slots c)"
  have split: "c_slots c = ?old @ [?new]" using ne by simp
  have id: "r_id ?new = s_id s" using names(1) l ne by (metis last_map)
  have "distinct tr" using names(2) d by (metis distinct_take)
  then have "distinct (map r_id (?old @ [?new]))" using names(1) split by metis
  then have notin: "s_id s \<notin> r_id ` set ?old" using id by simp
  then have other: "\<forall>r \<in> set ?old. r_id r \<noteq> s_id s" by (metis image_eqI)
  have "filter (\<lambda>r. r_id r \<noteq> s_id s) (?old @ [?new]) = ?old" using other id by simp
  then have filt: "filter (\<lambda>r. r_id r \<noteq> s_id s) (c_slots c) = ?old" using split by simp
  have "find (\<lambda>r. r_id r = s_id s) (rs @ [?new]) = Some ?new" if "\<forall>r \<in> set rs. r_id r \<noteq> s_id s" for rs
    using that id by (induction rs) auto
  then have "find (\<lambda>r. r_id r = s_id s) (?old @ [?new]) = Some ?new" using other by blast
  then have ret: "retained_of c (s_id s) = Some ?new" using split by (simp add: retained_of_find)
  have lt: "length tr = Suc (length ?old)" using names(1) split by (metis length_append_singleton length_map)
  have le: "length tr \<le> length (slot_ids p)" using names(2) by (metis length_take min.cobounded1)
  have "tr ! length ?old = slot_ids p ! length ?old" using names(2) lt by (metis lessI nth_take)
  moreover have "tr ! length ?old = s_id s" using l lt by (metis diff_Suc_1 last_conv_nth)
  ultimately have "s_id (p_slots p ! length ?old) = s_id s" "length ?old < length (p_slots p)"
    using lt le by (auto simp: slot_ids_def)
  then show ?thesis using that [OF split id filt _ _ ret notin] by blast
qed

text \<open>Recording a clean slot leads to the next boundary.\<close>

lemma record_boundary:
  assumes act: "active_in p c s consumed" and o: "in_order p c tr" and l: "tr \<noteq> []" "last tr = s_id s"
    and d: "distinct (slot_ids p)" and clean: "sealed_clean p c s" and r: "retained_of c (s_id s) = Some r"
    and sp: "save_progress (length (p_slots p)) (put (s_id s) (PStr (r_digest r)) consumed) PNone PNone c = Inr c'"
    and wf: "\<And>s. wf_pv (declaration_of p s)"
  shows "boundary p c' (put (s_id s) (PStr (r_digest r)) consumed)"
proof -
  let ?cs = "put (s_id s) (PStr (r_digest r)) consumed"
  let ?reg = "fld (c_checkpoint c) ''registration''"
  obtain old new where slots: "c_slots c = old @ [new]" "r_id new = s_id s"
    "filter (\<lambda>r. r_id r \<noteq> s_id s) (c_slots c) = old" "length old < length (p_slots p)"
    "s_id (p_slots p ! length old) = s_id s" "retained_of c (s_id s) = Some new" "s_id s \<notin> r_id ` set old"
    by (rule last_directory [OF o l d])
  have rn: "r = new" using r slots(6) by simp
  from act have cp: "checkpoint_is p c consumed (PStr (s_id s)) PNone ?reg"
    and regn: "p_phase p = ''measurement'' \<longrightarrow> ?reg \<noteq> PNone" and bb: "boundary p (before p c s consumed) consumed"
    unfolding active_in_def by blast+
  have c': "c' = c\<lparr>c_checkpoint := progress_doc (length (p_slots p)) ?reg ?cs PNone PNone\<rparr>"
    by (rule save_progress_doc [OF sp cp])
  from bb obtain reg where b: "checkpoint_is p (before p c s consumed) consumed PNone PNone reg"
    "retained_registration (before p c s consumed) (c_checkpoint (before p c s consumed)) = Inr reg"
    "set consumed = set (recorded_as (before p c s consumed))" "list_all r_sealed old"
    "\<forall>s' \<in> set (take (length old) (p_slots p)). slot_clean p (before p c s consumed) s'"
    "case c_stop_marker c of None \<Rightarrow> True | Some m \<Rightarrow> m = PNone"
    unfolding boundary_def by (auto simp: slots(3))
  have regeq: "reg = ?reg" using b(1) by (simp add: checkpoint_is_def before_def progress_doc_def)
  have reg': "retained_registration c' (c_checkpoint c') = Inr ?reg"
    using b(2) unfolding regeq c' by (subst registration_same [where c = "before p c s consumed" and d = "c_checkpoint (before p c s consumed)"])
      (simp_all add: before_def)
  have before_rec: "recorded_as (before p c s consumed) = map (\<lambda>r. (r_id r, PStr (r_digest r))) old"
    unfolding recorded_as_def before_same slots(3) by (rule refl)
  have keys: "fst ` set consumed = r_id ` set old"
    unfolding b(3) before_rec by (auto simp: image_iff)
  have "set ?cs = insert (s_id s, PStr (r_digest new)) (set consumed)"
    using keys slots(7) rn by (simp add: set_put_new)
  also have "\<dots> = set (recorded_as c')"
    unfolding b(3) before_rec using slots(1,2) by (simp add: c' recorded_as_def)
  finally have rec: "set ?cs = set (recorded_as c')" .
  obtain s0 where s0: "s0 = p_slots p ! length old" by simp
  have same: "s' = s0" if mem: "s' \<in> set (p_slots p)" and eq: "s_id s' = s_id s" for s'
  proof -
    obtain j where "j < length (p_slots p)" "p_slots p ! j = s'" using mem by (auto simp: in_set_conv_nth)
    then show ?thesis using eq slots(4,5) d s0
      by (metis distinct_conv_nth length_map nth_map slot_ids_def)
  qed
  have s0s: "s0 = s" using same [of s] act unfolding active_in_def by simp
  have "slot_clean p c' s'" if s': "s' \<in> set (take (length (c_slots c')) (p_slots p))" for s'
  proof (cases "s_id s' = s_id s")
    case True
    then have "s' = s" using same s' s0s by (meson in_set_takeD)
    moreover have "slot_clean p c' s"
      using clean rn slots(6) wf unfolding sealed_clean_def
      by (auto simp: c' retained_of_def intro!: new_slot_clean)
    ultimately show ?thesis by simp
  next
    case False
    have "take (Suc (length old)) (p_slots p) = take (length old) (p_slots p) @ [s0]"
      using slots(4) s0 by (simp add: take_Suc_conv_app_nth)
    then have "s' \<in> set (take (length old) (p_slots p))"
      using s' False slots(1,5) s0 by (auto simp: c')
    then have "slot_clean p (before p c s consumed) s'" using b(5) by blast
    moreover have "retained_of c' (s_id s') = retained_of (before p c s consumed) (s_id s')"
      using retained_of_before [OF False] by (simp add: c' retained_of_def)
    ultimately show ?thesis using slot_clean_other by blast
  qed
  moreover have "checkpoint_is p c' ?cs PNone PNone ?reg"
    using cp put_distinct by (auto simp: checkpoint_is_def c')
  moreover have "list_all r_sealed (c_slots c')"
    using b(4) clean slots(1,6) by (auto simp: c' sealed_clean_def)
  ultimately show ?thesis using reg' regn rec b(6) unfolding boundary_def by (auto simp: c')
qed

lemma seal_slot_clean:
  assumes "retained_of c (s_id s) = Some r" "declaration_of p s = PNone \<longrightarrow> b_clean b" "declaration_of p s \<noteq> PNone \<longrightarrow> \<not> did"
  shows "sealed_clean p (seal_slot s d (state_doc s (declaration_of p s) b PNone) did c) s"
proof -
  have "find (\<lambda>r. r_id r = n) (map (\<lambda>r. if r_id r = n then f r else r) rs) = map_option f (find (\<lambda>r. r_id r = n) rs)"
    if "\<And>r. r_id (f r) = r_id r" for n f and rs :: "retained list"
    using that by (induction rs) auto
  then have "retained_of (seal_slot s d (state_doc s (declaration_of p s) b PNone) did c) (s_id s) =
      Some (r\<lparr>r_sealed := True, r_digest := d, r_state := state_doc s (declaration_of p s) b PNone, r_ran := did\<rparr>)"
    using assms(1) by (simp add: retained_of_def seal_slot_def)
  then show ?thesis using assms(2,3) unfolding sealed_clean_def by auto
qed

lemma cstep_resumable:
  assumes "cstep p x y" "resumable p x" "collector_ok p x" "checkpoint_ok p x"
    and d: "distinct (slot_ids p)" and wf: "\<And>s. wf_pv (declaration_of p s)"
  shows "resumable p y"
  using assms(1)
proof (cases rule: cstep.cases)
  case (start c progress tr)
  have "c_checkpoint_ok c" using start(3) by (auto simp: retained_progress_def Let_def ebind_eq_Inr)
  then obtain cs a st reg where "checkpoint_is p c cs a st reg" using assms(4) start(1) by auto
  then show ?thesis using accepted_boundary start assms(3) d by simp
next
  case (register c v consumed tr)
  obtain m h where "map_of (items_of v) ''manifest_sha256'' = Some m" "map_of (items_of v) ''order_sha256'' = Some h"
    "m = PStr (c_manifest_sha c)" "h = PStr (c_order_sha c)"
    using register(7,8) by (auto simp: fld_def split: option.splits)
  then have "retained_registration (c\<lparr>c_registration := Some v, c_checkpoint := X\<rparr>)
      (progress_doc n v consumed PNone PNone) = Inr v" for X n
    using register(5,6) by (cases v) (auto simp: retained_registration_def)
  then show ?thesis using assms(2) register(1,2,3)
    by (auto simp: boundary_def checkpoint_is_def recorded_as_def)
next
  case (activate c s consumed c' tr)
  then have b: "boundary p c consumed" using assms(2) by simp
  then obtain reg where cp: "checkpoint_is p c consumed PNone PNone reg" unfolding boundary_def by blast
  have c': "c' = c\<lparr>c_checkpoint := progress_doc (length (p_slots p)) reg consumed (PStr (s_id s)) PNone\<rparr>"
    by (rule save_progress_doc [OF activate(5) cp])
  have reg: "fld (c_checkpoint c) ''registration'' = reg" using cp by (simp add: checkpoint_is_def)
  have fresh: "s_id s \<notin> r_id ` set (c_slots c)" and mem: "s \<in> set (p_slots p)"
    using activate(4) by (auto simp: next_slot_def find_Some_iff)
  then have "\<forall>r \<in> set (c_slots c). r_id r \<noteq> s_id s" by (metis image_eqI)
  then have "filter (\<lambda>r. r_id r \<noteq> s_id s) (c_slots c) = c_slots c" by simp
  then have "before p c' s consumed = c"
    using cp by (simp add: before_def c' checkpoint_is_def)
  then show ?thesis using b cp activate(2,3) reg mem
    by (auto simp: active_in_def checkpoint_is_def c')
next
  case (create consumed s c tr)
  have "active_in p c s consumed" using assms(2) create(1) by simp
  then have "active_in p (new_directory s c) s consumed"
    unfolding active_in_def before_new_directory by (simp add: checkpoint_is_def new_directory_def)
  then show ?thesis using create(2) by simp
next
  case (seal s env b r stop now consumed c tr dg)
  have act: "active_in p c s consumed" "tr \<noteq> []" "last tr = s_id s" and o: "in_order p c tr"
    using assms(2,3) seal(1) by simp_all
  let ?c' = "seal_slot s dg (state_doc s (declaration_of p s) b stop) (b_ran b) c"
  have act': "active_in p ?c' s consumed"
    using act(1) unfolding active_in_def before_seal by (simp add: checkpoint_is_def seal_slot_def)
  have "sealed_clean p ?c' s" if "stop = PNone"
  proof -
    obtain new where new: "retained_of c (s_id s) = Some new" by (rule last_directory [OF o act(2,3) d])
    have "r = None" using stop_doc_PNone [OF seal(4), of now "s_id s"] that seal(5) by simp
    then have "stop_reason env b = None" using seal(3) by (auto simp: finish_slot_def Let_def)
    then have clean: "b_clean b" using stop_reason_None by blast
    have notran: "\<not> b_ran b" if "declaration_of p s \<noteq> PNone"
      using seal(3) that finish_declared [of "p_phase p" "warm_slot s" env b r] by simp
    show ?thesis unfolding that by (rule seal_slot_clean [OF new]) (use clean notran in blast)+
  qed
  then show ?thesis unfolding seal(2) resumable.simps using act' act(2,3) by blast
next
  case (recorded c s r consumed' consumed stop c' tr)
  show ?thesis
  proof (cases "stop = PNone")
    case True
    have "boundary p c' consumed'"
      using assms(2,3) recorded(1,3,4,5) True wf unfolding recorded(4)
      by (intro record_boundary [where c = c and tr = tr and consumed = consumed] d) auto
    then show ?thesis using recorded(2) by simp
  qed (use recorded(2) in simp)
next
  case (interrupted m stop now s consumed c tr dg b did_run)
  then have "stop \<noteq> PNone" by (simp add: stop_doc_def)
  then show ?thesis using interrupted(2) by simp
qed (use assms(2) in simp_all)

lemma reachable_resumable:
  "reachable p c0 x \<Longrightarrow> c_slots c0 = [] \<Longrightarrow> checkpoint_ok p (Down, c0, []) \<Longrightarrow> distinct (slot_ids p) \<Longrightarrow>
     (\<And>s. wf_pv (declaration_of p s)) \<Longrightarrow> resumable p x \<and> checkpoint_ok p x"
proof (induction rule: reachable.induct)
  case (step x y)
  then show ?case using cstep_resumable cstep_checkpoint_ok reachable_ok by metis
qed simp

section \<open>Properties\<close>

definition plan_ok :: "plan \<Rightarrow> bool" where
  "plan_ok p = (distinct (slot_ids p) \<and> wf_pv (p_declared p))"

lemma declaration_wf: "wf_pv (p_declared p) \<Longrightarrow> wf_pv (declaration_of p s)"
proof -
  assume wf: "wf_pv (p_declared p)"
  show "wf_pv (declaration_of p s)"
  proof (cases "p_declared p")
    case (PDict d)
    then show ?thesis using wf by (fastforce simp: declaration_of_def list_all_iff split: option.splits dest!: map_of_SomeD)
  qed (auto simp: declaration_of_def fld_def items_of_def)
qed

lemma frozen_ok: "checkpoint_ok p (Down, frozen_campaign p m h reg file, [])"
  unfolding checkpoint_ok.simps checkpoint_is_def
  by (intro impI exI [of _ "[]"] exI [of _ PNone] exI [of _ reg]) (simp add: frozen_campaign_def)

text \<open>
  C3. However often the collector dies and is restarted, each slot is started at most once and in the
  frozen order: the directories that exist are those of the started slots, and they are a prefix of it.
\<close>

theorem slots_started_once:
  assumes "reachable p (frozen_campaign p m h reg file) (x, c, tr)" "distinct (slot_ids p)"
  shows "tr = take (length tr) (slot_ids p) \<and> distinct tr \<and> map r_id (c_slots c) = tr"
proof -
  have "in_order p c tr"
    using reachable_ok [OF assms(1) _ assms(2)] by (cases x) (simp_all add: frozen_campaign_def)
  then have o: "map r_id (c_slots c) = tr" "tr = take (length tr) (slot_ids p)" unfolding in_order_def by blast+
  then have "distinct tr" using assms(2) by (metis distinct_take)
  then show ?thesis using o by blast
qed

text \<open>
  C13. Nothing follows a stop: whenever a new slot directory is created, every earlier slot is sealed and
  its sealed state records no stop.
\<close>

theorem no_slot_after_stop:
  assumes "reachable p (frozen_campaign p m h reg file) (x, c, tr)" "cstep p (x, c, tr) (y, c', tr @ [n])"
    and "distinct (slot_ids p)"
  shows "list_all (\<lambda>r. r_sealed r \<and> \<not> truthy (stop_of r)) (c_slots c)"
proof -
  have ok: "collector_ok p (x, c, tr)"
    using reachable_ok [OF assms(1) _ assms(3)] by (simp add: frozen_campaign_def)
  from assms(2) obtain consumed s where "x = Activated consumed s"
    by (cases rule: cstep.cases) simp_all
  then show ?thesis using ok by (simp add: list_all_iff settled_def)
qed

text \<open>
  C15. A crash between two slots loses nothing: whenever the collector is ready for the next slot, what
  is on disk passes \<open>retained_progress\<close>, records no stop, and gives back the mapping the collector holds.
\<close>

theorem slot_boundary_resumable:
  assumes "reachable p (frozen_campaign p m h reg file) (Ready consumed, c, tr)" "plan_ok p"
  shows "\<exists>progress. retained_progress p c = Inr progress \<and> fld progress ''stopped'' = PNone \<and>
    fld progress ''slots'' = PDict consumed"
proof -
  have p: "distinct (slot_ids p)" "\<And>s. wf_pv (declaration_of p s)"
    using assms(2) declaration_wf unfolding plan_ok_def by blast+
  have c0: "c_slots (frozen_campaign p m h reg file) = []" by (simp add: frozen_campaign_def)
  have "boundary p c consumed"
    using reachable_resumable [OF assms(1) c0 frozen_ok p(1)] p(2) by simp
  moreover have "in_order p c tr" using reachable_ok [OF assms(1) c0 p(1)] by simp
  ultimately have "retained_progress p c = Inr (c_checkpoint c)" using boundary_accepted p(1) by blast
  moreover obtain reg' where "c_checkpoint c = progress_doc (length (p_slots p)) reg' consumed PNone PNone"
    using \<open>boundary p c consumed\<close> unfolding boundary_def checkpoint_is_def by blast
  ultimately show ?thesis by simp
qed

text \<open>
  C18. A slot is sealed without a stop only when its allocation is proven clean: nothing was interrupted
  or left running, no integrity check failed, and if the allocation was started, then in a measurement
  the cleanup hook succeeded with its processes contained and its proof valid, and otherwise the evidence
  of the measured command proved the cleanup.
\<close>

theorem unstopped_slot_is_clean:
  assumes "finish_slot ph warm_cell declared env = (b, None)"
  shows "b_clean b \<and> \<not> b_interrupted b \<and> e_unfinished env = [] \<and> e_integrity env = None \<and>
    (b_started b \<longrightarrow>
      (if ph = ''measurement'' then
         e_cleanup_ready env = None \<and> (\<exists>r. e_cleanup env = Inr r \<and> succeeds r \<and> contained r) \<and> e_cleanup_proof env = None
       else (\<exists>r. e_run env = Inr r \<and> contained r) \<and> e_evidence env = Inr (Inr True)))"
proof -
  let ?b0 = "slot_body ph warm_cell declared env"
  have b: "b = run_cleanup ph env ?b0" "stop_reason env b = None"
    using assms by (auto simp: finish_slot_def Let_def)
  have none: "b_clean b" "\<not> b_interrupted b" "e_unfinished env = []" "e_integrity env = None"
    using stop_reason_None [OF b(2)] by blast+
  have started: "b_started b = b_started ?b0" by (simp add: b(1) run_cleanup_def split: sum.splits)
  show ?thesis
  proof (cases "ph = ''measurement'' \<and> b_started b")
    case True
    then have "e_cleanup_ready env = None \<and> (\<exists>r. e_cleanup env = Inr r \<and> succeeds r \<and> contained r) \<and> e_cleanup_proof env = None"
      using none(1) started unfolding b(1) run_cleanup_def
      by (auto simp: pass_def need_success_def ebind_eq_Inr split: sum.splits option.splits if_splits)
    then show ?thesis using none True by auto
  next
    case False
    then have same: "b = ?b0" using started by (auto simp: b(1) run_cleanup_def)
    have "(\<exists>r. e_run env = Inr r \<and> contained r) \<and> e_evidence env = Inr (Inr True)" if "b_started b"
      using none(1,2) that False unfolding same
      by (auto simp: slot_body_def measured_def Let_def pass_def ebind_eq_Inr
          split: sum.splits option.splits if_splits fault.splits)
    then show ?thesis using none False by auto
  qed
qed


section \<open>A campaign of one slot\<close>

definition sample_slot :: e5_slot where
  "sample_slot = \<lparr>s_key = (''W0'', ''unsafe'', ''cold'', ''01''), s_arm = ''B-G'', s_id = ''0001'',
     s_ordinal = 1, s_attempt = 1, s_cap = 60\<rparr>"

definition sample_plan :: plan where
  "sample_plan = \<lparr>p_phase = ''feasibility'', p_declared = PDict [], p_slots = [sample_slot]\<rparr>"

definition sample_env :: slot_env where
  "sample_env = \<lparr>e_delivered = None, e_boundary_start = None,
     e_prepare = Inr \<lparr>succeeds = True, contained = True\<rparr>, e_preparation = None, e_warm = None,
     e_prepared_boundary = None, e_run_ready = None, e_run = Inr \<lparr>succeeds = False, contained = True\<rparr>,
     e_evidence = Inr (Inr True), e_after_run = None, e_observe = Inr \<lparr>succeeds = True, contained = True\<rparr>,
     e_observation = None, e_cleanup_ready = None, e_cleanup = Inr \<lparr>succeeds = True, contained = True\<rparr>,
     e_cleanup_proof = None, e_unfinished = [], e_integrity = None\<rparr>"

definition sample_end :: body_state where
  "sample_end = \<lparr>b_started = True, b_clean = True, b_error = None, b_interrupted = False, b_ran = True\<rparr>"

abbreviation sample_frozen :: campaign where
  "sample_frozen \<equiv> frozen_campaign sample_plan ''m'' ''h'' PNone None"

definition sample_activated :: campaign where
  "sample_activated = sample_frozen\<lparr>c_checkpoint := progress_doc 1 PNone [] (PStr ''0001'') PNone\<rparr>"

definition sample_sealed :: campaign where
  "sample_sealed = seal_slot sample_slot ''seal'' (state_doc sample_slot PNone sample_end PNone) True
     (new_directory sample_slot sample_activated)"

definition sample_recorded :: campaign where
  "sample_recorded = sample_sealed\<lparr>c_checkpoint := progress_doc 1 PNone [(''0001'', PStr ''seal'')] PNone PNone\<rparr>"

lemma sample_finish: "finish_slot ''feasibility'' False False sample_env = (sample_end, None)"
  by (simp add: finish_slot_def run_cleanup_def slot_body_def measured_def Let_def pass_def sample_env_def
      sample_end_def stop_reason_def)

lemma sample_measurement: "finish_slot ''measurement'' False False sample_env = (sample_end, None)"
  by (simp add: finish_slot_def run_cleanup_def slot_body_def measured_def Let_def pass_def sample_env_def
      sample_end_def stop_reason_def need_success_def)

lemma sample_plan_facts [simp]:
  "p_phase sample_plan = ''feasibility''" "p_slots sample_plan = [sample_slot]" "s_id sample_slot = ''0001''"
  "declaration_of sample_plan sample_slot = PNone" "distinct (slot_ids sample_plan)" "plan_ok sample_plan"
  by (simp_all add: sample_plan_def sample_slot_def declaration_of_def fld_def items_of_def slot_ids_def plan_ok_def)

lemma sample_warm [simp]: "\<not> warm_slot sample_slot"
  by (simp add: warm_slot_def sample_slot_def)

lemma sample_boundary: "boundary sample_plan sample_frozen []"
  unfolding boundary_def checkpoint_is_def
  by (intro exI [of _ PNone]) (simp add: frozen_campaign_def recorded_as_def retained_registration_def)

lemma sample_ready: "reachable sample_plan sample_frozen (Ready [], sample_frozen, [])"
proof -
  have "in_order sample_plan sample_frozen []" by (simp add: in_order_def frozen_campaign_def)
  then have ok: "retained_progress sample_plan sample_frozen = Inr (c_checkpoint sample_frozen)"
    using boundary_accepted [OF sample_boundary] by simp
  have "cstep sample_plan (Down, sample_frozen, []) (Ready [], sample_frozen, [])"
    using cstep.start [OF ok, of "[]"] by (simp add: frozen_campaign_def)
  then show ?thesis using reachable.initial reachable.step by blast
qed

lemma sample_step_activate: "cstep sample_plan (Ready [], sample_frozen, []) (Activated [] sample_slot, sample_activated, [])"
  by (rule cstep.activate)
    (simp_all add: next_slot_def frozen_campaign_def save_progress_def sample_activated_def)

lemma sample_active: "reachable sample_plan sample_frozen (Activated [] sample_slot, sample_activated, [])"
  using sample_ready sample_step_activate reachable.step by blast

lemma sample_done: "reachable sample_plan sample_frozen (Ready [(''0001'', PStr ''seal'')], sample_recorded, [''0001''])"
proof -
  have a: "reachable sample_plan sample_frozen (Created [] sample_slot, new_directory sample_slot sample_activated, [''0001''])"
    using sample_active cstep.create [of sample_plan "[]" sample_slot sample_activated "[]"] reachable.step by fastforce
  have "finish_slot (p_phase sample_plan) (warm_slot sample_slot) (declaration_of sample_plan sample_slot \<noteq> PNone) sample_env
      = (sample_end, None)"
    using sample_finish by simp
  from cstep.seal [OF this, of PNone "[]" "[]" "new_directory sample_slot sample_activated" "[''0001'']" "''seal''"]
  have b: "reachable sample_plan sample_frozen (Sealed [] sample_slot PNone, sample_sealed, [''0001''])"
    using a reachable.step by (simp add: stop_doc_def sample_sealed_def sample_end_def)
  have r: "retained_of sample_sealed (s_id sample_slot) = Some \<lparr>r_id = ''0001'', r_sealed = True, r_digest = ''seal'',
      r_state = state_doc sample_slot PNone sample_end PNone, r_ran = True\<rparr>"
    by (simp add: retained_of_def sample_sealed_def seal_slot_def new_directory_def sample_activated_def frozen_campaign_def)
  have "cstep sample_plan (Sealed [] sample_slot PNone, sample_sealed, [''0001''])
      (Recorded [(''0001'', PStr ''seal'')] sample_slot PNone, sample_recorded, [''0001''])"
    by (rule cstep.recorded [OF r]) (simp_all add: save_progress_def sample_recorded_def sample_sealed_def seal_slot_def
        new_directory_def sample_activated_def frozen_campaign_def)
  then show ?thesis using b reachable.step cstep.continue by blast
qed

lemma slots_started_once_witness:
  "map r_id (c_slots sample_recorded) = [''0001''] \<and> distinct [''0001'']"
  using slots_started_once [OF sample_done] by simp

lemma no_slot_after_stop_witness:
  "list_all (\<lambda>r. r_sealed r \<and> \<not> truthy (stop_of r)) (c_slots sample_activated)"
  using no_slot_after_stop [OF sample_active, of "Created [] sample_slot" "new_directory sample_slot sample_activated" "''0001''"]
    cstep.create [of sample_plan "[]" sample_slot sample_activated "[]"] by simp

lemma slot_boundary_resumable_witness:
  "\<exists>progress. retained_progress sample_plan sample_recorded = Inr progress \<and> fld progress ''stopped'' = PNone \<and>
     fld progress ''slots'' = PDict [(''0001'', PStr ''seal'')]"
  using slot_boundary_resumable [OF sample_done] by simp

lemma unstopped_slot_is_clean_witness:
  "b_clean sample_end \<and> e_cleanup_proof sample_env = None \<and> b_started sample_end"
  using unstopped_slot_is_clean [OF sample_measurement] by (simp add: sample_end_def)

end
