(* ===== verification/Gate.thy ===== *)
theory Gate
  imports Support
begin

text \<open>
  The composite GitHub action, \<open>scripts/actions-gate.py\<close>: release resolution and the
  checksum-verified download, the inspection of a finished run (\<open>parse_run\<close>, \<open>run\<close>), the
  gate decision, the step summary and the pull request comment.

  Text that the action writes is a list of UTF-8 bytes, as are the environment values and the
  stored report it copies.  The network, the file system, the archive reader and the process
  launcher are arguments; what they return is read the way the script reads it.
\<close>

section \<open>Text\<close>

definition newline :: char where "newline = CHR 0x0A"

definition line_break :: "char \<Rightarrow> bool" where
  "line_break c = (let n = char_code c in (10 \<le> n \<and> n \<le> 13) \<or> (28 \<le> n \<and> n \<le> 30) \<or> n = 133)"

text \<open>\<open>str.splitlines\<close>; the first argument is the current line, reversed.\<close>

function split_lines :: "string \<Rightarrow> string \<Rightarrow> string list" where
  "split_lines cur [] = (if cur = [] then [] else [rev cur])"
| "split_lines cur (c # s) =
     (if c = CHR 0x0D then rev cur # split_lines [] (case s of d # t \<Rightarrow> if d = newline then t else s | [] \<Rightarrow> s)
      else if line_break c then rev cur # split_lines [] s else split_lines (c # cur) s)"
  by pat_completeness auto
termination by (relation "measure (length \<circ> snd)") (auto split: list.splits)

abbreviation splitlines :: "string \<Rightarrow> string list" where
  "splitlines s \<equiv> split_lines [] s"

definition safe_char :: "char \<Rightarrow> bool" where
  "safe_char c = (is_alnum c \<or> c = CHR ''.'' \<or> c = CHR ''_'' \<or> c = CHR ''-'')"

text \<open>The closed grammars: \<open>VERSION\<close>, \<open>SCHEDULE\<close>, \<open>REPOSITORY\<close>, \<open>SAFE_NAME\<close>, \<open>SERVER_HOST\<close>.\<close>

definition number_text :: "string \<Rightarrow> bool" where
  "number_text s = (s \<noteq> [] \<and> list_all is_digit s)"

definition version_ok :: "string \<Rightarrow> bool" where
  "version_ok s = (case s of [] \<Rightarrow> False | v # t \<Rightarrow> v = CHR ''v'' \<and>
     (case split_on (CHR ''.'') (takeWhile (\<lambda>c. c \<noteq> CHR ''-'') t) of
        [a, b, c] \<Rightarrow> number_text a \<and> number_text b \<and> number_text c | _ \<Rightarrow> False) \<and>
     (case dropWhile (\<lambda>c. c \<noteq> CHR ''-'') t of [] \<Rightarrow> True | [_] \<Rightarrow> False
        | _ # c # cs \<Rightarrow> is_alnum c \<and> list_all (\<lambda>d. is_alnum d \<or> d = CHR ''.'' \<or> d = CHR ''-'') cs))"

definition schedule_ok :: "string \<Rightarrow> bool" where
  "schedule_ok s = (startswith s ''sch_'' \<and> hex_string 12 (drop 4 s))"

definition safe_name :: "string \<Rightarrow> bool" where
  "safe_name s = (s \<noteq> [] \<and> list_all safe_char s)"

definition repository_ok :: "string \<Rightarrow> bool" where
  "repository_ok s = (case split_on (CHR ''/'') s of [a, b] \<Rightarrow> safe_name a \<and> safe_name b | _ \<Rightarrow> False)"

definition server_host_ok :: "string \<Rightarrow> bool" where
  "server_host_ok s = (case partition_on (CHR '':'') s of (host, found, port) \<Rightarrow>
     (case host of [] \<Rightarrow> False | c # cs \<Rightarrow> is_alnum c \<and> list_all (\<lambda>d. is_alnum d \<or> d = CHR ''.'' \<or> d = CHR ''-'') cs) \<and>
     (found \<longrightarrow> number_text port \<and> length port \<le> 5))"

text \<open>\<open>HEADLINE.match\<close>: the verdict of the first line of a report.\<close>

definition verdict_words :: "string list" where
  "verdict_words = [''PASS'', ''FAIL'', ''FLAKY'']"

definition headline_prefix :: string where
  "headline_prefix = ''## weavegate: ''"

definition headline_rest :: "string \<Rightarrow> bool" where
  "headline_rest r = (r = [] \<or> (startswith r '' ('' \<and> endswith r '')'' \<and> 3 \<le> length r))"

definition headline :: "string \<Rightarrow> string option" where
  "headline s = (let line = takeWhile (\<lambda>c. c \<noteq> newline) s; t = drop (length headline_prefix) line in
     if newline \<in> set s \<and> startswith line headline_prefix
     then find (\<lambda>w. startswith t w \<and> headline_rest (drop (length w) t)) verdict_words
     else None)"

section \<open>Releases\<close>

text \<open>\<open>download\<close>: a payload over the limit is refused after reading one byte more.\<close>

definition download :: "(string \<Rightarrow> string res) \<Rightarrow> string \<Rightarrow> nat \<Rightarrow> string res" where
  "download fetch url limit = ebind (fetch url) (\<lambda>content.
     let payload = take (limit + 1) content in
     require (length payload \<le> limit) ''release asset exceeds size limit'' (Inr payload))"

definition hex_any :: "char \<Rightarrow> bool" where
  "hex_any c = (is_hex c \<or> (CHR ''A'' \<le> c \<and> c \<le> CHR ''F''))"

text \<open>One line of \<open>checksums.txt\<close>: 64 hexadecimal digits, two spaces, the file name (\<open>.\<close> is no newline).\<close>

definition checksum_line :: "string \<Rightarrow> (string \<times> string) option" where
  "checksum_line line = (if list_all hex_any (take 64 line) \<and> length (take 64 line) = 64 \<and>
       take 2 (drop 64 line) = ''  '' \<and> drop 66 line \<noteq> [] \<and> newline \<notin> set (drop 66 line)
     then Some (map lower_char (take 64 line), drop 66 line) else None)"

definition archive_name :: "string \<Rightarrow> string \<Rightarrow> string" where
  "archive_name version arch = ''weavegate_'' @ drop 1 version @ ''_linux_'' @ arch @ ''.tar.gz''"

definition archive_digests :: "string \<Rightarrow> string \<Rightarrow> string list" where
  "archive_digests name checksums = concat (map (\<lambda>l. case checksum_line l of
      Some (d, n) \<Rightarrow> if n = name then [d] else [] | None \<Rightarrow> []) (splitlines checksums))"

definition verified_archive ::
  "(string \<Rightarrow> string res) \<Rightarrow> (string \<Rightarrow> string res) \<Rightarrow> (string \<Rightarrow> string) \<Rightarrow> string \<Rightarrow> string \<Rightarrow> string \<Rightarrow> (string \<times> string \<times> string) res"
where
  "verified_archive fetch decode sha version arch base_url =
     (let name = archive_name version arch; base = base_url @ ''/'' @ version in
      ebind (download fetch (base @ ''/checksums.txt'') 65536) (\<lambda>raw. ebind (decode raw) (\<lambda>checksums.
      let ds = archive_digests name checksums in
      require (length ds = 1) (''exactly one checksum required for '' @ name) (
      ebind (download fetch (base @ ''/'' @ name) (100 * 1024 * 1024)) (\<lambda>archive.
      require (sha archive = hd ds) (''checksum mismatch for '' @ name) (Inr (name, archive, sha archive)))))))"

text \<open>\<open>release_version\<close>: an explicit version, or the action's own tag checked against the repository
  (\<open>tag_ref\<close> is the answer of the tag lookup, a 404 turned into a ValueError).\<close>

definition or_empty :: "string option \<Rightarrow> string" where
  "or_empty v = (case v of None \<Rightarrow> [] | Some s \<Rightarrow> s)"

definition release_version :: "(string \<Rightarrow> string option) \<Rightarrow> (string \<Rightarrow> pv res) \<Rightarrow> string res" where
  "release_version env tag_ref = (let version = or_empty (env ''WEAVEGATE_VERSION'') in
     if version \<noteq> [] then require (version_ok version) ''version must be a published vX.Y.Z release tag'' (Inr version)
     else let r = or_empty (env ''WEAVEGATE_ACTION_REF'') in
       require (version_ok r)
         ''set version to a published vX.Y.Z release tag when using a SHA, branch, local action, or moving major/minor tag'' (
       require (env ''WEAVEGATE_ACTION_REPOSITORY'' = Some ''weavegate/weavegate'')
         ''set version when using an action outside weavegate/weavegate'' (
       ebind (tag_ref r) (\<lambda>reference. ebind (pgetn reference ''ref'') (\<lambda>name.
         require (name = PStr (''refs/tags/'' @ r)) ''action ref is not an exact repository tag'' (Inr r))))))"

definition machine_arch :: "string \<Rightarrow> string option" where
  "machine_arch m = (if m = ''x86_64'' then Some ''amd64'' else if m = ''aarch64'' then Some ''arm64'' else None)"

text \<open>A member of the archive: whether it is a regular file, its size and, if readable, its content.\<close>

record tar_member =
  tm_file :: bool
  tm_size :: nat
  tm_data :: "string option"

text \<open>\<open>install\<close>: the content of the binary and of \<open>install.txt\<close>.\<close>

definition install ::
  "(string \<Rightarrow> string option) \<Rightarrow> (string \<Rightarrow> pv res) \<Rightarrow> (string \<Rightarrow> string res) \<Rightarrow> (string \<Rightarrow> string res) \<Rightarrow> (string \<Rightarrow> string) \<Rightarrow>
   (string \<Rightarrow> string \<Rightarrow> tar_member res) \<Rightarrow> string \<Rightarrow> string \<Rightarrow> string \<Rightarrow> (string \<times> string) res"
where
  "install env tag_ref fetch decode sha getmember system machine base_url =
     ebind (release_version env tag_ref) (\<lambda>version.
     require (system = ''Linux'') ''the action requires a Linux runner with Docker'' (
     (case machine_arch machine of
        None \<Rightarrow> Inl (ValueError (''unsupported Linux architecture: '' @ machine))
      | Some arch \<Rightarrow>
        ebind (verified_archive fetch decode sha version arch base_url) (\<lambda>(name, archive, d).
        ebind (getmember archive (take (length name - 7) name @ ''/weavegate'')) (\<lambda>m.
        require (tm_file m \<and> tm_size m \<le> 50 * 1024 * 1024) ''invalid release binary member'' (
        case tm_data m of
          None \<Rightarrow> Inl (ValueError ''release binary member cannot be read'')
        | Some binary \<Rightarrow> Inr (binary, ''version='' @ version @ [newline] @ ''archive='' @ name @ [newline]
            @ ''sha256='' @ d @ [newline])))))))"

text \<open>\<open>installed_version\<close>: an unreadable file is no version.\<close>

definition installed_version :: "string res \<Rightarrow> string" where
  "installed_version install_text = (case install_text of
     Inr t \<Rightarrow> (case find (\<lambda>l. startswith l ''version='') (splitlines t) of Some l \<Rightarrow> drop 8 l | None \<Rightarrow> [])
   | Inl _ \<Rightarrow> [])"

section \<open>The finished run\<close>

definition base_files :: "string list" where
  "base_files = [''manifest.json'', ''scenario.json'', ''observation.json'', ''trace.json'', ''report.json'', ''report.md'']"

text \<open>What \<open>parse_run\<close> reads of the printed directory: which names are files, their JSON, the text of
  \<open>report.md\<close>, and the copy of \<open>schedule.json\<close>.\<close>

record run_dir =
  rd_file :: "string \<Rightarrow> bool"
  rd_json :: "string \<Rightarrow> pv res"
  rd_report :: "string res"
  rd_copy :: "unit res"

record run_result =
  rr_directory :: string
  rr_report :: string
  rr_schedule :: string
  rr_verdict :: string
  rr_complete :: bool
  rr_version :: pv
  rr_note :: string

definition no_run :: run_result where
  "no_run = \<lparr>rr_directory = [], rr_report = [], rr_schedule = [], rr_verdict = [], rr_complete = False,
     rr_version = PNone, rr_note = ''No run directory printed.''\<rparr>"

text \<open>The set of the four artifact versions: a member that is not hashable raises.\<close>

definition add_version :: "pv \<Rightarrow> pv list \<Rightarrow> pv list res" where
  "add_version doc seen = ebind (getitem doc ''artifact_version'') (\<lambda>v.
     if is_list v \<or> is_dict v then Inl (TypeError ''unhashable type'')
     else Inr (if list_ex (\<lambda>w. py_eq w v) seen then seen else seen @ [v]))"

definition known_version :: "pv list \<Rightarrow> bool" where
  "known_version versions = (case versions of [v] \<Rightarrow> py_eq v (PInt 2) \<or> py_eq v (PInt 3) | _ \<Rightarrow> False)"

definition schedule_id_of :: "run_dir \<Rightarrow> pv \<Rightarrow> string option res" where
  "schedule_id_of d scenario = ebind (pgetn scenario ''schedule'') (\<lambda>schedule.
     if schedule = PNone then Inr None
     else ebind (getitem schedule ''id'') (\<lambda>v.
       if \<not> is_str v then Inl (TypeError ''expected string or bytes-like object'')
       else require (schedule_ok (str_of v) \<and> rd_file d ''schedule.json'') ''schedule evidence is incomplete'' (Inr (Some (str_of v)))))"

definition read_run :: "run_dir \<Rightarrow> string \<Rightarrow> (pv \<times> string \<times> string option) res" where
  "read_run d name =
     ebind (rd_json d ''manifest.json'') (\<lambda>manifest. ebind (rd_json d ''scenario.json'') (\<lambda>scenario.
     ebind (rd_json d ''observation.json'') (\<lambda>observation. ebind (rd_json d ''report.json'') (\<lambda>report.
     ebind (rd_report d) (\<lambda>text.
     ebind (efold add_version [manifest, scenario, observation, report] []) (\<lambda>versions.
     require (known_version versions) ''inconsistent artifact versions'' (
     ebind (getitem manifest ''run_id'') (\<lambda>rid.
     require (rid = PStr name) ''manifest run ID does not match directory'' (
     require (headline text \<noteq> None) ''report headline is missing'' (
     ebind (schedule_id_of d scenario) (\<lambda>sid.
     ebind (getitem manifest ''artifact_version'') (\<lambda>v. Inr (v, the (headline text), sid)))))))))))))"

definition run_failed :: "exn \<Rightarrow> run_result \<Rightarrow> run_result" where
  "run_failed e r = r\<lparr>rr_note := ''Run evidence is partial or invalid: '' @ exn_text e\<rparr>"

definition run_complete :: "pv \<Rightarrow> string \<Rightarrow> run_result \<Rightarrow> run_result" where
  "run_complete v verdict r = r\<lparr>rr_version := v, rr_verdict := verdict, rr_complete := True,
     rr_note := ''Complete run evidence retained.''\<rparr>"

definition path_text :: "string list \<Rightarrow> string" where
  "path_text parts = ''/'' @ join ''/'' parts"

definition absolute :: "string \<Rightarrow> string \<Rightarrow> string" where
  "absolute cwd l = (if startswith l ''/'' then l else cwd @ ''/'' @ l)"

text \<open>The checks of the printed directory; a failure keeps what was found before it.\<close>

definition inspect_run :: "string list \<Rightarrow> run_dir \<Rightarrow> run_result" where
  "inspect_run parts d =
     (let r = no_run\<lparr>rr_directory := path_text parts\<rparr>;
          r = (if rd_file d ''report.md'' then r\<lparr>rr_report := path_text (parts @ [''report.md''])\<rparr> else r);
          missing = filter (\<lambda>n. \<not> rd_file d n) base_files in
      if missing \<noteq> [] then r\<lparr>rr_note := ''Missing run files: '' @ join '', '' missing\<rparr>
      else (case read_run d (last parts) of
          Inl e \<Rightarrow> run_failed e r
        | Inr (v, verdict, None) \<Rightarrow> run_complete v verdict r
        | Inr (v, verdict, Some sid) \<Rightarrow>
            let r = r\<lparr>rr_schedule := sid\<rparr> in
            (case rd_copy d of Inl e \<Rightarrow> run_failed e r | Inr _ \<Rightarrow> run_complete v verdict r)))"

text \<open>\<open>resolve\<close> gives the components of an existing path, \<open>view\<close> the directory at a path.\<close>

definition parse_run ::
  "string list \<Rightarrow> string \<Rightarrow> (string \<Rightarrow> string list option) \<Rightarrow> (string list \<Rightarrow> run_dir option) \<Rightarrow> string \<Rightarrow> run_result"
where
  "parse_run top_dir cwd resolve view stdout =
     (case splitlines stdout of [] \<Rightarrow> no_run | lines \<Rightarrow>
        (case resolve (absolute cwd (last lines)) of
           None \<Rightarrow> no_run
         | Some parts \<Rightarrow> (case view parts of
             None \<Rightarrow> no_run
           | Some d \<Rightarrow>
             if parts = [] \<or> butlast parts \<noteq> top_dir @ [''runs''] then no_run else inspect_run parts d)))"

text \<open>The exit status of a process ended by a signal is 128 plus the signal.\<close>

definition exit_status :: "int \<Rightarrow> int" where
  "exit_status returncode = (if returncode \<ge> 0 then returncode else 128 - returncode)"

definition status_doc :: "pv \<Rightarrow> run_result \<Rightarrow> pv" where
  "status_doc code r = PDict [(''exit_code'', code), (''verdict'', PStr (rr_verdict r)),
     (''run_directory'', PStr (rr_directory r)), (''schedule_id'', PStr (rr_schedule r)),
     (''report_path'', PStr (rr_report r)), (''evidence_complete'', PBool (rr_complete r)),
     (''evidence_note'', PStr (rr_note r)), (''artifact_version'', rr_version r)]"

text \<open>The status before \<open>parse_run\<close> has no artifact version.\<close>

definition unlaunched_doc :: "pv \<Rightarrow> string \<Rightarrow> pv" where
  "unlaunched_doc code note = PDict [(''exit_code'', code), (''verdict'', PStr []), (''run_directory'', PStr []),
     (''schedule_id'', PStr []), (''report_path'', PStr []), (''evidence_complete'', PBool False),
     (''evidence_note'', PStr note)]"

text \<open>The process: its return code, what writing the logs raised, and the decoded standard output.\<close>

record process =
  pr_returncode :: int
  pr_logs :: "unit res"
  pr_stdout :: string

definition run_command :: "(string \<Rightarrow> string option) \<Rightarrow> string \<Rightarrow> string list res" where
  "run_command env out_dir =
     (let need = (\<lambda>k. case env k of Some v \<Rightarrow> Inr v | None \<Rightarrow> Inl (KeyError k));
          opt = (\<lambda>k flag. if or_empty (env k) \<noteq> [] then [flag, or_empty (env k)] else []) in
      ebind (need ''WEAVEGATE_BINARY'') (\<lambda>b. ebind (need ''WEAVEGATE_CONFIG'') (\<lambda>c. ebind (need ''WEAVEGATE_SCENARIO'') (\<lambda>s.
        Inr ([b, ''run'', ''--config'', c, ''--scenario'', s, ''--out'', out_dir] @ opt ''WEAVEGATE_VARIANT'' ''--variant''
          @ opt ''WEAVEGATE_REPLAY'' ''--replay'' @ opt ''WEAVEGATE_REPEAT'' ''--repeat'')))))"

definition could_not :: "exn \<Rightarrow> string" where
  "could_not e = ''Action could not launch or inspect weavegate: '' @ exn_text e"

definition run_status :: "process res \<Rightarrow> (string \<Rightarrow> run_result) \<Rightarrow> pv" where
  "run_status launched parse = (case launched of
     Inl e \<Rightarrow> unlaunched_doc PNone (could_not e)
   | Inr p \<Rightarrow> (let code = PInt (exit_status (pr_returncode p)) in
       case pr_logs p of
         Inl e \<Rightarrow> unlaunched_doc code (could_not e)
       | Inr _ \<Rightarrow> status_doc code (parse (pr_stdout p))))"

section \<open>The gate\<close>

definition unavailable_status :: pv where
  "unavailable_status = PDict [(''exit_code'', PNone), (''verdict'', PStr []),
     (''evidence_note'', PStr ''Run status unavailable; install or execution failed.''), (''evidence_complete'', PBool False)]"

text \<open>\<open>read_status\<close>: a file that cannot be read or parsed is the unavailable status.\<close>

definition read_status :: "pv res \<Rightarrow> pv" where
  "read_status file = (case file of Inr v \<Rightarrow> v | Inl _ \<Rightarrow> unavailable_status)"

definition gate :: "string option \<Rightarrow> pv \<Rightarrow> nat res" where
  "gate upload status =
     (if upload \<noteq> Some ''success'' then Inr 1
      else ebind (ebind (pgetn status ''exit_code'') (\<lambda>code. if \<not> py_eq code (PInt 0) then Inr False
          else ebind (pgetn status ''evidence_complete'') (\<lambda>full. if \<not> truthy full then Inr False
          else ebind (pgetn status ''artifact_version'') (\<lambda>v. if \<not> py_eq v (PInt 2) then Inr False
          else ebind (pgetn status ''verdict'') (\<lambda>w. Inr (w = PStr ''PASS''))))))
        (\<lambda>ok. Inr (if ok then 0 else 1)))"

text \<open>\<open>main\<close>: an exception that escapes is exit 1.\<close>

definition gate_exit :: "string option \<Rightarrow> pv res \<Rightarrow> nat" where
  "gate_exit upload file = (case gate upload (read_status file) of Inr n \<Rightarrow> n | Inl _ \<Rightarrow> 1)"

section \<open>The stored report as literal text\<close>

text \<open>Strict UTF-8: the code points, or \<open>None\<close> for a decoding error.\<close>

definition continuation :: "nat \<Rightarrow> nat \<Rightarrow> char \<Rightarrow> bool" where
  "continuation lo hi c = (lo \<le> char_code c \<and> char_code c \<le> hi)"

fun utf8_decode :: "string \<Rightarrow> nat list option" where
  "utf8_decode [] = Some []"
| "utf8_decode (a # s) = (let n = char_code a in
     if n < 128 then map_option ((#) n) (utf8_decode s)
     else (case s of [] \<Rightarrow> None | b # s2 \<Rightarrow>
       if 194 \<le> n \<and> n \<le> 223 then
         (if continuation 128 191 b then map_option ((#) ((n - 192) * 64 + (char_code b - 128))) (utf8_decode s2) else None)
       else (case s2 of [] \<Rightarrow> None | c # s3 \<Rightarrow>
         if 224 \<le> n \<and> n \<le> 239 then
           (if continuation (if n = 224 then 160 else 128) (if n = 237 then 159 else 191) b \<and> continuation 128 191 c
            then map_option ((#) ((n - 224) * 4096 + (char_code b - 128) * 64 + (char_code c - 128))) (utf8_decode s3)
            else None)
         else (case s3 of [] \<Rightarrow> None | d # s4 \<Rightarrow>
           if 240 \<le> n \<and> n \<le> 244 then
             (if continuation (if n = 240 then 144 else 128) (if n = 244 then 143 else 191) b \<and> continuation 128 191 c
                \<and> continuation 128 191 d
              then map_option ((#) ((n - 240) * 262144 + (char_code b - 128) * 4096 + (char_code c - 128) * 64
                + (char_code d - 128))) (utf8_decode s4)
              else None)
           else None))))"

text \<open>Category Cc: the C0 and C1 controls and DEL.\<close>

definition control_point :: "nat \<Rightarrow> bool" where
  "control_point n = (n < 32 \<or> (127 \<le> n \<and> n < 160))"

definition obstacle_text :: string where
  "obstacle_text = ''it contains bytes that a comment cannot carry unchanged''"

definition report_embed_obstacle :: "string \<Rightarrow> string" where
  "report_embed_obstacle report = (case utf8_decode report of
     None \<Rightarrow> obstacle_text
   | Some points \<Rightarrow> if points = [] \<or> last points \<noteq> 10 \<or> list_ex (\<lambda>n. n \<noteq> 10 \<and> control_point n) points
       then obstacle_text else [])"

definition tick :: char where "tick = CHR 0x60"

text \<open>The longest run of backticks; the first argument is the run before the position.\<close>

fun longest_run :: "nat \<Rightarrow> string \<Rightarrow> nat" where
  "longest_run n [] = n"
| "longest_run n (c # s) = (if c = tick then longest_run (Suc n) s else max n (longest_run 0 s))"

definition fence_of :: "string \<Rightarrow> string" where
  "fence_of body = replicate (max 4 (longest_run 0 body + 1)) tick"

definition report_begin :: string where "report_begin = ''<!-- weavegate-report-begin -->''"
definition report_end :: string where "report_end = ''<!-- weavegate-report-end -->''"

definition fenced :: "string \<Rightarrow> string" where
  "fenced body = fence_of body @ ''text'' @ [newline] @ body @ fence_of body @ [newline]"

definition fenced_report :: "string \<Rightarrow> string" where
  "fenced_report body = report_begin @ [newline] @ fenced body @ report_end @ [newline]"

section \<open>The comment\<close>

text \<open>\<open>urllib.parse.urlsplit\<close> as the server URL needs it: leading controls and blanks are dropped, tabs
  and line breaks removed, then the text is cut at the fragment and the query.\<close>

definition url_clean :: "string \<Rightarrow> string" where
  "url_clean s = filter (\<lambda>c. c \<noteq> CHR 0x09 \<and> c \<noteq> CHR 0x0A \<and> c \<noteq> CHR 0x0D) (dropWhile (\<lambda>c. char_code c \<le> 32) s)"

definition server_origin_and_host :: "(string \<Rightarrow> bool) \<Rightarrow> string \<Rightarrow> string \<times> string" where
  "server_origin_and_host address_ok value = (let s = url_clean value in
     case urlsplit address_ok s of
       Inl _ \<Rightarrow> ([], [])
     | Inr u \<Rightarrow> (case partition_on (CHR ''#'') s of (front, _, fragment) \<Rightarrow>
         (case partition_on (CHR ''?'') front of (_, _, query) \<Rightarrow>
           if url_scheme u \<noteq> ''https'' \<or> \<not> server_host_ok (url_netloc u) \<or> \<not> (url_path u = [] \<or> url_path u = ''/'')
              \<or> query \<noteq> [] \<or> fragment \<noteq> [] then ([], [])
           else (''https://'' @ url_netloc u, url_netloc u))))"

text \<open>\<open>pathlib\<close>: the anchor (number of leading slashes kept) and the parts, and the final name.\<close>

definition pure_parts :: "string \<Rightarrow> nat \<times> string list" where
  "pure_parts s = (if startswith s ''//'' \<and> \<not> startswith s ''///'' then 2 else if startswith s ''/'' then 1 else 0,
     filter (\<lambda>p. p \<noteq> [] \<and> p \<noteq> ''.'') (split_on (CHR ''/'') s))"

definition path_name :: "string \<Rightarrow> string" where
  "path_name s = (case snd (pure_parts s) of [] \<Rightarrow> [] | ps \<Rightarrow> last ps)"

definition stored_below :: "string list \<Rightarrow> string \<Rightarrow> bool" where
  "stored_below top_dir s = (case pure_parts s of (anchor, ps) \<Rightarrow> anchor = 1 \<and> butlast (butlast ps) = top_dir @ [''runs''])"

record comment_context =
  cc_repository :: string
  cc_run_id :: string
  cc_server_url :: string
  cc_artifact_name :: string
  cc_artifact_url :: string
  cc_upload_outcome :: string
  cc_version :: string

definition comment_limit :: nat where "comment_limit = 65536"
definition comment_marker :: string where "comment_marker = ''<!-- weavegate-gate-comment v1 -->''"
definition replay_guide :: string where
  "replay_guide = ''https://github.com/weavegate/weavegate/blob/main/docs/howto/ci-gate.md#pull-request-comment''"

definition upper_first :: "string \<Rightarrow> string" where
  "upper_first s = (case s of [] \<Rightarrow> [] | c # cs \<Rightarrow> (if is_lower c then char_of (char_code c - 32) else c) # cs)"

text \<open>\<open>f'{exit_code}'\<close> of an int or bool.\<close>

definition code_text :: "pv \<Rightarrow> string" where
  "code_text v = (case v of PInt i \<Rightarrow> show_int i | PBool b \<Rightarrow> if b then ''True'' else ''False'' | _ \<Rightarrow> ''unavailable'')"

text \<open>The values of the wrapper after their grammars: each is empty when it does not match.\<close>

record wrapper =
  wr_code :: string
  wr_run_name :: string
  wr_schedule :: string
  wr_repository :: string
  wr_server :: string
  wr_host :: string
  wr_run_id :: string
  wr_artifact :: string
  wr_version :: string
  wr_uploaded :: bool
  wr_url :: string
  wr_verdict :: string

definition keep_if :: "(string \<Rightarrow> bool) \<Rightarrow> string \<Rightarrow> string" where
  "keep_if ok s = (if ok s then s else [])"

definition text_or_empty :: "pv \<Rightarrow> string res" where
  "text_or_empty v = (if \<not> truthy v then Inr [] else if is_str v then Inr (str_of v) else Inl (TypeError ''expected str''))"

definition wrapper_values :: "(string \<Rightarrow> bool) \<Rightarrow> pv \<Rightarrow> comment_context \<Rightarrow> wrapper res" where
  "wrapper_values address_ok status ctx =
     ebind (pgetn status ''exit_code'') (\<lambda>code.
     ebind (ebind (pgetn status ''run_directory'') text_or_empty) (\<lambda>directory.
     ebind (ebind (pgetn status ''schedule_id'') text_or_empty) (\<lambda>schedule.
     ebind (pgetn status ''verdict'') (\<lambda>verdict.
     Inr \<lparr>wr_code = code_text code, wr_run_name = keep_if safe_name (path_name directory),
       wr_schedule = keep_if schedule_ok schedule, wr_repository = keep_if repository_ok (cc_repository ctx),
       wr_server = fst (server_origin_and_host address_ok (cc_server_url ctx)),
       wr_host = snd (server_origin_and_host address_ok (cc_server_url ctx)),
       wr_run_id = keep_if number_text (cc_run_id ctx), wr_artifact = keep_if safe_name (cc_artifact_name ctx),
       wr_version = keep_if version_ok (cc_version ctx),
       wr_uploaded = (cc_upload_outcome ctx = ''success'' \<and> startswith (cc_artifact_url ctx) ''https://''),
       wr_url = cc_artifact_url ctx,
       wr_verdict = (if is_str verdict then keep_if (\<lambda>w. w \<in> set verdict_words) (str_of verdict) else [])\<rparr>))))"

definition code_span :: "string \<Rightarrow> string" where
  "code_span s = [tick] @ s @ [tick]"

definition nl :: string where "nl = [newline]"

text \<open>The facts line; the separator is a middle dot (two bytes).\<close>

definition facts_line :: "wrapper \<Rightarrow> string" where
  "facts_line w = upper_first (join ('' '' @ [CHR 0xC2, CHR 0xB7] @ '' '') (
     (if wr_verdict w \<noteq> [] then [''Report verdict **'' @ wr_verdict w @ ''**''] else []) @
     (if wr_schedule w \<noteq> [] then [''schedule '' @ code_span (wr_schedule w)] else []) @
     [if wr_uploaded w then ''[evidence artifact]('' @ wr_url w @ '')''
      else ''evidence upload did not succeed, so this run has no downloadable evidence''] @
     (if wr_server w \<noteq> [] \<and> wr_repository w \<noteq> [] \<and> wr_run_id w \<noteq> []
      then [''[workflow run '' @ wr_run_id w @ '']('' @ wr_server w @ ''/'' @ wr_repository w @ ''/actions/runs/'' @ wr_run_id w @ '')'']
      else [])))"

definition comment_head :: "wrapper \<Rightarrow> string" where
  "comment_head w = comment_marker @ nl @ ''### weavegate gate: process exit code '' @ wr_code w @ nl @ nl
     @ facts_line w @ nl @ nl"

definition download_step :: "wrapper \<Rightarrow> string" where
  "download_step w =
     (if wr_server w \<noteq> [] \<and> wr_repository w \<noteq> [] \<and> wr_run_id w \<noteq> [] \<and> wr_artifact w \<noteq> [] then
        (let selector = (if wr_host w = ''github.com'' then wr_repository w else wr_host w @ ''/'' @ wr_repository w) in
         ''2. Download the artifact and import its schedule from the repository root:'' @ nl @ nl
         @ ''   '' @ replicate 3 tick @ ''sh'' @ nl
         @ ''   gh run download '' @ wr_run_id w @ '' --repo '' @ selector @ '' --name '' @ wr_artifact w
         @ '' --dir weavegate-evidence'' @ nl
         @ ''   mkdir -p .weavegate/schedules'' @ nl
         @ ''   cp weavegate-evidence/schedule.json .weavegate/schedules/'' @ wr_schedule w @ ''.json'' @ nl
         @ ''   '' @ replicate 3 tick @ nl @ nl)
      else ''2. Download the artifact and copy its '' @ code_span ''schedule.json'' @ '' to ''
         @ code_span (''.weavegate/schedules/'' @ wr_schedule w @ ''.json'') @ '' under the repository root.'' @ nl)"

definition quote :: string where "quote = [CHR 0x27]"

definition replay_section :: "wrapper \<Rightarrow> string" where
  "replay_section w = (if wr_uploaded w \<and> wr_schedule w \<noteq> [] then
     ''<details>'' @ nl @ ''<summary>Replay schedule <code>'' @ wr_schedule w @ ''</code></summary>'' @ nl @ nl
     @ ''1. Check out the revision this workflow run tested and install weavegate''
     @ (if wr_version w \<noteq> [] then '' '' @ code_span (wr_version w) @ ''.'' @ nl else ''.'' @ nl)
     @ download_step w
     @ ''3. From the repository root, run the command on the report'' @ quote @ ''s '' @ code_span ''replay:''
     @ '' line. If that line contains a backslash escape it is a display form; rebuild the command from its original argument values.'' @ nl
     @ nl @ ''The [CI gate how-to]('' @ replay_guide @ '') describes this comment and the replay in full.'' @ nl @ nl
     @ ''</details>'' @ nl @ nl
   else [])"

definition comment_tail :: "wrapper \<Rightarrow> string" where
  "comment_tail w = replay_section w @ ''Set '' @ code_span (''comment: '' @ quote @ ''false'' @ quote)
     @ '' on the weavegate action to turn this comment off.'' @ nl"

definition oversized :: string where
  "oversized = ''the comment would exceed GitHub'' @ quote @ ''s 65536-character limit''"

definition embedded_body :: "wrapper \<Rightarrow> string \<Rightarrow> string" where
  "embedded_body w report = comment_head w @ ''<details>'' @ nl
     @ ''<summary>Stored <code>report.md</code>, unchanged and shown as literal text</summary>'' @ nl @ nl
     @ fenced_report report @ nl @ ''</details>'' @ nl @ nl @ comment_tail w"

definition refused_body :: "wrapper \<Rightarrow> nat \<Rightarrow> string \<Rightarrow> string" where
  "refused_body w report_size obstacle = comment_head w @ ''The stored '' @ code_span ''report.md'' @ '' ('' @ show_nat report_size
     @ '' bytes) is not embedded here: '' @ obstacle @ ''. It was not truncated.''
     @ (if wr_uploaded w \<and> wr_run_name w \<noteq> []
        then '' Read '' @ code_span (''runs/'' @ wr_run_name w @ ''/report.md'') @ '' in the evidence artifact.'' else [])
     @ nl @ nl @ comment_tail w"

definition comment_body ::
  "(string \<Rightarrow> bool) \<Rightarrow> pv \<Rightarrow> string option \<Rightarrow> nat \<Rightarrow> comment_context \<Rightarrow> (string \<times> bool) res" where
  "comment_body address_ok status report report_size ctx = ebind (wrapper_values address_ok status ctx) (\<lambda>w.
     (case report of
        None \<Rightarrow> Inr (refused_body w report_size oversized, False)
      | Some r \<Rightarrow>
          if report_embed_obstacle r \<noteq> [] then Inr (refused_body w report_size (report_embed_obstacle r), False)
          else if length (embedded_body w r) \<le> comment_limit then Inr (embedded_body w r, True)
          else Inr (refused_body w report_size oversized, False)))"

section \<open>Posting\<close>

datatype post_fault = Http nat | Raised_in_post exn

text \<open>\<open>post_comment\<close>: \<open>http\<close> sends the request and gives the status and the decoded response.\<close>

definition rstrip_slash :: "string \<Rightarrow> string" where
  "rstrip_slash s = rev (dropWhile (\<lambda>c. c = CHR ''/'') (rev s))"

definition post_comment ::
  "(string \<Rightarrow> string \<Rightarrow> string \<Rightarrow> post_fault + (nat \<times> pv res)) \<Rightarrow> string \<Rightarrow> string \<Rightarrow> int \<Rightarrow> string \<Rightarrow> string \<Rightarrow> post_fault + string"
where
  "post_comment http api_url repository number token body =
     (case http (rstrip_slash api_url @ ''/repos/'' @ repository @ ''/issues/'' @ show_int number @ ''/comments'') token body of
        Inl f \<Rightarrow> Inl f
      | Inr (code, response) \<Rightarrow>
          if code \<noteq> 201 then Inl (Raised_in_post (ValueError (''unexpected HTTP status '' @ show_nat code)))
          else (case ebind response (\<lambda>d. getitem d ''html_url'') of
              Inl e \<Rightarrow> Inl (Raised_in_post e)
            | Inr v \<Rightarrow>
                if is_str v \<and> startswith (str_of v) ''https://'' \<and> newline \<notin> set (str_of v) \<and> CHR 0x0D \<notin> set (str_of v)
                then Inr (str_of v) else Inl (Raised_in_post (ValueError ''response has no comment URL''))))"

text \<open>What \<open>decide_comment\<close> reads: the environment, the event, the resolved evidence directory, the
  status and \<open>install.txt\<close>, and of a report path its size and bytes if it is a file.\<close>

record comment_world =
  cw_env :: "string \<Rightarrow> string option"
  cw_event :: "pv res"
  cw_top :: "string list"
  cw_status :: "pv res"
  cw_install :: "string res"
  cw_report :: "string \<Rightarrow> (nat \<times> string res) option"
  cw_address :: "string \<Rightarrow> bool"
  cw_http :: "string \<Rightarrow> string \<Rightarrow> string \<Rightarrow> post_fault + (nat \<times> pv res)"

definition env_or :: "comment_world \<Rightarrow> string \<Rightarrow> string \<Rightarrow> string" where
  "env_or w k d = (case cw_env w k of Some v \<Rightarrow> v | None \<Rightarrow> d)"

definition caught :: "exn \<Rightarrow> bool" where
  "caught e = (os_error e \<or> (case e of KeyError _ \<Rightarrow> True | TypeError _ \<Rightarrow> True | ValueError _ \<Rightarrow> True | _ \<Rightarrow> False))"

definition pull_request_of :: "comment_world \<Rightarrow> (pv \<times> int) res" where
  "pull_request_of w = ebind (cw_event w) (\<lambda>event. ebind (getitem event ''pull_request'') (\<lambda>pr.
     ebind (getitem pr ''number'') (\<lambda>number.
       require (is_int number \<and> 0 < int_of_pv number) ''invalid pull request number'' (Inr (pr, int_of_pv number)))))"

text \<open>The stored report: its size and, up to the limit, its bytes.\<close>

definition stored_report :: "comment_world \<Rightarrow> pv \<Rightarrow> (nat \<times> string option) res" where
  "stored_report w status = ebind (pgetn status ''report_path'') (\<lambda>v.
     let p = (if truthy v then v else PStr ''/nonexistent'') in
     if \<not> is_str p then Inl (TypeError ''expected str'')
     else if \<not> stored_below (cw_top w) (str_of p) then Inl (OSError ''no stored report'')
     else (case cw_report w (str_of p) of
         None \<Rightarrow> Inl (OSError ''no stored report'')
       | Some (n, bytes) \<Rightarrow> if n \<le> comment_limit then ebind bytes (\<lambda>b. Inr (n, Some b)) else Inr (n, None)))"

definition comment_context_of :: "comment_world \<Rightarrow> string \<Rightarrow> comment_context" where
  "comment_context_of w repository = \<lparr>cc_repository = repository, cc_run_id = env_or w ''GITHUB_RUN_ID'' [],
     cc_server_url = rstrip_slash (env_or w ''GITHUB_SERVER_URL'' ''https://github.com''),
     cc_artifact_name = env_or w ''WEAVEGATE_ARTIFACT_NAME'' [], cc_artifact_url = env_or w ''WEAVEGATE_ARTIFACT_URL'' [],
     cc_upload_outcome = env_or w ''WEAVEGATE_UPLOAD_OUTCOME'' [], cc_version = installed_version (cw_install w)\<rparr>"

definition exn_name :: "exn \<Rightarrow> string" where
  "exn_name e = (case e of KeyError _ \<Rightarrow> ''KeyError'' | ValueError _ \<Rightarrow> ''ValueError'' | TypeError _ \<Rightarrow> ''TypeError''
     | AttributeError _ \<Rightarrow> ''AttributeError'' | IndexError _ \<Rightarrow> ''IndexError'' | OverflowError _ \<Rightarrow> ''OverflowError''
     | ZeroDivisionError _ \<Rightarrow> ''ZeroDivisionError'' | OSError _ \<Rightarrow> ''OSError'' | URLError _ \<Rightarrow> ''URLError''
     | HTTPError _ _ \<Rightarrow> ''HTTPError'' | BadZipFile _ \<Rightarrow> ''BadZipFile'' | ParseError _ \<Rightarrow> ''ParseError'')"

definition from_fork :: "pv \<Rightarrow> string \<Rightarrow> bool" where
  "from_fork pr repository = (let r = fld (fld pr ''head'') ''repo'' in
     is_dict r \<and> fld r ''full_name'' \<noteq> PStr repository)"

text \<open>The answer to a failed post: a refused token is a skip, anything else a failure.\<close>

definition post_outcome :: "pv \<Rightarrow> string \<Rightarrow> post_fault + string \<Rightarrow> (string \<times> string \<times> string) res" where
  "post_outcome pr repository r = (case r of
     Inr url \<Rightarrow> Inr (''posted'', ''the stored report was posted'', url)
   | Inl (Http code) \<Rightarrow>
       if code = 401 \<or> code = 403 \<or> code = 404 then
         Inr (''skipped'', (if from_fork pr repository then ''a fork pull request gets a read-only token''
           else ''the token cannot write pull request comments'') @ '' (HTTP '' @ show_nat code @ '')'', [])
       else Inr (''failed'', ''GitHub answered HTTP '' @ show_nat code, [])
   | Inl (Raised_in_post e) \<Rightarrow>
       if caught e then Inr (''failed'', ''the comment request did not complete ('' @ exn_name e @ '')'', []) else Inl e)"

definition no_report :: "exn \<Rightarrow> bool" where
  "no_report e = (os_error e \<or> (case e of TypeError _ \<Rightarrow> True | ValueError _ \<Rightarrow> True | _ \<Rightarrow> False))"

definition decide_comment :: "comment_world \<Rightarrow> (string \<times> string \<times> string) res" where
  "decide_comment w = (let requested = env_or w ''WEAVEGATE_COMMENT'' [] in
     if requested = ''false'' then Inr (''disabled'', ''the comment input is false'', [])
     else if requested \<noteq> ''true'' then Inr (''skipped'', ''the comment input must be true or false'', [])
     else (case pull_request_of w of
       Inl e \<Rightarrow> if caught e then Inr (''skipped'', ''the workflow event is not a pull request'', []) else Inl e
     | Inr (pr, number) \<Rightarrow>
       (let repository = env_or w ''GITHUB_REPOSITORY'' []; status = read_status (cw_status w) in
        if \<not> repository_ok repository then Inr (''skipped'', ''the repository name is unavailable'', [])
        else (case stored_report w status of
          Inl e \<Rightarrow> if no_report e then Inr (''skipped'', ''this run has no stored report'', []) else Inl e
        | Inr (report_size, report) \<Rightarrow>
          (let token = env_or w ''WEAVEGATE_COMMENT_TOKEN'' [] in
           if token = [] then Inr (''skipped'', ''no token is available'', [])
           else ebind (comment_body (cw_address w) status report report_size (comment_context_of w repository)) (\<lambda>(body, _).
             post_outcome pr repository (post_comment (cw_http w) (env_or w ''GITHUB_API_URL'' ''https://api.github.com'')
               repository number token body)))))))"

definition comment_result :: "comment_world \<Rightarrow> string \<times> string \<times> string" where
  "comment_result w = (case decide_comment w of Inr r \<Rightarrow> r
     | Inl e \<Rightarrow> (''failed'', ''the comment step stopped ('' @ exn_name e @ '')'', []))"

text \<open>\<open>comment\<close>: the line it prints.\<close>

definition comment_line :: "string \<times> string \<times> string \<Rightarrow> string" where
  "comment_line = (\<lambda>(outcome, detail, _). (if outcome = ''failed'' then ''::warning::''
     else if outcome = ''skipped'' then ''::notice::'' else []) @ ''weavegate comment: '' @ outcome @ '': '' @ detail
     @ ''; the gate result is unaffected'')"

section \<open>The step summary\<close>

text \<open>\<open>safe_cell\<close>: line breaks become blanks, HTML is escaped, then the column separator.\<close>

definition cell_char :: "char \<Rightarrow> string" where
  "cell_char c =
     (if c = newline \<or> c = CHR 0x0D then '' '' else if c = CHR ''&'' then ''&amp;'' else if c = CHR ''<'' then ''&lt;''
      else if c = CHR ''>'' then ''&gt;'' else if c = CHR 0x22 then ''&quot;'' else if c = CHR 0x27 then ''&#x27;''
      else if c = CHR ''|'' then [CHR 0x5C, CHR ''|''] else [c])"

definition safe_cell :: "string \<Rightarrow> string" where
  "safe_cell s = concat (map cell_char s)"

definition summary_rows :: "(pv \<Rightarrow> string) \<Rightarrow> pv \<Rightarrow> string \<Rightarrow> string \<Rightarrow> (string \<times> string) list res" where
  "summary_rows render status version upload =
     ebind (pgetn status ''exit_code'') (\<lambda>code. ebind (pgetn status ''verdict'') (\<lambda>verdict.
     ebind (pget status ''evidence_note'' (PStr ''unavailable'')) (\<lambda>note.
     ebind (pgetn status ''schedule_id'') (\<lambda>schedule. ebind (pgetn status ''run_directory'') (\<lambda>directory.
     ebind (pgetn status ''report_path'') (\<lambda>report.
     let known = (\<lambda>v. if truthy v then py_str render v else ''unavailable'') in
     Inr [(''Process exit code'', if code = PNone then ''not launched'' else py_str render code),
       (''Report verdict'', known verdict), (''weavegate version'', if version = [] then ''unavailable'' else version),
       (''Evidence'', py_str render note), (''Artifact upload'', upload), (''Schedule ID'', known schedule),
       (''Run directory'', known directory), (''Report path'', known report)]))))))"

definition table_row :: "string \<times> string \<Rightarrow> string" where
  "table_row = (\<lambda>(k, v). ''| '' @ safe_cell k @ '' | '' @ safe_cell v @ '' |'' @ nl)"

definition summary_report_limit :: nat where "summary_report_limit = 512 * 1024"

definition summary_report :: "comment_world \<Rightarrow> pv \<Rightarrow> string \<Rightarrow> string res" where
  "summary_report w report upload =
     (let hint = (if upload = ''success'' then ''read '' @ code_span ''report.md'' @ '' in the evidence artifact''
                  else ''the evidence artifact was not uploaded'');
          p = (if truthy report then report else PStr ''/nonexistent'');
          missing = ''No stored report is available.'' @ nl in
      if \<not> is_str p then Inl (TypeError ''expected str'')
      else if \<not> stored_below (cw_top w) (str_of p) then Inr missing
      else (case cw_report w (str_of p) of
          None \<Rightarrow> Inr missing
        | Some (n, bytes) \<Rightarrow>
            if n > summary_report_limit then Inr (''The stored report is '' @ show_nat n @ '' bytes; '' @ hint @ ''.'' @ nl)
            else (case bytes of
                Inl e \<Rightarrow> if no_report e then Inr missing else Inl e
              | Inr b \<Rightarrow> if report_embed_obstacle b \<noteq> []
                  then Inr (''The stored report cannot be shown unchanged here; '' @ hint @ ''.'' @ nl) else Inr (fenced b))))"

definition summary :: "(pv \<Rightarrow> string) \<Rightarrow> comment_world \<Rightarrow> string res" where
  "summary render w =
     (let status = read_status (cw_status w); upload = env_or w ''WEAVEGATE_UPLOAD_OUTCOME'' ''unknown'';
          url = env_or w ''WEAVEGATE_ARTIFACT_URL'' [] in
      ebind (summary_rows render status (installed_version (cw_install w)) upload) (\<lambda>rows.
      ebind (pgetn status ''report_path'') (\<lambda>report. ebind (summary_report w report upload) (\<lambda>stored.
        Inr (''## weavegate gate'' @ nl @ nl @ ''| Field | Result |'' @ nl @ ''| --- | --- |'' @ nl
          @ concat (map table_row rows)
          @ (if url \<noteq> [] \<and> upload = ''success'' then nl @ ''[Download retained evidence]('' @ url @ '')'' @ nl else [])
          @ nl @ ''### Stored report'' @ nl @ nl @ stored)))))"

section \<open>Literal text stays literal\<close>

lemma newline_tick [simp]: "newline \<noteq> tick" "tick \<noteq> newline"
  by (simp_all add: newline_def tick_def)

lemma longest_run_ge: "n \<le> longest_run n s"
  by (induction n s rule: longest_run.induct) auto

lemma longest_run_mono: "m \<le> n \<Longrightarrow> longest_run m s \<le> longest_run n s"
  by (induction s arbitrary: m n) (auto simp: le_max_iff_disj)

text \<open>No run of backticks anywhere in the text is longer.\<close>

lemma longest_run_append: "longest_run 0 b \<le> longest_run n (a @ b)"
proof (induction a arbitrary: n)
  case Nil
  then show ?case using longest_run_mono [of 0 n b] by simp
next
  case (Cons c a)
  then show ?case by (simp add: le_max_iff_disj)
qed

lemma longest_run_ticks: "n + length (takeWhile (\<lambda>c. c = tick) s) \<le> longest_run n s"
proof (induction s arbitrary: n)
  case (Cons c s)
  show ?case using Cons [of "Suc n"] by auto
qed simp

lemma ticks_bound: "s = a @ b \<Longrightarrow> length (takeWhile (\<lambda>c. c = tick) b) \<le> longest_run 0 s"
  using longest_run_ticks [of 0 b] longest_run_append [of b 0 a] by simp

text \<open>A reader of fenced blocks: a closing line has at most three blanks, then at least as many backticks
  as the opening fence, then only blanks.\<close>

definition blank :: "char \<Rightarrow> bool" where
  "blank c = (c = CHR '' '' \<or> c = CHR 0x09)"

definition closes_fence :: "nat \<Rightarrow> string \<Rightarrow> bool" where
  "closes_fence n line = (let margin = length (takeWhile (\<lambda>c. c = CHR '' '') line); t = drop (min 3 margin) line in
     n \<le> length (takeWhile (\<lambda>c. c = tick) t) \<and> list_all blank (dropWhile (\<lambda>c. c = tick) t))"

fun block_lines :: "nat \<Rightarrow> string list \<Rightarrow> (string list \<times> string list) option" where
  "block_lines n [] = None"
| "block_lines n (l # ls) = (if closes_fence n l then Some ([], ls)
     else map_option (\<lambda>(b, after). (l # b, after)) (block_lines n ls))"

text \<open>The content of the block opened by the first line, and the lines after it.\<close>

definition literal_block :: "string \<Rightarrow> (string \<times> string list) option" where
  "literal_block s = (case split_on newline s of [] \<Rightarrow> None | opening # ls \<Rightarrow>
     (let n = length (takeWhile (\<lambda>c. c = tick) opening) in
      if n < 3 then None
      else map_option (\<lambda>(b, after). (concat (map (\<lambda>l. l @ [newline]) b), after)) (block_lines n ls)))"

lemma split_on_append: "split_on c (a @ [c] @ b) = split_on c a @ split_on c b"
proof (induction a)
  case (Cons x a)
  then show ?case by (cases "split_on c a") auto
qed simp

lemma split_on_single: "c \<notin> set a \<Longrightarrow> split_on c a = [a]"
  by (induction a) auto

lemma in_split_on: "l \<in> set (split_on c s) \<Longrightarrow> \<exists>a b. s = a @ l @ b"
proof -
  assume l: "l \<in> set (split_on c s)"
  have "\<exists>a b. join [c] ls = a @ l @ b" if "l \<in> set ls" for ls
    using that
  proof (induction ls)
    case (Cons p ls)
    show ?case
    proof (cases ls)
      case Nil
      then show ?thesis using Cons.prems by (intro exI [of _ "[]"] exI [of _ "[]"]) simp
    next
      case (Cons q qs)
      show ?thesis
      proof (cases "l = p")
        case True
        then show ?thesis using Cons by (intro exI [of _ "[]"] exI [of _ "[c] @ join [c] ls"]) simp
      next
        case False
        then obtain a b where "join [c] ls = a @ l @ b" using Cons.IH Cons.prems by auto
        then show ?thesis using Cons by (intro exI [of _ "p @ [c] @ a"] exI [of _ b]) simp
      qed
    qed
  qed simp
  from this [OF l] show ?thesis by (simp add: join_split_on)
qed

lemma concat_split_on: "concat (map (\<lambda>l. l @ [c]) (split_on c s)) = s @ [c]"
proof (induction s)
  case (Cons x s)
  show ?case
  proof (cases "split_on c s")
    case (Cons p ps)
    then show ?thesis using Cons.IH by simp
  qed simp
qed simp

lemma block_lines_append:
  "\<forall>l \<in> set ls. \<not> closes_fence n l \<Longrightarrow> closes_fence n e \<Longrightarrow> block_lines n (ls @ e # after) = Some (ls, after)"
  by (induction ls) auto

lemma takeWhile_length_append: "length (takeWhile P xs) \<le> length (takeWhile P (xs @ ys))"
  by (induction xs) auto

lemma line_does_not_close: "s = a @ l @ b \<Longrightarrow> longest_run 0 s < n \<Longrightarrow> \<not> closes_fence n l"
proof -
  assume s: "s = a @ l @ b" "longest_run 0 s < n"
  let ?k = "min 3 (length (takeWhile (\<lambda>c. c = CHR '' '') l))"
  have "s = (a @ take ?k l) @ (drop ?k l @ b)" using s(1) by simp
  from ticks_bound [OF this] have "length (takeWhile (\<lambda>c. c = tick) (drop ?k l @ b)) \<le> longest_run 0 s" .
  moreover have "length (takeWhile (\<lambda>c. c = tick) (drop ?k l)) \<le> length (takeWhile (\<lambda>c. c = tick) (drop ?k l @ b))"
    by (rule takeWhile_length_append)
  ultimately show ?thesis using s(2) unfolding closes_fence_def Let_def by linarith
qed

lemma takeWhile_fence: "takeWhile (\<lambda>c. c = tick) (replicate n tick @ ''text'') = replicate n tick"
  by (induction n) (auto simp: tick_def)

lemma literal_fenced:
  assumes "body = text' @ [newline]"
  shows "literal_block (fenced body) = Some (body, [[]])"
proof -
  let ?n = "max 4 (longest_run 0 body + 1)"
  have "newline \<notin> set (fence_of body)" by (auto simp: fence_of_def)
  moreover have "newline \<notin> set ''text''" by (simp add: newline_def)
  ultimately have op: "split_on newline (fence_of body @ ''text'') = [fence_of body @ ''text'']"
    and cl: "split_on newline (fence_of body @ [newline]) = [fence_of body, []]"
    using split_on_single split_on_append [of newline "fence_of body" "[]"] by auto
  have "split_on newline (fenced body) = (fence_of body @ ''text'') # split_on newline text' @ [fence_of body, []]"
    unfolding fenced_def assms using op cl split_on_append [of newline "fence_of body @ ''text''"] split_on_append [of newline text']
    by (simp add: assms)
  moreover have "block_lines ?n (split_on newline text' @ fence_of body # [[]]) = Some (split_on newline text', [[]])"
  proof (rule block_lines_append)
    show "\<forall>l \<in> set (split_on newline text'). \<not> closes_fence ?n l"
    proof
      fix l assume "l \<in> set (split_on newline text')"
      then obtain a b where "text' = a @ l @ b" using in_split_on by blast
      then have "body = a @ l @ (b @ [newline])" by (simp add: assms)
      then show "\<not> closes_fence ?n l" by (rule line_does_not_close) simp
    qed
    show "closes_fence ?n (fence_of body)"
      by (simp add: closes_fence_def fence_of_def tick_def takeWhile_replicate dropWhile_replicate Let_def)
  qed
  ultimately show ?thesis
    using concat_split_on [of newline text'] takeWhile_fence
    by (simp add: literal_block_def fence_of_def assms Let_def)
qed

text \<open>Code points below 128 are single bytes.\<close>

lemma utf8_ascii: "utf8_decode s = Some ps \<Longrightarrow> c \<in> set s \<Longrightarrow> char_code c < 128 \<Longrightarrow> char_code c \<in> set ps"
  by (induction s arbitrary: ps rule: utf8_decode.induct)
    (auto simp: Let_def continuation_def split: if_splits list.splits)

lemma utf8_Nil [simp]: "utf8_decode s = Some [] \<longleftrightarrow> s = []"
  by (cases s) (auto simp: Let_def split: if_splits list.splits)

lemma utf8_last: "utf8_decode s = Some ps \<Longrightarrow> ps \<noteq> [] \<Longrightarrow> last ps < 128 \<Longrightarrow> char_code (last s) = last ps"
  by (induction s arbitrary: ps rule: utf8_decode.induct)
    (auto simp: Let_def continuation_def split: if_splits list.splits)

lemma char_code_inject: "char_code a = char_code b \<longleftrightarrow> a = b"
  by (simp add: char_code_def)

lemma no_obstacle:
  assumes "report_embed_obstacle r = []"
  shows "CHR 0x0D \<notin> set r" "\<exists>t. r = t @ [newline]"
proof -
  obtain ps where ps: "utf8_decode r = Some ps" "ps \<noteq> []" "last ps = 10" "list_all (\<lambda>n. n = 10 \<or> \<not> control_point n) ps"
    using assms by (auto simp: report_embed_obstacle_def obstacle_text_def list_ex_iff list_all_iff split: option.splits if_splits)
  show "CHR 0x0D \<notin> set r"
    using utf8_ascii [OF ps(1), of "CHR 0x0D"] ps(4) [unfolded list_all_iff, THEN bspec, of 13]
    by (auto simp: char_code_def control_point_def)
  have "r \<noteq> []" using ps(1,2) by auto
  then have "char_code (last r) = char_code newline"
    using utf8_last [OF ps(1,2)] ps(3) by (simp add: char_code_def newline_def)
  then have "last r = newline" by (simp add: char_code_inject)
  then show "\<exists>t. r = t @ [newline]" using \<open>r \<noteq> []\<close> append_butlast_last_id [of r] by metis
qed

text \<open>
  C19. A report embedded in the pull request comment is literal and complete: the body stays within the
  limit, contains the report between its markers, and a reader that closes a fenced block at the first
  closing fence gets exactly the report back, whatever the report contains.
\<close>

theorem comment_report_literal:
  assumes "comment_body address_ok status (Some r) n ctx = Inr (body, True)"
  shows "length body \<le> 65536 \<and> (\<exists>a b. body = a @ report_begin @ [newline] @ fenced r @ report_end @ [newline] @ b) \<and>
    literal_block (fenced r) = Some (r, [[]]) \<and> CHR 0x0D \<notin> set r"
proof -
  obtain w where w: "report_embed_obstacle r = []" "length (embedded_body w r) \<le> comment_limit" "body = embedded_body w r"
    using assms by (auto simp: comment_body_def ebind_eq_Inr split: if_splits)
  then have "length body \<le> 65536" by (simp add: comment_limit_def)
  moreover have "\<exists>a b. body = a @ report_begin @ [newline] @ fenced r @ report_end @ [newline] @ b"
    unfolding w(3) embedded_body_def fenced_report_def append_assoc by (metis append_assoc)
  moreover have "literal_block (fenced r) = Some (r, [[]])" using no_obstacle(2) [OF w(1)] literal_fenced by blast
  ultimately show ?thesis using no_obstacle(1) [OF w(1)] by blast
qed

section \<open>The decision\<close>

definition version_two :: "pv \<Rightarrow> bool" where
  "version_two v = (is_dict v \<and> py_eq (fld v ''artifact_version'') (PInt 2))"

text \<open>A run that may pass: every base file, four documents of version 2, the run's own name, a PASS
  headline and, when the scenario names a schedule, its retained copy.\<close>

definition passing_run :: "run_dir \<Rightarrow> string \<Rightarrow> bool" where
  "passing_run d name = (list_all (rd_file d) base_files \<and> (\<exists>m s ob r t.
     rd_json d ''manifest.json'' = Inr m \<and> rd_json d ''scenario.json'' = Inr s \<and>
     rd_json d ''observation.json'' = Inr ob \<and> rd_json d ''report.json'' = Inr r \<and> rd_report d = Inr t \<and>
     list_all version_two [m, s, ob, r] \<and> fld m ''run_id'' = PStr name \<and> headline t = Some ''PASS'' \<and>
     (fld s ''schedule'' = PNone \<or> (\<exists>i. is_dict (fld s ''schedule'') \<and> fld (fld s ''schedule'') ''id'' = PStr i \<and>
        schedule_ok i \<and> rd_file d ''schedule.json'' \<and> rd_copy d = Inr ()))))"

lemma efold_add_version_grows: "efold add_version xs seen = Inr vs \<Longrightarrow> \<exists>t. vs = seen @ t"
proof (induction xs arbitrary: seen)
  case (Cons x xs)
  then obtain s where s: "add_version x seen = Inr s" "efold add_version xs s = Inr vs" by (auto simp: ebind_eq_Inr)
  then have "\<exists>t. s = seen @ t" by (auto simp: add_version_def ebind_eq_Inr split: if_splits)
  then show ?case using Cons.IH [OF s(2)] by auto
qed simp

lemma add_version_single:
  "add_version x [u] = Inr vs \<and> length vs = 1 \<longleftrightarrow>
     vs = [u] \<and> (\<exists>w. getitem x ''artifact_version'' = Inr w \<and> \<not> is_list w \<and> \<not> is_dict w \<and> py_eq u w)"
  by (auto simp: add_version_def ebind_eq_Inr split: if_splits)

lemma efold_add_version_single:
  "efold add_version xs [u] = Inr [v] \<longleftrightarrow> v = u \<and>
     (\<forall>x \<in> set xs. \<exists>w. getitem x ''artifact_version'' = Inr w \<and> \<not> is_list w \<and> \<not> is_dict w \<and> py_eq u w)"
proof (induction xs)
  case (Cons x xs)
  have "efold add_version (x # xs) [u] = Inr [v] \<longleftrightarrow>
      (\<exists>s. add_version x [u] = Inr s \<and> length s = 1 \<and> efold add_version xs s = Inr [v])"
  proof
    assume "efold add_version (x # xs) [u] = Inr [v]"
    then obtain s where s: "add_version x [u] = Inr s" "efold add_version xs s = Inr [v]" by (auto simp: ebind_eq_Inr)
    moreover have "length s \<ge> 1" using s(1) by (auto simp: add_version_def ebind_eq_Inr split: if_splits)
    moreover obtain t where "[v] = s @ t" using efold_add_version_grows [OF s(2)] by blast
    then have "length [v] = length s + length t" by (metis length_append)
    then have "length s \<le> 1" by simp
    ultimately show "\<exists>s. add_version x [u] = Inr s \<and> length s = 1 \<and> efold add_version xs s = Inr [v]" by auto
  qed (auto simp: ebind_eq_Inr)
  also have "\<dots> \<longleftrightarrow> efold add_version xs [u] = Inr [v] \<and>
      (\<exists>w. getitem x ''artifact_version'' = Inr w \<and> \<not> is_list w \<and> \<not> is_dict w \<and> py_eq u w)"
    unfolding conj_assoc [symmetric] add_version_single by blast
  finally show ?case unfolding Cons.IH list.set ball_simps by blast
qed auto

lemma py_eq_two: "py_eq v (PInt 2) \<Longrightarrow> py_eq v w \<longleftrightarrow> py_eq w (PInt 2)"
proof -
  have num: "py_eq x y \<longleftrightarrow> num_eq x y" if "numval x \<noteq> None" for x y
    using that by (cases x) auto
  have none: "\<not> py_eq x (PInt 2)" if "numval x = None" for x
    using that by (cases x) auto
  assume v: "py_eq v (PInt 2)"
  then have nv: "numval v \<noteq> None" "num_eq v (PInt 2)" using none num by blast+
  show ?thesis
  proof (cases "numval w")
    case None
    then show ?thesis using none [OF None] num [OF nv(1)] by (auto simp: num_eq_def split: option.splits)
  next
    case (Some y)
    then show ?thesis using num nv num_eq_sym num_eq_trans by (metis option.distinct(1))
  qed
qed

lemma getitem_dict_fld: "getitem x k = Inr w \<Longrightarrow> is_dict x \<and> fld x k = w"
  by (auto simp: getitem_eq_Inr fld_def)

lemma version_two_getitem:
  "version_two x \<longleftrightarrow> (\<exists>w. getitem x ''artifact_version'' = Inr w \<and> \<not> is_list w \<and> \<not> is_dict w \<and> py_eq w (PInt 2))"
proof
  assume v: "version_two x"
  then obtain d where x: "x = PDict d" by (auto simp: version_two_def is_dict_iff)
  with v obtain w where w: "map_of d ''artifact_version'' = Some w" "py_eq w (PInt 2)"
    by (auto simp: version_two_def fld_def split: option.splits)
  then show "\<exists>w. getitem x ''artifact_version'' = Inr w \<and> \<not> is_list w \<and> \<not> is_dict w \<and> py_eq w (PInt 2)"
    using x by (cases w) auto
next
  assume "\<exists>w. getitem x ''artifact_version'' = Inr w \<and> \<not> is_list w \<and> \<not> is_dict w \<and> py_eq w (PInt 2)"
  then show "version_two x" by (auto simp: version_two_def dest: getitem_dict_fld)
qed

lemma versions_two:
  "(\<exists>v. efold add_version (x # xs) [] = Inr [v] \<and> py_eq v (PInt 2)) \<longleftrightarrow> list_all version_two (x # xs)"
proof -
  have "(\<exists>v. efold add_version (x # xs) [] = Inr [v] \<and> py_eq v (PInt 2)) \<longleftrightarrow>
      (\<exists>v. getitem x ''artifact_version'' = Inr v \<and> \<not> is_list v \<and> \<not> is_dict v \<and> efold add_version xs [v] = Inr [v] \<and> py_eq v (PInt 2))"
    using efold_add_version_grows [of xs] by (fastforce simp: add_version_def ebind_eq_Inr split: if_splits)
  also have "\<dots> \<longleftrightarrow> list_all version_two (x # xs)"
    unfolding efold_add_version_single by (auto simp: version_two_getitem list_all_iff py_eq_two)
  finally show ?thesis .
qed

lemma add_versions_nonempty: "efold add_version (x # xs) [] = Inr vs \<Longrightarrow> vs \<noteq> []"
  using efold_add_version_grows [of xs] by (fastforce simp: add_version_def ebind_eq_Inr split: if_splits)

lemma known_two:
  "efold add_version (x # xs) [] = Inr vs \<Longrightarrow> known_version vs \<Longrightarrow> getitem x ''artifact_version'' = Inr v \<Longrightarrow>
     \<exists>u. vs = [u] \<and> (py_eq u (PInt 2) \<longleftrightarrow> py_eq v (PInt 2))"
proof -
  assume h: "efold add_version (x # xs) [] = Inr vs" "known_version vs" "getitem x ''artifact_version'' = Inr v"
  then have "efold add_version xs [v] = Inr vs" by (auto simp: add_version_def ebind_eq_Inr split: if_splits)
  moreover obtain u where "vs = [u]" using h(2) by (auto simp: known_version_def split: list.splits)
  ultimately show ?thesis using efold_add_version_single by auto
qed

lemma schedule_id_of_eq:
  "is_dict s \<Longrightarrow> schedule_id_of d s = Inr r \<longleftrightarrow>
     (fld s ''schedule'' = PNone \<and> r = None) \<or> (\<exists>i. fld s ''schedule'' \<noteq> PNone \<and> is_dict (fld s ''schedule'') \<and>
        fld (fld s ''schedule'') ''id'' = PStr i \<and> schedule_ok i \<and> rd_file d ''schedule.json'' \<and> r = Some i)"
proof -
  assume "is_dict s"
  then have get: "pgetn s ''schedule'' = Inr (fld s ''schedule'')" by (cases s) (simp_all add: fld_def)
  have item: "getitem v ''id'' = Inr (PStr i) \<longleftrightarrow> is_dict v \<and> fld v ''id'' = PStr i" for v i
    by (cases v) (auto simp: getitem_def fld_def items_of_def split: option.splits)
  have text_id: "(if \<not> is_str v then Inl e else require (schedule_ok (str_of v) \<and> b) m (Inr (Some (str_of v)))) = Inr r \<longleftrightarrow>
      (\<exists>i. v = PStr i \<and> schedule_ok i \<and> b \<and> r = Some i)" for v e b m
    by (cases v) auto
  show ?thesis
    unfolding schedule_id_of_def get ebind.simps
    by (auto simp: ebind_eq_Inr text_id item)
qed

lemma read_run_passing:
  assumes "list_all (rd_file d) base_files"
  shows "(\<exists>v sid. read_run d name = Inr (v, ''PASS'', sid) \<and> py_eq v (PInt 2) \<and> (sid \<noteq> None \<longrightarrow> rd_copy d = Inr ())) \<longleftrightarrow>
    passing_run d name"
proof
  assume "\<exists>v sid. read_run d name = Inr (v, ''PASS'', sid) \<and> py_eq v (PInt 2) \<and> (sid \<noteq> None \<longrightarrow> rd_copy d = Inr ())"
  then obtain v sid m s ob r t vs where docs: "rd_json d ''manifest.json'' = Inr m" "rd_json d ''scenario.json'' = Inr s"
      "rd_json d ''observation.json'' = Inr ob" "rd_json d ''report.json'' = Inr r" "rd_report d = Inr t"
    and vs: "efold add_version [m, s, ob, r] [] = Inr vs" "known_version vs" "getitem m ''artifact_version'' = Inr v" "py_eq v (PInt 2)"
    and rest: "getitem m ''run_id'' = Inr (PStr name)" "headline t = Some ''PASS''" "schedule_id_of d s = Inr sid"
      "sid \<noteq> None \<longrightarrow> rd_copy d = Inr ()"
    unfolding read_run_def ebind_eq_Inr require_eq_Inr by (auto simp del: efold.simps)
  have two: "list_all version_two [m, s, ob, r]" using known_two [OF vs(1,2,3)] vs(1,4) versions_two by metis
  then have "is_dict s" by (simp add: version_two_def)
  then show "passing_run d name"
    unfolding passing_run_def
    using assms docs two rest schedule_id_of_eq [of s d sid] getitem_dict_fld [OF rest(1)] by blast
next
  assume "passing_run d name"
  then obtain m s ob r t where docs: "rd_json d ''manifest.json'' = Inr m" "rd_json d ''scenario.json'' = Inr s"
      "rd_json d ''observation.json'' = Inr ob" "rd_json d ''report.json'' = Inr r" "rd_report d = Inr t"
    and two: "list_all version_two [m, s, ob, r]" and rest: "fld m ''run_id'' = PStr name" "headline t = Some ''PASS''"
    and sched: "fld s ''schedule'' = PNone \<or> (\<exists>i. is_dict (fld s ''schedule'') \<and> fld (fld s ''schedule'') ''id'' = PStr i \<and>
        schedule_ok i \<and> rd_file d ''schedule.json'' \<and> rd_copy d = Inr ())"
    unfolding passing_run_def by blast
  obtain u where vs: "efold add_version [m, s, ob, r] [] = Inr [u]" "py_eq u (PInt 2)" using two versions_two by blast
  have "version_two m" "version_two s" using two by simp_all
  then obtain v where v: "getitem m ''artifact_version'' = Inr v" "py_eq v (PInt 2)" by (auto simp: version_two_getitem)
  have "getitem m ''run_id'' = Inr (PStr name)"
    using rest(1) by (cases m) (auto simp: fld_def items_of_def getitem_def split: option.splits)
  moreover obtain sid where "schedule_id_of d s = Inr sid" "sid \<noteq> None \<longrightarrow> rd_copy d = Inr ()"
    using schedule_id_of_eq [of s d] \<open>version_two s\<close> sched unfolding version_two_def by blast
  ultimately show "\<exists>v sid. read_run d name = Inr (v, ''PASS'', sid) \<and> py_eq v (PInt 2) \<and> (sid \<noteq> None \<longrightarrow> rd_copy d = Inr ())"
    using docs vs v rest(2) by (auto simp: read_run_def known_version_def simp del: efold.simps)
qed

definition run_passes :: "run_result \<Rightarrow> bool" where
  "run_passes r = (rr_complete r \<and> py_eq (rr_version r) (PInt 2) \<and> rr_verdict r = ''PASS'')"

lemma gate_status:
  "gate_exit upload (Inr (status_doc (PInt code) r)) = 0 \<longleftrightarrow> upload = Some ''success'' \<and> code = 0 \<and> run_passes r"
  by (auto simp: gate_exit_def gate_def read_status_def status_doc_def run_passes_def)

lemma gate_unlaunched: "gate_exit upload (Inr (unlaunched_doc code note)) \<noteq> 0"
  by (auto simp: gate_exit_def gate_def read_status_def unlaunched_doc_def)

lemma exit_status_0: "exit_status c = 0 \<longleftrightarrow> c = 0"
  by (simp add: exit_status_def)

lemma run_passes_simps [simp]:
  "\<not> run_passes no_run" "run_passes (run_failed e r) = run_passes r" "run_passes (r\<lparr>rr_note := n\<rparr>) = run_passes r"
  "run_passes (no_run\<lparr>rr_directory := a\<rparr>) = False" "run_passes (no_run\<lparr>rr_directory := a, rr_report := b\<rparr>) = False"
  "run_passes (run_complete v w r) \<longleftrightarrow> py_eq v (PInt 2) \<and> w = ''PASS''"
  "run_passes (r\<lparr>rr_schedule := i\<rparr>) = run_passes r"
  by (simp_all add: run_passes_def no_run_def run_failed_def run_complete_def)

text \<open>The part of \<open>parse_run\<close> after the directory is known.\<close>

lemma run_passes_at:
  "run_passes (inspect_run parts d) \<longleftrightarrow> passing_run d (last parts)"
proof (cases "list_all (rd_file d) base_files")
  case True
  then have miss: "filter (\<lambda>n. \<not> rd_file d n) base_files = []" by (auto simp: list_all_iff filter_empty_conv)
  show ?thesis
    unfolding inspect_run_def Let_def miss read_run_passing [OF True, symmetric]
    by (auto split: sum.splits option.splits)
next
  case False
  then have "filter (\<lambda>n. \<not> rd_file d n) base_files \<noteq> []" by (auto simp: list_all_iff filter_empty_conv)
  then show ?thesis using False by (simp add: passing_run_def inspect_run_def Let_def)
qed

lemma parse_run_passes:
  "run_passes (parse_run top_dir cwd resolve view stdout) \<longleftrightarrow> (\<exists>d name. splitlines stdout \<noteq> [] \<and>
     resolve (absolute cwd (last (splitlines stdout))) = Some (top_dir @ [''runs'', name]) \<and>
     view (top_dir @ [''runs'', name]) = Some d \<and> passing_run d name)" (is "?l \<longleftrightarrow> ?r")
proof (cases "splitlines stdout = []")
  case False
  then obtain x xs where lines: "splitlines stdout = x # xs" by (cases "splitlines stdout") auto
  let ?p = "absolute cwd (last (splitlines stdout))"
  have run: "parse_run top_dir cwd resolve view stdout = (case resolve ?p of None \<Rightarrow> no_run | Some parts \<Rightarrow>
      (case view parts of None \<Rightarrow> no_run | Some d \<Rightarrow>
         if parts = [] \<or> butlast parts \<noteq> top_dir @ [''runs''] then no_run else inspect_run parts d))"
    by (simp add: parse_run_def lines del: last.simps)
  show ?thesis
  proof (cases "\<exists>d name. resolve ?p = Some (top_dir @ [''runs'', name]) \<and> view (top_dir @ [''runs'', name]) = Some d")
    case True
    then obtain d name where at: "resolve ?p = Some (top_dir @ [''runs'', name])" "view (top_dir @ [''runs'', name]) = Some d"
      by blast
    then have "parse_run top_dir cwd resolve view stdout = inspect_run (top_dir @ [''runs'', name]) d"
      unfolding run by (simp add: butlast_append)
    then have "?l \<longleftrightarrow> passing_run d name" by (simp add: run_passes_at)
    then show ?thesis using at lines by auto
  next
    case False
    have "parse_run top_dir cwd resolve view stdout = no_run"
    proof (cases "resolve ?p")
      case (Some parts)
      show ?thesis
      proof (cases "view parts")
        case (Some d)
        have "parts = [] \<or> butlast parts \<noteq> top_dir @ [''runs'']"
          using False Some \<open>resolve ?p = Some parts\<close> by (metis append.assoc append_Cons append_Nil append_butlast_last_id)
        then show ?thesis using Some \<open>resolve ?p = Some parts\<close> unfolding run by simp
      qed (use \<open>resolve ?p = Some parts\<close> run in simp)
    qed (use run in simp)
    then show ?thesis using False by auto
  qed
qed (auto simp: parse_run_def)

text \<open>
  C5. The gate passes exactly when the evidence upload succeeded, the process was launched, its logs were
  kept, it exited with status 0, and the last line it printed names an existing directory directly below
  \<open>runs\<close> of the evidence directory that holds a complete, consistent run of artifact version 2 whose
  report headline is PASS.
\<close>

theorem gate_decision:
  "gate_exit upload (Inr (run_status launched (parse_run top_dir cwd resolve view))) = 0 \<longleftrightarrow>
     upload = Some ''success'' \<and> (\<exists>p d name. launched = Inr p \<and> pr_returncode p = 0 \<and> pr_logs p = Inr () \<and>
       splitlines (pr_stdout p) \<noteq> [] \<and>
       resolve (absolute cwd (last (splitlines (pr_stdout p)))) = Some (top_dir @ [''runs'', name]) \<and>
       view (top_dir @ [''runs'', name]) = Some d \<and> passing_run d name)"
proof -
  let ?run = "\<lambda>p d name. splitlines (pr_stdout p) \<noteq> [] \<and>
    resolve (absolute cwd (last (splitlines (pr_stdout p)))) = Some (top_dir @ [''runs'', name]) \<and>
    view (top_dir @ [''runs'', name]) = Some d \<and> passing_run d name"
  have "gate_exit upload (Inr (run_status launched (parse_run top_dir cwd resolve view))) = 0 \<longleftrightarrow>
      upload = Some ''success'' \<and> (\<exists>p. launched = Inr p \<and> pr_returncode p = 0 \<and> pr_logs p = Inr () \<and>
        run_passes (parse_run top_dir cwd resolve view (pr_stdout p)))"
    by (cases launched) (auto simp: run_status_def gate_status gate_unlaunched exit_status_0 Let_def split: sum.splits)
  also have "\<dots> \<longleftrightarrow> upload = Some ''success'' \<and> (\<exists>p d name. launched = Inr p \<and> pr_returncode p = 0 \<and> pr_logs p = Inr () \<and> ?run p d name)"
    unfolding parse_run_passes by blast
  finally show ?thesis .
qed

section \<open>Installation and comment outcomes\<close>

definition plain_char :: "char \<Rightarrow> bool" where
  "plain_char c = (is_alnum c \<or> c = CHR ''.'' \<or> c = CHR ''-'' \<or> c = CHR ''='')"

lemma plain_no_break: "plain_char c \<Longrightarrow> \<not> line_break c \<and> c \<noteq> CHR 0x0D"
  by (auto simp: plain_char_def is_alnum_def is_digit_def is_lower_def is_upper_def line_break_def Let_def char_code_def
      less_eq_char_def)

lemma number_text_plain: "number_text s \<Longrightarrow> list_all plain_char s"
  by (auto simp: number_text_def list_all_iff plain_char_def is_alnum_def)

lemma version_plain: "version_ok v \<Longrightarrow> list_all plain_char v"
proof -
  assume ok: "version_ok v"
  then obtain t where v: "v = CHR ''v'' # t" by (auto simp: version_ok_def split: list.splits)
  let ?core = "takeWhile (\<lambda>c. c \<noteq> CHR ''-'') t" and ?rest = "dropWhile (\<lambda>c. c \<noteq> CHR ''-'') t"
  obtain a b c where parts: "split_on (CHR ''.'') ?core = [a, b, c]" "number_text a" "number_text b" "number_text c"
    using ok by (auto simp: version_ok_def v split: list.splits)
  have core: "?core = a @ ''.'' @ b @ ''.'' @ c" using join_split_on [of "CHR ''.''" ?core] parts(1) by simp
  have "list_all plain_char ?core"
    unfolding core using parts(2-4) number_text_plain by (simp add: plain_char_def)
  moreover have "list_all plain_char ?rest"
  proof (cases ?rest)
    case (Cons d ds)
    then have "d = CHR ''-''" using hd_dropWhile [of "\<lambda>c. c \<noteq> CHR ''-''" t] by auto
    then show ?thesis using ok Cons
      by (auto simp: version_ok_def v plain_char_def list_all_iff split: list.splits)
  next
    case Nil
    show ?thesis unfolding Nil by simp
  qed
  ultimately have "list_all plain_char (?core @ ?rest)" unfolding list_all_append by blast
  then show ?thesis by (simp add: v plain_char_def is_alnum_def is_lower_def)
qed

lemma split_lines_line:
  "list_all plain_char a \<Longrightarrow> split_lines cur (a @ newline # b) = (rev cur @ a) # splitlines b"
proof (induction a arbitrary: cur)
  case Nil
  then show ?case by (simp add: newline_def line_break_def char_code_def)
next
  case (Cons x a)
  then show ?case using plain_no_break [of x] by simp
qed

lemma installed_version_line:
  "version_ok v \<Longrightarrow> installed_version (Inr (''version='' @ v @ [newline] @ rest)) = v"
proof -
  assume v: "version_ok v"
  have "list_all plain_char ''version=''"
    by (simp add: plain_char_def is_alnum_def is_lower_def)
  then have "list_all plain_char (''version='' @ v)" using version_plain [OF v] unfolding list_all_append by blast
  from split_lines_line [OF this, of "[]" rest]
  have "splitlines (''version='' @ v @ [newline] @ rest) = (''version='' @ v) # splitlines rest" by simp
  then show ?thesis by (simp add: installed_version_def startswith_def del: append_Cons)
qed

lemma release_version_ok: "release_version env tag_ref = Inr v \<Longrightarrow> version_ok v"
  by (auto simp: release_version_def Let_def ebind_eq_Inr split: if_splits)


lemma post_comment_url: "post_comment http api r n t b = Inr url \<Longrightarrow> url \<noteq> []"
  by (auto simp: post_comment_def startswith_def split: sum.splits if_splits)

lemma post_outcome_kinds:
  "post_outcome pr r (post_comment http api r' n t b) = Inr (out, detail, url) \<Longrightarrow>
     out \<in> {''skipped'', ''posted'', ''failed''} \<and> (url \<noteq> [] \<longleftrightarrow> out = ''posted'')"
  by (auto simp: post_outcome_def dest: post_comment_url split: sum.splits post_fault.splits if_splits)

text \<open>
  C26. The comment step has four outcomes and gives a link exactly when it posted; it posts only for a
  positive pull request number of a well-formed repository, with a token, when asked to, and only a
  report stored as a file of a run directory below the evidence directory.
\<close>

theorem comment_outcomes:
  assumes "comment_result w = (out, detail, url)"
  shows "out \<in> {''disabled'', ''skipped'', ''posted'', ''failed''} \<and> (url \<noteq> [] \<longleftrightarrow> out = ''posted'') \<and>
    (out = ''posted'' \<longrightarrow> cw_env w ''WEAVEGATE_COMMENT'' = Some ''true'' \<and>
       (\<exists>pr n r p. pull_request_of w = Inr (pr, n) \<and> 0 < n \<and> cw_env w ''GITHUB_REPOSITORY'' = Some r \<and> repository_ok r \<and>
          stored_below (cw_top w) p \<and> cw_report w p \<noteq> None) \<and> (\<exists>t. t \<noteq> [] \<and> cw_env w ''WEAVEGATE_COMMENT_TOKEN'' = Some t))"
proof (cases "decide_comment w")
  case (Inl e)
  then have "out = ''failed'' \<and> url = []" using assms by (auto simp: comment_result_def)
  then show ?thesis by simp
next
  case (Inr r)
  then have r: "decide_comment w = Inr (out, detail, url)" using assms by (simp add: comment_result_def)
  let ?early = "out \<in> {''disabled'', ''skipped''} \<and> url = []"
  let ?posting = "\<exists>pr n k s body. env_or w ''WEAVEGATE_COMMENT'' [] = ''true'' \<and> pull_request_of w = Inr (pr, n) \<and>
    repository_ok (env_or w ''GITHUB_REPOSITORY'' []) \<and> stored_report w (read_status (cw_status w)) = Inr (k, s) \<and>
    env_or w ''WEAVEGATE_COMMENT_TOKEN'' [] \<noteq> [] \<and>
    post_outcome pr (env_or w ''GITHUB_REPOSITORY'' []) (post_comment (cw_http w) (env_or w ''GITHUB_API_URL'' ''https://api.github.com'')
      (env_or w ''GITHUB_REPOSITORY'' []) n (env_or w ''WEAVEGATE_COMMENT_TOKEN'' []) body) = Inr (out, detail, url)"
  have "?early \<or> ?posting"
    using r unfolding decide_comment_def Let_def
    by (simp split: if_splits sum.splits prod.splits) (auto simp: ebind_eq_Inr)
  then show ?thesis
  proof
    assume ?posting
    then obtain pr n k s body where p: "env_or w ''WEAVEGATE_COMMENT'' [] = ''true''" "pull_request_of w = Inr (pr, n)"
        "repository_ok (env_or w ''GITHUB_REPOSITORY'' [])" "stored_report w (read_status (cw_status w)) = Inr (k, s)"
        "env_or w ''WEAVEGATE_COMMENT_TOKEN'' [] \<noteq> []" and out: "out \<in> {''skipped'', ''posted'', ''failed''}" "url \<noteq> [] \<longleftrightarrow> out = ''posted''"
      using post_outcome_kinds by blast
    have "0 < n" using p(2) by (auto simp: pull_request_of_def ebind_eq_Inr)
    moreover have "cw_env w ''WEAVEGATE_COMMENT'' = Some ''true''" using p(1) by (auto simp: env_or_def split: option.splits)
    moreover have "\<exists>r. cw_env w ''GITHUB_REPOSITORY'' = Some r \<and> repository_ok r"
      using p(3) by (auto simp: env_or_def repository_ok_def safe_name_def split: option.splits)
    moreover have "\<exists>t. t \<noteq> [] \<and> cw_env w ''WEAVEGATE_COMMENT_TOKEN'' = Some t"
      using p(5) by (auto simp: env_or_def split: option.splits)
    moreover have "\<exists>q. stored_below (cw_top w) q \<and> cw_report w q \<noteq> None"
      using p(4) by (auto simp: stored_report_def ebind_eq_Inr Let_def split: if_splits option.splits)
    ultimately show ?thesis using out p(2) by blast
  qed auto
qed

section \<open>Sample runs\<close>

definition sample_report :: string where "sample_report = ''ok'' @ [newline]"

definition sample_ctx :: comment_context where
  "sample_ctx = \<lparr>cc_repository = ''a/b'', cc_run_id = ''7'', cc_server_url = [], cc_artifact_name = [],
     cc_artifact_url = [], cc_upload_outcome = ''failure'', cc_version = []\<rparr>"

definition sample_wrapper :: wrapper where
  "sample_wrapper = \<lparr>wr_code = ''2'', wr_run_name = [], wr_schedule = [], wr_repository = ''a/b'', wr_server = [],
     wr_host = [], wr_run_id = ''7'', wr_artifact = [], wr_version = [], wr_uploaded = False, wr_url = [], wr_verdict = ''FAIL''\<rparr>"

definition sample_status :: pv where
  "sample_status = PDict [(''exit_code'', PInt 2), (''verdict'', PStr ''FAIL''), (''report_path'', PStr ''/e/runs/r/report.md'')]"

lemma sample_wrapper_values: "wrapper_values (\<lambda>_. False) sample_status sample_ctx = Inr sample_wrapper"
  by code_simp

lemma sample_body_length: "length (embedded_body sample_wrapper sample_report) \<le> comment_limit"
  by (simp add: embedded_body_def comment_head_def comment_marker_def facts_line_def comment_tail_def replay_section_def
      fenced_report_def fenced_def report_begin_def report_end_def fence_of_def sample_wrapper_def sample_report_def nl_def
      code_span_def comment_limit_def upper_first_def quote_def tick_def newline_def)

lemma sample_body:
  "comment_body (\<lambda>_. False) sample_status (Some sample_report) 3 sample_ctx = Inr (embedded_body sample_wrapper sample_report, True)"
proof -
  have "report_embed_obstacle sample_report = []" by code_simp
  then show ?thesis using sample_body_length by (simp add: comment_body_def sample_wrapper_values)
qed

lemma comment_report_literal_witness: "literal_block (fenced sample_report) = Some (sample_report, [[]])"
  using comment_report_literal [OF sample_body] by blast

definition sample_name :: string where "sample_name = ''weavegate_1.0.0_linux_amd64.tar.gz''"

definition sample_fetch :: "string \<Rightarrow> string res" where
  "sample_fetch url = Inr (if endswith url ''checksums.txt'' then replicate 64 (CHR ''A'') @ ''  '' @ sample_name @ [newline] else ''archive'')"

definition sample_member :: tar_member where
  "sample_member = \<lparr>tm_file = True, tm_size = 6, tm_data = Some ''binary''\<rparr>"

definition sample_install_env :: "string \<Rightarrow> string option" where
  "sample_install_env k = (if k = ''WEAVEGATE_VERSION'' then Some ''v1.0.0'' else None)"

definition sample_record :: string where
  "sample_record = ''version=v1.0.0'' @ [newline] @ ''archive='' @ sample_name @ [newline] @ ''sha256='' @ replicate 64 (CHR ''a'') @ [newline]"

lemma download_small: "fetch url = Inr body \<Longrightarrow> length body \<le> limit \<Longrightarrow> download fetch url limit = Inr body"
  by (simp add: download_def)

lemma sample_install:
  "install sample_install_env (\<lambda>_. Inl (OSError [])) sample_fetch Inr (\<lambda>_. replicate 64 (CHR ''a'')) (\<lambda>_ _. Inr sample_member)
     ''Linux'' ''x86_64'' ''https://h'' = Inr (''binary'', sample_record)"
proof -
  let ?sums = "replicate 64 (CHR ''A'') @ ''  '' @ sample_name @ [newline]"
  have "download sample_fetch ''https://h/v1.0.0/checksums.txt'' 65536 = Inr ?sums"
    by (rule download_small) (simp_all add: sample_fetch_def endswith_def startswith_def sample_name_def)
  moreover have "download sample_fetch (''https://h/v1.0.0/'' @ sample_name) (100 * 1024 * 1024) = Inr ''archive''"
    by (rule download_small) (simp_all add: sample_fetch_def endswith_def startswith_def sample_name_def)
  moreover have "archive_digests sample_name ?sums = [replicate 64 (CHR ''a'')]" by code_simp
  moreover have "archive_name ''v1.0.0'' ''amd64'' = sample_name" by code_simp
  ultimately have a: "verified_archive sample_fetch Inr (\<lambda>_. replicate 64 (CHR ''a'')) ''v1.0.0'' ''amd64'' ''https://h'' =
      Inr (sample_name, ''archive'', replicate 64 (CHR ''a''))"
    by (simp add: verified_archive_def Let_def)
  have "release_version sample_install_env (\<lambda>_. Inl (OSError [])) = Inr ''v1.0.0''" by code_simp
  then show ?thesis
    by (simp add: install_def machine_arch_def a sample_member_def sample_record_def)
qed


definition sample_world :: comment_world where
  "sample_world = \<lparr>cw_env = (\<lambda>k. if k = ''WEAVEGATE_COMMENT'' then Some ''true'' else if k = ''GITHUB_REPOSITORY'' then Some ''a/b''
       else if k = ''WEAVEGATE_COMMENT_TOKEN'' then Some ''t'' else None),
     cw_event = Inr (PDict [(''pull_request'', PDict [(''number'', PInt 5)])]), cw_top = [''e''], cw_status = Inr sample_status,
     cw_install = Inl (OSError []), cw_report = (\<lambda>_. Some (3, Inr sample_report)), cw_address = (\<lambda>_. False),
     cw_http = (\<lambda>_ _ _. Inr (201, Inr (PDict [(''html_url'', PStr ''https://h/1'')])))\<rparr>"

lemma sample_comment: "comment_result sample_world = (''posted'', ''the stored report was posted'', ''https://h/1'')"
proof -
  have pr: "pull_request_of sample_world = Inr (PDict [(''number'', PInt 5)], 5)" by code_simp
  have st: "read_status (cw_status sample_world) = sample_status" by (simp add: sample_world_def read_status_def)
  have below: "stored_below [''e''] ''/e/runs/r/report.md''" by code_simp
  have stored: "stored_report sample_world sample_status = Inr (3, Some sample_report)"
    using below by (simp add: stored_report_def sample_world_def sample_status_def comment_limit_def)
  have "repository_ok ''a/b''" by code_simp
  moreover obtain v where "wrapper_values (cw_address sample_world) sample_status (comment_context_of sample_world ''a/b'') = Inr v"
    by (auto simp: wrapper_values_def sample_status_def text_or_empty_def)
  then obtain body f where body: "comment_body (cw_address sample_world) sample_status (Some sample_report) 3
      (comment_context_of sample_world ''a/b'') = Inr (body, f)"
    by (cases "comment_body (cw_address sample_world) sample_status (Some sample_report) 3
      (comment_context_of sample_world ''a/b'')") (auto simp: comment_body_def split: if_splits)
  moreover have "env_or sample_world ''GITHUB_REPOSITORY'' [] = ''a/b''" "env_or sample_world ''WEAVEGATE_COMMENT'' [] = ''true''"
      "env_or sample_world ''WEAVEGATE_COMMENT_TOKEN'' [] = ''t''"
    by (simp_all add: env_or_def sample_world_def)
  moreover have "post_comment (cw_http sample_world) u r n t b = Inr ''https://h/1''" for u r n t b
    by (simp add: post_comment_def sample_world_def startswith_def newline_def)
  ultimately show ?thesis
    by (simp add: comment_result_def decide_comment_def pr st stored post_outcome_def)
qed

lemma comment_outcomes_witness:
  "\<exists>n r. pull_request_of sample_world = Inr (PDict [(''number'', PInt 5)], n) \<and> cw_env sample_world ''GITHUB_REPOSITORY'' = Some r \<and> repository_ok r"
proof -
  have "pull_request_of sample_world = Inr (PDict [(''number'', PInt 5)], 5)" by code_simp
  then show ?thesis using comment_outcomes [OF sample_comment] by auto
qed

end
