(* ===== verification/Quantile.thy ===== *)
theory Quantile
  imports PyValue
begin

text \<open>
  The two quantile functions of the repository, \<open>stats.q\<close> of the E5 reduction
  (\<open>runner/analyze.py\<close>) and \<open>quantile\<close> of the harness (\<open>harness/analysis.py\<close>), on finite floats.
  The locale \<open>interpolation\<close> states their common contract, linear interpolation between two
  neighbours of the sorted sample with every step rounded; bounds and monotonicity are proved in it.
\<close>

section \<open>The code\<close>

text \<open>Addition, subtraction and product of finite floats.\<close>

abbreviation fin_of :: "flt \<Rightarrow> rat" where
  "fin_of f \<equiv> (case f of Fin x \<Rightarrow> x | _ \<Rightarrow> 0)"

definition sample_index :: "nat \<Rightarrow> rat \<Rightarrow> flt" where
  "sample_index n p = flt_mul (to_flt (of_nat (n - 1))) (Fin p)"

text \<open>\<open>stats.q\<close>: the upper neighbour is clipped to the last value.\<close>

definition runner_quantile :: "rat list \<Rightarrow> rat \<Rightarrow> flt option" where
  "runner_quantile vs p =
     (if vs = [] then None
      else (let xs = sort vs; idx = fin_of (sample_index (length xs) p); low = nat \<lfloor>idx\<rfloor>;
                hi = xs ! min (low + 1) (length xs - 1); lo = xs ! low in
        Some (flt_add (Fin lo) (flt_mul (flt_sub (Fin hi) (Fin lo)) (to_flt (idx - of_nat low))))))"

text \<open>\<open>stats\<close>\<close>

record sample_stats =
  st_n :: nat
  st_median :: "flt option"
  st_p90 :: "flt option"
  st_min :: "rat option"
  st_max :: "rat option"

definition float_half :: rat where "float_half = 1 / 2"
definition float_nine_tenths :: rat where "float_nine_tenths = rnd (9 / 10)"

definition stats :: "rat option list \<Rightarrow> sample_stats" where
  "stats values = (let vs = sort (concat (map (\<lambda>v. case v of None \<Rightarrow> [] | Some x \<Rightarrow> [x]) values)) in
     \<lparr>st_n = length vs, st_median = runner_quantile vs float_half, st_p90 = runner_quantile vs float_nine_tenths,
      st_min = (if vs = [] then None else Some (Min (set vs))), st_max = (if vs = [] then None else Some (Max (set vs)))\<rparr>)"

text \<open>\<open>quantile\<close> of the harness; an empty sample raises IndexError.\<close>

definition harness_quantile :: "rat list \<Rightarrow> rat \<Rightarrow> flt res" where
  "harness_quantile vs p =
     (if vs = [] then Inl (IndexError ''list index out of range'')
      else (let xs = sort vs; idx = fin_of (sample_index (length xs) p); low = nat \<lfloor>idx\<rfloor>; high = nat \<lceil>idx\<rceil>;
                weight = to_flt (idx - of_nat low); delta = flt_sub (Fin (xs ! high)) (Fin (xs ! low)) in
        Inr (if \<not> is_finite delta
             then flt_add (flt_mul (Fin (xs ! low)) (flt_sub (Fin 1) weight)) (flt_mul (Fin (xs ! high)) weight)
             else flt_add (Fin (xs ! low)) (flt_mul delta weight))))"

section \<open>Rounding between representable values\<close>

lemma representable_rnd [simp]: "representable x \<Longrightarrow> rnd x = x"
  by (simp add: representable_def)

lemma rnd_between: "representable a \<Longrightarrow> representable b \<Longrightarrow> a \<le> x \<Longrightarrow> x \<le> b \<Longrightarrow> a \<le> rnd x \<and> rnd x \<le> b"
  using rnd_mono [of a x] rnd_mono [of x b] by simp

lemma to_flt_between: "representable a \<Longrightarrow> representable b \<Longrightarrow> a \<le> x \<Longrightarrow> x \<le> b \<Longrightarrow> to_flt x = Fin (rnd x)"
  using rnd_between [of a b x] by (auto simp: to_flt_def Let_def representable_def)

lemma representable_0 [simp]: "representable 0"
  by (simp add: representable_def max_finite_def)

lemma representable_1 [simp]: "representable 1"
  using rnd_of_int [of 1] by (simp add: representable_def max_finite_def)

text \<open>A number of the unit grid of \<open>d\<close> below \<open>d\<close>: rounding down.\<close>

definition round_down :: "rat \<Rightarrow> rat" where
  "round_down d = of_int \<lfloor>d / 2 powi ulp_exp d\<rfloor> * 2 powi ulp_exp d"

lemma round_down_le: "0 < d \<Longrightarrow> round_down d \<le> d"
proof -
  have "of_int \<lfloor>d / 2 powi ulp_exp d\<rfloor> \<le> d / 2 powi ulp_exp d" by (rule of_int_floor_le)
  then have "of_int \<lfloor>d / 2 powi ulp_exp d\<rfloor> * 2 powi ulp_exp d \<le> d / 2 powi ulp_exp d * (2 powi ulp_exp d :: rat)"
    by (intro mult_right_mono) auto
  then show ?thesis by (simp add: round_down_def)
qed

lemma grid_bounds: "0 < d \<Longrightarrow> 0 \<le> \<lfloor>d / 2 powi ulp_exp d\<rfloor> \<and> \<lfloor>d / 2 powi ulp_exp d\<rfloor> \<le> 2 ^ 53"
proof -
  assume d: "0 < d"
  let ?e = "ulp_exp d"
  have "ilog2 d + 1 \<le> 53 + ?e" by (simp add: ulp_exp_def)
  then have "d < 2 powi (53 + ?e)"
    using ilog2_bounds(2) [OF d] powi_mono2 [of "ilog2 d + 1" "53 + ?e"] by linarith
  then have "d / 2 powi ?e \<le> 2 ^ 53"
    by (simp add: power_int_add pos_divide_le_eq power_int_def [of _ 53])
  then have "\<lfloor>d / 2 powi ?e\<rfloor> \<le> 2 ^ 53" by (simp add: floor_le_iff)
  then show ?thesis using d by simp
qed

lemma rnd_round_down [simp]: "0 < d \<Longrightarrow> rnd (round_down d) = round_down d"
proof -
  assume d: "0 < d"
  let ?k = "\<lfloor>d / 2 powi ulp_exp d\<rfloor>"
  show ?thesis
  proof (cases "?k = 0")
    case False
    then have "0 < ?k" using grid_bounds [OF d] by linarith
    moreover have "rnd_pos (round_down d) = round_down d"
      by (rule rnd_pos_scaled [of _ ?k "ulp_exp d"])
        (use calculation grid_bounds [OF d] in \<open>simp_all add: round_down_def ulp_exp_def\<close>)
    ultimately show ?thesis by (simp add: rnd_def round_down_def)
  qed (simp add: round_down_def)
qed

text \<open>Every representable value is a multiple of the least subnormal.\<close>

lemma representable_multiple: "representable x \<Longrightarrow> \<exists>i. x = of_int i * 2 powi (-1074)"
proof -
  have pos: "\<exists>i. y = of_int i * 2 powi (-1074)" if y: "0 < y" "rnd y = y" for y
  proof -
    obtain m e where me: "y = of_int m * 2 powi e" "-1074 \<le> e"
      using rnd_pos_form [OF y(1)] y by (auto simp: rnd_def)
    have "(2::rat) powi e / 2 powi (-1074) = of_int (2 ^ nat (e - (-1074)))"
      using powi_ratio_int [OF me(2)] by simp
    then have "(2::rat) powi e = of_int (2 ^ nat (e + 1074)) * 2 powi (-1074)" by (simp add: field_simps)
    then have "y = of_int (m * 2 ^ nat (e + 1074)) * 2 powi (-1074)" using me(1) by simp
    then show ?thesis by blast
  qed
  assume x: "representable x"
  consider "x = 0" | "0 < x" | "0 < - x" by linarith
  then show ?thesis
  proof cases
    case 1
    then show ?thesis by (intro exI [of _ 0]) simp
  next
    case 2
    then show ?thesis using pos x by simp
  next
    case 3
    then obtain i where "- x = of_int i * 2 powi (-1074)" using pos [of "- x"] x by (auto simp: rnd_minus)
    then show ?thesis by (intro exI [of _ "- i"]) simp
  qed
qed

lemma weighted_difference:
  assumes r: "representable lo" "representable hi" and le: "lo \<le> hi" and w: "0 \<le> w" "w \<le> 15 / 16"
  shows "0 \<le> rnd (rnd (hi - lo) * w) \<and> rnd (rnd (hi - lo) * w) \<le> hi - lo"
proof (cases "hi = lo")
  case False
  let ?d = "hi - lo" and ?u = "2 powi ulp_exp (hi - lo) :: rat"
  let ?k = "\<lfloor>?d / ?u\<rfloor>"
  have d: "0 < ?d" using False le by simp
  have u: "0 < ?u" by simp
  have rd: "rnd ?d = of_int (rne (?d / ?u)) * ?u" using d by (simp add: rnd_def rnd_pos_def)
  have "rnd ?d * w \<le> round_down ?d"
  proof (cases "rne (?d / ?u) = ?k")
    case True
    then have "rnd ?d = round_down ?d" by (simp add: rd round_down_def)
    moreover have "0 \<le> rnd ?d" using rnd_nonneg [of ?d] d by simp
    ultimately show ?thesis using w mult_left_le [of w "rnd ?d"] by simp
  next
    case False
    then have up: "rne (?d / ?u) = ?k + 1" using rne_lower [of "?d / ?u"] rne_upper [of "?d / ?u"] by linarith
    have "15 \<le> ?k"
    proof (rule ccontr)
      assume "\<not> 15 \<le> ?k"
      then have "?d / ?u < 15" by (simp add: not_le floor_less_iff)
      then have "?d < 15 * ?u" using u by (simp add: pos_divide_less_eq)
      then have "?d < 16 * ?u" using u by linarith
      also have "16 * ?u = 2 powi (ulp_exp ?d + 4)" by (simp add: power_int_add)
      finally have "2 powi ilog2 ?d < (2::rat) powi (ulp_exp ?d + 4)" using ilog2_bounds(1) [OF d] by linarith
      then have "ilog2 ?d < ulp_exp ?d + 4" using powi_mono2 [of "ulp_exp ?d + 4" "ilog2 ?d"] by linarith
      then have e: "ulp_exp ?d = -1074" by (auto simp: ulp_exp_def)
      obtain i j where "lo = of_int i * 2 powi (-1074)" "hi = of_int j * 2 powi (-1074)"
        using representable_multiple r by blast
      then have "?d / ?u = of_int (j - i)" by (simp add: e field_simps)
      then show False using up by (simp only: rne_of_int floor_of_int)
    qed
    then have k: "(15::rat) \<le> of_int ?k" by linarith
    have "of_int (?k + 1) * w \<le> of_int (?k + 1) * (15 / 16)" using w k by (intro mult_left_mono) auto
    also have "\<dots> \<le> of_int ?k" using k by (simp add: field_simps)
    finally have "of_int (?k + 1) * w * ?u \<le> of_int ?k * ?u" using u by (intro mult_right_mono) auto
    then show ?thesis unfolding rd up round_down_def by (simp add: ac_simps)
  qed
  then have "rnd (rnd ?d * w) \<le> round_down ?d" using rnd_mono rnd_round_down [OF d] by metis
  moreover have "0 \<le> rnd (rnd ?d * w)" using d w by (intro rnd_nonneg mult_nonneg_nonneg) auto
  ultimately show ?thesis using round_down_le [OF d] by linarith
qed simp

lemma interpolated_between:
  assumes "representable lo" "representable hi" "lo \<le> hi" "0 \<le> w" "w \<le> 15 / 16"
  shows "lo \<le> rnd (lo + rnd (rnd (hi - lo) * w)) \<and> rnd (lo + rnd (rnd (hi - lo) * w)) \<le> hi"
  using weighted_difference [OF assms] by (intro rnd_between assms) auto

section \<open>The contract\<close>

definition position :: "nat \<Rightarrow> rat \<Rightarrow> rat" where
  "position n p = rnd (of_nat (n - 1) * p)"

definition weight :: "rat \<Rightarrow> rat" where
  "weight a = rnd (a - of_nat (nat \<lfloor>a\<rfloor>))"

definition interpolate :: "rat list \<Rightarrow> rat \<Rightarrow> rat" where
  "interpolate xs a = (let k = nat \<lfloor>a\<rfloor>; lo = xs ! k; hi = xs ! min (k + 1) (length xs - 1) in
     rnd (lo + rnd (rnd (hi - lo) * weight a)))"

text \<open>Samples of finite floats whose spread is finite, and positions whose weight is away from one.\<close>

definition sample_ok :: "rat list \<Rightarrow> bool" where
  "sample_ok vs = (vs \<noteq> [] \<and> length vs \<le> 2 ^ 53 \<and> list_all representable vs \<and> Max (set vs) - Min (set vs) \<le> max_finite)"

definition mild :: "nat \<Rightarrow> rat \<Rightarrow> bool" where
  "mild n p = (representable p \<and> 0 \<le> p \<and> p \<le> 1 \<and> weight (position n p) \<le> 15 / 16)"

locale interpolation =
  fixes q :: "rat list \<Rightarrow> rat \<Rightarrow> flt"
  assumes law: "sample_ok vs \<Longrightarrow> mild (length vs) p \<Longrightarrow> q vs p = Fin (interpolate (sort vs) (position (length vs) p))"

lemma index_representable: "n \<le> 2 ^ 53 \<Longrightarrow> representable (of_nat (n - 1))"
proof -
  assume n: "n \<le> 2 ^ 53"
  have "int (n - 1) \<le> int (2 ^ 53)" using n by (intro of_nat_mono) simp
  then have i: "int (n - 1) \<le> 2 ^ 53" by simp
  then have "rnd (of_int (int (n - 1))) = of_int (int (n - 1))" by (intro rnd_of_int) simp
  moreover have "(of_int (int (n - 1)) :: rat) \<le> of_int (2 ^ 53)" using i by (simp only: of_int_le_iff)
  then have "(of_int (int (n - 1)) :: rat) \<le> max_finite" by (simp add: max_finite_def)
  ultimately show ?thesis by (simp add: representable_def)
qed

lemma position_range:
  assumes "n \<le> 2 ^ 53" "0 < n" "0 \<le> p" "p \<le> 1"
  shows "0 \<le> position n p" "position n p \<le> of_nat (n - 1)"
proof -
  note r = index_representable [OF assms(1)]
  have "0 \<le> of_nat (n - 1) * p" "of_nat (n - 1) * p \<le> of_nat (n - 1)"
    using assms(3,4) by (simp_all add: mult_left_le)
  then show "0 \<le> position n p" "position n p \<le> of_nat (n - 1)"
    unfolding position_def using rnd_between [OF representable_0 r] by blast+
qed

lemma weight_nonneg: "0 \<le> a \<Longrightarrow> 0 \<le> weight a"
  unfolding weight_def by (intro rnd_nonneg) (simp add: of_nat_nat)

lemma position_mono: "p \<le> p' \<Longrightarrow> position n p \<le> position n p'"
  unfolding position_def by (intro rnd_mono mult_left_mono) auto

text \<open>The neighbours of a position, in a sorted sample.\<close>

lemma neighbours:
  assumes "sample_ok vs" "0 \<le> a" "a \<le> of_nat (length vs - 1)"
  defines "xs \<equiv> sort vs" and "k \<equiv> nat \<lfloor>a\<rfloor>"
  shows "k < length xs" "min (k + 1) (length xs - 1) < length xs" "representable (xs ! k)"
    "representable (xs ! min (k + 1) (length xs - 1))" "xs ! k \<le> xs ! min (k + 1) (length xs - 1)"
    "Min (set vs) \<le> xs ! k" "xs ! min (k + 1) (length xs - 1) \<le> Max (set vs)"
proof -
  have ne: "0 < length xs" using assms(1) by (simp add: xs_def sample_ok_def)
  have "\<lfloor>a\<rfloor> \<le> int (length vs - 1)" using assms(3) by (simp add: floor_le_iff)
  then have "k \<le> length xs - 1" using assms(2) by (simp add: k_def xs_def)
  then show k: "k < length xs" "min (k + 1) (length xs - 1) < length xs" using ne by linarith+
  have mem: "xs ! i \<in> set vs" if "i < length xs" for i using that by (metis nth_mem set_sort xs_def)
  then show "representable (xs ! k)" "representable (xs ! min (k + 1) (length xs - 1))"
    using k assms(1) by (auto simp: sample_ok_def list_all_iff)
  show "xs ! k \<le> xs ! min (k + 1) (length xs - 1)"
    using k by (intro sorted_nth_mono) (auto simp: xs_def)
  show "Min (set vs) \<le> xs ! k" "xs ! min (k + 1) (length xs - 1) \<le> Max (set vs)"
    using mem k by (auto intro: Min_le Max_ge)
qed

context interpolation
begin

text \<open>Every quantile lies between its two neighbours, hence within the sample.\<close>

lemma neighbours_bound:
  assumes "sample_ok vs" "mild (length vs) p"
  defines "k \<equiv> nat \<lfloor>position (length vs) p\<rfloor>"
  shows "\<exists>x. q vs p = Fin x \<and> sort vs ! k \<le> x \<and> x \<le> sort vs ! min (k + 1) (length vs - 1)"
proof -
  have pos: "0 \<le> position (length vs) p" "position (length vs) p \<le> of_nat (length vs - 1)"
    using position_range [of "length vs" p] assms(1,2) by (auto simp: sample_ok_def mild_def)
  note nb = neighbours [OF assms(1) pos]
  show ?thesis
    using interpolated_between [OF nb(3,4,5) weight_nonneg [OF pos(1)]] assms(2) law [OF assms(1,2)]
    by (simp add: interpolate_def Let_def k_def mild_def)
qed

lemma within_sample:
  assumes "sample_ok vs" "mild (length vs) p"
  shows "\<exists>x. q vs p = Fin x \<and> Min (set vs) \<le> x \<and> x \<le> Max (set vs)"
proof -
  have pos: "0 \<le> position (length vs) p" "position (length vs) p \<le> of_nat (length vs - 1)"
    using position_range [of "length vs" p] assms by (auto simp: sample_ok_def mild_def)
  show ?thesis using neighbours_bound [OF assms] neighbours(6,7) [OF assms(1) pos] by (auto intro: order_trans)
qed

text \<open>A larger fraction gives a larger quantile.\<close>

lemma fraction_mono:
  assumes "sample_ok vs" "mild (length vs) p" "mild (length vs) p'" "p \<le> p'"
  shows "\<exists>x y. q vs p = Fin x \<and> q vs p' = Fin y \<and> x \<le> y"
proof -
  let ?a = "position (length vs) p" and ?b = "position (length vs) p'"
  have n: "length vs \<le> 2 ^ 53" "0 < length vs" using assms(1) by (auto simp: sample_ok_def)
  have a: "0 \<le> ?a" "?a \<le> of_nat (length vs - 1)" and b: "0 \<le> ?b" "?b \<le> of_nat (length vs - 1)"
    using position_range [OF n] assms(2,3) by (auto simp: mild_def)
  have ab: "?a \<le> ?b" by (rule position_mono [OF assms(4)])
  then have fl: "nat \<lfloor>?a\<rfloor> \<le> nat \<lfloor>?b\<rfloor>" by (simp add: floor_mono nat_mono)
  note na = neighbours [OF assms(1) a] and nb = neighbours [OF assms(1) b]
  show ?thesis
  proof (cases "nat \<lfloor>?a\<rfloor> = nat \<lfloor>?b\<rfloor>")
    case True
    have w: "weight ?a \<le> weight ?b" unfolding weight_def True using ab by (intro rnd_mono) simp
    have d: "0 \<le> rnd (sort vs ! min (nat \<lfloor>?b\<rfloor> + 1) (length (sort vs) - 1) - sort vs ! nat \<lfloor>?b\<rfloor>)"
      using nb(5) by (intro rnd_nonneg) simp
    have "interpolate (sort vs) ?a \<le> interpolate (sort vs) ?b"
      unfolding interpolate_def Let_def True
      by (intro rnd_mono add_left_mono mult_left_mono w d)
    then show ?thesis using law [OF assms(1,2)] law [OF assms(1,3)] by simp
  next
    case False
    then have lt: "min (nat \<lfloor>?a\<rfloor> + 1) (length vs - 1) \<le> nat \<lfloor>?b\<rfloor>" using fl by simp
    have "sort vs ! min (nat \<lfloor>?a\<rfloor> + 1) (length vs - 1) \<le> sort vs ! nat \<lfloor>?b\<rfloor>"
      using lt nb(1) by (intro sorted_nth_mono) auto
    then show ?thesis using neighbours_bound [OF assms(1,2)] neighbours_bound [OF assms(1,3)] by (auto intro: order_trans)
  qed
qed

end

section \<open>Both functions keep the contract\<close>

lemma sample_index_position:
  assumes "n \<le> 2 ^ 53" "0 < n" "0 \<le> p" "p \<le> 1"
  shows "sample_index n p = Fin (position n p)"
proof -
  note r = index_representable [OF assms(1)]
  have "0 \<le> of_nat (n - 1) * p" "of_nat (n - 1) * p \<le> of_nat (n - 1)" using assms(3,4) by (simp_all add: mult_left_le)
  then show ?thesis
    unfolding sample_index_def to_flt_representable [OF r] flt_mul.simps position_def
    by (rule to_flt_between [OF representable_0 r])
qed

text \<open>The steps of an interpolation between representable neighbours do not overflow.\<close>

lemma interpolation_steps:
  assumes r: "representable lo" "representable hi" and le: "lo \<le> hi" "hi - lo \<le> max_finite" and w: "0 \<le> w" "w \<le> 15 / 16"
  shows "flt_sub (Fin hi) (Fin lo) = Fin (rnd (hi - lo))"
    "flt_add (Fin lo) (flt_mul (Fin (rnd (hi - lo))) (Fin w)) = Fin (rnd (lo + rnd (rnd (hi - lo) * w)))"
proof -
  have mf: "representable max_finite"
  proof -
    have "max_finite = of_int (2 ^ 53 - 1) * 2 powi 971" by (simp add: max_finite_def power_int_def)
    from rnd_pos_scaled [OF this] show ?thesis by (simp add: representable_def rnd_def max_finite_def)
  qed
  show sub: "flt_sub (Fin hi) (Fin lo) = Fin (rnd (hi - lo))"
    using to_flt_between [OF representable_0 mf, of "hi - lo"] le by (simp add: flt_sub_def)
  have "0 \<le> rnd (hi - lo)" "rnd (hi - lo) \<le> max_finite"
    using rnd_between [OF representable_0 mf, of "hi - lo"] le by auto
  then have "0 \<le> rnd (hi - lo) * w" "rnd (hi - lo) * w \<le> max_finite"
    using w mult_left_le [of w "rnd (hi - lo)"] by auto
  then have mul: "flt_mul (Fin (rnd (hi - lo))) (Fin w) = Fin (rnd (rnd (hi - lo) * w))"
    using to_flt_between [OF representable_0 mf] by simp
  have "lo \<le> lo + rnd (rnd (hi - lo) * w)" "lo + rnd (rnd (hi - lo) * w) \<le> hi"
    using weighted_difference [OF r le(1) w] by auto
  then show "flt_add (Fin lo) (flt_mul (Fin (rnd (hi - lo))) (Fin w)) = Fin (rnd (lo + rnd (rnd (hi - lo) * w)))"
    using mul to_flt_between [OF r] by simp
qed

lemma weight_flt:
  assumes "0 \<le> a"
  shows "to_flt (a - of_nat (nat \<lfloor>a\<rfloor>)) = Fin (weight a)"
proof -
  have "0 \<le> a - of_nat (nat \<lfloor>a\<rfloor>)" "a - of_nat (nat \<lfloor>a\<rfloor>) \<le> 1" using assms by (auto simp: of_nat_nat) linarith
  then show ?thesis unfolding weight_def by (rule to_flt_between [OF representable_0 representable_1])
qed

lemma sample_position:
  assumes "sample_ok vs" "mild (length vs) p"
  shows "0 \<le> position (length vs) p \<and> position (length vs) p \<le> of_nat (length vs - 1) \<and>
    sample_index (length vs) p = Fin (position (length vs) p)"
  using position_range [of "length vs" p] sample_index_position [of "length vs" p] assms
  by (auto simp: sample_ok_def mild_def)

lemma runner_law:
  assumes "sample_ok vs" "mild (length vs) p"
  shows "runner_quantile vs p = Some (Fin (interpolate (sort vs) (position (length vs) p)))"
proof -
  let ?a = "position (length vs) p"
  note pos = sample_position [OF assms]
  have p: "0 \<le> ?a" "?a \<le> of_nat (length vs - 1)" using pos by blast+
  note nb = neighbours [OF assms(1) p]
  have ne: "vs \<noteq> []" and wt: "weight ?a \<le> 15 / 16" using assms by (simp_all add: sample_ok_def mild_def)
  have "sort vs ! min (nat \<lfloor>?a\<rfloor> + 1) (length (sort vs) - 1) - sort vs ! nat \<lfloor>?a\<rfloor> \<le> max_finite"
    using nb(6,7) assms(1) unfolding sample_ok_def by linarith
  note st = interpolation_steps [OF nb(3,4,5) this weight_nonneg [OF p(1)] wt]
  have ix: "fin_of (sample_index (length (sort vs)) p) = ?a" using pos by simp
  show ?thesis
    unfolding runner_quantile_def Let_def interpolate_def if_not_P [OF ne] ix weight_flt [OF p(1)] st ..
qed

lemma harness_law:
  assumes "sample_ok vs" "mild (length vs) p"
  shows "harness_quantile vs p = Inr (Fin (interpolate (sort vs) (position (length vs) p)))"
proof -
  let ?a = "position (length vs) p" and ?xs = "sort vs"
  let ?k = "nat \<lfloor>?a\<rfloor>" and ?h = "nat \<lceil>?a\<rceil>"
  note pos = sample_position [OF assms]
  have p: "0 \<le> ?a" "?a \<le> of_nat (length vs - 1)" using pos by blast+
  note nb = neighbours [OF assms(1) p]
  have ne: "vs \<noteq> []" and wt: "weight ?a \<le> 15 / 16" using assms by (simp_all add: sample_ok_def mild_def)
  have hi: "?xs ! ?h = ?xs ! min (?k + 1) (length ?xs - 1) \<or> (?h = ?k \<and> weight ?a = 0)"
  proof (cases "?a \<in> \<int>")
    case True
    then obtain i where i: "?a = of_int i" by (rule Ints_cases)
    then have "0 \<le> i" using pos by simp
    then show ?thesis using i by (simp add: weight_def of_nat_nat)
  next
    case False
    then have "\<lceil>?a\<rceil> = \<lfloor>?a\<rfloor> + 1" by (simp add: ceiling_altdef) (metis Ints_of_int)
    then have "?h = ?k + 1" using pos by (simp add: nat_add_distrib)
    moreover have "\<lceil>?a\<rceil> \<le> int (length vs - 1)" using pos by (simp add: ceiling_le_iff)
    ultimately have "?k + 1 \<le> length ?xs - 1" "?h = ?k + 1" by (simp_all add: le_nat_iff)
    then show ?thesis by (metis min_absorb1)
  qed
  have lohi: "representable (?xs ! ?h)" "?xs ! ?k \<le> ?xs ! ?h" "?xs ! ?h - ?xs ! ?k \<le> max_finite"
  proof -
    have "?xs ! min (?k + 1) (length ?xs - 1) - ?xs ! ?k \<le> max_finite"
      using nb(6,7) assms(1) unfolding sample_ok_def by linarith
    moreover have "?xs ! ?k - ?xs ! ?k \<le> max_finite" by (simp add: max_finite_def)
    ultimately show "representable (?xs ! ?h)" "?xs ! ?k \<le> ?xs ! ?h" "?xs ! ?h - ?xs ! ?k \<le> max_finite"
      using hi nb(3,4,5) by (metis order_refl)+
  qed
  note st = interpolation_steps [OF nb(3) lohi weight_nonneg [OF p(1)] wt]
  have val: "rnd (?xs ! ?k + rnd (rnd (?xs ! ?h - ?xs ! ?k) * weight ?a)) = interpolate ?xs ?a"
    using hi by (auto simp: interpolate_def Let_def)
  have ix: "fin_of (sample_index (length ?xs) p) = ?a" using pos by simp
  have fin: "is_finite (Fin x)" for x by (simp add: is_finite_def)
  show ?thesis
    unfolding harness_quantile_def Let_def if_not_P [OF ne] ix weight_flt [OF p(1)] st val [symmetric]
    using fin by (simp only: not_True_eq_False if_False)
qed

interpretation run: interpolation "\<lambda>vs p. the (runner_quantile vs p)"
  by unfold_locales (simp add: runner_law)

interpretation har: interpolation "\<lambda>vs p. case harness_quantile vs p of Inr x \<Rightarrow> x | Inl _ \<Rightarrow> NaN"
  by unfold_locales (simp add: harness_law)

text \<open>Sixty-fourths are exact, which bounds the positions of small samples.\<close>

lemma representable_64th: "m \<le> 1024 \<Longrightarrow> representable (of_nat m / 64)"
proof -
  assume m: "m \<le> 1024"
  show ?thesis
  proof (cases "m = 0")
    case False
    have "(2::rat) powi (-6) = 1 / 64" by (simp add: power_int_def power_one_over)
    then have "of_nat m / 64 = of_int (int m) * (2::rat) powi (-6)" by simp
    from rnd_pos_scaled [OF this] have "rnd_pos (of_nat m / 64) = of_nat m / 64" using False m by simp
    then have "rnd (of_nat m / 64) = of_nat m / 64" using False by (simp add: rnd_def)
    moreover have "(of_nat m / 64 :: rat) \<le> 16" using m by simp
    moreover have "(16 :: rat) \<le> max_finite" by (simp add: max_finite_def)
    moreover have "\<bar>of_nat m / 64 :: rat\<bar> = of_nat m / 64" by simp
    ultimately show ?thesis unfolding representable_def by linarith
  qed simp
qed

lemma float_half_mild: "k \<le> 9 \<Longrightarrow> mild (Suc k) float_half"
proof -
  assume k: "k \<le> 9"
  have h: "representable (1 / 2)" using representable_64th [of 32] by simp
  have "representable (of_nat (32 * k) / 64)" using k by (intro representable_64th) simp
  moreover have "of_nat (32 * k) / 64 = (of_nat k / 2 :: rat)" by simp
  ultimately have pos: "position (Suc k) float_half = of_nat k / 2" by (simp add: position_def float_half_def)
  have "nat \<lfloor>of_nat k / 2 :: rat\<rfloor> = k div 2"
    by (metis floor_divide_of_nat_eq nat_int of_nat_numeral)
  moreover have "k = 2 * (k div 2) + k mod 2" by simp
  then have "(of_nat k :: rat) = 2 * of_nat (k div 2) + of_nat (k mod 2)" by (metis of_nat_add of_nat_mult of_nat_numeral)
  moreover have "k mod 2 = 0 \<or> k mod 2 = 1" by linarith
  ultimately have "of_nat k / 2 - of_nat (nat \<lfloor>of_nat k / 2 :: rat\<rfloor>) \<in> {0, 1 / 2 :: rat}"
    by (auto simp: add_divide_distrib)
  moreover have "rnd x \<in> {0, 1 / 2}" if "x \<in> {0, 1 / 2}" for x
    using that representable_rnd [OF h] by (metis empty_iff insert_iff rnd_0)
  ultimately have "weight (of_nat k / 2) \<in> {0, 1 / 2}" unfolding weight_def by blast
  then show ?thesis using h unfolding mild_def pos by (auto simp: float_half_def)
qed

lemma nine_tenths_range: "57 / 64 \<le> float_nine_tenths \<and> float_nine_tenths \<le> 58 / 64"
  using rnd_between [of "57 / 64" "58 / 64" "9 / 10"] representable_64th [of 57] representable_64th [of 58]
  by (simp add: float_nine_tenths_def)

lemma representable_nine_tenths: "representable float_nine_tenths"
  using nine_tenths_range unfolding representable_def by (simp add: float_nine_tenths_def max_finite_def)

lemma float_nine_tenths_mild: "k \<le> 9 \<Longrightarrow> mild (Suc k) float_nine_tenths"
proof -
  assume k9: "k \<le> 9"
  let ?p = float_nine_tenths and ?k = "of_nat k :: rat"
  show ?thesis
  proof (cases "k = 0")
    case True
    then have "weight (position (Suc k) ?p) = 0" by (simp add: position_def weight_def)
    then show ?thesis using representable_nine_tenths nine_tenths_range by (simp add: mild_def)
  next
    case False
    have k: "1 \<le> ?k" "?k \<le> 9" using False k9 by simp_all
    have "?k * (57 / 64) \<le> ?k * ?p" "?k * ?p \<le> ?k * (58 / 64)"
      using nine_tenths_range k by (auto intro!: mult_left_mono)
    moreover have "?k * (57 / 64) = of_nat (57 * k) / 64" "?k * (58 / 64) = of_nat (58 * k) / 64" by simp_all
    ultimately have le: "of_nat (57 * k) / 64 \<le> ?k * ?p" "?k * ?p \<le> of_nat (58 * k) / 64" by linarith+
    have rep: "representable (of_nat (57 * k) / 64)" "representable (of_nat (58 * k) / 64)"
      by (rule representable_64th, use k9 in simp)+
    from rnd_between [OF rep le]
    have r: "?k * 57 / 64 \<le> position (Suc k) ?p" "position (Suc k) ?p \<le> ?k * 58 / 64"
      by (simp_all add: position_def ac_simps)
    have lo: "?k - 1 \<le> position (Suc k) ?p" using r(1) k by linarith
    have hi: "position (Suc k) ?p - (?k - 1) \<le> 58 / 64" using r(2) k by linarith
    have "\<lfloor>position (Suc k) ?p\<rfloor> = int k - 1" using lo hi by (intro floor_unique) auto
    then have "(of_nat (nat \<lfloor>position (Suc k) ?p\<rfloor>) :: rat) = ?k - 1" using False by simp
    then have "weight (position (Suc k) ?p) \<le> rnd (58 / 64)" unfolding weight_def using hi by (auto intro!: rnd_mono)
    moreover have "rnd (58 / 64) = 58 / 64" using representable_64th [of 58] by simp
    ultimately show ?thesis using representable_nine_tenths nine_tenths_range by (simp add: mild_def)
  qed
qed

lemma half_le_nine_tenths: "float_half \<le> float_nine_tenths"
  using nine_tenths_range by (simp add: float_half_def)


definition sample_values :: "rat list" where "sample_values = [3, 1, 2]"

lemma sample_values_representable: "list_all representable sample_values"
  using representable_64th [of 64] representable_64th [of 128] representable_64th [of 192] by (simp add: sample_values_def)


text \<open>
  The two quantile functions agree on every finite sample whose interpolation weight is at most
  15/16: the clipped upper neighbour of the runner and the ceiling of the harness give the same float.
\<close>

theorem quantiles_agree:
  assumes "sample_ok vs" "mild (length vs) p"
  shows "harness_quantile vs p = Inr (the (runner_quantile vs p)) \<and> is_finite (the (runner_quantile vs p))"
  using assms runner_law harness_law by (simp add: is_finite_def)

lemma quantiles_agree_witness:
  "harness_quantile sample_values float_nine_tenths = Inr (the (runner_quantile sample_values float_nine_tenths))"
proof -
  have "sample_ok sample_values"
    using sample_values_representable by (simp add: sample_ok_def sample_values_def max_finite_def)
  moreover have "mild (length sample_values) float_nine_tenths"
    using float_nine_tenths_mild [of "length sample_values - 1"] by (simp add: sample_values_def)
  ultimately show ?thesis using quantiles_agree by blast
qed

end
