(* ===== verification/Reduce.thy ===== *)
theory Reduce
  imports Support Quantile
begin

text \<open>
  Reduction of one retained E5 slot, \<open>runner/analyze.py\<close>: the bound of a first event, the
  timing hierarchy (\<open>stages\<close>), the baseline evidence, the trace check and the command receipt.

  JSON values are read as the code reads them, so a missing key or a wrong type raises.  The
  inputs of the frozen manifest for one workload and variant are the record \<open>expected\<close>.
\<close>

section \<open>Bounds\<close>

type_synonym interval = "pv \<times> pv"

text \<open>\<open>bound\<close>: the event time on the invocation's clock, as early and as late as it can be.\<close>

definition bound :: "pv \<Rightarrow> pv \<Rightarrow> pv \<Rightarrow> interval option res" where
  "bound local_end local_duration whole =
     (if \<not> (is_num local_end \<and> is_num local_duration \<and> is_num whole) then Inr None
      else ebind (eand (py_le (PInt 0) local_end) (eand (py_le local_end local_duration) (py_le local_duration whole))) (\<lambda>ok.
        if \<not> ok then Inr None
        else ebind (py_add local_end whole) (\<lambda>s. ebind (py_sub s local_duration) (\<lambda>e. Inr (Some (local_end, e))))))"

definition membership :: "interval option \<Rightarrow> nat \<Rightarrow> string res" where
  "membership i cap = (case i of None \<Rightarrow> Inr ''unknown''
     | Some (a, b) \<Rightarrow> ebind (py_le b (PInt (int cap))) (\<lambda>early. if early then Inr ''in_budget''
         else ebind (py_less (PInt (int cap)) a) (\<lambda>late. Inr (if late then ''late'' else ''budget_membership_unknown''))))"

section \<open>Stages\<close>

record span =
  sp_name :: pv
  sp_id :: int
  sp_parent :: int
  sp_start :: int
  sp_dur :: int
  sp_schedule :: pv

definition sp_end :: "span \<Rightarrow> int" where
  "sp_end s = sp_start s + sp_dur s"

definition clock_int :: "pv \<Rightarrow> string \<Rightarrow> bool" where
  "clock_int v k = (is_int (fld v k) \<and> 0 \<le> int_of_pv (fld v k))"

text \<open>A span whose clock and hierarchy fields are nonnegative integers.\<close>

definition read_span :: "pv \<Rightarrow> span res" where
  "read_span v = item v ''name'' (\<lambda>name.
     require (list_all (clock_int v) [''id'', ''parent_id'', ''start_ns'', ''duration_ns'']) ''invalid timing clock/hierarchy value''
       (Inr \<lparr>sp_name = name, sp_id = int_of_pv (fld v ''id''), sp_parent = int_of_pv (fld v ''parent_id''),
          sp_start = int_of_pv (fld v ''start_ns''), sp_dur = int_of_pv (fld v ''duration_ns''), sp_schedule = fld v ''schedule_id''\<rparr>))"

definition seconds_of_ns :: "int \<Rightarrow> pv res" where
  "seconds_of_ns n = py_div (PInt n) (PFloat (Fin 1000000000))"

definition structural_names :: "string list" where
  "structural_names = [''command'', ''execution'', ''schedule_run'', ''replay'', ''explore_pass'']"

definition hashable :: "pv \<Rightarrow> bool" where
  "hashable v = (\<not> is_list v \<and> \<not> is_dict v)"

text \<open>\<open>totals[name].append(x)\<close>: keys in the order of their first use.\<close>

fun add_total :: "pv \<Rightarrow> pv \<Rightarrow> (pv \<times> pv list) list \<Rightarrow> (pv \<times> pv list) list" where
  "add_total name x [] = [(name, [x])]"
| "add_total name x ((k, xs) # ts) = (if py_eq k name then (k, xs @ [x]) # ts else (k, xs) # add_total name x ts)"

type_synonym totals = "(pv \<times> pv list) list \<times> (int \<times> int) list"

text \<open>One iteration over the spans: the hierarchy, the interval inside the root and the parent.\<close>

definition span_step :: "span list \<Rightarrow> int \<Rightarrow> int \<Rightarrow> nat \<times> span \<Rightarrow> totals \<Rightarrow> totals res" where
  "span_step spans start end' = (\<lambda>(index, s) (totals, intervals).
     require (sp_id s = int index + 1 \<and> 0 \<le> sp_parent s \<and> sp_parent s < sp_id s) ''invalid timing hierarchy'' (
     require (index = 0 \<or> sp_parent s > 0) ''unrooted timing span'' (
     require (0 \<le> sp_dur s \<and> start \<le> sp_start s \<and> sp_start s \<le> sp_end s \<and> sp_end s \<le> end') ''invalid timing interval'' (
     require (sp_parent s = 0 \<or> (let p = spans ! nat (sp_parent s - 1) in sp_start p \<le> sp_start s \<and> sp_end s \<le> sp_end p))
       ''span outside parent'' (
     if \<not> hashable (sp_name s) then Inl (TypeError ''unhashable type'')
     else ebind (seconds_of_ns (sp_dur s)) (\<lambda>x. Inr (add_total (sp_name s) x totals,
       if sp_name s \<in> PStr ` set structural_names then intervals else intervals @ [(sp_start s, sp_end s)])))))))"

text \<open>The length of the union of intervals, in the order of their start.\<close>

fun sweep :: "(int \<times> int) list \<Rightarrow> int \<Rightarrow> int \<Rightarrow> int" where
  "sweep [] acc previous = acc"
| "sweep ((a, b) # rest) acc previous = sweep rest (acc + max 0 (b - max a previous)) (max previous b)"

definition sort_pairs :: "(int \<times> int) list \<Rightarrow> (int \<times> int) list" where
  "sort_pairs xs = sort_key fst (sort_key snd xs)"

datatype stage_times =
    Missing_timing
  | Stages "(pv \<times> pv list) list" pv pv

definition is_command :: "span \<Rightarrow> bool" where
  "is_command s = (sp_name s = PStr ''command'')"

definition stages :: "pv \<Rightarrow> pv \<Rightarrow> bool \<Rightarrow> stage_times res" where
  "stages value seconds allow_missing =
     erequire (if is_num seconds then eand (isfinite seconds) (py_le (PInt 0) seconds) else Inr False)
       ''invalid invocation timing duration'' (
     ebind (py_iter value) (\<lambda>vs.
     ebind (emap (\<lambda>v. getitem v ''name'') vs) (\<lambda>names.
     if allow_missing \<and> vs = [] then Inr Missing_timing
     else require (length (filter (\<lambda>n. n = PStr ''command'') names) = 1) ''one command timing root required'' (
     ebind (emap read_span vs) (\<lambda>spans.
     let r = hd (filter is_command spans) in
     require (sp_id r = 1 \<and> sp_parent r = 0) ''invalid command timing root'' (
     ebind (seconds_of_ns (sp_dur r)) (\<lambda>d.
     erequire (py_le d seconds) ''command timing exceeds invocation'' (
     ebind (efold (span_step spans (sp_start r) (sp_end r)) (enumerate 0 spans) ([], [])) (\<lambda>(totals, intervals).
     ebind (seconds_of_ns (sweep (sort_pairs intervals) 0 (sp_start r))) (\<lambda>covered.
     ebind (py_sub seconds covered) (\<lambda>remainder.
     erequire (py_le (PInt 0) remainder) ''negative outer remainder''
       (Inr (Stages totals covered remainder)))))))))))))"

section \<open>Domain rows\<close>

record expected =
  ex_db :: pv
  ex_assertions :: "(string \<times> pv \<times> pv) list"
  ex_counts :: "string \<Rightarrow> nat"
  ex_rows :: pv
  ex_candidates :: "pv list"
  ex_jar :: string
  ex_passes :: int

definition row_texts :: "(pv \<Rightarrow> string) \<Rightarrow> pv \<Rightarrow> pv res" where
  "row_texts render row = ebind (py_items row) (\<lambda>d. Inr (PDict (map (\<lambda>(k, v). (k, PStr (py_str render v))) d)))"

definition econcat :: "('a \<Rightarrow> 'b list res) \<Rightarrow> 'a list \<Rightarrow> 'b list res" where
  "econcat f xs = ebind (emap f xs) (\<lambda>ys. Inr (concat ys))"

definition domain_rows_match :: "(pv \<Rightarrow> string) \<Rightarrow> pv list \<Rightarrow> string \<Rightarrow> expected \<Rightarrow> bool res" where
  "domain_rows_match render violations assertion ex =
     ebind (econcat (\<lambda>v. item v ''oracle_id'' (\<lambda>w. if w = PStr assertion
         then item v ''rows'' (\<lambda>rows. ebind (py_iter rows) (emap (row_texts render))) else Inr [])) violations) (\<lambda>actual.
     Inr (truthy (ex_rows ex) \<and> py_eq (PList actual) (ex_rows ex)))"

text \<open>Whether an assertion has a violation with rows, and whether another assertion has one.\<close>

definition domain_violated :: "string \<Rightarrow> pv list \<Rightarrow> bool res" where
  "domain_violated assertion = eany (\<lambda>v. item v ''oracle_id'' (\<lambda>w. if w = PStr assertion
     then item v ''rows'' (\<lambda>rows. Inr (truthy rows)) else Inr False))"

definition other_violated :: "string \<Rightarrow> pv list \<Rightarrow> bool res" where
  "other_violated assertion = eany (\<lambda>v. item v ''oracle_id'' (\<lambda>w. Inr (w \<noteq> PStr assertion)))"

section \<open>The command receipt\<close>

record receipt =
  rc_started :: bool
  rc_finished :: bool
  rc_interrupted :: bool
  rc_timeout :: bool
  rc_contained :: bool
  rc_seconds :: pv
  rc_exit :: "int option"
  rc_error :: "string option"
  rc_clock :: "int option"

definition receipt_flag :: "pv \<Rightarrow> string \<Rightarrow> bool res" where
  "receipt_flag v k = item v k (\<lambda>b. require (is_bool b) (''invalid '' @ k) (Inr (b = PBool True)))"

definition command_receipt :: "pv \<Rightarrow> receipt res" where
  "command_receipt v = require (is_dict v) ''object required'' (
     ebind (receipt_flag v ''started'') (\<lambda>started. ebind (receipt_flag v ''finished'') (\<lambda>finished.
     ebind (receipt_flag v ''interrupted'') (\<lambda>interrupted. ebind (receipt_flag v ''timeout'') (\<lambda>timeout.
     ebind (receipt_flag v ''containment_proven'') (\<lambda>contained.
     item v ''seconds'' (\<lambda>seconds.
     erequire (if is_num seconds then eand (isfinite seconds) (py_le (PInt 0) seconds) else Inr False) ''invalid seconds'' (
     item v ''exit'' (\<lambda>code. require (code = PNone \<or> is_int code) ''invalid exit'' (
     item v ''error'' (\<lambda>error. require (error = PNone \<or> is_str error) ''invalid error'' (
     require (\<not> has_key v ''collector_start_ns'' \<or> clock_int v ''collector_start_ns'') ''invalid collector clock''
       (Inr \<lparr>rc_started = started, rc_finished = finished, rc_interrupted = interrupted, rc_timeout = timeout,
          rc_contained = contained, rc_seconds = seconds,
          rc_exit = (if code = PNone then None else Some (int_of_pv code)),
          rc_error = (if error = PNone then None else Some (str_of error)),
          rc_clock = (if has_key v ''collector_start_ns'' then Some (int_of_pv (fld v ''collector_start_ns'')) else None)\<rparr>)))))))))))))"

section \<open>Baseline evidence\<close>

record exec_item =
  ei_index :: nat
  ei_valid :: bool
  ei_domain :: bool
  ei_fingerprint :: pv
  ei_interval :: "interval option"
  ei_member :: string

text \<open>
  The evidence of one slot: the fields \<open>reduce_slot\<close> and the report read; the reasons are JSON values.
  \<open>ev_retained\<close> says that the accounting of a baseline is present; \<open>ev_product\<close> holds the explored executions, the
  violating runs, the fingerprints and the selected schedule of a product run.
\<close>

record evidence =
  ev_quality :: "pv list"
  ev_operational :: "pv list"
  ev_cleanup :: bool
  ev_first :: "interval option"
  ev_stable :: bool
  ev_absence :: bool
  ev_receipt_valid :: "bool option"
  ev_stages :: "stage_times option"
  ev_attempted :: nat
  ev_valid :: nat
  ev_domain :: nat
  ev_items :: "exec_item list"
  ev_planned :: nat
  ev_unobserved :: "(nat \<times> string) list"
  ev_usable :: "interval option"
  ev_evaluated :: nat
  ev_exhausted :: bool
  ev_miss :: bool
  ev_trace :: "(nat \<times> nat) option"
  ev_over_valid :: pv
  ev_over_planned :: pv
  ev_retained :: bool
  ev_product :: "(int \<times> int \<times> pv \<times> pv) option"

definition no_evidence :: evidence where
  "no_evidence = \<lparr>ev_quality = [], ev_operational = [], ev_cleanup = False, ev_first = None, ev_stable = False,
     ev_absence = False, ev_receipt_valid = None, ev_stages = None, ev_attempted = 0, ev_valid = 0, ev_domain = 0,
     ev_items = [], ev_planned = 0, ev_unobserved = [], ev_usable = None, ev_evaluated = 0, ev_exhausted = False,
     ev_miss = False, ev_trace = None, ev_over_valid = PNone, ev_over_planned = PNone,
     ev_retained = False, ev_product = None\<rparr>"

definition add_quality :: "string \<Rightarrow> evidence \<Rightarrow> evidence" where
  "add_quality m ev = ev\<lparr>ev_quality := ev_quality ev @ [PStr m]\<rparr>"

definition add_operational :: "pv \<Rightarrow> evidence \<Rightarrow> evidence" where
  "add_operational m ev = ev\<lparr>ev_operational := ev_operational ev @ [m]\<rparr>"

definition note_if :: "bool \<Rightarrow> string \<Rightarrow> evidence \<Rightarrow> evidence" where
  "note_if c m ev = (if c then add_quality m ev else ev)"

definition fail_if :: "bool \<Rightarrow> string \<Rightarrow> evidence \<Rightarrow> evidence" where
  "fail_if c m ev = (if c then add_operational (PStr m) ev else ev)"

text \<open>The files of a baseline slot: \<open>run.json\<close> and the sorted execution files with their names, doc
  and digest, and the stream record if it exists.\<close>

record baseline_files =
  bf_run :: "pv res option"
  bf_executions :: "(string \<times> pv res \<times> string) list"
  bf_stream :: "pv res option"

definition variant_of :: "e5_slot \<Rightarrow> string" where "variant_of s = fst (snd (s_key s))"
definition workload_of :: "e5_slot \<Rightarrow> string" where "workload_of s = fst (s_key s)"
definition cache_of :: "e5_slot \<Rightarrow> string" where "cache_of s = fst (snd (snd (s_key s)))"
definition block_of :: "e5_slot \<Rightarrow> string" where "block_of s = snd (snd (snd (s_key s)))"

text \<open>The assertion and the registered replay schedule of a workload (\<open>WORKLOADS\<close>).\<close>

definition assertion_of :: "string \<Rightarrow> string" where
  "assertion_of w = (if w = ''matching'' then ''active-assignment-is-unique''
     else if w = ''quota'' then ''quota-is-conserved'' else ''completion-requires-current-lease'')"

definition replay_schedule_of :: "string \<Rightarrow> string" where
  "replay_schedule_of w = (if w = ''matching'' then ''sch_7dcb74b1e506''
     else if w = ''quota'' then ''sch_71c5162c990b'' else ''sch_739dbe2cd669'')"

definition is_true :: "pv \<Rightarrow> string \<Rightarrow> bool" where
  "is_true v k = (fld v k = PBool True)"

text \<open>The results of one evaluation: the assertion inventory, the fingerprint, the violations.\<close>

definition evaluation_violations :: "expected \<Rightarrow> pv \<Rightarrow> pv list res" where
  "evaluation_violations ex evaluation =
     item evaluation ''results'' (\<lambda>value. ebind (py_iter value) (\<lambda>results.
     ebind (emap (\<lambda>r. getitem r ''oracle_id'') results) (\<lambda>ids.
     require (ids = map (\<lambda>a. PStr (fst a)) (ex_assertions ex)) ''Oracle inventory differs'' (
     item evaluation ''fingerprint'' (\<lambda>fp. require (is_str fp \<and> length (str_of fp) = 64) ''missing Oracle fingerprint'' (
     econcat (\<lambda>r. item r ''violations'' py_iter) results))))))"

text \<open>The end of the domain assertion on the process clock, as a bound on the invocation's clock.\<close>

definition event_interval :: "expected \<Rightarrow> string \<Rightarrow> pv \<Rightarrow> pv \<Rightarrow> pv \<Rightarrow> interval option res" where
  "event_interval ex assertion run whole value =
     (let names = map fst (ex_assertions ex); elapsed = fld run ''process_elapsed_ns'' in
      item value ''oracle_ends_ns'' (\<lambda>ends. item value ''oracle_end_ns'' (\<lambda>last_end.
      require (is_int last_end \<and> is_int elapsed \<and> 0 \<le> int_of_pv last_end \<and> int_of_pv last_end \<le> int_of_pv elapsed \<and>
          is_dict ends \<and> set (keys ends) = set names \<and>
          list_all (\<lambda>v. is_int v \<and> 0 \<le> int_of_pv v \<and> int_of_pv v \<le> int_of_pv last_end) (vals ends))
        ''invalid per-assertion completion times'' (
      require (map (\<lambda>n. int_of_pv (fld ends n)) names = sort (map int_of_pv (vals ends)))
        ''per-assertion completion order differs'' (
      item ends assertion (\<lambda>e. ebind (seconds_of_ns (int_of_pv e)) (\<lambda>a.
      ebind (seconds_of_ns (int_of_pv elapsed)) (\<lambda>d. bound a d whole))))))))"

definition execution_step ::
  "(pv \<Rightarrow> string) \<Rightarrow> expected \<Rightarrow> e5_slot \<Rightarrow> receipt \<Rightarrow> pv \<Rightarrow> nat \<times> (string \<times> pv res \<times> string) \<Rightarrow> evidence \<Rightarrow> evidence res"
where
  "execution_step render ex slot cmd run = (\<lambda>(number, (name, doc, dg)) ev.
     ebind doc (\<lambda>value. item value ''index'' (\<lambda>index.
     require (py_eq index (PInt (int number))) ''execution gap or duplicate'' (
     let ev = ev\<lparr>ev_attempted := ev_attempted ev + 1\<rparr>;
         assertion = assertion_of (workload_of slot);
         evaluation = fld value ''evaluation'';
         proven = is_true value ''child_reaped'' \<and> is_true value ''connections_closed'' \<and> is_true value ''reset_verified'';
         valid = (evaluation \<noteq> PNone \<and> (fld value ''error'' = PNone \<or> is_true value ''cancellation_only'') \<and> proven) in
     ebind (if has_key run ''seed'' then item value ''seed'' (\<lambda>s. require (py_eq s (fld run ''seed'')) ''reset seed differs'' (Inr ()))
       else Inr ()) (\<lambda>_.
     ebind (if evaluation \<noteq> PNone then evaluation_violations ex evaluation else Inr []) (\<lambda>violations.
     ebind (domain_violated assertion violations) (\<lambda>domain.
     ebind (if domain then domain_rows_match render violations assertion ex else Inr True) (\<lambda>matches.
     ebind (other_violated assertion violations) (\<lambda>other.
     let ev = note_if (\<not> matches) ''domain assertion rows differ'' ev;
         ev = note_if other ''receipt assertion failed'' ev;
         ev = note_if (domain \<and> variant_of slot = ''fixed'') ''fixed domain violation'' ev in
     ebind (if truthy evaluation \<and> has_key run ''process_elapsed_ns'' then event_interval ex assertion run (rc_seconds cmd) value
       else Inr None) (\<lambda>interval.
     ebind (membership interval (s_cap slot)) (\<lambda>member.
     let ev = (if valid \<and> domain \<and> ev_first ev = None then ev\<lparr>ev_first := interval\<rparr> else ev);
         ev = ev\<lparr>ev_items := ev_items ev @ [\<lparr>ei_index = number, ei_valid = valid, ei_domain = domain,
                 ei_fingerprint = (if truthy evaluation then fld evaluation ''fingerprint'' else PNone),
                 ei_interval = interval, ei_member = member\<rparr>],
               ev_valid := ev_valid ev + of_bool valid, ev_domain := ev_domain ev + of_bool (valid \<and> domain)\<rparr>;
         excused = rc_timeout cmd \<and> is_true value ''cancellation_only'' \<and> truthy (fld value ''child_reaped'')
           \<and> truthy (fld value ''connections_closed'') in
     Inr (fail_if (\<not> valid \<and> \<not> excused) ''execution incomplete'' ev))))))))))))"

text \<open>The stream record: the receipts of the execution files on the collector's clock.\<close>

definition receipt_ok :: "baseline_files \<Rightarrow> int \<Rightarrow> pv \<Rightarrow> string \<times> pv \<Rightarrow> unit res" where
  "receipt_ok bf offset envelope = (\<lambda>(name, r).
     require (name \<in> fst ` set (bf_executions bf)) ''stream receipt execution missing'' (
     item r ''received_ns'' (\<lambda>t. require (is_int t \<and> offset \<le> int_of_pv t \<and> int_of_pv t \<le> int_of_pv envelope) ''stream receipt time invalid'' (
     item r ''sha256'' (\<lambda>d. require (case map_of (bf_executions bf) name of Some (_, dg) \<Rightarrow> d = PStr dg | None \<Rightarrow> False)
       ''streamed evidence changed'' (Inr ()))))))"

definition execution_file :: "nat \<Rightarrow> string" where
  "execution_file n = ''raw/execution-'' @ pad_nat 3 n @ ''.json''"

fun first_usable :: "pv \<Rightarrow> int \<Rightarrow> exec_item list \<Rightarrow> interval option res" where
  "first_usable receipts offset [] = Inr None"
| "first_usable receipts offset (i # rest) =
     (let r = fld receipts (execution_file (ei_index i)) in
      if truthy r \<and> ei_valid i \<and> ei_domain i then
        item r ''received_ns'' (\<lambda>t. ebind (seconds_of_ns (int_of_pv t - offset)) (\<lambda>x. Inr (Some (x, x))))
      else first_usable receipts offset rest)"

definition usable_event :: "baseline_files \<Rightarrow> receipt \<Rightarrow> evidence \<Rightarrow> interval option res" where
  "usable_event bf cmd ev = (case bf_stream bf of None \<Rightarrow> Inr None
   | Some doc \<Rightarrow> ebind doc (\<lambda>stream. item stream ''clock'' (\<lambda>clock. item stream ''error'' (\<lambda>error.
       item stream ''start_monotonic_ns'' (\<lambda>start. item stream ''envelope_ns'' (\<lambda>envelope.
       (case rc_clock cmd of None \<Rightarrow> Inl (KeyError ''collector_start_ns'') | Some collector_start \<Rightarrow>
       require (clock = PStr ''collector-monotonic'' \<and> error = PNone \<and> clock_int stream ''start_monotonic_ns'' \<and>
         clock_int stream ''envelope_ns'' \<and> 0 \<le> collector_start) ''stream observation clock invalid'' (
       let offset = collector_start - int_of_pv start in
       erequire (if offset < 0 then Inr False else ebind (seconds_of_ns (int_of_pv envelope - offset)) (py_le (rc_seconds cmd))) ''stream observation does not contain invocation'' (
       item stream ''receipts'' (\<lambda>receipts. require (is_dict receipts) ''stream receipts invalid'' (
       ebind (efor (receipt_ok bf offset envelope) (items_of receipts)) (\<lambda>_.
       first_usable receipts offset (ev_items ev)))))))))))))"

definition cap_exits :: "int option list" where
  "cap_exits = map Some [- 15, - 9, 143, 137]"

definition baseline_cap_killed :: "baseline_files \<Rightarrow> receipt \<Rightarrow> bool" where
  "baseline_cap_killed bf cmd = (bf_run bf = None \<and> rc_timeout cmd \<and> rc_exit cmd \<in> set cap_exits \<and> rc_started cmd \<and>
     rc_finished cmd \<and> \<not> rc_interrupted cmd \<and> rc_error cmd = None \<and> rc_contained cmd)"

definition unpublished_run :: pv where
  "unpublished_run = PDict [(''cleanup_proven'', PBool False), (''timings'', PDict [(''spans'', PList [])])]"

text \<open>The run receipt: its identity when published, the empty receipt otherwise.\<close>

definition baseline_run :: "baseline_files \<Rightarrow> e5_slot \<Rightarrow> expected \<Rightarrow> pv res" where
  "baseline_run bf slot ex = (case bf_run bf of None \<Rightarrow> Inr unpublished_run
   | Some doc \<Rightarrow> ebind doc (\<lambda>run. ebind (pgetn run ''arm'') (\<lambda>arm.
       require (arm = PStr (s_arm slot) \<and> fld run ''variant'' = PStr (variant_of slot)) ''baseline identity differs from requested slot'' (
       ebind (pget run ''environment'' (PDict [])) (\<lambda>environment. ebind (pgetn environment ''image'') (\<lambda>image.
       require (py_eq image (ex_db ex)) ''baseline image differs from effective config'' (Inr run)))))))"

definition unobserved_slots :: "nat \<Rightarrow> nat \<Rightarrow> exec_item list \<Rightarrow> bool \<Rightarrow> (nat \<times> string) list" where
  "unobserved_slots total_planned found items timeout =
     map (\<lambda>i. (i, if i \<le> found then ''execution_incomplete'' else if timeout then ''collection_cap'' else ''invocation_stopped''))
       (filter (\<lambda>i. length items < i \<or> \<not> ei_valid (items ! (i - 1))) [1..<total_planned + 1])"

text \<open>The observations before the executions are read.\<close>

definition baseline_start :: "baseline_files \<Rightarrow> receipt \<Rightarrow> pv \<Rightarrow> evidence" where
  "baseline_start bf cmd run =
     (let killed = baseline_cap_killed bf cmd; final = (bf_run bf \<noteq> None);
          ev = (if final then no_evidence else if killed then no_evidence\<lparr>ev_absence := True\<rparr>
                else add_operational (PStr ''missing final baseline receipt'') no_evidence);
          ev = ev\<lparr>ev_retained := True, ev_cleanup := is_true run ''cleanup_proven''\<rparr>;
          ev = fail_if (\<not> ev_cleanup ev \<and> \<not> killed) ''fixture cleanup unproven'' ev;
          ev = (if truthy (fld run ''error'') \<and> \<not> (rc_timeout cmd \<and> is_true run ''cancellation_only'')
                then add_operational (fld run ''error'') ev else ev) in
      fail_if (rc_exit cmd \<noteq> Some 0 \<and> \<not> rc_timeout cmd) ''baseline operational exit'' ev)"

text \<open>After the executions are read: the counts against the plan, the slots left unobserved and the
  first event on the collector's clock.\<close>

definition count_executions :: "nat \<Rightarrow> nat \<Rightarrow> receipt \<Rightarrow> pv \<Rightarrow> evidence \<Rightarrow> evidence" where
  "count_executions found wanted cmd run ev =
     (let ev = fail_if (has_key run ''executions'' \<and> \<not> py_eq (PInt (int found)) (fld run ''executions'')) ''missing execution evidence'' ev in
      ev\<lparr>ev_planned := wanted, ev_unobserved := unobserved_slots wanted found (ev_items ev) (rc_timeout cmd)\<rparr>)"

text \<open>The shares of violations among the valid and among the planned executions; no plan is a division by zero.\<close>

definition execution_shares :: "evidence \<Rightarrow> evidence res" where
  "execution_shares ev =
     ebind (if ev_valid ev = 0 then Inr PNone else py_div (PInt (int (ev_domain ev))) (PInt (int (ev_valid ev)))) (\<lambda>a.
     ebind (py_div (PInt (int (ev_domain ev))) (PInt (int (ev_planned ev)))) (\<lambda>b.
     Inr (ev\<lparr>ev_over_valid := a, ev_over_planned := b\<rparr>)))"

definition baseline_executions ::
  "(pv \<Rightarrow> string) \<Rightarrow> baseline_files \<Rightarrow> e5_slot \<Rightarrow> receipt \<Rightarrow> expected \<Rightarrow> pv \<Rightarrow> evidence \<Rightarrow> evidence res" where
  "baseline_executions render bf slot cmd ex run ev =
     (let found = length (bf_executions bf); wanted = ex_counts ex (s_arm slot) in
      ebind (efold (execution_step render ex slot cmd run) (enumerate 1 (bf_executions bf)) ev) (\<lambda>ev.
      ebind (execution_shares (count_executions found wanted cmd run ev)) (\<lambda>ev.
      require (found \<le> wanted) ''execution count exceeds plan'' (
      let ev = fail_if (found \<noteq> wanted \<and> \<not> rc_timeout cmd) ''missing planned executions'' ev in
      ebind (usable_event bf cmd ev) (\<lambda>u. Inr (ev\<lparr>ev_usable := u\<rparr>))))))"

definition baseline_none :: "baseline_files \<Rightarrow> pv \<Rightarrow> evidence \<Rightarrow> evidence res" where
  "baseline_none bf run ev =
     (if bf_run bf \<noteq> None then item run ''executions'' (\<lambda>n. require (py_eq n (PInt 0) \<and> fld run ''seed'' \<noteq> PNone) ''B0 lifecycle evidence missing'' (Inr ev))
      else require (bf_executions bf = []) ''B0 contains execution evidence'' (Inr ev))"

definition baseline :: "(pv \<Rightarrow> string) \<Rightarrow> baseline_files \<Rightarrow> e5_slot \<Rightarrow> receipt \<Rightarrow> expected \<Rightarrow> evidence res" where
  "baseline render bf slot cmd ex =
     ebind (baseline_run bf slot ex) (\<lambda>run.
     item run ''timings'' (\<lambda>timings. item timings ''spans'' (\<lambda>spans.
     ebind (stages spans (rc_seconds cmd) (bf_run bf = None)) (\<lambda>st.
     let ev = (baseline_start bf cmd run)\<lparr>ev_stages := Some st\<rparr> in
     if s_arm slot = ''B0'' then baseline_none bf run ev else baseline_executions render bf slot cmd ex run ev))))"

section \<open>The sweep is the length of the union\<close>

definition covers :: "(int \<times> int) list \<Rightarrow> int set" where
  "covers xs = (\<Union>(a, b) \<in> set xs. {a..<b})"

lemma finite_covers [simp]: "finite (covers xs)"
  by (auto simp: covers_def)

lemma sort_pairs_set [simp]: "set (sort_pairs xs) = set xs"
  by (simp add: sort_pairs_def)

lemma sort_pairs_sorted: "sorted (map fst (sort_pairs xs))"
  by (simp add: sort_pairs_def)

lemma sweep_card:
  "sorted (map fst xs) \<Longrightarrow> sweep xs acc previous = acc + int (card (covers xs \<inter> {previous..}))"
proof (induction xs arbitrary: acc previous)
  case Nil
  then show ?case by (simp add: covers_def)
next
  case (Cons x xs)
  obtain a b where x: "x = (a, b)" by (cases x)
  let ?A = "{max a previous..<b}" and ?B = "covers xs \<inter> {max previous b..}"
  have after: "a \<le> c" if "(c, d) \<in> set xs" for c d using Cons.prems that by (auto simp: x)
  have "covers (x # xs) \<inter> {previous..} = ?A \<union> ?B"
  proof (intro equalityI subsetI)
    fix y assume "y \<in> covers (x # xs) \<inter> {previous..}"
    then show "y \<in> ?A \<union> ?B"
      by (cases "y < b") (auto simp: covers_def x dest: after)
  qed (auto simp: covers_def x)
  moreover have "?A \<inter> ?B = {}" by auto
  ultimately have "card (covers (x # xs) \<inter> {previous..}) = card ?A + card ?B"
    by (simp add: card_Un_disjoint)
  moreover have "int (card ?A) = max 0 (b - max a previous)" by (auto simp: max_def)
  ultimately show ?case using Cons.IH [of "acc + max 0 (b - max a previous)" "max previous b"] Cons.prems by (simp add: x)
qed

definition structural :: "span \<Rightarrow> bool" where
  "structural s = (sp_name s \<in> PStr ` set structural_names)"

definition intervals_of :: "span list \<Rightarrow> (int \<times> int) list" where
  "intervals_of spans = map (\<lambda>s. (sp_start s, sp_end s)) (filter (\<lambda>s. \<not> structural s) spans)"

lemma span_fold:
  "efold (span_step spans start end') xs (totals, ivs) = Inr (totals', ivs') \<Longrightarrow>
     ivs' = ivs @ intervals_of (map snd xs) \<and> (\<forall>(i, s) \<in> set xs. start \<le> sp_start s \<and> sp_end s \<le> end' \<and>
       (sp_parent s = 0 \<or> sp_start (spans ! nat (sp_parent s - 1)) \<le> sp_start s \<and> sp_end s \<le> sp_end (spans ! nat (sp_parent s - 1))))"
proof (induction xs arbitrary: totals ivs)
  case Nil
  then show ?case by (simp add: intervals_of_def)
next
  case (Cons x xs)
  obtain i s where x: "x = (i, s)" by (cases x)
  obtain t js where step: "span_step spans start end' (i, s) (totals, ivs) = Inr (t, js)"
    and rest: "efold (span_step spans start end') xs (t, js) = Inr (totals', ivs')"
    using Cons.prems by (auto simp: x ebind_eq_Inr)
  have js: "js = ivs @ intervals_of [s]" "start \<le> sp_start s" "sp_end s \<le> end'"
      "sp_parent s = 0 \<or> sp_start (spans ! nat (sp_parent s - 1)) \<le> sp_start s \<and> sp_end s \<le> sp_end (spans ! nat (sp_parent s - 1))"
    using step by (auto simp: span_step_def ebind_eq_Inr intervals_of_def structural_def Let_def split: if_splits)
  show ?case using Cons.IH [OF rest] js by (auto simp: x intervals_of_def)
qed

lemma enumerated: "s \<in> set xs \<Longrightarrow> \<exists>i. (i, s) \<in> set (enumerate n xs)"
proof -
  assume "s \<in> set xs"
  then have "s \<in> snd ` set (enumerate n xs)" by (metis list.set_map map_snd_enumerate)
  then show ?thesis by auto
qed

lemma read_span_name: "read_span v = Inr s \<Longrightarrow> getitem v ''name'' = Inr (sp_name s)"
  by (auto simp: read_span_def ebind_eq_Inr)

text \<open>
  C32. The exclusive coverage of the stages is the number of nanoseconds covered by at least one
  non-structural span, however the spans overlap: it lies inside the single root command, which does not
  exceed the invocation, every span lies inside its parent, and covered time plus remainder is the invocation.
\<close>

theorem stages_cover_union:
  assumes "stages value seconds allow_missing = Inr (Stages totals covered remainder)"
  shows "\<exists>spans r U. ebind (py_iter value) (emap read_span) = Inr spans \<and> filter is_command spans = [r] \<and>
    U = covers (intervals_of spans) \<and> U \<subseteq> {sp_start r..<sp_end r} \<and> seconds_of_ns (int (card U)) = Inr covered \<and>
    int (card U) \<le> sp_dur r \<and> py_sub seconds covered = Inr remainder \<and> py_le (PInt 0) remainder = Inr True \<and>
    ebind (seconds_of_ns (sp_dur r)) (\<lambda>d. py_le d seconds) = Inr True \<and>
    (\<forall>s \<in> set spans. sp_parent s = 0 \<or> (\<exists>p. p = spans ! nat (sp_parent s - 1) \<and> sp_start p \<le> sp_start s \<and> sp_end s \<le> sp_end p))"
proof -
  obtain vs names spans where vs: "py_iter value = Inr vs" and names: "emap (\<lambda>v. getitem v ''name'') vs = Inr names"
      "length (filter (\<lambda>n. n = PStr ''command'') names) = 1" and spans: "emap read_span vs = Inr spans"
    using assms unfolding stages_def by (auto simp: ebind_eq_Inr erequire_eq_Inr Let_def split: if_splits)
  let ?r = "hd (filter is_command spans)"
  obtain d ts ivs where d: "seconds_of_ns (sp_dur ?r) = Inr d" "py_le d seconds = Inr True"
    and fold: "efold (span_step spans (sp_start ?r) (sp_end ?r)) (enumerate 0 spans) ([], []) = Inr (ts, ivs)"
    and cov: "seconds_of_ns (sweep (sort_pairs ivs) 0 (sp_start ?r)) = Inr covered"
      "py_sub seconds covered = Inr remainder" "py_le (PInt 0) remainder = Inr True"
    using assms vs names spans unfolding stages_def
    by (auto simp: ebind_eq_Inr erequire_eq_Inr Let_def simp del: efold.simps split: if_splits prod.splits)
  note f = span_fold [OF fold]
  have name: "list_all2 (\<lambda>n s. sp_name s = n) names spans"
  proof -
    have 1: "list_all2 (\<lambda>v n. getitem v ''name'' = Inr n) vs names" "list_all2 (\<lambda>v s. read_span v = Inr s) vs spans"
      using names(1) spans by (simp_all add: emap_eq_Inr)
    then show ?thesis
      by (auto simp: list_all2_conv_all_nth dest!: spec dest: read_span_name)
  qed
  have "filter (\<lambda>n. n = PStr ''command'') names = map sp_name (filter is_command spans)"
    using name by (induction rule: list_all2_induct) (auto simp: is_command_def)
  then have "length (filter is_command spans) = 1" using names(2) by simp
  then have r: "filter is_command spans = [?r]" by (cases "filter is_command spans") auto
  have iv: "ivs = intervals_of spans" using f by simp
  have inside: "sp_start ?r \<le> sp_start s \<and> sp_end s \<le> sp_end ?r" if s: "s \<in> set spans" for s
  proof -
    obtain i where "(i, s) \<in> set (enumerate 0 spans)"
      using enumerated [OF s] by blast
    then show ?thesis using f by auto
  qed
  then have U: "covers (intervals_of spans) \<subseteq> {sp_start ?r..<sp_end ?r}"
    by (fastforce simp: covers_def intervals_of_def)
  have "covers (sort_pairs ivs) \<inter> {sp_start ?r..} = covers (intervals_of spans)"
    using U by (auto simp: covers_def iv)
  then have sw: "sweep (sort_pairs ivs) 0 (sp_start ?r) = int (card (covers (intervals_of spans)))"
    using sweep_card [OF sort_pairs_sorted, of ivs 0 "sp_start ?r"] by simp
  have "?r \<in> set (filter is_command spans)" using r by (metis list.set_intros(1))
  then have "?r \<in> set spans" by simp
  have nonneg: "0 \<le> sp_dur s" if s: "s \<in> set spans" for s
  proof -
    obtain v where "read_span v = Inr s"
      using spans s by (auto simp: emap_eq_Inr list_all2_conv_all_nth in_set_conv_nth)
    then show ?thesis by (auto simp: read_span_def ebind_eq_Inr clock_int_def)
  qed
  have "card (covers (intervals_of spans)) \<le> card {sp_start ?r..<sp_end ?r}" using U by (intro card_mono) auto
  then have len: "int (card (covers (intervals_of spans))) \<le> sp_dur ?r"
    using nonneg [OF \<open>?r \<in> set spans\<close>] by (simp add: sp_end_def)
  have par: "\<forall>s \<in> set spans. sp_parent s = 0 \<or> (\<exists>p. p = spans ! nat (sp_parent s - 1) \<and> sp_start p \<le> sp_start s \<and> sp_end s \<le> sp_end p)"
  proof
    fix s assume "s \<in> set spans"
    then obtain i where "(i, s) \<in> set (enumerate 0 spans)"
      using enumerated by metis
    then show "sp_parent s = 0 \<or> (\<exists>p. p = spans ! nat (sp_parent s - 1) \<and> sp_start p \<le> sp_start s \<and> sp_end s \<le> sp_end p)"
      using f by auto
  qed
  show ?thesis
    using vs spans r U len par d cov(2,3) cov(1) [unfolded sw] by (intro exI [of _ spans] exI [of _ ?r]) auto
qed

definition sample_span :: "string \<Rightarrow> int \<Rightarrow> int \<Rightarrow> int \<Rightarrow> int \<Rightarrow> pv" where
  "sample_span n i p a d = PDict [(''name'', PStr n), (''id'', PInt i), (''parent_id'', PInt p), (''start_ns'', PInt a),
     (''duration_ns'', PInt d)]"

definition sample_spans :: pv where
  "sample_spans = PList [sample_span ''command'' 1 0 0 8000000000, sample_span ''setup'' 2 1 1000000000 4000000000,
     sample_span ''oracle'' 3 1 3000000000 4000000000]"

lemma read_sample_span: "0 \<le> i \<Longrightarrow> 0 \<le> p \<Longrightarrow> 0 \<le> a \<Longrightarrow> 0 \<le> d \<Longrightarrow> read_span (sample_span n i p a d) =
    Inr \<lparr>sp_name = PStr n, sp_id = i, sp_parent = p, sp_start = a, sp_dur = d, sp_schedule = PNone\<rparr>"
  by (simp add: read_span_def sample_span_def clock_int_def fld_def)

lemma sample_seconds: "seconds_of_ns 8000000000 = Inr (PFloat (Fin 8))" "seconds_of_ns 4000000000 = Inr (PFloat (Fin 4))"
    "seconds_of_ns 6000000000 = Inr (PFloat (Fin 6))"
  by (simp_all add: seconds_of_ns_def py_div_def int_like_def to_float_def to_flt_numeral)

lemma sample_stages:
  "stages sample_spans (PFloat (Fin 8)) False = Inr (Stages [(PStr ''command'', [PFloat (Fin 8)]),
     (PStr ''setup'', [PFloat (Fin 4)]), (PStr ''oracle'', [PFloat (Fin 4)])] (PFloat (Fin 6)) (PFloat (Fin 2)))"
proof -
  have names: "getitem (sample_span n i p a d) ''name'' = Inr (PStr n)" for n i p a d
    by (simp add: sample_span_def)
  have sub: "py_sub (PFloat (Fin 8)) (PFloat (Fin 6)) = Inr (PFloat (Fin 2))"
    by (simp add: py_sub_def num_op_def int_like_def to_float_def flt_sub_def to_flt_numeral)
  show ?thesis
    by (simp add: stages_def sample_spans_def isfinite_def to_float_def is_finite_def py_le_def names read_sample_span
        is_command_def sample_seconds span_step_def sp_end_def structural_names_def hashable_def sort_pairs_def sub)
qed

lemma stages_cover_union_witness:
  "\<exists>spans. covers (intervals_of spans) \<subseteq> {0..<8000000000} \<and> card (covers (intervals_of spans)) = 6000000000"
proof -
  obtain spans r U where u: "ebind (py_iter sample_spans) (emap read_span) = Inr spans" "filter is_command spans = [r]"
      "U = covers (intervals_of spans)" "U \<subseteq> {sp_start r..<sp_end r}" "seconds_of_ns (int (card U)) = Inr (PFloat (Fin 6))"
    using stages_cover_union [OF sample_stages] by blast
  have "spans = [\<lparr>sp_name = PStr ''command'', sp_id = 1, sp_parent = 0, sp_start = 0, sp_dur = 8000000000, sp_schedule = PNone\<rparr>,
      \<lparr>sp_name = PStr ''setup'', sp_id = 2, sp_parent = 1, sp_start = 1000000000, sp_dur = 4000000000, sp_schedule = PNone\<rparr>,
      \<lparr>sp_name = PStr ''oracle'', sp_id = 3, sp_parent = 1, sp_start = 3000000000, sp_dur = 4000000000, sp_schedule = PNone\<rparr>]"
    using u(1) by (simp add: sample_spans_def read_sample_span)
  then have iv: "intervals_of spans = [(1000000000, 5000000000), (3000000000, 7000000000)]" and r: "sp_start r = 0" "sp_end r = 8000000000"
    using u(2) by (auto simp: intervals_of_def structural_def structural_names_def sp_end_def is_command_def)
  have "covers (intervals_of spans) = {1000000000..<7000000000}" unfolding iv by (auto simp: covers_def)
  then have "card (covers (intervals_of spans)) = 6000000000" by simp
  then show ?thesis using u(3,4) r by auto
qed

section \<open>Rounding can reverse a bound\<close>

lemma rnd_absorbed: "rnd (2 ^ 30 + 1 / 2 ^ 30) = 2 ^ 30"
proof -
  let ?x = "2 ^ 30 + 1 / 2 ^ 30 :: rat"
  have "ilog2 ?x = 30" by (rule ilog2_unique) (simp_all add: power_int_def)
  then have u: "ulp_exp ?x = - 22" by (simp add: ulp_exp_def)
  have pw: "(2::rat) powi (- 22) = 1 / 2 ^ 22" by (simp add: power_int_def power_one_over)
  have "?x / 2 powi (- 22) = of_int (2 ^ 52) + 1 / 2 ^ 8" unfolding pw by (simp add: field_simps)
  moreover have "rne (of_int (2 ^ 52) + 1 / 2 ^ 8) = 2 ^ 52"
  proof -
    have "\<lfloor>of_int (2 ^ 52) + 1 / 2 ^ 8 :: rat\<rfloor> = 2 ^ 52" by (simp add: floor_eq_iff)
    then show ?thesis unfolding rne_def Let_def by simp
  qed
  ultimately have "rnd ?x = of_int (2 ^ 52) * (1 / 2 ^ 22)"
    unfolding rnd_def rnd_pos_def u pw by simp
  then show ?thesis by simp
qed

lemma representable_2_30: "to_flt (2 ^ 30) = Fin (2 ^ 30)"
  using rnd_of_int [of "2 ^ 30"] by (simp add: to_flt_def max_finite_def)

text \<open>
  The bound of a first event is computed in floats, and rounding can put its upper end below its lower
  end: an event \<open>2 powi (-30)\<close> seconds after the start of an invocation of \<open>2 ^ 30\<close> seconds is reported as
  lying between that time and zero, although the exact interval is not empty.
\<close>

lemma bound_reversed:
  "bound (PFloat (Fin (1 / 2 ^ 30))) (PFloat (Fin (2 ^ 30))) (PFloat (Fin (2 ^ 30))) =
     Inr (Some (PFloat (Fin (1 / 2 ^ 30)), PFloat (Fin 0)))"
proof -
  have "to_flt (1 / 2 ^ 30 + 2 ^ 30) = Fin (2 ^ 30)"
    using rnd_absorbed by (simp add: to_flt_def max_finite_def add.commute)
  then show ?thesis
    by (simp add: bound_def py_le_def py_add_def py_sub_def num_op_def int_like_def to_float_def flt_sub_def)
qed

text \<open>With integer nanoseconds the bound is exact and ordered.\<close>

lemma bound_int: "0 \<le> a \<Longrightarrow> a \<le> d \<Longrightarrow> d \<le> w \<Longrightarrow> bound (PInt a) (PInt d) (PInt w) = Inr (Some (PInt a, PInt (a + w - d)))"
  by (simp add: bound_def py_le_def py_add_def py_sub_def num_op_def int_like_def)

section \<open>Baseline accounting\<close>

lemma note_fields [simp]:
  "ev_items (note_if c m ev) = ev_items ev" "ev_attempted (note_if c m ev) = ev_attempted ev"
  "ev_valid (note_if c m ev) = ev_valid ev" "ev_domain (note_if c m ev) = ev_domain ev"
  "ev_items (fail_if c m ev) = ev_items ev" "ev_attempted (fail_if c m ev) = ev_attempted ev"
  "ev_valid (fail_if c m ev) = ev_valid ev" "ev_domain (fail_if c m ev) = ev_domain ev"
  "ev_planned (fail_if c m ev) = ev_planned ev" "ev_unobserved (fail_if c m ev) = ev_unobserved ev"
  "ev_items (add_operational x ev) = ev_items ev" "ev_attempted (add_operational x ev) = ev_attempted ev"
  "ev_valid (add_operational x ev) = ev_valid ev" "ev_domain (add_operational x ev) = ev_domain ev"
  by (simp_all add: note_if_def fail_if_def add_quality_def add_operational_def)

lemma first_fields [simp]:
  "ev_items (if c then ev\<lparr>ev_first := x\<rparr> else ev) = ev_items ev"
  "ev_attempted (if c then ev\<lparr>ev_first := x\<rparr> else ev) = ev_attempted ev"
  "ev_valid (if c then ev\<lparr>ev_first := x\<rparr> else ev) = ev_valid ev"
  "ev_domain (if c then ev\<lparr>ev_first := x\<rparr> else ev) = ev_domain ev"
  by simp_all

definition counts_ok :: "nat \<Rightarrow> evidence \<Rightarrow> bool" where
  "counts_ok n ev = (ev_attempted ev = n \<and> map ei_index (ev_items ev) = [1..<n + 1] \<and>
     ev_valid ev = length (filter ei_valid (ev_items ev)) \<and>
     ev_domain ev = length (filter (\<lambda>i. ei_valid i \<and> ei_domain i) (ev_items ev)))"

lemma execution_step_counts:
  assumes "execution_step render ex slot cmd run (n + 1, x) ev = Inr ev'" "counts_ok n ev"
  shows "counts_ok (n + 1) ev'"
  using assms
  by (cases x) (clarsimp simp: execution_step_def ebind_eq_Inr Let_def counts_ok_def)

lemma executions_counts:
  "efold (execution_step render ex slot cmd run) (enumerate (n + 1) xs) ev = Inr ev' \<Longrightarrow> counts_ok n ev \<Longrightarrow>
     counts_ok (n + length xs) ev'"
proof (induction xs arbitrary: n ev)
  case (Cons x xs)
  obtain ev1 where s: "execution_step render ex slot cmd run (n + 1, x) ev = Inr ev1"
      "efold (execution_step render ex slot cmd run) (enumerate (n + 2) xs) ev1 = Inr ev'"
    using Cons.prems(1) by (auto simp: ebind_eq_Inr)
  have "counts_ok (n + 1) ev1" by (rule execution_step_counts [OF s(1) Cons.prems(2)])
  then show ?case using Cons.IH [of "n + 1" ev1] s(2) by simp
qed simp

lemma baseline_start_counts: "counts_ok 0 ((baseline_start bf cmd run)\<lparr>ev_stages := st\<rparr>)"
  by (simp add: counts_ok_def baseline_start_def Let_def no_evidence_def)

lemma filter_positions:
  "length (filter (\<lambda>i. P (xs ! (i - 1))) [1..<length xs + 1]) = length (filter P xs)"
proof -
  have "[1..<length xs + 1] = map Suc [0..<length xs]" by (simp add: map_Suc_upt del: upt_Suc)
  then have "length (filter (\<lambda>i. P (xs ! (i - 1))) [1..<length xs + 1]) = length (filter (\<lambda>i. P (xs ! i)) [0..<length xs])"
    by (simp add: filter_map comp_def del: upt_Suc)
  also have "\<dots> = length (filter P (map ((!) xs) [0..<length xs]))" by (simp add: filter_map comp_def del: upt_Suc map_nth)
  finally show ?thesis by (simp add: map_nth)
qed

lemma filter_conj_le: "length (filter (\<lambda>i. P i \<and> Q i) xs) \<le> length (filter P xs)"
  by (induction xs) auto

lemma unobserved_count:
  assumes "length items \<le> n"
  shows "length (unobserved_slots n k items timeout) + length (filter ei_valid items) = n"
proof -
  let ?P = "\<lambda>i. length items < i \<or> \<not> ei_valid (items ! (i - 1))"
  have split: "[1..<n + 1] = [1..<length items + 1] @ [length items + 1..<n + 1]"
    using assms by (metis add_le_cancel_right le_add2 upt_add_eq_append le_Suc_ex add.commute add.left_commute)
  have "filter ?P [1..<length items + 1] = filter (\<lambda>i. \<not> ei_valid (items ! (i - 1))) [1..<length items + 1]"
    by (rule filter_cong) auto
  moreover have "filter ?P [length items + 1..<n + 1] = [length items + 1..<n + 1]" by (auto simp: filter_id_conv)
  ultimately have "length (filter ?P [1..<n + 1]) = length (filter (\<lambda>i. \<not> ei_valid i) items) + (n - length items)"
    unfolding split filter_append length_append using filter_positions [of "\<lambda>i. \<not> ei_valid i" items] by (simp del: upt_Suc)
  moreover have "length (filter (\<lambda>i. \<not> ei_valid i) items) + length (filter ei_valid items) = length items"
    using sum_length_filter_compl [of ei_valid items] by simp
  ultimately show ?thesis using assms by (simp add: unobserved_slots_def del: upt_Suc)
qed

text \<open>
  Baseline accounting adds up: every execution file is attempted once, in order and without a gap; the
  valid and violating counts are those of the listed executions; and valid evaluations and unobserved
  slots together are the planned executions.
\<close>

theorem baseline_accounting:
  assumes "baseline render bf slot cmd ex = Inr ev" "s_arm slot \<noteq> ''B0''"
  shows "ev_attempted ev = length (bf_executions bf) \<and> map ei_index (ev_items ev) = [1..<length (bf_executions bf) + 1] \<and>
    ev_valid ev = length (filter ei_valid (ev_items ev)) \<and>
    ev_domain ev = length (filter (\<lambda>i. ei_valid i \<and> ei_domain i) (ev_items ev)) \<and>
    ev_domain ev \<le> ev_valid ev \<and> ev_valid ev \<le> ev_attempted ev \<and> ev_attempted ev \<le> ex_counts ex (s_arm slot) \<and>
    length (ev_unobserved ev) + ev_valid ev = ex_counts ex (s_arm slot)"
proof -
  let ?n = "length (bf_executions bf)"
  let ?w = "ex_counts ex (s_arm slot)"
  obtain run st where ex: "baseline_executions render bf slot cmd ex run ((baseline_start bf cmd run)\<lparr>ev_stages := Some st\<rparr>) = Inr ev"
    using assms by (auto simp: baseline_def ebind_eq_Inr)
  let ?e0 = "(baseline_start bf cmd run)\<lparr>ev_stages := Some st\<rparr>"
  obtain ev1 ev2 where fold: "efold (execution_step render ex slot cmd run) (enumerate 1 (bf_executions bf)) ?e0 = Inr ev1"
    and shares: "execution_shares (count_executions ?n ?w cmd run ev1) = Inr ev2"
    and more: "require (?n \<le> ?w) ''execution count exceeds plan'' (
      ebind (usable_event bf cmd (fail_if (?n \<noteq> ?w \<and> \<not> rc_timeout cmd) ''missing planned executions'' ev2))
        (\<lambda>u. Inr ((fail_if (?n \<noteq> ?w \<and> \<not> rc_timeout cmd) ''missing planned executions'' ev2)\<lparr>ev_usable := u\<rparr>))) = Inr ev"
    using ex unfolding baseline_executions_def Let_def ebind_eq_Inr by blast
  obtain u where n: "?n \<le> ?w"
    and ev: "ev = (fail_if (?n \<noteq> ?w \<and> \<not> rc_timeout cmd) ''missing planned executions'' ev2)\<lparr>ev_usable := u\<rparr>"
    using more unfolding require_eq_Inr ebind_eq_Inr sum.inject by blast
  have same: "ev_items ev2 = ev_items ev1" "ev_attempted ev2 = ev_attempted ev1" "ev_valid ev2 = ev_valid ev1" "ev_domain ev2 = ev_domain ev1"
      "ev_unobserved ev2 = unobserved_slots ?w ?n (ev_items ev1) (rc_timeout cmd)"
    using shares by (auto simp: execution_shares_def ebind_eq_Inr count_executions_def Let_def)
  have c: "counts_ok ?n ev1"
    using executions_counts [of render ex slot cmd run 0 "bf_executions bf"] fold baseline_start_counts by (simp del: efold.simps)
  then have len: "length (ev_items ev1) = ?n" unfolding counts_ok_def by (metis diff_add_inverse2 length_map length_upt)
  have "length (filter (\<lambda>i. ei_valid i \<and> ei_domain i) (ev_items ev1)) \<le> length (filter ei_valid (ev_items ev1))"
    by (rule filter_conj_le)
  moreover have "length (filter ei_valid (ev_items ev1)) \<le> ?n" using length_filter_le [of ei_valid "ev_items ev1"] len by simp
  moreover have "length (ev_unobserved ev) + length (filter ei_valid (ev_items ev1)) = ex_counts ex (s_arm slot)"
    using unobserved_count [of "ev_items ev1"] n len by (simp add: ev same)
  moreover have "ev_items ev = ev_items ev1" "ev_attempted ev = ev_attempted ev1" "ev_valid ev = ev_valid ev1" "ev_domain ev = ev_domain ev1"
    by (simp_all add: ev same)
  ultimately show ?thesis using c n unfolding counts_ok_def by (simp del: upt_Suc)
qed


text \<open>A run killed by the collection cap: its first execution was cancelled, two were never started.\<close>

definition capped_files :: baseline_files where
  "capped_files = \<lparr>bf_run = None, bf_executions = [(''raw/execution-001.json'', Inr (PDict [(''index'', PInt 1),
     (''cancellation_only'', PBool True), (''child_reaped'', PBool True), (''connections_closed'', PBool True)]), ''d'')],
     bf_stream = None\<rparr>"

definition capped_command :: receipt where
  "capped_command = \<lparr>rc_started = True, rc_finished = True, rc_interrupted = False, rc_timeout = True, rc_contained = True,
     rc_seconds = PFloat (Fin 8), rc_exit = Some (- 15), rc_error = None, rc_clock = None\<rparr>"

definition capped_slot :: e5_slot where
  "capped_slot = \<lparr>s_key = (''matching'', ''vulnerable'', ''warm'', ''1''), s_arm = ''B1'', s_id = ''s'', s_ordinal = 1, s_attempt = 1, s_cap = 60\<rparr>"

definition capped_expected :: expected where
  "capped_expected = \<lparr>ex_db = PStr ''mysql'', ex_assertions = [], ex_counts = (\<lambda>_. 3), ex_rows = PNone, ex_candidates = [],
     ex_jar = '''', ex_passes = 3\<rparr>"

lemma capped_baseline: "\<exists>ev. baseline render capped_files capped_slot capped_command capped_expected = Inr ev \<and> ev_attempted ev = 1"
  by (simp add: execution_shares_def py_div_def int_like_def to_flt_0 baseline_def baseline_run_def capped_files_def unpublished_run_def stages_def capped_command_def isfinite_def
      to_float_def is_finite_def py_le_def capped_slot_def baseline_executions_def execution_step_def Let_def
      domain_violated_def other_violated_def membership_def count_executions_def capped_expected_def usable_event_def
      baseline_start_def no_evidence_def fld_def workload_of_def assertion_of_def variant_of_def ebind_eq_Inr)

lemma baseline_accounting_witness:
  "\<exists>ev. baseline (\<lambda>_. []) capped_files capped_slot capped_command capped_expected = Inr ev \<and>
     length (ev_unobserved ev) + ev_valid ev = 3"
proof -
  have "s_arm capped_slot \<noteq> ''B0''" by (simp add: capped_slot_def)
  moreover obtain ev where "baseline (\<lambda>_. []) capped_files capped_slot capped_command capped_expected = Inr ev"
    using capped_baseline by blast
  ultimately show ?thesis using baseline_accounting [of "\<lambda>_. []" capped_files capped_slot capped_command capped_expected ev]
    by (simp add: capped_expected_def)
qed

end
