(* ===== verification/Product.thy ===== *)
theory Product
  imports Reduce Campaign
begin

text \<open>
  The product evidence of an E5 slot and the reduction of one slot (\<open>runner/analyze.py\<close>):
  \<open>validate_trace\<close>, \<open>product\<close>, \<open>reduce_slot\<close> and \<open>detected_in_budget\<close>.  The files of a product
  run are a record of what \<open>read_json\<close> returns for each of them.
\<close>

section \<open>The trace\<close>

definition resolved_kinds :: "string list" where
  "resolved_kinds = [''point_released'', ''step_terminal_skipped'']"

definition kind_in :: "string list \<Rightarrow> pv \<Rightarrow> bool res" where
  "kind_in names e = item e ''kind'' (\<lambda>k. Inr (k \<in> PStr ` set names))"

definition step_of_event :: "pv \<Rightarrow> pv res" where
  "step_of_event e = item e ''worker'' (\<lambda>w. item e ''point'' (\<lambda>p. Inr (PDict [(''worker'', w), (''point'', p)])))"

definition terminal_ok :: "pv \<Rightarrow> bool res" where
  "terminal_ok t = item t ''state'' (\<lambda>s. if s \<noteq> PStr ''done'' then Inr False
     else item t ''failure_class'' (\<lambda>f. Inr (f = PStr ''none'')))"

text \<open>A skipped step of the fixed matching variant: its worker finished before.\<close>

definition skip_explained :: "e5_slot \<Rightarrow> pv list \<Rightarrow> pv \<Rightarrow> bool res" where
  "skip_explained slot events event =
     (if \<not> (workload_of slot = ''matching'' \<and> variant_of slot = ''fixed'') then Inr False
      else item event ''point'' (\<lambda>p. if p \<noteq> PStr ''before_insert_assignment'' then Inr False
      else eany (\<lambda>e. item e ''kind'' (\<lambda>k. if k \<noteq> PStr ''worker_done'' then Inr False
        else item e ''worker'' (\<lambda>w. item event ''worker'' (\<lambda>w'. if \<not> py_eq w w' then Inr False
        else item e ''seq'' (\<lambda>n. item event ''seq'' (py_less n)))))) events))"

text \<open>An inferred block: the same point of the same worker is resolved later.\<close>

definition block_resolved :: "pv list \<Rightarrow> pv \<Rightarrow> bool res" where
  "block_resolved events event = item event ''status'' (\<lambda>s. if s \<noteq> PStr ''timeout_inferred'' then Inr False
     else eany (\<lambda>e. ebind (kind_in resolved_kinds e) (\<lambda>r. if \<not> r then Inr False
       else item e ''worker'' (\<lambda>w. item event ''worker'' (\<lambda>w'. if \<not> py_eq w w' then Inr False
       else item e ''point'' (\<lambda>p. item event ''point'' (\<lambda>p'. if \<not> py_eq p p' then Inr False
       else item e ''seq'' (\<lambda>n. item event ''seq'' (\<lambda>n'. py_less n' n)))))))) events)"

definition count_kind :: "string \<Rightarrow> pv list \<Rightarrow> nat" where
  "count_kind k events = length (filter (\<lambda>e. fld e ''kind'' = PStr k) events)"

definition validate_trace :: "pv \<Rightarrow> pv \<Rightarrow> e5_slot \<Rightarrow> (nat \<times> nat) res" where
  "validate_trace trace saved slot =
     item trace ''schedule_ref'' (\<lambda>ref. item saved ''id'' (\<lambda>sid. require (py_eq ref sid) ''trace schedule differs'' (
     item trace ''terminals'' (\<lambda>value. ebind (py_iter value) (\<lambda>terminals.
     erequire (if length terminals \<noteq> 2 then Inr False else eall terminal_ok terminals) ''terminal failure'' (
     ebind (emap (\<lambda>t. pgetn t ''worker'') terminals) (\<lambda>workers.
     item saved ''steps'' (\<lambda>steps_value. ebind (py_iter steps_value) (\<lambda>steps.
     erequire (if \<not> list_all (\<lambda>w. is_str w \<and> str_of w \<noteq> []) workers \<or> \<not> distinct workers then Inr False
         else ebind (emap (\<lambda>s. getitem s ''worker'') steps) (\<lambda>ws. Inr (set workers = set ws)))
       ''terminal workers differ from schedule'' (
     item trace ''events'' (\<lambda>events_value. ebind (py_iter events_value) (\<lambda>events.
     ebind (emap (\<lambda>e. getitem e ''seq'') events) (\<lambda>seqs.
     require (list_all2 (\<lambda>v n. py_eq v (PInt (int n))) seqs [1..<length events + 1]) ''trace sequence differs'' (
     erequire (ebind (eany (kind_in [''worker_failed'']) events) (\<lambda>b. Inr (\<not> b))) ''worker failure'' (
     ebind (efilter (kind_in resolved_kinds) events) (\<lambda>resolved.
     ebind (emap step_of_event resolved) (\<lambda>requested.
     require (py_eq (PList requested) steps_value) ''requested/resolved schedule differs'' (
     ebind (emap (\<lambda>e. getitem e ''step'') resolved) (\<lambda>indices.
     require (list_all2 (\<lambda>v n. py_eq v (PInt (int n))) indices [0..<length steps]) ''resolved step index differs'' (
     ebind (efor (\<lambda>e. erequire (if fld e ''kind'' = PStr ''step_terminal_skipped'' then skip_explained slot events e else Inr True)
       ''unexplained skipped step'' (Inr ())) resolved) (\<lambda>_.
     ebind (efor (\<lambda>e. erequire (if fld e ''kind'' = PStr ''point_timeout'' then block_resolved events e else Inr True)
       ''unresolved inferred block'' (Inr ())) events) (\<lambda>_.
     Inr (count_kind ''point_timeout'' events, count_kind ''step_terminal_skipped'' events)))))))))))))))))))))))"

section \<open>Product evidence\<close>

record product_run =
  pd_manifest :: "pv res"
  pd_observation :: "pv res"
  pd_scenario :: "pv res"
  pd_trace :: "pv res"
  pd_merged :: "pv res"
  pd_report :: bool

record product_files =
  pf_runs :: "product_run list"
  pf_any_run :: bool
  pf_cleanup_warning :: bool

text \<open>Absence after a cancellation by the collection cap.\<close>

definition product_absent :: "product_files \<Rightarrow> receipt \<Rightarrow> bool" where
  "product_absent pf cmd = (pf_runs pf = [] \<and> \<not> pf_any_run pf \<and> rc_timeout cmd \<and> rc_exit cmd = Some 130 \<and> rc_started cmd \<and>
     rc_finished cmd \<and> \<not> rc_interrupted cmd \<and> rc_error cmd = None \<and> rc_contained cmd)"

record product_docs =
  pm :: pv
  po :: pv
  psc :: pv
  ptr :: pv

definition count_names :: "string list" where
  "count_names = [''repeat'', ''violation_runs'', ''schedules_explored'', ''explore_passes'']"

definition ocount :: "product_docs \<Rightarrow> string \<Rightarrow> int" where
  "ocount d k = int_of_pv (fld (po d) k)"

definition fingerprints_ok :: "pv \<Rightarrow> bool" where
  "fingerprints_ok v = (is_dict v \<and> list_all (\<lambda>(k, n). hex_string 64 k \<and> is_int n \<and> 0 < int_of_pv n) (items_of v))"

definition product_docs :: "product_run \<Rightarrow> product_docs res" where
  "product_docs r = ebind (pd_manifest r) (\<lambda>m. ebind (pd_observation r) (\<lambda>obs.
     ebind (pgetn obs ''repeat'') (\<lambda>_.
     require (list_all (clock_int obs) count_names) ''invalid product execution counts'' (
     require (is_bool (fld obs ''flaky'') \<and> fingerprints_ok (fld obs ''fingerprints'')) ''invalid product fingerprint counts'' (
     ebind (pd_scenario r) (\<lambda>scenario. ebind (pd_trace r) (\<lambda>trace. ebind (pd_merged r) (\<lambda>merged.
     item merged ''manifest'' (\<lambda>a. item merged ''scenario'' (\<lambda>b. item merged ''observation'' (\<lambda>c.
     require (py_eq a m \<and> py_eq b scenario \<and> py_eq c obs) ''merged product evidence differs'' (
     require (pd_report r) ''missing product report'' (Inr \<lparr>pm = m, po = obs, psc = scenario, ptr = trace\<rparr>)))))))))))))"

definition mode_of :: "string \<Rightarrow> string" where
  "mode_of arm = (if arm = ''T-R'' then ''replay'' else ''explore'')"

text \<open>The identity of the run: variant, image, mode, input, isolation and assertions.\<close>

definition product_identity :: "e5_slot \<Rightarrow> expected \<Rightarrow> product_docs \<Rightarrow> unit res" where
  "product_identity slot ex d =
     item (pm d) ''variant'' (\<lambda>v. item (pm d) ''adapter'' (\<lambda>a.
     require (v = PStr (variant_of slot) \<and> a = PStr ''external'') ''product identity differs'' (
     require (py_eq (fld (pm d) ''image'') (ex_db ex)) ''product image differs from effective config'' (
     require (fld (po d) ''mode'' = PStr (mode_of (s_arm slot))) ''product mode differs from requested arm'' (
     require (s_arm slot \<noteq> ''T-R'' \<or> (ocount d ''schedules_explored'' = 0 \<and> ocount d ''explore_passes'' = 0))
       ''replay contains exploration'' (
     item (pm d) ''sut_sha256'' (\<lambda>sut. item (pm d) ''isolation_level'' (\<lambda>iso.
     require (sut = PStr (''sha256:'' @ ex_jar ex) \<and> iso = PStr ''REPEATABLE-READ'') ''product input/isolation differs'' (
     item (po d) ''oracles'' (\<lambda>oracles.
     require (py_eq oracles (PList (map (\<lambda>(i, sql, rows). PDict [(''id'', PStr i), (''sql'', sql), (''expect_rows'', rows)]) (ex_assertions ex))))
       ''product assertions differ'' (Inr ())))))))))))"

definition named :: "string \<Rightarrow> span list \<Rightarrow> span list" where
  "named n spans = filter (\<lambda>s. sp_name s = PStr n) spans"

definition children :: "span \<Rightarrow> span list \<Rightarrow> span list" where
  "children s spans = filter (\<lambda>c. sp_parent c = sp_id s) spans"

definition stage_names :: "string list" where
  "stage_names = [''fixture_reset'', ''adapter_create'', ''adapter_start'', ''schedule_execute'', ''oracle_evaluate'', ''adapter_stop'']"

text \<open>\<open>byid.get(s['parent_id'], {}).get('name')\<close>; identifiers are the positions (\<open>stages\<close> checked).\<close>

definition parent_name :: "span \<Rightarrow> span list \<Rightarrow> pv" where
  "parent_name s spans = (case find (\<lambda>p. sp_id p = sp_parent s) spans of Some p \<Rightarrow> sp_name p | None \<Rightarrow> PNone)"

definition candidate_ids :: "expected \<Rightarrow> pv list" where
  "candidate_ids ex = map (\<lambda>c. fld c ''id'') (ex_candidates ex)"

definition event_bound :: "span list \<Rightarrow> span \<Rightarrow> pv \<Rightarrow> interval option \<Rightarrow> interval option res" where
  "event_bound spans execution whole previous =
     (case (filter (\<lambda>s. sp_parent s = sp_id execution) (named ''oracle_evaluate'' spans), named ''command'' spans) of
        ([event], [cmd]) \<Rightarrow> ebind (seconds_of_ns (sp_end event - sp_start cmd)) (\<lambda>e.
           ebind (seconds_of_ns (sp_dur cmd)) (\<lambda>d. bound e d whole))
      | _ \<Rightarrow> Inr previous)"

text \<open>What the later parts of \<open>product\<close> need of the earlier ones.\<close>

record product_state =
  ps_ev :: evidence
  ps_outcome :: "string list"

definition fingerprint_values :: "product_docs \<Rightarrow> int list" where
  "fingerprint_values d = map (\<lambda>p. int_of_pv (snd p)) (items_of (fld (po d) ''fingerprints''))"

definition is_stable :: "product_docs \<Rightarrow> nat \<Rightarrow> bool" where
  "is_stable d repeat = (ocount d ''repeat'' = int repeat \<and> fingerprint_values d = [int repeat] \<and> \<not> is_true (po d) ''flaky'')"

text \<open>The checks of a run that saved a schedule: its schedule and pass limit, its trace, its outcome.\<close>

definition schedule_checks :: "e5_slot \<Rightarrow> expected \<Rightarrow> product_docs \<Rightarrow> pv \<Rightarrow> evidence \<Rightarrow> evidence res" where
  "schedule_checks slot ex d saved ev =
     (if s_arm slot = ''T-R'' then item saved ''id'' (\<lambda>i. require (i = PStr (replay_schedule_of (workload_of slot)))
        ''replay schedule differs'' (Inr ev))
      else Inr (note_if (\<not> (1 \<le> ocount d ''explore_passes'' \<and> ocount d ''explore_passes'' \<le> ex_passes ex))
        ''discovery exceeds registered exploration pass limit'' ev))"

definition trace_checks :: "e5_slot \<Rightarrow> product_docs \<Rightarrow> pv \<Rightarrow> evidence \<Rightarrow> (evidence \<times> bool) res" where
  "trace_checks slot d saved ev =
     (case validate_trace (ptr d) saved slot of
        Inr t \<Rightarrow> Inr (ev\<lparr>ev_trace := Some t\<rparr>, True)
      | Inl (ValueError m) \<Rightarrow> Inr (add_quality m ev, False)
      | Inl e \<Rightarrow> Inl e)"

definition outcome_checks :: "e5_slot \<Rightarrow> nat \<Rightarrow> product_docs \<Rightarrow> bool \<Rightarrow> product_state \<Rightarrow> product_state" where
  "outcome_checks slot repeat d domain ps =
     (let vruns = ocount d ''violation_runs'';
          ev = note_if (\<not> is_stable d repeat) ''repeat/fingerprint mismatch'' (ps_ev ps);
          want = (if variant_of slot = ''vulnerable'' then int repeat else 0);
          unexpected = (vruns \<noteq> want \<or> (want > 0) \<noteq> domain);
          as_outcome = (variant_of slot = ''fixed'' \<and> domain \<and> vruns = int repeat);
          ev = note_if (unexpected \<and> \<not> as_outcome) ''unexpected domain outcome'' ev;
          outcome = ps_outcome ps @ (if unexpected \<and> as_outcome then [''unexpected domain outcome''] else []) in
      \<lparr>ps_ev = note_if (s_arm slot = ''T-E'' \<and> (\<not> domain \<or> \<not> truthy (fld (po d) ''discovery_fingerprint'')))
         ''saved exploration schedule lacks discovery evidence'' ev, ps_outcome = outcome\<rparr>)"

definition saved_checks ::
  "(pv \<Rightarrow> string) \<Rightarrow> e5_slot \<Rightarrow> expected \<Rightarrow> product_docs \<Rightarrow> pv \<Rightarrow> pv list \<Rightarrow> bool \<Rightarrow> product_state \<Rightarrow> product_state res"
where
  "saved_checks render slot ex d saved violations domain ps =
     (let repeat = ex_counts ex ''T-R''; assertion = assertion_of (workload_of slot) in
      require (list_ex (\<lambda>c. py_eq c saved) (ex_candidates ex)) ''unregistered schedule'' (
      ebind (schedule_checks slot ex d saved (ps_ev ps)) (\<lambda>ev.
      ebind (trace_checks slot d saved ev) (\<lambda>(ev, trace_valid).
      let ps = outcome_checks slot repeat d domain \<lparr>ps_ev = ev, ps_outcome = ps_outcome ps\<rparr> in
      ebind (if domain then domain_rows_match render violations assertion ex else Inr True) (\<lambda>matches.
      let ev = note_if (\<not> matches) ''domain assertion rows differ'' (ps_ev ps) in
      Inr (ps\<lparr>ps_ev := ev\<lparr>ev_stable := is_stable d repeat \<and> trace_valid \<and> domain \<and>
        ocount d ''violation_runs'' = int repeat \<and> s_arm slot = ''T-E''\<rparr>\<rparr>))))))"

text \<open>An exploration that found nothing: it was exhaustive and clean.\<close>

definition exhausted_checks :: "expected \<Rightarrow> product_docs \<Rightarrow> receipt \<Rightarrow> pv list \<Rightarrow> evidence \<Rightarrow> evidence" where
  "exhausted_checks ex d cmd violations ev =
     (let ev = note_if (ocount d ''schedules_explored'' \<noteq> int (length (ex_candidates ex)) * 3 \<or> ocount d ''explore_passes'' \<noteq> 3)
            ''incomplete exhaustive search'' ev;
          ev = note_if (truthy (fld (po d) ''fingerprints'') \<or> fld (po d) ''discovery_fingerprint'' \<noteq> PNone)
            ''exhausted search contains confirmation/discovery fingerprints'' ev in
      note_if (ocount d ''violation_runs'' \<noteq> 0 \<or> violations \<noteq> [] \<or> is_true (po d) ''flaky'' \<or> rc_exit cmd \<noteq> Some 0)
        ''exhausted search has non-clean outcome'' ev)"

text \<open>The executions of the timing hierarchy against the counts, and the traversal of the candidates.\<close>

definition visited_ok :: "expected \<Rightarrow> bool \<Rightarrow> span list \<Rightarrow> span list \<Rightarrow> nat \<times> span \<Rightarrow> bool" where
  "visited_ok ex saved spans passes = (\<lambda>(index, pass).
     let visited = map sp_schedule (children pass (named ''schedule_run'' spans)); registered = candidate_ids ex in
     visited = take (length visited) registered \<and> ((\<not> saved \<or> index + 1 < length passes) \<longrightarrow> visited = registered))"

definition execution_checks :: "expected \<Rightarrow> product_docs \<Rightarrow> receipt \<Rightarrow> bool \<Rightarrow> bool \<Rightarrow> span list \<Rightarrow> evidence \<Rightarrow> evidence" where
  "execution_checks ex d cmd saved domain spans ev =
     (let flaky = is_true (po d) ''flaky''; executions = named ''schedule_run'' spans; passes = named ''explore_pass'' spans;
          ev = note_if ((rc_exit cmd = Some 0 \<and> (domain \<or> flaky)) \<or> (rc_exit cmd = Some 2 \<and> (\<not> domain \<or> flaky)))
            ''exit and retained outcome disagree'' ev;
          ev = note_if (int (length executions) \<noteq> ocount d ''schedules_explored'' + (if saved then ocount d ''repeat'' else 0))
            ''execution timing count differs'' ev;
          ev = ev\<lparr>ev_evaluated := length executions\<rparr>;
          ev = fold (\<lambda>e. note_if (\<exists>n \<in> set stage_names. length (named n (children e spans)) \<noteq> 1) ''execution stage missing/duplicated'')
            executions ev;
          ev = note_if (int (length passes) \<noteq> ocount d ''explore_passes'') ''exploration pass count differs'' ev in
      fold (\<lambda>p. note_if (\<not> visited_ok ex saved spans passes p) ''candidate traversal differs from frozen order'') (enumerate 0 passes) ev)"

text \<open>The confirmation executions, and the event time of a replay.\<close>

definition replayed :: "span list \<Rightarrow> span list" where
  "replayed spans = filter (\<lambda>s. parent_name s spans = PStr ''replay'') (named ''schedule_run'' spans)"

definition confirmation_checks ::
  "e5_slot \<Rightarrow> nat \<Rightarrow> product_docs \<Rightarrow> receipt \<Rightarrow> pv \<Rightarrow> bool \<Rightarrow> span list \<Rightarrow> evidence \<Rightarrow> evidence res"
where
  "confirmation_checks slot repeat d cmd saved domain spans ev =
     (let rs = replayed spans;
          bad = (truthy saved \<and> (length rs \<noteq> repeat \<or> list_ex (\<lambda>s. \<not> py_eq (sp_schedule s) (fld saved ''id'')) rs));
          ev = (if bad then (add_quality ''confirmation execution identity/count differs'' ev)\<lparr>ev_stable := False\<rparr> else ev) in
      if s_arm slot = ''T-R'' \<and> domain \<and> rs \<noteq> [] \<and> length (items_of (fld (po d) ''fingerprints'')) = 1 \<and> \<not> is_true (po d) ''flaky''
      then ebind (event_bound spans (hd rs) (rc_seconds cmd) (ev_first ev)) (\<lambda>f. Inr (ev\<lparr>ev_first := f\<rparr>))
      else Inr ev)"

text \<open>The discovery of an exploration: the last explored execution, with the fingerprint of its confirmation.\<close>

definition discovery_checks :: "product_docs \<Rightarrow> receipt \<Rightarrow> pv \<Rightarrow> bool \<Rightarrow> span list \<Rightarrow> evidence \<Rightarrow> evidence res" where
  "discovery_checks d cmd saved domain spans ev =
     (let found = filter (\<lambda>s. parent_name s spans = PStr ''explore_pass'') (named ''schedule_run'' spans);
          passes = named ''explore_pass'' spans; fp = fld (po d) ''discovery_fingerprint'';
          mapped = (int (length found) = ocount d ''schedules_explored'' \<and> found \<noteq> [] \<and> passes \<noteq> [] \<and>
            sp_parent (last found) = sp_id (last passes) \<and> py_eq (sp_schedule (last found)) (fld saved ''id'')) in
      if \<not> hashable fp then Inl (TypeError ''unhashable type'')
      else (let matching = (fp \<in> PStr ` set (keys (fld (po d) ''fingerprints'')));
          ev = note_if (\<not> mapped) ''discovery schedule differs from final explored execution'' ev;
          ev = note_if (\<not> matching) ''discovery fingerprint differs from confirmation'' ev;
          ev = ev\<lparr>ev_stable := ev_stable ev \<and> mapped \<and> matching\<rparr> in
        if mapped \<and> domain \<and> truthy fp \<and> (matching \<or> ocount d ''violation_runs'' = 0)
        then ebind (event_bound spans (last found) (rc_seconds cmd) (ev_first ev)) (\<lambda>f. Inr (ev\<lparr>ev_first := f\<rparr>))
        else Inr ev))"

text \<open>The end of \<open>product\<close>: the receipt is valid before the outcome reasons are added.\<close>

definition close_product :: "e5_slot \<Rightarrow> string list \<Rightarrow> evidence \<Rightarrow> evidence" where
  "close_product slot outcome ev =
     (let ev = ev\<lparr>ev_receipt_valid := Some (ev_quality ev = []), ev_quality := ev_quality ev @ map PStr outcome\<rparr>;
          ev = ev\<lparr>ev_miss := ev_exhausted ev \<and> variant_of slot = ''vulnerable'' \<and> ev_quality ev = [] \<and> ev_operational ev = []\<rparr> in
      ev\<lparr>ev_stable := ev_stable ev \<and> ev_quality ev = []\<rparr>)"

text \<open>The outcome of a run whose receipts were read: its exit, its saved schedule, its executions.\<close>

definition outcome_start :: "e5_slot \<Rightarrow> receipt \<Rightarrow> expected \<Rightarrow> product_docs \<Rightarrow> bool \<Rightarrow> evidence \<Rightarrow> product_state" where
  "outcome_start slot cmd ex d domain ev =
     (let ev = note_if (is_true (po d) ''flaky'' \<or> rc_exit cmd = Some 3) ''flaky'' ev;
          ev = fail_if (rc_exit cmd \<notin> {Some 0, Some 2, Some 3} \<and> \<not> rc_timeout cmd) ''product operational exit'' ev in
      \<lparr>ps_ev = ev\<lparr>ev_planned := ex_counts ex ''T-R'', ev_exhausted := s_arm slot = ''T-E'' \<and> \<not> truthy (fld (psc d) ''schedule'')\<rparr>,
       ps_outcome = (if domain \<and> variant_of slot = ''fixed'' then [''fixed domain violation''] else [])\<rparr>)"

definition schedule_outcome ::
  "(pv \<Rightarrow> string) \<Rightarrow> e5_slot \<Rightarrow> receipt \<Rightarrow> expected \<Rightarrow> product_docs \<Rightarrow> pv list \<Rightarrow> bool \<Rightarrow> product_state \<Rightarrow> product_state res"
where
  "schedule_outcome render slot cmd ex d violations domain ps =
     (let saved = fld (psc d) ''schedule'' in
      if truthy saved then saved_checks render slot ex d saved violations domain ps
      else if s_arm slot = ''T-R'' then Inr (ps\<lparr>ps_ev := add_quality ''missing replay'' (ps_ev ps)\<rparr>)
      else Inr (ps\<lparr>ps_ev := exhausted_checks ex d cmd violations (ps_ev ps)\<rparr>))"

definition product_outcome ::
  "(pv \<Rightarrow> string) \<Rightarrow> e5_slot \<Rightarrow> receipt \<Rightarrow> expected \<Rightarrow> product_docs \<Rightarrow> span list \<Rightarrow> pv list \<Rightarrow> bool \<Rightarrow> evidence \<Rightarrow> evidence res"
where
  "product_outcome render slot cmd ex d spans violations domain ev =
     (let saved = fld (psc d) ''schedule'' in
     ebind (schedule_outcome render slot cmd ex d violations domain (outcome_start slot cmd ex d domain ev)) (\<lambda>ps.
     ebind (confirmation_checks slot (ex_counts ex ''T-R'') d cmd saved domain spans
         (execution_checks ex d cmd (truthy saved) domain spans (ps_ev ps))) (\<lambda>ev.
     ebind (if s_arm slot = ''T-E'' \<and> truthy saved then discovery_checks d cmd saved domain spans ev else Inr ev) (\<lambda>ev.
     Inr (close_product slot (ps_outcome ps) ev)))))"

text \<open>What the run retained, its cleanup and its timing.\<close>

definition product_start :: "product_docs \<Rightarrow> pv \<Rightarrow> pv \<Rightarrow> stage_times \<Rightarrow> bool \<Rightarrow> evidence" where
  "product_start d selected failed st other =
     (let ev = no_evidence\<lparr>ev_cleanup := (failed = PBool False),
            ev_product := Some (ocount d ''schedules_explored'', ocount d ''violation_runs'', fld (po d) ''fingerprints'', selected)\<rparr>;
          ev = fail_if (\<not> ev_cleanup ev) ''product cleanup failed'' ev in
      note_if other ''receipt assertion failed'' (ev\<lparr>ev_stages := Some st\<rparr>))"

definition product_evidence ::
  "(pv \<Rightarrow> string) \<Rightarrow> e5_slot \<Rightarrow> receipt \<Rightarrow> expected \<Rightarrow> product_docs \<Rightarrow> evidence res"
where
  "product_evidence render slot cmd ex d =
     ebind (product_identity slot ex d) (\<lambda>_.
     item (pm d) ''cleanup_failed'' (\<lambda>failed.
     ebind (pget (psc d) ''schedule'' (PDict [])) (\<lambda>schedule. ebind (pgetn schedule ''id'') (\<lambda>selected.
     ebind (pget (pm d) ''timings'' (PDict [])) (\<lambda>timings. ebind (pget timings ''spans'' (PList [])) (\<lambda>value.
     ebind (stages value (rc_seconds cmd) False) (\<lambda>st.
     ebind (ebind (py_iter value) (emap read_span)) (\<lambda>spans.
     item (po d) ''assertion_violations'' (\<lambda>vs. ebind (py_iter vs) (\<lambda>violations.
     ebind (domain_violated (assertion_of (workload_of slot)) violations) (\<lambda>domain.
     ebind (other_violated (assertion_of (workload_of slot)) violations) (\<lambda>other.
     product_outcome render slot cmd ex d spans violations domain
       (product_start d selected failed st other)))))))))))))"

definition product :: "(pv \<Rightarrow> string) \<Rightarrow> product_files \<Rightarrow> e5_slot \<Rightarrow> receipt \<Rightarrow> expected \<Rightarrow> evidence res" where
  "product render pf slot cmd ex =
     (if product_absent pf cmd then
        Inr (fail_if (pf_cleanup_warning pf) ''product cleanup failed before publication'' (no_evidence\<lparr>ev_absence := True\<rparr>))
      else (case pf_runs pf of [r] \<Rightarrow> ebind (product_docs r) (product_evidence render slot cmd ex)
        | _ \<Rightarrow> Inl (ValueError ''one original product run required'')))"

section \<open>One slot\<close>

text \<open>The retained directory of a started slot: its seal, its state, the command receipt if it exists
  and the files of its arm.\<close>

record slot_dir =
  sd_sealed :: bool
  sd_state :: "pv res"
  sd_command :: "pv res option"
  sd_baseline :: baseline_files
  sd_product :: product_files

record row =
  rw_status :: string
  rw_reasons :: "pv list"
  rw_started :: bool
  rw_receipt :: "receipt option"
  rw_expired :: bool
  rw_evidence :: evidence
  rw_resources :: pv
  rw_cleanup :: bool
  rw_event_member :: string
  rw_received :: "interval option"
  rw_received_member :: string

definition blank_row :: "string \<Rightarrow> pv list \<Rightarrow> row" where
  "blank_row status reasons = \<lparr>rw_status = status, rw_reasons = reasons, rw_started = False, rw_receipt = None, rw_expired = False,
     rw_evidence = no_evidence, rw_resources = PNone, rw_cleanup = False, rw_event_member = ''unknown'', rw_received = None,
     rw_received_member = ''unknown''\<rparr>"

text \<open>The lifecycle failures of a sealed state.\<close>

definition lifecycle_reasons :: "pv \<Rightarrow> pv list res" where
  "lifecycle_reasons state =
     ebind (ebind (pget state ''integrity_errors'' (PList [])) py_iter) (\<lambda>a.
     ebind (ebind (pget state ''containment_errors'' (PList [])) py_iter) (\<lambda>b.
     Inr (a @ b @ filter truthy [fld state ''error'', fld state ''cleanup_error''] @
       (if truthy (fld state ''interrupted'') then [PStr ''collector interrupted''] else []) @
       (if is_true state ''cleanup_proven'' then [] else [PStr ''allocation cleanup unproven'']))))"

definition evidence_error :: "exn \<Rightarrow> bool" where
  "evidence_error e = (case e of ZeroDivisionError _ \<Rightarrow> False | BadZipFile _ \<Rightarrow> False | ParseError _ \<Rightarrow> False | _ \<Rightarrow> True)"

definition failed_evidence :: "string \<Rightarrow> exn \<Rightarrow> evidence" where
  "failed_evidence what e = no_evidence\<lparr>ev_operational := [PStr (what @ exn_text e)]\<rparr>"

text \<open>The arm's evidence and whether it is valid; an evidence error is an operational failure.\<close>

definition arm_evidence ::
  "(pv \<Rightarrow> string) \<Rightarrow> slot_dir \<Rightarrow> e5_slot \<Rightarrow> receipt \<Rightarrow> expected \<Rightarrow> (evidence \<times> bool) res" where
  "arm_evidence render sd slot cmd ex =
     (case (if startswith (s_arm slot) ''B'' then baseline render (sd_baseline sd) slot cmd ex
            else product render (sd_product sd) slot cmd ex) of
        Inr ev \<Rightarrow> Inr (ev, \<not> ev_absence ev \<and> (case ev_receipt_valid ev of Some v \<Rightarrow> v | None \<Rightarrow> ev_quality ev = []))
      | Inl e \<Rightarrow> if evidence_error e then Inr (failed_evidence ''missing/invalid evidence: '' e, False) else Inl e)"

text \<open>The collector's receipt time: two equal finite numbers, not before the command's end.\<close>

definition received_time :: "pv \<Rightarrow> pv \<Rightarrow> interval res" where
  "received_time seconds value =
     (case value of
        PList [a, b] \<Rightarrow>
          erequire (if is_num a \<and> is_num b then eand (eand (isfinite a) (isfinite b)) (eand (py_le seconds a) (Inr (py_eq a b)))
            else Inr False) ''invalid collector receipt time'' (Inr (a, b))
      | _ \<Rightarrow> Inl (ValueError ''invalid collector receipt time''))"

definition command_reasons :: "receipt option \<Rightarrow> pv list" where
  "command_reasons cmd = (case cmd of None \<Rightarrow> []
   | Some c \<Rightarrow> (if (case rc_error c of Some m \<Rightarrow> m \<noteq> [] | None \<Rightarrow> False) \<or> \<not> rc_started c \<or> \<not> rc_contained c
               then [PStr ''command spawn/containment failure''] else [])
       @ (if \<not> rc_finished c \<or> rc_interrupted c then [PStr ''command unfinished/interrupted''] else []))"

definition row_status :: "pv list \<Rightarrow> pv list \<Rightarrow> bool \<Rightarrow> string" where
  "row_status operational quality expired = (if operational \<noteq> [] then ''operational_failed'' else if quality \<noteq> [] then ''quality_failed''
     else if expired then ''budget_exhausted'' else ''complete'')"

text \<open>The receipt time of the evidence and the resource disclosure: each may add an operational reason.\<close>

definition receipt_time :: "receipt option \<Rightarrow> pv \<Rightarrow> interval option \<times> pv list" where
  "receipt_time cmd state = (case cmd of None \<Rightarrow> (None, [])
   | Some c \<Rightarrow> if \<not> has_key state ''evidence_received_seconds'' then (None, [])
       else (case received_time (rc_seconds c) (fld state ''evidence_received_seconds'') of
           Inr i \<Rightarrow> (Some i, []) | Inl _ \<Rightarrow> (None, [PStr ''invalid collector receipt time''])))"

definition resource_row :: "string \<Rightarrow> pv \<Rightarrow> (pv \<times> pv list) res" where
  "resource_row phase state =
     (if has_key state ''resources'' \<or> phase = ''measurement'' then
        (case resource_observations (fld state ''resources'') of
           Inr v \<Rightarrow> Inr (v, [])
         | Inl (ValueError m) \<Rightarrow> Inr (unavailable_resources ''resource observation missing/invalid; see sealed slot evidence'', [PStr m])
         | Inl e \<Rightarrow> Inl e)
      else Inr (unavailable_resources ''aggregate counters unavailable in feasibility collection'', []))"

definition finish_row :: "string \<Rightarrow> e5_slot \<Rightarrow> pv \<Rightarrow> pv list \<Rightarrow> bool \<Rightarrow> receipt option \<Rightarrow> bool \<Rightarrow> evidence \<Rightarrow> bool \<Rightarrow> row res" where
  "finish_row phase slot state lifecycle started cmd expired ev valid =
     (case receipt_time cmd state of (received, late) \<Rightarrow>
      ebind (resource_row phase state) (\<lambda>(resources, undisclosed).
      let operational = ev_operational ev @ lifecycle @ command_reasons cmd @ late @ undisclosed;
          usable = (if valid then received else None) in
      ebind (membership (ev_first ev) (s_cap slot)) (\<lambda>em. ebind (membership usable (s_cap slot)) (\<lambda>um.
      Inr \<lparr>rw_status = row_status operational (ev_quality ev) expired, rw_reasons = operational @ ev_quality ev,
        rw_started = started, rw_receipt = cmd, rw_expired = expired, rw_evidence = ev, rw_resources = resources,
        rw_cleanup = is_true state ''cleanup_proven'', rw_event_member = em, rw_received = usable, rw_received_member = um\<rparr>))))"

text \<open>A slot with a command receipt: an unreadable receipt and an unreadable evidence are operational reasons.\<close>

definition executed_row ::
  "(pv \<Rightarrow> string) \<Rightarrow> string \<Rightarrow> expected \<Rightarrow> slot_dir \<Rightarrow> e5_slot \<Rightarrow> pv \<Rightarrow> pv list \<Rightarrow> pv res \<Rightarrow> row res"
where
  "executed_row render phase ex sd slot state lifecycle raw =
     (case ebind raw command_receipt of
        Inl e \<Rightarrow> if evidence_error e
          then finish_row phase slot state lifecycle (case raw of Inr v \<Rightarrow> is_true v ''started'' | Inl _ \<Rightarrow> False) None False
            (failed_evidence ''missing/invalid command receipt: '' e) False
          else Inl e
      | Inr cmd \<Rightarrow>
          ebind (if rc_timeout cmd then Inr True else py_less (PInt (int (s_cap slot))) (rc_seconds cmd)) (\<lambda>expired.
          ebind (arm_evidence render sd slot cmd ex) (\<lambda>(ev, valid).
          finish_row phase slot state lifecycle (rc_started cmd) (Some cmd) expired ev valid)))"

definition reduce_slot ::
  "(string \<Rightarrow> bool) \<Rightarrow> (pv \<Rightarrow> string) \<Rightarrow> pv \<Rightarrow> string \<Rightarrow> expected \<Rightarrow> slot_dir option \<Rightarrow> e5_slot \<Rightarrow> row res"
where
  "reduce_slot address_ok render manifest phase ex dir slot =
     ebind (unsupported_declarations address_ok manifest) (\<lambda>declared.
     let unsupported = fld declared (workload_of slot @ ''/'' @ s_arm slot) in
     case dir of
       None \<Rightarrow> Inr (if truthy unsupported then blank_row ''unsupported'' [unsupported] else blank_row ''not_started'' [])
     | Some sd \<Rightarrow>
         require (sd_sealed sd) ''bundle checksum inventory differs'' (
         ebind (sd_state sd) (\<lambda>state.
         ebind (pgetn state ''slot'') (\<lambda>own. require (py_eq own (slot_doc slot)) ''slot identity differs'' (
         require (json_equal (fld state ''unsupported'') unsupported) ''unsupported slot declaration differs'' (
         ebind (lifecycle_reasons state) (\<lambda>lifecycle.
         if truthy (fld state ''unsupported'') then
           require (py_eq (fld state ''unsupported'') unsupported \<and> sd_command sd = None) ''unsupported slot was executed/unregistered''
             (Inr (blank_row ''unsupported'' (fld state ''unsupported'' # lifecycle)))
         else (case sd_command sd of
             None \<Rightarrow> Inr ((blank_row ''preparation_failed''
               (if truthy (fld state ''error'') then lifecycle else PStr ''preparation incomplete'' # lifecycle))
                 \<lparr>rw_cleanup := is_true state ''cleanup_proven''\<rparr>)
           | Some raw \<Rightarrow> executed_row render phase ex sd slot state lifecycle raw))))))))"

text \<open>\<open>detected_in_budget\<close>: the event and the usable evidence both lie in the budget.\<close>

definition detected_in_budget :: "e5_slot \<Rightarrow> row \<Rightarrow> bool res" where
  "detected_in_budget slot r =
     ebind (if startswith (s_arm slot) ''B'' then membership (ev_usable (rw_evidence r)) (s_cap slot) else Inr (rw_received_member r)) (\<lambda>usable.
     Inr (rw_event_member r = ''in_budget'' \<and> usable = ''in_budget''))"


section \<open>What a complete slot shows\<close>

lemma finish_row_complete:
  assumes "finish_row phase slot state lifecycle started cmd expired ev valid = Inr row" "rw_status row = ''complete''"
  shows "ev_operational ev = [] \<and> lifecycle = [] \<and> command_reasons cmd = [] \<and> ev_quality ev = [] \<and> \<not> expired \<and>
    rw_evidence row = ev \<and> rw_receipt row = cmd \<and> rw_reasons row = [] \<and> rw_cleanup row = is_true state ''cleanup_proven''"
proof -
  obtain received late where t: "receipt_time cmd state = (received, late)" by (cases "receipt_time cmd state")
  obtain v u where r: "resource_row phase state = Inr (v, u)"
    using assms(1) t by (auto simp: finish_row_def ebind_eq_Inr)
  show ?thesis using assms t r
    by (auto simp: finish_row_def ebind_eq_Inr Let_def row_status_def split: if_splits)
qed

lemma lifecycle_clean:
  "lifecycle_reasons state = Inr [] \<Longrightarrow> is_true state ''cleanup_proven'' \<and> \<not> truthy (fld state ''error'') \<and>
     \<not> truthy (fld state ''cleanup_error'') \<and> \<not> truthy (fld state ''interrupted'')"
  by (auto simp: lifecycle_reasons_def ebind_eq_Inr split: if_splits)

text \<open>
  C21. A slot is reported complete only on full evidence: its directory is sealed, its state names this slot
  and has no lifecycle failure, its allocation was cleaned up, its command started, finished, was contained
  and was neither interrupted nor stopped by the cap, and its evidence has no operational and no quality
  reason.
\<close>

theorem complete_slot_evidence:
  assumes "reduce_slot address_ok render manifest phase ex dir slot = Inr row" "rw_status row = ''complete''"
  shows "\<exists>sd state cmd. dir = Some sd \<and> sd_sealed sd \<and> sd_state sd = Inr state \<and> py_eq (fld state ''slot'') (slot_doc slot) \<and>
    lifecycle_reasons state = Inr [] \<and> rw_cleanup row \<and> rw_receipt row = Some cmd \<and>
    rc_started cmd \<and> rc_finished cmd \<and> rc_contained cmd \<and> \<not> rc_interrupted cmd \<and> \<not> rc_timeout cmd \<and>
    py_less (PInt (int (s_cap slot))) (rc_seconds cmd) = Inr False \<and>
    ev_operational (rw_evidence row) = [] \<and> ev_quality (rw_evidence row) = [] \<and> rw_reasons row = []"
proof -
  obtain sd where sd: "dir = Some sd"
    using assms by (auto simp: reduce_slot_def ebind_eq_Inr blank_row_def Let_def split: option.splits if_splits)
  obtain state own lifecycle raw where s: "sd_sealed sd" "sd_state sd = Inr state" "pgetn state ''slot'' = Inr own"
      "py_eq own (slot_doc slot)" "lifecycle_reasons state = Inr lifecycle" "sd_command sd = Some raw"
      "executed_row render phase ex sd slot state lifecycle raw = Inr row"
    using assms by (auto simp: sd reduce_slot_def ebind_eq_Inr blank_row_def Let_def split: option.splits if_splits)
  have own: "own = fld state ''slot''" using pgetn_fld [OF s(3)] by simp
  show ?thesis
  proof (cases "ebind raw command_receipt")
    case (Inl e)
    then have "ev_operational (failed_evidence ''missing/invalid command receipt: '' e) = []"
      using s(7) assms(2) finish_row_complete by (auto simp: executed_row_def split: if_splits)
    then show ?thesis by (simp add: failed_evidence_def no_evidence_def)
  next
    case (Inr cmd)
    obtain expired ev valid where f: "(if rc_timeout cmd then Inr True else py_less (PInt (int (s_cap slot))) (rc_seconds cmd)) = Inr expired"
        "finish_row phase slot state lifecycle (rc_started cmd) (Some cmd) expired ev valid = Inr row"
      using s(7) Inr by (auto simp: executed_row_def ebind_eq_Inr split: if_splits)
    note c = finish_row_complete [OF f(2) assms(2)]
    have "rc_started cmd \<and> rc_finished cmd \<and> rc_contained cmd \<and> \<not> rc_interrupted cmd"
      using c by (auto simp: command_reasons_def split: if_splits)
    moreover have "\<not> rc_timeout cmd" using f(1) c by (auto split: if_splits)
    moreover have "rw_cleanup row" using c lifecycle_clean s(5) by auto
    ultimately show ?thesis using sd s own c f(1) by auto
  qed
qed


text \<open>A complete B0 slot: only the fixture lifecycle is measured.\<close>

definition idle_slot :: e5_slot where
  "idle_slot = capped_slot\<lparr>s_arm := ''B0''\<rparr>"

definition idle_command :: pv where
  "idle_command = PDict [(''started'', PBool True), (''finished'', PBool True), (''interrupted'', PBool False), (''timeout'', PBool False),
     (''containment_proven'', PBool True), (''seconds'', PFloat (Fin 8)), (''exit'', PInt 0), (''error'', PNone)]"

definition idle_run :: pv where
  "idle_run = PDict [(''arm'', PStr ''B0''), (''variant'', PStr ''vulnerable''), (''environment'', PDict [(''image'', PStr ''mysql'')]),
     (''cleanup_proven'', PBool True), (''timings'', PDict [(''spans'', PList [sample_span ''command'' 1 0 0 8000000000])]),
     (''executions'', PInt 0), (''seed'', PInt 7)]"

definition idle_dir :: slot_dir where
  "idle_dir = \<lparr>sd_sealed = True, sd_state = Inr (PDict [(''slot'', slot_doc idle_slot), (''cleanup_proven'', PBool True)]),
     sd_command = Some (Inr idle_command), sd_baseline = \<lparr>bf_run = Some (Inr idle_run), bf_executions = [], bf_stream = None\<rparr>,
     sd_product = \<lparr>pf_runs = [], pf_any_run = False, pf_cleanup_warning = False\<rparr>\<rparr>"

lemma idle_receipt: "command_receipt idle_command = Inr \<lparr>rc_started = True, rc_finished = True, rc_interrupted = False, rc_timeout = False,
    rc_contained = True, rc_seconds = PFloat (Fin 8), rc_exit = Some 0, rc_error = None, rc_clock = None\<rparr>"
  by (simp add: command_receipt_def idle_command_def receipt_flag_def isfinite_def to_float_def is_finite_def py_le_def fld_def)

lemma idle_stages: "stages (PList [sample_span ''command'' 1 0 0 8000000000]) (PFloat (Fin 8)) False =
    Inr (Stages [(PStr ''command'', [PFloat (Fin 8)])] (PFloat (Fin 0)) (PFloat (Fin 8)))"
proof -
  have names: "getitem (sample_span n i p a d) ''name'' = Inr (PStr n)" for n i p a d
    by (simp add: sample_span_def)
  have z: "seconds_of_ns 0 = Inr (PFloat (Fin 0))"
    by (simp add: seconds_of_ns_def py_div_def int_like_def to_float_def to_flt_0)
  have sub: "py_sub (PFloat (Fin 8)) (PFloat (Fin 0)) = Inr (PFloat (Fin 8))"
    by (simp add: py_sub_def num_op_def int_like_def to_float_def flt_sub_def to_flt_numeral)
  show ?thesis
    by (simp add: stages_def isfinite_def to_float_def is_finite_def py_le_def names read_sample_span z
        is_command_def sample_seconds span_step_def sp_end_def structural_names_def hashable_def sort_pairs_def sub)
qed

lemma idle_baseline: "\<exists>ev. baseline (\<lambda>_. []) (sd_baseline idle_dir) idle_slot \<lparr>rc_started = True, rc_finished = True, rc_interrupted = False,
      rc_timeout = False, rc_contained = True, rc_seconds = PFloat (Fin 8), rc_exit = Some 0, rc_error = None, rc_clock = None\<rparr>
      capped_expected = Inr ev \<and> ev_operational ev = [] \<and> ev_quality ev = [] \<and> ev_first ev = None"
  by (simp add: baseline_def baseline_run_def idle_dir_def idle_run_def idle_slot_def capped_slot_def idle_stages variant_of_def
      capped_expected_def baseline_none_def baseline_start_def baseline_cap_killed_def Let_def no_evidence_def fld_def is_true_def
      fail_if_def ebind_eq_Inr)

lemma idle_slot_complete:
  "\<exists>row. reduce_slot (\<lambda>_. False) (\<lambda>_. []) (PDict []) ''feasibility'' capped_expected (Some idle_dir) idle_slot = Inr row \<and>
     rw_status row = ''complete''"
proof -
  obtain ev where ev: "arm_evidence (\<lambda>_. []) idle_dir idle_slot \<lparr>rc_started = True, rc_finished = True, rc_interrupted = False,
      rc_timeout = False, rc_contained = True, rc_seconds = PFloat (Fin 8), rc_exit = Some 0, rc_error = None, rc_clock = None\<rparr>
      capped_expected = Inr ev" "ev_operational (fst ev) = []" "ev_quality (fst ev) = []" "ev_first (fst ev) = None"
  proof -
    have "startswith (s_arm idle_slot) ''B''" by (simp add: idle_slot_def startswith_def)
    then show ?thesis using idle_baseline that by (auto simp: arm_evidence_def)
  qed
  have cap: "s_cap idle_slot = 60" by (simp add: idle_slot_def capped_slot_def)
  have less: "py_less (PInt 60) (PFloat (Fin 8)) = Inr False"
    by (simp add: py_less_def)
  have same: "py_eq (slot_doc idle_slot) (slot_doc idle_slot)"
    by (simp add: slot_doc_def idle_slot_def capped_slot_def)
  show ?thesis using ev cap less same
    by (cases ev) (simp add: reduce_slot_def unsupported_declarations_def mget_def idle_dir_def executed_row_def idle_receipt
        lifecycle_reasons_def is_true_def fld_def finish_row_def receipt_time_def resource_row_def command_reasons_def row_status_def
        membership_def)
qed

lemma complete_slot_evidence_witness:
  "\<exists>row. reduce_slot (\<lambda>_. False) (\<lambda>_. []) (PDict []) ''feasibility'' capped_expected (Some idle_dir) idle_slot = Inr row \<and>
     rw_cleanup row \<and> rw_reasons row = []"
  using idle_slot_complete complete_slot_evidence by blast


section \<open>What a stable confirmation shows\<close>

lemma note_stable [simp]:
  "ev_stable (note_if c m ev) = ev_stable ev" "ev_stable (fail_if c m ev) = ev_stable ev"
  "ev_stable (add_quality m ev) = ev_stable ev" "ev_stable (add_operational x ev) = ev_stable ev"
  by (simp_all add: note_if_def fail_if_def add_quality_def add_operational_def)

lemma fold_note_stable: "ev_stable (fold (\<lambda>x. note_if (P x) m) xs ev) = ev_stable ev"
  by (induction xs arbitrary: ev) simp_all

lemma execution_checks_stable: "ev_stable (execution_checks ex d cmd saved domain spans ev) = ev_stable ev"
  by (simp add: execution_checks_def Let_def fold_note_stable)

lemma exhausted_checks_stable: "ev_stable (exhausted_checks ex d cmd violations ev) = ev_stable ev"
  by (simp add: exhausted_checks_def Let_def)

lemma confirmation_checks_stable:
  "confirmation_checks slot repeat d cmd saved domain spans ev = Inr ev' \<Longrightarrow> ev_stable ev' \<Longrightarrow> truthy saved \<Longrightarrow>
     ev_stable ev \<and> length (replayed spans) = repeat \<and> list_all (\<lambda>s. py_eq (sp_schedule s) (fld saved ''id'')) (replayed spans)"
  by (auto simp: confirmation_checks_def Let_def ebind_eq_Inr list_ex_iff list_all_iff split: if_splits)

lemma confirmation_checks_unstable:
  "confirmation_checks slot repeat d cmd saved domain spans ev = Inr ev' \<Longrightarrow> ev_stable ev' \<Longrightarrow> ev_stable ev"
  by (auto simp: confirmation_checks_def Let_def ebind_eq_Inr split: if_splits)

lemma discovery_checks_stable:
  "discovery_checks d cmd saved domain spans ev = Inr ev' \<Longrightarrow> ev_stable ev' \<Longrightarrow>
     ev_stable ev \<and> fld (po d) ''discovery_fingerprint'' \<in> PStr ` set (keys (fld (po d) ''fingerprints''))"
  by (auto simp: discovery_checks_def Let_def ebind_eq_Inr split: if_splits)

lemma saved_checks_stable:
  assumes "saved_checks render slot ex d saved violations domain ps = Inr ps'" "ev_stable (ps_ev ps')"
  shows "list_ex (\<lambda>c. py_eq c saved) (ex_candidates ex) \<and> is_stable d (ex_counts ex ''T-R'') \<and> domain \<and>
    ocount d ''violation_runs'' = int (ex_counts ex ''T-R'') \<and> s_arm slot = ''T-E'' \<and> (\<exists>t. validate_trace (ptr d) saved slot = Inr t)"
proof -
  obtain ev ev' trace_valid where t: "trace_checks slot d saved ev = Inr (ev', trace_valid)"
    and st: "list_ex (\<lambda>c. py_eq c saved) (ex_candidates ex) \<and> is_stable d (ex_counts ex ''T-R'') \<and> trace_valid \<and> domain \<and>
      ocount d ''violation_runs'' = int (ex_counts ex ''T-R'') \<and> s_arm slot = ''T-E''"
    using assms by (auto simp: saved_checks_def Let_def ebind_eq_Inr split: if_splits)
  have "\<exists>t. validate_trace (ptr d) saved slot = Inr t"
    using t st by (auto simp: trace_checks_def split: sum.splits exn.splits)
  then show ?thesis using st by simp
qed



lemma product_outcome_stable:
  assumes "product_outcome render slot cmd ex d spans violations domain ev = Inr ev'" "ev_stable ev'" "\<not> ev_stable ev"
  shows "s_arm slot = ''T-E'' \<and> ev_quality ev' = [] \<and> domain \<and> is_stable d (ex_counts ex ''T-R'') \<and>
    ocount d ''violation_runs'' = int (ex_counts ex ''T-R'') \<and>
    list_ex (\<lambda>c. py_eq c (fld (psc d) ''schedule'')) (ex_candidates ex) \<and>
    (\<exists>t. validate_trace (ptr d) (fld (psc d) ''schedule'') slot = Inr t) \<and>
    fld (po d) ''discovery_fingerprint'' \<in> PStr ` set (keys (fld (po d) ''fingerprints'')) \<and>
    length (replayed spans) = ex_counts ex ''T-R'' \<and>
    list_all (\<lambda>s. py_eq (sp_schedule s) (fld (fld (psc d) ''schedule'') ''id'')) (replayed spans)"
proof -
  let ?saved = "fld (psc d) ''schedule''"
  let ?ps0 = "outcome_start slot cmd ex d domain ev"
  have start: "\<not> ev_stable (ps_ev ?ps0)" using assms(3) by (simp add: outcome_start_def Let_def)
  obtain ps ev1 ev2 where ps: "schedule_outcome render slot cmd ex d violations domain ?ps0 = Inr ps"
      "confirmation_checks slot (ex_counts ex ''T-R'') d cmd ?saved domain spans
         (execution_checks ex d cmd (truthy ?saved) domain spans (ps_ev ps)) = Inr ev1"
      "(if s_arm slot = ''T-E'' \<and> truthy ?saved then discovery_checks d cmd ?saved domain spans ev1 else Inr ev1) = Inr ev2"
      "ev' = close_product slot (ps_outcome ps) ev2"
    using assms(1) unfolding product_outcome_def Let_def by (elim ebindE) (simp only: sum.inject)
  have q: "ev_stable ev2" "ev_quality ev' = []" using assms(2) by (auto simp: ps(4) close_product_def Let_def)
  have e1: "ev_stable ev1" using ps(3) q(1) discovery_checks_stable by (auto split: if_splits)
  then have "ev_stable (ps_ev ps)" using confirmation_checks_unstable [OF ps(2)] by (simp add: execution_checks_stable)
  then have saved: "truthy ?saved" using ps(1) start by (auto simp: schedule_outcome_def Let_def exhausted_checks_stable split: if_splits)
  then have s: "saved_checks render slot ex d ?saved violations domain ?ps0 = Inr ps" using ps(1) by (simp add: schedule_outcome_def)
  note r = saved_checks_stable [OF s \<open>ev_stable (ps_ev ps)\<close>]
  have "discovery_checks d cmd ?saved domain spans ev1 = Inr ev2" using ps(3) r saved by simp
  note f = discovery_checks_stable [OF this q(1)]
  show ?thesis using r f q(2) confirmation_checks_stable [OF ps(2) e1 saved] by auto
qed

lemma stages_nonempty: "stages value seconds False = Inr st \<Longrightarrow> value \<noteq> PList []"
  by (auto simp: stages_def ebind_eq_Inr)

text \<open>
  C10. A stable confirmation is never claimed without its evidence: it is an exploration (\<open>T-E\<close>) with one
  original run, its schedule is a registered candidate whose trace is valid, every confirmation replayed
  that schedule and violated the domain assertion with one and the same fingerprint, the fingerprint of
  the discovery is among the confirmed ones, and nothing in the evidence was of doubtful quality.
\<close>

theorem stable_confirmation:
  assumes "product render pf slot cmd ex = Inr ev" "ev_stable ev"
  shows "\<exists>r d spans. pf_runs pf = [r] \<and> product_docs r = Inr d \<and> s_arm slot = ''T-E'' \<and> ev_quality ev = [] \<and>
    is_stable d (ex_counts ex ''T-R'') \<and> ocount d ''violation_runs'' = int (ex_counts ex ''T-R'') \<and>
    list_ex (\<lambda>c. py_eq c (fld (psc d) ''schedule'')) (ex_candidates ex) \<and>
    (\<exists>t. validate_trace (ptr d) (fld (psc d) ''schedule'') slot = Inr t) \<and>
    fld (po d) ''discovery_fingerprint'' \<in> PStr ` set (keys (fld (po d) ''fingerprints'')) \<and>
    ebind (py_iter (fld (fld (pm d) ''timings'') ''spans'')) (emap read_span) = Inr spans \<and>
    length (replayed spans) = ex_counts ex ''T-R'' \<and>
    list_all (\<lambda>s. py_eq (sp_schedule s) (fld (fld (psc d) ''schedule'') ''id'')) (replayed spans)"
proof -
  have present: "\<not> product_absent pf cmd" using assms by (auto simp: product_def no_evidence_def)
  then obtain r where r: "pf_runs pf = [r]" using assms(1) by (auto simp: product_def split: list.splits)
  obtain d where d: "product_docs r = Inr d" "product_evidence render slot cmd ex d = Inr ev"
    using assms(1) present r by (auto simp: product_def ebind_eq_Inr)
  obtain selected failed timings raw elements spans st violations domain other where v:
      "pget (pm d) ''timings'' (PDict []) = Inr timings" "pget timings ''spans'' (PList []) = Inr raw"
      "py_iter raw = Inr elements" "emap read_span elements = Inr spans" "stages raw (rc_seconds cmd) False = Inr st"
      "product_outcome render slot cmd ex d spans violations domain (product_start d selected failed st other) = Inr ev"
    using d(2) unfolding product_evidence_def by (elim ebindE) (rule that; assumption)
  have "\<not> ev_stable (product_start d selected failed st other)" by (simp add: product_start_def Let_def no_evidence_def)
  note s = product_outcome_stable [OF v(6) assms(2) this]
  have "raw \<noteq> PList []" using stages_nonempty [OF v(5)] .
  then have "raw = fld (fld (pm d) ''timings'') ''spans''"
    using v(1,2) by (auto simp: pget_def fld_def split: pv.splits option.splits)
  then show ?thesis using r d(1) s v(3,4) by auto
qed


text \<open>A stable confirmation: one explored execution, one replay, the same fingerprint.\<close>

definition sample_schedule :: pv where
  "sample_schedule = PDict [(''id'', PStr ''sch''), (''steps'', PList [PDict [(''worker'', PStr ''w1''), (''point'', PStr ''p'')],
     PDict [(''worker'', PStr ''w2''), (''point'', PStr ''q'')]])]"

definition sample_terminal :: "string \<Rightarrow> pv" where
  "sample_terminal w = PDict [(''worker'', PStr w), (''state'', PStr ''done''), (''failure_class'', PStr ''none'')]"

definition sample_release :: "int \<Rightarrow> string \<Rightarrow> string \<Rightarrow> pv" where
  "sample_release n w p = PDict [(''seq'', PInt n), (''kind'', PStr ''point_released''), (''worker'', PStr w), (''point'', PStr p),
     (''step'', PInt (n - 1))]"

definition sample_trace :: pv where
  "sample_trace = PDict [(''schedule_ref'', PStr ''sch''), (''terminals'', PList [sample_terminal ''w1'', sample_terminal ''w2'']),
     (''events'', PList [sample_release 1 ''w1'' ''p'', sample_release 2 ''w2'' ''q''])]"

definition timed :: "string \<Rightarrow> int \<Rightarrow> int \<Rightarrow> int \<Rightarrow> pv \<Rightarrow> span" where
  "timed n i p d s = \<lparr>sp_name = PStr n, sp_id = i, sp_parent = p, sp_start = 0, sp_dur = d, sp_schedule = s\<rparr>"

definition timed_doc :: "string \<Rightarrow> int \<Rightarrow> int \<Rightarrow> int \<Rightarrow> pv \<Rightarrow> pv" where
  "timed_doc n i p d s = PDict [(''name'', PStr n), (''id'', PInt i), (''parent_id'', PInt p), (''start_ns'', PInt 0),
     (''duration_ns'', PInt d), (''schedule_id'', s)]"

definition confirmed_timings :: "(string \<times> int \<times> int \<times> int \<times> pv) list" where
  "confirmed_timings = [(''command'', 1, 0, 8000000000, PNone), (''explore_pass'', 2, 1, 0, PNone), (''schedule_run'', 3, 2, 0, PStr ''sch''),
     (''fixture_reset'', 4, 3, 0, PNone), (''adapter_create'', 5, 3, 0, PNone), (''adapter_start'', 6, 3, 0, PNone),
     (''schedule_execute'', 7, 3, 0, PNone), (''oracle_evaluate'', 8, 3, 0, PNone), (''adapter_stop'', 9, 3, 0, PNone),
     (''replay'', 10, 1, 0, PNone), (''schedule_run'', 11, 10, 0, PStr ''sch''),
     (''fixture_reset'', 12, 11, 0, PNone), (''adapter_create'', 13, 11, 0, PNone), (''adapter_start'', 14, 11, 0, PNone),
     (''schedule_execute'', 15, 11, 0, PNone), (''oracle_evaluate'', 16, 11, 0, PNone), (''adapter_stop'', 17, 11, 0, PNone)]"

definition confirmed_spans :: "span list" where
  "confirmed_spans = map (\<lambda>(n, i, p, d, s). timed n i p d s) confirmed_timings"

definition confirmed_docs :: "pv list" where
  "confirmed_docs = map (\<lambda>(n, i, p, d, s). timed_doc n i p d s) confirmed_timings"

definition confirmed_manifest :: pv where
  "confirmed_manifest = PDict [(''variant'', PStr ''vulnerable''), (''adapter'', PStr ''external''), (''image'', PStr ''mysql''),
     (''sut_sha256'', PStr ''sha256:jar''), (''isolation_level'', PStr ''REPEATABLE-READ''), (''cleanup_failed'', PBool False),
     (''timings'', PDict [(''spans'', PList confirmed_docs)])]"

definition sample_fingerprint :: string where
  "sample_fingerprint = replicate 64 CHR ''a''"

definition confirmed_observation :: pv where
  "confirmed_observation = PDict [(''repeat'', PInt 1), (''violation_runs'', PInt 1), (''schedules_explored'', PInt 1),
     (''explore_passes'', PInt 1), (''flaky'', PBool False), (''fingerprints'', PDict [(sample_fingerprint, PInt 1)]),
     (''mode'', PStr ''explore''), (''oracles'', PList []), (''discovery_fingerprint'', PStr sample_fingerprint),
     (''assertion_violations'', PList [PDict [(''oracle_id'', PStr ''active-assignment-is-unique''),
        (''rows'', PList [PDict [(''n'', PStr ''2'')]])]])]"

definition confirmed_scenario :: pv where
  "confirmed_scenario = PDict [(''schedule'', sample_schedule)]"

definition confirmed_run :: product_run where
  "confirmed_run = \<lparr>pd_manifest = Inr confirmed_manifest, pd_observation = Inr confirmed_observation,
     pd_scenario = Inr confirmed_scenario, pd_trace = Inr sample_trace,
     pd_merged = Inr (PDict [(''manifest'', confirmed_manifest), (''scenario'', confirmed_scenario), (''observation'', confirmed_observation)]),
     pd_report = True\<rparr>"

definition confirmed_slot :: e5_slot where
  "confirmed_slot = capped_slot\<lparr>s_arm := ''T-E''\<rparr>"

definition confirmed_expected :: expected where
  "confirmed_expected = \<lparr>ex_db = PStr ''mysql'', ex_assertions = [], ex_counts = (\<lambda>_. 1), ex_rows = PList [PDict [(''n'', PStr ''2'')]],
     ex_candidates = [sample_schedule], ex_jar = ''jar'', ex_passes = 3\<rparr>"

definition confirmed_command :: receipt where
  "confirmed_command = capped_command\<lparr>rc_timeout := False, rc_exit := Some 2\<rparr>"

lemma sample_trace_valid: "validate_trace sample_trace sample_schedule confirmed_slot = Inr (0, 0)"
  by (simp add: validate_trace_def sample_trace_def sample_schedule_def sample_terminal_def sample_release_def terminal_ok_def
      kind_in_def resolved_kinds_def step_of_event_def count_kind_def fld_def)


definition confirmed_pd :: product_docs where
  "confirmed_pd = \<lparr>pm = confirmed_manifest, po = confirmed_observation, psc = confirmed_scenario, ptr = sample_trace\<rparr>"

lemma sample_hex: "hex_string 64 sample_fingerprint"
  by (simp add: hex_string_def sample_fingerprint_def is_hex_def list_all_iff)

lemma confirmed_docs_read: "product_docs confirmed_run = Inr confirmed_pd"
proof -
  have "py_eq confirmed_manifest confirmed_manifest" "py_eq confirmed_scenario confirmed_scenario"
      "py_eq confirmed_observation confirmed_observation"
    by (simp_all add: confirmed_manifest_def confirmed_docs_def confirmed_timings_def timed_doc_def confirmed_scenario_def
        sample_schedule_def confirmed_observation_def num_eq_def int_like_def)
  then show ?thesis
    by (simp add: product_docs_def confirmed_run_def confirmed_pd_def)
      (simp add: confirmed_observation_def count_names_def clock_int_def fld_def fingerprints_ok_def sample_hex)
qed

lemma confirmed_identity: "product_identity confirmed_slot confirmed_expected confirmed_pd = Inr ()"
  by (simp add: product_identity_def confirmed_pd_def confirmed_manifest_def confirmed_observation_def confirmed_slot_def
      confirmed_expected_def capped_slot_def variant_of_def mode_of_def fld_def)

lemma confirmed_read: "emap read_span confirmed_docs = Inr confirmed_spans"
proof -
  have "read_span (timed_doc n i p d s) = Inr (timed n i p d s)" if "0 \<le> i" "0 \<le> p" "0 \<le> d" for n i p d s
    using that by (simp add: read_span_def timed_doc_def timed_def clock_int_def fld_def)
  then show ?thesis by (simp add: confirmed_docs_def confirmed_spans_def confirmed_timings_def)
qed

lemma confirmed_stages: "\<exists>st. stages (PList confirmed_docs) (PFloat (Fin 8)) False = Inr st"
proof -
  have names: "getitem (timed_doc n i p d s) ''name'' = Inr (PStr n)" for n i p d s
    by (simp add: timed_doc_def)
  have all_names: "emap (\<lambda>v. getitem v ''name'') confirmed_docs = Inr (map (PStr \<circ> fst) confirmed_timings)"
    by (simp add: confirmed_docs_def confirmed_timings_def names)
  have z: "seconds_of_ns 0 = Inr (PFloat (Fin 0))"
    by (simp add: seconds_of_ns_def py_div_def int_like_def to_float_def to_flt_0)
  have sub: "py_sub (PFloat (Fin 8)) (PFloat (Fin 0)) = Inr (PFloat (Fin 8))"
    by (simp add: py_sub_def num_op_def int_like_def to_float_def flt_sub_def to_flt_numeral)
  have root: "hd (filter is_command confirmed_spans) = timed ''command'' 1 0 8000000000 PNone"
    by (simp add: confirmed_spans_def confirmed_timings_def is_command_def timed_def)
  have one: "length (filter ((\<lambda>n. n = PStr ''command'') \<circ> (PStr \<circ> fst)) confirmed_timings) = Suc 0"
    by (simp add: confirmed_timings_def)
  have "\<exists>totals. efold (span_step confirmed_spans 0 8000000000) (enumerate 0 confirmed_spans) ([], []) =
      Inr (totals, replicate 12 (0, 0))"
    by (simp add: confirmed_spans_def confirmed_timings_def timed_def span_step_def sp_end_def z sample_seconds structural_names_def
        hashable_def numeral_eq_Suc)
  then obtain totals where fold: "efold (span_step confirmed_spans 0 8000000000) (enumerate 0 confirmed_spans) ([], []) =
      Inr (totals, replicate 12 (0, 0))" by blast
  have sw: "sweep (sort_pairs (replicate 12 (0, 0))) 0 0 = 0"
    by (simp add: sort_pairs_def numeral_eq_Suc)
  show ?thesis
    using fold by (simp add: stages_def isfinite_def to_float_def is_finite_def py_le_def all_names one confirmed_read root
      sample_seconds sw z sub) (simp add: timed_def sp_end_def sample_seconds py_le_def sw z sub)
qed


lemma confirmed_domain:
  "domain_violated ''active-assignment-is-unique'' [PDict [(''oracle_id'', PStr ''active-assignment-is-unique''), (''rows'', PList [PDict [(''n'', PStr ''2'')]])]] = Inr True"
  "other_violated ''active-assignment-is-unique'' [PDict [(''oracle_id'', PStr ''active-assignment-is-unique''), (''rows'', PList [PDict [(''n'', PStr ''2'')]])]] = Inr False"
  "domain_rows_match (\<lambda>_. []) [PDict [(''oracle_id'', PStr ''active-assignment-is-unique''), (''rows'', PList [PDict [(''n'', PStr ''2'')]])]]
     ''active-assignment-is-unique'' confirmed_expected = Inr True"
  by (simp_all add: domain_violated_def other_violated_def domain_rows_match_def econcat_def row_texts_def py_items_def py_str_def confirmed_expected_def)

lemma confirmed_workload: "assertion_of (workload_of confirmed_slot) = ''active-assignment-is-unique''" "variant_of confirmed_slot = ''vulnerable''"
    "s_arm confirmed_slot = ''T-E''" "s_cap confirmed_slot = 60"
  by (simp_all add: assertion_of_def workload_of_def variant_of_def confirmed_slot_def capped_slot_def)

lemma confirmed_counts: "ocount confirmed_pd ''repeat'' = 1" "ocount confirmed_pd ''violation_runs'' = 1"
    "ocount confirmed_pd ''schedules_explored'' = 1" "ocount confirmed_pd ''explore_passes'' = 1"
    "\<not> is_true (po confirmed_pd) ''flaky''" "fld (po confirmed_pd) ''discovery_fingerprint'' = PStr sample_fingerprint"
    "fld (po confirmed_pd) ''fingerprints'' = PDict [(sample_fingerprint, PInt 1)]" "fld (psc confirmed_pd) ''schedule'' = sample_schedule"
    "ptr confirmed_pd = sample_trace" "fld sample_schedule ''id'' = PStr ''sch''" "truthy sample_schedule"
  by (simp_all add: ocount_def confirmed_pd_def confirmed_observation_def fld_def is_true_def confirmed_scenario_def sample_schedule_def)

lemma confirmed_stable: "is_stable confirmed_pd (Suc 0)"
  by (simp add: is_stable_def confirmed_counts fingerprint_values_def)

lemma fingerprint_nonempty: "sample_fingerprint \<noteq> []"
  by (simp add: sample_fingerprint_def)

lemma confirmed_saved:
  assumes "ev_quality (ps_ev ps) = []" "ps_outcome ps = []"
  shows "\<exists>ps'. saved_checks (\<lambda>_. []) confirmed_slot confirmed_expected confirmed_pd sample_schedule
     [PDict [(''oracle_id'', PStr ''active-assignment-is-unique''), (''rows'', PList [PDict [(''n'', PStr ''2'')]])]] True ps = Inr ps' \<and>
     ev_quality (ps_ev ps') = [] \<and> ps_outcome ps' = [] \<and> ev_stable (ps_ev ps')"
proof -
  have "list_ex (\<lambda>c. py_eq c sample_schedule) (ex_candidates confirmed_expected)"
    by (simp add: confirmed_expected_def sample_schedule_def)
  moreover have "ex_counts confirmed_expected ''T-R'' = 1" "ex_passes confirmed_expected = 3" by (simp_all add: confirmed_expected_def)
  ultimately show ?thesis using assms
    by (simp add: saved_checks_def Let_def schedule_checks_def trace_checks_def outcome_checks_def confirmed_workload confirmed_counts
        confirmed_stable confirmed_domain sample_trace_valid note_if_def fingerprint_nonempty)
qed

lemmas spans_simps = confirmed_spans_def confirmed_timings_def timed_def named_def children_def

lemma confirmed_named: "named ''schedule_run'' confirmed_spans = [timed ''schedule_run'' 3 2 0 (PStr ''sch''), timed ''schedule_run'' 11 10 0 (PStr ''sch'')]"
    "named ''explore_pass'' confirmed_spans = [timed ''explore_pass'' 2 1 0 PNone]"
    "named ''command'' confirmed_spans = [timed ''command'' 1 0 8000000000 PNone]"
    "named ''oracle_evaluate'' confirmed_spans = [timed ''oracle_evaluate'' 8 3 0 PNone, timed ''oracle_evaluate'' 16 11 0 PNone]"
  by (simp_all add: spans_simps)

lemma confirmed_children:
  "map sp_name (children (timed ''schedule_run'' 3 2 0 (PStr ''sch'')) confirmed_spans) = map PStr stage_names"
  "map sp_name (children (timed ''schedule_run'' 11 10 0 (PStr ''sch'')) confirmed_spans) = map PStr stage_names"
  by (simp_all add: spans_simps stage_names_def)

lemma named_length: "length (named n spans) = length (filter ((=) (PStr n)) (map sp_name spans))"
  unfolding named_def by (induction spans) auto

lemma confirmed_parents: "parent_name (timed ''schedule_run'' 3 2 0 s) confirmed_spans = PStr ''explore_pass''"
    "parent_name (timed ''schedule_run'' 11 10 0 s) confirmed_spans = PStr ''replay''"
  by (simp_all add: spans_simps parent_name_def)

lemma confirmed_stage_counts:
  "n \<in> set stage_names \<Longrightarrow> length (named n (children (timed ''schedule_run'' 3 2 0 (PStr ''sch'')) confirmed_spans)) = 1"
  "n \<in> set stage_names \<Longrightarrow> length (named n (children (timed ''schedule_run'' 11 10 0 (PStr ''sch'')) confirmed_spans)) = 1"
  unfolding named_length confirmed_children by (auto simp: stage_names_def)

lemma confirmed_visited: "visited_ok confirmed_expected True confirmed_spans [timed ''explore_pass'' 2 1 0 PNone] (0, timed ''explore_pass'' 2 1 0 PNone)"
  by (simp add: visited_ok_def Let_def children_def confirmed_named) (simp add: timed_def candidate_ids_def confirmed_expected_def confirmed_counts)

lemma confirmed_executions:
  "ev_quality ev = [] \<Longrightarrow> ev_quality (execution_checks confirmed_expected confirmed_pd confirmed_command True True confirmed_spans ev) = []"
  using confirmed_stage_counts confirmed_visited
  by (auto simp: execution_checks_def Let_def confirmed_counts confirmed_command_def confirmed_named note_if_def)


lemma confirmed_outcome:
  assumes "ev_quality ev = []" "ev_first ev = None"
  shows "\<exists>ev'. product_outcome (\<lambda>_. []) confirmed_slot confirmed_command confirmed_expected confirmed_pd confirmed_spans
     [PDict [(''oracle_id'', PStr ''active-assignment-is-unique''), (''rows'', PList [PDict [(''n'', PStr ''2'')]])]] True ev = Inr ev' \<and> ev_stable ev'"
proof -
  let ?vs = "[PDict [(''oracle_id'', PStr ''active-assignment-is-unique''), (''rows'', PList [PDict [(''n'', PStr ''2'')]])]]"
  let ?ps0 = "outcome_start confirmed_slot confirmed_command confirmed_expected confirmed_pd True ev"
  have "ev_quality (ps_ev ?ps0) = []" "ps_outcome ?ps0 = []"
    using assms by (simp_all add: outcome_start_def Let_def note_if_def fail_if_def confirmed_counts confirmed_command_def confirmed_workload)
  from confirmed_saved [OF this] obtain ps where ps: "schedule_outcome (\<lambda>_. []) confirmed_slot confirmed_command confirmed_expected
      confirmed_pd ?vs True ?ps0 = Inr ps" "ev_quality (ps_ev ps) = []" "ps_outcome ps = []" "ev_stable (ps_ev ps)"
    by (auto simp: schedule_outcome_def Let_def confirmed_counts)
  let ?e1 = "execution_checks confirmed_expected confirmed_pd confirmed_command True True confirmed_spans (ps_ev ps)"
  have e1: "ev_quality ?e1 = []" "ev_stable ?e1" using confirmed_executions [OF ps(2)] ps(4) by (simp_all add: execution_checks_stable)
  have one: "ex_counts confirmed_expected ''T-R'' = 1" by (simp add: confirmed_expected_def)
  have e2: "confirmation_checks confirmed_slot 1 confirmed_pd confirmed_command sample_schedule True confirmed_spans ?e1 = Inr ?e1"
    by (simp add: confirmation_checks_def Let_def replayed_def confirmed_named confirmed_parents confirmed_counts confirmed_workload)
      (simp add: timed_def)
  have z: "seconds_of_ns 0 = Inr (PFloat (Fin 0))"
    by (simp add: seconds_of_ns_def py_div_def int_like_def to_float_def to_flt_0)
  have eb: "event_bound confirmed_spans (timed ''schedule_run'' 3 2 0 (PStr ''sch'')) (PFloat (Fin 8)) prev =
      Inr (Some (PFloat (Fin 0), PFloat (Fin 0)))" for prev
    by (simp add: event_bound_def confirmed_named)
      (simp add: timed_def sp_end_def z sample_seconds bound_def py_le_def py_add_def py_sub_def num_op_def int_like_def to_float_def
        flt_sub_def to_flt_numeral to_flt_0)
  have seconds: "rc_seconds confirmed_command = PFloat (Fin 8)" by (simp add: confirmed_command_def capped_command_def)
  have e3: "\<exists>f. discovery_checks confirmed_pd confirmed_command sample_schedule True confirmed_spans ?e1 =
      Inr (?e1\<lparr>ev_stable := True, ev_first := f\<rparr>)"
    using e1 eb by (simp add: discovery_checks_def Let_def confirmed_named confirmed_parents confirmed_counts hashable_def note_if_def seconds
        fingerprint_nonempty) (auto simp: timed_def)
  show ?thesis using ps e1 e2 e3
    by (auto simp: product_outcome_def Let_def confirmed_counts one confirmed_workload close_product_def)
qed

lemma confirmed_product:
  "\<exists>ev. product (\<lambda>_. []) \<lparr>pf_runs = [confirmed_run], pf_any_run = True, pf_cleanup_warning = False\<rparr> confirmed_slot confirmed_command
     confirmed_expected = Inr ev \<and> ev_stable ev"
proof -
  let ?vs = "[PDict [(''oracle_id'', PStr ''active-assignment-is-unique''), (''rows'', PList [PDict [(''n'', PStr ''2'')]])]]"
  obtain st where st: "stages (PList confirmed_docs) (PFloat (Fin 8)) False = Inr st" using confirmed_stages by blast
  have "ev_quality (product_start confirmed_pd (PStr ''sch'') (PBool False) st False) = []" "ev_first (product_start confirmed_pd (PStr ''sch'') (PBool False) st False) = None"
    by (simp_all add: product_start_def Let_def no_evidence_def note_if_def fail_if_def)
  from confirmed_outcome [OF this] obtain ev where ev: "product_outcome (\<lambda>_. []) confirmed_slot confirmed_command confirmed_expected
      confirmed_pd confirmed_spans ?vs True (product_start confirmed_pd (PStr ''sch'') (PBool False) st False) = Inr ev" "ev_stable ev" by blast
  have "product_evidence (\<lambda>_. []) confirmed_slot confirmed_command confirmed_expected confirmed_pd =
      product_outcome (\<lambda>_. []) confirmed_slot confirmed_command confirmed_expected confirmed_pd confirmed_spans ?vs True
        (product_start confirmed_pd (PStr ''sch'') (PBool False) st False)"
    using st confirmed_read confirmed_domain confirmed_workload confirmed_identity
    by (simp add: product_evidence_def confirmed_command_def capped_command_def)
      (simp add: confirmed_pd_def confirmed_manifest_def confirmed_observation_def confirmed_scenario_def sample_schedule_def pget_def)
  then show ?thesis using ev confirmed_docs_read by (simp add: product_def product_absent_def)
qed

lemma stable_confirmation_witness:
  "\<exists>ev. product (\<lambda>_. []) \<lparr>pf_runs = [confirmed_run], pf_any_run = True, pf_cleanup_warning = False\<rparr> confirmed_slot confirmed_command
     confirmed_expected = Inr ev \<and> ev_stable ev \<and> ev_quality ev = []"
  using confirmed_product stable_confirmation by blast

end
