(* ===== verification/Plan.thy ===== *)
theory Plan
  imports Frames
begin

text \<open>
  \<open>experiments/gate-performance/harness/plan.py\<close>: validation of a frozen campaign manifest before a
  slot may be consumed, with \<open>validate_inventory\<close> of \<open>harness/ci.py\<close> which it calls, the live check
  of the execution pins and the PATH binding of the command executables.

  \<open>fld v k\<close> is \<open>v.get(k)\<close> on a dict; \<open>item v k f\<close> is the raising subscript \<open>v[k]\<close>.  Which paths are
  symbolic links, regular files or executable, and the digest of a file, are arguments.  The property
  of type \<open>type\<close> shows that validation of an arbitrary JSON value raises nothing but ValueError.
\<close>

section \<open>Texts and containers\<close>

definition nul_free :: "string \<Rightarrow> bool" where
  "nul_free s = (char_of (0::nat) \<notin> set s)"

definition nonblank :: "pv \<Rightarrow> bool" where
  "nonblank v = (is_str v \<and> strip (str_of v) \<noteq> [])"

definition is_count :: "pv \<Rightarrow> bool" where
  "is_count v = (is_int v \<and> 1 \<le> int_of_pv v)"

definition string_inventory :: "pv \<Rightarrow> string \<Rightarrow> bool \<Rightarrow> unit res" where
  "string_inventory v name allow_empty =
     require (is_list v \<and> (elems_of v \<noteq> [] \<or> allow_empty) \<and> list_all nonblank (elems_of v) \<and> distinct (elems_of v))
       (name @ '' must be a list of unique nonempty strings'') (Inr ())"

text \<open>A list of strings whose entries come from an accepted inventory.\<close>

definition strings_of :: "pv \<Rightarrow> string list" where
  "strings_of v = map str_of (elems_of v)"

text \<open>\<open>v[0]\<close>\<close>

definition first_item :: "pv \<Rightarrow> pv res" where
  "first_item v = (case v of PList (x # xs) \<Rightarrow> Inr x | PList [] \<Rightarrow> Inl (IndexError ''list index out of range'')
     | _ \<Rightarrow> Inl (TypeError ''0''))"

text \<open>\<open>set(v)\<close> of a dict, and \<open>{pin['path'] for pin in v}\<close>.\<close>

definition key_list :: "pv \<Rightarrow> string list res" where
  "key_list v = ebind (py_items v) (\<lambda>d. Inr (map fst d))"

definition pin_paths :: "pv \<Rightarrow> pv list res" where
  "pin_paths v = ebind (py_iter v) (emap (\<lambda>pin. getitem pin ''path''))"

definition STEPS :: "string list" where
  "STEPS = [''prepare'', ''run'', ''observe'', ''check'', ''cleanup'']"

section \<open>Pins\<close>

definition pin_fields :: "pv \<Rightarrow> bool \<Rightarrow> bool" where
  "pin_fields pin role = (is_dict pin \<and> is_str (fld pin ''path'') \<and> str_of (fld pin ''path'') \<noteq> [] \<and>
     nul_free (str_of (fld pin ''path'')) \<and> is_str (fld pin ''sha256'') \<and> hex_string 64 (str_of (fld pin ''sha256'')) \<and>
     (role \<longrightarrow> nonblank (fld pin ''role'')))"

definition validate_pin :: "(path \<Rightarrow> bool) \<Rightarrow> pv \<Rightarrow> bool \<Rightarrow> bool \<Rightarrow> unit res" where
  "validate_pin sl pin absolute role =
     require (pin_fields pin role) ''invalid artifact pin'' (
     item pin ''path'' (\<lambda>p.
       if absolute then require (is_absolute (str_of p)) ''execution pins must be absolute'' (Inr ())
       else ebind (child sl [''pins''] p) (\<lambda>_. Inr ())))"

fun validate_pins :: "(path \<Rightarrow> bool) \<Rightarrow> bool \<Rightarrow> pv list \<Rightarrow> pv list \<Rightarrow> unit res" where
  "validate_pins sl absolute seen [] = Inr ()"
| "validate_pins sl absolute seen (pin # pins) =
     ebind (validate_pin sl pin absolute True) (\<lambda>_. item pin ''path'' (\<lambda>p.
       require (p \<notin> set seen) (''duplicate pin: '' @ str_of p) (validate_pins sl absolute (p # seen) pins)))"

section \<open>Shapes\<close>

definition shape_containers :: "pv \<Rightarrow> unit res" where
  "shape_containers m =
     require (is_dict m) ''manifest must be an object'' (
     ebind (efor (\<lambda>name. require (is_dict (fld m name) \<and> items_of (fld m name) \<noteq> []) (name @ '' must be a nonempty object'') (Inr ()))
       [''strata'', ''commands'', ''expected_facts'', ''expected_exit'', ''protocols'']) (\<lambda>_.
     require (is_list (fld m ''dates'') \<and> elems_of (fld m ''dates'') \<noteq> [] \<and> list_all is_str (elems_of (fld m ''dates'')))
       ''dates must be a nonempty list of UTC dates'' (Inr ())))"

definition shape_counts :: "pv \<Rightarrow> unit res" where
  "shape_counts m = item m ''strata'' (\<lambda>strata. ebind (py_items strata) (efor (\<lambda>(workload, counts).
     require (is_list counts \<and> elems_of counts \<noteq> [] \<and> list_all is_count (elems_of counts))
       ''strata require positive integer counts'' (Inr ()))))"

definition both_arms :: "pv \<Rightarrow> bool" where
  "both_arms arms = (is_dict arms \<and> set (keys arms) = {''baseline'', ''candidate''})"

definition shape_arms :: "pv \<Rightarrow> unit res" where
  "shape_arms m = efor (\<lambda>name. item m name (\<lambda>v. item m ''strata'' (\<lambda>strata.
     ebind (key_list v) (\<lambda>ks. ebind (key_list strata) (\<lambda>ws.
     require (set ks = set ws) (name @ '' must cover exactly the registered workloads'') (
     ebind (py_values v) (efor (\<lambda>arms. require (both_arms arms) (name @ '' requires both arms'') (Inr ())))))))))
     [''commands'', ''expected_facts'', ''expected_exit'']"

definition shape_commands :: "pv \<Rightarrow> unit res" where
  "shape_commands m = item m ''commands'' (\<lambda>v. ebind (py_values v) (efor (\<lambda>arms.
     ebind (py_values arms) (efor (\<lambda>commands.
       require (is_dict commands \<and> set (keys commands) = set STEPS) ''prepare/run/observe/check/cleanup commands required'' (
       require (list_all is_dict (vals commands)) ''command specifications must be objects'' (Inr ())))))))"

definition shape_pins :: "(path \<Rightarrow> bool) \<Rightarrow> pv \<Rightarrow> unit res" where
  "shape_pins sl m =
     ebind (efor (\<lambda>name. require (is_list (fld m name) \<and> elems_of (fld m name) \<noteq> []) (name @ '' must be a nonempty pin list'')
         (validate_pins sl (name = ''execution_pins'') [] (elems_of (fld m name)))) [''pins'', ''execution_pins'']) (\<lambda>_.
     item m ''protocols'' (\<lambda>ps. ebind (py_items ps) (efor (\<lambda>(name, pin).
       ebind (child sl [''protocol''] (PStr name)) (\<lambda>_. validate_pin sl pin False False)))))"

definition validate_shapes :: "(path \<Rightarrow> bool) \<Rightarrow> pv \<Rightarrow> unit res" where
  "validate_shapes sl m = ebind (shape_containers m) (\<lambda>_. ebind (shape_counts m) (\<lambda>_. ebind (shape_arms m) (\<lambda>_.
     ebind (shape_commands m) (\<lambda>_. shape_pins sl m))))"

section \<open>The CI inventory\<close>

definition TASKS :: "string list" where
  "TASKS = [''go'', ''java'', ''explore'', ''replay'', ''rollback'', ''death'', ''cancellation'', ''accounting'', ''upload'']"

text \<open>\<open>[A-Za-z0-9_.-]+/[A-Za-z0-9_.-]+\<close>\<close>

definition repo_char :: "char \<Rightarrow> bool" where
  "repo_char c = (is_alnum c \<or> c = CHR ''_'' \<or> c = CHR ''.'' \<or> c = CHR ''-'')"

definition owner_repo :: "string \<Rightarrow> bool" where
  "owner_repo s = (case split_on (CHR ''/'') s of
     [a, b] \<Rightarrow> a \<noteq> [] \<and> b \<noteq> [] \<and> list_all repo_char a \<and> list_all repo_char b | _ \<Rightarrow> False)"

definition task_mapping_ok :: "string \<times> pv \<Rightarrow> bool" where
  "task_mapping_ok t = (strip (fst t) \<noteq> [] \<and> is_dict (snd t) \<and> nonblank (fld (snd t) ''job'') \<and> nonblank (fld (snd t) ''step''))"

definition validate_inventory :: "pv \<Rightarrow> unit res" where
  "validate_inventory ci =
     require (is_dict ci) ''CI workflow/task/ruleset inventory required'' (
     require (is_str (fld ci ''repository'') \<and> owner_repo (str_of (fld ci ''repository''))) ''CI repository must use owner/repo'' (
     require (is_str (fld ci ''execution_sha'') \<and> hex_string 40 (str_of (fld ci ''execution_sha'')))
       ''CI execution_sha must be a full lowercase commit SHA'' (
     require (both_arms (fld ci ''tasks'')) ''CI task mappings required for both arms'' (
     efor (\<lambda>(arm, mappings).
       require (is_dict mappings \<and> set TASKS \<subseteq> set (keys mappings)) (''incomplete frozen logical acceptance bundle: '' @ arm) (
       efor (\<lambda>t. require (task_mapping_ok t) (''CI tasks require nonempty job/step names: '' @ arm) (Inr ())) (items_of mappings)))
     (items_of (fld ci ''tasks''))))))"

section \<open>The manifest's own fields\<close>

definition INVENTORIES :: "string list" where
  "INVENTORIES = [''arms'', ''inputs'', ''runtime'', ''environment'', ''observation'', ''sources'']"

definition SEED :: string where
  "SEED = ''weavegate-e1-e2-v1-20261013''"

definition PROTOCOLS :: "string list" where
  "PROTOCOLS = [''README.md'', ''e1-gate.md'', ''e2-ci.md'']"

definition QUALITY :: "string list" where
  "QUALITY = [''outcome'', ''assertions'', ''schedules'', ''repetitions'', ''normalized_evidence'', ''isolation'',
     ''lifecycle'', ''resources'', ''environment'']"

definition E1_RESOURCES :: "string list" where
  "E1_RESOURCES = [''cpu_seconds'', ''peak_memory_bytes'', ''containers_created'', ''peak_containers'',
     ''disk_write_bytes'', ''artifact_bytes'', ''cache_bytes'']"

definition E2_RESOURCES :: "string list" where
  "E2_RESOURCES = [''runner_minutes'', ''peak_runner_concurrency'']"

definition published :: "pv \<Rightarrow> bool" where
  "published e = (e = PStr ''E1'' \<or> e = PStr ''E2'')"

definition manifest_identity :: "pv \<Rightarrow> unit res" where
  "manifest_identity m =
     require (fld m ''schema'' = PInt 1 \<and> str_in (fld m ''experiment'') [''E1'', ''E2'', ''E3'', ''E4''])
       ''expected schema 1 and E1/E2/E3/E4'' (
     require (nonblank (fld m ''campaign_id'') \<and> is_count (fld m ''protocol_revision''))
       ''campaign identity and protocol revision required'' (
     require (nonblank (fld m ''seed'')) ''seed must be a nonempty string'' (
     require (nonblank (fld m ''phase'')) ''phase must be a nonempty string'' (
     ebind (efor (\<lambda>name. require (is_dict (fld m name) \<and> items_of (fld m name) \<noteq> []) (''missing inventory: '' @ name) (Inr ()))
       INVENTORIES) (\<lambda>_.
     require (truthy (fld m ''pins'') \<and> truthy (fld m ''protocols'') \<and> truthy (fld m ''execution_pins''))
       ''protocol and artifact pins required'' (Inr ()))))))"

definition manifest_lists :: "pv \<Rightarrow> unit res" where
  "manifest_lists m =
     ebind (efor (\<lambda>name. string_inventory (fld m name) name (name = ''redact_env''))
       [''quality_checks'', ''resource_metrics'', ''compare_facts'', ''redact_env'']) (\<lambda>_.
     item m ''redact_env'' (\<lambda>names. ebind (py_iter names) (\<lambda>xs.
     require (list_all (\<lambda>x. CHR ''='' \<notin> set (str_of x) \<and> nul_free (str_of x)) xs) ''invalid redaction environment name'' (
     ebind (pget m ''analysis_metrics'' (PList [])) (\<lambda>am.
     ebind (string_inventory am ''analysis_metrics'' True) (\<lambda>_.
     ebind (pget m ''deviations'' (PList [])) (\<lambda>dev.
     require (is_list dev \<and> list_all is_str (elems_of dev)) ''deviations must be a list of strings'' (Inr ()))))))))"

definition strata_value :: "strata \<Rightarrow> pv" where
  "strata_value s = PDict (map (\<lambda>(w, counts). (w, PList (map (\<lambda>n. PInt (int n)) counts))) s)"

definition frozen_protocol :: "pv \<Rightarrow> unit res" where
  "frozen_protocol m = item m ''experiment'' (\<lambda>e.
     if published e then
       item m ''protocol_revision'' (\<lambda>rev. item m ''seed'' (\<lambda>seed.
       require (py_eq rev (PInt 1) \<and> py_eq seed (PStr SEED)) ''E1/E2 revision 1 uses the published seed'' (
       item m ''strata'' (\<lambda>strata. item m ''phase'' (\<lambda>phase.
       ebind (sampling (str_of e) (str_of phase)) (\<lambda>plan.
       require (py_eq strata (strata_value plan)) ''sample counts/workloads differ from the frozen protocol'' (
       item m ''protocols'' (\<lambda>ps. ebind (key_list ps) (\<lambda>ks.
       require (set ks = set PROTOCOLS) ''all three shared protocol files required'' (
       item m ''quality_checks'' (\<lambda>qs.
       require (set QUALITY \<subseteq> set (strings_of qs)) ''incomplete quality inventory'' (
       item m ''resource_metrics'' (\<lambda>rs.
       require (set (if e = PStr ''E1'' then E1_RESOURCES else E2_RESOURCES) \<subseteq> set (strings_of rs)) ''incomplete resource inventory'' (
       if e = PStr ''E2'' then validate_inventory (fld m ''ci'') else Inr ()))))))))))))))
     else require (truthy (fld m ''seed'') \<and> truthy (fld m ''quality_checks''))
       ''future protocol must supply its seed and quality inventory'' (Inr ()))"

text \<open>\<open>[a-z0-9][a-z0-9-]*\<close>\<close>

definition safe_id :: "string \<Rightarrow> bool" where
  "safe_id s = (case s of [] \<Rightarrow> False | c # cs \<Rightarrow> (is_lower c \<or> is_digit c) \<and>
     list_all (\<lambda>d. is_lower d \<or> is_digit d \<or> d = CHR ''-'') cs)"

text \<open>\<open>'%s-%02d-%03d' % (workload, date_index, count)\<close>\<close>

definition block_name :: "string \<Rightarrow> nat \<Rightarrow> nat \<Rightarrow> string" where
  "block_name w i n = w @ ''-'' @ pad_nat 2 i @ ''-'' @ pad_nat 3 n"

definition strata_rules :: "pv \<Rightarrow> unit res" where
  "strata_rules m = item m ''strata'' (\<lambda>strata. ebind (py_items strata) (\<lambda>d.
     require (d \<noteq> []) ''strata require positive integer counts'' (
     ebind (efor (\<lambda>(w, counts). ebind (py_iter counts) (\<lambda>ns.
       require (ns \<noteq> [] \<and> list_all is_count ns) ''strata require positive integer counts'' (Inr ()))) d) (\<lambda>_.
     require (list_all (\<lambda>(w, counts). safe_id w) d) ''workload IDs must be safe lowercase identifiers'' (
     efor (\<lambda>(w, counts). ebind (py_iter counts) (\<lambda>ns. efor (\<lambda>(i, n).
       require (utf8_len (block_name w i (nat (int_of_pv n))) \<le> 255) ''composed block name exceeds 255 bytes'' (Inr ()))
       (enumerate 1 ns))) d)))))"

section \<open>Dates\<close>

definition leap :: "nat \<Rightarrow> bool" where
  "leap y = (y mod 4 = 0 \<and> (y mod 100 \<noteq> 0 \<or> y mod 400 = 0))"

definition month_days :: "nat \<Rightarrow> nat \<Rightarrow> nat" where
  "month_days y mo = (if mo = 2 then (if leap y then 29 else 28) else if mo \<in> {4, 6, 9, 11} then 30 else 31)"

text \<open>\<open>datetime.strptime(s, '%Y-%m-%d')\<close>: a four-digit year, one- or two-digit month and day (a day
  may also be a blank and a digit), and an existing date.  \<open>strftime\<close> prints the year unpadded, as
  the C library of the supported platform does.\<close>

definition strptime_date :: "string \<Rightarrow> (nat \<times> nat \<times> nat) res" where
  "strptime_date s = (case split_on (CHR ''-'') s of
     [y, mo, d] \<Rightarrow>
       (let d' = (if length d = 2 \<and> hd d = CHR '' '' then tl d else d) in
        if length y = 4 \<and> list_all is_digit y \<and> list_all is_digit mo \<and> list_all is_digit d' \<and>
           length mo \<in> {1, 2} \<and> length d' \<in> {1, 2} \<and> 1 \<le> read_nat y \<and>
           1 \<le> read_nat mo \<and> read_nat mo \<le> 12 \<and> 1 \<le> read_nat d' \<and> read_nat d' \<le> month_days (read_nat y) (read_nat mo)
        then Inr (read_nat y, read_nat mo, read_nat d')
        else Inl (ValueError ''time data does not match format''))
   | _ \<Rightarrow> Inl (ValueError ''time data does not match format''))"

definition strftime_date :: "nat \<times> nat \<times> nat \<Rightarrow> string" where
  "strftime_date = (\<lambda>(y, mo, d). show_nat y @ ''-'' @ pad_nat 2 mo @ ''-'' @ pad_nat 2 d)"

definition canonical_date :: "string \<Rightarrow> bool res" where
  "canonical_date s = ebind (strptime_date s) (\<lambda>t. Inr (strftime_date t = s))"

definition date_rules :: "pv \<Rightarrow> unit res" where
  "date_rules m = item m ''dates'' (\<lambda>ds. ebind (py_iter ds) (\<lambda>dates.
     require (distinct dates \<and> map str_of dates = sort (map str_of dates)) ''date slots must be distinct and increasing'' (
     ebind (efor (\<lambda>d. require (is_str d) ''date slots must use canonical UTC YYYY-MM-DD'' (
       erequire (canonical_date (str_of d)) ''date slots must use canonical UTC YYYY-MM-DD'' (Inr ()))) dates) (\<lambda>_.
     item m ''strata'' (\<lambda>strata. ebind (py_values strata) (\<lambda>cs. ebind (emap py_iter cs) (\<lambda>counts.
     require (Max (set (map length counts)) = length dates) ''date count differs from strata'' (
     item m ''commands'' (\<lambda>commands. item m ''expected_facts'' (\<lambda>facts.
     ebind (key_list commands) (\<lambda>ks. ebind (key_list strata) (\<lambda>ws. ebind (key_list facts) (\<lambda>fs.
     require (set ks = set ws \<and> set fs = set ws) ''commands and expected facts required for every workload'' (Inr ()))))))))))))))"

section \<open>Commands\<close>

definition command_fields :: "pv \<Rightarrow> bool" where
  "command_fields spec =
     (is_list (fld spec ''argv'') \<and> elems_of (fld spec ''argv'') \<noteq> [] \<and>
      list_all (\<lambda>a. is_str a \<and> nul_free (str_of a)) (elems_of (fld spec ''argv'')) \<and>
      str_of (hd (elems_of (fld spec ''argv''))) \<noteq> [] \<and>
      is_str (fld spec ''cwd'') \<and> str_of (fld spec ''cwd'') \<noteq> [] \<and> nul_free (str_of (fld spec ''cwd'')) \<and>
      positive (fld spec ''timeout_seconds'') \<and> is_dict (fld spec ''env'') \<and>
      list_all (\<lambda>(k, v). is_str v \<and> k \<noteq> [] \<and> CHR ''='' \<notin> set k \<and> nul_free k \<and> nul_free (str_of v)) (items_of (fld spec ''env'')) \<and>
      positive (if has_key spec ''cancel_grace_seconds'' then fld spec ''cancel_grace_seconds'' else PInt 25))"

definition cwd_absolute :: "string \<Rightarrow> bool" where
  "cwd_absolute cwd = (is_absolute cwd \<or>
     list_ex (\<lambda>token. cwd = token \<or> startswith cwd (token @ ''/'')) [''{campaign_dir}'', ''{trial_dir}''])"

definition executable_form :: "string \<Rightarrow> pv \<Rightarrow> bool" where
  "executable_form x env = (list_all (\<lambda>token. \<not> contains x token) [''{campaign_dir}'', ''{trial_dir}'', ''{block_id}'', ''{arm}''] \<and>
     (is_absolute x \<or> CHR ''/'' \<notin> set x \<and> has_key env ''PATH''))"

definition spec_pins :: "pv \<Rightarrow> string \<Rightarrow> pv \<Rightarrow> unit res" where
  "spec_pins m step spec =
     (if has_key spec ''execution_pins'' then item spec ''execution_pins'' (\<lambda>ps.
        ebind (string_inventory ps ''cleanup execution_pins'' False) (\<lambda>_.
        require (step = ''cleanup'') ''cleanup execution_pins must reference registered live inputs'' (
        item m ''execution_pins'' (\<lambda>eps. ebind (pin_paths eps) (\<lambda>paths.
        require (set (elems_of ps) \<subseteq> set paths) ''cleanup execution_pins must reference registered live inputs'' (Inr ()))))))
      else Inr ())"

text \<open>An absolute executable needs a pin; a bare one is looked up in absolute PATH entries only.\<close>

definition executable_rule :: "pv \<Rightarrow> string \<Rightarrow> pv \<Rightarrow> unit res" where
  "executable_rule m step spec = item spec ''argv'' (\<lambda>argv. ebind (first_item argv) (\<lambda>x. item spec ''env'' (\<lambda>env.
     require (executable_form (str_of x) env) (''command executable requires an absolute path or explicit PATH: '' @ step) (
     if is_absolute (str_of x) then
       item m ''execution_pins'' (\<lambda>eps. ebind (pin_paths eps) (\<lambda>paths. ebind (pget spec ''execution_pins'' (PList paths)) (\<lambda>pins.
       ebind (py_iter pins) (\<lambda>ps. require (x \<in> set ps) (''command executable must have an execution pin: '' @ step) (Inr ())))))
     else item env ''PATH'' (\<lambda>p.
       require (list_all is_absolute (split_on (CHR '':'') (str_of p))) (''command executable PATH entries must be absolute: '' @ step) (Inr ()))))))"

definition observation_budget :: "pv \<Rightarrow> string \<Rightarrow> pv \<Rightarrow> unit res" where
  "observation_budget m step spec = item m ''experiment'' (\<lambda>e.
     if published e \<and> step = ''run'' then
       item spec ''timeout_seconds'' (\<lambda>t.
       if e = PStr ''E2'' then erequire (py_less (PInt 5400) t) ''E2 wrapper watchdog must reserve overhead beyond the provider cap'' (Inr ())
       else item m ''phase'' (\<lambda>phase.
         require (py_eq t (PInt (if phase = PStr ''adoption-cold'' then 1800 else 600))) ''run observation budget differs from protocol'' (Inr ())))
     else Inr ())"

definition check_spec :: "pv \<Rightarrow> string \<times> pv \<Rightarrow> unit res" where
  "check_spec m = (\<lambda>(step, spec). ebind (spec_pins m step spec) (\<lambda>_.
     require (command_fields spec) (''invalid command: '' @ step) (
     item spec ''cwd'' (\<lambda>cwd.
     require (cwd_absolute (str_of cwd)) (''command cwd must expand to an absolute directory: '' @ step) (
     ebind (executable_rule m step spec) (\<lambda>_. observation_budget m step spec))))))"

text \<open>What the protocol expects of a workload's arm.\<close>

definition schedule_runs_of :: "string \<Rightarrow> int" where
  "schedule_runs_of w = (if w = ''example-vulnerable-explore'' then 21 else if w = ''example-fixed-explore'' then 18 else 20)"

definition arm_expectation :: "pv \<Rightarrow> string \<Rightarrow> string \<Rightarrow> unit res" where
  "arm_expectation m w arm = item m ''experiment'' (\<lambda>e. item m ''expected_exit'' (\<lambda>ee. item ee w (\<lambda>byarm. item byarm arm (\<lambda>exits.
     if e = PStr ''E1'' then
       require (py_eq exits (PList [PInt (if contains w ''vulnerable'' then 2 else 0)])) ''expected exit differs from the registered workload'' (
       item m ''expected_facts'' (\<lambda>ef. item ef w (\<lambda>fs. item fs arm (\<lambda>facts.
       ebind (pgetn facts ''schedule_runs'') (\<lambda>runs. ebind (pgetn facts ''flaky'') (\<lambda>flaky.
       require (py_eq runs (PInt (schedule_runs_of w)) \<and> flaky = PBool False)
         ''schedule-run count/flakiness expectation differs from protocol'' (Inr ())))))))
     else if e = PStr ''E2'' then require (py_eq exits (PList [PInt 0])) ''completed workflow wrapper must exit 0'' (Inr ())
     else Inr ()))))"

definition arm_rules :: "pv \<Rightarrow> string \<Rightarrow> string \<times> pv \<Rightarrow> unit res" where
  "arm_rules m w = (\<lambda>(arm, commands). ebind (key_list commands) (\<lambda>ks.
     require (set ks = set STEPS) ''prepare/run/observe/check/cleanup commands required'' (
     item m ''expected_exit'' (\<lambda>ee. item ee w (\<lambda>byarm. item byarm arm (\<lambda>exits.
     require (is_list exits \<and> elems_of exits \<noteq> [] \<and> list_all is_int (elems_of exits))
       ''expected exits must be a nonempty list of integers'' (
     item m ''expected_facts'' (\<lambda>ef. item ef w (\<lambda>fs. item fs arm (\<lambda>expected.
     require (is_dict expected \<and> items_of expected \<noteq> []) ''expected facts must be nonempty objects'' (
     ebind (py_items commands) (\<lambda>d. ebind (efor (check_spec m) d) (\<lambda>_. arm_expectation m w arm)))))))))))))"

definition command_rules :: "pv \<Rightarrow> unit res" where
  "command_rules m = item m ''commands'' (\<lambda>commands. ebind (py_items commands) (efor (\<lambda>(w, arms).
     ebind (key_list arms) (\<lambda>ks. require (set ks = {''baseline'', ''candidate''}) (''both arm commands required: '' @ w) (
     ebind (py_items arms) (efor (arm_rules m w)))))))"

definition validate_manifest :: "(path \<Rightarrow> bool) \<Rightarrow> pv \<Rightarrow> unit res" where
  "validate_manifest sl m = ebind (validate_shapes sl m) (\<lambda>_. ebind (manifest_identity m) (\<lambda>_. ebind (manifest_lists m) (\<lambda>_.
     ebind (frozen_protocol m) (\<lambda>_. ebind (strata_rules m) (\<lambda>_. ebind (date_rules m) (\<lambda>_. command_rules m))))))"

section \<open>Execution pins and executables\<close>

definition spec_executables :: "pv \<Rightarrow> pv list res" where
  "spec_executables m = item m ''commands'' (\<lambda>v. ebind (py_values v) (\<lambda>arms. ebind (emap py_values arms) (\<lambda>cs.
     ebind (emap py_values (concat cs)) (\<lambda>specs. emap (\<lambda>spec. item spec ''argv'' first_item) (concat specs)))))"

text \<open>The live host: whether a path is a regular file, whether it may be executed, and the digest of
  its bytes, which raises when it cannot be read.\<close>

definition verify_execution_pins :: "(string \<Rightarrow> bool) \<Rightarrow> (string \<Rightarrow> bool) \<Rightarrow> (string \<Rightarrow> string res) \<Rightarrow> pv \<Rightarrow>
    string list option \<Rightarrow> unit res" where
  "verify_execution_pins file_at may_run digest m selected = ebind (spec_executables m) (\<lambda>executables.
     item m ''execution_pins'' (\<lambda>pins. ebind (py_iter pins) (efor (\<lambda>pin. item pin ''path'' (\<lambda>p.
       if (case selected of None \<Rightarrow> False | Some names \<Rightarrow> str_of p \<notin> set names) then Inr ()
       else require (\<not> (p \<in> set executables \<and> (\<not> file_at (str_of p) \<or> \<not> may_run (str_of p))))
           (''command executable is not executable: '' @ str_of p) (
         ebind (pgetn pin ''role'') (\<lambda>role.
         require (is_absolute (str_of p) \<and> truthy role) (''live execution pin mismatch: '' @ str_of p) (
         ebind (digest (str_of p)) (\<lambda>h. item pin ''sha256'' (\<lambda>expected.
         require (PStr h = expected) (''live execution pin mismatch: '' @ str_of p) (Inr ())))))))))))"

text \<open>\<open>shutil.which(name, path=...)\<close> for a name without a slash: the first PATH entry that holds an
  executable file of that name.\<close>

definition path_join :: "string \<Rightarrow> string \<Rightarrow> string" where
  "path_join d name = (if d = [] then name else if last d = CHR ''/'' then d @ name else d @ ''/'' @ name)"

definition which :: "(string \<Rightarrow> bool) \<Rightarrow> string \<Rightarrow> string \<Rightarrow> string option" where
  "which runnable name path = (if path = [] then None
     else find runnable (map (\<lambda>d. path_join d name) (split_on (CHR '':'') path)))"

definition dict_put :: "string \<Rightarrow> 'a \<Rightarrow> (string \<times> 'a) list \<Rightarrow> (string \<times> 'a) list" where
  "dict_put k v d = map (\<lambda>(k', v'). (k', if k' = k then v else v')) d"

definition bind_spec :: "(string \<Rightarrow> bool) \<Rightarrow> pv \<Rightarrow> pv res" where
  "bind_spec runnable spec = item spec ''argv'' (\<lambda>argv. ebind (first_item argv) (\<lambda>x.
     if is_absolute (str_of x) then Inr spec
     else item spec ''env'' (\<lambda>env. item env ''PATH'' (\<lambda>p.
       case which runnable (str_of x) (str_of p) of
         None \<Rightarrow> Inl (ValueError ''command executable not found in explicit PATH'')
       | Some y \<Rightarrow> Inr (PDict (dict_put ''argv'' (PList (PStr y # tl (elems_of argv))) (items_of spec)))))))"

definition map_values :: "(pv \<Rightarrow> pv res) \<Rightarrow> pv \<Rightarrow> pv res" where
  "map_values f v = ebind (py_items v) (\<lambda>d. ebind (emap (\<lambda>(k, x). ebind (f x) (\<lambda>y. Inr (k, y))) d) (\<lambda>e. Inr (PDict e)))"

definition bind_executables :: "(string \<Rightarrow> bool) \<Rightarrow> pv \<Rightarrow> pv res" where
  "bind_executables runnable m = item m ''commands'' (\<lambda>c.
     ebind (map_values (map_values (map_values (bind_spec runnable))) c) (\<lambda>c'.
     Inr (PDict (dict_put ''commands'' c' (items_of m)))))"

section \<open>What the shape checks establish\<close>

lemma efor_cong: "(\<And>x. x \<in> set xs \<Longrightarrow> f x = g x) \<Longrightarrow> efor f xs = efor g xs"
  by (induction xs) auto

lemma getitem_some_fld: "fld v k \<noteq> PNone \<Longrightarrow> getitem v k = Inr (fld v k)"
  by (cases v) (auto simp: fld_def items_of_def getitem_def split: option.splits)

lemma has_key_item: "is_dict v \<Longrightarrow> k \<in> set (keys v) \<Longrightarrow> \<exists>x \<in> set (vals v). getitem v k = Inr x"
  using getitem_has_key [of v k] by (force simp: has_key_def keys_def vals_def)

lemma dict_fld: "is_dict (fld m k) \<Longrightarrow> getitem m k = Inr (PDict (items_of (fld m k)))"
  using getitem_some_fld [of m k] by (cases "fld m k") auto

lemma list_fld: "is_list (fld m k) \<Longrightarrow> getitem m k = Inr (PList (elems_of (fld m k)))"
  using getitem_some_fld [of m k] by (cases "fld m k") auto

text \<open>The dicts and lists of a manifest that passed \<open>validate_shapes\<close>.\<close>

record plan_parts =
  p_strata :: "(string \<times> pv) list"
  p_commands :: "(string \<times> pv) list"
  p_facts :: "(string \<times> pv) list"
  p_exits :: "(string \<times> pv) list"
  p_protocols :: "(string \<times> pv) list"
  p_dates :: "pv list"
  p_pins :: "pv list"

definition parts_of :: "pv \<Rightarrow> plan_parts" where
  "parts_of m = \<lparr>p_strata = items_of (fld m ''strata''), p_commands = items_of (fld m ''commands''),
     p_facts = items_of (fld m ''expected_facts''), p_exits = items_of (fld m ''expected_exit''),
     p_protocols = items_of (fld m ''protocols''), p_dates = elems_of (fld m ''dates''),
     p_pins = elems_of (fld m ''execution_pins'')\<rparr>"

definition has_parts :: "pv \<Rightarrow> plan_parts \<Rightarrow> bool" where
  "has_parts m p = (is_dict m \<and> getitem m ''strata'' = Inr (PDict (p_strata p)) \<and>
     getitem m ''commands'' = Inr (PDict (p_commands p)) \<and> getitem m ''expected_facts'' = Inr (PDict (p_facts p)) \<and>
     getitem m ''expected_exit'' = Inr (PDict (p_exits p)) \<and> getitem m ''protocols'' = Inr (PDict (p_protocols p)) \<and>
     getitem m ''dates'' = Inr (PList (p_dates p)) \<and> p_strata p \<noteq> [] \<and> p_dates p \<noteq> [] \<and> list_all is_str (p_dates p))"

definition counted :: "plan_parts \<Rightarrow> bool" where
  "counted p = list_all (\<lambda>(w, c). is_list c \<and> elems_of c \<noteq> [] \<and> list_all is_count (elems_of c)) (p_strata p)"

definition armed :: "plan_parts \<Rightarrow> bool" where
  "armed p = list_all (\<lambda>d. fst ` set d = fst ` set (p_strata p) \<and> list_all (\<lambda>(w, a). both_arms a) d)
     [p_commands p, p_facts p, p_exits p]"

definition stepped :: "plan_parts \<Rightarrow> bool" where
  "stepped p = list_all (\<lambda>(w, a). list_all (\<lambda>(arm, c). is_dict c \<and> set (keys c) = set STEPS \<and> list_all is_dict (vals c))
     (items_of a)) (p_commands p)"

definition pinned :: "pv \<Rightarrow> plan_parts \<Rightarrow> bool" where
  "pinned m p = (getitem m ''execution_pins'' = Inr (PList (p_pins p)) \<and> list_all (\<lambda>pin. pin_fields pin True) (p_pins p))"

lemma shape_containers_parts: "shape_containers m = Inr () \<Longrightarrow> has_parts m (parts_of m)"
  unfolding shape_containers_def
  by (simp add: ebind_eq_Inr has_parts_def parts_of_def dict_fld list_fld)

lemma only_shape_containers: "only is_value_error (shape_containers m)"
  unfolding shape_containers_def by (intro only_intros) simp_all

lemma shape_counts_counted:
  assumes "has_parts m p"
  shows "shape_counts m = Inr () \<longleftrightarrow> counted p" "only is_value_error (shape_counts m)"
  using assms by (auto simp: shape_counts_def has_parts_def counted_def list_all_iff intro!: only_intros)

lemma shape_arms_armed:
  assumes "has_parts m p"
  shows "shape_arms m = Inr () \<longleftrightarrow> armed p" "only is_value_error (shape_arms m)"
  using assms by (auto simp: shape_arms_def has_parts_def armed_def key_list_def list_all_iff ebind_eq_Inr intro!: only_intros)

lemma shape_commands_stepped:
  assumes "has_parts m p" "armed p"
  shows "shape_commands m = Inr () \<longleftrightarrow> stepped p" "only is_value_error (shape_commands m)"
proof -
  have d: "py_values a = Inr (map snd (items_of a))" if "(w, a) \<in> set (p_commands p)" for w a
  proof -
    have "is_dict a" using that assms(2) by (auto simp: armed_def list_all_iff both_arms_def)
    then show ?thesis by (cases a) auto
  qed
  have "shape_commands m = efor (\<lambda>a. ebind (py_values a) (efor (\<lambda>commands.
       require (is_dict commands \<and> set (keys commands) = set STEPS) ''prepare/run/observe/check/cleanup commands required'' (
       require (list_all is_dict (vals commands)) ''command specifications must be objects'' (Inr ()))))) (map snd (p_commands p))"
    using assms(1) by (simp add: shape_commands_def has_parts_def)
  also have "\<dots> = efor (\<lambda>a. efor (\<lambda>commands.
       require (is_dict commands \<and> set (keys commands) = set STEPS) ''prepare/run/observe/check/cleanup commands required'' (
       require (list_all is_dict (vals commands)) ''command specifications must be objects'' (Inr ()))) (map snd (items_of a)))
       (map snd (p_commands p))"
    by (rule efor_cong) (use d in auto)
  finally have eq: "shape_commands m = \<dots>" .
  show "shape_commands m = Inr () \<longleftrightarrow> stepped p"
    unfolding eq efor_eq_Inr require_eq_Inr stepped_def list_all_iff by (simp add: split_beta)
  show "only is_value_error (shape_commands m)"
    unfolding eq by (intro only_intros) simp_all
qed

lemma validate_pins_ok:
  "validate_pins sl absolute seen pins = Inr () \<Longrightarrow> list_all (\<lambda>pin. pin_fields pin True) pins"
  by (induction pins arbitrary: seen) (auto simp: ebind_eq_Inr validate_pin_def)

lemma pin_path: "pin_fields pin role \<Longrightarrow> \<exists>s. getitem pin ''path'' = Inr (PStr s)"
  using getitem_some_fld [of pin "''path''"] by (cases "fld pin ''path''") (auto simp: pin_fields_def)

lemma only_validate_pin [only_intros]: "only is_value_error (validate_pin sl pin absolute role)"
proof (cases "pin_fields pin role")
  case True
  then obtain s where "getitem pin ''path'' = Inr (PStr s)" using pin_path by blast
  then show ?thesis by (auto simp: validate_pin_def intro!: only_intros)
qed (simp add: validate_pin_def)

lemma only_validate_pins [only_intros]: "only is_value_error (validate_pins sl absolute seen pins)"
proof (induction pins arbitrary: seen)
  case (Cons pin pins)
  show ?case
  proof (cases "validate_pin sl pin absolute True")
    case (Inl e)
    then show ?thesis using only_validate_pin [of sl pin absolute True] by (simp add: Inl)
  next
    case (Inr u)
    then have "pin_fields pin True" by (simp add: validate_pin_def)
    then obtain s where "getitem pin ''path'' = Inr (PStr s)" using pin_path by blast
    then show ?thesis using Inr Cons.IH by (auto intro!: only_intros)
  qed
qed simp

lemma shape_pins_pinned:
  assumes "has_parts m (parts_of m)"
  shows "shape_pins sl m = Inr () \<Longrightarrow> pinned m (parts_of m)" "only is_value_error (shape_pins sl m)"
proof -
  show "only is_value_error (shape_pins sl m)"
    using assms by (auto simp: shape_pins_def has_parts_def intro!: only_intros)
  assume "shape_pins sl m = Inr ()"
  then have "is_list (fld m ''execution_pins'')" "validate_pins sl True [] (elems_of (fld m ''execution_pins'')) = Inr ()"
    by (auto simp: shape_pins_def ebind_eq_Inr)
  then show "pinned m (parts_of m)"
    using validate_pins_ok list_fld [of m "''execution_pins''"] by (auto simp: pinned_def parts_of_def)
qed

definition well_shaped :: "pv \<Rightarrow> bool" where
  "well_shaped m = (has_parts m (parts_of m) \<and> counted (parts_of m) \<and> armed (parts_of m) \<and> stepped (parts_of m) \<and> pinned m (parts_of m))"

lemma validate_shapes_shaped: "validate_shapes sl m = Inr () \<Longrightarrow> well_shaped m"
  unfolding validate_shapes_def well_shaped_def
  by (elim ebindE)
     (use shape_containers_parts shape_counts_counted(1) shape_arms_armed(1) shape_commands_stepped(1) shape_pins_pinned(1)
      in \<open>metis old.unit.exhaust\<close>)

lemma only_validate_shapes [only_intros]: "only is_value_error (validate_shapes sl m)"
  unfolding validate_shapes_def
proof (intro only_ebind only_shape_containers)
  fix u assume "shape_containers m = Inr u"
  then have p: "has_parts m (parts_of m)" by (intro shape_containers_parts) simp
  show "only is_value_error (shape_counts m)" by (rule shape_counts_counted(2) [OF p])
  show "only is_value_error (shape_arms m)" by (rule shape_arms_armed(2) [OF p])
  fix v assume "shape_arms m = Inr v"
  then have a: "armed (parts_of m)" using shape_arms_armed(1) [OF p] by simp
  show "only is_value_error (shape_commands m)" by (rule shape_commands_stepped(2) [OF p a])
  show "only is_value_error (shape_pins sl m)" by (rule shape_pins_pinned(2) [OF p])
qed

section \<open>Validation raises only ValueError\<close>

definition identified :: "pv \<Rightarrow> bool" where
  "identified m = (is_str (fld m ''experiment'') \<and> is_int (fld m ''protocol_revision'') \<and> is_str (fld m ''seed'') \<and> is_str (fld m ''phase''))"

definition listed :: "pv \<Rightarrow> bool" where
  "listed m = (is_list (fld m ''quality_checks'') \<and> is_list (fld m ''resource_metrics'') \<and> is_list (fld m ''redact_env''))"

lemma manifest_identity_identified: "manifest_identity m = Inr () \<Longrightarrow> identified m"
  by (simp add: manifest_identity_def identified_def nonblank_def is_count_def str_in_def)

lemma identified_items:
  assumes "identified m"
  shows "getitem m ''experiment'' = Inr (fld m ''experiment'')" "getitem m ''protocol_revision'' = Inr (fld m ''protocol_revision'')"
    "getitem m ''seed'' = Inr (fld m ''seed'')" "getitem m ''phase'' = Inr (fld m ''phase'')"
  using assms by (auto simp: identified_def intro!: getitem_some_fld)

lemma string_inventory_list: "string_inventory v name b = Inr () \<Longrightarrow> is_list v \<and> list_all nonblank (elems_of v)"
  by (simp add: string_inventory_def)

lemma only_string_inventory [only_intros]: "only is_value_error (string_inventory v name b)"
  by (auto simp: string_inventory_def intro!: only_intros)

lemma manifest_lists_listed: "manifest_lists m = Inr () \<Longrightarrow> listed m"
  using string_inventory_list by (auto simp: manifest_lists_def listed_def ebind_eq_Inr)

lemma only_manifest_lists:
  assumes "is_dict m"
  shows "only is_value_error (manifest_lists m)"
proof -
  have pg: "only is_value_error (pget m k v)" for k v using assms by (rule only_pget)
  have re: "getitem m ''redact_env'' = Inr (PList (elems_of (fld m ''redact_env'')))"
    if "efor (\<lambda>name. string_inventory (fld m name) name (name = ''redact_env''))
       [''quality_checks'', ''resource_metrics'', ''compare_facts'', ''redact_env''] = Inr u" for u
  proof -
    have "string_inventory (fld m ''redact_env'') ''redact_env'' True = Inr ()" using that unfolding efor_eq_Inr by simp
    then show ?thesis using string_inventory_list by (intro list_fld) blast
  qed
  show ?thesis
    unfolding manifest_lists_def by (intro only_intros pg) (auto simp: re simp del: efor_Cons efor_eq_Inr)
qed

lemma only_sampling [only_intros]: "only is_value_error (sampling e ph)"
  by (simp add: sampling_def)

lemma only_validate_inventory [only_intros]: "only is_value_error (validate_inventory v)"
  unfolding validate_inventory_def by (intro only_intros) (auto intro!: only_intros)

lemma only_frozen_protocol:
  assumes "well_shaped m" "identified m" "listed m"
  shows "only is_value_error (frozen_protocol m)"
proof -
  have l: "getitem m ''quality_checks'' = Inr (PList (elems_of (fld m ''quality_checks'')))"
    "getitem m ''resource_metrics'' = Inr (PList (elems_of (fld m ''resource_metrics'')))"
    using assms(3) list_fld by (auto simp: listed_def)
  have p: "getitem m ''strata'' = Inr (PDict (p_strata (parts_of m)))" "getitem m ''protocols'' = Inr (PDict (p_protocols (parts_of m)))"
    using assms(1) by (auto simp: well_shaped_def has_parts_def)
  show ?thesis
    unfolding frozen_protocol_def identified_items [OF assms(2)] l p key_list_def access_simps ebind.simps
    by (intro only_intros) simp_all
qed

lemma counts_iter: "counted p \<Longrightarrow> (w, c) \<in> set (p_strata p) \<Longrightarrow> py_iter c = Inr (elems_of c)"
  by (cases c) (auto simp: counted_def list_all_iff)

lemma only_strata_rules:
  assumes "well_shaped m"
  shows "only is_value_error (strata_rules m)"
proof -
  have p: "getitem m ''strata'' = Inr (PDict (p_strata (parts_of m)))" "counted (parts_of m)"
    using assms by (auto simp: well_shaped_def has_parts_def)
  show ?thesis
    unfolding strata_rules_def p(1) access_simps ebind.simps
    using counts_iter [OF p(2)] by (auto intro!: only_intros)
qed

lemma only_strptime [only_intros]: "only is_value_error (strptime_date s)"
  by (auto simp: strptime_date_def Let_def split: list.splits)

lemma only_canonical_date [only_intros]: "only is_value_error (canonical_date s)"
  unfolding canonical_date_def by (intro only_intros)

lemma emap_total: "(\<And>x. x \<in> set xs \<Longrightarrow> f x = Inr (g x)) \<Longrightarrow> emap f xs = Inr (map g xs)"
  by (induction xs) auto

lemma strata_iter: "counted p \<Longrightarrow> emap py_iter (map snd (p_strata p)) = Inr (map elems_of (map snd (p_strata p)))"
  by (rule emap_total) (auto intro: counts_iter)

lemma only_date_rules:
  assumes "well_shaped m"
  shows "only is_value_error (date_rules m)"
proof -
  have p: "getitem m ''strata'' = Inr (PDict (p_strata (parts_of m)))" "getitem m ''dates'' = Inr (PList (p_dates (parts_of m)))"
    "getitem m ''commands'' = Inr (PDict (p_commands (parts_of m)))" "getitem m ''expected_facts'' = Inr (PDict (p_facts (parts_of m)))"
    and c: "counted (parts_of m)"
    using assms by (auto simp: well_shaped_def has_parts_def)
  show ?thesis
    unfolding date_rules_def p access_simps ebind.simps strata_iter [OF c] key_list_def
    by (intro only_intros) simp_all
qed

lemma pin_paths_ok: "list_all (\<lambda>pin. pin_fields pin True) pins \<Longrightarrow> pin_paths (PList pins) = Inr (map (\<lambda>pin. fld pin ''path'') pins)"
  unfolding pin_paths_def access_simps ebind.simps
  by (rule emap_total) (auto simp: list_all_iff pin_fields_def intro!: getitem_some_fld)

lemma spec_items:
  assumes "command_fields spec"
  shows "\<exists>x xs. getitem spec ''argv'' = Inr (PList (x # xs)) \<and> is_str x"
    "\<exists>s. getitem spec ''cwd'' = Inr (PStr s)" "\<exists>d. getitem spec ''env'' = Inr (PDict d) \<and> list_all (\<lambda>(k, v). is_str v) d"
    "getitem spec ''timeout_seconds'' = Inr (fld spec ''timeout_seconds'')" "is_num (fld spec ''timeout_seconds'')"
proof -
  note h = assms [unfolded command_fields_def]
  show "\<exists>x xs. getitem spec ''argv'' = Inr (PList (x # xs)) \<and> is_str x"
    using h list_fld [of spec "''argv''"] by (cases "elems_of (fld spec ''argv'')") auto
  show "\<exists>s. getitem spec ''cwd'' = Inr (PStr s)"
    using h getitem_some_fld [of spec "''cwd''"] by (cases "fld spec ''cwd''") auto
  show "\<exists>d. getitem spec ''env'' = Inr (PDict d) \<and> list_all (\<lambda>(k, v). is_str v) d"
    using h dict_fld [of spec "''env''"] by (auto simp: list_all_iff)
  show "is_num (fld spec ''timeout_seconds'')"
    using h counter_is_num positive_counter by blast
  then show "getitem spec ''timeout_seconds'' = Inr (fld spec ''timeout_seconds'')"
    by (intro getitem_some_fld) auto
qed

lemma spec_is_dict: "command_fields spec \<Longrightarrow> is_dict spec"
  by (cases spec) (auto simp: command_fields_def fld_def items_of_def)

lemma py_less_num: "is_num a \<Longrightarrow> is_num b \<Longrightarrow> \<exists>c. py_less a b = Inr c"
  by (cases a; cases b) (auto simp: py_less_def)

lemma only_spec_pins:
  assumes "pinned m p"
  shows "only is_value_error (spec_pins m step spec)"
proof (cases "has_key spec ''execution_pins''")
  case True
  then have "is_dict spec" by (cases spec) (auto simp: has_key_def items_of_def)
  then obtain x where x: "getitem spec ''execution_pins'' = Inr x" using getitem_has_key True by blast
  show ?thesis using assms
    by (auto simp: spec_pins_def True x pinned_def pin_paths_ok intro!: only_intros)
qed (simp add: spec_pins_def)

lemma only_executable_rule:
  assumes "pinned m p" "command_fields spec" "spec_pins m step spec = Inr ()"
  shows "only is_value_error (executable_rule m step spec)"
proof -
  obtain x xs d where i: "getitem spec ''argv'' = Inr (PList (x # xs))" "getitem spec ''env'' = Inr (PDict d)"
    using spec_items [OF assms(2)] by blast
  have pins: "getitem m ''execution_pins'' = Inr (PList (p_pins p))"
    "pin_paths (PList (p_pins p)) = Inr (map (\<lambda>pin. fld pin ''path'') (p_pins p))"
    using assms(1) pin_paths_ok by (auto simp: pinned_def)
  have own: "\<exists>ps. pget spec ''execution_pins'' (PList qs) = Inr (PList ps)" for qs
  proof (cases "has_key spec ''execution_pins''")
    case True
    then have "is_dict spec" by (cases spec) (auto simp: has_key_def items_of_def)
    then obtain v where v: "getitem spec ''execution_pins'' = Inr v" using getitem_has_key True by blast
    with assms(3) True have "is_list v" using string_inventory_list by (auto simp: spec_pins_def ebind_eq_Inr)
    then show ?thesis using v by (cases v) (auto simp: getitem_eq_Inr pget_eq_Inr)
  next
    case False
    then have "map_of (items_of spec) ''execution_pins'' = None" by (simp add: has_key_def map_of_eq_None_iff)
    then show ?thesis using spec_is_dict [OF assms(2)] by (auto simp: pget_eq_Inr)
  qed
  obtain ps where ps: "pget spec ''execution_pins'' (PList (map (\<lambda>pin. fld pin ''path'') (p_pins p))) = Inr (PList ps)"
    using own by blast
  have env: "\<exists>v. getitem (PDict d) ''PATH'' = Inr v" if "has_key (PDict d) ''PATH''"
    using getitem_has_key [OF _ that] by auto
  show ?thesis
  proof (cases "is_absolute (str_of x)")
    case True
    then show ?thesis
      unfolding executable_rule_def i ebind.simps pins
      by (auto simp: first_item_def ps pins intro!: only_intros)
  next
    case False
    show ?thesis
    proof (cases "executable_form (str_of x) (PDict d)")
      case True
      then have "has_key (PDict d) ''PATH''" using False by (simp add: executable_form_def)
      then obtain v where "getitem (PDict d) ''PATH'' = Inr v" using env by blast
      then show ?thesis unfolding executable_rule_def i ebind.simps
        using False True by (auto simp: first_item_def intro!: only_intros simp del: access_simps)
    next
      case bad: False
      then show ?thesis unfolding executable_rule_def i ebind.simps by (simp add: first_item_def)
    qed
  qed
qed

lemma only_observation_budget:
  assumes "identified m" "command_fields spec"
  shows "only is_value_error (observation_budget m step spec)"
proof -
  obtain c where "py_less (PInt 5400) (fld spec ''timeout_seconds'') = Inr c"
    using py_less_num [OF _ spec_items(5) [OF assms(2)]] by fastforce
  then show ?thesis
    unfolding observation_budget_def identified_items [OF assms(1)] spec_items(4) [OF assms(2)] ebind.simps
    by (intro only_intros) simp_all
qed

lemma only_check_spec:
  assumes "pinned m p" "identified m"
  shows "only is_value_error (check_spec m x)"
proof (cases x)
  case (Pair step spec)
  show ?thesis unfolding check_spec_def Pair prod.case
  proof (intro only_ebind only_require only_spec_pins [OF assms(1)] is_value_error_simps)
    fix u assume u: "spec_pins m step spec = Inr u" and cf: "command_fields spec"
    obtain s where "getitem spec ''cwd'' = Inr (PStr s)" using spec_items(2) [OF cf] by blast
    then show "only is_value_error (getitem spec ''cwd'')" by simp
    show "only is_value_error (executable_rule m step spec)" using only_executable_rule [OF assms(1) cf] u by simp
    show "only is_value_error (observation_budget m step spec)" by (rule only_observation_budget [OF assms(2) cf])
  qed
qed

text \<open>The registered workloads and arms can be looked up in every per-workload table.\<close>

lemma by_workload:
  assumes "armed p" "d \<in> {p_commands p, p_facts p, p_exits p}" "w \<in> fst ` set (p_strata p)"
  shows "\<exists>a. getitem (PDict d) w = Inr a \<and> both_arms a"
proof -
  have "fst ` set d = fst ` set (p_strata p)" "list_all (\<lambda>(w, a). both_arms a) d"
    using assms(1,2) by (auto simp: armed_def)
  moreover from this assms(3) have "w \<in> set (keys (PDict d))" by simp
  then obtain x where "x \<in> set (vals (PDict d))" "getitem (PDict d) w = Inr x" using has_key_item [of "PDict d" w] by auto
  ultimately show ?thesis by (intro exI [of _ x]) (auto simp: list_all_iff)
qed

lemma by_arm: "both_arms a \<Longrightarrow> arm \<in> {''baseline'', ''candidate''} \<Longrightarrow> \<exists>x. getitem a arm = Inr x"
  using has_key_item [of a arm] by (auto simp: both_arms_def simp del: access_simps(1))

lemma only_arm_rules:
  assumes ws: "well_shaped m" and id: "identified m" and w: "w \<in> fst ` set (p_strata (parts_of m))"
    and arm: "arm \<in> {''baseline'', ''candidate''}" and c: "is_dict c"
  shows "only is_value_error (arm_rules m w (arm, c))"
proof -
  let ?p = "parts_of m"
  have tabs: "getitem m ''expected_facts'' = Inr (PDict (p_facts ?p))" "getitem m ''expected_exit'' = Inr (PDict (p_exits ?p))"
    and a: "armed ?p" and pin: "pinned m ?p"
    using ws by (auto simp: well_shaped_def has_parts_def)
  obtain fa ea where fa: "getitem (PDict (p_facts ?p)) w = Inr fa" "both_arms fa"
    and ea: "getitem (PDict (p_exits ?p)) w = Inr ea" "both_arms ea"
    using by_workload [OF a _ w] by blast
  obtain f e where f: "getitem fa arm = Inr f" and e: "getitem ea arm = Inr e"
    using by_arm [OF fa(2) arm] by_arm [OF ea(2) arm] by blast
  obtain d where d: "c = PDict d" using c by (cases c) auto
  note look = tabs fa(1) ea(1) f e identified_items(1) [OF id]
  have exp: "only is_value_error (arm_expectation m w arm)" if "is_dict f"
    unfolding arm_expectation_def look ebind.simps
    by (intro only_intros that) simp_all
  show ?thesis
    unfolding arm_rules_def look ebind.simps prod.case d key_list_def access_simps(3)
    by (intro only_intros only_check_spec [OF pin id] exp) simp_all
qed

lemma only_command_rules:
  assumes "well_shaped m" "identified m"
  shows "only is_value_error (command_rules m)"
proof -
  let ?p = "parts_of m"
  have c: "getitem m ''commands'' = Inr (PDict (p_commands ?p))" and a: "armed ?p" and s: "stepped ?p"
    using assms by (auto simp: well_shaped_def has_parts_def)
  have "only is_value_error (ebind (key_list arms) (\<lambda>ks. require (set ks = {''baseline'', ''candidate''}) (''both arm commands required: '' @ w) (
     ebind (py_items arms) (efor (arm_rules m w)))))" if wa: "(w, arms) \<in> set (p_commands ?p)" for w arms
  proof -
    have "fst ` set (p_commands ?p) = fst ` set (p_strata ?p)" "list_all (\<lambda>(w, a). both_arms a) (p_commands ?p)"
      using a by (auto simp: armed_def)
    then have "both_arms arms" "w \<in> fst ` set (p_strata ?p)" using wa by (auto simp: list_all_iff rev_image_eqI)
    then obtain d where d: "arms = PDict d" "fst ` set d = {''baseline'', ''candidate''}" by (cases arms) (auto simp: both_arms_def)
    have "is_dict c \<and> arm \<in> {''baseline'', ''candidate''}" if "(arm, c) \<in> set d" for arm c
    proof
      have "list_all (\<lambda>(arm, c). is_dict c \<and> set (keys c) = set STEPS \<and> list_all is_dict (vals c)) (items_of arms)"
        using s [unfolded stepped_def list_all_iff, THEN bspec, OF wa] by (simp add: list_all_iff)
      then show "is_dict c" using that d(1) by (auto simp: list_all_iff)
      have "arm \<in> fst ` set d" using that by force
      then show "arm \<in> {''baseline'', ''candidate''}" using d by simp
    qed
    then have "only is_value_error (arm_rules m w x)" if "x \<in> set d" for x
      using only_arm_rules [OF assms \<open>w \<in> _\<close>] that by (cases x) blast
    then show ?thesis unfolding d(1) key_list_def access_simps ebind.simps by (intro only_intros) simp_all
  qed
  then show ?thesis unfolding command_rules_def c ebind.simps access_simps by (intro only_efor) (simp add: split_beta)
qed

lemma only_manifest_identity: "only is_value_error (manifest_identity m)"
  unfolding manifest_identity_def by (intro only_intros) simp_all

lemma manifest_validates:
  "validate_manifest sl m = Inr () \<longleftrightarrow> validate_shapes sl m = Inr () \<and> manifest_identity m = Inr () \<and> manifest_lists m = Inr () \<and>
     frozen_protocol m = Inr () \<and> strata_rules m = Inr () \<and> date_rules m = Inr () \<and> command_rules m = Inr ()"
  by (auto simp: validate_manifest_def ebind_eq_Inr)


section \<open>An accepted plan can be ordered\<close>

text \<open>What \<open>order\<close> reads of an accepted manifest.\<close>

definition inputs_of :: "pv \<Rightarrow> plan_inputs" where
  "inputs_of m = \<lparr>plan_seed = str_of (fld m ''seed''), plan_experiment = str_of (fld m ''experiment''),
     plan_phase = str_of (fld m ''phase''),
     plan_strata = map (\<lambda>(w, c). (w, map (\<lambda>n. nat (int_of_pv n)) (elems_of c))) (items_of (fld m ''strata'')),
     plan_dates = map str_of (elems_of (fld m ''dates''))\<rparr>"

lemma show_nat_digits: "c \<in> set (show_nat n) \<Longrightarrow> is_digit c"
proof (induction n rule: show_nat.induct)
  case (1 n)
  have "is_digit (char_of (48 + k))" if "k < 10" for k :: nat
    using that by (auto simp: is_digit_def less_eq_char_def)
  then show ?case using 1 by (subst (asm) (2) show_nat.simps) (auto split: if_splits)
qed

lemma pad_nat_digits: "c \<in> set (pad_nat w n) \<Longrightarrow> is_digit c"
  using show_nat_digits by (auto simp: pad_nat_def Let_def is_digit_def)

lemma length_show_nat_mono: "m \<le> n \<Longrightarrow> length (show_nat m) \<le> length (show_nat n)"
proof (induction n arbitrary: m rule: show_nat.induct)
  case (1 n)
  show ?case
  proof (cases "m < 10")
    case True
    then show ?thesis by (simp add: show_nat.simps [of m] show_nat.simps [of n])
  next
    case False
    then have n: "\<not> n < 10" and "m div 10 \<le> n div 10" using 1 by (auto intro: div_le_mono)
    then have "length (show_nat (m div 10)) \<le> length (show_nat (n div 10))" using 1 by simp
    then show ?thesis using False n by (simp add: show_nat.simps [of m] show_nat.simps [of n])
  qed
qed

lemma length_pad_nat_mono: "m \<le> n \<Longrightarrow> length (pad_nat w m) \<le> length (pad_nat w n)"
  using length_show_nat_mono [of m n] by (auto simp: pad_nat_def Let_def)

lemma utf8_len_append [simp]: "utf8_len (s @ t) = utf8_len s + utf8_len t"
  by (simp add: utf8_len_def)

lemma utf8_len_Cons: "utf8_len (CHR ''-'' # s) = Suc (utf8_len s)"
  by (simp add: utf8_len_def char_code_def)

lemma utf8_len_digits: "list_all is_digit s \<Longrightarrow> utf8_len s = length s"
  by (induction s) (auto simp: utf8_len_def is_digit_def less_eq_char_def char_code_def)

lemma utf8_len_pad: "utf8_len (pad_nat w n) = length (pad_nat w n)"
  using pad_nat_digits by (intro utf8_len_digits) (auto simp: list_all_iff)

lemma block_name_mono: "j \<le> n \<Longrightarrow> utf8_len (block_name w i j) \<le> utf8_len (block_name w i n)"
  using length_pad_nat_mono [of j n 3] by (simp add: block_name_def utf8_len_pad utf8_len_Cons)

lemma block_name_no_slash: "safe_id w \<Longrightarrow> block_name w i j \<noteq> [] \<and> CHR ''/'' \<notin> set (block_name w i j)"
proof -
  assume "safe_id w"
  then have "CHR ''/'' \<notin> set w"
    by (auto simp: safe_id_def is_lower_def is_digit_def less_eq_char_def list_all_iff split: list.splits)
  moreover have "CHR ''/'' \<notin> set (pad_nat k n)" for k n
    using pad_nat_digits [of "CHR ''/''" k n] by (auto simp: is_digit_def less_eq_char_def)
  ultimately show ?thesis by (simp add: block_name_def)
qed

lemma workload_rows_origin:
  "workload_rows sha m w i counts = Inr rows \<Longrightarrow> r \<in> set rows \<Longrightarrow>
     \<exists>j n d. (j, n) \<in> set (enumerate i counts) \<and> (n > 0 \<longrightarrow> j \<le> length (plan_dates m) \<and> d = plan_dates m ! (j - 1)) \<and>
       r \<in> set (stratum_rows sha m w j n d)"
proof (induction counts arbitrary: i rows)
  case (Cons n counts)
  from Cons.prems(1) obtain rest where rest: "workload_rows sha m w (Suc i) counts = Inr rest"
    "rows = stratum_rows sha m w i n (if length (plan_dates m) < i then [] else plan_dates m ! (i - 1)) @ rest"
    and d: "length (plan_dates m) < i \<longrightarrow> n = 0"
    by (auto simp: ebind_eq_Inr split: if_splits)
  show ?case
  proof (cases "r \<in> set rest")
    case True
    then show ?thesis using Cons.IH [OF rest(1)] by auto
  next
    case False
    then have "r \<in> set (stratum_rows sha m w i n (if length (plan_dates m) < i then [] else plan_dates m ! (i - 1)))"
      using Cons.prems(2) rest(2) by simp
    then show ?thesis using d by (cases "length (plan_dates m) < i") (force, force)
  qed
qed simp

lemma stratum_row_block:
  assumes "r \<in> set (stratum_rows sha m w j n d)"
  obtains k where "1 \<le> k" "k \<le> n" "slot_block r = block_name w j k" "slot_date r = d" "slot_workload r = w"
proof -
  have "slot_block_id r \<in> set (block_ids n)"
    using assms stratum_rows_ids [of sha m w j n d, THEN mset_eq_setD] by (force simp: image_iff)
  then obtain k where "1 \<le> k" "k \<le> n" "slot_block_id r = pad_nat 3 k" by (auto simp: set_block_ids)
  then show ?thesis using that stratum_row_fields [OF assms] by (simp add: block_name_def)
qed

text \<open>What the accepted strata and dates say about the ordering's input.\<close>

lemma strata_rules_eq:
  assumes "well_shaped m" "strata_rules m = Inr ()" "(w, counts) \<in> set (plan_strata (inputs_of m))"
  shows "safe_id w \<and> (\<forall>(i, n) \<in> set (enumerate 1 counts). utf8_len (block_name w i n) \<le> 255)"
proof -
  let ?p = "parts_of m"
  have st: "getitem m ''strata'' = Inr (PDict (p_strata ?p))" and c: "counted ?p"
    using assms(1) by (auto simp: well_shaped_def has_parts_def)
  from assms(3) obtain v where v: "(w, v) \<in> set (p_strata ?p)" "counts = map (\<lambda>n. nat (int_of_pv n)) (elems_of v)"
    by (auto simp: inputs_of_def parts_of_def)
  have h: "list_all (\<lambda>(w, counts). safe_id w) (p_strata ?p)"
    "\<forall>x \<in> set (p_strata ?p). (case x of (w, counts) \<Rightarrow> ebind (py_iter counts) (\<lambda>ns. efor (\<lambda>(i, n).
       require (utf8_len (block_name w i (nat (int_of_pv n))) \<le> 255) ''composed block name exceeds 255 bytes'' (Inr ()))
       (enumerate 1 ns))) = Inr ()"
    using assms(2) unfolding strata_rules_def st ebind.simps access_simps(3)
    by (auto simp: ebind_eq_Inr)
  have en: "enumerate 1 counts = map (\<lambda>(i, n). (i, nat (int_of_pv n))) (enumerate 1 (elems_of v))"
    unfolding v(2) enumerate_eq_zip length_map by (simp add: zip_map2)
  have "\<forall>(i, n) \<in> set (enumerate 1 (elems_of v)). utf8_len (block_name w i (nat (int_of_pv n))) \<le> 255"
    using h(2) [THEN bspec, OF v(1)] counts_iter [OF c v(1)] by auto
  then have "\<forall>(i, n) \<in> set (enumerate 1 counts). utf8_len (block_name w i n) \<le> 255"
    unfolding en by auto
  moreover have "safe_id w" using h(1) v(1) by (auto simp: list_all_iff)
  ultimately show ?thesis by blast
qed

lemma date_rules_enough:
  assumes "well_shaped m" "date_rules m = Inr ()"
  shows "enough_dates (inputs_of m)"
proof -
  let ?p = "parts_of m"
  have st: "getitem m ''strata'' = Inr (PDict (p_strata ?p))" "getitem m ''dates'' = Inr (PList (p_dates ?p))" and c: "counted ?p"
    using assms(1) by (auto simp: well_shaped_def has_parts_def)
  let ?ls = "map length (map elems_of (map snd (p_strata ?p)))"
  have "Max (set ?ls) = length (p_dates ?p)"
    using assms(2) unfolding date_rules_def st ebind.simps access_simps strata_iter [OF c]
    by (auto simp: ebind_eq_Inr simp del: set_map)
  then have "l \<le> length (p_dates ?p)" if "l \<in> set ?ls" for l using Max_ge [OF finite_set that] by simp
  then show ?thesis by (fastforce simp: enough_dates_def list_all_iff inputs_of_def parts_of_def)
qed

text \<open>
  C24. An accepted manifest can be collected: its assignment order exists and covers every planned
  block once, every slot's date is one of the registered dates, and every slot's directory name is a
  single path component of at most 255 bytes.
\<close>

theorem accepted_plan_orders:
  assumes wf: "wf_pv m" and ok: "validate_manifest sl m = Inr ()"
  shows "\<exists>rows. order sha (inputs_of m) = Inr rows \<and>
    mset (map slot_key rows) = mset (concat (map planned (plan_strata (inputs_of m)))) \<and> distinct (map slot_key rows) \<and>
    (\<forall>r \<in> set rows. slot_date r \<in> set (plan_dates (inputs_of m)) \<and> utf8_len (slot_block r) \<le> 255 \<and>
       slot_block r \<noteq> [] \<and> CHR ''/'' \<notin> set (slot_block r))"
proof -
  let ?m = "inputs_of m"
  have ws: "well_shaped m" and sr: "strata_rules m = Inr ()" and dr: "date_rules m = Inr ()"
    using ok validate_shapes_shaped by (auto simp: manifest_validates)
  let ?xs = "sort_key fst (plan_strata ?m)"
  obtain parts where p: "list_all2 (\<lambda>x rows. workload_rows sha ?m (fst x) 1 (snd x) = Inr rows) ?xs parts"
    "order sha ?m = Inr (concat parts)" by (rule order_parts [OF date_rules_enough [OF ws dr]])
  have "mset (concat (map planned ?xs)) = mset (concat (map planned (plan_strata ?m)))"
    unfolding mset_concat sum_mset_sum_list [symmetric] mset_map mset_sort by (rule refl)
  then have keys: "mset (map slot_key (concat parts)) = mset (concat (map planned (plan_strata ?m)))"
    using parts_keys [OF p(1)] by simp
  have "wf_pv (PDict (p_strata (parts_of m)))"
    using wf_getitem [OF wf, of "''strata''"] ws by (simp add: well_shaped_def has_parts_def)
  then have "distinct (map fst (plan_strata ?m))"
    by (simp add: inputs_of_def parts_of_def comp_def split_beta)
  then have dist: "distinct (map slot_key (concat parts))"
    using keys distinct_all_planned mset_eq_imp_distinct_iff by blast
  have "slot_date r \<in> set (plan_dates ?m) \<and> utf8_len (slot_block r) \<le> 255 \<and> slot_block r \<noteq> [] \<and> CHR ''/'' \<notin> set (slot_block r)"
    if r: "r \<in> set (concat parts)" for r
  proof -
    obtain x rows where x: "x \<in> set ?xs" "workload_rows sha ?m (fst x) 1 (snd x) = Inr rows" "r \<in> set rows"
    proof -
      from r obtain rows where rows: "rows \<in> set parts" "r \<in> set rows" by auto
      then obtain i where i: "i < length parts" "rows = parts ! i" by (auto simp: in_set_conv_nth)
      have "i < length ?xs" using i(1) list_all2_lengthD [OF p(1)] by simp
      then have "?xs ! i \<in> set ?xs" by (rule nth_mem)
      then show ?thesis using that list_all2_nthD2 [OF p(1) i(1)] rows(2) i(2) by blast
    qed
    obtain j n d where j: "(j, n) \<in> set (enumerate 1 (snd x))"
      "n > 0 \<longrightarrow> j \<le> length (plan_dates ?m) \<and> d = plan_dates ?m ! (j - 1)" "r \<in> set (stratum_rows sha ?m (fst x) j n d)"
      using workload_rows_origin [OF x(2,3)] by blast
    obtain k where k: "1 \<le> k" "k \<le> n" "slot_block r = block_name (fst x) j k" "slot_date r = d"
      using stratum_row_block [OF j(3)] by metis
    have sx: "safe_id (fst x) \<and> (\<forall>(i, n) \<in> set (enumerate 1 (snd x)). utf8_len (block_name (fst x) i n) \<le> 255)"
      using strata_rules_eq [OF ws sr, of "fst x" "snd x"] x(1) by simp
    then have "utf8_len (block_name (fst x) j n) \<le> 255" using j(1) by auto
    then have "utf8_len (slot_block r) \<le> 255" using block_name_mono [OF k(2), of "fst x" j] k(3) by simp
    moreover have "slot_date r \<in> set (plan_dates ?m)"
    proof -
      have "1 \<le> j" using j(1) by (auto simp: in_set_enumerate_eq)
      then show ?thesis using k(1,2,4) j(2) by (auto intro!: nth_mem)
    qed
    ultimately show ?thesis using block_name_no_slash [of "fst x" j k] sx k(3) by simp
  qed
  then show ?thesis using p(2) keys dist by blast
qed

text \<open>A small accepted manifest.\<close>

definition sample_spec :: pv where
  "sample_spec = PDict [(''argv'', PList [PStr ''tool'']), (''cwd'', PStr ''/c''), (''timeout_seconds'', PInt 60),
     (''env'', PDict [(''PATH'', PStr ''/b'')]), (''cancel_grace_seconds'', PInt 25)]"

definition sample_by_arm :: "pv \<Rightarrow> pv" where
  "sample_by_arm v = PDict [(''w'', PDict [(''baseline'', v), (''candidate'', v)])]"

definition sample_pins :: pv where
  "sample_pins = PList [PDict [(''path'', PStr ''/b''), (''sha256'', PStr (replicate 64 (CHR ''0''))), (''role'', PStr ''r'')]]"

definition sample_plan :: pv where
  "sample_plan = PDict [(''schema'', PInt 1), (''experiment'', PStr ''E3''), (''campaign_id'', PStr ''c''), (''protocol_revision'', PInt 1),
     (''seed'', PStr ''s''), (''phase'', PStr ''p''), (''arms'', PDict [(''a'', PNone)]), (''inputs'', PDict [(''a'', PNone)]),
     (''runtime'', PDict [(''a'', PNone)]), (''environment'', PDict [(''a'', PNone)]), (''observation'', PDict [(''a'', PNone)]),
     (''sources'', PDict [(''a'', PNone)]),
     (''pins'', PList [PDict [(''path'', PStr ''b''), (''sha256'', PStr (replicate 64 (CHR ''0''))), (''role'', PStr ''r'')]]),
     (''execution_pins'', sample_pins),
     (''protocols'', PDict [(''p'', PDict [(''path'', PStr ''p''), (''sha256'', PStr (replicate 64 (CHR ''0'')))])]),
     (''quality_checks'', PList [PStr ''q'']), (''resource_metrics'', PList [PStr ''r'']), (''compare_facts'', PList [PStr ''f'']),
     (''redact_env'', PList []), (''strata'', PDict [(''w'', PList [PInt 1])]), (''dates'', PList [PStr ''2026-10-13'']),
     (''commands'', sample_by_arm (PDict (map (\<lambda>s. (s, sample_spec)) STEPS))),
     (''expected_facts'', sample_by_arm (PDict [(''ok'', PBool True)])),
     (''expected_exit'', sample_by_arm (PList [PInt 0]))]"

lemma sample_ok_0: "wf_pv sample_plan"
  by code_simp

lemma sample_ok_1: "validate_shapes (\<lambda>_. False) sample_plan = Inr ()"
  by code_simp

lemma sample_ok_2: "manifest_identity sample_plan = Inr ()"
  by code_simp

lemma sample_ok_3: "manifest_lists sample_plan = Inr ()"
  by code_simp

lemma sample_ok_4: "frozen_protocol sample_plan = Inr ()"
  by code_simp

lemma sample_ok_5: "strata_rules sample_plan = Inr ()"
  by code_simp

lemma sample_ok_6: "date_rules sample_plan = Inr ()"
  by code_simp

lemma sample_fields: "command_fields sample_spec"
  by (simp add: command_fields_def sample_spec_def positive_numeral nul_free_def char_of_def)

lemma sample_checks: "list_all (\<lambda>s. check_spec sample_plan (s, sample_spec) = Inr ()) STEPS"
proof -
  have "spec_pins sample_plan s sample_spec = Inr ()" for s
    by (simp add: spec_pins_def sample_spec_def)
  moreover have "executable_rule sample_plan s sample_spec = Inr ()" for s
    by (simp add: executable_rule_def sample_spec_def first_item_def executable_form_def is_absolute_def startswith_def)
  moreover have "observation_budget sample_plan s sample_spec = Inr ()" for s
    by (simp add: observation_budget_def sample_plan_def published_def)
  moreover have "getitem sample_spec ''cwd'' = Inr (PStr ''/c'')" by (simp add: sample_spec_def)
  ultimately show ?thesis
    by (simp add: check_spec_def sample_fields cwd_absolute_def is_absolute_def startswith_def list_all_iff)
qed

lemma sample_ok_7: "command_rules sample_plan = Inr ()"
proof -
  have c: "getitem sample_plan ''commands'' = Inr (sample_by_arm (PDict (map (\<lambda>s. (s, sample_spec)) STEPS)))"
    "getitem sample_plan ''expected_exit'' = Inr (sample_by_arm (PList [PInt 0]))"
    "getitem sample_plan ''expected_facts'' = Inr (sample_by_arm (PDict [(''ok'', PBool True)]))"
    "getitem sample_plan ''experiment'' = Inr (PStr ''E3'')"
    by (simp_all add: sample_plan_def)
  have ok: "efor (check_spec sample_plan) (map (\<lambda>s. (s, sample_spec)) STEPS) = Inr ()"
    using sample_checks unfolding efor_eq_Inr by (auto simp: list_all_iff)
  then have "ebind (efor (check_spec sample_plan) (map (\<lambda>s. (s, sample_spec)) STEPS)) f = f ()" for f :: "unit \<Rightarrow> unit res"
    by (simp only: ok ebind.simps)
  then show ?thesis
    by (simp add: command_rules_def c sample_by_arm_def arm_rules_def arm_expectation_def key_list_def comp_def)
qed

lemmas sample_plan_ok = sample_ok_0 sample_ok_1 sample_ok_2 sample_ok_3 sample_ok_4 sample_ok_5 sample_ok_6 sample_ok_7

lemma accepted_plan_orders_witness:
  "\<exists>rows. order id (inputs_of sample_plan) = Inr rows \<and> (\<forall>r \<in> set rows. utf8_len (slot_block r) \<le> 255)"
  using accepted_plan_orders [of sample_plan "\<lambda>_. False" id] sample_plan_ok unfolding manifest_validates by blast

end
