(* ===== verification/Guard.thy ===== *)
theory Guard
  imports Plan
begin

text \<open>
  \<open>experiments/gate-performance/harness/storage.py\<close>: the guard of a campaign bundle while hooks run,
  with \<open>validate_paths\<close> of \<open>harness/redaction.py\<close> which it calls.

  The state of the world is the bundle's tree, the identity of its lock file as \<open>os.stat\<close> sees it, and
  the guard.  A hook may do anything to the tree and the lock; the collector's operations are
  \<open>check\<close>, \<open>mkdir\<close>, \<open>own\<close>, \<open>checkpoint\<close> and \<open>command_complete\<close>.  One operation is one step: as in the
  code's contract, no hook runs while the collector observes the tree.  The inventory's digest is an
  argument; new names are examined in sorted order where Python iterates over a set.
  Locale \<open>sticky_machine\<close> is the contract of an operation set whose first violation is final.
\<close>

section \<open>Owned names\<close>

definition CONTROL :: "string list" where
  "CONTROL = [''attempt.json'', ''trial.json'', ''redactions.json'', ''cleanup-inputs.json'']"

definition receipt_names :: "string \<Rightarrow> string list" where
  "receipt_names step = map (\<lambda>suffix. step @ suffix) [''.command.json'', ''.stdout'', ''.stderr'']"

definition COMMAND_FILES :: "string list" where
  "COMMAND_FILES = concat (map receipt_names STEPS)"

definition owned_name :: "string \<Rightarrow> bool" where
  "owned_name n = (n \<in> set (CONTROL @ COMMAND_FILES))"

definition owned_paths :: "path \<Rightarrow> path list" where
  "owned_paths d = map (\<lambda>n. d @ [n]) (CONTROL @ COMMAND_FILES)"

section \<open>Observations of the tree\<close>

definition below :: "path \<Rightarrow> path \<Rightarrow> bool" where
  "below d p = (take (length d) p = d \<and> p \<noteq> d)"

definition subtree :: "path \<Rightarrow> bundle_tree \<Rightarrow> bundle_tree" where
  "subtree d b = filter (\<lambda>(p, n). below d p) b"

text \<open>No entry below \<open>d\<close>, except the owned ones, has a secret in its relative name.\<close>

definition validate_paths :: "string list \<Rightarrow> path list \<Rightarrow> path \<Rightarrow> bundle_tree \<Rightarrow> unit res" where
  "validate_paths secrets owned d b = ebind (entries (subtree d b)) (efor (\<lambda>(p, n).
     require (p \<in> set owned \<or> \<not> list_ex (contains (path_str (drop (length d) p))) secrets)
       ''secret-bearing relative path in evidence bundle'' (Inr ())))"

section \<open>The guard\<close>

record guard =
  g_lock :: inode
  g_hashes :: "(string \<times> pv) list"
  g_active :: "path option"
  g_error :: "string option"

definition new_guard :: "(string \<Rightarrow> string) \<Rightarrow> inode res \<Rightarrow> bundle_tree \<Rightarrow> guard res" where
  "new_guard sha lock b = ebind lock (\<lambda>i. ebind (bundle_inventory sha b) (\<lambda>hs.
     Inr \<lparr>g_lock = i, g_hashes = hs, g_active = None, g_error = None\<rparr>))"

definition retained_ok :: "string list \<Rightarrow> (string \<times> pv) list \<Rightarrow> (string \<times> pv) list \<Rightarrow> unit res" where
  "retained_ok writing actual hashes = efor (\<lambda>(name, checksum).
     require (name \<in> set writing \<or> map_of actual name = Some checksum)
       (''protected evidence changed during collection: '' @ name) (Inr ())) hashes"

definition addition_ok :: "path option \<Rightarrow> bundle_tree \<Rightarrow> string \<Rightarrow> unit res" where
  "addition_ok active b name = ebind (child (\<lambda>p. map_of b p = Some Symlink) [] (PStr name)) (\<lambda>p.
     case active of
       None \<Rightarrow> Inl (ValueError (''unregistered evidence added during collection: '' @ name))
     | Some d \<Rightarrow>
         require (below d p) (''unregistered evidence added during collection: '' @ name) (
         require (\<not> (butlast p = d \<and> owned_name (last p))) (''hook wrote collector-owned file: '' @ name) (Inr ())))"

definition inspect :: "(string \<Rightarrow> string) \<Rightarrow> string list \<Rightarrow> inode res \<Rightarrow> string list \<Rightarrow> bundle_tree \<Rightarrow> guard \<Rightarrow> unit res" where
  "inspect sha secrets lock writing b g =
     ebind lock (\<lambda>i. require (i = g_lock g) ''protected campaign lock replaced during collection'' (
     ebind (case g_active g of None \<Rightarrow> Inr () | Some d \<Rightarrow> validate_paths secrets (owned_paths d) d b) (\<lambda>_.
     ebind (bundle_inventory sha b) (\<lambda>actual.
     ebind (retained_ok writing actual (g_hashes g)) (\<lambda>_.
     efor (addition_ok (g_active g) b)
       (filter (\<lambda>n. n \<notin> set (map fst (g_hashes g)) \<and> n \<notin> set writing) (map fst actual)))))))"

definition check :: "(string \<Rightarrow> string) \<Rightarrow> string list \<Rightarrow> inode res \<Rightarrow> string list \<Rightarrow> bundle_tree \<Rightarrow> guard \<Rightarrow> guard \<times> unit res" where
  "check sha secrets lock writing b g = (case g_error g of
     Some m \<Rightarrow> (g, Inl (ValueError m))
   | None \<Rightarrow> (case inspect sha secrets lock writing b g of
       Inl e \<Rightarrow> (g\<lparr>g_error := Some (exn_text e)\<rparr>, Inl e)
     | Inr _ \<Rightarrow> (g, Inr ())))"

section \<open>The collector's operations on the guarded bundle\<close>

record world =
  w_tree :: bundle_tree
  w_lock :: "inode res"
  w_guard :: guard

definition dict_set :: "string \<Rightarrow> 'a \<Rightarrow> (string \<times> 'a) list \<Rightarrow> (string \<times> 'a) list" where
  "dict_set k v d = (if k \<in> set (map fst d) then dict_put k v d else d @ [(k, v)])"

definition record_hash :: "string \<Rightarrow> pv \<Rightarrow> guard \<Rightarrow> guard" where
  "record_hash n v g = g\<lparr>g_hashes := dict_set n v (g_hashes g)\<rparr>"

text \<open>An operation first checks; what it does then is \<open>act\<close>.\<close>

definition after_check :: "(string \<Rightarrow> string) \<Rightarrow> string list \<Rightarrow> string list \<Rightarrow> (world \<Rightarrow> world \<times> unit res) \<Rightarrow> world \<Rightarrow> world \<times> unit res" where
  "after_check sha secrets writing act w =
     (case check sha secrets (w_lock w) writing (w_tree w) (w_guard w) of
       (g, Inl e) \<Rightarrow> (w\<lparr>w_guard := g\<rparr>, Inl e)
     | (g, Inr _) \<Rightarrow> act (w\<lparr>w_guard := g\<rparr>))"

definition parent_is_dir :: "bundle_tree \<Rightarrow> path \<Rightarrow> bool" where
  "parent_is_dir b p = (p \<noteq> [] \<and> (butlast p = [] \<or> map_of b (butlast p) = Some Dir))"

definition mkdir :: "path \<Rightarrow> world \<Rightarrow> world \<times> unit res" where
  "mkdir p w = (if \<not> parent_is_dir (w_tree w) p \<or> map_of (w_tree w) p \<noteq> None then (w, Inl (OSError (path_str p)))
     else (w\<lparr>w_tree := (p, Dir) # w_tree w, w_guard := record_hash (path_str p) PNone (w_guard w)\<rparr>, Inr ()))"

definition own :: "(string \<Rightarrow> string) \<Rightarrow> path \<Rightarrow> inode \<Rightarrow> string \<Rightarrow> world \<Rightarrow> world \<times> unit res" where
  "own sha p fresh json w =
     (if \<not> parent_is_dir (w_tree w) p \<or> map_of (w_tree w) p = Some Dir then (w, Inl (OSError (path_str p)))
      else (w\<lparr>w_tree := put_file p fresh json (w_tree w),
              w_guard := record_hash (path_str p) (PStr (sha json)) (w_guard w)\<rparr>, Inr ()))"

definition checkpoint :: "(string \<Rightarrow> string) \<Rightarrow> world \<Rightarrow> world \<times> unit res" where
  "checkpoint sha w = (case bundle_inventory sha (w_tree w) of
     Inl e \<Rightarrow> (w, Inl e)
   | Inr hs \<Rightarrow> (w\<lparr>w_guard := (w_guard w)\<lparr>g_hashes := hs\<rparr>\<rparr>, Inr ()))"

text \<open>A step's receipts are recorded once each.\<close>

fun record_receipts :: "(string \<Rightarrow> string) \<Rightarrow> path list \<Rightarrow> world \<Rightarrow> world \<times> unit res" where
  "record_receipts sha [] w = (w, Inr ())"
| "record_receipts sha (p # ps) w =
     (let name = path_str p; g = w_guard w in
      if name \<in> set (map fst (g_hashes g)) then
        (w\<lparr>w_guard := g\<lparr>g_error := Some (''command executed twice: '' @ name)\<rparr>\<rparr>,
         Inl (ValueError (''command executed twice: '' @ name)))
      else (case map_of (w_tree w) p of
          None \<Rightarrow> record_receipts sha ps w
        | Some n \<Rightarrow> (if is_file n then record_receipts sha ps (w\<lparr>w_guard := record_hash name (PStr (sha (bytes_of n))) g\<rparr>)
                     else (w, Inl (OSError name)))))"

definition receipt_paths :: "path \<Rightarrow> string \<Rightarrow> path list" where
  "receipt_paths d step = map (\<lambda>n. d @ [n]) (receipt_names step)"

datatype event =
    Hook bundle_tree "inode res"
  | Activate "path option"
  | Check
  | Mkdir path
  | Own path inode string
  | Checkpoint
  | Complete path string

fun guard_step :: "(string \<Rightarrow> string) \<Rightarrow> string list \<Rightarrow> event \<Rightarrow> world \<Rightarrow> world \<times> unit res" where
  "guard_step sha secrets (Hook b lock) w = (w\<lparr>w_tree := b, w_lock := lock\<rparr>, Inr ())"
| "guard_step sha secrets (Activate d) w = (w\<lparr>w_guard := (w_guard w)\<lparr>g_active := d\<rparr>\<rparr>, Inr ())"
| "guard_step sha secrets Check w = after_check sha secrets [] (\<lambda>w. (w, Inr ())) w"
| "guard_step sha secrets (Mkdir p) w = after_check sha secrets [] (mkdir p) w"
| "guard_step sha secrets (Own p i json) w = after_check sha secrets [] (own sha p i json) w"
| "guard_step sha secrets Checkpoint w = after_check sha secrets [] (checkpoint sha) w"
| "guard_step sha secrets (Complete d name) w =
     after_check sha secrets (map path_str (receipt_paths d name)) (record_receipts sha (receipt_paths d name)) w"

text \<open>A history of hooks and operations; the collector may or may not stop at a refusal.\<close>

fun history :: "('e \<Rightarrow> 's \<Rightarrow> 's \<times> 'r) \<Rightarrow> 'e list \<Rightarrow> 's \<Rightarrow> 's" where
  "history f [] s = s"
| "history f (e # es) s = history f es (fst (f e s))"

section \<open>A violation is final\<close>

locale sticky_machine =
  fixes act :: "'e \<Rightarrow> 's \<Rightarrow> 's \<times> unit res"
    and failed :: "'s \<Rightarrow> string option"
    and guarded :: "'e \<Rightarrow> bool"
  assumes keeps: "failed s = Some m \<Longrightarrow> failed (fst (act e s)) = Some m"
    and refuses: "failed s = Some m \<Longrightarrow> guarded e \<Longrightarrow> snd (act e s) = Inl (ValueError m)"
begin

lemma history_keeps: "failed s = Some m \<Longrightarrow> failed (history act es s) = Some m"
  by (induction es arbitrary: s) (auto intro: keeps)

lemma refused_ever_after: "failed s = Some m \<Longrightarrow> guarded e \<Longrightarrow> snd (act e (history act es s)) = Inl (ValueError m)"
  by (rule refuses [OF history_keeps])

lemma accepted_never_failed: "guarded e \<Longrightarrow> snd (act e (history act es s)) = Inr () \<Longrightarrow> failed s = None"
  using refused_ever_after [of s _ e es] by (cases "failed s") auto

end

definition guarded :: "event \<Rightarrow> bool" where
  "guarded e = (case e of Hook _ _ \<Rightarrow> False | Activate _ \<Rightarrow> False | _ \<Rightarrow> True)"

definition violation :: "world \<Rightarrow> string option" where
  "violation w = g_error (w_guard w)"

lemma after_check_failed:
  "violation w = Some m \<Longrightarrow> after_check sha secrets writing act w = (w, Inl (ValueError m))"
  by (simp add: after_check_def check_def violation_def)

interpretation guard_machine: sticky_machine "guard_step sha secrets" violation guarded for sha secrets
proof
  fix w m e assume v: "violation w = Some m"
  then show "violation (fst (guard_step sha secrets e w)) = Some m"
    by (cases e) (simp_all add: after_check_failed, simp_all add: violation_def)
  assume "guarded e"
  then show "snd (guard_step sha secrets e w) = Inl (ValueError m)"
    using v by (cases e) (simp_all add: after_check_failed guarded_def)
qed

section \<open>Retained evidence\<close>

definition writes :: "event \<Rightarrow> string \<Rightarrow> bool" where
  "writes e n = (case e of Mkdir p \<Rightarrow> path_str p = n | Own p i json \<Rightarrow> path_str p = n | _ \<Rightarrow> False)"

definition retained :: "world \<Rightarrow> string \<Rightarrow> pv option" where
  "retained w = map_of (g_hashes (w_guard w))"

lemma map_of_dict_put: "map_of (dict_put k v d) n = (if n = k \<and> k \<in> set (map fst d) then Some v else map_of d n)"
proof (induction d)
  case (Cons x d)
  then show ?case by (cases x; cases "n = k") (auto simp: dict_put_def)
qed (simp add: dict_put_def)

lemma map_of_dict_set: "map_of (dict_set k v d) n = (if n = k then Some v else map_of d n)"
proof (cases "k \<in> set (map fst d)")
  case False
  then have "map_of d k = None" by (simp add: map_of_eq_None_iff)
  with False show ?thesis by (auto simp: dict_set_def map_add_def split: option.splits)
qed (simp add: dict_set_def map_of_dict_put)

lemma retained_record_hash [simp]:
  "retained (w\<lparr>w_guard := record_hash k v (w_guard w)\<rparr>) n = (if n = k then Some v else retained w n)"
  by (simp add: retained_def record_hash_def map_of_dict_set)

lemma retained_tree [simp]: "retained (w\<lparr>w_tree := b\<rparr>) = retained w" "retained (w\<lparr>w_lock := l\<rparr>) = retained w"
  by (simp_all add: retained_def)

lemma retained_guard: "retained (w\<lparr>w_guard := g\<rparr>) n = map_of (g_hashes g) n"
  by (simp add: retained_def)

text \<open>What an accepted check says about the tree.\<close>

lemma check_accepts:
  assumes "check sha secrets lock writing b g = (g', Inr ())"
  shows "g' = g \<and> g_error g = None \<and> inspect sha secrets lock writing b g = Inr ()"
  using assms by (auto simp: check_def split: option.splits sum.splits)

lemma check_hashes: "g_hashes (fst (check sha secrets lock writing b g)) = g_hashes g"
  by (auto simp: check_def split: option.splits sum.splits)

lemma inspect_retained:
  assumes "inspect sha secrets lock writing b g = Inr ()" "map_of (g_hashes g) n = Some h" "n \<notin> set writing"
  shows "\<exists>iv. bundle_inventory sha b = Inr iv \<and> map_of iv n = Some h"
proof -
  from assms(1) obtain iv where iv: "bundle_inventory sha b = Inr iv" "retained_ok writing iv (g_hashes g) = Inr ()"
    unfolding inspect_def by (auto simp: ebind_eq_Inr)
  have "(n, h) \<in> set (g_hashes g)" using assms(2) by (rule map_of_SomeD)
  then show ?thesis using iv assms(3) by (auto simp: retained_ok_def)
qed

text \<open>An operation keeps a retained hash when the check does and its own action does.\<close>

lemma after_check_retains:
  assumes "retained w n = Some h"
    and "\<And>g. g = w_guard w \<Longrightarrow> inspect sha secrets (w_lock w) writing (w_tree w) g = Inr () \<Longrightarrow> retained (fst (act w)) n = Some h"
  shows "retained (fst (after_check sha secrets writing act w)) n = Some h"
proof (cases "check sha secrets (w_lock w) writing (w_tree w) (w_guard w)")
  case (Pair g r)
  show ?thesis
  proof (cases r)
    case (Inl e)
    have "g_hashes g = g_hashes (w_guard w)" using check_hashes [of sha secrets "w_lock w" writing "w_tree w" "w_guard w"] Pair by simp
    then show ?thesis using assms(1) Inl Pair by (simp add: after_check_def retained_def)
  next
    case (Inr u)
    then have "check sha secrets (w_lock w) writing (w_tree w) (w_guard w) = (g, Inr ())" using Pair by simp
    from check_accepts [OF this] have "g = w_guard w" "inspect sha secrets (w_lock w) writing (w_tree w) g = Inr ()" by auto
    then show ?thesis using assms(2) Inr Pair by (simp add: after_check_def)
  qed
qed

lemma mkdir_retains: "path_str p \<noteq> n \<Longrightarrow> retained (fst (mkdir p w)) n = retained w n"
  by (auto simp: mkdir_def retained_def record_hash_def map_of_dict_set)

lemma own_retains: "path_str p \<noteq> n \<Longrightarrow> retained (fst (own sha p i json w)) n = retained w n"
  by (auto simp: own_def retained_def record_hash_def map_of_dict_set)

lemma record_receipts_retains: "retained w n = Some h \<Longrightarrow> retained (fst (record_receipts sha ps w)) n = Some h"
proof (induction ps arbitrary: w)
  case (Cons p ps)
  show ?case
  proof (cases "path_str p \<in> set (map fst (g_hashes (w_guard w)))")
    case True
    then show ?thesis using Cons.prems by (simp add: Let_def retained_def)
  next
    case False
    then have "n \<noteq> path_str p" using Cons.prems map_of_eq_None_iff [of "g_hashes (w_guard w)" "path_str p"]
      by (auto simp: retained_def)
    then show ?thesis using False Cons by (simp add: Let_def split: option.split)
  qed
qed simp

lemma checkpoint_retains:
  assumes "retained w n = Some h" "inspect sha secrets (w_lock w) [] (w_tree w) (w_guard w) = Inr ()"
  shows "retained (fst (checkpoint sha w)) n = Some h"
proof -
  have "map_of (g_hashes (w_guard w)) n = Some h" using assms(1) by (simp add: retained_def)
  then obtain iv where "bundle_inventory sha (w_tree w) = Inr iv" "map_of iv n = Some h"
    using inspect_retained [OF assms(2)] by auto
  then show ?thesis by (simp add: checkpoint_def retained_def)
qed

lemma guard_step_retains:
  assumes "retained w n = Some h" "\<not> writes e n"
  shows "retained (fst (guard_step sha secrets e w)) n = Some h"
proof (cases e)
  case (Activate d)
  then show ?thesis using assms by (simp add: retained_def)
next
  case Checkpoint
  then show ?thesis using checkpoint_retains assms by (auto intro!: after_check_retains)
qed (use assms in \<open>auto simp: writes_def mkdir_retains own_retains intro!: after_check_retains record_receipts_retains\<close>)

lemma history_retains:
  "retained w n = Some h \<Longrightarrow> \<forall>e \<in> set es. \<not> writes e n \<Longrightarrow> retained (history (guard_step sha secrets) es w) n = Some h"
  by (induction es arbitrary: w) (auto intro: guard_step_retains)

lemma inventory_entry: "bundle_inventory sha b = Inr iv \<Longrightarrow> map_of iv n = Some h \<Longrightarrow>
    \<exists>p nd. (p, nd) \<in> set b \<and> path_str p = n \<and> h = (if is_dir nd then PNone else PStr (sha (bytes_of nd)))"
proof -
  assume iv: "bundle_inventory sha b = Inr iv" "map_of iv n = Some h"
  then have "iv = map (inv_entry sha) (sort_key fst b)" by (simp add: bundle_inventory_eq_Inr)
  moreover have "(n, h) \<in> set iv" using iv(2) by (rule map_of_SomeD)
  ultimately obtain x where "x \<in> set b" "(n, h) = inv_entry sha x" by auto
  then show ?thesis by (intro exI [of _ "fst x"] exI [of _ "snd x"]) (simp add: inv_entry_def)
qed

text \<open>
  C4. Retained evidence cannot be changed unnoticed: whatever hooks do to the bundle and whatever the
  collector does, if the collector itself never writes a name again and a later check is accepted,
  then the bundle still holds the entry of that name with the digest recorded for it.
\<close>

theorem retained_evidence_immutable:
  assumes "map_of (g_hashes (w_guard w)) n = Some h" "\<forall>e \<in> set es. \<not> writes e n"
    and "snd (guard_step sha secrets Check (history (guard_step sha secrets) es w)) = Inr ()"
  shows "\<exists>p nd. (p, nd) \<in> set (w_tree (history (guard_step sha secrets) es w)) \<and> path_str p = n \<and>
    h = (if is_dir nd then PNone else PStr (sha (bytes_of nd)))"
proof -
  let ?w = "history (guard_step sha secrets) es w"
  have ret: "map_of (g_hashes (w_guard ?w)) n = Some h"
    using history_retains [of w n h es sha secrets] assms(1,2) by (simp add: retained_def)
  obtain g r where c: "check sha secrets (w_lock ?w) [] (w_tree ?w) (w_guard ?w) = (g, r)" by fastforce
  then have "r = Inr ()" using assms(3) by (cases r) (simp_all add: after_check_def)
  with c have "inspect sha secrets (w_lock ?w) [] (w_tree ?w) (w_guard ?w) = Inr ()" using check_accepts by blast
  from inspect_retained [OF this ret] show ?thesis using inventory_entry by fastforce
qed

definition sample_world :: "bundle_tree \<Rightarrow> world" where
  "sample_world b = \<lparr>w_tree = b, w_lock = Inr \<lparr>dev = 0, ino = 9\<rparr>,
     w_guard = \<lparr>g_lock = \<lparr>dev = 0, ino = 9\<rparr>, g_hashes = [(''a'', PStr ''x'')], g_active = None, g_error = None\<rparr>\<rparr>"

lemma retained_evidence_immutable_witness:
  "\<exists>p nd. (p, nd) \<in> set [([''a''], File \<lparr>dev = 0, ino = 2\<rparr> 2 ''x'')] \<and> path_str p = ''a'' \<and>
    PStr ''x'' = (if is_dir nd then PNone else PStr (id (bytes_of nd)))"
proof -
  let ?w = "sample_world [([''a''], File \<lparr>dev = 0, ino = 1\<rparr> 2 ''x'')]"
  let ?b = "[([''a''], File \<lparr>dev = 0, ino = 2\<rparr> 2 ''x'')]"
  let ?es = "[Hook ?b (Inr \<lparr>dev = 0, ino = 9\<rparr>), Checkpoint]"
  have iv: "bundle_inventory id ?b = Inr [(''a'', PStr ''x'')]"
    by (simp add: bundle_inventory_eq_Inr regular_def is_file_def inv_entry_def path_str_def is_dir_def bytes_of_def)
  have ok: "check id [] (Inr \<lparr>dev = 0, ino = 9\<rparr>) [] ?b g = (g, Inr ())" if "g = w_guard ?w" for g
    by (simp add: that sample_world_def check_def inspect_def iv retained_ok_def)
  have w: "w_tree (fst (guard_step id [] Checkpoint (fst (guard_step id [] (Hook ?b (Inr \<lparr>dev = 0, ino = 9\<rparr>)) ?w)))) = ?b"
    "w_guard (fst (guard_step id [] Checkpoint (fst (guard_step id [] (Hook ?b (Inr \<lparr>dev = 0, ino = 9\<rparr>)) ?w)))) = w_guard ?w"
    "w_lock (fst (guard_step id [] Checkpoint (fst (guard_step id [] (Hook ?b (Inr \<lparr>dev = 0, ino = 9\<rparr>)) ?w)))) = Inr \<lparr>dev = 0, ino = 9\<rparr>"
    by (simp_all add: after_check_def ok checkpoint_def iv) (simp_all add: sample_world_def)
  have "snd (guard_step id [] Check (history (guard_step id []) ?es ?w)) = Inr ()"
    unfolding history.simps guard_step.simps(3) after_check_def w by (simp add: ok)
  then have "\<exists>p nd. (p, nd) \<in> set (w_tree (history (guard_step id []) ?es ?w)) \<and> path_str p = ''a'' \<and>
      PStr ''x'' = (if is_dir nd then PNone else PStr (id (bytes_of nd)))"
    by (intro retained_evidence_immutable [of ?w "''a''" "PStr ''x''" ?es]) (simp_all add: sample_world_def writes_def)
  then show ?thesis unfolding history.simps w .
qed

text \<open>
  A violation is final: once the guard has recorded one, every later operation of the collector
  raises it again and no retained hash changes, whatever hooks restore in between.
\<close>

theorem violation_is_final:
  assumes "g_error (w_guard w) = Some m" "guarded e"
  shows "snd (guard_step sha secrets e (history (guard_step sha secrets) es w)) = Inl (ValueError m) \<and>
    g_hashes (w_guard (history (guard_step sha secrets) es w)) = g_hashes (w_guard w)"
proof
  have v: "violation w = Some m" using assms(1) by (simp add: violation_def)
  show "snd (guard_step sha secrets e (history (guard_step sha secrets) es w)) = Inl (ValueError m)"
    by (rule guard_machine.refused_ever_after [OF v assms(2)])
  have one: "g_hashes (w_guard (fst (guard_step sha secrets e w))) = g_hashes (w_guard w)" if "violation w = Some m" for e w
    using that by (cases e) (simp_all add: after_check_failed)
  show "g_hashes (w_guard (history (guard_step sha secrets) es w)) = g_hashes (w_guard w)"
    using v
  proof (induction es arbitrary: w)
    case (Cons e es)
    then show ?case using one [of w e] guard_machine.keeps [of w m sha secrets e] by simp
  qed simp
qed

lemma violation_is_final_witness:
  "snd (guard_step id [] Checkpoint (history (guard_step id []) [Hook [] (Inr \<lparr>dev = 0, ino = 9\<rparr>), Check]
     (sample_world []\<lparr>w_guard := \<lparr>g_lock = \<lparr>dev = 0, ino = 9\<rparr>, g_hashes = [], g_active = None, g_error = Some ''x''\<rparr>\<rparr>))) = Inl (ValueError ''x'')"
  using violation_is_final [of "sample_world []\<lparr>w_guard := \<lparr>g_lock = \<lparr>dev = 0, ino = 9\<rparr>, g_hashes = [], g_active = None, g_error = Some ''x''\<rparr>\<rparr>"
      "''x''" Checkpoint id "[]" "[Hook [] (Inr \<lparr>dev = 0, ino = 9\<rparr>), Check]"]
  by (simp add: guarded_def)

end
