(* ===== verification/CI.thy ===== *)
theory CI
  imports Plan
begin

text \<open>
  \<open>experiments/gate-performance/harness/ci.py\<close>: \<open>workflow_bounds\<close> and \<open>endpoint\<close>, which reduce the
  provider's record of one workflow attempt to its durations and its peak runner concurrency, and
  \<open>timestamp\<close> of \<open>harness/common.py\<close>.  (\<open>validate_inventory\<close> is in theory \<open>Plan\<close>.)

  An instant is its number of microseconds.  \<open>fromiso\<close> is \<open>datetime.fromisoformat\<close>: the instant
  and, when the text has one, the UTC offset in seconds.  \<open>fsum\<close> is the interpreter's \<open>sum\<close> of
  floats, whose rounding depends on the Python version.
\<close>

type_synonym instant = int

type_synonym iso_reader = "string \<Rightarrow> (instant \<times> int option) res"

definition zulu :: "string \<Rightarrow> string" where
  "zulu s = concat (map (\<lambda>c. if c = CHR ''Z'' then ''+00:00'' else [c]) s)"

definition timestamp :: "iso_reader \<Rightarrow> pv \<Rightarrow> instant res" where
  "timestamp fromiso v =
     require (is_str v) ''timestamp must be a UTC string'' (
     ebind (fromiso (zulu (str_of v))) (\<lambda>(t, offset).
     require (offset = Some 0) (''timestamp must use UTC: '' @ str_of v) (Inr t)))"

text \<open>\<open>(b - a).total_seconds()\<close>\<close>

definition total_seconds :: "int \<Rightarrow> pv res" where
  "total_seconds us = py_div (PInt us) (PInt 1000000)"

definition pos_int :: "pv \<Rightarrow> bool" where
  "pos_int v = (is_int v \<and> 0 < int_of_pv v)"

section \<open>The run and its job pages\<close>

definition run_matches :: "pv \<Rightarrow> pv \<Rightarrow> unit res" where
  "run_matches snap inventory = item snap ''run'' (\<lambda>run. ebind (pgetn run ''id'') (\<lambda>i.
     require (pos_int i) ''CI run ID must be a positive integer'' (
     ebind (pgetn run ''status'') (\<lambda>st. ebind (pgetn run ''run_attempt'') (\<lambda>attempt.
     erequire (eand (Inr (st = PStr ''completed'' \<and> attempt = PInt 1))
       (eand (item run ''head_sha'' (\<lambda>h. item inventory ''execution_sha'' (\<lambda>x. Inr (py_eq h x))))
             (item snap ''repository'' (\<lambda>r. item inventory ''repository'' (\<lambda>q. Inr (py_eq r q))))))
       ''CI attempt/repository/revision mismatch'' (Inr ()))))))"

text \<open>The jobs of all pages, once the pages are complete and free of duplicates.\<close>

definition page_jobs :: "pv \<Rightarrow> pv list res" where
  "page_jobs snap = item snap ''pages'' (\<lambda>ps. ebind (py_iter ps) (\<lambda>pages.
     erequire (eall (\<lambda>p. ebind (pgetn p ''total_count'') (\<lambda>n. Inr (is_int n \<and> 0 \<le> int_of_pv n))) pages)
       ''CI jobs total_count must be a nonnegative integer on every page'' (
     require (pages \<noteq> []) ''inconsistent jobs pages'' (
     item (hd pages) ''total_count'' (\<lambda>total_count.
     erequire (eall (\<lambda>p. item p ''total_count'' (\<lambda>n. Inr (n = total_count))) pages) ''inconsistent jobs pages'' (
     ebind (emap (\<lambda>p. item p ''jobs'' py_iter) pages) (\<lambda>jss.
     erequire (eall (\<lambda>j. eall (\<lambda>k. ebind (pgetn j k) (\<lambda>v. Inr (pos_int v))) [''id'', ''run_id'']) (concat jss))
       ''CI job and run IDs must be positive integers'' (
     ebind (emap (\<lambda>j. getitem j ''id'') (concat jss)) (\<lambda>ids.
     require (int (length (concat jss)) = int_of_pv total_count \<and> distinct ids) ''missing or duplicated jobs pages'' (
     Inr (concat jss)))))))))))"

definition jobs_match :: "pv \<Rightarrow> pv \<Rightarrow> pv list \<Rightarrow> unit res" where
  "jobs_match snap inventory jobs = item snap ''run'' (\<lambda>run.
     erequire (eall (\<lambda>j. item j ''run_id'' (\<lambda>r. item run ''id'' (\<lambda>i. eand (Inr (py_eq r i))
         (ebind (pgetn j ''run_attempt'') (\<lambda>a. eand (Inr (a = PInt 1))
           (item j ''head_sha'' (\<lambda>h. item inventory ''execution_sha'' (\<lambda>x. Inr (py_eq h x))))))))) jobs)
       ''jobs belong to another run/attempt/revision'' (Inr ()))"

section \<open>The acceptance bundle\<close>

text \<open>The completion instant of the job that carries one logical task.\<close>

definition task_completed :: "iso_reader \<Rightarrow> pv list \<Rightarrow> string \<times> pv \<Rightarrow> instant res" where
  "task_completed fromiso jobs = (\<lambda>(task, mapping).
     ebind (efilter (\<lambda>j. item j ''name'' (\<lambda>n. item mapping ''job'' (\<lambda>k. Inr (py_eq n k)))) jobs) (\<lambda>found.
     erequire (if length found = 1 then item (hd found) ''conclusion'' (\<lambda>c. Inr (c = PStr ''success'')) else Inr False)
       (''required logical job incomplete: '' @ task) (
     ebind (pgetn (hd found) ''started_at'') (\<lambda>s. require (truthy s) (''missing required job start: '' @ task) (
     ebind (pgetn (hd found) ''completed_at'') (\<lambda>e. require (truthy e) (''missing required job completion: '' @ task) (
     item (hd found) ''steps'' (\<lambda>ss. ebind (py_iter ss) (\<lambda>all_steps.
     ebind (efilter (\<lambda>s. item s ''name'' (\<lambda>n. item mapping ''step'' (\<lambda>k. Inr (py_eq n k)))) all_steps) (\<lambda>steps.
     erequire (if length steps = 1 then eand (item (hd steps) ''conclusion'' (\<lambda>c. Inr (c = PStr ''success'')))
         (ebind (pgetn (hd steps) ''completed_at'') (\<lambda>c. Inr (truthy c))) else Inr False)
       (''required logical step incomplete: '' @ task) (
     item (hd found) ''completed_at'' (timestamp fromiso))))))))))))"

definition bundle_completed :: "iso_reader \<Rightarrow> pv \<Rightarrow> pv list \<Rightarrow> instant list res" where
  "bundle_completed fromiso inventory jobs = item inventory ''tasks'' (\<lambda>tasks. ebind (key_list tasks) (\<lambda>ks.
     require (set TASKS \<subseteq> set ks) ''incomplete frozen logical acceptance bundle'' (
     ebind (py_items tasks) (emap (task_completed fromiso jobs)))))"

section \<open>Runner intervals\<close>

text \<open>The interval a job held its runner: none when it was skipped or never started.\<close>

definition job_interval :: "iso_reader \<Rightarrow> pv \<Rightarrow> (instant \<times> instant) list res" where
  "job_interval fromiso j = item j ''conclusion'' (\<lambda>c.
     if c = PStr ''skipped'' then Inr []
     else ebind (pgetn j ''started_at'') (\<lambda>s.
       if s = PNone then Inr []
       else ebind (pgetn j ''runner_id'') (\<lambda>r. require (pos_int r) ''missing/invalid started-job runner identity'' (
         ebind (pgetn j ''completed_at'') (\<lambda>e. require (truthy e) ''censored runner use'' (
         item j ''started_at'' (\<lambda>s'. ebind (timestamp fromiso s') (\<lambda>a.
         item j ''completed_at'' (\<lambda>e'. ebind (timestamp fromiso e') (\<lambda>b.
         require (a \<le> b) ''negative provider duration'' (Inr [(a, b)])))))))))))"

definition workflow_bounds :: "iso_reader \<Rightarrow> pv \<Rightarrow> (instant \<times> instant) res" where
  "workflow_bounds fromiso snap = item snap ''run'' (\<lambda>run. item snap ''pages'' (\<lambda>ps. ebind (py_iter ps) (\<lambda>pages.
     ebind (emap (\<lambda>p. item p ''jobs'' py_iter) pages) (\<lambda>jss.
     ebind (efilter (\<lambda>j. ebind (pgetn j ''started_at'') (\<lambda>s. eand (Inr (s \<noteq> PNone))
       (item j ''conclusion'' (\<lambda>c. Inr (c \<noteq> PStr ''skipped''))))) (concat jss)) (\<lambda>started.
     ebind (emap (\<lambda>j. item j ''completed_at'' (timestamp fromiso)) started) (\<lambda>ends.
     item run ''created_at'' (\<lambda>c. ebind (timestamp fromiso c) (\<lambda>created.
     item run ''updated_at'' (\<lambda>u. ebind (timestamp fromiso u) (\<lambda>updated.
     Inr (created, Max (set (updated # ends)))))))))))))"

text \<open>The sweep: at one instant ends come before starts, so intervals are half open.\<close>

definition interval_events :: "(instant \<times> instant) list \<Rightarrow> (instant \<times> int) list" where
  "interval_events ivs = map (\<lambda>(a, b). (a, 1)) (filter (\<lambda>(a, b). a < b) ivs) @
     map (\<lambda>(a, b). (b, -1)) (filter (\<lambda>(a, b). a < b) ivs)"

fun sweep_events :: "(instant \<times> int) list \<Rightarrow> int \<Rightarrow> int \<Rightarrow> int" where
  "sweep_events [] active peak = peak"
| "sweep_events ((t, delta) # es) active peak = sweep_events es (active + delta) (max peak (active + delta))"

definition peak_concurrency :: "(instant \<times> instant) list \<Rightarrow> int" where
  "peak_concurrency ivs = sweep_events (sort (interval_events ivs)) 0 0"

definition runner_minutes :: "(flt list \<Rightarrow> flt) \<Rightarrow> (instant \<times> instant) list \<Rightarrow> pv res" where
  "runner_minutes fsum ivs = ebind (emap (\<lambda>(a, b). ebind (total_seconds (b - a)) (\<lambda>s.
     ebind (py_div s (PInt 60)) to_float)) ivs) (\<lambda>xs. Inr (PFloat (fsum xs)))"

definition endpoint :: "iso_reader \<Rightarrow> (flt list \<Rightarrow> flt) \<Rightarrow> pv \<Rightarrow> pv \<Rightarrow> pv res" where
  "endpoint fromiso fsum snap inventory =
     ebind (run_matches snap inventory) (\<lambda>_.
     ebind (page_jobs snap) (\<lambda>jobs.
     ebind (jobs_match snap inventory jobs) (\<lambda>_.
     ebind (bundle_completed fromiso inventory jobs) (\<lambda>completed.
     ebind (emap (job_interval fromiso) jobs) (\<lambda>ivss.
     require (concat ivss \<noteq> []) ''no started jobs'' (
     ebind (Inr (Min (set (map fst (concat ivss))), Max (set completed))) (\<lambda>(first, acceptance).
     ebind (workflow_bounds fromiso snap) (\<lambda>(created, finished).
     require (created \<le> first \<and> first \<le> acceptance \<and> finished - created \<le> 5400 * 1000000) ''invalid/capped workflow boundaries'' (
     ebind (total_seconds (acceptance - first)) (\<lambda>validation.
     ebind (total_seconds (acceptance - created)) (\<lambda>queued.
     ebind (total_seconds (first - created)) (\<lambda>initial.
     ebind (runner_minutes fsum (concat ivss)) (\<lambda>minutes.
     Inr (PDict [(''validation_seconds'', validation), (''queue_inclusive_seconds'', queued),
       (''initial_queue_seconds'', initial), (''runner_minutes'', minutes),
       (''peak_runner_concurrency'', PInt (peak_concurrency (concat ivss)))]))))))))))))))"

section \<open>The sweep computes the largest overlap\<close>

text \<open>Runners in use at an instant.\<close>

definition overlap :: "(instant \<times> instant) list \<Rightarrow> instant \<Rightarrow> int" where
  "overlap ivs t = int (length (filter (\<lambda>(a, b). a \<le> t \<and> t < b) ivs))"

definition net :: "(instant \<times> int) list \<Rightarrow> int" where
  "net es = sum_list (map snd es)"

lemma net_simps [simp]: "net [] = 0" "net (e # es) = snd e + net es" "net (xs @ ys) = net xs + net ys"
  by (simp_all add: net_def)

lemma sweep_mono: "peak \<le> sweep_events es active peak"
proof (induction es active peak rule: sweep_events.induct)
  case (2 t delta es active peak)
  then show ?case by simp
qed simp

lemma sweep_prefix: "active \<le> peak \<Longrightarrow> active + net ys \<le> sweep_events (ys @ zs) active peak"
proof (induction ys arbitrary: active peak)
  case Nil
  then show ?case using sweep_mono [of peak zs active] by simp
next
  case (Cons y ys)
  have "(active + snd y) + net ys \<le> sweep_events (ys @ zs) (active + snd y) (max peak (active + snd y))"
    by (rule Cons.IH) simp
  then show ?case by (cases y) (simp add: add.assoc)
qed

lemma sweep_reached:
  "active \<le> peak \<Longrightarrow> sweep_events es active peak = peak \<or>
     (\<exists>ys e zs. es = ys @ e # zs \<and> 0 < snd e \<and> sweep_events es active peak = active + net ys + snd e)"
proof (induction es arbitrary: active peak)
  case (Cons x es)
  obtain t d where x: "x = (t, d)" by (cases x)
  let ?p = "max peak (active + d)"
  have "sweep_events es (active + d) ?p = ?p \<or>
     (\<exists>ys e zs. es = ys @ e # zs \<and> 0 < snd e \<and> sweep_events es (active + d) ?p = active + d + net ys + snd e)"
    by (rule Cons.IH) simp
  then show ?case
  proof (elim disjE exE conjE)
    assume h: "sweep_events es (active + d) ?p = ?p"
    show ?thesis
    proof (cases "active + d \<le> peak")
      case True
      then show ?thesis using h x by simp
    next
      case False
      then have "x # es = [] @ x # es \<and> 0 < snd x \<and> sweep_events (x # es) active peak = active + net [] + snd x"
        using h x Cons.prems by simp
      then show ?thesis by blast
    qed
  next
    fix ys e zs assume h: "es = ys @ e # zs" "0 < snd e" "sweep_events es (active + d) ?p = active + d + net ys + snd e"
    then have "x # es = (x # ys) @ e # zs \<and> 0 < snd e \<and> sweep_events (x # es) active peak = active + net (x # ys) + snd e"
      using x by simp
    then show ?thesis by blast
  qed
qed simp

lemma net_filter_events: "net (filter (\<lambda>e. fst e \<le> t) (interval_events ivs)) = overlap ivs t"
proof (induction ivs)
  case (Cons iv ivs)
  have split: "net (filter P (interval_events (iv # ivs))) =
      net (filter P (interval_events [iv])) + net (filter P (interval_events ivs))" for P
    by (cases iv) (simp add: interval_events_def)
  have "net (filter (\<lambda>e. fst e \<le> t) (interval_events [iv])) = overlap [iv] t"
    by (cases iv) (auto simp: interval_events_def overlap_def)
  moreover have "overlap (iv # ivs) t = overlap [iv] t + overlap ivs t" by (simp add: overlap_def)
  ultimately show ?case using Cons split by simp
qed (simp add: interval_events_def overlap_def)

lemma net_sort: "net (filter P (sort es)) = net (filter P es)"
proof -
  have "mset (map snd (filter P (sort es))) = mset (map snd (filter P es))"
    by (simp add: mset_filter)
  then show ?thesis unfolding net_def by (metis sum_mset_sum_list)
qed

lemma events_delta: "e \<in> set (interval_events ivs) \<Longrightarrow> snd e = 1 \<or> snd e = -1"
  by (auto simp: interval_events_def)

lemma event_start: "e \<in> set (interval_events ivs) \<Longrightarrow> 0 < snd e \<Longrightarrow> \<exists>b. (fst e, b) \<in> set ivs \<and> fst e < b"
  by (auto simp: interval_events_def)

lemma sorted_prefix:
  assumes "sorted (es :: (instant \<times> int) list)"
  shows "\<exists>zs. es = filter (\<lambda>e. fst e \<le> t) es @ zs"
  using assms
proof (induction es)
  case (Cons e es)
  show ?case
  proof (cases "fst e \<le> t")
    case True
    then show ?thesis using Cons by simp
  next
    case False
    then have "filter (\<lambda>e. fst e \<le> t) es = []"
      using Cons.prems by (auto simp: filter_empty_conv less_eq_prod_def)
    then show ?thesis using False by simp
  qed
qed simp

text \<open>
  C27. The peak runner concurrency is the largest number of half-open runner intervals that hold one
  instant: no instant is busier, and unless the peak is 0 it is reached when some interval starts.
\<close>

theorem peak_is_largest_overlap:
  "(\<forall>t. overlap ivs t \<le> peak_concurrency ivs) \<and>
   (peak_concurrency ivs = 0 \<or> (\<exists>a b. (a, b) \<in> set ivs \<and> a < b \<and> overlap ivs a = peak_concurrency ivs))"
proof
  let ?es = "sort (interval_events ivs)"
  have net: "net (filter (\<lambda>e. fst e \<le> t) ?es) = overlap ivs t" for t by (simp add: net_sort net_filter_events)
  show le: "\<forall>t. overlap ivs t \<le> peak_concurrency ivs"
  proof
    fix t
    obtain zs where "?es = filter (\<lambda>e. fst e \<le> t) ?es @ zs" using sorted_prefix [OF sorted_sort] by blast
    then show "overlap ivs t \<le> peak_concurrency ivs"
      using sweep_prefix [of 0 0 "filter (\<lambda>e. fst e \<le> t) ?es" zs] net by (simp add: peak_concurrency_def)
  qed
  show "peak_concurrency ivs = 0 \<or> (\<exists>a b. (a, b) \<in> set ivs \<and> a < b \<and> overlap ivs a = peak_concurrency ivs)"
    using sweep_reached [of 0 0 ?es, OF order_refl]
  proof (elim disjE exE conjE)
    fix ys e zs assume h: "?es = ys @ e # zs" "0 < snd e" "sweep_events ?es 0 0 = 0 + net ys + snd e"
    have mem: "set ?es = set (interval_events ivs)" by simp
    have "sorted (ys @ e # zs)" using h(1) sorted_sort [of "interval_events ivs"] by simp
    then have before: "\<forall>x \<in> set ys. fst x \<le> fst e" and after: "\<forall>x \<in> set zs. e \<le> x"
      by (auto simp: sorted_append less_eq_prod_def)
    have e: "e \<in> set (interval_events ivs)" unfolding mem [symmetric] h(1) by simp
    then have "snd e = 1" using events_delta h(2) by fastforce
    then have "0 \<le> net (filter (\<lambda>x. fst x \<le> fst e) zs)"
      using after unfolding net_def by (intro sum_list_nonneg) (auto simp: less_eq_prod_def)
    moreover have "filter (\<lambda>x. fst x \<le> fst e) ys = ys" using before by (simp add: filter_id_conv)
    ultimately have "peak_concurrency ivs \<le> overlap ivs (fst e)"
      unfolding net [symmetric] h(1) using h by (simp add: peak_concurrency_def)
    with le have "overlap ivs (fst e) = peak_concurrency ivs" by (meson antisym)
    then show ?thesis using event_start [OF e h(2)] by blast
  qed (simp add: peak_concurrency_def)
qed

end
