(* ===== verification/Evidence.thy ===== *)
theory Evidence
  imports Guard CI
begin

text \<open>
  \<open>experiments/gate-performance/harness/evidence.py\<close> with \<open>expand_command\<close> and \<open>succeeded\<close> of
  \<open>harness/execution.py\<close>: the reducer that turns the retained receipts of one arm into one row.

  \<open>b\<close> is the bundle's tree, without symbolic links below the arm's directory (both callers have
  refused them), \<open>loads\<close> the JSON reader, \<open>sha\<close> the digest.  A raised exception of one of the kinds in
  \<open>EVIDENCE_ERRORS\<close> becomes the row's reason where the code catches it; the others propagate.
\<close>

section \<open>Files of a retained arm\<close>

definition json_at :: "(string \<Rightarrow> pv res) \<Rightarrow> bundle_tree \<Rightarrow> path \<Rightarrow> pv res" where
  "json_at loads b p = ebind (read_file b p) loads"

definition exists_at :: "bundle_tree \<Rightarrow> path \<Rightarrow> bool" where
  "exists_at b p = (map_of b p \<noteq> None)"

text \<open>\<open>path.stat()\<close>: the identity of a file; a directory has none that a file can share.\<close>

definition file_id :: "bundle_tree \<Rightarrow> path \<Rightarrow> inode option res" where
  "file_id b p = (case map_of b p of
     None \<Rightarrow> Inl (OSError (path_str p))
   | Some (File i l c) \<Rightarrow> Inr (Some i)
   | Some _ \<Rightarrow> Inr None)"

definition links_of :: "bundle_tree \<Rightarrow> path \<Rightarrow> bool" where
  "links_of b p = (map_of b p = Some Symlink)"

definition id_pv :: "inode option \<Rightarrow> pv" where
  "id_pv i = (case i of None \<Rightarrow> PList [] | Some i \<Rightarrow> PList [PInt (int (dev i)), PInt (int (ino i))])"

definition owned_identities :: "bundle_tree \<Rightarrow> path \<Rightarrow> inode list" where
  "owned_identities b d = concat (map (\<lambda>p. case map_of b p of Some (File i l c) \<Rightarrow> [i] | _ \<Rightarrow> []) (owned_paths d))"

definition hash_valid :: "(string \<Rightarrow> string) \<Rightarrow> bundle_tree \<Rightarrow> path \<Rightarrow> string \<times> pv \<Rightarrow> unit res" where
  "hash_valid sha b d = (\<lambda>(name, expected). ebind (child (links_of b) d (PStr name)) (\<lambda>p.
     require (\<not> (butlast p = d \<and> owned_name (last p))) (''collector-owned file is not original evidence: '' @ name) (
     ebind (file_id b p) (\<lambda>i.
     require (\<not> list_ex (\<lambda>j. i = Some j) (owned_identities b d)) (''original evidence aliases collector-owned file: '' @ name) (
     erequire (eand (Inr (is_str expected)) (ebind (read_file b p) (\<lambda>c. Inr (PStr (sha c) = expected))))
       (''retained evidence hash mismatch: '' @ name) (Inr ()))))))"

definition hashes_valid :: "(string \<Rightarrow> string) \<Rightarrow> bundle_tree \<Rightarrow> path \<Rightarrow> pv \<Rightarrow> unit res" where
  "hashes_valid sha b d evidence =
     require (is_dict evidence \<and> items_of evidence \<noteq> []) ''missing original evidence'' (
     efor (hash_valid sha b d) (items_of evidence))"

section \<open>Observation receipts\<close>

text \<open>\<open>m[name][workload][arm]\<close>\<close>

definition by_arm_of :: "pv \<Rightarrow> string \<Rightarrow> string \<Rightarrow> string \<Rightarrow> pv res" where
  "by_arm_of m name w arm = item m name (\<lambda>t. item t w (\<lambda>a. getitem a arm))"

text \<open>\<open>key in d\<close> for a key that need not be a string.\<close>

definition key_in :: "pv \<Rightarrow> pv \<Rightarrow> bool res" where
  "key_in k v = ebind (hkey k) (\<lambda>k'. Inr (is_str k' \<and> has_key v (str_of k')))"

definition receipt_shape :: "pv \<Rightarrow> unit res" where
  "receipt_shape receipt =
     require (is_dict receipt) ''observation receipt must be an object'' (
     efor (\<lambda>name. require (is_dict (fld receipt name)) (''observation '' @ name @ '' must be an object'') (Inr ()))
       [''checks'', ''facts'', ''metrics'', ''evidence''])"

definition receipt_quality :: "pv \<Rightarrow> string \<Rightarrow> string \<Rightarrow> pv \<Rightarrow> unit res" where
  "receipt_quality m w arm receipt = item m ''quality_checks'' (\<lambda>qs. ebind (py_iter qs) (\<lambda>required.
     require (list_all (\<lambda>q. fld (fld receipt ''checks'') (str_of q) = PBool True) required) ''missing or failed quality checks'' (
     ebind (by_arm_of m ''expected_facts'' w arm) (\<lambda>expected. ebind (py_items expected) (\<lambda>facts.
     require (list_all (\<lambda>(k, v). has_key (fld receipt ''facts'') k \<and> json_equal (fld (fld receipt ''facts'') k) v) facts)
       ''observed facts differ from registered expectations'' (
     item m ''compare_facts'' (\<lambda>cf. ebind (py_iter cf) (\<lambda>compared.
     require (list_all (\<lambda>k. has_key (fld receipt ''facts'') (str_of k)) compared) ''missing paired comparison facts'' (
     item m ''resource_metrics'' (\<lambda>rm. ebind (py_iter rm) (\<lambda>resources.
     require (list_all (\<lambda>r. counter (fld (fld receipt ''metrics'') (str_of r))) resources) ''missing/invalid resource measurements'' (
     require (is_dict (fld receipt ''environment'') \<and> items_of (fld receipt ''environment'') \<noteq> [] \<and> nonblank (fld receipt ''resource_method''))
       ''observed environment and resource provenance required'' (
     require (items_of (fld receipt ''evidence'') \<noteq> []) ''missing original evidence'' (Inr ()))))))))))))))"

text \<open>E2: the receipt must agree with the provider's own record.\<close>

definition provider_agrees :: "(string \<Rightarrow> pv res) \<Rightarrow> iso_reader \<Rightarrow> (flt list \<Rightarrow> flt) \<Rightarrow> bundle_tree \<Rightarrow> path \<Rightarrow> pv \<Rightarrow> string \<Rightarrow> pv \<Rightarrow> unit res" where
  "provider_agrees loads fromiso fsum b d m arm receipt =
     erequire (key_in (fld receipt ''ci_snapshot'') (fld receipt ''evidence'')) ''CI snapshot must be included in original evidence'' (
     item receipt ''ci_snapshot'' (\<lambda>name. ebind (child (links_of b) d name) (\<lambda>p. ebind (json_at loads b p) (\<lambda>provider.
     item m ''ci'' (\<lambda>ci. item ci ''tasks'' (\<lambda>ts. item ts arm (\<lambda>tasks.
     ebind (endpoint fromiso fsum provider (PDict (dict_set ''tasks'' tasks (items_of ci)))) (\<lambda>derived.
     require (list_all (\<lambda>(k, v). json_equal (fld (fld receipt ''metrics'') k) v) (items_of derived))
       ''CI receipt disagrees with provider timestamps'' (
     ebind (workflow_bounds fromiso provider) (\<lambda>(created, finished).
     efor (\<lambda>(key, boundary). ebind (timestamp fromiso (fld (fld receipt ''facts'') key)) (\<lambda>t.
         require (t = boundary) (''CI pairing timestamp disagrees with provider: '' @ key) (Inr ())))
       [(''ci_created_at'', created), (''ci_completed_at'', finished)]))))))))))"

definition cold_timer :: "pv \<Rightarrow> unit res" where
  "cold_timer receipt = ebind (pget receipt ''gate_timer'' (PDict [])) (\<lambda>timer. ebind (pgetn timer ''source'') (\<lambda>source.
     erequire (eand (Inr (source = PStr ''monotonic'' \<and> fld timer ''boundary'' = PStr ''cli_spawn_to_exit'' \<and>
         json_equal (fld timer ''seconds'') (fld (fld receipt ''metrics'') ''gate_seconds'')))
       (key_in (fld timer ''evidence'') (fld receipt ''evidence'')))
       ''cold adoption requires a separate nested CLI timer receipt'' (Inr ())))"

definition receipt_valid :: "(string \<Rightarrow> string) \<Rightarrow> (string \<Rightarrow> pv res) \<Rightarrow> iso_reader \<Rightarrow> (flt list \<Rightarrow> flt) \<Rightarrow> bundle_tree \<Rightarrow> path \<Rightarrow>
    pv \<Rightarrow> string \<Rightarrow> string \<Rightarrow> pv \<Rightarrow> unit res" where
  "receipt_valid sha loads fromiso fsum b d m w arm receipt =
     ebind (receipt_shape receipt) (\<lambda>_. ebind (receipt_quality m w arm receipt) (\<lambda>_.
     ebind (hashes_valid sha b d (fld receipt ''evidence'')) (\<lambda>_. item m ''experiment'' (\<lambda>e.
     if str_in e [''E3'', ''E4''] then Inr ()
     else ebind (if e = PStr ''E2'' then provider_agrees loads fromiso fsum b d m arm receipt else Inr ()) (\<lambda>_.
       item m ''phase'' (\<lambda>phase.
       ebind (if e = PStr ''E1'' \<and> phase = PStr ''adoption-cold'' then cold_timer receipt else Inr ()) (\<lambda>_.
       require (positive (fld (fld receipt ''metrics'') (if e = PStr ''E1'' then ''gate_seconds'' else ''validation_seconds'')))
         ''primary duration missing'' (Inr ()))))))))"

definition clock_metric :: "pv \<Rightarrow> string" where
  "clock_metric phase = (if phase = PStr ''adoption-cold'' then ''adoption_seconds'' else ''gate_seconds'')"

text \<open>The collector's clock is joined to the receipt in memory.\<close>

definition observation :: "(string \<Rightarrow> string) \<Rightarrow> (string \<Rightarrow> pv res) \<Rightarrow> iso_reader \<Rightarrow> (flt list \<Rightarrow> flt) \<Rightarrow> bundle_tree \<Rightarrow> path \<Rightarrow>
    pv \<Rightarrow> string \<Rightarrow> string \<Rightarrow> pv \<Rightarrow> pv option \<Rightarrow> unit res" where
  "observation sha loads fromiso fsum b d m w arm elapsed receipt =
     ebind (case receipt of Some r \<Rightarrow> Inr r | None \<Rightarrow> json_at loads b (d @ [''receipt.json''])) (\<lambda>r.
     require (is_dict r \<and> is_dict (fld r ''metrics'')) ''missing/malformed observation receipt'' (
     item m ''experiment'' (\<lambda>e.
     ebind (if e = PStr ''E1'' then item m ''phase'' (\<lambda>phase.
         Inr (PDict (dict_set (clock_metric phase) elapsed (items_of (fld r ''metrics'')))))
       else Inr (fld r ''metrics'')) (\<lambda>metrics.
     receipt_valid sha loads fromiso fsum b d m w arm (PDict (dict_set ''metrics'' metrics (items_of r)))))))"

section \<open>Cleanup proof\<close>

definition succeeded :: "pv \<Rightarrow> bool res" where
  "succeeded c = ebind (pgetn c ''started'') (\<lambda>started. Inr (started = PBool True \<and> fld c ''finished'' = PBool True \<and>
     fld c ''interrupted'' = PBool False \<and> py_eq (fld c ''exit'') (PInt 0) \<and> fld c ''timeout'' = PBool False \<and> fld c ''error'' = PNone))"

definition cleanup_inventory :: "(string \<Rightarrow> string) \<Rightarrow> bundle_tree \<Rightarrow> path \<Rightarrow> pv res" where
  "cleanup_inventory sha b d =
     ebind (bundle_inventory sha (map (\<lambda>(p, n). (drop (length d) p, n)) (subtree d b))) (\<lambda>paths.
     ebind (emap (\<lambda>(name, v). ebind (child (links_of b) d (PStr name)) (\<lambda>p.
       if v = PNone then Inr [] else ebind (file_id b p) (\<lambda>i. Inr [id_pv i]))) paths) (\<lambda>ids.
     Inr (PDict [(''paths'', PDict paths), (''identities'', PList (concat ids))])))"

text \<open>Identities of what existed before teardown: recorded ones count only at the collection boundary.\<close>

definition input_identities :: "bundle_tree \<Rightarrow> path \<Rightarrow> bool \<Rightarrow> pv \<Rightarrow> pv list res" where
  "input_identities b d collection_boundary inputs =
     ebind (emap (\<lambda>(name, checksum). ebind (child (links_of b) d (PStr name)) (\<lambda>p.
       if checksum \<noteq> PNone \<and> exists_at b p then ebind (file_id b p) (\<lambda>i. Inr [id_pv i]) else Inr []))
       (items_of (fld inputs ''paths''))) (\<lambda>live.
     ebind (emap (\<lambda>n. if exists_at b (d @ [n]) then ebind (file_id b (d @ [n])) (\<lambda>i. Inr [id_pv i]) else Inr []) CONTROL) (\<lambda>controls.
     Inr ((if collection_boundary then elems_of (fld inputs ''identities'') else []) @ concat live @ concat controls)))"

definition fresh_originals :: "bundle_tree \<Rightarrow> path \<Rightarrow> pv \<Rightarrow> pv \<Rightarrow> unit res" where
  "fresh_originals b d paths evidence = ebind (key_list evidence) (\<lambda>names.
     erequire (eand (Inr (\<not> has_key paths ''cleanup.json''))
       (eall (\<lambda>n. ebind (child (links_of b) d (PStr n)) (\<lambda>p. Inr (\<not> has_key paths (path_str (drop (length d) p))))) names))
       ''cleanup proof must retain originals created by cleanup'' (Inr ()))"

definition cleanup_valid :: "(string \<Rightarrow> string) \<Rightarrow> (string \<Rightarrow> pv res) \<Rightarrow> bundle_tree \<Rightarrow> path \<Rightarrow> bool \<Rightarrow> unit res" where
  "cleanup_valid sha loads b d collection_boundary =
     ebind (json_at loads b (d @ [''cleanup.command.json''])) (\<lambda>command.
     erequire (succeeded command) ''cleanup command failed'' (
     ebind (json_at loads b (d @ [''cleanup.json''])) (\<lambda>proven.
     require (is_dict proven \<and> fld proven ''proven'' = PBool True) ''missing cleanup proof'' (
     ebind (hashes_valid sha b d (fld proven ''evidence'')) (\<lambda>_.
     ebind (json_at loads b (d @ [''cleanup-inputs.json''])) (\<lambda>inputs.
     require (is_dict inputs \<and> is_dict (fld inputs ''paths'') \<and> items_of (fld inputs ''paths'') \<noteq> [] \<and> is_list (fld inputs ''identities''))
       ''missing cleanup input inventory'' (
     ebind (input_identities b d collection_boundary inputs) (\<lambda>identities.
     ebind (fresh_originals b d (fld inputs ''paths'') (fld proven ''evidence'')) (\<lambda>_.
     ebind (key_list (fld proven ''evidence'')) (efor (\<lambda>n. ebind (child (links_of b) d (PStr n)) (\<lambda>p. ebind (file_id b p) (\<lambda>i.
       require (\<not> list_ex (py_eq (id_pv i)) identities) ''cleanup proof aliases pre-cleanup evidence'' (Inr ()))))))))))))))"

section \<open>Command receipts\<close>

text \<open>A placeholder after an opening brace: its name and the rest, when it is closed and not empty.\<close>

definition placeholder :: "string \<Rightarrow> (string \<times> string) option" where
  "placeholder s = (let name = takeWhile (\<lambda>c. c \<noteq> CHR ''{'' \<and> c \<noteq> CHR ''}'') s; rest = drop (length name) s in
     if name \<noteq> [] \<and> rest \<noteq> [] \<and> hd rest = CHR ''}'' then Some (name, tl rest) else None)"

lemma placeholder_shorter: "placeholder s = Some (name, rest) \<Longrightarrow> length rest < length s"
  by (auto simp: placeholder_def Let_def split: if_splits)

function expand :: "(string \<Rightarrow> string option) \<Rightarrow> string \<Rightarrow> string" where
  "expand ctx [] = []"
| "expand ctx (c # s) =
     (if c = CHR ''{'' then (case placeholder s of
         None \<Rightarrow> c # expand ctx s
       | Some (name, rest) \<Rightarrow> (case ctx name of Some v \<Rightarrow> v | None \<Rightarrow> CHR ''{'' # name @ ''}'') @ expand ctx rest)
      else c # expand ctx s)"
  by pat_completeness auto
termination
  by (relation "measure (length \<circ> snd)") (auto dest: placeholder_shorter)

definition expand_command :: "(string \<Rightarrow> string option) \<Rightarrow> pv \<Rightarrow> (pv \<times> pv \<times> (string \<times> pv) list) res" where
  "expand_command ctx spec =
     item spec ''argv'' (\<lambda>argv. ebind (py_iter argv) (\<lambda>xs. item spec ''cwd'' (\<lambda>cwd. item spec ''env'' (\<lambda>env. ebind (py_items env) (\<lambda>d.
     Inr (PList (map (\<lambda>x. PStr (expand ctx (str_of x))) xs), PStr (expand ctx (str_of cwd)),
          map (\<lambda>(k, v). (k, PStr (expand ctx (str_of v)))) d))))))"

text \<open>\<open>begin.date().isoformat()\<close>: the civil date of an instant, counted in microseconds from 1970-01-01.\<close>

definition iso_date :: "instant \<Rightarrow> string" where
  "iso_date t = (let z = t div 86400000000 + 719468; era = z div 146097; doe = z mod 146097;
      yoe = (doe - doe div 1460 + doe div 36524 - doe div 146096) div 365;
      doy = doe - (365 * yoe + yoe div 4 - yoe div 100); mp = (5 * doy + 2) div 153;
      d = doy - (153 * mp + 2) div 5 + 1; m = (if mp < 10 then mp + 3 else mp - 9);
      y = yoe + era * 400 + (if m \<le> 2 then 1 else 0)
    in pad_nat 4 (nat y) @ ''-'' @ pad_nat 2 (nat m) @ ''-'' @ pad_nat 2 (nat d))"

text \<open>The frozen invocation context of one arm; \<open>x_text\<close> prints a value inside a placeholder.\<close>

record invocation =
  x_text :: "string \<Rightarrow> string option"
  x_redact :: pv
  x_date :: string
  x_registered :: instant

definition invocation_matches :: "pv \<Rightarrow> pv \<Rightarrow> invocation \<Rightarrow> string \<Rightarrow> unit res" where
  "invocation_matches command spec x step =
     ebind (expand_command (x_text x) spec) (\<lambda>(argv, cwd, env). ebind (py_iter (x_redact x)) (\<lambda>secret.
     ebind (pgetn command ''step'') (\<lambda>_.
     require (list_all (\<lambda>(k, v). json_equal (fld command k) v)
         [(''step'', PStr step), (''argv'', argv), (''cwd'', cwd),
          (''env'', PDict (filter (\<lambda>(k, v). PStr k \<notin> set secret) env)), (''redacted_env_names'', x_redact x)])
       (''command differs from frozen invocation: '' @ step) (Inr ()))))"

definition outcome_typed :: "pv \<Rightarrow> string \<Rightarrow> unit res" where
  "outcome_typed command step =
     erequire (eand (Inr (list_all (\<lambda>k. is_bool (fld command k)) [''started'', ''timeout'', ''interrupted'', ''finished'', ''containment_proven'']))
       (item command ''exit'' (\<lambda>e. eand (Inr (e = PNone \<or> is_int e)) (item command ''error'' (\<lambda>r. Inr (r = PNone \<or> is_str r))))))
       (''invalid command outcome: '' @ step) (Inr ())"

definition timing_valid :: "iso_reader \<Rightarrow> pv \<Rightarrow> pv \<Rightarrow> string \<Rightarrow> instant \<Rightarrow> unit res" where
  "timing_valid fromiso command spec step started = item command ''finished'' (\<lambda>finished.
     if truthy finished then
       erequire (eand (Inr (counter (fld command ''seconds''))) (item command ''ended_at'' (\<lambda>e.
           ebind (timestamp fromiso e) (\<lambda>t. Inr (started \<le> t))))) (''invalid command timing: '' @ step) (
       erequire (if fld command ''started'' = PBool True \<and> fld command ''timeout'' = PBool False \<and>
             fld command ''interrupted'' = PBool False \<and> fld command ''error'' = PNone
           then item command ''seconds'' (\<lambda>s. item spec ''timeout_seconds'' (\<lambda>t. py_less s t)) else Inr True)
         (''command exceeded registered budget: '' @ step) (Inr ()))
     else Inr ())"

definition command_valid :: "iso_reader \<Rightarrow> pv \<Rightarrow> pv \<Rightarrow> invocation \<Rightarrow> string \<Rightarrow> instant res" where
  "command_valid fromiso command spec x step =
     ebind (invocation_matches command spec x step) (\<lambda>_. ebind (outcome_typed command step) (\<lambda>_.
     item command ''started_at'' (\<lambda>s. ebind (timestamp fromiso s) (\<lambda>started.
     require (x_registered x < started) (''measurement predates registration: '' @ step) (
     ebind (timing_valid fromiso command spec step started) (\<lambda>_.
     require (step \<notin> {''prepare'', ''run''} \<or> iso_date started = x_date x) (''command ran outside registered UTC date: '' @ step) (
     Inr started)))))))"

definition evidence_error :: "exn \<Rightarrow> bool" where
  "evidence_error e = (os_error e \<or> (case e of ValueError _ \<Rightarrow> True | KeyError _ \<Rightarrow> True | TypeError _ \<Rightarrow> True
     | AttributeError _ \<Rightarrow> True | _ \<Rightarrow> False))"

text \<open>\<open>try: body except EVIDENCE_ERRORS as error: handler(str(error))\<close>\<close>

definition caught :: "'a res \<Rightarrow> (string \<Rightarrow> 'a) \<Rightarrow> 'a res" where
  "caught r h = (case r of Inr x \<Rightarrow> Inr x | Inl e \<Rightarrow> if evidence_error e then Inr (h (exn_text e)) else Inl e)"

section \<open>One arm\<close>

record trial_env =
  te_sha :: "string \<Rightarrow> string"
  te_loads :: "string \<Rightarrow> pv res"
  te_fromiso :: iso_reader
  te_fsum :: "flt list \<Rightarrow> flt"
  te_text :: "pv \<Rightarrow> string"
  te_time :: "instant \<Rightarrow> string"

record receipts =
  rc_commands :: "(string \<times> pv) list"
  rc_error :: string
  rc_previous :: "instant option"

text \<open>One step's receipt: kept as soon as it can be read, then checked against the frozen command and the order of steps.\<close>

definition receipt_step :: "trial_env \<Rightarrow> bundle_tree \<Rightarrow> path \<Rightarrow> pv \<Rightarrow> string \<Rightarrow> string \<Rightarrow> invocation \<Rightarrow> string \<Rightarrow> receipts \<Rightarrow> receipts res" where
  "receipt_step te b d m w arm x step rc =
     (if \<not> exists_at b (d @ [step @ ''.command.json'']) then Inr rc
      else (case json_at (te_loads te) b (d @ [step @ ''.command.json'']) of
          Inl e \<Rightarrow> caught (Inl e) (\<lambda>msg. rc\<lparr>rc_error := msg\<rparr>)
        | Inr c \<Rightarrow> (let rc' = rc\<lparr>rc_commands := rc_commands rc @ [(step, c)]\<rparr> in
            caught (ebind (by_arm_of m ''commands'' w arm) (\<lambda>cs. item cs step (\<lambda>spec.
              ebind (command_valid (te_fromiso te) c spec x step) (\<lambda>started.
              require (case rc_previous rc of None \<Rightarrow> True | Some t \<Rightarrow> t \<le> started)
                (''command chronology differs from registered sequence: '' @ step) (
              item c ''finished'' (\<lambda>finished. if truthy finished then
                item c ''ended_at'' (\<lambda>e. ebind (timestamp (te_fromiso te) e) (\<lambda>t. Inr (rc'\<lparr>rc_previous := Some t\<rparr>)))
              else Inr rc'))))))
              (\<lambda>msg. rc'\<lparr>rc_error := msg\<rparr>))))"

definition read_receipts :: "trial_env \<Rightarrow> bundle_tree \<Rightarrow> path \<Rightarrow> pv \<Rightarrow> string \<Rightarrow> string \<Rightarrow> invocation \<Rightarrow> receipts res" where
  "read_receipts te b d m w arm x =
     efold (receipt_step te b d m w arm x) STEPS \<lparr>rc_commands = [], rc_error = [], rc_previous = None\<rparr>"

definition command_of :: "receipts \<Rightarrow> string \<Rightarrow> pv" where
  "command_of rc step = (case map_of (rc_commands rc) step of Some c \<Rightarrow> c | None \<Rightarrow> PDict [])"

text \<open>\<open>run\<close> as the reducer uses it: a receipt that is not an object counts as absent.\<close>

definition run_of :: "receipts \<Rightarrow> pv" where
  "run_of rc = (let c = command_of rc ''run'' in if is_dict c then c else PDict [])"

record trial_row =
  t_started :: bool
  t_class :: string
  t_reason :: pv
  t_metrics :: "(string \<times> pv) list"
  t_facts :: pv
  t_exit :: pv
  t_elapsed :: pv
  t_cleanup :: bool

definition blank_row :: "pv \<Rightarrow> trial_row" where
  "blank_row reason = \<lparr>t_started = False, t_class = ''not_started'', t_reason = reason, t_metrics = [], t_facts = PDict [],
     t_exit = PNone, t_elapsed = PNone, t_cleanup = False\<rparr>"

text \<open>The observer's receipt: its counters and facts, when it can be read.\<close>

definition observed :: "trial_env \<Rightarrow> bundle_tree \<Rightarrow> path \<Rightarrow> (pv option \<times> (string \<times> pv) list \<times> pv) res" where
  "observed te b d = caught
     (ebind (json_at (te_loads te) b (d @ [''receipt.json''])) (\<lambda>r. Inr (Some r,
        (if is_dict r then filter (\<lambda>(k, v). counter v) (items_of (fld r ''metrics'')) else []),
        (if is_dict r \<and> is_dict (fld r ''facts'') then fld r ''facts'' else PDict []))))
     (\<lambda>_. (None, [], PDict []))"

definition clocked :: "pv \<Rightarrow> pv \<Rightarrow> (string \<times> pv) list \<Rightarrow> (string \<times> pv) list res" where
  "clocked m elapsed metrics = item m ''experiment'' (\<lambda>e.
     if e = PStr ''E1'' \<and> elapsed \<noteq> PNone then item m ''phase'' (\<lambda>phase. Inr (dict_set (clock_metric phase) elapsed metrics))
     else Inr metrics)"

definition cleanup_proven :: "trial_env \<Rightarrow> bundle_tree \<Rightarrow> path \<Rightarrow> pv \<Rightarrow> receipts \<Rightarrow> bool res" where
  "cleanup_proven te b d state rc =
     (if fld state ''cleanup_inputs_valid'' = PBool True \<and>
         list_all (\<lambda>(k, c). is_dict c \<and> fld c ''containment_proven'' = PBool True) (rc_commands rc)
      then caught (ebind (cleanup_valid (te_sha te) (te_loads te) b d False) (\<lambda>_. Inr True)) (\<lambda>_. False)
      else Inr False)"

text \<open>The last branch: everything ran, so the evidence decides.\<close>

definition conclude :: "trial_env \<Rightarrow> bundle_tree \<Rightarrow> path \<Rightarrow> pv \<Rightarrow> string \<Rightarrow> string \<Rightarrow> pv \<Rightarrow> receipts \<Rightarrow> pv option \<Rightarrow> trial_row \<Rightarrow> trial_row res" where
  "conclude te b d m w arm state rc receipt row = caught
     (ebind (eall (\<lambda>step. succeeded (command_of rc step)) [''observe'', ''check'']) (\<lambda>ran.
       if \<not> ran then Inr (row\<lparr>t_class := ''quality_failure'', t_reason := PStr ''evidence_incomplete''\<rparr>)
       else require (fld state ''state'' = PStr ''finished'') ''interrupted_collection'' (
         ebind (observation (te_sha te) (te_loads te) (te_fromiso te) (te_fsum te) b d m w arm (t_elapsed row) receipt) (\<lambda>_.
         Inr (row\<lparr>t_class := ''complete'', t_reason := PStr []\<rparr>)))))
     (\<lambda>msg. row\<lparr>t_class := ''quality_failure'', t_reason := PStr msg\<rparr>)"

definition judge_exit :: "pv \<Rightarrow> string \<Rightarrow> string \<Rightarrow> pv \<Rightarrow> trial_row \<Rightarrow> trial_row res \<Rightarrow> trial_row res" where
  "judge_exit m w arm run row k = item run ''exit'' (\<lambda>ex. ebind (by_arm_of m ''expected_exit'' w arm) (\<lambda>es. ebind (py_iter es) (\<lambda>allowed.
     if list_ex (py_eq ex) allowed then k
     else if py_eq ex (PInt 3) then Inr (row\<lparr>t_class := ''quality_failure'', t_reason := PStr ''flaky_exit''\<rparr>)
     else if py_eq ex (PInt 0) \<or> py_eq ex (PInt 2) then Inr (row\<lparr>t_class := ''quality_failure'', t_reason := PStr ''unexpected_outcome''\<rparr>)
     else Inr (row\<lparr>t_reason := PStr ''unexpected_exit''\<rparr>))))"

text \<open>The classification, first reason first.\<close>

definition classify :: "trial_env \<Rightarrow> bundle_tree \<Rightarrow> path \<Rightarrow> pv \<Rightarrow> string \<Rightarrow> string \<Rightarrow> pv \<Rightarrow> receipts \<Rightarrow> pv option \<Rightarrow> trial_row \<Rightarrow> trial_row res" where
  "classify te b d m w arm state rc receipt row0 =
     (let run = run_of rc; row = row0\<lparr>t_class := ''operational_failure'', t_reason := PStr ''interrupted_collection''\<rparr>;
          failure = (\<lambda>reason. Inr (row\<lparr>t_class := ''quality_failure'', t_reason := reason\<rparr>)) in
      if \<not> t_cleanup row then failure (PStr ''cleanup_unproven'')
      else if rc_error rc \<noteq> [] then failure (PStr (rc_error rc))
      else if truthy (fld state ''observation_error'') then failure (fld state ''observation_error'')
      else if fld state ''reason'' = PStr ''registered_date_expired'' \<and> \<not> truthy run then
        Inr (row\<lparr>t_class := ''not_started'', t_reason := PStr ''registered_date_expired''\<rparr>)
      else if truthy (fld state ''reason'') then Inr (row\<lparr>t_reason := fld state ''reason''\<rparr>)
      else ebind (succeeded (command_of rc ''prepare'')) (\<lambda>prepared.
        if \<not> prepared then Inr (row\<lparr>t_reason := PStr ''prepare_failed''\<rparr>)
        else if \<not> truthy run \<or> truthy (fld run ''interrupted'') \<or> \<not> truthy (fld run ''finished'') then Inr row
        else if truthy (fld run ''timeout'') then Inr (row\<lparr>t_reason := PStr ''budget_expired''\<rparr>)
        else if truthy (fld run ''error'') \<or> \<not> t_started row then
          Inr (row\<lparr>t_reason := PStr (if t_started row then ''execution_failed'' else ''spawn_failed'')\<rparr>)
        else judge_exit m w arm run row (conclude te b d m w arm state rc receipt row)))"

text \<open>\<open>Path(text)\<close> printed back, and the directory of an arm under the collection root.\<close>

definition path_text :: "string \<Rightarrow> string" where
  "path_text s = (let lead = (if startswith s ''//'' \<and> \<not> startswith s ''///'' then ''//'' else if is_absolute s then ''/'' else []);
      body = lead @ path_str (path_parts s) in if body = [] then ''.'' else body)"

definition invocation_of :: "trial_env \<Rightarrow> bundle_tree \<Rightarrow> pv \<Rightarrow> slot \<Rightarrow> string \<Rightarrow> pv \<Rightarrow> invocation res" where
  "invocation_of te b m slot arm state =
     item state ''collection_root'' (\<lambda>base. if \<not> is_str base then Inl (TypeError ''Path'')
     else item m ''redact_env'' (\<lambda>secret. ebind (json_at (te_loads te) b [''registration.json'']) (\<lambda>reg. item reg ''registered_at'' (\<lambda>r.
       ebind (timestamp (te_fromiso te) r) (\<lambda>t.
       Inr \<lparr>x_text = map_of [(''trial_dir'', path_text (str_of base @ ''/blocks/'' @ slot_block slot @ ''/'' @ arm)), (''campaign_dir'', str_of base),
              (''block_id'', slot_block slot), (''arm'', arm), (''redact_env'', te_text te secret), (''date'', slot_date slot),
              (''registered_at'', te_time te t)],
            x_redact = secret, x_date = slot_date slot, x_registered = t\<rparr>)))))"

definition arm_dir :: "slot \<Rightarrow> string \<Rightarrow> path" where
  "arm_dir slot arm = [''blocks'', slot_block slot, arm]"

definition elapsed_of :: "pv \<Rightarrow> pv" where
  "elapsed_of run = (if counter (fld run ''seconds'') then fld run ''seconds'' else PNone)"

definition run_row :: "pv \<Rightarrow> (string \<times> pv) list \<Rightarrow> pv \<Rightarrow> bool \<Rightarrow> trial_row" where
  "run_row run metrics facts clean = \<lparr>t_started = (fld run ''started'' = PBool True), t_class = ''not_started'',
     t_reason = PStr ''slot_not_collected'', t_metrics = metrics, t_facts = facts,
     t_exit = (if is_int (fld run ''exit'') then fld run ''exit'' else PNone), t_elapsed = elapsed_of run, t_cleanup = clean\<rparr>"

definition reduce_arm :: "trial_env \<Rightarrow> bundle_tree \<Rightarrow> pv \<Rightarrow> slot \<Rightarrow> string \<Rightarrow> pv \<Rightarrow> receipts \<Rightarrow> trial_row res" where
  "reduce_arm te b m slot arm state rc =
     ebind (observed te b (arm_dir slot arm)) (\<lambda>(receipt, metrics, facts).
     ebind (clocked m (elapsed_of (run_of rc)) metrics) (\<lambda>metrics'.
     ebind (cleanup_proven te b (arm_dir slot arm) state rc) (\<lambda>clean.
     if str_in (fld state ''reason'') [''registered_date_expired'', ''cleanup_unproven''] \<and> rc_commands rc = []
     then Inr ((run_row (run_of rc) metrics' facts clean)\<lparr>t_reason := fld state ''reason''\<rparr>)
     else classify te b (arm_dir slot arm) m (slot_workload slot) arm state rc receipt (run_row (run_of rc) metrics' facts clean))))"

definition trial :: "trial_env \<Rightarrow> bundle_tree \<Rightarrow> pv \<Rightarrow> slot \<Rightarrow> string \<Rightarrow> trial_row res" where
  "trial te b m slot arm =
     (let d = arm_dir slot arm in
      if \<not> exists_at b (d @ [''attempt.json'']) then
        Inr (blank_row (PStr (if exists_at b (butlast d) then ''interrupted_collection'' else ''slot_not_collected'')))
      else ebind (json_at (te_loads te) b (d @ [''attempt.json''])) (\<lambda>state.
        require (is_dict state) ''invalid attempt state'' (
        ebind (invocation_of te b m slot arm state) (\<lambda>x.
        ebind (read_receipts te b d m (slot_workload slot) arm x) (\<lambda>rc.
        reduce_arm te b m slot arm state rc)))))"

section \<open>What a complete row rests on\<close>

lemma caught_eq_Inr: "caught r h = Inr y \<longleftrightarrow> r = Inr y \<or> (\<exists>e. r = Inl e \<and> evidence_error e \<and> y = h (exn_text e))"
  by (auto simp: caught_def split: sum.splits)

lemma judge_exit_complete:
  assumes "judge_exit m w arm run row k = Inr r" "t_class r = ''complete''" "t_class row \<noteq> ''complete''"
  shows "k = Inr r \<and> (\<exists>ex es allowed. getitem run ''exit'' = Inr ex \<and> by_arm_of m ''expected_exit'' w arm = Inr es \<and>
    py_iter es = Inr allowed \<and> list_ex (py_eq ex) allowed)"
  using assms by (auto simp: judge_exit_def ebind_eq_Inr split: if_splits)

lemma conclude_complete:
  assumes "conclude te b d m w arm state rc receipt row = Inr r" "t_class r = ''complete''"
  shows "r = row\<lparr>t_class := ''complete'', t_reason := PStr []\<rparr> \<and>
    (\<forall>step \<in> {''observe'', ''check''}. succeeded (command_of rc step) = Inr True) \<and> fld state ''state'' = PStr ''finished'' \<and>
    observation (te_sha te) (te_loads te) (te_fromiso te) (te_fsum te) b d m w arm (t_elapsed row) receipt = Inr ()"
  using assms unfolding conclude_def caught_eq_Inr
  by (auto simp: ebind_eq_Inr eall_eq_True [of _ "[''observe'', ''check'']"] simp del: eall.simps split: if_splits)

lemma classify_complete:
  assumes "classify te b d m w arm state rc receipt row = Inr r" "t_class r = ''complete''"
  shows "t_cleanup r \<and> t_cleanup row \<and> rc_error rc = [] \<and> succeeded (command_of rc ''prepare'') = Inr True \<and> t_started r \<and>
    truthy (fld (run_of rc) ''finished'') \<and> \<not> truthy (fld (run_of rc) ''timeout'') \<and>
    (\<exists>row0. t_elapsed row0 = t_elapsed row \<and> t_class row0 \<noteq> ''complete'' \<and> t_cleanup row0 = t_cleanup row \<and> t_started row0 = t_started row \<and>
      judge_exit m w arm (run_of rc) row0 (conclude te b d m w arm state rc receipt row0) = Inr r)"
proof -
  let ?row = "row\<lparr>t_class := ''operational_failure'', t_reason := PStr ''interrupted_collection''\<rparr>"
  let ?k = "conclude te b d m w arm state rc receipt ?row"
  have *: "t_cleanup ?row \<and> rc_error rc = [] \<and> succeeded (command_of rc ''prepare'') = Inr True \<and> t_started ?row \<and>
      truthy (fld (run_of rc) ''finished'') \<and> \<not> truthy (fld (run_of rc) ''timeout'') \<and> judge_exit m w arm (run_of rc) ?row ?k = Inr r"
    using assms unfolding classify_def Let_def by (auto simp: ebind_eq_Inr split: if_splits)
  moreover have "?k = Inr r" using judge_exit_complete [of m w arm "run_of rc" ?row ?k r] * assms(2) by simp
  then have "r = ?row\<lparr>t_class := ''complete'', t_reason := PStr []\<rparr>" using conclude_complete assms(2) by blast
  ultimately show ?thesis by (intro conjI exI [of _ ?row]) simp_all
qed

lemma observation_quality:
  assumes "observation sha loads fromiso fsum b d m w arm elapsed receipt = Inr ()"
  shows "\<exists>r. receipt_quality m w arm r = Inr () \<and> hashes_valid sha b d (fld r ''evidence'') = Inr ()"
  using assms unfolding observation_def receipt_valid_def by (auto simp: ebind_eq_Inr)


text \<open>A small complete arm: the digest is the identity, an instant is the length of its text.\<close>

definition sample_command :: "string \<Rightarrow> pv" where
  "sample_command step = PDict [(''step'', PStr step), (''argv'', PList []), (''cwd'', PStr ''/''), (''env'', PDict []),
     (''redacted_env_names'', PList []), (''started_at'', PStr ''aa''), (''ended_at'', PStr ''aa''), (''started'', PBool True),
     (''finished'', PBool True), (''interrupted'', PBool False), (''timeout'', PBool False), (''containment_proven'', PBool True),
     (''exit'', PInt 0), (''error'', PNone), (''seconds'', PFloat (Fin 1))]"

definition sample_manifest :: pv where
  "sample_manifest = (let spec = PDict [(''argv'', PList []), (''cwd'', PStr ''/''), (''env'', PDict []), (''timeout_seconds'', PFloat (Fin 2))];
       one = (\<lambda>v. PDict [(''w'', PDict [(''baseline'', v)])]) in
     PDict [(''experiment'', PStr ''E3''), (''redact_env'', PList []), (''quality_checks'', PList [PStr ''q'']), (''compare_facts'', PList []),
       (''resource_metrics'', PList []), (''expected_facts'', one (PDict [])), (''expected_exit'', one (PList [PInt 0])),
       (''commands'', one (PDict (map (\<lambda>s. (s, spec)) STEPS)))])"

definition sample_documents :: "(string \<times> pv) list" where
  "sample_documents = [(''state'', PDict [(''collection_root'', PStr ''/c''), (''state'', PStr ''finished''), (''cleanup_inputs_valid'', PBool True)]),
     (''reg'', PDict [(''registered_at'', PStr ''a'')]),
     (''receipt'', PDict [(''checks'', PDict [(''q'', PBool True)]), (''facts'', PDict []), (''metrics'', PDict []),
        (''evidence'', PDict [(''ev'', PStr ''e'')]), (''environment'', PDict [(''os'', PStr ''linux'')]), (''resource_method'', PStr ''m'')]),
     (''proof'', PDict [(''proven'', PBool True), (''evidence'', PDict [(''down'', PStr ''d'')])]),
     (''inputs'', PDict [(''paths'', PDict [(''ev'', PStr ''e'')]), (''identities'', PList [])])]
    @ map (\<lambda>s. (s, sample_command s)) STEPS"

definition sample_te :: trial_env where
  "sample_te = \<lparr>te_sha = id, te_loads = (\<lambda>s. case map_of sample_documents s of Some v \<Rightarrow> Inr v | None \<Rightarrow> Inl (ValueError s)),
     te_fromiso = (\<lambda>s. Inr (int (length s), Some 0)), te_fsum = (\<lambda>_. Fin 0), te_text = (\<lambda>_. []), te_time = (\<lambda>_. [])\<rparr>"

definition sample_slot :: slot where
  "sample_slot = \<lparr>slot_block = ''b'', slot_block_id = ''1'', slot_workload = ''w'', slot_date_slot = ''01'', slot_date = ''1970-01-01'',
     slot_arms = [''baseline'', ''candidate'']\<rparr>"

definition sample_dir :: path where
  "sample_dir = [''blocks'', ''b'', ''baseline'']"

definition sample_tree :: bundle_tree where
  "sample_tree = map (\<lambda>(p, i, c). (p, File \<lparr>dev = 0, ino = i\<rparr> 1 c))
     ([([''registration.json''], 1, ''reg''), (sample_dir @ [''attempt.json''], 2, ''state''), (sample_dir @ [''receipt.json''], 3, ''receipt''),
       (sample_dir @ [''cleanup.json''], 4, ''proof''), (sample_dir @ [''cleanup-inputs.json''], 5, ''inputs''),
       (sample_dir @ [''ev''], 6, ''e''), (sample_dir @ [''down''], 7, ''d'')]
      @ map (\<lambda>s. (sample_dir @ [s @ ''.command.json''], 8, s)) STEPS)"

lemmas sample_defs = sample_te_def sample_slot_def sample_dir_def sample_tree_def sample_documents_def sample_manifest_def sample_command_def

lemma sample_files:
  "json_at (te_loads sample_te) sample_tree [''registration.json''] = Inr (PDict [(''registered_at'', PStr ''a'')])"
  "json_at (te_loads sample_te) sample_tree (sample_dir @ [''attempt.json'']) =
     Inr (PDict [(''collection_root'', PStr ''/c''), (''state'', PStr ''finished''), (''cleanup_inputs_valid'', PBool True)])"
  "json_at (te_loads sample_te) sample_tree (sample_dir @ [''receipt.json'']) = Inr (PDict [(''checks'', PDict [(''q'', PBool True)]), (''facts'', PDict []), (''metrics'', PDict []),
        (''evidence'', PDict [(''ev'', PStr ''e'')]), (''environment'', PDict [(''os'', PStr ''linux'')]), (''resource_method'', PStr ''m'')])"
  "list_all (\<lambda>s. exists_at sample_tree (sample_dir @ [s @ ''.command.json'']) \<and>
     json_at (te_loads sample_te) sample_tree (sample_dir @ [s @ ''.command.json'']) = Inr (sample_command s)) STEPS"
  by (simp_all add: json_at_def exists_at_def read_file_def sample_defs STEPS_def)

definition sample_invocation :: invocation where
  "sample_invocation = \<lparr>x_text = map_of [(''trial_dir'', ''/c/blocks/b/baseline''), (''campaign_dir'', ''/c''), (''block_id'', ''b''),
     (''arm'', ''baseline''), (''redact_env'', []), (''date'', ''1970-01-01''), (''registered_at'', [])],
     x_redact = PList [], x_date = ''1970-01-01'', x_registered = 1\<rparr>"

lemma sample_time: "timestamp (te_fromiso sample_te) (PStr ''aa'') = Inr 2" "timestamp (te_fromiso sample_te) (PStr ''a'') = Inr 1"
  by (simp_all add: timestamp_def sample_te_def zulu_def)

lemma sample_invocation_of:
  "invocation_of sample_te sample_tree sample_manifest sample_slot ''baseline''
     (PDict [(''collection_root'', PStr ''/c''), (''state'', PStr ''finished''), (''cleanup_inputs_valid'', PBool True)]) = Inr sample_invocation"
  by (simp add: invocation_of_def sample_files sample_time)
     (simp add: sample_invocation_def sample_manifest_def sample_te_def sample_slot_def path_text_def Let_def startswith_def is_absolute_def
       path_parts_def path_str_def)

lemma sample_command_valid:
  assumes "s \<in> set STEPS"
  shows "command_valid (te_fromiso sample_te) (sample_command s)
    (PDict [(''argv'', PList []), (''cwd'', PStr ''/''), (''env'', PDict []), (''timeout_seconds'', PFloat (Fin 2))]) sample_invocation s = Inr 2"
proof -
  have "iso_date 2 = ''1970-01-01''" by code_simp
  moreover have "json_equal (PStr s) (PStr s)" by simp
  ultimately show ?thesis
    by (simp add: command_valid_def invocation_matches_def expand_command_def outcome_typed_def timing_valid_def sample_command_def
        sample_invocation_def sample_time counter_PFloat py_less_def flt_less_def)
qed

lemma sample_receipts:
  "read_receipts sample_te sample_tree sample_dir sample_manifest ''w'' ''baseline'' sample_invocation =
     Inr \<lparr>rc_commands = map (\<lambda>s. (s, sample_command s)) STEPS, rc_error = [], rc_previous = Some 2\<rparr>"
proof -
  have spec: "by_arm_of sample_manifest ''commands'' ''w'' ''baseline'' =
      Inr (PDict (map (\<lambda>s. (s, PDict [(''argv'', PList []), (''cwd'', PStr ''/''), (''env'', PDict []), (''timeout_seconds'', PFloat (Fin 2))])) STEPS))"
    by (simp add: by_arm_of_def sample_manifest_def Let_def)
  have one: "receipt_step sample_te sample_tree sample_dir sample_manifest ''w'' ''baseline'' sample_invocation s rc =
      Inr (rc\<lparr>rc_commands := rc_commands rc @ [(s, sample_command s)], rc_previous := Some 2\<rparr>)"
    if s: "s \<in> set STEPS" and prev: "rc_previous rc = None \<or> rc_previous rc = Some 2" for s rc
  proof -
    have f: "exists_at sample_tree (sample_dir @ [s @ ''.command.json''])"
      "json_at (te_loads sample_te) sample_tree (sample_dir @ [s @ ''.command.json'']) = Inr (sample_command s)"
      using sample_files(4) s by (auto simp: list_all_iff)
    have l: "map_of (map (\<lambda>s. (s, v)) STEPS) s = Some v" for v :: pv using s by (auto simp: STEPS_def)
    have c: "getitem (sample_command s) ''finished'' = Inr (PBool True)" "getitem (sample_command s) ''ended_at'' = Inr (PStr ''aa'')"
      by (simp_all add: sample_command_def)
    show ?thesis
      using prev by (auto simp: receipt_step_def f Let_def spec l sample_command_valid [OF s] c sample_time caught_def)
  qed
  show ?thesis unfolding read_receipts_def STEPS_def efold.simps by (simp add: one STEPS_def)
qed

lemma sample_succeeded: "succeeded (sample_command s) = Inr True"
  by (simp add: succeeded_def sample_command_def)

lemma sample_owned: "list_all (\<lambda>i. ino i \<in> {2, 5, 8}) (owned_identities sample_tree sample_dir)"
  by (simp add: owned_identities_def owned_paths_def CONTROL_def COMMAND_FILES_def receipt_names_def STEPS_def sample_tree_def sample_dir_def)

lemma sample_child:
  "n \<in> {''ev'', ''down''} \<Longrightarrow> child (links_of sample_tree) sample_dir (PStr n) = Inr (sample_dir @ [n])"
proof -
  assume n: "n \<in> {''ev'', ''down''}"
  have "\<not> links_of sample_tree p" for p
  proof -
    have "snd x \<noteq> Symlink" if "x \<in> set sample_tree" for x using that by (auto simp: sample_tree_def)
    then show ?thesis using map_of_SomeD by (fastforce simp: links_of_def)
  qed
  then show ?thesis using n
    by (auto simp: child_def Let_def path_parts_def is_absolute_def startswith_def char_of_def)
qed

lemma sample_hashes:
  "hashes_valid (te_sha sample_te) sample_tree sample_dir (PDict [(''ev'', PStr ''e'')]) = Inr ()"
  "hashes_valid (te_sha sample_te) sample_tree sample_dir (PDict [(''down'', PStr ''d'')]) = Inr ()"
proof -
  have o: "\<not> owned_name ''ev''" "\<not> owned_name ''down''"
    by (simp_all add: owned_name_def CONTROL_def COMMAND_FILES_def receipt_names_def STEPS_def)
  have i: "file_id sample_tree (sample_dir @ [''ev'']) = Inr (Some \<lparr>dev = 0, ino = 6\<rparr>)"
    "file_id sample_tree (sample_dir @ [''down'']) = Inr (Some \<lparr>dev = 0, ino = 7\<rparr>)"
    "read_file sample_tree (sample_dir @ [''ev'']) = Inr ''e''" "read_file sample_tree (sample_dir @ [''down'']) = Inr ''d''"
    by (simp_all add: file_id_def read_file_def sample_tree_def sample_dir_def STEPS_def)
  have j: "\<not> list_ex (\<lambda>j. Some \<lparr>dev = 0, ino = k\<rparr> = Some j) (owned_identities sample_tree sample_dir)" if "k \<in> {6, 7}" for k
    using sample_owned that by (auto simp: list_ex_iff list_all_iff)
  show "hashes_valid (te_sha sample_te) sample_tree sample_dir (PDict [(''ev'', PStr ''e'')]) = Inr ()"
    "hashes_valid (te_sha sample_te) sample_tree sample_dir (PDict [(''down'', PStr ''d'')]) = Inr ()"
    using j [of 6] j [of 7] by (simp_all add: hashes_valid_def hash_valid_def sample_child o i) (simp_all add: sample_te_def)
qed

lemma sample_cleanup: "cleanup_valid (te_sha sample_te) (te_loads sample_te) sample_tree sample_dir False = Inr ()"
proof -
  have f: "json_at (te_loads sample_te) sample_tree (sample_dir @ [''cleanup.command.json'']) = Inr (sample_command ''cleanup'')"
    "json_at (te_loads sample_te) sample_tree (sample_dir @ [''cleanup.json'']) = Inr (PDict [(''proven'', PBool True), (''evidence'', PDict [(''down'', PStr ''d'')])])"
    "json_at (te_loads sample_te) sample_tree (sample_dir @ [''cleanup-inputs.json'']) = Inr (PDict [(''paths'', PDict [(''ev'', PStr ''e'')]), (''identities'', PList [])])"
    by (simp_all add: json_at_def read_file_def sample_defs STEPS_def)
  have i: "file_id sample_tree (sample_dir @ [''ev'']) = Inr (Some \<lparr>dev = 0, ino = 6\<rparr>)"
    "file_id sample_tree (sample_dir @ [''down'']) = Inr (Some \<lparr>dev = 0, ino = 7\<rparr>)"
    "file_id sample_tree (sample_dir @ [''attempt.json'']) = Inr (Some \<lparr>dev = 0, ino = 2\<rparr>)"
    "file_id sample_tree (sample_dir @ [''cleanup-inputs.json'']) = Inr (Some \<lparr>dev = 0, ino = 5\<rparr>)"
    "exists_at sample_tree (sample_dir @ [''ev''])" "exists_at sample_tree (sample_dir @ [''attempt.json''])"
    "exists_at sample_tree (sample_dir @ [''cleanup-inputs.json''])"
    "\<not> exists_at sample_tree (sample_dir @ [''trial.json''])" "\<not> exists_at sample_tree (sample_dir @ [''redactions.json''])"
    by (simp_all add: file_id_def exists_at_def sample_tree_def sample_dir_def STEPS_def)
  have ids: "input_identities sample_tree sample_dir False (PDict [(''paths'', PDict [(''ev'', PStr ''e'')]), (''identities'', PList [])]) =
      Inr (map (\<lambda>k. PList [PInt 0, PInt k]) [6, 2, 5])"
    by (simp add: input_identities_def sample_child CONTROL_def i id_pv_def)
  have "path_str (drop (length sample_dir) (sample_dir @ [''down''])) = ''down''" by (simp add: path_str_def)
  then have fresh: "fresh_originals sample_tree sample_dir (PDict [(''ev'', PStr ''e'')]) (PDict [(''down'', PStr ''d'')]) = Inr ()"
    by (simp add: fresh_originals_def key_list_def sample_child)
  show ?thesis
    by (simp add: cleanup_valid_def f sample_succeeded sample_hashes ids fresh key_list_def sample_child i id_pv_def)
qed

lemma sample_complete: "trial sample_te sample_tree sample_manifest sample_slot ''baseline'' =
    Inr \<lparr>t_started = True, t_class = ''complete'', t_reason = PStr [], t_metrics = [], t_facts = PDict [], t_exit = PInt 0,
      t_elapsed = PFloat (Fin 1), t_cleanup = True\<rparr>"
proof -
  let ?rc = "\<lparr>rc_commands = map (\<lambda>s. (s, sample_command s)) STEPS, rc_error = [], rc_previous = Some (2::instant)\<rparr>"
  let ?state = "PDict [(''collection_root'', PStr ''/c''), (''state'', PStr ''finished''), (''cleanup_inputs_valid'', PBool True)]"
  let ?receipt = "PDict [(''checks'', PDict [(''q'', PBool True)]), (''facts'', PDict []), (''metrics'', PDict []),
        (''evidence'', PDict [(''ev'', PStr ''e'')]), (''environment'', PDict [(''os'', PStr ''linux'')]), (''resource_method'', PStr ''m'')]"
  have d: "arm_dir sample_slot ''baseline'' = sample_dir" "slot_workload sample_slot = ''w''"
    by (simp_all add: arm_dir_def sample_slot_def sample_dir_def)
  have e: "exists_at sample_tree (sample_dir @ [''attempt.json''])"
    by (simp add: exists_at_def sample_tree_def sample_dir_def STEPS_def)
  have run: "run_of ?rc = sample_command ''run''" "command_of ?rc ''prepare'' = sample_command ''prepare''"
    "command_of ?rc ''observe'' = sample_command ''observe''" "command_of ?rc ''check'' = sample_command ''check''"
    by (simp_all add: run_of_def command_of_def STEPS_def Let_def) (simp_all add: sample_command_def)
  have fields: "fld (sample_command ''run'') ''seconds'' = PFloat (Fin 1)" "fld (sample_command ''run'') ''started'' = PBool True"
    "fld (sample_command ''run'') ''exit'' = PInt 0" "fld (sample_command ''run'') ''interrupted'' = PBool False"
    "fld (sample_command ''run'') ''finished'' = PBool True" "fld (sample_command ''run'') ''timeout'' = PBool False"
    "fld (sample_command ''run'') ''error'' = PNone" "truthy (sample_command ''run'')" "getitem (sample_command ''run'') ''exit'' = Inr (PInt 0)"
    by (simp_all add: sample_command_def)
  have obs: "observed sample_te sample_tree sample_dir = Inr (Some ?receipt, [], PDict [])"
    by (simp add: observed_def sample_files caught_def)
  have man: "getitem sample_manifest ''experiment'' = Inr (PStr ''E3'')" "getitem sample_manifest ''quality_checks'' = Inr (PList [PStr ''q''])"
    "getitem sample_manifest ''compare_facts'' = Inr (PList [])" "getitem sample_manifest ''resource_metrics'' = Inr (PList [])"
    "by_arm_of sample_manifest ''expected_facts'' ''w'' ''baseline'' = Inr (PDict [])"
    "by_arm_of sample_manifest ''expected_exit'' ''w'' ''baseline'' = Inr (PList [PInt 0])"
    by (simp_all add: by_arm_of_def sample_manifest_def Let_def)
  have "observation (te_sha sample_te) (te_loads sample_te) (te_fromiso sample_te) (te_fsum sample_te) sample_tree sample_dir sample_manifest
      ''w'' ''baseline'' x (Some ?receipt) = Inr ()" for x
    by (simp add: observation_def man dict_set_def dict_put_def receipt_valid_def receipt_shape_def receipt_quality_def sample_hashes
        str_in_def nonblank_def strip_def is_space_def char_code_def)
  then have con: "conclude sample_te sample_tree sample_dir sample_manifest ''w'' ''baseline'' ?state ?rc (Some ?receipt) row =
      Inr (row\<lparr>t_class := ''complete'', t_reason := PStr []\<rparr>)" for row
    by (simp add: conclude_def run sample_succeeded caught_def)
  have clean: "cleanup_proven sample_te sample_tree sample_dir ?state ?rc = Inr True"
    by (simp add: cleanup_proven_def sample_cleanup caught_def list_all_iff) (simp add: sample_command_def)
  have row: "run_row (sample_command ''run'') [] (PDict []) True = \<lparr>t_started = True, t_class = ''not_started'',
     t_reason = PStr ''slot_not_collected'', t_metrics = [], t_facts = PDict [], t_exit = PInt 0, t_elapsed = PFloat (Fin 1), t_cleanup = True\<rparr>"
    by (simp add: run_row_def elapsed_of_def fields counter_PFloat)
  show ?thesis
    by (simp add: trial_def d e sample_files sample_invocation_of sample_receipts reduce_arm_def obs clocked_def man clean run row
        classify_def sample_succeeded fields judge_exit_def con str_in_def)
qed


end
