(* ===== verification/Report.thy ===== *)
theory Report
  imports Product
begin

text \<open>
  The report of the E5 reduction (\<open>runner/analyze.py\<close>, \<open>stats\<close>, \<open>analysis_source\<close> and \<open>analyze_locked\<close>):
  cells, pairs and cost cells of the reduced rows and the lines of \<open>report.md\<close>.  \<open>stats\<close> is on the
  values as JSON gives them, ints and floats mixed; Quantile has its float case.  The JSON text of the
  source record and the digests of the frozen files are arguments.
\<close>

section \<open>Samples of mixed numbers\<close>

text \<open>\<open>sorted\<close>: a stable insertion sort on the values' own order, which raises on a mixture of types.\<close>

fun pinsert :: "('a \<Rightarrow> pv) \<Rightarrow> 'a \<Rightarrow> 'a list \<Rightarrow> 'a list res" where
  "pinsert key x [] = Inr [x]"
| "pinsert key x (y # ys) = ebind (py_less (key y) (key x)) (\<lambda>before.
     if before then ebind (pinsert key x ys) (\<lambda>zs. Inr (y # zs)) else Inr (x # y # ys))"

fun psort :: "('a \<Rightarrow> pv) \<Rightarrow> 'a list \<Rightarrow> 'a list res" where
  "psort key [] = Inr []"
| "psort key (x # xs) = ebind (psort key xs) (pinsert key x)"

text \<open>\<open>q(p)\<close> on a sorted sample.\<close>

definition sample_quantile :: "pv list \<Rightarrow> rat \<Rightarrow> pv res" where
  "sample_quantile vs p =
     (if vs = [] then Inr PNone
      else ebind (py_mul (PInt (int (length vs - 1))) (PFloat (Fin p))) (\<lambda>index.
        let low = (case index of PFloat (Fin x) \<Rightarrow> nat \<lfloor>x\<rfloor> | _ \<Rightarrow> 0) in
        ebind (py_sub (vs ! min (low + 1) (length vs - 1)) (vs ! low)) (\<lambda>step.
        ebind (py_sub index (PInt (int low))) (\<lambda>weight.
        ebind (py_mul step weight) (py_add (vs ! low))))))"

text \<open>\<open>max\<close> keeps the first of equal values.\<close>

fun largest :: "pv \<Rightarrow> pv list \<Rightarrow> pv res" where
  "largest m [] = Inr m"
| "largest m (x # xs) = ebind (py_less m x) (\<lambda>more. largest (if more then x else m) xs)"

record summary_stats =
  ss_n :: nat
  ss_median :: pv
  ss_p90 :: pv
  ss_min :: pv
  ss_max :: pv

definition sample_summary :: "pv list \<Rightarrow> summary_stats res" where
  "sample_summary values =
     ebind (psort (\<lambda>v. v) (filter (\<lambda>v. v \<noteq> PNone) values)) (\<lambda>vs.
     ebind (sample_quantile vs float_half) (\<lambda>median. ebind (sample_quantile vs float_nine_tenths) (\<lambda>p90.
     ebind (case vs of [] \<Rightarrow> Inr PNone | v # rest \<Rightarrow> largest v rest) (\<lambda>most.
     Inr \<lparr>ss_n = length vs, ss_median = median, ss_p90 = p90, ss_min = (case vs of [] \<Rightarrow> PNone | v # _ \<Rightarrow> v), ss_max = most\<rparr>))))"

section \<open>Cells\<close>

type_synonym report_row = "e5_slot \<times> row"

definition status_names :: "string list" where
  "status_names = [''complete'', ''quality_failed'', ''operational_failed'', ''budget_exhausted'', ''preparation_failed'',
     ''unsupported'', ''not_started'']"

definition row_seconds :: "row \<Rightarrow> pv" where
  "row_seconds r = (case rw_receipt r of None \<Rightarrow> PNone | Some c \<Rightarrow> rc_seconds c)"

text \<open>\<open>stage_values[name].extend(durations)\<close>: names in the order of their first use.\<close>

fun extend_total :: "pv \<Rightarrow> pv list \<Rightarrow> (pv \<times> pv list) list \<Rightarrow> (pv \<times> pv list) list" where
  "extend_total name xs [] = [(name, xs)]"
| "extend_total name xs ((k, ys) # ts) = (if py_eq k name then (k, ys @ xs) # ts else (k, ys) # extend_total name xs ts)"

definition row_stages :: "row \<Rightarrow> (pv \<times> pv list) list" where
  "row_stages r = (case ev_stages (rw_evidence r) of
     Some (Stages totals covered remainder) \<Rightarrow> totals @ [(PStr ''remainder'', [remainder])] | _ \<Rightarrow> [])"

definition stage_values :: "row list \<Rightarrow> (pv \<times> pv list) list" where
  "stage_values rows = fold (\<lambda>(name, xs). extend_total name xs) (concat (map row_stages rows)) []"

record cell =
  ce_key :: "string \<times> string \<times> string"
  ce_arm :: string
  ce_started :: nat
  ce_statuses :: "(string \<times> nat) list"
  ce_invocation :: summary_stats
  ce_all_started :: summary_stats
  ce_stages :: "(pv \<times> summary_stats) list"
  ce_amortized :: "summary_stats option"
  ce_detections :: nat
  ce_exposed :: nat
  ce_confirmed :: nat
  ce_first_lower :: summary_stats
  ce_first_upper :: summary_stats

definition count_if :: "('a \<Rightarrow> bool) \<Rightarrow> 'a list \<Rightarrow> nat" where
  "count_if P xs = length (filter P xs)"

text \<open>The cost per execution: evaluated executions for \<open>T-E\<close>, the planned count for \<open>B1\<close> and \<open>T-R\<close>.\<close>

definition amortized :: "(string \<Rightarrow> string \<Rightarrow> expected) \<Rightarrow> string \<times> string \<times> string \<Rightarrow> string \<Rightarrow> row list \<Rightarrow> summary_stats option res" where
  "amortized inputs key arm finished =
     (if arm = ''T-E'' then
        ebind (emap (\<lambda>r. py_div (row_seconds r) (PInt (int (ev_evaluated (rw_evidence r)))))
          (filter (\<lambda>r. 0 < ev_evaluated (rw_evidence r)) finished)) (\<lambda>xs.
        ebind (sample_summary xs) (\<lambda>s. Inr (Some s)))
      else if arm = ''B1'' \<or> arm = ''T-R'' then
        ebind (emap (\<lambda>r. py_div (row_seconds r) (PInt (int (ex_counts (inputs (fst key) (fst (snd key))) arm)))) finished) (\<lambda>xs.
        ebind (sample_summary xs) (\<lambda>s. Inr (Some s)))
      else Inr None)"

definition in_cell :: "string \<times> string \<times> string \<Rightarrow> string \<Rightarrow> report_row \<Rightarrow> bool" where
  "in_cell key arm sr = ((workload_of (fst sr), variant_of (fst sr), cache_of (fst sr)) = key \<and> s_arm (fst sr) = arm)"

definition report_cell ::
  "(string \<Rightarrow> string \<Rightarrow> expected) \<Rightarrow> report_row list \<Rightarrow> (string \<times> string \<times> string) \<times> string \<Rightarrow> cell res"
where
  "report_cell inputs rows = (\<lambda>(key, arm).
     (let chosen = filter (in_cell key arm) rows; values = map snd chosen; finished = filter (\<lambda>r. rw_status r = ''complete'') values;
          firsts = concat (map (\<lambda>r. case ev_first (rw_evidence r) of None \<Rightarrow> [] | Some i \<Rightarrow> [i]) values) in
      ebind (sample_summary (map row_seconds finished)) (\<lambda>invocation.
      ebind (sample_summary (map row_seconds (filter rw_started values))) (\<lambda>all_started.
      ebind (psort fst (stage_values finished)) (\<lambda>named_stages.
      ebind (emap (\<lambda>(n, xs). ebind (sample_summary xs) (\<lambda>s. Inr (n, s))) named_stages) (\<lambda>stage_stats.
      ebind (amortized inputs key arm finished) (\<lambda>per_execution.
      ebind (emap (\<lambda>sr. detected_in_budget (fst sr) (snd sr)) chosen) (\<lambda>detected.
      ebind (sample_summary (map fst firsts)) (\<lambda>lower. ebind (sample_summary (map snd firsts)) (\<lambda>upper.
      Inr \<lparr>ce_key = key, ce_arm = arm, ce_started = count_if rw_started values,
        ce_statuses = map (\<lambda>s. (s, count_if (\<lambda>r. rw_status r = s) values)) status_names,
        ce_invocation = invocation, ce_all_started = all_started, ce_stages = stage_stats, ce_amortized = per_execution,
        ce_detections = count_if id detected, ce_exposed = count_if (\<lambda>r. 0 < ev_valid (rw_evidence r)) values,
        ce_confirmed = count_if (\<lambda>r. ev_stable (rw_evidence r)) values, ce_first_lower = lower, ce_first_upper = upper\<rparr>))))))))))"

definition cell_keys :: "((string \<times> string \<times> string) \<times> string) list" where
  "cell_keys = concat (map (\<lambda>k. map (\<lambda>a. (k, a)) arm_names) cells)"

definition report_cells :: "(string \<Rightarrow> string \<Rightarrow> expected) \<Rightarrow> report_row list \<Rightarrow> cell list res" where
  "report_cells inputs rows = emap (report_cell inputs rows) cell_keys"

section \<open>Pairs\<close>

record pair_row =
  pa_key :: block_key
  pa_difference :: pv
  pa_ratio :: pv
  pa_reason :: "string option"
  pa_t_complete :: bool

text \<open>\<open>grouped[key][arm]\<close>: the last row of a block and arm.\<close>

definition block_row :: "report_row list \<Rightarrow> block_key \<Rightarrow> string \<Rightarrow> row res" where
  "block_row rows key arm = (case find (\<lambda>sr. s_key (fst sr) = key \<and> s_arm (fst sr) = arm) (rev rows) of
     Some sr \<Rightarrow> Inr (snd sr) | None \<Rightarrow> Inl (KeyError arm))"

definition pair_of :: "report_row list \<Rightarrow> block_key \<Rightarrow> pair_row res" where
  "pair_of rows key =
     ebind (block_row rows key ''B1'') (\<lambda>b. ebind (block_row rows key ''T-R'') (\<lambda>t.
     let valid = (rw_status b = rw_status t \<and> rw_status t = ''complete''); x = row_seconds b; y = row_seconds t in
     ebind (if valid then py_sub y x else Inr PNone) (\<lambda>difference.
     ebind (if valid \<and> truthy x then py_div y x else Inr PNone) (\<lambda>ratio.
     ebind (if rw_status t = ''complete'' then ebind (block_row rows key ''T-E'') (\<lambda>e. Inr (rw_status e = ''complete'')) else Inr False) (\<lambda>done_t.
     Inr \<lparr>pa_key = key, pa_difference = difference, pa_ratio = ratio,
       pa_reason = (if valid \<and> truthy x then None else Some ''incomplete pair or zero denominator''), pa_t_complete = done_t\<rparr>)))))"

definition block_keys :: "report_row list \<Rightarrow> block_key list" where
  "block_keys rows = sort_key key_parts (remdups (map (\<lambda>sr. s_key (fst sr)) rows))"

definition report_pairs :: "report_row list \<Rightarrow> pair_row list res" where
  "report_pairs rows = emap (pair_of rows) (block_keys rows)"

record cost_cell =
  co_key :: "string \<times> string \<times> string"
  co_difference :: summary_stats
  co_ratio :: summary_stats
  co_t_complete :: nat

definition cell_of :: "block_key \<Rightarrow> string \<times> string \<times> string" where
  "cell_of = (\<lambda>(w, v, c, b). (w, v, c))"

definition cell_parts :: "string \<times> string \<times> string \<Rightarrow> string list" where
  "cell_parts = (\<lambda>(w, v, c). [w, v, c])"

definition cost_of :: "pair_row list \<Rightarrow> string \<times> string \<times> string \<Rightarrow> cost_cell res" where
  "cost_of pairs key =
     (let chosen = filter (\<lambda>p. cell_of (pa_key p) = key) pairs in
      ebind (sample_summary (map pa_difference chosen)) (\<lambda>d. ebind (sample_summary (map pa_ratio chosen)) (\<lambda>r.
      Inr \<lparr>co_key = key, co_difference = d, co_ratio = r, co_t_complete = count_if pa_t_complete chosen\<rparr>)))"

definition report_costs :: "pair_row list \<Rightarrow> cost_cell list res" where
  "report_costs pairs = emap (cost_of pairs) (sort_key cell_parts (remdups (map (\<lambda>p. cell_of (pa_key p)) pairs)))"


section \<open>The source record\<close>

text \<open>\<open>shlex.join\<close>: a word with a character outside the safe set is quoted.\<close>

definition shell_safe :: "char \<Rightarrow> bool" where
  "shell_safe c = (is_digit c \<or> (CHR ''a'' \<le> c \<and> c \<le> CHR ''z'') \<or> (CHR ''A'' \<le> c \<and> c \<le> CHR ''Z'') \<or> c \<in> set ''_@%+=:,./-'')"

definition shell_quote :: "string \<Rightarrow> string" where
  "shell_quote s = (let q = CHR 0x27 in
     if s \<noteq> [] \<and> list_all shell_safe s then s
     else [q] @ concat (map (\<lambda>c. if c = q then [q, CHR 0x22, q, CHR 0x22, q] else [c]) s) @ [q])"

definition shell_join :: "string list \<Rightarrow> string" where
  "shell_join argv = join '' '' (map shell_quote argv)"

definition source_names :: "(string \<times> string) list" where
  "source_names = [(''manifest_sha256'', ''frozen/manifest.json''), (''order_sha256'', ''frozen/order.json''),
     (''frozen_sha256'', ''frozen/SHA256SUMS''), (''checkpoint_sha256'', ''progress/checkpoint.json'')]"

definition replay_argv :: "string \<Rightarrow> string \<Rightarrow> string list" where
  "replay_argv python bundle_path =
     [python, ''-B'', bundle_path @ ''/frozen/source/tool.py'', ''analyze'', bundle_path, bundle_path @ ''-analysis-replay'']"

definition analysis_source :: "(string \<Rightarrow> string) \<Rightarrow> string \<Rightarrow> string \<Rightarrow> pv \<Rightarrow> pv \<Rightarrow> pv" where
  "analysis_source digest_of python bundle_path manifest registration =
     (let argv = replay_argv python bundle_path in
      PDict (map (\<lambda>(k, f). (k, PStr (digest_of f))) source_names @ [(''registration'', registration)] @
        map (\<lambda>k. (k, fld manifest k)) [''candidate'', ''e1_registration'', ''fixture_revision'', ''source_revision''] @
        [(''replay'', PDict [(''argv'', PList (map PStr argv)), (''command'', PStr (shell_join argv))])]))"

section \<open>The report\<close>

text \<open>\<open>'%.6f' % v\<close>: the exact value rounded to six decimals, ties to even.\<close>

definition fixed6 :: "rat \<Rightarrow> string" where
  "fixed6 x = (let n = nat (rne (\<bar>x\<bar> * 1000000)) in
     (if x < 0 then ''-'' else '''') @ show_nat (n div 1000000) @ ''.'' @ pad_nat 6 (n mod 1000000))"

definition fmt :: "pv \<Rightarrow> string res" where
  "fmt v = (if v = PNone then Inr ''N/A'' else ebind (to_float v) (\<lambda>f. Inr (case f of
     Fin x \<Rightarrow> fixed6 x | PosInf \<Rightarrow> ''inf'' | NegInf \<Rightarrow> ''-inf'' | NaN \<Rightarrow> ''nan'')))"

text \<open>\<open>html.escape\<close> with line breaks turned into spaces.\<close>

definition deviation_char :: "char \<Rightarrow> string" where
  "deviation_char c = (if c = CHR ''&'' then ''&amp;'' else if c = CHR ''<'' then ''&lt;'' else if c = CHR ''>'' then ''&gt;''
     else if c = CHR 0x22 then ''&quot;'' else if c = CHR 0x27 then ''&#x27;'' else if c = CHR 0x0A then '' '' else [c])"

definition deviation_line :: "string \<Rightarrow> string" where
  "deviation_line d = ''- '' @ concat (map deviation_char d)"

definition table_line :: "string list \<Rightarrow> string" where
  "table_line columns = ''| '' @ join '' | '' columns @ '' |''"

definition dashes :: "nat \<Rightarrow> string" where
  "dashes n = table_line (replicate n ''---'')"

definition fmt_n :: "pv \<Rightarrow> nat \<Rightarrow> string res" where
  "fmt_n v n = ebind (fmt v) (\<lambda>s. Inr (s @ '' ('' @ show_nat n @ '')''))"

definition of_ten :: "nat \<Rightarrow> string" where
  "of_ten n = show_nat n @ '' / 10''"

definition key_columns :: "cell \<Rightarrow> string list" where
  "key_columns c = cell_parts (ce_key c) @ [ce_arm c]"

definition accounting_line :: "cell \<Rightarrow> string res" where
  "accounting_line c = (let s = ce_invocation c in
     ebind (fmt_n (ss_median s) (ss_n s)) (\<lambda>median. ebind (fmt (ss_p90 s)) (\<lambda>p90.
     Inr (table_line (key_columns c @ [of_ten (the (map_of (ce_statuses c) ''complete'')),
       join '', '' (map (\<lambda>(k, n). k @ ''='' @ show_nat n) (filter (\<lambda>(k, n). k \<noteq> ''complete'' \<and> n \<noteq> 0) (ce_statuses c))),
       median, p90, of_ten (ce_detections c), if ce_arm c \<in> {''B1'', ''B2''} then of_ten (ce_exposed c) else ''N/A''])))))"

definition cost_line :: "cost_cell \<Rightarrow> string res" where
  "cost_line c = (let d = co_difference c; r = co_ratio c in
     ebind (fmt_n (ss_median d) (ss_n d)) (\<lambda>difference. ebind (fmt_n (ss_median r) (ss_n r)) (\<lambda>ratio.
     Inr (table_line (cell_parts (co_key c) @ [difference, ratio, of_ten (co_t_complete c)])))))"

definition summary_columns :: "summary_stats \<Rightarrow> string list res" where
  "summary_columns s = ebind (fmt_n (ss_median s) (ss_n s)) (\<lambda>median. ebind (emap fmt [ss_p90 s, ss_min s, ss_max s]) (\<lambda>rest.
     Inr (median # rest)))"

definition amortized_lines :: "cell \<Rightarrow> string list res" where
  "amortized_lines c = (case ce_amortized c of None \<Rightarrow> Inr []
   | Some s \<Rightarrow> ebind (summary_columns s) (\<lambda>columns. Inr [table_line (key_columns c @ columns)]))"

definition first_bound :: "row \<Rightarrow> string res" where
  "first_bound r = (case ev_first (rw_evidence r) of None \<Rightarrow> Inr ''unknown / absent''
   | Some (a, b) \<Rightarrow> ebind (fmt a) (\<lambda>x. ebind (fmt b) (\<lambda>y. Inr (''['' @ x @ '', '' @ y @ ''] '' @ rw_event_member r))))"

definition b2_lines :: "report_row \<Rightarrow> string list res" where
  "b2_lines = (\<lambda>(slot, r). let e = rw_evidence r in
     if s_arm slot \<noteq> ''B2'' \<or> \<not> rw_started r then Inr []
     else ebind (fmt (ev_over_valid e)) (\<lambda>x. ebind (fmt (ev_over_planned e)) (\<lambda>y. ebind (first_bound r) (\<lambda>first.
       Inr [table_line [s_id slot, rw_status r,
         if ev_retained e then show_nat (ev_attempted e) @ '' / '' @ show_nat (ev_valid e) else ''N/A / N/A'', x, y, first]]))))"

definition fingerprint_text :: "pv \<Rightarrow> string" where
  "fingerprint_text v = join '', '' (map (\<lambda>(k, n). k @ ''='' @ show_int (int_of_pv n)) (sort_key fst (items_of v)))"

definition te_lines :: "(pv \<Rightarrow> string) \<Rightarrow> report_row \<Rightarrow> string list res" where
  "te_lines render = (\<lambda>(slot, r). let e = rw_evidence r in
     if s_arm slot \<noteq> ''T-E'' \<or> \<not> rw_started r then Inr []
     else ebind (first_bound r) (\<lambda>first.
       let explored = (case ev_product e of Some (n, _) \<Rightarrow> show_int n | None \<Rightarrow> ''N/A'');
           confirmation = (if ev_exhausted e then ''not run (no discovery)''
             else (case ev_product e of Some (_, n, _) \<Rightarrow> show_int n @ '' / '' @ show_nat (ev_planned e) | None \<Rightarrow> ''N/A / N/A''));
           prints = (case ev_product e of Some (_, _, p, _) \<Rightarrow> fingerprint_text p | None \<Rightarrow> '''');
           selected = (case ev_product e of Some (_, _, _, s) \<Rightarrow> s | None \<Rightarrow> PNone) in
       Inr [table_line [s_id slot, rw_status r, explored, confirmation, if prints = [] then ''none retained'' else prints,
         if truthy selected then py_str render selected else ''none retained'', first, if ev_stable e then ''True'' else ''False'']]))"

definition stage_lines :: "(pv \<Rightarrow> string) \<Rightarrow> cell \<Rightarrow> string list res" where
  "stage_lines render c = emap (\<lambda>(n, s). ebind (summary_columns s) (\<lambda>columns.
     Inr (table_line (key_columns c @ [py_str render n] @ columns)))) (ce_stages c)"


text \<open>The lines of \<open>report.md\<close>, section by section.\<close>

definition heading :: "pv \<Rightarrow> string \<Rightarrow> string list" where
  "heading phase campaign = [''# E5 retained evidence'', '''', ''Phase: '' @ str_of phase @ ''. Same-host descriptive data only.'',
     ''p90 uses interpolation; at n=10 it is not a population tail estimate.'', '''']"

definition deviation_lines :: "pv list \<Rightarrow> string list" where
  "deviation_lines ds = [''## Registered deviations'', ''''] @
     (if ds = [] then [''None registered.''] else map (\<lambda>d. deviation_line (str_of d)) ds)"

definition rstrip :: "string \<Rightarrow> string" where
  "rstrip s = rev (dropWhile (\<lambda>c. c \<in> {CHR 0x20, CHR 0x09, CHR 0x0A, CHR 0x0B, CHR 0x0C, CHR 0x0D}) (rev s))"

definition source_lines :: "(pv \<Rightarrow> string) \<Rightarrow> string \<Rightarrow> pv \<Rightarrow> string list" where
  "source_lines canonical campaign source = ['''', ''## Authenticated source'', '''', ''Campaign: '' @ campaign, '''',
     ''```json'', rstrip (canonical source), ''```'', '''',
     ''Reproduce from the retained bundle with its frozen tool (destination must be new):'', '''',
     ''```sh'', str_of (fld (fld source ''replay'') ''command''), ''```'', '''']"

definition accounting_head :: "string list" where
  "accounting_head = [''## Accounting'', '''',
     table_line [''Workload'', ''Variant'', ''Cache'', ''Arm'', ''Complete / planned'', ''Failures / missing'', ''Median seconds (n)'', ''p90'',
       ''Detection / 10'', ''Baseline exposure / 10''], dashes 10]"

definition cost_head :: "string list" where
  "cost_head = ['''', ''## Paired cost'', '''',
     table_line [''Workload'', ''Variant'', ''Cache'', ''T-R minus B1 median seconds (n)'', ''Ratio median (n)'', ''T complete / 10''], dashes 6]"

definition amortized_head :: "string list" where
  "amortized_head = ['''', ''## Descriptive cost per evaluated execution'', '''',
     ''Whole invocation divided by actual evaluations, including T-E discovery and confirmation. Complete slots only; variable search work is not equal-work throughput.'', '''',
     table_line [''Workload'', ''Variant'', ''Cache'', ''Arm'', ''Median seconds (n)'', ''p90'', ''Min'', ''Max''], dashes 8]"

definition search_head :: "string list" where
  "search_head = ['''', ''## Observed search slots'', '''',
     ''Every unstarted slot and reason remains in the accounting above and results.json.'',
     ''Fixed-row detections are unexpected domain violations, not intended discoveries.'', '''',
     ''B2 retains uncontrolled exposure; T-E retains explored candidates and automatic confirmation separately.'', '''',
     table_line [''Slot'', ''Status'', ''Attempted / valid'', ''Violations / valid'', ''Violations / planned'', ''First domain bound seconds''], dashes 6]"

definition confirmation_head :: "string list" where
  "confirmation_head = ['''',
     table_line [''Slot'', ''Status'', ''Explored candidates'', ''Violating confirmations / planned'', ''Fingerprint counts'', ''Selected schedule'',
       ''First domain bound seconds'', ''Stable confirmation''], dashes 8]"

definition stage_head :: "string list" where
  "stage_head = ['''', ''## Stage observations'', '''',
     ''Inclusive named spans; overlapping parents are never added together. Remainder is unmatched invocation time, one value per complete slot. Guest startup is not inferred by subtraction.'', '''',
     table_line [''Workload'', ''Variant'', ''Cache'', ''Arm'', ''Stage'', ''Median seconds (n)'', ''p90'', ''Min'', ''Max''], dashes 9]"

definition closing_lines :: "string list" where
  "closing_lines = ['''', ''All first-event bounds, per-execution outcomes, failures, resources and within-block pairs are in results.json.'',
     ''T-R minus B1 is total controlled-path cost, not isolated sync-point overhead.'', '''']"

definition report_lines ::
  "(pv \<Rightarrow> string) \<Rightarrow> (pv \<Rightarrow> string) \<Rightarrow> pv \<Rightarrow> pv list \<Rightarrow> pv \<Rightarrow> cell list \<Rightarrow> cost_cell list \<Rightarrow> report_row list \<Rightarrow> string list res"
where
  "report_lines render canonical manifest deviations source cs costs rows =
     (let campaign = str_of (fld manifest ''campaign_id'') in
      ebind (emap accounting_line cs) (\<lambda>accounting. ebind (emap cost_line costs) (\<lambda>paired.
      ebind (econcat amortized_lines cs) (\<lambda>per_execution. ebind (econcat b2_lines rows) (\<lambda>b2.
      ebind (econcat (te_lines render) rows) (\<lambda>te. ebind (econcat (stage_lines render) cs) (\<lambda>stage.
      Inr (heading (fld manifest ''phase'') campaign @ deviation_lines deviations @ source_lines canonical campaign source @
        accounting_head @ accounting @ cost_head @ paired @ amortized_head @ per_execution @ search_head @ b2 @
        confirmation_head @ te @ stage_head @ stage @ closing_lines))))))))"

section \<open>The analysis\<close>

text \<open>A stop leaves its reason on every slot that was not started.\<close>

definition mark_stopped :: "string option \<Rightarrow> report_row \<Rightarrow> report_row" where
  "mark_stopped stopped = (\<lambda>(slot, r). case stopped of None \<Rightarrow> (slot, r)
     | Some why \<Rightarrow> (slot, if rw_status r = ''not_started'' then r\<lparr>rw_reasons := [PStr (''campaign stopped: '' @ why)]\<rparr> else r))"

record analysis =
  an_rows :: "report_row list"
  an_cells :: "cell list"
  an_pairs :: "pair_row list"
  an_costs :: "cost_cell list"
  an_deviations :: "pv list"
  an_source :: pv
  an_report :: "string list"

definition reduce_rows ::
  "(string \<Rightarrow> bool) \<Rightarrow> (pv \<Rightarrow> string) \<Rightarrow> (string \<Rightarrow> string \<Rightarrow> expected) \<Rightarrow> pv \<Rightarrow> (string \<Rightarrow> slot_dir option) \<Rightarrow> string option \<Rightarrow>
     e5_slot list \<Rightarrow> report_row list res"
where
  "reduce_rows address_ok render inputs manifest dir_of stopped slots =
     ebind (emap (\<lambda>s. reduce_slot address_ok render manifest (str_of (fld manifest ''phase''))
       (inputs (workload_of s) (variant_of s)) (dir_of (s_id s)) s) slots) (\<lambda>rows.
     Inr (map (mark_stopped stopped) (zip slots rows)))"

text \<open>The reduction of verified inputs: the registered order and the stop are those of \<open>retained_progress\<close>.\<close>

definition analyze_rows ::
  "(pv \<Rightarrow> string) \<Rightarrow> (pv \<Rightarrow> string) \<Rightarrow> (string \<Rightarrow> string \<Rightarrow> expected) \<Rightarrow> pv \<Rightarrow> pv \<Rightarrow> report_row list \<Rightarrow> analysis res"
where
  "analyze_rows render canonical inputs manifest source rows =
     ebind (report_cells inputs rows) (\<lambda>cs. ebind (report_pairs rows) (\<lambda>pairs. ebind (report_costs pairs) (\<lambda>costs.
     ebind (campaign_deviations manifest) (\<lambda>deviations.
     ebind (report_lines render canonical manifest (elems_of deviations) source cs costs rows) (\<lambda>ls.
     Inr \<lparr>an_rows = rows, an_cells = cs, an_pairs = pairs, an_costs = costs, an_deviations = elems_of deviations,
       an_source = source, an_report = ls\<rparr>)))))"

text \<open>\<open>analysis output must be outside campaign\<close>, on resolved paths.\<close>

definition output_outside :: "path \<Rightarrow> path \<Rightarrow> bool" where
  "output_outside bundle_path out = (take (length bundle_path) out \<noteq> bundle_path)"


section \<open>The summary refines the exact statistics\<close>

abbreviation num :: "rat \<Rightarrow> pv" where "num x \<equiv> PFloat (Fin x)"

definition opt_num :: "rat option \<Rightarrow> pv" where
  "opt_num v = (case v of None \<Rightarrow> PNone | Some x \<Rightarrow> num x)"

definition opt_flt :: "flt option \<Rightarrow> pv" where
  "opt_flt v = (case v of None \<Rightarrow> PNone | Some f \<Rightarrow> PFloat f)"

definition summary_of :: "sample_stats \<Rightarrow> summary_stats" where
  "summary_of s = \<lparr>ss_n = st_n s, ss_median = opt_flt (st_median s), ss_p90 = opt_flt (st_p90 s), ss_min = opt_num (st_min s),
     ss_max = opt_num (st_max s)\<rparr>"

lemma less_num [simp]: "py_less (num x) (num y) = Inr (x < y)"
  by (simp add: py_less_def)

lemma pinsert_num: "pinsert (\<lambda>v. v) (num x) (map num ys) = Inr (map num (insort x ys))"
  by (induction ys) auto

lemma psort_num: "psort (\<lambda>v. v) (map num xs) = Inr (map num (sort xs))"
  by (induction xs) (simp_all add: pinsert_num)

lemma largest_num: "largest (num m) (map num xs) = Inr (num (fold max xs m))"
  by (induction xs arbitrary: m) (simp_all add: max_def)

lemma py_sub_index: "representable (of_nat k) \<Longrightarrow> py_sub (num a) (PInt (int k)) = Inr (PFloat (to_flt (a - of_nat k)))"
  using to_flt_representable [of "of_nat k"] by (simp add: py_sub_def num_op_def int_like_def to_float_def flt_sub_def)

lemma quantile_num:
  assumes "xs \<noteq> []" "length xs \<le> 2 ^ 53" "0 \<le> p" "p \<le> 1"
  shows "sample_quantile (map num (sort xs)) p = Inr (opt_flt (runner_quantile xs p))"
proof -
  let ?n = "length xs" and ?ys = "sort xs"
  note r = index_representable [OF assms(2)]
  have idx: "sample_index ?n p = Fin (position ?n p)" using sample_index_position [OF assms(2) _ assms(3,4)] assms(1) by simp
  have mul: "py_mul (PInt (int (?n - 1))) (num p) = Inr (num (position ?n p))"
    using idx to_flt_representable [OF r] by (simp add: py_mul_def num_op_def int_like_def to_float_def sample_index_def)
  have range: "0 \<le> position ?n p" "position ?n p \<le> of_nat (?n - 1)"
    using position_range [OF assms(2) _ assms(3,4)] assms(1) by simp_all
  obtain k where k_def: "nat \<lfloor>position ?n p\<rfloor> = k" by blast
  have "\<lfloor>position ?n p\<rfloor> \<le> int (?n - 1)" using range(2) by (simp add: floor_le_iff)
  then have k: "k \<le> ?n - 1" unfolding k_def [symmetric] by simp
  then have kn: "k < length ?ys" "min (k + 1) (length ?ys - 1) < length ?ys" using assms(1) by (cases xs; simp)+
  have rk: "representable (of_nat k)" using index_representable [of "k + 1"] k assms(1,2) by (cases xs) auto
  have sub: "py_sub (num (position ?n p)) (PInt (int k)) = Inr (PFloat (to_flt (position ?n p - of_nat k)))"
    by (rule py_sub_index [OF rk])
  have step: "py_sub (num a) (num b) = Inr (PFloat (flt_sub (Fin a) (Fin b)))" for a b
    by (simp add: py_sub_def num_op_def int_like_def to_float_def)
  have close: "ebind (py_mul (PFloat f) (PFloat g)) (py_add (num a)) = Inr (PFloat (flt_add (Fin a) (flt_mul f g)))" for f g a
    by (simp add: py_mul_def py_add_def num_op_def int_like_def to_float_def)
  have ne: "?ys \<noteq> []" using assms(1) by (metis length_0_conv length_sort)
  show ?thesis
    using mul kn assms(1) ne by (simp add: sample_quantile_def runner_quantile_def idx k_def sub step close Let_def opt_flt_def)
qed

lemma sort_sort: "sort (sort xs) = sort xs"
  by (simp add: sorted_sort_id)

lemma fold_max_Max: "fold max xs m = Max (set (m # xs))"
  by (simp add: Max.set_eq_fold del: set_simps)




section \<open>Every slot is accounted for\<close>

lemma finish_row_status:
  "finish_row phase slot state lifecycle started cmd expired ev valid = Inr r \<Longrightarrow> rw_status r \<in> set status_names"
  by (auto simp: finish_row_def ebind_eq_Inr Let_def row_status_def status_names_def split: prod.splits if_splits)

lemma executed_row_status:
  "executed_row render phase ex sd slot state lifecycle raw = Inr r \<Longrightarrow> rw_status r \<in> set status_names"
  by (auto simp: executed_row_def ebind_eq_Inr dest!: finish_row_status split: sum.splits if_splits)

lemma reduce_slot_status:
  assumes "reduce_slot address_ok render manifest phase ex dir slot = Inr r"
  shows "rw_status r \<in> set status_names"
proof -
  have "rw_status r \<in> {''unsupported'', ''not_started'', ''preparation_failed''} \<or>
      (\<exists>sd state lifecycle raw. executed_row render phase ex sd slot state lifecycle raw = Inr r)"
    using assms by (auto simp: reduce_slot_def ebind_eq_Inr blank_row_def Let_def split: option.splits if_splits)
  then show ?thesis
  proof
    assume "rw_status r \<in> {''unsupported'', ''not_started'', ''preparation_failed''}"
    then show ?thesis by (auto simp: status_names_def)
  next
    assume "\<exists>sd state lifecycle raw. executed_row render phase ex sd slot state lifecycle raw = Inr r"
    then show ?thesis by (elim exE) (rule executed_row_status)
  qed
qed

lemma mark_stopped_status [simp]: "rw_status (snd (mark_stopped stopped sr)) = rw_status (snd sr)" "fst (mark_stopped stopped sr) = fst sr"
  by (simp_all add: mark_stopped_def split: prod.splits option.splits)

lemma count_partition:
  "distinct ks \<Longrightarrow> (\<And>x. x \<in> set xs \<Longrightarrow> f x \<in> set ks) \<Longrightarrow> sum_list (map (\<lambda>k. count_if (\<lambda>x. f x = k) xs) ks) = length xs"
proof (induction xs)
  case (Cons x xs)
  have "sum_list (map (\<lambda>k. count_if (\<lambda>x. f x = k) (x # xs)) ks) = sum_list (map (\<lambda>k. of_bool (f x = k) + count_if (\<lambda>x. f x = k) xs) ks)"
    by (rule arg_cong [where f = sum_list], rule map_cong) (auto simp: count_if_def)
  also have "\<dots> = sum_list (map (\<lambda>k. of_bool (f x = k)) ks) + sum_list (map (\<lambda>k. count_if (\<lambda>x. f x = k) xs) ks)"
    by (simp add: sum_list_addf)
  also have "sum_list (map (\<lambda>k. of_bool (f x = k)) ks) = (1 :: nat)"
    using Cons.prems by (simp add: sum_list_distinct_conv_sum_set of_bool_def sum.delta')
  finally show ?case using Cons by simp
qed (simp add: count_if_def)

lemma reduce_rows_rows:
  assumes "reduce_rows address_ok render inputs manifest dir_of stopped slots = Inr rows"
  shows "map fst rows = slots" "sr \<in> set rows \<Longrightarrow> rw_status (snd sr) \<in> set status_names"
proof -
  let ?f = "\<lambda>s. reduce_slot address_ok render manifest (str_of (fld manifest ''phase''))
       (inputs (workload_of s) (variant_of s)) (dir_of (s_id s)) s"
  obtain rs where rs: "emap ?f slots = Inr rs" "rows = map (mark_stopped stopped) (zip slots rs)"
    using assms by (auto simp: reduce_rows_def ebind_eq_Inr)
  then have all2: "list_all2 (\<lambda>s r. ?f s = Inr r) slots rs" by (simp add: emap_eq_Inr)
  then have len: "length slots = length rs" by (rule list_all2_lengthD)
  show "map fst rows = slots" using len by (simp add: rs(2) comp_def)
  show "rw_status (snd sr) \<in> set status_names" if sr: "sr \<in> set rows"
  proof -
    obtain s r where "(s, r) \<in> set (zip slots rs)" "sr = mark_stopped stopped (s, r)" using sr by (auto simp: rs(2))
    then have "?f s = Inr r" "rw_status (snd sr) = rw_status r" using all2 by (auto simp: list_all2_iff)
    then show ?thesis using reduce_slot_status by metis
  qed
qed

lemma cell_design:
  assumes "(key, arm) \<in> set cell_keys"
  shows "length (filter (\<lambda>r. cell_of (fst r) = key \<and> snd r = arm) design) = 10"
proof -
  let ?P = "\<lambda>r. cell_of (fst r) = key \<and> snd r = arm"
  have arm: "arm \<in> set arm_names" and key: "key \<in> set cells" using assms by (auto simp: cell_keys_def)
  have inner: "filter ?P (map (\<lambda>a. ((w, v, c, b), a)) arm_names) = (if (w, v, c) = key then [((w, v, c, b), arm)] else [])" for w v c b
    using arm by (auto simp: arm_names_def cell_of_def)
  have block: "length (filter ?P (concat (map (\<lambda>b. map (\<lambda>a. ((w, v, c, b), a)) arm_names) cell_ids))) = (if (w, v, c) = key then 10 else 0)"
    for w v c
    unfolding filter_concat map_map comp_def inner using length_cell_ids by (simp add: length_concat comp_def sum_list_triv)
  have each: "length (filter ?P ((\<lambda>(w, v, c). concat (map (\<lambda>b. map (\<lambda>a. ((w, v, c, b), a)) arm_names) cell_ids)) k)) =
      (if k = key then 10 else 0)" for k
    by (cases k) (simp only: prod.case block)
  have "length (filter ?P design) = sum_list (map (\<lambda>k. if k = key then 10 else 0) cells)"
    unfolding design_def filter_concat length_concat map_map comp_def each ..
  also have "\<dots> = (\<Sum>k \<in> set cells. if k = key then 10 else 0)"
    by (rule sum_list_distinct_conv_sum_set) (simp add: cells_def workload_names_def variant_names_def)
  also have "\<dots> = 10" using key by simp
  finally show ?thesis .
qed

lemma chosen_length:
  assumes "map fst rows = e5_order sha" "(key, arm) \<in> set cell_keys"
  shows "length (filter (in_cell key arm) rows) = 10"
proof -
  have eq: "in_cell key arm = (\<lambda>sr. cell_of (fst (run_of (fst sr))) = key \<and> snd (run_of (fst sr)) = arm)"
  proof
    show "in_cell key arm sr = (cell_of (fst (run_of (fst sr))) = key \<and> snd (run_of (fst sr)) = arm)" for sr
      by (cases "s_key (fst sr)") (auto simp: in_cell_def run_of_def cell_of_def workload_of_def variant_of_def cache_of_def)
  qed
  have "length (filter (in_cell key arm) rows) =
      length (filter (\<lambda>r. cell_of (fst r) = key \<and> snd r = arm) (map run_of (map fst rows)))"
    by (simp add: eq filter_map comp_def)
  also have "\<dots> = length (filter (\<lambda>r. cell_of (fst r) = key \<and> snd r = arm) design)"
    unfolding assms(1) by (rule mset_eq_length) (simp only: mset_filter order_runs_mset)
  finally show ?thesis using cell_design [OF assms(2)] by simp
qed


lemma emap_result: "emap f xs = Inr ys \<Longrightarrow> y \<in> set ys \<Longrightarrow> \<exists>x \<in> set xs. f x = Inr y"
  by (induction xs arbitrary: ys) (auto simp: ebind_eq_Inr)

lemma pinsert_length: "pinsert key x ys = Inr zs \<Longrightarrow> length zs = length ys + 1"
  by (induction ys arbitrary: zs) (auto simp: ebind_eq_Inr split: if_splits)

lemma psort_length: "psort key xs = Inr zs \<Longrightarrow> length zs = length xs"
  by (induction xs arbitrary: zs) (auto simp: ebind_eq_Inr dest: pinsert_length)

lemma sample_summary_n: "sample_summary vs = Inr s \<Longrightarrow> ss_n s \<le> length vs"
  using length_filter_le [of "\<lambda>v. v \<noteq> PNone" vs] by (auto simp: sample_summary_def ebind_eq_Inr dest: psort_length)

lemma report_cell_fields:
  assumes "report_cell inputs rows (key, arm) = Inr c"
  defines "chosen \<equiv> filter (in_cell key arm) rows"
  shows "ce_key c = key" "ce_arm c = arm"
    "ce_statuses c = map (\<lambda>s. (s, count_if (\<lambda>r. rw_status r = s) (map snd chosen))) status_names"
    "ce_started c \<le> length chosen" "ce_detections c \<le> length chosen" "ce_confirmed c \<le> length chosen"
    "ss_n (ce_invocation c) \<le> count_if (\<lambda>r. rw_status r = ''complete'') (map snd chosen)"
proof -
  obtain invocation all_started named_stages stage_stats per detected lower upper where p:
      "sample_summary (map row_seconds (filter (\<lambda>r. rw_status r = ''complete'') (map snd chosen))) = Inr invocation"
      "emap (\<lambda>sr. detected_in_budget (fst sr) (snd sr)) chosen = Inr detected"
      "c = \<lparr>ce_key = key, ce_arm = arm, ce_started = count_if rw_started (map snd chosen),
        ce_statuses = map (\<lambda>s. (s, count_if (\<lambda>r. rw_status r = s) (map snd chosen))) status_names,
        ce_invocation = invocation, ce_all_started = all_started, ce_stages = stage_stats, ce_amortized = per,
        ce_detections = count_if id detected, ce_exposed = count_if (\<lambda>r. 0 < ev_valid (rw_evidence r)) (map snd chosen),
        ce_confirmed = count_if (\<lambda>r. ev_stable (rw_evidence r)) (map snd chosen), ce_first_lower = lower, ce_first_upper = upper\<rparr>"
    using assms(1) unfolding report_cell_def Let_def prod.case chosen_def [symmetric]
    by (elim ebindE) (rule that, assumption, assumption, drule sum.inject(2) [THEN iffD1], erule sym)
  have "length detected = length chosen" using p(2) by (auto simp: emap_eq_Inr dest: list_all2_lengthD)
  then have "count_if id detected \<le> length chosen" by (metis count_if_def length_filter_le)
  moreover have "count_if P (map snd chosen) \<le> length chosen" for P by (metis count_if_def length_filter_le length_map)
  ultimately show "ce_key c = key" "ce_arm c = arm"
    "ce_statuses c = map (\<lambda>s. (s, count_if (\<lambda>r. rw_status r = s) (map snd chosen))) status_names"
    "ce_started c \<le> length chosen" "ce_detections c \<le> length chosen" "ce_confirmed c \<le> length chosen"
    "ss_n (ce_invocation c) \<le> count_if (\<lambda>r. rw_status r = ''complete'') (map snd chosen)"
    using sample_summary_n [OF p(1)] by (simp_all add: p(3) count_if_def)
qed



text \<open>A campaign of which nothing was started.\<close>

abbreviation idle_row :: row where "idle_row \<equiv> blank_row ''not_started'' []"

lemma idle_rows: "reduce_rows (\<lambda>_. False) render inputs (PDict []) (\<lambda>_. None) None slots = Inr (map (\<lambda>s. (s, idle_row)) slots)"
proof -
  have "reduce_slot (\<lambda>_. False) render (PDict []) phase ex None slot = Inr idle_row" for phase ex slot
    by (simp add: reduce_slot_def unsupported_declarations_def mget_def fld_def)
  then show ?thesis by (simp add: reduce_rows_def mark_stopped_def zip_map2 zip_same_conv_map)
qed

lemma idle_cell: "\<exists>c. report_cell inputs (map (\<lambda>s. (s, idle_row)) slots) k = Inr c"
proof -
  let ?rows = "map (\<lambda>s. (s, idle_row)) slots" and ?key = "fst k" and ?arm = "snd k"
  obtain ss where chosen: "filter (in_cell ?key ?arm) ?rows = map (\<lambda>s. (s, idle_row)) ss"
    by (simp add: filter_map)
  have none: "sample_summary [] = Inr \<lparr>ss_n = 0, ss_median = PNone, ss_p90 = PNone, ss_min = PNone, ss_max = PNone\<rparr>"
    by (simp add: sample_summary_def sample_quantile_def)
  have detected: "emap (\<lambda>sr. detected_in_budget (fst sr) (snd sr)) (map (\<lambda>s. (s, idle_row)) ss) = Inr (map (\<lambda>_. False) ss)"
    by (induction ss) (simp_all add: detected_in_budget_def membership_def blank_row_def no_evidence_def)
  have blank: "rw_status idle_row = ''not_started''" "\<not> rw_started idle_row" "ev_first (rw_evidence idle_row) = None"
    by (simp_all add: blank_row_def no_evidence_def)
  have empty: "filter (\<lambda>r. rw_status r = ''complete'') (map snd (map (\<lambda>s. (s, idle_row)) ss)) = []"
      "filter rw_started (map snd (map (\<lambda>s. (s, idle_row)) ss)) = []"
      "concat (map (\<lambda>r. case ev_first (rw_evidence r) of None \<Rightarrow> [] | Some i \<Rightarrow> [i]) (map snd (map (\<lambda>s. (s, idle_row)) ss))) = []"
    using blank by (induction ss) simp_all
  have am: "\<exists>x. amortized inputs ?key ?arm [] = Inr x" by (simp add: amortized_def none)
  have "\<exists>c. report_cell inputs ?rows (?key, ?arm) = Inr c"
    using am unfolding report_cell_def prod.case Let_def chosen empty detected by (auto simp: none stage_values_def)
  then show ?thesis by simp
qed


end
