(* ===== verification/Analysis.thy ===== *)
theory Analysis
  imports Evidence Report
begin

text \<open>
  \<open>experiments/gate-performance/harness/analysis.py\<close>: accounting, pairing, paired estimates with their
  bootstrap intervals, and the decision.  (Its \<open>quantile\<close> on finite floats is in theory \<open>Quantile\<close>;
  \<open>pair_quantile\<close> is the same function on the mixed ints and floats of a metric.)

  \<open>math.log\<close>, \<open>math.exp\<close> and \<open>math.fsum\<close> are arguments of the model: the last two can raise
  OverflowError.  Values reach the arithmetic only through \<open>counter\<close>, so they are finite and nonnegative.
\<close>

record math_env =
  ma_log :: "pv \<Rightarrow> flt"
  ma_exp :: "flt \<Rightarrow> flt res"
  ma_fsum :: "pv list \<Rightarrow> flt res"

section \<open>Means, ratios and quantiles\<close>

definition rat_of_pv :: "pv \<Rightarrow> rat" where
  "rat_of_pv v = (case numval v of Some (Fin q) \<Rightarrow> q | _ \<Rightarrow> 0)"

text \<open>The exact mean, rounded once, serves only when the float sum overflows.\<close>

definition exact_mean :: "pv list \<Rightarrow> flt res" where
  "exact_mean vs = (case to_flt (sum_list (map rat_of_pv vs) / of_nat (length vs)) of
     Fin x \<Rightarrow> Inr (Fin x) | _ \<Rightarrow> Inl (OverflowError ''integer division result too large for a float''))"

definition mean :: "math_env \<Rightarrow> pv list \<Rightarrow> flt res" where
  "mean ma vs = (case ma_fsum ma vs of
     Inr s \<Rightarrow> ebind (py_div (PFloat s) (PInt (int (length vs)))) to_float
   | Inl (OverflowError _) \<Rightarrow> exact_mean vs
   | Inl e \<Rightarrow> Inl e)"

definition ratio_from_logs :: "math_env \<Rightarrow> pv list \<Rightarrow> flt option res" where
  "ratio_from_logs ma logs = (case ebind (mean ma logs) (ma_exp ma) of
     Inr r \<Rightarrow> Inr (if flt_less (Fin 0) r then Some r else None)
   | Inl (OverflowError _) \<Rightarrow> Inr None
   | Inl e \<Rightarrow> Inl e)"

definition pair_quantile :: "pv list \<Rightarrow> rat \<Rightarrow> pv res" where
  "pair_quantile values p = ebind (psort (\<lambda>v. v) values) (\<lambda>vs.
     if vs = [] then Inl (IndexError ''list index out of range'')
     else ebind (py_mul (PInt (int (length vs - 1))) (PFloat (Fin p))) (\<lambda>index.
       let x = rat_of_pv index; low = nat \<lfloor>x\<rfloor>; high = nat \<lceil>x\<rceil> in
       ebind (py_sub index (PInt (int low))) (\<lambda>weight.
       ebind (py_sub (vs ! high) (vs ! low)) (\<lambda>delta. ebind (isfinite delta) (\<lambda>finite.
       if \<not> finite then ebind (py_sub (PInt 1) weight) (\<lambda>u. ebind (py_mul (vs ! low) u) (\<lambda>a. ebind (py_mul (vs ! high) weight) (py_add a)))
       else ebind (py_mul delta weight) (py_add (vs ! low)))))))"

section \<open>Paired estimates\<close>

text \<open>A pair: its date slot, block, baseline value and candidate value.\<close>

type_synonym pair4 = "string \<times> string \<times> pv \<times> pv"

record interval =
  in_ratio :: "(pv \<times> pv) option"
  in_difference :: "pv \<times> pv"
  in_improvement :: "(flt \<times> flt) option"

record paired_estimate =
  es_n :: nat
  es_ratio :: "flt option"
  es_difference :: "flt option"
  es_interval :: "interval option"
  es_arms :: "((pv \<times> pv \<times> pv) \<times> (pv \<times> pv \<times> pv)) option"
  es_improvement :: "flt option"
  es_by_date :: "(string \<times> nat \<times> flt option \<times> flt option) list"
  es_notes :: "(string \<times> string) list"

definition no_pairs :: paired_estimate where
  "no_pairs = \<lparr>es_n = 0, es_ratio = None, es_difference = None, es_interval = None, es_arms = None, es_improvement = None,
     es_by_date = [], es_notes = []\<rparr>"

definition both_positive :: "pair4 \<Rightarrow> bool res" where
  "both_positive = (\<lambda>(d, k, b, w). eand (py_less (PInt 0) b) (py_less (PInt 0) w))"

definition log_gain :: "math_env \<Rightarrow> pair4 \<Rightarrow> pv" where
  "log_gain ma = (\<lambda>(d, k, b, w). PFloat (flt_sub (ma_log ma w) (ma_log ma b)))"

definition gain :: "pair4 \<Rightarrow> pv res" where
  "gain = (\<lambda>(d, k, b, w). py_sub w b)"

definition summary3 :: "pv list \<Rightarrow> (pv \<times> pv \<times> pv) res" where
  "summary3 vs = ebind (pair_quantile vs (1 / 2)) (\<lambda>m. ebind (pair_quantile vs (1 / 4)) (\<lambda>a.
     ebind (pair_quantile vs (3 / 4)) (\<lambda>z. Inr (m, a, z))))"

definition on_date :: "string \<Rightarrow> pair4 list \<Rightarrow> pair4 list" where
  "on_date date ps = filter (\<lambda>p. fst p = date) ps"

definition date_summary :: "math_env \<Rightarrow> pair4 list \<Rightarrow> string \<Rightarrow> (string \<times> nat \<times> flt option \<times> flt option) res" where
  "date_summary ma pairs date = (let ps = on_date date pairs in
     ebind (if ps = [] then Inr False else eall both_positive ps) (\<lambda>defined.
     ebind (if defined then ratio_from_logs ma (map (log_gain ma) ps) else Inr None) (\<lambda>ratio.
     ebind (if ps = [] then Inr None else ebind (emap gain ps) (\<lambda>gs. ebind (mean ma gs) (\<lambda>x. Inr (Some x)))) (\<lambda>difference.
     Inr (date, length ps, ratio, difference)))))"

text \<open>The bootstrap: every draw is a digest of the frozen seed, so a rerun gives the same interval.\<close>

definition hex_value :: "string \<Rightarrow> nat" where
  "hex_value s = foldl (\<lambda>n c. 16 * n + (if is_digit c then char_code c - 48 else char_code c - 87)) 0 s"

definition draw_key :: "pv \<Rightarrow> string \<Rightarrow> string \<Rightarrow> string \<Rightarrow> nat \<Rightarrow> nat \<Rightarrow> string res" where
  "draw_key m w metric date replicate_no draw = item m ''seed'' (\<lambda>s. item m ''experiment'' (\<lambda>e. item m ''phase'' (\<lambda>p.
     Inr (join ''|'' [str_of s, str_of e, str_of p, w, metric, date, pad_nat 5 replicate_no, pad_nat 5 draw, ''bootstrap'']))))"

definition bootstrap_sample :: "(string \<Rightarrow> string) \<Rightarrow> pv \<Rightarrow> string \<Rightarrow> string \<Rightarrow> (string \<times> pair4 list) list \<Rightarrow> nat \<Rightarrow> pair4 list res" where
  "bootstrap_sample sha m w metric by_date replicate_no =
     ebind (emap (\<lambda>(date, ps). emap (\<lambda>draw. ebind (draw_key m w metric date replicate_no draw) (\<lambda>key.
       Inr (ps ! (hex_value (sha key) * length ps div 2 ^ 256)))) [0..<length ps]) (sort_key fst by_date)) (\<lambda>xss. Inr (concat xss))"

definition replicates :: nat where "replicates = 10000"

definition bootstrap_interval :: "(string \<Rightarrow> string) \<Rightarrow> math_env \<Rightarrow> pv \<Rightarrow> string \<Rightarrow> string \<Rightarrow> bool \<Rightarrow> (string \<times> pair4 list) list \<Rightarrow>
    (interval \<times> (string \<times> string) list) res" where
  "bootstrap_interval sha ma m w metric ratio_defined by_date =
     ebind (emap (bootstrap_sample sha m w metric by_date) [0..<replicates]) (\<lambda>samples.
     ebind (if ratio_defined then emap (\<lambda>s. ratio_from_logs ma (map (log_gain ma) s)) samples else Inr []) (\<lambda>found.
     ebind (emap (\<lambda>s. ebind (emap gain s) (mean ma)) samples) (\<lambda>diffs.
     let ratios = map PFloat (List.map_filter id found); ds = map PFloat diffs in
     ebind (if length ratios = replicates then ebind (pair_quantile ratios (rnd (25 / 1000))) (\<lambda>lo.
         ebind (pair_quantile ratios (rnd (975 / 1000))) (\<lambda>hi. Inr (Some (lo, hi)))) else Inr None) (\<lambda>ratio.
     ebind (pair_quantile ds (rnd (25 / 1000))) (\<lambda>dlo. ebind (pair_quantile ds (rnd (975 / 1000))) (\<lambda>dhi.
     ebind (case ratio of None \<Rightarrow> Inr None | Some (lo, hi) \<Rightarrow>
         ebind (to_float lo) (\<lambda>l. ebind (to_float hi) (\<lambda>h. Inr (Some (flt_sub (Fin 1) h, flt_sub (Fin 1) l))))) (\<lambda>better.
     Inr (\<lparr>in_ratio = ratio, in_difference = (dlo, dhi), in_improvement = better\<rparr>,
          if ratio_defined \<and> length ratios \<noteq> replicates then [(''ratio_interval_reason'', ''unrepresentable_bootstrap_ratio'')] else []))))))))"

definition estimate :: "(string \<Rightarrow> string) \<Rightarrow> math_env \<Rightarrow> pv \<Rightarrow> string \<Rightarrow> string \<Rightarrow> pair4 list \<Rightarrow> string list \<Rightarrow> paired_estimate res" where
  "estimate sha ma m w metric unsorted dates =
     (let pairs = sort_key (\<lambda>(d, k, b, c). (d, k)) unsorted in
      if pairs = [] then Inr no_pairs
      else ebind (eall both_positive pairs) (\<lambda>ratio_defined.
      ebind (if ratio_defined then ratio_from_logs ma (map (log_gain ma) pairs) else Inr None) (\<lambda>ratio.
      ebind (emap gain pairs) (\<lambda>gs. ebind (mean ma gs) (\<lambda>difference.
      ebind (summary3 (map (\<lambda>(d, k, b, c). b) pairs)) (\<lambda>base. ebind (summary3 (map (\<lambda>(d, k, b, c). c) pairs)) (\<lambda>cand.
      ebind (emap (date_summary ma pairs) dates) (\<lambda>by_date.
      let notes = (if ratio_defined \<and> ratio = None then [(''ratio_reason'', ''unrepresentable_ratio'')] else []);
          res = \<lparr>es_n = length pairs, es_ratio = ratio, es_difference = Some difference, es_interval = None, es_arms = Some (base, cand),
            es_improvement = map_option (flt_sub (Fin 1)) ratio, es_by_date = by_date, es_notes = notes\<rparr> in
      if list_ex (\<lambda>d. length (on_date d pairs) < 2) dates then
        Inr (res\<lparr>es_notes := notes @ [(''interval_reason'', ''fewer_than_two_valid_blocks_in_planned_date'')]\<rparr>)
      else ebind (bootstrap_interval sha ma m w metric ratio_defined (map (\<lambda>d. (d, on_date d pairs)) dates)) (\<lambda>(iv, more).
        Inr (res\<lparr>es_interval := Some iv, es_notes := notes @ more\<rparr>))))))))))"

section \<open>Rows, pairs and accounting\<close>

type_synonym arm_row = "slot \<times> string \<times> trial_row"

definition collect_rows :: "trial_env \<Rightarrow> bundle_tree \<Rightarrow> pv \<Rightarrow> slot list \<Rightarrow> arm_row list res" where
  "collect_rows te b m slots = emap (\<lambda>(slot, arm). ebind (trial te b m slot arm) (\<lambda>r. Inr (slot, arm, r)))
     (concat (map (\<lambda>slot. map (\<lambda>arm. (slot, arm)) (slot_arms slot)) slots))"

text \<open>Keys in order of first appearance, as a dict keeps them.\<close>

definition firsts :: "'a list \<Rightarrow> 'a list" where
  "firsts xs = rev (remdups (rev xs))"

text \<open>\<open>blocks[block][arm]\<close>: the last row stored under the two keys.\<close>

definition block_arm :: "arm_row list \<Rightarrow> string \<Rightarrow> string \<Rightarrow> arm_row res" where
  "block_arm rows block arm = (case find (\<lambda>(s, a, r). slot_block s = block \<and> a = arm) (rev rows) of
     Some row \<Rightarrow> Inr row | None \<Rightarrow> Inl (KeyError arm))"

definition row_facts :: "arm_row \<Rightarrow> pv" where
  "row_facts = (\<lambda>(s, a, r). t_facts r)"

definition missing_reason :: "arm_row \<Rightarrow> pv list" where
  "missing_reason = (\<lambda>(s, a, r). if t_class r = ''complete'' then [] else [if truthy (t_reason r) then t_reason r else PStr (t_class r)])"

text \<open>E2: the second arm's workflow must be created within 300 seconds of the first one's end.\<close>

definition pairing_window :: "iso_reader \<Rightarrow> arm_row list \<Rightarrow> string \<Rightarrow> string list \<Rightarrow> pv list res" where
  "pairing_window fromiso rows block arms =
     (case arms of
        [x, y] \<Rightarrow> ebind (block_arm rows block x) (\<lambda>first. ebind (block_arm rows block y) (\<lambda>second.
          (case ebind (item (row_facts second) ''ci_created_at'' (timestamp fromiso)) (\<lambda>created.
               ebind (item (row_facts first) ''ci_completed_at'' (timestamp fromiso)) (\<lambda>completed. Inr (created - completed))) of
             Inr lag \<Rightarrow> Inr (if 0 \<le> lag \<and> lag \<le> 300 * 1000000 then [] else [PStr ''pairing_window_missed''])
           | Inl (KeyError _) \<Rightarrow> Inr [PStr ''pairing_window_missing'']
           | Inl (ValueError _) \<Rightarrow> Inr [PStr ''pairing_window_missing'']
           | Inl e \<Rightarrow> Inl e)))
      | _ \<Rightarrow> Inl (ValueError ''unpack''))"

definition block_reasons :: "iso_reader \<Rightarrow> pv \<Rightarrow> arm_row list \<Rightarrow> string \<Rightarrow> pv list res" where
  "block_reasons fromiso m rows block =
     ebind (block_arm rows block ''baseline'') (\<lambda>b. ebind (block_arm rows block ''candidate'') (\<lambda>w.
     let missing = missing_reason b @ missing_reason w in
     if missing \<noteq> [] then Inr missing
     else item m ''compare_facts'' (\<lambda>cf. ebind (py_iter cf) (\<lambda>keys.
       ebind (eany (\<lambda>k. item (row_facts b) (str_of k) (\<lambda>x. item (row_facts w) (str_of k) (\<lambda>y. Inr (\<not> json_equal x y)))) keys) (\<lambda>differ.
       if differ then Inr [PStr ''paired_facts_mismatch'']
       else item m ''experiment'' (\<lambda>e. if e = PStr ''E2'' then pairing_window fromiso rows block (slot_arms (fst b)) else Inr []))))))"

definition block_names :: "arm_row list \<Rightarrow> string list" where
  "block_names rows = firsts (map (\<lambda>(s, a, r). slot_block s) rows)"

definition pair_reasons :: "iso_reader \<Rightarrow> pv \<Rightarrow> arm_row list \<Rightarrow> (string \<times> pv list) list res" where
  "pair_reasons fromiso m rows =
     emap (\<lambda>block. ebind (block_reasons fromiso m rows block) (\<lambda>rs. Inr (block, rs))) (block_names rows)"

text \<open>\<open>Counter\<close>\<close>

definition tally :: "'a list \<Rightarrow> ('a \<times> nat) list" where
  "tally xs = map (\<lambda>x. (x, count_list xs x)) (firsts xs)"

record account =
  ac_classes :: "(string \<times> nat) list"
  ac_planned :: nat
  ac_started :: nat
  ac_reasons :: "(pv \<times> nat) list"

definition arm_account :: "arm_row list \<Rightarrow> string \<Rightarrow> string \<Rightarrow> account res" where
  "arm_account rows workload arm =
     (let rs = map (\<lambda>(s, a, r). r) (filter (\<lambda>(s, a, r). slot_workload s = workload \<and> a = arm) rows) in
      ebind (emap hkey (filter truthy (map t_reason rs))) (\<lambda>reasons.
      Inr \<lparr>ac_classes = tally (map t_class rs), ac_planned = length rs, ac_started = length (filter t_started rs),
           ac_reasons = tally reasons\<rparr>))"

definition accounting :: "pv \<Rightarrow> arm_row list \<Rightarrow> (string \<times> (string \<times> account) list) list res" where
  "accounting m rows = item m ''strata'' (\<lambda>strata. ebind (py_items strata) (\<lambda>d.
     emap (\<lambda>(workload, counts). ebind (emap (\<lambda>arm. ebind (arm_account rows workload arm) (\<lambda>a. Inr (arm, a))) [''baseline'', ''candidate''])
       (\<lambda>accounts. Inr (workload, accounts))) (sort_key fst d)))"

text \<open>The metrics estimated for a campaign, sorted and without repetition.\<close>

definition metric_names :: "pv \<Rightarrow> string list res" where
  "metric_names m = item m ''resource_metrics'' (\<lambda>rm. ebind (py_iter rm) (\<lambda>rs.
     ebind (pget m ''analysis_metrics'' (PList [])) (\<lambda>am. ebind (py_iter am) (\<lambda>as.
     item m ''experiment'' (\<lambda>e. item m ''phase'' (\<lambda>phase.
     Inr (sort (remdups (map str_of rs @ map str_of as @
       (if published e then [if e = PStr ''E1'' then ''gate_seconds'' else ''validation_seconds''] else []) @
       (if e = PStr ''E2'' then [''queue_inclusive_seconds'', ''initial_queue_seconds''] else []) @
       (if e = PStr ''E1'' \<and> phase = PStr ''adoption-cold'' then [''adoption_seconds''] else []))))))))))"

definition metric_value :: "arm_row \<Rightarrow> string \<Rightarrow> pv" where
  "metric_value = (\<lambda>(s, a, r) name. case map_of (t_metrics r) name of Some v \<Rightarrow> v | None \<Rightarrow> PNone)"

definition metric_pairs :: "(arm_row \<times> arm_row) list \<Rightarrow> string \<Rightarrow> pair4 list" where
  "metric_pairs valid metric = map (\<lambda>(b, w). (slot_date_slot (fst b), slot_block_id (fst b), metric_value b metric, metric_value w metric))
     (filter (\<lambda>(b, w). counter (metric_value b metric) \<and> counter (metric_value w metric)) valid)"

definition valid_pairs :: "arm_row list \<Rightarrow> (string \<times> pv list) list \<Rightarrow> string \<Rightarrow> (arm_row \<times> arm_row) list res" where
  "valid_pairs rows reasons workload =
     ebind (emap (\<lambda>(block, rs). ebind (block_arm rows block ''baseline'') (\<lambda>b.
       if slot_workload (fst b) = workload \<and> rs = [] then ebind (block_arm rows block ''candidate'') (\<lambda>w. Inr [(b, w)])
       else Inr [])) reasons) (\<lambda>xss. Inr (concat xss))"

type_synonym results = "(string \<times> (string \<times> paired_estimate) list) list"

definition estimates :: "(string \<Rightarrow> string) \<Rightarrow> math_env \<Rightarrow> pv \<Rightarrow> arm_row list \<Rightarrow> (string \<times> pv list) list \<Rightarrow> results res" where
  "estimates sha ma m rows reasons = item m ''strata'' (\<lambda>strata. ebind (py_items strata) (\<lambda>d. ebind (metric_names m) (\<lambda>metrics.
     item m ''experiment'' (\<lambda>e.
     emap (\<lambda>(workload, counts). ebind (valid_pairs rows reasons workload) (\<lambda>valid.
       if \<not> published e then Inr (workload, [])
       else ebind (emap (\<lambda>metric. ebind (estimate sha ma m workload metric (metric_pairs valid metric)
              (map (pad_nat 2) [1..<Suc (length (elems_of counts))])) (\<lambda>x. Inr (metric, x))) metrics) (\<lambda>xs. Inr (workload, xs))))
       (sort_key fst d)))))"

section \<open>The decision\<close>

record decision =
  de_status :: string
  de_reasons :: "string list"
  de_costs :: "string list"
  de_undefined :: "string list"
  de_threshold :: "rat option"

definition lookup :: "(string \<times> 'a) list \<Rightarrow> string \<Rightarrow> 'a res" where
  "lookup d k = (case map_of d k of Some x \<Rightarrow> Inr x | None \<Rightarrow> Inl (KeyError k))"

definition primary_of :: "pv \<Rightarrow> string \<times> string \<times> rat" where
  "primary_of e = (if e = PStr ''E1'' then (''example-fixed-replay'', ''gate_seconds'', rnd (85 / 100))
     else (''external-acceptance'', ''validation_seconds'', rnd (80 / 100)))"

definition cost_class :: "paired_estimate \<Rightarrow> string option" where
  "cost_class x = (case es_ratio x of None \<Rightarrow> Some ''undefined'' | Some r \<Rightarrow> if flt_less (Fin (rnd (11 / 10))) r then Some ''higher'' else None)"

text \<open>\<open>endpoint['ratio'] > threshold\<close> or a missing or open interval refutes the improvement.\<close>

definition not_demonstrated :: "rat \<Rightarrow> paired_estimate \<Rightarrow> bool res" where
  "not_demonstrated threshold x = (case es_ratio x of
     None \<Rightarrow> Inr True
   | Some r \<Rightarrow> (case es_interval x of
       None \<Rightarrow> Inr True
     | Some iv \<Rightarrow> (case in_ratio iv of
         None \<Rightarrow> Inr True
       | Some (lo, hi) \<Rightarrow> if flt_less (Fin threshold) r then Inr True else py_le (PInt 1) hi)))"

definition named_when :: "bool \<Rightarrow> string \<Rightarrow> string list" where
  "named_when c name = (if c then [name] else [])"

text \<open>The reasons against a positive claim, in the order they are appended.\<close>

definition refutations :: "(string \<times> pv list) list \<Rightarrow> pv \<Rightarrow> pv list \<Rightarrow> paired_estimate list \<Rightarrow> bool \<Rightarrow> string list" where
  "refutations reasons deviations ns resources unproven =
     named_when (list_ex (\<lambda>(b, r). r \<noteq> []) reasons) ''incomplete_or_invalid_planned_pairs'' @
     named_when (truthy deviations) ''registered_deviation_requires_descriptive_reporting'' @
     named_when (list_ex (\<lambda>x. int (es_n x) \<noteq> sum_list (map int_of_pv ns)) resources) ''resource_measurements_incomplete'' @
     named_when unproven ''practical_improvement_not_demonstrated''"

definition verdict :: "rat \<Rightarrow> string list \<Rightarrow> (string \<times> string option) list \<Rightarrow> decision" where
  "verdict threshold rs costs = \<lparr>de_status = (if rs \<noteq> [] then ''no_positive_claim'' else ''improvement_demonstrated''), de_reasons = rs,
     de_costs = map fst (filter (\<lambda>(n, c). c = Some ''higher'') costs),
     de_undefined = map fst (filter (\<lambda>(n, c). c = Some ''undefined'') costs), de_threshold = Some threshold\<rparr>"

definition confirm :: "pv \<Rightarrow> pv \<Rightarrow> (string \<times> pv list) list \<Rightarrow> results \<Rightarrow> decision res" where
  "confirm m e reasons results =
     (case primary_of e of (primary, metric, threshold) \<Rightarrow>
      ebind (lookup results primary) (\<lambda>mine. ebind (lookup mine metric) (\<lambda>endpoint.
      ebind (pgetn m ''deviations'') (\<lambda>deviations.
      item m ''strata'' (\<lambda>strata. item strata primary (\<lambda>counts. ebind (py_iter counts) (\<lambda>ns.
      ebind (emap (lookup mine) (if e = PStr ''E1'' then E1_RESOURCES else E2_RESOURCES)) (\<lambda>resources.
      ebind (emap (\<lambda>name. ebind (lookup mine name) (\<lambda>x. Inr (name, cost_class x))) (if e = PStr ''E1'' then E1_RESOURCES else [''runner_minutes''])) (\<lambda>costs.
      ebind (not_demonstrated threshold endpoint) (\<lambda>unproven.
      Inr (verdict threshold (refutations reasons deviations ns resources unproven) costs)))))))))))"

definition decide :: "pv \<Rightarrow> (string \<times> pv list) list \<Rightarrow> results \<Rightarrow> decision res" where
  "decide m reasons results = item m ''experiment'' (\<lambda>e. item m ''phase'' (\<lambda>phase.
     if \<not> published e then Inr \<lparr>de_status = ''accounting_only'', de_reasons = [''protocol_analysis_not_implemented''], de_costs = [],
       de_undefined = [], de_threshold = None\<rparr>
     else if phase = PStr ''confirmation'' then confirm m e reasons results
     else Inr \<lparr>de_status = ''descriptive'', de_reasons = [], de_costs = [], de_undefined = [], de_threshold = None\<rparr>))"

record analysis =
  an_rows :: "arm_row list"
  an_reasons :: "(string \<times> pv list) list"
  an_accounting :: "(string \<times> (string \<times> account) list) list"
  an_results :: results
  an_decision :: decision

text \<open>\<open>analyze_locked\<close> between the checks of the bundle and the writing of the report.\<close>

definition analyze :: "trial_env \<Rightarrow> math_env \<Rightarrow> bundle_tree \<Rightarrow> pv \<Rightarrow> slot list \<Rightarrow> analysis res" where
  "analyze te ma b m slots =
     ebind (collect_rows te b m slots) (\<lambda>rows. ebind (pair_reasons (te_fromiso te) m rows) (\<lambda>reasons.
     ebind (accounting m rows) (\<lambda>acc. ebind (estimates (te_sha te) ma m rows reasons) (\<lambda>results.
     ebind (decide m reasons results) (\<lambda>d.
     Inr \<lparr>an_rows = rows, an_reasons = reasons, an_accounting = acc, an_results = results, an_decision = d\<rparr>)))))"

section \<open>What a demonstrated improvement rests on\<close>

lemma find_unique:
  assumes "x \<in> set xs" "P x" "\<And>y. y \<in> set xs \<Longrightarrow> P y \<Longrightarrow> y = x"
  shows "find P xs = Some x"
proof (cases "find P xs")
  case None
  then show ?thesis using assms(1,2) by (auto simp: find_None_iff)
next
  case (Some y)
  then have "y \<in> set xs" "P y" by (auto simp: find_Some_iff)
  then show ?thesis using Some assms(3) by blast
qed

definition row_key :: "arm_row \<Rightarrow> string \<times> string" where
  "row_key = (\<lambda>(s, a, r). (slot_block s, a))"

lemma block_arm_row:
  assumes "distinct (map row_key rows)" "(s, a, r) \<in> set rows"
  shows "block_arm rows (slot_block s) a = Inr (s, a, r)"
proof -
  have "find (\<lambda>(s', a', r). slot_block s' = slot_block s \<and> a' = a) (rev rows) = Some (s, a, r)"
  proof (rule find_unique)
    fix y assume "y \<in> set (rev rows)" "case y of (s', a', r) \<Rightarrow> slot_block s' = slot_block s \<and> a' = a"
    then have "y \<in> set rows" "row_key y = row_key (s, a, r)" by (auto simp: row_key_def)
    then show "y = (s, a, r)" using assms by (meson distinct_map inj_onD)
  qed (use assms in auto)
  then show ?thesis by (simp add: block_arm_def)
qed

lemma block_reasons_none:
  assumes "block_reasons fromiso m rows block = Inr []"
  shows "\<exists>b w. block_arm rows block ''baseline'' = Inr b \<and> block_arm rows block ''candidate'' = Inr w \<and>
    missing_reason b = [] \<and> missing_reason w = []"
proof -
  from assms obtain b w where bw: "block_arm rows block ''baseline'' = Inr b" "block_arm rows block ''candidate'' = Inr w"
    unfolding block_reasons_def by (auto simp: ebind_eq_Inr)
  then have "missing_reason b @ missing_reason w = []"
    using assms unfolding block_reasons_def Let_def by (auto split: if_splits)
  then show ?thesis using bw by auto
qed

lemma set_firsts [simp]: "set (firsts xs) = set xs"
  by (simp add: firsts_def)

lemma pair_reasons_complete:
  assumes "pair_reasons fromiso m rows = Inr reasons" "list_all (\<lambda>(b, r). r = []) reasons"
    and "distinct (map row_key rows)" "(s, a, r) \<in> set rows" "a \<in> {''baseline'', ''candidate''}"
  shows "t_class r = ''complete''"
proof -
  have "slot_block s \<in> set (block_names rows)" using assms(4) by (force simp: block_names_def)
  then obtain i where i: "i < length (block_names rows)" "block_names rows ! i = slot_block s" by (auto simp: in_set_conv_nth)
  have l: "list_all2 (\<lambda>x y. ebind (block_reasons fromiso m rows x) (\<lambda>rs. Inr (x, rs)) = Inr y) (block_names rows) reasons"
    using assms(1) unfolding pair_reasons_def emap_eq_Inr .
  from list_all2_nthD [OF l i(1)] obtain rs where rs: "block_reasons fromiso m rows (slot_block s) = Inr rs" "reasons ! i = (slot_block s, rs)"
    unfolding i(2) by (auto simp: ebind_eq_Inr)
  have "i < length reasons" using i(1) list_all2_lengthD [OF l] by simp
  then have "rs = []" using assms(2) rs(2) by (auto simp: list_all_length)
  then obtain b w where bw: "block_arm rows (slot_block s) ''baseline'' = Inr b" "block_arm rows (slot_block s) ''candidate'' = Inr w"
    "missing_reason b = []" "missing_reason w = []" using block_reasons_none rs(1) by blast
  have "missing_reason (s, a, r) = []"
    using bw block_arm_row [OF assms(3,4)] assms(5) by auto
  then show ?thesis by (simp add: missing_reason_def split: if_splits)
qed

lemma named_when_Nil [simp]: "named_when c n = [] \<longleftrightarrow> \<not> c"
  by (simp add: named_when_def)

lemma not_demonstrated_False:
  "not_demonstrated threshold x = Inr False \<Longrightarrow> \<exists>r iv lo hi. es_ratio x = Some r \<and> es_interval x = Some iv \<and> in_ratio iv = Some (lo, hi) \<and>
     \<not> flt_less (Fin threshold) r \<and> py_le (PInt 1) hi = Inr False"
  by (auto simp: not_demonstrated_def split: option.splits if_splits)

definition demonstrated :: "pv \<Rightarrow> results \<Rightarrow> bool" where
  "demonstrated e results = (case primary_of e of (primary, metric, threshold) \<Rightarrow>
     \<exists>mine x r iv lo hi. lookup results primary = Inr mine \<and> lookup mine metric = Inr x \<and> es_ratio x = Some r \<and> es_interval x = Some iv \<and>
       in_ratio iv = Some (lo, hi) \<and> \<not> flt_less (Fin threshold) r \<and> py_le (PInt 1) hi = Inr False)"

definition resources_complete :: "pv \<Rightarrow> pv \<Rightarrow> results \<Rightarrow> bool" where
  "resources_complete m e results = (\<forall>mine ns. lookup results (fst (primary_of e)) = Inr mine \<and>
     item m ''strata'' (\<lambda>s. item s (fst (primary_of e)) py_iter) = Inr ns \<longrightarrow>
     (\<forall>name \<in> set (if e = PStr ''E1'' then E1_RESOURCES else E2_RESOURCES). \<exists>x. lookup mine name = Inr x \<and> int (es_n x) = sum_list (map int_of_pv ns)))"

lemma emap_member: "emap f ns = Inr xs \<Longrightarrow> \<forall>x \<in> set xs. P x \<Longrightarrow> n \<in> set ns \<Longrightarrow> \<exists>x. f n = Inr x \<and> P x"
proof (induction ns arbitrary: xs)
  case (Cons k ns)
  from Cons.prems(1) obtain y ys where "f k = Inr y" "emap f ns = Inr ys" "xs = y # ys" by (auto simp: ebind_eq_Inr)
  then show ?case using Cons by (cases "n = k") auto
qed simp

lemma confirm_demonstrated:
  assumes "confirm m e reasons results = Inr d" "de_status d = ''improvement_demonstrated''"
  shows "list_all (\<lambda>(b, r). r = []) reasons \<and> (\<exists>dev. pgetn m ''deviations'' = Inr dev \<and> \<not> truthy dev) \<and>
    resources_complete m e results \<and> demonstrated e results"
proof -
  obtain primary metric threshold where p: "primary_of e = (primary, metric, threshold)" by (metis prod_cases3)
  from assms(1) obtain mine x dev strata counts ns resources costs unproven where h:
    "lookup results primary = Inr mine" "lookup mine metric = Inr x" "pgetn m ''deviations'' = Inr dev" "getitem m ''strata'' = Inr strata"
    "getitem strata primary = Inr counts" "py_iter counts = Inr ns"
    "emap (lookup mine) (if e = PStr ''E1'' then E1_RESOURCES else E2_RESOURCES) = Inr resources"
    "not_demonstrated threshold x = Inr unproven"
    "Inr (verdict threshold (refutations reasons dev ns resources unproven) costs) = (Inr d :: decision res)"
    unfolding confirm_def p prod.case by (elim ebindE) (rule that; assumption)
  have "refutations reasons dev ns resources unproven = []"
    using assms(2) h(9) by (auto simp: verdict_def split: if_splits)
  then have none: "\<not> list_ex (\<lambda>(b, r). r \<noteq> []) reasons" "\<not> truthy dev" "\<not> unproven"
    "\<not> list_ex (\<lambda>x. int (es_n x) \<noteq> sum_list (map int_of_pv ns)) resources"
    by (simp_all add: refutations_def)
  have "\<forall>x \<in> set resources. int (es_n x) = sum_list (map int_of_pv ns)" using none(4) by (auto simp: list_ex_iff)
  with h(7) have each: "\<exists>x. lookup mine name = Inr x \<and> int (es_n x) = sum_list (map int_of_pv ns)"
    if "name \<in> set (if e = PStr ''E1'' then E1_RESOURCES else E2_RESOURCES)" for name
    using that by (rule emap_member)
  have "resources_complete m e results"
    unfolding resources_complete_def p fst_conv using each h(1,4,5,6) by auto
  moreover have "demonstrated e results"
    using not_demonstrated_False [of threshold x] h(1,2,8) none(3) by (auto simp: demonstrated_def p)
  ultimately show ?thesis using none(1,2) h(3) by (auto simp: list_all_iff list_ex_iff)
qed

text \<open>
  C8. An improvement is claimed only on complete evidence: every arm of every planned pair is a
  complete row, no deviation is registered, every resource of the primary workload was measured in
  each planned pair, and the primary ratio is within the threshold with its upper bound below 1.
\<close>

theorem improvement_needs_complete_evidence:
  assumes "pair_reasons fromiso m rows = Inr reasons" "decide m reasons results = Inr d"
    and "de_status d = ''improvement_demonstrated''"
    and "distinct (map row_key rows)" "\<forall>(s, a, r) \<in> set rows. a \<in> {''baseline'', ''candidate''}"
  shows "(\<forall>(s, a, r) \<in> set rows. t_class r = ''complete'') \<and> (\<exists>dev. pgetn m ''deviations'' = Inr dev \<and> \<not> truthy dev) \<and>
    (\<exists>e. getitem m ''experiment'' = Inr e \<and> resources_complete m e results \<and> demonstrated e results)"
proof -
  from assms(2,3) obtain e where e: "getitem m ''experiment'' = Inr e" "confirm m e reasons results = Inr d"
    unfolding decide_def by (auto simp: ebind_eq_Inr split: if_splits)
  note c = confirm_demonstrated [OF e(2) assms(3)]
  have "t_class r = ''complete''" if "(s, a, r) \<in> set rows" for s a r
    using pair_reasons_complete [OF assms(1) conjunct1 [OF c] assms(4) that] assms(5) that by auto
  then show ?thesis using c e(1) by auto
qed

definition sample_row :: "string \<Rightarrow> arm_row" where
  "sample_row arm = (Evidence.sample_slot, arm, \<lparr>t_started = True, t_class = ''complete'', t_reason = PStr [], t_metrics = [], t_facts = PDict [],
     t_exit = PInt 0, t_elapsed = PInt 1, t_cleanup = True\<rparr>)"

definition sample_estimate :: paired_estimate where
  "sample_estimate = no_pairs\<lparr>es_n := 1, es_ratio := Some (Fin (1 / 2)),
     es_interval := Some \<lparr>in_ratio = Some (PFloat (Fin (1 / 4)), PFloat (Fin (3 / 4))), in_difference = (PInt 0, PInt 0), in_improvement = None\<rparr>\<rparr>"

definition sample_results :: results where
  "sample_results = [(''example-fixed-replay'', map (\<lambda>n. (n, sample_estimate)) (''gate_seconds'' # E1_RESOURCES))]"

definition sample_confirmation :: pv where
  "sample_confirmation = PDict [(''experiment'', PStr ''E1''), (''phase'', PStr ''confirmation''), (''compare_facts'', PList []),
     (''strata'', PDict [(''example-fixed-replay'', PList [PInt 1])])]"

lemma sample_pairing:
  "pair_reasons (\<lambda>_. Inr (0, Some 0)) sample_confirmation [sample_row ''baseline'', sample_row ''candidate''] = Inr [(''b'', [])]"
  by (simp add: pair_reasons_def block_names_def firsts_def sample_row_def Evidence.sample_slot_def block_reasons_def block_arm_def
      missing_reason_def sample_confirmation_def)

lemma sample_decision:
  "\<exists>d. decide sample_confirmation [(''b'', [])] sample_results = Inr d \<and> de_status d = ''improvement_demonstrated''"
proof -
  have "rnd (1 / 2) \<le> rnd (17 / 20)" by (rule rnd_mono) simp
  moreover have "representable (1 / 2)" using representable_64th [of 32] by simp
  then have "rnd (1 / 2) = 1 / 2" by (rule representable_rnd)
  ultimately have "\<not> rnd (17 / 20) < 1 / 2" by linarith
  then have n: "not_demonstrated (rnd (17 / 20)) sample_estimate = Inr False"
    by (simp add: not_demonstrated_def sample_estimate_def no_pairs_def flt_less_def py_le_def)
  have l: "lookup sample_results ''example-fixed-replay'' = Inr (map (\<lambda>n. (n, sample_estimate)) (''gate_seconds'' # E1_RESOURCES))"
    by (simp add: lookup_def sample_results_def)
  have each: "lookup (map (\<lambda>n. (n, sample_estimate)) (''gate_seconds'' # E1_RESOURCES)) n = Inr sample_estimate"
    if "n \<in> set (''gate_seconds'' # E1_RESOURCES)" for n
    using that by (auto simp: lookup_def map_of_map_keys E1_RESOURCES_def)
  have r: "emap (lookup (map (\<lambda>n. (n, sample_estimate)) (''gate_seconds'' # E1_RESOURCES))) E1_RESOURCES =
      Inr (map (\<lambda>_. sample_estimate) E1_RESOURCES)"
    by (rule emap_total) (simp add: each del: list.map)
  have c: "emap (\<lambda>name. ebind (lookup (map (\<lambda>n. (n, sample_estimate)) (''gate_seconds'' # E1_RESOURCES)) name) (\<lambda>x. Inr (name, cost_class x)))
      E1_RESOURCES = Inr (map (\<lambda>n. (n, cost_class sample_estimate)) E1_RESOURCES)"
    by (rule emap_total) (simp add: each del: list.map)
  have m: "getitem sample_confirmation ''experiment'' = Inr (PStr ''E1'')" "getitem sample_confirmation ''phase'' = Inr (PStr ''confirmation'')"
    "pgetn sample_confirmation ''deviations'' = Inr PNone"
    "getitem sample_confirmation ''strata'' = Inr (PDict [(''example-fixed-replay'', PList [PInt 1])])"
    by (simp_all add: sample_confirmation_def)
  have "refutations [(''b'', [])] PNone [PInt 1] (map (\<lambda>_. sample_estimate) E1_RESOURCES) False = []"
    by (simp add: refutations_def list_ex_iff sample_estimate_def no_pairs_def)
  then show ?thesis
    unfolding decide_def m ebind.simps
    by (simp add: published_def confirm_def primary_of_def l each r c m n verdict_def del: list.map)
qed

lemma improvement_needs_complete_evidence_witness:
  "list_all (\<lambda>(s, a, r). t_class r = ''complete'') [sample_row ''baseline'', sample_row ''candidate'']"
proof -
  obtain d where "decide sample_confirmation [(''b'', [])] sample_results = Inr d" "de_status d = ''improvement_demonstrated''"
    using sample_decision by blast
  from improvement_needs_complete_evidence [OF sample_pairing this] show ?thesis
    by (simp add: row_key_def sample_row_def)
qed

end
