(* ===== verification/Markdown.thy ===== *)
theory Markdown
  imports Analysis Gate
begin

text \<open>
  The Markdown report of \<open>experiments/gate-performance/harness/analysis.py\<close> (the end of \<open>analyze_locked\<close>):
  its header and decision, and its six tables.

  A table is kept as a record (the lines before it, its header, its rules and its rows of cells) until it
  is printed.  Strings are the UTF-8 bytes that \<open>write_text\<close> writes; only ASCII characters are replaced, so
  the escapes act on bytes as they do on text.  \<open>dumps\<close> is \<open>json.dumps(..., sort_keys=True)\<close>, \<open>render\<close> is \<open>str\<close>
  of a float, a list or a dict.
\<close>

section \<open>Numbers\<close>

text \<open>\<open>'%.9g'\<close>: nine significant digits of the exact value, half to even, without trailing zeros.\<close>

definition dec_exp :: "rat \<Rightarrow> int" where
  "dec_exp x = (if 1 \<le> x then int (length (show_nat (nat \<lfloor>x\<rfloor>))) - 1
     else - int (length (show_nat (nat (\<lceil>1 / x\<rceil> - 1)))))"

definition strip_zeros :: "string \<Rightarrow> string" where
  "strip_zeros s = rev (dropWhile (\<lambda>c. c = CHR ''0'') (rev s))"

definition with_point :: "string \<Rightarrow> string \<Rightarrow> string" where
  "with_point whole part = (let f = strip_zeros part in if f = [] then whole else whole @ ''.'' @ f)"

definition nine_digits :: "rat \<Rightarrow> nat \<times> int" where
  "nine_digits x = (let e = dec_exp x; n = nat (rne (x / 10 powi (e - 8))) in
     if n = 10 ^ 9 then (10 ^ 8, e + 1) else (n, e))"

definition format_pos :: "rat \<Rightarrow> string" where
  "format_pos x = (case nine_digits x of (n, e) \<Rightarrow> let ds = show_nat n in
     if 0 \<le> e \<and> e < 9 then with_point (take (nat e + 1) ds) (drop (nat e + 1) ds)
     else if - 4 \<le> e \<and> e < 0 then with_point ''0'' (replicate (nat (- e) - 1) (CHR ''0'') @ ds)
     else with_point (take 1 ds) (drop 1 ds) @ ''e'' @ (if e < 0 then ''-'' else ''+'') @ pad_nat 2 (nat \<bar>e\<bar>))"

definition format_9g :: "flt \<Rightarrow> string" where
  "format_9g f = (case f of
     PosInf \<Rightarrow> ''inf'' | NegInf \<Rightarrow> ''-inf'' | NaN \<Rightarrow> ''nan''
   | Fin x \<Rightarrow> if x = 0 then ''0'' else if 0 < x then format_pos x else ''-'' @ format_pos (- x))"

definition display :: "pv \<Rightarrow> string res" where
  "display v = (if v = PNone then Inr ''N/A'' else ebind (to_float v) (\<lambda>f. Inr (format_9g f)))"

definition display_flt :: "flt option \<Rightarrow> string" where
  "display_flt x = (case x of None \<Rightarrow> ''N/A'' | Some f \<Rightarrow> format_9g f)"

section \<open>Text\<close>

definition dash :: string where
  "dash = [CHR 0xE2, CHR 0x80, CHR 0x94]"

definition bar :: char where "bar = CHR 0x7C"

definition escape_cell :: "char \<Rightarrow> string" where
  "escape_cell c = (if c = CHR 0x26 then ''&amp;'' else if c = CHR 0x3C then ''&lt;'' else if c = CHR 0x3E then ''&gt;''
     else if c = bar then ''&#124;'' else if c = newline then ''<br>'' else if c = CHR 0x0D then [] else [c])"

definition cell :: "string \<Rightarrow> string" where
  "cell s = concat (map escape_cell s)"

definition inline_code :: "string \<Rightarrow> string" where
  "inline_code s = (let body = map (\<lambda>c. if c = newline \<or> c = CHR 0x0D then CHR '' '' else c) s;
       fence = replicate (longest_run 0 body + 1) tick in fence @ '' '' @ body @ '' '' @ fence)"

definition code_list :: "string list \<Rightarrow> string" where
  "code_list names = join '', '' (map (\<lambda>n. [tick] @ n @ [tick]) names)"

section \<open>Estimates\<close>

definition ratio_bounds :: "paired_estimate \<Rightarrow> (pv \<times> pv) option" where
  "ratio_bounds x = (case es_interval x of None \<Rightarrow> None | Some iv \<Rightarrow> in_ratio iv)"

definition difference_bounds :: "paired_estimate \<Rightarrow> (pv \<times> pv) option" where
  "difference_bounds x = map_option in_difference (es_interval x)"

definition improvement_bounds :: "paired_estimate \<Rightarrow> (pv \<times> pv) option" where
  "improvement_bounds x = (case es_interval x of None \<Rightarrow> None | Some iv \<Rightarrow> map_option (\<lambda>(a, b). (PFloat a, PFloat b)) (in_improvement iv))"

definition pair_display :: "pv \<Rightarrow> pv \<Rightarrow> string res" where
  "pair_display a b = ebind (display a) (\<lambda>x. ebind (display b) (\<lambda>y. Inr (''['' @ x @ '', '' @ y @ '']'')))"

definition interval_display :: "(pv \<times> pv) option \<Rightarrow> string res" where
  "interval_display bounds = (case bounds of None \<Rightarrow> Inr ''N/A'' | Some (a, b) \<Rightarrow> pair_display a b)"

definition note_of :: "paired_estimate \<Rightarrow> string \<Rightarrow> string \<Rightarrow> string" where
  "note_of x k default_text = (case map_of (es_notes x) k of Some t \<Rightarrow> t | None \<Rightarrow> default_text)"

definition interval_reason :: "paired_estimate \<Rightarrow> string" where
  "interval_reason x = (case es_interval x of
     None \<Rightarrow> note_of x ''interval_reason'' (if es_n x = 0 then ''no_valid_pairs'' else ''interval_unavailable'')
   | Some iv \<Rightarrow> if in_ratio iv = None then note_of x ''ratio_interval_reason'' ''undefined_ratio'' else [])"

section \<open>Header and decision\<close>

definition threshold_lines :: "pv \<Rightarrow> results \<Rightarrow> decision \<Rightarrow> string list res" where
  "threshold_lines e results d = (case de_threshold d of
     None \<Rightarrow> Inr []
   | Some threshold \<Rightarrow> (case primary_of e of (primary, metric, th) \<Rightarrow>
       ebind (lookup results primary) (\<lambda>mine. ebind (lookup mine metric) (\<lambda>endpoint.
       ebind (interval_display (ratio_bounds endpoint)) (\<lambda>iv.
       let reason = interval_reason endpoint in
       Inr ([''Primary endpoint: '' @ [tick] @ primary @ [tick] @ '' / '' @ [tick] @ metric @ [tick] @ ''.'', [],
         ''Primary ratio: '' @ display_flt (es_ratio endpoint) @ ''; 95% bootstrap interval: '' @ iv @ ''.'', [],
         ''Confirmatory timing rule: ratio <= '' @ format_9g (Fin threshold) @
           '' and upper 95% interval bound < 1; all planned quality/resource evidence must be complete.'', []] @
         (if reason \<noteq> [] then [''Primary interval unavailable: '' @ [tick] @ reason @ [tick] @ ''.'', []] else []) @
         [''Decision reasons: '' @ (if de_reasons d = [] then ''none'' else code_list (de_reasons d)) @ ''.'', []]))))))"

definition cost_lines :: "pv \<Rightarrow> decision \<Rightarrow> string list" where
  "cost_lines e d =
     (if de_costs d = [] then [] else
        (if de_status d = ''improvement_demonstrated'' then
           [''Timing result: **'' @ (if e = PStr ''E1'' then ''faster with higher measured resource cost''
              else ''faster feedback with higher runner cost'') @ ''**.'', []] else []) @
        [''Higher measured resource cost (ratio > 1.10): '' @ code_list (de_costs d) @ ''.'', []]) @
     (if de_undefined d = [] then [] else
        [''Undefined resource ratios: '' @ code_list (de_undefined d) @ ''; no resource-efficiency claim follows.'', []])"

definition header_lines :: "(pv \<Rightarrow> string) \<Rightarrow> pv \<Rightarrow> results \<Rightarrow> decision \<Rightarrow> string list res" where
  "header_lines render m results d =
     item m ''campaign_id'' (\<lambda>c. item m ''experiment'' (\<lambda>e. item m ''phase'' (\<lambda>phase.
     ebind (threshold_lines e results d) (\<lambda>ts.
     Inr ([''# Campaign analysis'', [], ''Campaign: '' @ inline_code (py_str render c) @ '' ('' @ py_str render e @ '' / '' @
         inline_code (py_str render phase) @ '').'', [], ''Decision: **'' @ de_status d @ ''**.'', []] @ ts @ cost_lines e d)))))"

definition status_lines :: "(pv \<Rightarrow> string) \<Rightarrow> (pv \<Rightarrow> string) \<Rightarrow> pv \<Rightarrow> pv option \<Rightarrow> nat \<Rightarrow> (string \<times> pv list) list \<Rightarrow> string list res" where
  "status_lines dumps render m stopped planned_pairs reasons =
     item m ''arms'' (\<lambda>arms. item m ''quality_checks'' (\<lambda>qs. ebind (py_iter qs) (\<lambda>names.
     Inr [''Registered arms: '' @ cell (dumps arms) @ ''.'', [],
       ''Quality inventory: '' @ join '', '' (map (cell \<circ> py_str render) names) @ ''.'', [],
       ''Collection status: '' @ (case stopped of Some v \<Rightarrow> if truthy v then ''stopped '' @ dash @ '' '' @ cell (dumps v) else ''not stopped''
          | None \<Rightarrow> ''not stopped'') @ ''.'', [],
       ''Planned pairs: '' @ show_nat planned_pairs @ ''; valid pairs: '' @ show_nat (length (filter (\<lambda>(b, r). r = []) reasons)) @
         ''; excluded pairs: '' @ show_nat (length (filter (\<lambda>(b, r). r \<noteq> []) reasons)) @ ''.'', []])))"

section \<open>Tables\<close>

record md_table =
  tb_intro :: "string list"
  tb_header :: "string list"
  tb_rules :: "string list"
  tb_rows :: "string list list"

definition row_line :: "string list \<Rightarrow> string" where
  "row_line cs = [bar] @ '' '' @ join ('' '' @ [bar] @ '' '') cs @ '' '' @ [bar]"

definition table_lines :: "md_table \<Rightarrow> string list" where
  "table_lines t = tb_intro t @ map row_line (tb_header t # tb_rules t # tb_rows t)"

definition left :: string where "left = ''---''"
definition right :: string where "right = ''---:''"

text \<open>The rows of a nested dict, in order: one list of rows per inner entry.\<close>

definition nested_rows :: "('a \<Rightarrow> 'b \<Rightarrow> string list list res) \<Rightarrow> ('a \<times> 'b list) list \<Rightarrow> string list list res" where
  "nested_rows f d = ebind (emap (\<lambda>(k, xs). ebind (emap (f k) xs) (\<lambda>rs. Inr (concat rs))) d) (\<lambda>rs. Inr (concat rs))"

definition rows_or :: "string list \<Rightarrow> string list list \<Rightarrow> string list list" where
  "rows_or none_row rows = (if rows = [] then [none_row] else rows)"

definition class_count :: "account \<Rightarrow> string \<Rightarrow> nat" where
  "class_count a c = (case map_of (ac_classes a) c of Some n \<Rightarrow> n | None \<Rightarrow> 0)"

definition account_row :: "string \<Rightarrow> string \<times> account \<Rightarrow> string list list res" where
  "account_row workload = (\<lambda>(arm, a). Inr [[cell workload, arm] @ map show_nat ([ac_planned a, ac_started a] @
     map (class_count a) [''complete'', ''operational_failure'', ''quality_failure'', ''not_started''])])"

definition accounting_table :: "(string \<times> (string \<times> account) list) list \<Rightarrow> md_table res" where
  "accounting_table acc = ebind (nested_rows account_row acc) (\<lambda>rows.
     Inr \<lparr>tb_intro = [], tb_header = [''Workload'', ''Arm'', ''Planned'', ''Started'', ''Complete'', ''Operational failure'', ''Quality failure'',
       ''Not started''], tb_rules = [left, left] @ replicate 6 right, tb_rows = rows\<rparr>)"

definition reason_rows :: "(pv \<Rightarrow> string) \<Rightarrow> string \<Rightarrow> string \<times> account \<Rightarrow> string list list res" where
  "reason_rows render workload = (\<lambda>(arm, a). ebind (psort fst (ac_reasons a)) (\<lambda>rs.
     Inr (map (\<lambda>(reason, n). [cell workload, arm, cell (py_str render reason), show_nat n]) rs)))"

definition reasons_table :: "(pv \<Rightarrow> string) \<Rightarrow> (string \<times> (string \<times> account) list) list \<Rightarrow> md_table res" where
  "reasons_table render acc = ebind (nested_rows (reason_rows render) acc) (\<lambda>rows.
     Inr \<lparr>tb_intro = [[]], tb_header = [''Workload'', ''Arm'', ''Failure or missingness reason'', ''Count''],
       tb_rules = [left, left, left, right], tb_rows = rows_or [dash, dash, ''none'', ''0''] rows\<rparr>)"

text \<open>The rows with retained evidence of a failed attempt; \<open>has_arm\<close> says whether the arm's directory exists.\<close>

definition failures :: "(string \<Rightarrow> string \<Rightarrow> bool) \<Rightarrow> arm_row list \<Rightarrow> arm_row list" where
  "failures has_arm rows = filter (\<lambda>(s, a, r). t_class r \<noteq> ''complete'' \<and>
     (t_class r \<noteq> ''not_started'' \<or> t_started r \<or> has_arm (slot_block s) a)) rows"

definition failure_row :: "(pv \<Rightarrow> string) \<Rightarrow> arm_row \<Rightarrow> string list res" where
  "failure_row render = (\<lambda>(s, a, r). ebind (display (t_exit r)) (\<lambda>ex. ebind (display (t_elapsed r)) (\<lambda>el.
     Inr [cell (slot_block s), cell (slot_workload s), a, t_class r, cell (py_str render (t_reason r)),
       if t_started r then ''true'' else ''false'', ex, el])))"

definition failures_table :: "(pv \<Rightarrow> string) \<Rightarrow> arm_row list \<Rightarrow> md_table res" where
  "failures_table render fs = ebind (emap (failure_row render) fs) (\<lambda>rows.
     Inr \<lparr>tb_intro = [[], ''Retained failed-attempt evidence (excluded from paired estimates):'', []],
       tb_header = [''Block'', ''Workload'', ''Arm'', ''Outcome'', ''Reason'', ''Started'', ''Exit'', ''Elapsed seconds (run/spawn)''],
       tb_rules = replicate 6 left @ [right, right],
       tb_rows = rows_or [dash, dash, dash, ''none'', dash, dash, ''N/A'', ''N/A''] rows\<rparr>)"

definition retained_names :: "pv \<Rightarrow> trial_row \<Rightarrow> string list res" where
  "retained_names m r = item m ''resource_metrics'' (\<lambda>rm. ebind (py_iter rm) (\<lambda>rs.
     ebind (pget m ''analysis_metrics'' (PList [])) (\<lambda>am. ebind (py_iter am) (\<lambda>xs.
     Inr (sort (remdups (map str_of rs @ map str_of xs @ map fst (t_metrics r))))))))"

definition retained_rows :: "pv \<Rightarrow> arm_row \<Rightarrow> string list list res" where
  "retained_rows m row = (case row of (s, a, r) \<Rightarrow> ebind (retained_names m r) (emap (\<lambda>name.
     ebind (display (metric_value row name)) (\<lambda>v. Inr [cell (slot_block s), a, cell name, v]))))"

definition retained_table :: "pv \<Rightarrow> arm_row list \<Rightarrow> md_table res" where
  "retained_table m fs = ebind (emap (retained_rows m) fs) (\<lambda>rss.
     Inr \<lparr>tb_intro = [[]], tb_header = [''Block'', ''Arm'', ''Retained metric (quality may be invalid)'', ''Observed value''],
       tb_rules = [left, left, left, right],
       tb_rows = (if fs = [] then [[dash, dash, ''none'', ''N/A'']] else concat rss)\<rparr>)"

definition excluded_table :: "(pv \<Rightarrow> string) \<Rightarrow> (string \<times> pv list) list \<Rightarrow> md_table" where
  "excluded_table render reasons =
     \<lparr>tb_intro = [[]], tb_header = [''Excluded block'', ''Pair reasons''], tb_rules = [left, left],
      tb_rows = rows_or [dash, ''none''] (map (\<lambda>(b, rs). [cell b, join ''; '' (map (cell \<circ> py_str render) rs)])
        (filter (\<lambda>(b, rs). rs \<noteq> []) (sort_key fst reasons)))\<rparr>"

definition deviation_lines :: "(pv \<Rightarrow> string) \<Rightarrow> pv \<Rightarrow> string list res" where
  "deviation_lines render m = ebind (pget m ''deviations'' (PList [])) (\<lambda>ds.
     if \<not> truthy ds then Inr [''None.''] else ebind (py_iter ds) (\<lambda>vs. Inr (map (\<lambda>v. ''- '' @ cell (py_str render v)) vs)))"

definition estimate_row :: "string \<Rightarrow> string \<times> paired_estimate \<Rightarrow> string list list res" where
  "estimate_row workload = (\<lambda>(metric, x).
     ebind (interval_display (ratio_bounds x)) (\<lambda>rb. ebind (interval_display (difference_bounds x)) (\<lambda>db.
     Inr [[cell workload, cell metric, show_nat (es_n x), display_flt (es_ratio x), rb, display_flt (es_difference x), db,
       interval_reason x]])))"

definition estimate_table :: "(pv \<Rightarrow> string) \<Rightarrow> pv \<Rightarrow> results \<Rightarrow> md_table res" where
  "estimate_table render m results = ebind (deviation_lines render m) (\<lambda>ds. ebind (nested_rows estimate_row results) (\<lambda>rows.
     Inr \<lparr>tb_intro = [[], ''Registered deviations:'', []] @ ds @ [[]],
       tb_header = [''Workload'', ''Metric'', ''Pairs'', ''Geometric ratio'', ''Ratio 95% interval'', ''Mean difference'',
         ''Difference 95% interval'', ''Interval limitation''],
       tb_rules = [left, left, right, right, left, right, left, left], tb_rows = rows\<rparr>))"

definition arm_summary :: "(pv \<times> pv \<times> pv) option \<Rightarrow> string list res" where
  "arm_summary v = (case v of None \<Rightarrow> Inr [''N/A'', ''N/A'']
     | Some (med, q1, q3) \<Rightarrow> ebind (display med) (\<lambda>a. ebind (pair_display q1 q3) (\<lambda>b. Inr [a, b])))"

definition improvement_row :: "string \<Rightarrow> string \<times> paired_estimate \<Rightarrow> string list list res" where
  "improvement_row workload = (\<lambda>(metric, x). ebind (interval_display (improvement_bounds x)) (\<lambda>ib.
     ebind (arm_summary (map_option fst (es_arms x))) (\<lambda>b. ebind (arm_summary (map_option snd (es_arms x))) (\<lambda>c.
     Inr [[cell workload, cell metric, show_nat (es_n x), display_flt (es_improvement x), ib] @ b @ c]))))"

definition improvement_table :: "results \<Rightarrow> md_table res" where
  "improvement_table results = ebind (nested_rows improvement_row results) (\<lambda>rows.
     Inr \<lparr>tb_intro = [[]], tb_header = [''Workload'', ''Metric'', ''Pairs'', ''Improvement (1 - ratio)'', ''Improvement 95% interval'',
         ''Baseline median'', ''Baseline IQR [Q1, Q3]'', ''Candidate median'', ''Candidate IQR [Q1, Q3]''],
       tb_rules = [left, left, right, right, left, right, left, right, left], tb_rows = rows\<rparr>)"

text \<open>One row per registered date of the workload, whether it has a valid pair or not.\<close>

definition date_row :: "pv list \<Rightarrow> string \<Rightarrow> string \<times> paired_estimate \<Rightarrow> nat \<times> pv \<Rightarrow> string list res" where
  "date_row dates workload = (\<lambda>(metric, x) (index, planned).
     if length dates \<le> index then Inl (IndexError ''list index out of range'')
     else let slot = pad_nat 2 (index + 1);
        (n, ratio, difference) = (case map_of (es_by_date x) slot of Some y \<Rightarrow> y | None \<Rightarrow> (0, None, None)) in
     Inr [cell workload, cell metric, slot, str_of (dates ! index), show_int (int_of_pv planned), show_nat n, display_flt ratio,
       display_flt difference])"

definition date_rows :: "pv \<Rightarrow> string \<Rightarrow> string \<times> paired_estimate \<Rightarrow> string list list res" where
  "date_rows m workload e = item m ''strata'' (\<lambda>strata. item strata workload (\<lambda>counts. ebind (py_iter counts) (\<lambda>ns.
     item m ''dates'' (\<lambda>ds. ebind (py_iter ds) (\<lambda>dates.
     emap (date_row dates workload e) (enumerate 0 ns))))))"

definition date_table :: "pv \<Rightarrow> results \<Rightarrow> md_table res" where
  "date_table m results = ebind (nested_rows (date_rows m) results) (\<lambda>rows.
     Inr \<lparr>tb_intro = [[]], tb_header = [''Workload'', ''Metric'', ''Date slot'', ''UTC date'', ''Planned pairs'', ''Valid pairs'', ''Geometric ratio'',
         ''Mean difference''], tb_rules = [left, left, left, left, right, right, right, right], tb_rows = rows\<rparr>)"

section \<open>The report\<close>

definition report_tables ::
  "(pv \<Rightarrow> string) \<Rightarrow> (string \<Rightarrow> string \<Rightarrow> bool) \<Rightarrow> pv \<Rightarrow> analysis \<Rightarrow> md_table list res" where
  "report_tables render has_arm m an =
     (let fs = failures has_arm (an_rows an) in
      ebind (accounting_table (an_accounting an)) (\<lambda>t1. ebind (reasons_table render (an_accounting an)) (\<lambda>t2.
      ebind (failures_table render fs) (\<lambda>t3. ebind (retained_table m fs) (\<lambda>t4.
      ebind (estimate_table render m (an_results an)) (\<lambda>t6. ebind (improvement_table (an_results an)) (\<lambda>t7.
      ebind (date_table m (an_results an)) (\<lambda>t8.
      Inr [t1, t2, t3, t4, excluded_table render (an_reasons an), t6, t7, t8]))))))))"

definition closing_lines :: "string list" where
  "closing_lines = [[], ''Exact estimates, intervals, arm summaries, date estimates, all failure counts'',
     ''and pair reasons are also in `results.json`; every planned slot is in `trials.csv`.'', [],
     ''Secondary endpoints are descriptive. Results are conditional on the'',
     ''registered dates, environments, caches and workload. No p99, labor savings'',
     ''or broad application claim follows from this analysis.'', []]"

definition markdown_report ::
  "(pv \<Rightarrow> string) \<Rightarrow> (pv \<Rightarrow> string) \<Rightarrow> (string \<Rightarrow> string \<Rightarrow> bool) \<Rightarrow> pv option \<Rightarrow> pv \<Rightarrow> analysis \<Rightarrow> string res" where
  "markdown_report dumps render has_arm stopped m an =
     ebind (header_lines render m (an_results an) (an_decision an)) (\<lambda>hs.
     ebind (status_lines dumps render m stopped (length (an_reasons an)) (an_reasons an)) (\<lambda>ss.
     ebind (report_tables render has_arm m an) (\<lambda>ts.
     Inr (join [newline] (hs @ ss @ concat (map table_lines ts) @ closing_lines)))))"

section \<open>The rows of a table stay rows\<close>

definition plain :: "string \<Rightarrow> bool" where
  "plain s = (bar \<notin> set s \<and> newline \<notin> set s)"

named_theorems plain_intros \<open>texts without a bar or a line break\<close>

lemma plain_append [simp]: "plain (s @ t) \<longleftrightarrow> plain s \<and> plain t"
  by (auto simp: plain_def)

lemma plain_Cons: "plain (c # s) \<longleftrightarrow> c \<noteq> bar \<and> c \<noteq> newline \<and> plain s"
  by (auto simp: plain_def)

lemma plain_Nil [simp]: "plain []"
  by (simp add: plain_def)

lemma plain_subset: "plain t \<Longrightarrow> set s \<subseteq> set t \<Longrightarrow> plain s"
  by (auto simp: plain_def)

lemma plain_digits: "(\<And>c. c \<in> set s \<Longrightarrow> is_digit c) \<Longrightarrow> plain s"
proof -
  assume d: "\<And>c. c \<in> set s \<Longrightarrow> is_digit c"
  have "\<not> is_digit bar" "\<not> is_digit newline"
    by (simp_all add: is_digit_def bar_def newline_def less_eq_char_def)
  then show ?thesis using d by (auto simp: plain_def)
qed

lemma plain_show_nat [plain_intros]: "plain (show_nat n)"
  by (rule plain_digits) (rule show_nat_digits)

lemma plain_pad_nat [plain_intros]: "plain (pad_nat w n)"
  by (rule plain_digits) (rule pad_nat_digits)

lemma plain_show_int [plain_intros]: "plain (show_int i)"
  by (simp add: show_int_def plain_show_nat plain_Cons bar_def newline_def)

lemma plain_join [plain_intros]: "plain sep \<Longrightarrow> list_all plain parts \<Longrightarrow> plain (join sep parts)"
  by (induction sep parts rule: join.induct) auto

lemma plain_cell [plain_intros]: "plain (cell s)"
proof (induction s)
  case (Cons c s)
  have "plain (escape_cell c)"
    by (simp add: escape_cell_def) (simp add: plain_Cons bar_def newline_def)
  then show ?case using Cons by (simp add: cell_def)
qed (simp add: cell_def)

lemma plain_with_point: "plain w \<Longrightarrow> plain p \<Longrightarrow> plain (with_point w p)"
proof -
  assume h: "plain w" "plain p"
  have "set (strip_zeros p) \<subseteq> set p" by (auto simp: strip_zeros_def dest: set_dropWhileD)
  with h have "plain (strip_zeros p)" by (rule_tac plain_subset)
  then show ?thesis using h by (simp add: with_point_def Let_def) (simp add: plain_Cons bar_def newline_def)
qed

lemma plain_format_pos: "plain (format_pos x)"
proof -
  obtain n e where n: "nine_digits x = (n, e)" by (cases "nine_digits x")
  have t: "plain (take k (show_nat n))" "plain (drop k (show_nat n))" for k
    by (rule plain_subset [OF plain_show_nat set_take_subset], rule plain_subset [OF plain_show_nat set_drop_subset])
  have z: "plain (replicate k (CHR ''0''))" for k by (simp add: plain_def bar_def newline_def)
  have c: "plain ''0''" "plain ''e''" "plain (if e < 0 then ''-'' else ''+'')" by (simp_all add: plain_Cons bar_def newline_def)
  have "plain (with_point (take k (show_nat n)) (drop k (show_nat n)))" for k
    using t by (rule plain_with_point)
  moreover have "plain (with_point ''0'' (replicate k (CHR ''0'') @ show_nat n))" for k
    using c(1) z plain_show_nat by (intro plain_with_point) (simp_all only: plain_append simp_thms)
  ultimately show ?thesis
    using c(2,3) plain_pad_nat by (simp only: format_pos_def n Let_def prod.case plain_append simp_thms split: if_split)
qed

lemma plain_format_9g [plain_intros]: "plain (format_9g f)"
proof -
  have "plain ''inf''" "plain ''-inf''" "plain ''nan''" "plain ''0''" "plain ''-''" by (simp_all add: plain_Cons bar_def newline_def)
  then show ?thesis using plain_format_pos by (auto simp: format_9g_def plain_Cons split: flt.splits)
qed

lemma plain_NA: "plain ''N/A''"
  by (simp add: plain_Cons bar_def newline_def)

lemma plain_display_flt [plain_intros]: "plain (display_flt x)"
  using plain_NA by (simp add: display_flt_def plain_format_9g split: option.splits)

lemma plain_display: "display v = Inr s \<Longrightarrow> plain s"
  using plain_NA by (auto simp: display_def ebind_eq_Inr plain_format_9g split: if_splits)

lemma plain_pair_display: "pair_display a b = Inr s \<Longrightarrow> plain s"
proof -
  have "plain ''[''" "plain '', ''" "plain '']''" by (simp_all add: plain_Cons bar_def newline_def)
  then show "pair_display a b = Inr s \<Longrightarrow> plain s" by (auto simp: pair_display_def plain_Cons ebind_eq_Inr dest!: plain_display)
qed

lemma plain_interval_display: "interval_display b = Inr s \<Longrightarrow> plain s"
  using plain_NA by (auto simp: interval_display_def dest: plain_pair_display split: option.splits)

definition row_ok :: "nat \<Rightarrow> string list \<Rightarrow> bool" where
  "row_ok n cs = (length cs = n \<and> n \<noteq> 0 \<and> list_all plain cs)"

lemma bar_facts [simp]: "bar \<noteq> newline" "newline \<noteq> bar" "CHR '' '' \<noteq> bar" "CHR '' '' \<noteq> newline" "bar \<noteq> CHR '' ''" "newline \<noteq> CHR '' ''"
  by (simp_all add: plain_Cons bar_def newline_def)

lemma count_list_join: "cs \<noteq> [] \<Longrightarrow> list_all plain cs \<Longrightarrow> count_list (join ('' '' @ [bar] @ '' '') cs) bar = length cs - 1"
proof (induction "'' '' @ [bar] @ '' ''" cs rule: join.induct)
  case (3 p q ps)
  have "count_list p bar = 0" using 3 by (simp add: plain_def count_list_0_iff)
  moreover have "count_list ('' '' @ [bar] @ '' '') bar = 1" by simp
  ultimately show ?case using 3 by simp
qed (simp_all add: plain_def count_list_0_iff)

lemma newline_join: "list_all plain cs \<Longrightarrow> newline \<notin> set (join ('' '' @ [bar] @ '' '') cs)"
proof (induction "'' '' @ [bar] @ '' ''" cs rule: join.induct)
  case (3 p q ps)
  have "newline \<notin> set ('' '' @ [bar] @ '' '')" by simp
  then show ?case using 3 by (auto simp: plain_def)
qed (simp_all add: plain_def)

lemma row_line_ok: "row_ok n cs \<Longrightarrow> count_list (row_line cs) bar = n + 1 \<and> newline \<notin> set (row_line cs)"
proof -
  assume r: "row_ok n cs"
  then have "cs \<noteq> []" "list_all plain cs" "length cs = n" by (auto simp: row_ok_def)
  moreover have "newline \<notin> set ([bar] @ '' '')" "newline \<notin> set ('' '' @ [bar])"
    "count_list ([bar] @ '' '') bar = 1" "count_list ('' '' @ [bar]) bar = 1"
    by simp_all
  ultimately show ?thesis
    using count_list_join [of cs] newline_join [of cs] by (cases cs) (simp_all add: row_line_def)
qed

lemma emap_all:
  assumes "emap f xs = Inr ys" "\<And>x y. x \<in> set xs \<Longrightarrow> f x = Inr y \<Longrightarrow> P y"
  shows "list_all P ys"
proof -
  from assms(1) have h: "length xs = length ys" "\<And>i. i < length ys \<Longrightarrow> f (xs ! i) = Inr (ys ! i)"
    by (simp_all add: emap_eq_Inr list_all2_conv_all_nth)
  have "P (ys ! i)" if "i < length ys" for i
    using that h(1) by (intro assms(2) [OF _ h(2)] nth_mem) simp_all
  then show ?thesis by (simp add: list_all_length)
qed

lemma list_all_concat: "list_all (list_all P) xss \<Longrightarrow> list_all P (concat xss)"
  by (induction xss) auto

lemma nested_rows_all:
  assumes "nested_rows f d = Inr rows"
    and f: "\<And>k xs x rs. (k, xs) \<in> set d \<Longrightarrow> x \<in> set xs \<Longrightarrow> f k x = Inr rs \<Longrightarrow> list_all P rs"
  shows "list_all P rows"
proof -
  obtain rss where r: "emap (\<lambda>(k, xs). ebind (emap (f k) xs) (\<lambda>rs. Inr (concat rs))) d = Inr rss" "rows = concat rss"
    using assms(1) by (auto simp: nested_rows_def ebind_eq_Inr)
  have inner: "list_all P (concat rs)" if "(k, xs) \<in> set d" "emap (f k) xs = Inr rs" for k xs rs
    using f [OF that(1)] by (intro list_all_concat emap_all [OF that(2)])
  have "list_all (list_all P) rss"
    by (rule emap_all [OF r(1)]) (auto simp: ebind_eq_Inr intro: inner)
  then show ?thesis using r(2) list_all_concat by simp
qed

definition table_ok :: "md_table \<Rightarrow> bool" where
  "table_ok t = list_all (row_ok (length (tb_header t))) (tb_rows t)"

lemma rows_or_all: "list_all P rows \<Longrightarrow> P d \<Longrightarrow> list_all P (rows_or d rows)"
  by (simp add: rows_or_def)

lemma plain_dash: "plain dash"
  by (simp add: dash_def plain_Cons bar_def newline_def)

lemma plain_words: "plain ''none''" "plain ''0''" "plain ''N/A''" "plain ''true''" "plain ''false''" "plain ''; ''"
  by (simp_all add: plain_Cons bar_def newline_def)

lemma plain_arms: "plain ''baseline''" "plain ''candidate''"
  by (simp_all add: plain_Cons bar_def newline_def)

lemma plain_classes: "plain ''complete''" "plain ''operational_failure''" "plain ''quality_failure''" "plain ''not_started''"
  by (simp_all add: plain_Cons bar_def newline_def)

section \<open>The fields the report does not escape\<close>

text \<open>They come from closed vocabularies: arms, classes and the notes of an estimate.\<close>

definition known_class :: "trial_row \<Rightarrow> bool" where
  "known_class r = (t_class r \<in> {''complete'', ''operational_failure'', ''quality_failure'', ''not_started''})"

lemma known_class_simps [simp]:
  "known_class (r\<lparr>t_reason := x\<rparr>) = known_class r"
  "known_class (r\<lparr>t_class := ''complete''\<rparr>)" "known_class (r\<lparr>t_class := ''operational_failure''\<rparr>)"
  "known_class (r\<lparr>t_class := ''quality_failure''\<rparr>)" "known_class (r\<lparr>t_class := ''not_started''\<rparr>)"
  "known_class (Evidence.run_row run ms facts clean)" "known_class (Evidence.blank_row x)"
  by (simp_all add: known_class_def Evidence.run_row_def Evidence.blank_row_def)

lemma judge_exit_class:
  assumes "judge_exit m w arm run row k = Inr r" "known_class row" "\<And>s. k = Inr s \<Longrightarrow> known_class s"
  shows "known_class r"
  using assms unfolding judge_exit_def by (auto elim!: ebindE split: if_splits)

lemma conclude_class: "conclude te b d m w arm state rc receipt row = Inr r \<Longrightarrow> known_class r"
  unfolding conclude_def Evidence.caught_def
  by (auto simp: ebind_eq_Inr simp del: eall.simps split: sum.splits if_splits)

lemma classify_class:
  assumes "classify te b d m w arm state rc receipt row = Inr r"
  shows "known_class r"
proof -
  have judged: "known_class r"
    if "judge_exit m w arm run (row\<lparr>t_class := ''operational_failure'', t_reason := x\<rparr>) (conclude te b d m w arm state rc receipt row') = Inr r"
    for run x row'
    using that by (rule judge_exit_class) (auto dest: conclude_class)
  show ?thesis
    using assms unfolding classify_def Let_def by (auto elim!: ebindE split: if_splits intro: judged)
qed

lemma trial_class: "trial te b m slot arm = Inr r \<Longrightarrow> known_class r"
  unfolding trial_def Let_def reduce_arm_def
  by (auto elim!: ebindE split: if_splits) (erule classify_class)+

lemma known_class_plain: "known_class r \<Longrightarrow> plain (t_class r)"
  using plain_classes by (auto simp: known_class_def)

definition rows_plain :: "arm_row list \<Rightarrow> bool" where
  "rows_plain rows = list_all (\<lambda>(s, a, r). plain a \<and> plain (t_class r)) rows"

lemma collect_rows_plain:
  assumes "collect_rows te b m slots = Inr rows" "\<forall>s \<in> set slots. set (slot_arms s) \<subseteq> {''baseline'', ''candidate''}"
  shows "rows_plain rows"
  unfolding rows_plain_def
proof (rule emap_all)
  have arms: "plain a" if "s \<in> set slots" "a \<in> set (slot_arms s)" for s a
    using that assms(2) plain_arms by fastforce
  show "emap (\<lambda>(slot, arm). ebind (trial te b m slot arm) (\<lambda>r. Inr (slot, arm, r)))
     (concat (map (\<lambda>slot. map (\<lambda>arm. (slot, arm)) (slot_arms slot)) slots)) = Inr rows"
    using assms(1) by (simp add: collect_rows_def)
  show "case y of (s, a, r) \<Rightarrow> plain a \<and> plain (t_class r)"
    if "x \<in> set (concat (map (\<lambda>slot. map (\<lambda>arm. (slot, arm)) (slot_arms slot)) slots))"
      "(case x of (slot, arm) \<Rightarrow> ebind (trial te b m slot arm) (\<lambda>r. Inr (slot, arm, r))) = Inr y" for x y
    using that by (auto simp: ebind_eq_Inr dest!: trial_class intro: known_class_plain arms)
qed

definition accounts_plain :: "(string \<times> (string \<times> account) list) list \<Rightarrow> bool" where
  "accounts_plain acc = list_all (\<lambda>(w, as). list_all (\<lambda>(arm, a). plain arm) as) acc"

lemma accounting_plain: "accounting m rows = Inr acc \<Longrightarrow> accounts_plain acc"
  using plain_arms unfolding accounts_plain_def accounting_def
  by (auto simp: ebind_eq_Inr elim!: emap_all)

definition results_plain :: "results \<Rightarrow> bool" where
  "results_plain results = list_all (\<lambda>(w, xs). list_all (\<lambda>(n, x). plain (interval_reason x)) xs) results"

lemma plain_notes: "plain ''no_valid_pairs''" "plain ''interval_unavailable''" "plain ''undefined_ratio''"
  "plain ''unrepresentable_bootstrap_ratio''" "plain ''unrepresentable_ratio''" "plain ''fewer_than_two_valid_blocks_in_planned_date''"
  by (simp_all add: plain_Cons bar_def newline_def)

lemma interval_reason_plain: "list_all (\<lambda>(k, t). plain t) (es_notes x) \<Longrightarrow> plain (interval_reason x)"
  using plain_notes
  by (auto simp: interval_reason_def note_of_def list_all_iff split: option.splits dest!: map_of_SomeD)

lemma bootstrap_notes_plain:
  "bootstrap_interval sha ma m w metric defined by_date = Inr (iv, ns) \<Longrightarrow> list_all (\<lambda>(k, t). plain t) ns"
  using plain_notes unfolding bootstrap_interval_def Let_def
  by (auto simp: ebind_eq_Inr simp del: list.map emap.simps upt_Suc split: if_splits option.splits)

lemma estimate_notes_plain:
  "estimate sha ma m w metric pairs dates = Inr x \<Longrightarrow> list_all (\<lambda>(k, t). plain t) (es_notes x)"
  using plain_notes unfolding estimate_def Let_def
  by (auto simp: ebind_eq_Inr no_pairs_def split: if_splits dest!: bootstrap_notes_plain)

lemma estimates_plain: "estimates sha ma m rows reasons = Inr results \<Longrightarrow> results_plain results"
  unfolding estimates_def results_plain_def
  by (auto simp: ebind_eq_Inr split: if_splits elim!: emap_all intro!: interval_reason_plain estimate_notes_plain)

section \<open>Every table is rectangular\<close>

lemmas cell_plains = plain_cell plain_show_nat plain_show_int plain_pad_nat plain_format_9g plain_display_flt

lemma accounts_plainD: "accounts_plain acc \<Longrightarrow> (w, as) \<in> set acc \<Longrightarrow> x \<in> set as \<Longrightarrow> plain (fst x)"
  by (fastforce simp: accounts_plain_def list_all_iff)

lemma accounting_table_ok:
  assumes "accounting_table acc = Inr t" "accounts_plain acc"
  shows "table_ok t"
proof -
  from assms(1) obtain rows where rows: "nested_rows account_row acc = Inr rows"
    and t: "length (tb_header t) = 8" "tb_rows t = rows"
    by (auto simp: accounting_table_def ebind_eq_Inr)
  have "list_all (row_ok 8) rs" if "(w, as) \<in> set acc" "x \<in> set as" "account_row w x = Inr rs" for w as x rs
    using that accounts_plainD [OF assms(2) that(1,2)] by (cases x) (auto simp: account_row_def row_ok_def cell_plains)
  then have "list_all (row_ok 8) rows" by (rule nested_rows_all [OF rows])
  then show ?thesis by (simp add: table_ok_def t)
qed

lemma reasons_table_ok:
  assumes "reasons_table render acc = Inr t" "accounts_plain acc"
  shows "table_ok t"
proof -
  from assms(1) obtain rows where rows: "nested_rows (reason_rows render) acc = Inr rows"
    and t: "length (tb_header t) = 4" "tb_rows t = rows_or [dash, dash, ''none'', ''0''] rows"
    by (auto simp: reasons_table_def ebind_eq_Inr)
  have "list_all (row_ok 4) rs" if "(w, as) \<in> set acc" "x \<in> set as" "reason_rows render w x = Inr rs" for w as x rs
    using that accounts_plainD [OF assms(2) that(1,2)]
    by (cases x) (auto simp: reason_rows_def row_ok_def cell_plains list_all_iff ebind_eq_Inr)
  then have "list_all (row_ok 4) rows" by (rule nested_rows_all [OF rows])
  then show ?thesis by (simp add: table_ok_def t rows_or_def row_ok_def plain_dash plain_words)
qed

lemma failures_table_ok:
  assumes "failures_table render fs = Inr t" "rows_plain fs"
  shows "table_ok t"
proof -
  from assms(1) obtain rows where rows: "emap (failure_row render) fs = Inr rows"
    and t: "length (tb_header t) = 8" "tb_rows t = rows_or [dash, dash, dash, ''none'', dash, dash, ''N/A'', ''N/A''] rows"
    by (auto simp: failures_table_def ebind_eq_Inr)
  have "row_ok 8 cs" if "x \<in> set fs" "failure_row render x = Inr cs" for x cs
  proof -
    obtain sl a r where x: "x = (sl, a, r)" by (cases x)
    have "plain a" "plain (t_class r)" using assms(2) that(1) x by (auto simp: rows_plain_def list_all_iff)
    then show ?thesis
      using that(2) x plain_words by (auto simp: failure_row_def ebind_eq_Inr row_ok_def cell_plains dest!: plain_display)
  qed
  then have "list_all (row_ok 8) rows" by (rule emap_all [OF rows])
  then show ?thesis by (simp add: table_ok_def t rows_or_def row_ok_def plain_dash plain_words)
qed

lemma retained_table_ok:
  assumes "retained_table m fs = Inr t" "rows_plain fs"
  shows "table_ok t"
proof -
  have one: "list_all (row_ok 4) rs" if "x \<in> set fs" "retained_rows m x = Inr rs" for x rs
  proof -
    obtain sl a r where x: "x = (sl, a, r)" by (cases x)
    with that(2) obtain names where names: "emap (\<lambda>name. ebind (display (metric_value x name))
        (\<lambda>v. Inr [cell (slot_block sl), a, cell name, v])) names = Inr rs"
      by (auto simp: retained_rows_def ebind_eq_Inr)
    have "plain a" using assms(2) that(1) x by (auto simp: rows_plain_def list_all_iff)
    then show ?thesis
      by (intro emap_all [OF names]) (auto simp: ebind_eq_Inr row_ok_def cell_plains dest!: plain_display)
  qed
  from assms(1) obtain rss where rss: "emap (retained_rows m) fs = Inr rss"
    and t: "length (tb_header t) = 4" "tb_rows t = (if fs = [] then [[dash, dash, ''none'', ''N/A'']] else concat rss)"
    by (auto simp: retained_table_def ebind_eq_Inr)
  have "list_all (row_ok 4) (concat rss)"
    by (rule list_all_concat) (rule emap_all [OF rss one])
  moreover have "row_ok 4 [dash, dash, ''none'', ''N/A'']" by (simp add: row_ok_def plain_dash plain_words)
  ultimately show ?thesis by (simp add: table_ok_def t)
qed

lemma excluded_table_ok: "table_ok (excluded_table render reasons)"
proof -
  have "row_ok 2 [cell b, join ''; '' (map (cell \<circ> py_str render) rs)]" for b rs
    by (simp add: row_ok_def plain_cell plain_words plain_join list_all_iff)
  moreover have "row_ok 2 [dash, ''none'']" by (simp add: row_ok_def plain_dash plain_words)
  ultimately have "list_all (row_ok 2) (tb_rows (excluded_table render reasons))"
    by (auto simp: excluded_table_def rows_or_def list_all_iff)
  moreover have "length (tb_header (excluded_table render reasons)) = 2" by (simp add: excluded_table_def)
  ultimately show ?thesis by (simp add: table_ok_def)
qed

lemma results_plainD: "results_plain rs \<Longrightarrow> (w, xs) \<in> set rs \<Longrightarrow> x \<in> set xs \<Longrightarrow> plain (interval_reason (snd x))"
  by (fastforce simp: results_plain_def list_all_iff)

lemma estimate_table_ok:
  assumes "estimate_table render m results = Inr t" "results_plain results"
  shows "table_ok t"
proof -
  from assms(1) obtain rows where rows: "nested_rows estimate_row results = Inr rows"
    and t: "length (tb_header t) = 8" "tb_rows t = rows"
    by (auto simp: estimate_table_def ebind_eq_Inr)
  have "list_all (row_ok 8) rs" if "(w, xs) \<in> set results" "x \<in> set xs" "estimate_row w x = Inr rs" for w xs x rs
    using that(3) results_plainD [OF assms(2) that(1,2)]
    by (cases x) (auto simp: estimate_row_def row_ok_def cell_plains ebind_eq_Inr dest!: plain_interval_display)
  then have "list_all (row_ok 8) rows" by (rule nested_rows_all [OF rows])
  then show ?thesis by (simp add: table_ok_def t)
qed

lemma arm_summary_ok: "arm_summary v = Inr cs \<Longrightarrow> length cs = 2 \<and> list_all plain cs"
  using plain_words by (auto simp: arm_summary_def ebind_eq_Inr split: option.splits dest!: plain_display plain_pair_display)

lemma improvement_table_ok:
  assumes "improvement_table results = Inr t"
  shows "table_ok t"
proof -
  from assms obtain rows where rows: "nested_rows improvement_row results = Inr rows"
    and t: "length (tb_header t) = 9" "tb_rows t = rows"
    by (auto simp: improvement_table_def ebind_eq_Inr)
  have "list_all (row_ok 9) rs" if "improvement_row w x = Inr rs" for w x rs
    using that
    by (cases x) (auto simp: improvement_row_def row_ok_def cell_plains ebind_eq_Inr dest!: plain_interval_display arm_summary_ok)
  then have "list_all (row_ok 9) rows" by (intro nested_rows_all [OF rows])
  then show ?thesis by (simp add: table_ok_def t)
qed

lemma date_table_ok:
  assumes "date_table m results = Inr t" "getitem m ''dates'' = Inr (PList dates)" "list_all (plain \<circ> str_of) dates"
  shows "table_ok t"
proof -
  from assms(1) obtain rows where rows: "nested_rows (date_rows m) results = Inr rows"
    and t: "length (tb_header t) = 8" "tb_rows t = rows"
    by (auto simp: date_table_def ebind_eq_Inr)
  have one: "row_ok 8 cs" if "date_row dates w e p = Inr cs" for w e p cs
  proof -
    obtain metric x i n where e: "e = (metric, x)" "p = (i, n)" by (cases e, cases p)
    then have "i < length dates" using that by (auto simp: date_row_def split: if_splits)
    then have "plain (str_of (dates ! i))" using assms(3) by (simp add: list_all_length)
    then show ?thesis
      using that e by (auto simp: date_row_def Let_def row_ok_def cell_plains split: if_splits prod.splits)
  qed
  have "list_all (row_ok 8) rs" if "date_rows m w x = Inr rs" for w x rs
    using that assms(2) by (auto simp: date_rows_def ebind_eq_Inr intro: emap_all one)
  then have "list_all (row_ok 8) rows" by (intro nested_rows_all [OF rows])
  then show ?thesis by (simp add: table_ok_def t)
qed

lemma tables_ok:
  assumes "report_tables render has_arm m an = Inr ts"
    and "rows_plain (an_rows an)" "accounts_plain (an_accounting an)" "results_plain (an_results an)"
    and "getitem m ''dates'' = Inr (PList dates)" "list_all (plain \<circ> str_of) dates"
  shows "list_all table_ok ts"
proof -
  have "rows_plain (failures has_arm (an_rows an))"
    using assms(2) by (auto simp: rows_plain_def failures_def list_all_iff)
  then show ?thesis
    using assms(1,3-) excluded_table_ok
    by (auto simp: report_tables_def Let_def ebind_eq_Inr elim: accounting_table_ok reasons_table_ok failures_table_ok
        retained_table_ok estimate_table_ok improvement_table_ok date_table_ok)
qed

lemma analyze_plain:
  assumes "analyze te ma b m slots = Inr an" "\<forall>s \<in> set slots. set (slot_arms s) \<subseteq> {''baseline'', ''candidate''}"
  shows "rows_plain (an_rows an) \<and> accounts_plain (an_accounting an) \<and> results_plain (an_results an)"
proof -
  from assms(1) obtain rows reasons acc results where
      "collect_rows te b m slots = Inr rows" "accounting m rows = Inr acc" "estimates (te_sha te) ma m rows reasons = Inr results"
      "an_rows an = rows" "an_accounting an = acc" "an_results an = results"
    by (auto simp: analyze_def ebind_eq_Inr)
  then show ?thesis using collect_rows_plain assms(2) accounting_plain estimates_plain by blast
qed

text \<open>
  C31. In the Markdown report of an analysis, every row of every table is one line with exactly the columns
  of its header, whatever the registered names, the reasons and the retained evidence contain.
\<close>

theorem report_tables_rectangular:
  assumes an: "analyze te ma b m slots = Inr an" and ts: "report_tables render has_arm m an = Inr ts"
    and arms: "\<forall>s \<in> set slots. set (slot_arms s) \<subseteq> {''baseline'', ''candidate''}"
    and dates: "getitem m ''dates'' = Inr (PList dates)" "\<forall>d \<in> set dates. bar \<notin> set (str_of d) \<and> newline \<notin> set (str_of d)"
    and t: "t \<in> set ts" "cs \<in> set (tb_rows t)"
  shows "count_list (row_line cs) bar = length (tb_header t) + 1 \<and> newline \<notin> set (row_line cs)"
proof -
  have "list_all (plain \<circ> str_of) dates" using dates(2) by (simp add: plain_def list_all_iff)
  then have "list_all table_ok ts" using tables_ok [OF ts] analyze_plain [OF an arms] dates(1) by blast
  then have "row_ok (length (tb_header t)) cs" using t by (auto simp: table_ok_def list_all_iff)
  then show ?thesis by (rule row_line_ok)
qed

definition sample_descriptive :: pv where
  "sample_descriptive = PDict [(''experiment'', PStr ''E1''), (''phase'', PStr ''pilot''), (''resource_metrics'', PList []),
     (''strata'', PDict [(''a|b'', PList [PInt 1])]), (''dates'', PList [PStr ''2026-10-13''])]"

definition sample_math :: math_env where
  "sample_math = \<lparr>ma_log = \<lambda>_. Fin 0, ma_exp = \<lambda>f. Inr f, ma_fsum = \<lambda>_. Inr (Fin 0)\<rparr>"

definition sample_account :: account where
  "sample_account = \<lparr>ac_classes = [], ac_planned = 0, ac_started = 0, ac_reasons = []\<rparr>"

definition sample_analyzed :: analysis where
  "sample_analyzed = \<lparr>an_rows = [], an_reasons = [],
     an_accounting = [(''a|b'', [(''baseline'', sample_account), (''candidate'', sample_account)])],
     an_results = [(''a|b'', [(''gate_seconds'', no_pairs)])],
     an_decision = \<lparr>de_status = ''descriptive'', de_reasons = [], de_costs = [], de_undefined = [], de_threshold = None\<rparr>\<rparr>"

lemma sample_analysis: "analyze sample_te sample_math [] sample_descriptive [] = Inr sample_analyzed"
  by (simp add: analyze_def collect_rows_def pair_reasons_def block_names_def firsts_def accounting_def arm_account_def tally_def
      estimates_def metric_names_def valid_pairs_def metric_pairs_def estimate_def decide_def published_def sample_descriptive_def
      sample_account_def sample_analyzed_def)

lemma sample_account_row:
  "account_row ''a|b'' (arm, sample_account) = Inr [[''a&#124;b'', arm, ''0'', ''0'', ''0'', ''0'', ''0'', ''0'']]"
proof -
  have "cell ''a|b'' = ''a&#124;b''" by code_simp
  moreover have "show_nat 0 = ''0''" by code_simp
  ultimately show ?thesis by (simp add: account_row_def sample_account_def class_count_def)
qed

lemma sample_tables:
  "\<exists>t ts. report_tables (\<lambda>_. []) (\<lambda>_ _. False) sample_descriptive sample_analyzed = Inr (t # ts) \<and> length (tb_header t) = 8 \<and>
    [''a&#124;b'', ''baseline'', ''0'', ''0'', ''0'', ''0'', ''0'', ''0''] \<in> set (tb_rows t)"
proof -
  let ?acc = "an_accounting sample_analyzed" and ?res = "an_results sample_analyzed"
  have fs: "failures (\<lambda>_ _. False) (an_rows sample_analyzed) = []" by (simp add: failures_def sample_analyzed_def)
  obtain t where t: "accounting_table ?acc = Inr t" "length (tb_header t) = 8"
      "[''a&#124;b'', ''baseline'', ''0'', ''0'', ''0'', ''0'', ''0'', ''0''] \<in> set (tb_rows t)"
    by (simp add: accounting_table_def nested_rows_def sample_analyzed_def sample_account_row)
  have rest: "\<exists>x. reasons_table (\<lambda>_. []) ?acc = Inr x" "\<exists>x. failures_table (\<lambda>_. []) [] = Inr x"
      "\<exists>x. retained_table sample_descriptive [] = Inr x" "\<exists>x. estimate_table (\<lambda>_. []) sample_descriptive ?res = Inr x"
      "\<exists>x. improvement_table ?res = Inr x" "\<exists>x. date_table sample_descriptive ?res = Inr x"
    by (simp_all add: reasons_table_def nested_rows_def reason_rows_def sample_analyzed_def sample_account_def failures_table_def
        retained_table_def estimate_table_def deviation_lines_def estimate_row_def ratio_bounds_def difference_bounds_def no_pairs_def
        interval_display_def improvement_table_def improvement_row_def improvement_bounds_def arm_summary_def date_table_def
        date_rows_def date_row_def sample_descriptive_def)
  then show ?thesis using t by (auto simp: report_tables_def fs Let_def)
qed

lemma report_tables_rectangular_witness:
  "\<exists>h. length (h :: string list) = 8 \<and>
     count_list (row_line [''a&#124;b'', ''baseline'', ''0'', ''0'', ''0'', ''0'', ''0'', ''0'']) bar = length h + 1"
proof -
  obtain t ts where ts: "report_tables (\<lambda>_. []) (\<lambda>_ _. False) sample_descriptive sample_analyzed = Inr (t # ts)"
      "length (tb_header t) = 8" "[''a&#124;b'', ''baseline'', ''0'', ''0'', ''0'', ''0'', ''0'', ''0''] \<in> set (tb_rows t)"
    using sample_tables by blast
  have "getitem sample_descriptive ''dates'' = Inr (PList [PStr ''2026-10-13''])" by (simp add: sample_descriptive_def)
  from report_tables_rectangular [OF sample_analysis ts(1) _ this _ _ ts(3)] ts(2) show ?thesis
    by (auto simp: bar_def newline_def)
qed

end
