(* ===== verification/Dependencies.thy ===== *)
theory Dependencies
  imports Support Evidence
begin

text \<open>
  The dependency checks of the E5 runner, \<open>experiments/control-comparison/runner/support.py\<close>: pinned files,
  prerequisite records, the reviewed fixture revision, the fixture's JAR and the classpath of a baseline.

  What the checks see of the host (files, directories, digests, archive members, JSON documents) is the
  record \<open>host\<close>; an archive is the list of its members' names and content digests in archive order.  A path
  is its text, printed as \<open>pathlib\<close> prints it.  The reviewed contract, which \<open>record_fixture_contract.py\<close>
  generates, is an argument: \<open>inputs\<close> is \<open>FIXTURE_INPUTS\<close> and \<open>libs\<close> is \<open>REFERENCE_BUILD['libraries']\<close>.
\<close>

record host =
  h_cwd :: string
  h_is_file :: "string \<Rightarrow> bool"
  h_is_dir :: "string \<Rightarrow> bool"
  h_digest :: "string \<Rightarrow> string res"
  h_children :: "string \<Rightarrow> string list res"
  h_tree :: "string \<Rightarrow> (string \<times> string) list res"
  h_archive :: "string \<Rightarrow> (string \<times> string) list option"
  h_json :: "string \<Rightarrow> pv res"
  h_text :: "string \<Rightarrow> string res"

section \<open>Paths\<close>

definition lead_of :: "string \<Rightarrow> string" where
  "lead_of s = (if startswith s ''//'' \<and> \<not> startswith s ''///'' then ''//'' else if is_absolute s then ''/'' else [])"

definition path_name :: "string \<Rightarrow> string" where
  "path_name s = (let ps = path_parts s in if ps = [] then [] else last ps)"

definition parent_text :: "string \<Rightarrow> string" where
  "parent_text s = (let body = lead_of s @ path_str (butlast (path_parts s)) in if body = [] then ''.'' else body)"

definition join_text :: "string \<Rightarrow> string \<Rightarrow> string" where
  "join_text cwd name = (if endswith cwd ''/'' then cwd @ name else cwd @ ''/'' @ name)"

text \<open>\<open>str(Path(cwd) / name)\<close>\<close>

definition join_path :: "string \<Rightarrow> string \<Rightarrow> string" where
  "join_path cwd name = path_text (if is_absolute name \<or> cwd = [] then name else join_text cwd name)"

text \<open>\<open>os.path.abspath\<close>: \<open>..\<close> is resolved on the text.\<close>

definition abspath :: "host \<Rightarrow> string \<Rightarrow> string" where
  "abspath h s = (let t = (if is_absolute s then s else join_text (h_cwd h) s);
       ps = foldl (\<lambda>acc c. if c = ''..'' then butlast acc else acc @ [c]) [] (path_parts t) in
     lead_of t @ path_str ps)"

definition jar_suffix :: "string \<Rightarrow> bool" where
  "jar_suffix name = (endswith (map lower_char name) ''.jar'' \<and> 4 < length name)"

text \<open>\<open>value.split('=', 1)\<close>: the part before the first sign, and the last part.\<close>

definition before_sign :: "string \<Rightarrow> string" where
  "before_sign s = takeWhile (\<lambda>c. c \<noteq> CHR ''='') s"

definition after_sign :: "string \<Rightarrow> string" where
  "after_sign s = (if CHR ''='' \<in> set s then tl (dropWhile (\<lambda>c. c \<noteq> CHR ''='') s) else s)"

text \<open>The JAR files of a wildcard's directory.\<close>

definition wildcard_jars :: "host \<Rightarrow> string \<Rightarrow> string list res" where
  "wildcard_jars h dir = ebind (h_children h dir) (\<lambda>names. Inr (map (join_path dir) (sort (filter jar_suffix names))))"

section \<open>Pins\<close>

text \<open>\<open>^[A-Za-z][A-Za-z0-9+.-]*://\<close>\<close>

definition url_like :: "string \<Rightarrow> bool" where
  "url_like s = (s \<noteq> [] \<and> (is_lower (hd s) \<or> is_upper (hd s)) \<and> startswith (dropWhile scheme_char s) ''://'')"

record dependency_rule =
  dr_directory :: bool
  dr_required :: bool
  dr_literal :: bool

definition dependency_files :: "host \<Rightarrow> bool \<Rightarrow> string \<Rightarrow> string list res" where
  "dependency_files h include_directory path =
     (if path_name path = ''*'' \<and> h_is_dir h (parent_text path)
      then ebind (wildcard_jars h (parent_text path)) (\<lambda>js. Inr (filter (h_is_file h) js))
      else if include_directory \<and> h_is_dir h path then ebind (h_tree h path) (\<lambda>fs. Inr (map (\<lambda>(n, d). join_path path n) fs))
      else Inr (if h_is_file h path then [path] else []))"

definition check_name :: "host \<Rightarrow> string list \<Rightarrow> string \<Rightarrow> string \<Rightarrow> dependency_rule \<Rightarrow> string \<Rightarrow> unit res" where
  "check_name h pins label cwd rule name =
     (if name = [] \<or> CHR 0x7B \<in> set name then
        require (\<not> dr_required rule) (label @ '' dependency must be a frozen path'') (Inr ())
      else let path = abspath h (join_path cwd name);
          wildcard = (path_name path = ''*'' \<and> h_is_dir h (parent_text path));
          literal = (dr_literal rule \<and> (is_absolute name \<or> startswith name ''./'' \<or> startswith name ''../'')) in
        ebind (dependency_files h (dr_directory rule) path) (\<lambda>deps.
        require (\<not> (dr_required rule \<or> literal) \<or> h_is_file h path \<or> h_is_dir h path \<or> wildcard)
          (label @ '' dependency missing: '' @ name) (
        require (list_all (\<lambda>p. p \<in> set pins) deps) (label @ '' file dependency is unpinned: '' @ name) (Inr ()))))"

definition check_value :: "host \<Rightarrow> string list \<Rightarrow> string \<Rightarrow> string \<Rightarrow> pv \<times> dependency_rule \<Rightarrow> unit res" where
  "check_value h pins label cwd = (\<lambda>(v, rule).
     require (is_str v \<and> (str_of v \<noteq> [] \<or> \<not> dr_required rule)) (label @ '' dependency path required'') (
     let argument = after_sign (str_of v) in
     if url_like argument \<and> \<not> dr_required rule then Inr ()
     else efor (check_name h pins label cwd rule) (split_on (CHR '':'') argument)))"

definition dependency_values :: "pv list \<Rightarrow> (string \<times> pv) list \<Rightarrow> pv list \<Rightarrow> (pv \<times> dependency_rule) list" where
  "dependency_values argv env inputs =
     map (\<lambda>v. (v, \<lparr>dr_directory = True, dr_required = False, dr_literal = True\<rparr>)) argv @
     map (\<lambda>(k, v). (v, \<lparr>dr_directory = k \<in> {''CLASSPATH'', ''PYTHONPATH''}, dr_required = False,
        dr_literal = k \<notin> {''PATH'', ''HOME'', ''TMPDIR'', ''TMP'', ''TEMP''}\<rparr>)) env @
     map (\<lambda>v. (v, \<lparr>dr_directory = True, dr_required = True, dr_literal = True\<rparr>)) inputs"

definition file_dependencies :: "host \<Rightarrow> pv \<Rightarrow> string list \<Rightarrow> string \<Rightarrow> pv list \<Rightarrow> unit res" where
  "file_dependencies h spec pins label inputs =
     item spec ''argv'' (\<lambda>a. ebind (py_iter a) (\<lambda>argv. item spec ''env'' (\<lambda>e. ebind (py_items e) (\<lambda>env. item spec ''cwd'' (\<lambda>cwd.
     efor (check_value h pins label (str_of cwd)) (dependency_values argv env inputs))))))"

definition cleanup_dependencies :: "host \<Rightarrow> pv \<Rightarrow> string list res" where
  "cleanup_dependencies h manifest = item manifest ''hooks'' (\<lambda>hooks. item hooks ''cleanup'' (\<lambda>hook.
     ebind (pgetn hook ''execution_pins'') (\<lambda>pins. let ps = map str_of (elems_of pins) in
     require (is_list pins \<and> elems_of pins \<noteq> [] \<and> list_all is_str (elems_of pins)) ''cleanup dependency subset required'' (
     erequire (eand (Inr (distinct ps)) (item manifest ''pins'' (\<lambda>all_pins. eand (Inr (set ps \<subseteq> set (keys all_pins)))
         (item hook ''argv'' (\<lambda>a. ebind (py_iter a) (\<lambda>argv. case argv of [] \<Rightarrow> Inl (IndexError ''argv'') | x # _ \<Rightarrow> Inr (str_of x \<in> set ps)))))))
       ''cleanup dependencies must include executable and be pinned'' (
     ebind (file_dependencies h hook ps ''cleanup'' []) (\<lambda>_. Inr ps))))))"

text \<open>\<open>live_pins\<close>, without its call of \<open>measurement_dependencies\<close>.\<close>

definition pins_live :: "host \<Rightarrow> pv \<Rightarrow> unit res" where
  "pins_live h manifest = item manifest ''pins'' (\<lambda>pins. ebind (py_items pins) (efor (\<lambda>(name, expected).
     require (is_absolute name \<and> h_is_file h name) (''missing live pin: '' @ name) (
     ebind (h_digest h name) (\<lambda>d. require (PStr d = expected) (''live pin changed: '' @ name) (Inr ()))))))"

section \<open>Prerequisite records\<close>

definition PREREQUISITES :: "string list" where
  "PREREQUISITES = [''go_acceptance'', ''java_acceptance'', ''paired_acceptance'', ''corpus_acceptance'', ''baseline_feasibility'']"

text \<open>\<open>re.search\<close> of the acceptance line: a positive count, no failure, nothing incomplete.\<close>

definition accepted_at :: "string \<Rightarrow> string \<Rightarrow> bool" where
  "accepted_at target s =
     (let prefix = ''EXTERNAL_SUT_ACCEPTANCE_RESULT target='' @ target @ '' manifest=valid acceptance=complete pass='';
          rest = drop (length prefix) s; count = takeWhile is_digit rest; after = dropWhile is_digit rest;
          tail = '' fail=0 incomplete=0''; stop = drop (length tail) after in
      startswith s prefix \<and> count \<noteq> [] \<and> hd count \<noteq> CHR ''0'' \<and> startswith after tail \<and> (stop = [] \<or> is_space (hd stop)))"

fun accepted_in :: "string \<Rightarrow> string \<Rightarrow> bool" where
  "accepted_in target [] = accepted_at target []"
| "accepted_in target (c # s) = (accepted_at target (c # s) \<or> accepted_in target s)"

text \<open>The file a pinned path stands for; with a retained bundle, the object named by its digest.\<close>

definition pinned :: "host \<Rightarrow> string option \<Rightarrow> pv \<Rightarrow> pv \<Rightarrow> string res" where
  "pinned h archive_dir pins path = ebind (hkey path) (\<lambda>key.
     require (is_str key \<and> has_key pins (str_of key)) (''prerequisite file is unpinned: '' @ str_of key) (
     item pins (str_of key) (\<lambda>expected.
     let actual = (case archive_dir of None \<Rightarrow> path_text (str_of key) | Some r \<Rightarrow> join_path r (str_of expected)) in
     ebind (h_digest h actual) (\<lambda>d. require (PStr d = expected) ''prerequisite bytes differ'' (Inr actual)))))"

definition candidate_ok :: "pv \<Rightarrow> bool res" where
  "candidate_ok manifest = item manifest ''candidate'' (\<lambda>candidate. ebind (pget candidate ''source_revision'' (PStr [])) (\<lambda>revision.
     if \<not> is_str revision then Inl (TypeError ''expected string'')
     else if \<not> hex_string 40 (str_of revision) then Inr False
     else item manifest ''e1_registration'' (\<lambda>reg. ebind (pgetn reg ''source_revision'') (\<lambda>r. Inr (py_eq revision r)))))"

definition argv_names_results :: "pv list \<Rightarrow> pv \<Rightarrow> bool" where
  "argv_names_results argv results =
     (PStr ''--require-complete'' \<in> set argv \<and> list_ex (\<lambda>a. path_name (str_of a) = ''check-external-sut-acceptance.py'') argv \<and>
      count_list argv (PStr ''--results'') = 1 \<and>
      (let i = index_of (PStr ''--results'') argv in i + 1 < length argv \<and> py_eq (argv ! (i + 1)) results))"

definition row_passed :: "pv \<Rightarrow> bool res" where
  "row_passed r = item r ''status'' (\<lambda>status. if status \<noteq> PStr ''pass'' then Inr False
     else item r ''checks'' (\<lambda>checks. if \<not> truthy checks then Inr False
     else ebind (py_values checks) (eall (\<lambda>c. item c ''status'' (\<lambda>x. Inr (x = PStr ''pass''))))))"

definition artifact_ok :: "host \<Rightarrow> string option \<Rightarrow> pv \<Rightarrow> pv \<Rightarrow> pv \<Rightarrow> unit res" where
  "artifact_ok h archive_dir pins results artifact = item artifact ''path'' (\<lambda>path.
     if \<not> (is_str path \<and> is_str results) then Inl (TypeError ''Path'')
     else require (\<not> is_absolute (str_of path) \<and> ''..'' \<notin> set (path_parts (str_of path))) ''prerequisite artifact escapes evidence directory'' (
     ebind (pinned h archive_dir pins (PStr (join_path (parent_text (str_of results)) (str_of path)))) (\<lambda>actual.
     ebind (h_digest h actual) (\<lambda>d. item artifact ''sha256'' (\<lambda>expected.
     require (PStr d = expected) ''prerequisite artifact digest differs'' (Inr ()))))))"

definition acceptance_ok :: "host \<Rightarrow> string option \<Rightarrow> pv \<Rightarrow> pv \<Rightarrow> string \<Rightarrow> pv \<Rightarrow> pv \<Rightarrow> string \<Rightarrow> unit res" where
  "acceptance_ok h archive_dir pins candidate k record_doc command output =
     (let target = takeWhile (\<lambda>c. c \<noteq> CHR ''_'') k in
      item command ''argv'' (\<lambda>a. ebind (py_iter a) (\<lambda>argv. item record_doc ''results'' (\<lambda>results.
      require (argv_names_results argv results) (''prerequisite require-complete command missing: '' @ k) (
      require (accepted_in target output) (''prerequisite acceptance is incomplete: '' @ k) (
      ebind (pinned h archive_dir pins results) (\<lambda>path. ebind (h_json h path) (\<lambda>result.
      ebind (pgetn result ''target'') (\<lambda>t.
      erequire (if t \<noteq> PStr target then Inr False else item result ''run'' (\<lambda>run. item run ''revision'' (\<lambda>revision.
          item candidate ''source_revision'' (\<lambda>source. if \<not> py_eq revision source then Inr False
          else item run ''repetitions'' (\<lambda>n. Inr (is_int n \<and> 20 \<le> int_of_pv n))))))
        (''prerequisite acceptance identity/repetitions differ: '' @ k) (
      item result ''results'' (\<lambda>rows.
      erequire (if \<not> truthy rows then Inr False else ebind (py_values rows) (eall row_passed))
        (''prerequisite acceptance checks incomplete: '' @ k) (
      item result ''run'' (\<lambda>run. item run ''artifacts'' (\<lambda>artifacts.
      require (is_dict artifacts \<and> items_of artifacts \<noteq> []) ''prerequisite original artifacts missing'' (
      efor (artifact_ok h archive_dir pins results) (vals artifacts))))))))))))))))"

definition prerequisite_ok :: "host \<Rightarrow> string option \<Rightarrow> pv \<Rightarrow> string \<Rightarrow> unit res" where
  "prerequisite_ok h archive_dir manifest k =
     item manifest ''candidate'' (\<lambda>candidate. item manifest ''prerequisites'' (\<lambda>records. item records k (\<lambda>path. item manifest ''pins'' (\<lambda>pins.
     ebind (pinned h archive_dir pins path) (\<lambda>p. ebind (h_json h p) (\<lambda>record_doc.
     ebind (pgetn record_doc ''schema'') (\<lambda>schema.
     require (schema = PInt 1 \<and> fld record_doc ''kind'' = PStr k) (''prerequisite completion record required: '' @ k) (
     erequire (if \<not> json_equal (fld record_doc ''candidate'') candidate then Inr False
         else item manifest ''fixture_revision'' (\<lambda>revision. Inr (py_eq (fld record_doc ''fixture_revision'') revision)))
       (''prerequisite candidate/fixture identity differs: '' @ k) (
     item record_doc ''command'' (\<lambda>c. ebind (pinned h archive_dir pins c) (\<lambda>cp. ebind (h_json h cp) (\<lambda>command.
     erequire (eand (succeeded command) (Inr (fld command ''containment_proven'' = PBool True)))
       (''prerequisite command did not complete successfully: '' @ k) (
     item record_doc ''stdout'' (\<lambda>so. ebind (pinned h archive_dir pins so) (\<lambda>sp. ebind (h_text h sp) (\<lambda>output.
     ebind (efor (\<lambda>marker. require (contains output marker) (''prerequisite result marker missing: '' @ marker) (Inr ()))
       (prerequisite_markers k)) (\<lambda>_.
     if k \<in> {''go_acceptance'', ''java_acceptance'', ''paired_acceptance''}
     then acceptance_ok h archive_dir pins candidate k record_doc command output else Inr ())))))))))))))))))"

definition prerequisite_completion :: "host \<Rightarrow> string option \<Rightarrow> pv \<Rightarrow> unit res" where
  "prerequisite_completion h archive_dir manifest = item manifest ''phase'' (\<lambda>phase. if phase \<noteq> PStr ''measurement'' then Inr ()
     else erequire (candidate_ok manifest) ''candidate source revision differs from E1 registration'' (
     item manifest ''prerequisites'' (\<lambda>records. ebind (py_iter records) (\<lambda>ks.
     require (set ks = set (map PStr PREREQUISITES)) ''prerequisite inventory differs'' (
     efor (prerequisite_ok h archive_dir manifest) PREREQUISITES)))))"

section \<open>The reviewed fixture\<close>

definition EXPECTED_DOMAIN_ROWS :: "(string \<times> pv) list" where
  "EXPECTED_DOMAIN_ROWS =
     [(''matching'', PList [PDict [(''project_request_id'', PStr ''42''), (''active_assignment_count'', PStr ''2'')]]),
      (''quota'', PList [PDict [(''account_id'', PStr ''42''), (''capacity'', PStr ''1''), (''remaining'', PStr ''0''), (''accepted_units'', PStr ''2'')]]),
      (''job'', PList [PDict [(''job_id'', PStr ''42''), (''epoch'', PStr ''2''), (''status'', PStr ''DONE''), (''completed_epoch'', PStr ''1'')]])]"

definition domain_expectations :: "pv \<Rightarrow> unit res" where
  "domain_expectations manifest = item manifest ''phase'' (\<lambda>phase. if phase \<noteq> PStr ''measurement'' then Inr () else
     efor (\<lambda>(workload, rows). efor (\<lambda>variant. item manifest ''inputs'' (\<lambda>inputs. item inputs workload (\<lambda>vs. item vs variant (\<lambda>expected.
       ebind (pgetn expected ''expected_domain_rows'') (\<lambda>found.
       require (json_equal found rows) ''domain row expectation differs from protocol'' (Inr ()))))))
       [''vulnerable'', ''fixed'']) EXPECTED_DOMAIN_ROWS)"

text \<open>\<open>v[k] = x\<close>\<close>

definition set_item :: "pv \<Rightarrow> string \<Rightarrow> pv \<Rightarrow> pv res" where
  "set_item v k x = (case v of PDict d \<Rightarrow> Inr (PDict (put k x d)) | _ \<Rightarrow> Inl (TypeError ''item assignment''))"

definition placeholder_of :: "string \<Rightarrow> pv" where
  "placeholder_of k = PStr (''<'' @ map lower_char k @ ''>'')"

definition normalized_fixture_config :: "pv \<Rightarrow> pv res" where
  "normalized_fixture_config config = item config ''Target'' (\<lambda>target.
     ebind (set_item target ''DB'' (PStr ''<mysql-image>'')) (\<lambda>t1.
     item t1 ''Schema'' (\<lambda>schema. ebind (py_iter schema) (\<lambda>ks.
     ebind (set_item t1 ''Schema'' (PDict (map (\<lambda>k. (str_of k, placeholder_of (str_of k))) ks))) (\<lambda>t2.
     item t2 ''SUT'' (\<lambda>sut. ebind (set_item sut ''Variant'' (PStr ''<variant>'')) (\<lambda>s1.
     item s1 ''External'' (\<lambda>external. ebind (set_item external ''Java'' (PStr ''<java>'')) (\<lambda>e1. ebind (set_item e1 ''JAR'' (PStr ''<jar>'')) (\<lambda>e2.
     ebind (set_item s1 ''External'' e2) (\<lambda>s2. ebind (set_item t2 ''SUT'' s2) (\<lambda>t3. set_item config ''Target'' t3))))))))))))"

definition inventory_pv :: "(string \<times> string) list \<Rightarrow> pv" where
  "inventory_pv fs = PDict (map (\<lambda>(n, d). (n, PStr d)) fs)"

definition fixture_revision_inputs :: "host \<Rightarrow> pv \<Rightarrow> string \<Rightarrow> string \<Rightarrow> pv \<Rightarrow> unit res" where
  "fixture_revision_inputs h inputs workload variant expected = item inputs workload (\<lambda>reference. item expected ''config'' (\<lambda>config.
     erequire (ebind (normalized_fixture_config config) (\<lambda>normal. item reference ''config'' (\<lambda>rc. if \<not> json_equal normal rc then Inr False
         else item config ''Target'' (\<lambda>t. item t ''SUT'' (\<lambda>s. item s ''Variant'' (\<lambda>v. Inr (v = PStr variant)))))))
       ''fixture config differs from reviewed revision'' (
     item config ''Target'' (\<lambda>t. item t ''Schema'' (\<lambda>schema.
     erequire (item schema ''Migrations'' (\<lambda>dir. if \<not> h_is_dir h (path_text (str_of dir)) then Inr False
         else ebind (h_tree h (path_text (str_of dir))) (\<lambda>fs. item reference ''migrations'' (\<lambda>ms. Inr (py_eq (inventory_pv fs) ms)))))
       ''fixture migrations differ from reviewed revision'' (
     item schema ''Seed'' (\<lambda>seed. ebind (h_digest h (path_text (str_of seed))) (\<lambda>d. item reference ''seed_sha256'' (\<lambda>rd.
     require (PStr d = rd) ''fixture seed differs from reviewed revision'' (
     item expected ''business_classes'' (\<lambda>bc. item reference ''business_classes'' (\<lambda>rb.
     require (py_eq bc rb) ''fixture business classes differ from reviewed revision'' (Inr ()))))))))))))) "

section \<open>Class identity\<close>

definition BUSINESS_PREFIX :: string where "BUSINESS_PREFIX = ''io/github/weavegate/fixture/''"
definition SDK_PREFIX :: string where "SDK_PREFIX = ''io/github/weavegate/sdk/''"

definition LAUNCHER_CLASSES :: "string list" where
  "LAUNCHER_CLASSES = [''io/github/weavegate/experiment/BaselineMain.class'', ''io/github/weavegate/experiment/BaselineMain$Command.class'']"

definition sdk_name :: "string \<Rightarrow> bool" where
  "sdk_name n = (startswith n ''weavegate-spring-'' \<and> endswith n ''.jar'')"

definition library_identity :: "pv \<Rightarrow> (string \<times> string) list \<Rightarrow> pv \<Rightarrow> string \<Rightarrow> string \<Rightarrow> unit res" where
  "library_identity libs libraries expected workload label = item expected ''sdk_sha256'' (\<lambda>sdk.
     require (py_eq (PList (map (\<lambda>(n, d). PStr d) (filter (\<lambda>(n, d). sdk_name n) libraries))) (PList [sdk]))
       (label @ '' SDK library identity differs'') (
     item libs workload (\<lambda>reference. ebind (py_items reference) (\<lambda>rs.
     require (py_eq (inventory_pv (filter (\<lambda>(n, d). \<not> sdk_name n) libraries)) (PDict (filter (\<lambda>(n, d). \<not> sdk_name n) rs)))
       (label @ '' libraries differ from reference build'') (Inr ())))))"

text \<open>The members below a prefix with the prefix removed.\<close>

definition below_prefix :: "string \<Rightarrow> (string \<times> string) list \<Rightarrow> (string \<times> string) list" where
  "below_prefix prefix ms = map (\<lambda>(n, d). (drop (length prefix) n, d)) (filter (\<lambda>(n, d). startswith n prefix) ms)"

definition fixture_identity :: "host \<Rightarrow> pv \<Rightarrow> pv \<Rightarrow> string \<Rightarrow> unit res" where
  "fixture_identity h libs expected workload =
     item expected ''config'' (\<lambda>c. item c ''Target'' (\<lambda>t. item t ''SUT'' (\<lambda>s. item s ''External'' (\<lambda>e. item e ''JAR'' (\<lambda>jar.
     ebind (h_digest h (str_of jar)) (\<lambda>d. item expected ''jar_sha256'' (\<lambda>jd.
     require (PStr d = jd) ''fixture JAR identity differs'' (
     case h_archive h (str_of jar) of None \<Rightarrow> Inl (ValueError ''File is not a zip file'')
     | Some ms \<Rightarrow>
       require (distinct (map fst ms)) ''duplicate fixture JAR entries'' (
       let classes = below_prefix ''BOOT-INF/classes/'' ms;
           business = filter (\<lambda>(n, d). startswith n BUSINESS_PREFIX \<and> endswith n ''.class'') classes in
       erequire (if business = [] then Inr False else item expected ''business_classes'' (\<lambda>bc. Inr (py_eq (inventory_pv business) bc)))
         ''fixture business-class identity differs'' (
       item expected ''business_classes'' (\<lambda>bc.
       require (set (map fst (filter (\<lambda>(n, d). \<not> endswith n ''/'') classes)) = set (keys bc)) ''fixture classpath contains unreviewed entries'' (
       let sdk = filter (\<lambda>(n, d). startswith n ''BOOT-INF/lib/weavegate-spring-'' \<and> endswith n ''.jar'') ms in
       erequire (case sdk of [(n, x)] \<Rightarrow> item expected ''sdk_sha256'' (\<lambda>sd. Inr (PStr x = sd)) | _ \<Rightarrow> Inr False)
         ''fixture SDK identity differs'' (
       library_identity libs (filter (\<lambda>(n, d). n \<noteq> [] \<and> \<not> endswith n ''/'') (below_prefix ''BOOT-INF/lib/'' ms)) expected workload ''fixture'')))))))))))))"

section \<open>The classpath of a baseline\<close>

definition classpath_entry :: "host \<Rightarrow> string \<Rightarrow> string \<Rightarrow> string list res" where
  "classpath_entry h cwd name =
     require (name \<noteq> [] \<and> CHR 0x7B \<notin> set name) ''classpath must use frozen paths'' (
     let path = join_path cwd name in
     if path_name path = ''*'' then
       require (h_is_dir h (parent_text path)) ''classpath wildcard directory missing'' (wildcard_jars h (parent_text path))
     else Inr [path])"

definition classpath_paths :: "host \<Rightarrow> pv \<Rightarrow> string list res" where
  "classpath_paths h command = item command ''argv'' (\<lambda>a. ebind (py_iter a) (\<lambda>argv.
     ebind (option_values ''classpath'' ''classpath value required'' (map str_of argv)) (\<lambda>given.
     require (length given = 1 \<and> hd given \<noteq> []) ''one explicit baseline classpath required'' (
     item command ''cwd'' (\<lambda>cwd. ebind (emap (classpath_entry h (str_of cwd)) (split_on (CHR '':'') (hd given))) (\<lambda>pss.
     Inr (concat pss)))))))"

record classpath_state =
  cp_classes :: "(string \<times> string) list"
  cp_sdk :: "string list"
  cp_libraries :: "(string \<times> string) list"
  cp_directory :: "string list"

text \<open>One file below a classpath directory: it must be a reviewed class or a launcher class, once.\<close>

definition scan_file :: "pv \<Rightarrow> string \<times> string \<Rightarrow> string list \<times> (string \<times> string) list \<Rightarrow> (string list \<times> (string \<times> string) list) res" where
  "scan_file expected = (\<lambda>(name, d) (seen, selected). item expected ''business_classes'' (\<lambda>bc. ebind (py_in name bc) (\<lambda>reviewed.
     require (reviewed \<or> name \<in> set LAUNCHER_CLASSES) (''classpath entry outside reviewed fixture/launcher: '' @ name) (
     require (name \<notin> set seen) (''duplicate classpath entry: '' @ name) (
     Inr (seen @ [name], if reviewed then put name d selected else selected))))))"

definition protected_class :: "string \<Rightarrow> bool" where
  "protected_class n = (endswith n ''.class'' \<and> (contains n BUSINESS_PREFIX \<or> contains n SDK_PREFIX))"

definition scan_member :: "string \<times> string \<Rightarrow> (string \<times> string) list \<Rightarrow> (string \<times> string) list res" where
  "scan_member = (\<lambda>(name, d) selected. if \<not> protected_class name then Inr selected else
     require (startswith name BUSINESS_PREFIX \<or> startswith name SDK_PREFIX) ''versioned/nested identity class in classpath'' (
     require (name \<notin> set (map fst selected)) (''duplicate classpath identity class: '' @ name) (
     Inr (put name d selected))))"

definition scan_directory :: "host \<Rightarrow> pv \<Rightarrow> string \<Rightarrow> classpath_state \<Rightarrow> (classpath_state \<times> (string \<times> string) list) res" where
  "scan_directory h expected path st = ebind (h_tree h path) (\<lambda>fs.
     ebind (efold (scan_file expected) fs (cp_directory st, [])) (\<lambda>(seen, selected). Inr (st\<lparr>cp_directory := seen\<rparr>, selected)))"

definition scan_archive :: "host \<Rightarrow> string \<Rightarrow> classpath_state \<Rightarrow> (classpath_state \<times> (string \<times> string) list) res" where
  "scan_archive h path st = (case (if h_is_file h path then h_archive h path else None) of
     None \<Rightarrow> Inl (ValueError (''classpath JAR missing/invalid: '' @ path))
   | Some ms \<Rightarrow>
       require (path_name path \<notin> set (map fst (cp_libraries st))) (''duplicate classpath library: '' @ path_name path) (
       ebind (h_digest h path) (\<lambda>d. ebind (efold scan_member ms []) (\<lambda>selected.
       Inr (st\<lparr>cp_libraries := put (path_name path) d (cp_libraries st)\<rparr>, selected)))))"

text \<open>\<open>classes.update(selected)\<close>\<close>

definition dict_update :: "(string \<times> 'a) list \<Rightarrow> (string \<times> 'a) list \<Rightarrow> (string \<times> 'a) list" where
  "dict_update d e = foldl (\<lambda>d (k, v). put k v d) d e"

definition scan_path :: "host \<Rightarrow> pv \<Rightarrow> string \<Rightarrow> classpath_state \<Rightarrow> classpath_state res" where
  "scan_path h expected path st0 = ebind (if h_is_dir h path then scan_directory h expected path st0 else scan_archive h path st0) (\<lambda>(st, selected).
     require (set (map fst (cp_classes st)) \<inter> set (map fst selected) = {}) ''duplicate business/SDK class in classpath'' (
     let st1 = st\<lparr>cp_classes := dict_update (cp_classes st) selected\<rparr> in
     if list_ex (\<lambda>(n, d). startswith n SDK_PREFIX) selected then
       require (h_is_file h path) ''SDK must use the registered JAR'' (
       ebind (h_digest h path) (\<lambda>d. Inr (st1\<lparr>cp_sdk := cp_sdk st @ [d]\<rparr>)))
     else Inr st1))"

definition no_classes :: classpath_state where
  "no_classes = \<lparr>cp_classes = [], cp_sdk = [], cp_libraries = [], cp_directory = []\<rparr>"

definition business_of :: "(string \<times> string) list \<Rightarrow> (string \<times> string) list" where
  "business_of cs = filter (\<lambda>(n, d). startswith n BUSINESS_PREFIX) cs"

definition classpath_identity :: "host \<Rightarrow> pv \<Rightarrow> pv \<Rightarrow> pv \<Rightarrow> string \<Rightarrow> unit res" where
  "classpath_identity h libs command expected workload = ebind (classpath_paths h command) (\<lambda>paths.
     ebind (efold (scan_path h expected) paths no_classes) (\<lambda>st.
     item expected ''business_classes'' (\<lambda>bc.
     require (py_eq (inventory_pv (business_of (cp_classes st))) bc \<and> truthy bc) ''classpath business-class identity differs'' (
     item expected ''sdk_sha256'' (\<lambda>sdk.
     require (py_eq (PList (map PStr (cp_sdk st))) (PList [sdk])) ''classpath SDK identity differs'' (
     library_identity libs (cp_libraries st) expected workload ''classpath''))))))"

section \<open>All dependencies of a measurement\<close>

definition arm_dependencies :: "host \<Rightarrow> pv \<Rightarrow> pv \<Rightarrow> string \<Rightarrow> string \<Rightarrow> pv \<Rightarrow> pv list \<Rightarrow> string \<times> pv \<Rightarrow> unit res" where
  "arm_dependencies h libs manifest workload variant expected inputs = (\<lambda>(arm, command).
     item command ''argv'' (\<lambda>a. ebind (py_iter a) (\<lambda>argv. let args = map str_of argv in
     ebind (command_output args) (\<lambda>_.
     item manifest ''pins'' (\<lambda>pins.
     ebind (file_dependencies h command (keys pins) (workload @ ''/'' @ variant @ ''/'' @ arm) inputs) (\<lambda>_.
     item command ''cwd'' (\<lambda>cwd.
     ebind (command_config (\<lambda>p. h_json h (path_text p)) (str_of cwd) args expected) (\<lambda>_.
     if \<not> startswith arm ''B'' then Inr ()
     else require (\<not> list_ex (\<lambda>s. before_sign s \<in> {''--java'', ''-java'', ''--jar'', ''-jar'', ''--image'', ''-image''}) args)
         ''baseline runtime override is unsupported'' (
       classpath_identity h libs command expected workload)))))))))"

definition variant_dependencies :: "host \<Rightarrow> pv \<Rightarrow> pv \<Rightarrow> pv \<Rightarrow> string \<Rightarrow> string \<times> pv \<Rightarrow> unit res" where
  "variant_dependencies h inputs libs manifest workload = (\<lambda>(variant, commands).
     item manifest ''inputs'' (\<lambda>all_inputs. item all_inputs workload (\<lambda>vs. item vs variant (\<lambda>expected.
     item expected ''config'' (\<lambda>config. item config ''Target'' (\<lambda>target.
     ebind (pgetn target ''DB'') (\<lambda>db. item manifest ''environment'' (\<lambda>env. item env ''mysql_image'' (\<lambda>image.
     require (py_eq db image) ''effective config image differs from registered MySQL image'' (
     item target ''SUT'' (\<lambda>sut. item sut ''External'' (\<lambda>external. item target ''Schema'' (\<lambda>schema.
     item external ''Java'' (\<lambda>java. item external ''JAR'' (\<lambda>jar. item schema ''Migrations'' (\<lambda>migrations. item schema ''Seed'' (\<lambda>seed.
     ebind (py_items commands) (\<lambda>cs.
     ebind (efor (arm_dependencies h libs manifest workload variant expected [java, jar, migrations, seed]) cs) (\<lambda>_.
     ebind (fixture_identity h libs expected workload) (\<lambda>_.
     fixture_revision_inputs h inputs workload variant expected))))))))))))))))))))"

definition measurement_dependencies :: "host \<Rightarrow> pv \<Rightarrow> pv \<Rightarrow> pv \<Rightarrow> unit res" where
  "measurement_dependencies h inputs libs manifest = ebind (prerequisite_completion h None manifest) (\<lambda>_.
     item manifest ''commands'' (\<lambda>commands. ebind (py_items commands) (\<lambda>ws.
     ebind (efor (\<lambda>(workload, variants). ebind (py_items variants) (efor (variant_dependencies h inputs libs manifest workload))) ws) (\<lambda>_.
     item manifest ''hooks'' (\<lambda>hooks. ebind (py_items hooks) (efor (\<lambda>(name, hook).
       item manifest ''pins'' (\<lambda>pins. file_dependencies h hook (keys pins) name []))))))))"

definition live_pins :: "host \<Rightarrow> pv \<Rightarrow> pv \<Rightarrow> pv \<Rightarrow> unit res" where
  "live_pins h inputs libs manifest = ebind (pins_live h manifest) (\<lambda>_.
     ebind (pgetn manifest ''phase'') (\<lambda>phase.
     if phase = PStr ''measurement'' then measurement_dependencies h inputs libs manifest else Inr ()))"

text \<open>\<open>execution_directories\<close>: the directories that the commands, hooks and inputs name.\<close>

definition spec_directories :: "host \<Rightarrow> pv \<Rightarrow> string list res" where
  "spec_directories h spec = item spec ''argv'' (\<lambda>a. ebind (py_iter a) (\<lambda>argv. item spec ''env'' (\<lambda>e. ebind (py_items e) (\<lambda>env. item spec ''cwd'' (\<lambda>cwd.
     let given = argv @ map snd (filter (\<lambda>(k, v). k \<in> {''CLASSPATH'', ''PYTHONPATH''}) env);
         arguments = filter (\<lambda>s. \<not> contains s ''://'') (map (after_sign \<circ> str_of) given);
         names = filter (\<lambda>n. n \<noteq> [] \<and> CHR 0x7B \<notin> set n) (concat (map (split_on (CHR '':'')) arguments));
         paths = map (\<lambda>n. let p = abspath h (join_path (str_of cwd) n) in if path_name p = ''*'' then parent_text p else p) names in
     Inr (filter (h_is_dir h) paths))))))"

definition command_specs :: "pv \<Rightarrow> pv list res" where
  "command_specs manifest = ebind (pget manifest ''hooks'' (PDict [])) (\<lambda>hooks. ebind (py_values hooks) (\<lambda>hs.
     ebind (pget manifest ''commands'' (PDict [])) (\<lambda>cs. ebind (py_values cs) (\<lambda>ws.
     ebind (emap (\<lambda>variants. ebind (py_values variants) (\<lambda>vs. ebind (emap py_values vs) (\<lambda>xss. Inr (concat xss)))) ws) (\<lambda>css.
     Inr (hs @ concat css))))))"

definition migration_directories :: "pv \<Rightarrow> string list res" where
  "migration_directories manifest = ebind (pget manifest ''inputs'' (PDict [])) (\<lambda>inputs. ebind (py_values inputs) (\<lambda>ws.
     ebind (emap py_values ws) (\<lambda>xss.
     ebind (emap (\<lambda>expected. item expected ''config'' (\<lambda>config. item config ''Target'' (\<lambda>target.
       ebind (pget target ''Schema'' (PDict [])) (\<lambda>schema. pgetn schema ''Migrations'')))) (concat xss)) (\<lambda>paths.
     Inr (map str_of (filter truthy paths))))))"

definition execution_directories :: "host \<Rightarrow> pv \<Rightarrow> string list res" where
  "execution_directories h manifest = ebind (command_specs manifest) (\<lambda>specs.
     ebind (emap (spec_directories h) specs) (\<lambda>dss. ebind (migration_directories manifest) (\<lambda>ms.
     Inr (sort (remdups (concat dss @ ms))))))"

section \<open>What an accepted classpath contains\<close>

lemma put_new: "k \<notin> set (map fst d) \<Longrightarrow> put k v d = d @ [(k, v)]"
  by (induction k v d rule: put.induct) auto

lemma dict_update_append:
  "distinct (map fst e) \<Longrightarrow> set (map fst d) \<inter> set (map fst e) = {} \<Longrightarrow> dict_update d e = d @ e"
proof (induction e arbitrary: d)
  case (Cons x e)
  obtain k v where x: "x = (k, v)" by (cases x)
  then have "put k v d = d @ [(k, v)]" using Cons.prems by (intro put_new) auto
  then show ?case using Cons.IH [of "d @ [x]"] Cons.prems x by (auto simp: dict_update_def)
qed (simp add: dict_update_def)

text \<open>The classes that one place of the classpath provides.\<close>

definition provided :: "host \<Rightarrow> pv \<Rightarrow> string \<Rightarrow> (string \<times> string) list" where
  "provided h bc p =
     (if h_is_dir h p then (case h_tree h p of Inr fs \<Rightarrow> filter (\<lambda>(n, d). py_in n bc = Inr True) fs | Inl e \<Rightarrow> [])
      else (case h_archive h p of Some ms \<Rightarrow> filter (\<lambda>(n, d). protected_class n) ms | None \<Rightarrow> []))"

definition unique_keys :: "(string \<times> 'a) list \<Rightarrow> bool" where
  "unique_keys xs = distinct (map fst xs)"

lemma scan_files:
  assumes "efold (scan_file expected) fs (seen, sel) = Inr (seen', sel')" "getitem expected ''business_classes'' = Inr bc"
    and "set (map fst sel) \<subseteq> set seen" "unique_keys sel"
  shows "sel' = sel @ filter (\<lambda>(n, d). py_in n bc = Inr True) fs \<and> unique_keys sel'"
  using assms
proof (induction fs arbitrary: seen sel)
  case (Cons x fs)
  obtain n d where x: "x = (n, d)" by (cases x)
  from Cons.prems(1,2) x obtain r where r: "py_in n bc = Inr r" "n \<notin> set seen"
    and rest: "efold (scan_file expected) fs (seen @ [n], if r then put n d sel else sel) = Inr (seen', sel')"
    by (auto simp: scan_file_def ebind_eq_Inr)
  have new: "n \<notin> set (map fst sel)" using r(2) Cons.prems(3) by blast
  then have p: "put n d sel = sel @ [(n, d)]" by (rule put_new)
  have "set (map fst (if r then put n d sel else sel)) \<subseteq> set (seen @ [n])"
    "unique_keys (if r then put n d sel else sel)"
    using Cons.prems(3,4) new p by (auto simp: unique_keys_def)
  note IH = Cons.IH [OF rest Cons.prems(2) this]
  have "sel' = sel @ filter (\<lambda>(n, d). py_in n bc = Inr True) (x # fs)" using conjunct1 [OF IH] x r p by simp
  then show ?case using conjunct2 [OF IH] by blast
qed simp

lemma scan_members:
  assumes "efold scan_member ms sel = Inr sel'" "unique_keys sel"
  shows "sel' = sel @ filter (\<lambda>(n, d). protected_class n) ms \<and> unique_keys sel'"
  using assms
proof (induction ms arbitrary: sel)
  case (Cons x ms)
  obtain n d where x: "x = (n, d)" by (cases x)
  show ?case
  proof (cases "protected_class n")
    case True
    then have new: "n \<notin> set (map fst sel)" and rest: "efold scan_member ms (put n d sel) = Inr sel'"
      using Cons.prems(1) x by (auto simp: scan_member_def ebind_eq_Inr)
    then have p: "put n d sel = sel @ [(n, d)]" by (intro put_new)
    then have "unique_keys (put n d sel)" using new Cons.prems(2) by (auto simp: unique_keys_def)
    note IH = Cons.IH [OF rest this]
    have "sel' = sel @ filter (\<lambda>(n, d). protected_class n) (x # ms)" using conjunct1 [OF IH] x True p by simp
    then show ?thesis using conjunct2 [OF IH] by blast
  next
    case False
    then have "efold scan_member ms sel = Inr sel'" using Cons.prems(1) x by (simp add: scan_member_def)
    from Cons.IH [OF this Cons.prems(2)] show ?thesis using x False by auto
  qed
qed simp

definition gives_sdk :: "host \<Rightarrow> pv \<Rightarrow> string \<Rightarrow> bool" where
  "gives_sdk h bc p = list_ex (\<lambda>(n, d). startswith n SDK_PREFIX) (provided h bc p)"

lemma scan_path_effect:
  assumes "scan_path h expected p st = Inr st'" "getitem expected ''business_classes'' = Inr bc"
    and "unique_keys (cp_classes st)"
  shows "cp_classes st' = cp_classes st @ provided h bc p \<and> unique_keys (cp_classes st') \<and>
    map Inr (cp_sdk st') = map Inr (cp_sdk st) @ (if gives_sdk h bc p then [h_digest h p] else []) \<and>
    (gives_sdk h bc p \<longrightarrow> h_is_file h p)"
proof -
  from assms(1) obtain st1 selected where
      scan: "(if h_is_dir h p then scan_directory h expected p st else scan_archive h p st) = Inr (st1, selected)"
      and disj: "set (map fst (cp_classes st1)) \<inter> set (map fst selected) = {}"
      and fin: "(let st2 = st1\<lparr>cp_classes := dict_update (cp_classes st1) selected\<rparr> in
        if list_ex (\<lambda>(n, d). startswith n SDK_PREFIX) selected then
          require (h_is_file h p) ''SDK must use the registered JAR'' (
          ebind (h_digest h p) (\<lambda>d. Inr (st2\<lparr>cp_sdk := cp_sdk st1 @ [d]\<rparr>)))
        else Inr st2) = Inr st'"
    by (auto simp: scan_path_def ebind_eq_Inr)
  have sel: "selected = provided h bc p \<and> unique_keys selected \<and> cp_classes st1 = cp_classes st \<and> cp_sdk st1 = cp_sdk st"
  proof (cases "h_is_dir h p")
    case True
    with scan obtain fs seen where "h_tree h p = Inr fs" "efold (scan_file expected) fs (cp_directory st, []) = Inr (seen, selected)"
        "st1 = st\<lparr>cp_directory := seen\<rparr>"
      by (auto simp: scan_directory_def ebind_eq_Inr)
    then show ?thesis using scan_files [OF _ assms(2), of fs "cp_directory st" "[]" seen selected] True by (auto simp: provided_def unique_keys_def [of "[]"])
  next
    case False
    with scan obtain ms d where "h_archive h p = Some ms" "efold scan_member ms [] = Inr selected"
        "st1 = st\<lparr>cp_libraries := put (path_name p) d (cp_libraries st)\<rparr>"
      by (auto simp: scan_archive_def ebind_eq_Inr split: option.splits if_splits)
    then show ?thesis using scan_members [of ms "[]" selected] False by (auto simp: provided_def unique_keys_def [of "[]"])
  qed
  then have "dict_update (cp_classes st1) selected = cp_classes st @ selected"
    using disj by (intro dict_update_append [THEN trans]) (auto simp: unique_keys_def)
  then show ?thesis
    using sel fin disj assms(3) by (auto simp: gives_sdk_def unique_keys_def Let_def ebind_eq_Inr split: if_splits)
qed

lemma scan_paths_effect:
  assumes "efold (scan_path h expected) ps st = Inr st'" "getitem expected ''business_classes'' = Inr bc"
    and "unique_keys (cp_classes st)"
  shows "cp_classes st' = cp_classes st @ concat (map (provided h bc) ps) \<and> unique_keys (cp_classes st') \<and>
    map Inr (cp_sdk st') = map Inr (cp_sdk st) @ map (h_digest h) (filter (gives_sdk h bc) ps) \<and>
    (\<forall>p \<in> set ps. gives_sdk h bc p \<longrightarrow> h_is_file h p)"
  using assms
proof (induction ps arbitrary: st)
  case (Cons p ps)
  from Cons.prems(1) obtain st1 where st1: "scan_path h expected p st = Inr st1" "efold (scan_path h expected) ps st1 = Inr st'"
    by (auto simp: ebind_eq_Inr)
  note one = scan_path_effect [OF st1(1) Cons.prems(2,3)]
  from Cons.IH [OF st1(2) Cons.prems(2)] one show ?case by auto
qed simp

lemma map_of_filter_fst: "map_of (filter (\<lambda>(n, d). P n) xs) n = (if P n then map_of xs n else None)"
  by (induction xs) auto

lemma inventory_map_of: "map_of (map (\<lambda>(n, d). (n, PStr d)) fs) n = map_option PStr (map_of fs n)"
  by (induction fs) auto

lemma py_eq_inventory:
  assumes "py_eq (inventory_pv fs) bc" "distinct (map fst fs)"
  shows "is_dict bc \<and> map_of (items_of bc) n = map_option PStr (map_of fs n)"
proof -
  from assms(1) obtain e where e: "bc = PDict e" "set (map fst fs) = set (map fst e)"
    and items: "py_eq_items (map (\<lambda>(n, d). (n, PStr d)) fs) e"
    by (cases bc) (auto simp: inventory_pv_def split_beta image_image)
  have "map_of e n = map_option PStr (map_of fs n)"
  proof (cases "map_of fs n")
    case None
    then have "n \<notin> set (map fst e)" unfolding map_of_eq_None_iff e(2) [symmetric] by simp
    then have "map_of e n = None" unfolding map_of_eq_None_iff by simp
    then show ?thesis using None by simp
  next
    case (Some d)
    then have "(n, PStr d) \<in> set (map (\<lambda>(n, d). (n, PStr d)) fs)" by (auto dest: map_of_SomeD)
    then show ?thesis using items Some by (auto simp: py_eq_items_conv)
  qed
  then show ?thesis by (simp add: e)
qed


text \<open>A baseline with a reviewed class directory and the SDK's JAR.\<close>

definition sample_host :: host where
  "sample_host = \<lparr>h_cwd = ''/'', h_is_file = (\<lambda>p. p = ''/weavegate-spring-1.jar''), h_is_dir = (\<lambda>p. p = ''/c''),
     h_digest = (\<lambda>p. Inr ''s''), h_children = (\<lambda>p. Inr []), h_tree = (\<lambda>p. Inr [(BUSINESS_PREFIX @ ''A.class'', ''a'')]),
     h_archive = (\<lambda>p. Some [(SDK_PREFIX @ ''S.class'', ''x''), (''META-INF/M'', ''m'')]),
     h_json = (\<lambda>p. Inl (OSError p)), h_text = (\<lambda>p. Inl (OSError p))\<rparr>"

definition sample_baseline :: pv where
  "sample_baseline = PDict [(''argv'', PList [PStr ''/java'', PStr ''-classpath'', PStr ''c:/weavegate-spring-1.jar'']), (''cwd'', PStr ''/'')]"

definition sample_expected :: pv where
  "sample_expected = PDict [(''business_classes'', PDict [(BUSINESS_PREFIX @ ''A.class'', PStr ''a'')]), (''sdk_sha256'', PStr ''s'')]"

lemma sample_classpath:
  "classpath_identity sample_host (PDict [(''quota'', PDict [])]) sample_baseline sample_expected ''quota'' = Inr ()"
  by code_simp


end
