(* ===== verification/Release.thy ===== *)
theory Release
  imports PyValue
begin

text \<open>
  The release of the Java SDK, the local half of \<open>scripts/java-central.py\<close>: the version written into the POM, the
  signed bundle and its verification.

  An archive is the list of its members' names and contents, in archive order.  The readers of archives and
  XML, the digests, \<open>gpg\<close> and the text of lists are the record \<open>tools\<close>.  The lemmas show that setting the
  version changes the version and nothing else, and that a built bundle is one that verification accepts.
\<close>

section \<open>The version\<close>

definition GROUP :: string where "GROUP = ''io.github.weavegate''"
definition ARTIFACT :: string where "ARTIFACT = ''weavegate-spring''"
definition SNAPSHOT :: string where "SNAPSHOT = ''0.0.0-SNAPSHOT''"

definition digits :: "string \<Rightarrow> bool" where
  "digits s = (s \<noteq> [] \<and> list_all is_digit s)"

definition version_char :: "char \<Rightarrow> bool" where
  "version_char c = (is_alnum c \<or> c = CHR ''.'' \<or> c = CHR ''-'')"

definition version_re :: "string \<Rightarrow> bool" where
  "version_re s =
     ((case split_on (CHR ''.'') (takeWhile (\<lambda>c. c \<noteq> CHR ''-'') s) of
         [a, b, c] \<Rightarrow> digits a \<and> digits b \<and> digits c | _ \<Rightarrow> False) \<and>
      (case dropWhile (\<lambda>c. c \<noteq> CHR ''-'') s of [] \<Rightarrow> True | [_] \<Rightarrow> False
         | _ # c # cs \<Rightarrow> is_alnum c \<and> list_all version_char cs))"

definition version :: "string \<Rightarrow> unit res" where
  "version s =
     require (version_re s) (''invalid release version: '' @ s) (
     require (\<not> endswith s ''-SNAPSHOT'') ''snapshot versions cannot be published'' (Inr ()))"

text \<open>The project's own version in the text of the POM: \<open>group_tag\<close>, blanks, \<open>artifact_tag\<close>, blanks and
  \<open><version>\<close>, then the version.  \<open>project_version\<close> matches at the head of a text and gives the length of
  what precedes the version, and the version.\<close>

definition group_tag :: string where "group_tag = ''<groupId>'' @ GROUP @ ''</groupId>''"
definition artifact_tag :: string where "artifact_tag = ''<artifactId>'' @ ARTIFACT @ ''</artifactId>''"

definition after_tag :: "string \<Rightarrow> string \<Rightarrow> string option" where
  "after_tag tag s = (if startswith s tag then Some (drop (length tag) s) else None)"

definition version_start :: "string \<Rightarrow> string option" where
  "version_start s = (case after_tag group_tag s of None \<Rightarrow> None | Some s1 \<Rightarrow>
     (case after_tag artifact_tag (dropWhile is_space s1) of None \<Rightarrow> None | Some s2 \<Rightarrow>
       after_tag ''<version>'' (dropWhile is_space s2)))"

definition project_version :: "string \<Rightarrow> (nat \<times> string) option" where
  "project_version s = (case version_start s of None \<Rightarrow> None | Some r \<Rightarrow>
     let v = takeWhile (\<lambda>c. c \<noteq> CHR ''<'') r in
     if v \<noteq> [] \<and> startswith (drop (length v) r) ''</version>'' then Some (length s - length r, v) else None)"

text \<open>\<open>pattern.finditer\<close>: each match's start of the version and the version; \<open>match_length\<close> is \<open>end() - start()\<close>.\<close>

definition match_length :: "nat \<Rightarrow> string \<Rightarrow> nat" where
  "match_length k v = k + length v + length ''</version>''"

function versions_from :: "nat \<Rightarrow> string \<Rightarrow> (nat \<times> string) list" where
  "versions_from pos [] = []"
| "versions_from pos (c # s) = (case project_version (c # s) of
       Some (k, v) \<Rightarrow> (let n = match_length k v in
         (pos + k, v) # versions_from (pos + n) (drop n (c # s)))
     | None \<Rightarrow> versions_from (Suc pos) s)"
  by pat_completeness auto
termination by (relation "measure (length \<circ> snd)") (auto simp: match_length_def)

definition set_version :: "string \<Rightarrow> string \<Rightarrow> string res" where
  "set_version source target = ebind (version target) (\<lambda>_. (case versions_from 0 source of
       [(k, old)] \<Rightarrow>
         require (old = SNAPSHOT \<or> old = target) (''unexpected project version: '' @ old)
           (Inr (take k source @ target @ drop (k + length old) source))
     | _ \<Rightarrow> Inl (ValueError ''expected exactly one weavegate-spring project version'')))"

section \<open>XML metadata\<close>

text \<open>An element of the POM: its tag, the text before its first child, its children.\<close>

datatype xml = Elem (xml_tag: string) (xml_text: "string option") (xml_children: "xml list")

definition NS :: "string \<Rightarrow> string" where
  "NS name = ''{http://maven.apache.org/POM/4.0.0}'' @ name"

fun find_all :: "string list \<Rightarrow> xml list \<Rightarrow> xml list" where
  "find_all [] es = es"
| "find_all (name # path) es = find_all path (concat (map (\<lambda>e. filter (\<lambda>c. xml_tag c = NS name) (xml_children e)) es))"

definition findtext :: "xml \<Rightarrow> string list \<Rightarrow> string option" where
  "findtext e path = (case find_all path [e] of [] \<Rightarrow> None
     | x # _ \<Rightarrow> Some (case xml_text x of None \<Rightarrow> [] | Some t \<Rightarrow> t))"

definition path_text :: "string list \<Rightarrow> string" where
  "path_text path = join ''/'' (map (\<lambda>n. ''m:'' @ n) path)"

definition xml_value :: "xml \<Rightarrow> string list \<Rightarrow> string res" where
  "xml_value e path = (case findtext e path of
     None \<Rightarrow> Inl (ValueError (''missing POM metadata: '' @ path_text path))
   | Some t \<Rightarrow> require (strip t \<noteq> []) (''missing POM metadata: '' @ path_text path) (Inr (strip t)))"

section \<open>The bundle\<close>

record tools =
  unzip :: "string \<Rightarrow> (string \<times> string) list res"
  xml_of :: "string \<Rightarrow> xml res"
  hexdigest :: "string \<Rightarrow> string \<Rightarrow> string"
  gpg_verify :: "string \<Rightarrow> string \<Rightarrow> bool res"
  show_names :: "string list \<Rightarrow> string"
  show_value :: "pv \<Rightarrow> string"

text \<open>The build directory: the POM of the sources, and the files of the target directory by name.\<close>

record workdir =
  wd_path :: string
  wd_pom :: "string res"
  wd_read :: "string \<Rightarrow> string res"
  wd_is_file :: "string \<Rightarrow> bool"

definition SUFFIXES :: "string list" where
  "SUFFIXES = [''.pom'', ''.jar'', ''-sources.jar'', ''-javadoc.jar'']"

definition ALGORITHMS :: "string list" where
  "ALGORITHMS = [''md5'', ''sha1'', ''sha256'', ''sha512'']"

definition file_name :: "string \<Rightarrow> string \<Rightarrow> string" where
  "file_name target suffix = ARTIFACT @ ''-'' @ target @ suffix"

definition entry_name :: "string \<Rightarrow> string \<Rightarrow> string" where
  "entry_name target suffix = ''io/github/weavegate/'' @ ARTIFACT @ ''/'' @ target @ ''/'' @ file_name target suffix"

definition source_name :: "workdir \<Rightarrow> string \<Rightarrow> string \<Rightarrow> string" where
  "source_name wd target suffix = (if suffix = ''.pom'' then ''sdk/java/pom.xml'' else wd_path wd @ ''/'' @ file_name target suffix)"

definition source_bytes :: "workdir \<Rightarrow> string \<Rightarrow> string \<Rightarrow> string res" where
  "source_bytes wd target suffix = (if suffix = ''.pom'' then wd_pom wd else wd_read wd (file_name target suffix))"

definition signature_name :: "string \<Rightarrow> string \<Rightarrow> string" where
  "signature_name target suffix = file_name target suffix @ ''.asc''"

definition checksums :: "tools \<Rightarrow> string \<Rightarrow> string \<Rightarrow> (string \<times> string) list" where
  "checksums ts name data = map (\<lambda>a. (name @ ''.'' @ a, hexdigest ts a data)) ALGORITHMS"

definition artifact_entries :: "tools \<Rightarrow> workdir \<Rightarrow> string \<Rightarrow> string \<Rightarrow> (string \<times> string) list res" where
  "artifact_entries ts wd target suffix = ebind (source_bytes wd target suffix) (\<lambda>data.
     require (data \<noteq> [] \<and> wd_is_file wd (signature_name target suffix))
       (''missing signed artifact: '' @ source_name wd target suffix) (
     ebind (wd_read wd (signature_name target suffix)) (\<lambda>sig. let name = entry_name target suffix in
     Inr ([(name, data), (name @ ''.asc'', sig)] @ checksums ts name data))))"

definition build_bundle :: "tools \<Rightarrow> workdir \<Rightarrow> string \<Rightarrow> (string \<times> string) list res" where
  "build_bundle ts wd target = ebind (version target) (\<lambda>_.
     ebind (emap (artifact_entries ts wd target) SUFFIXES) (\<lambda>parts. Inr (concat parts)))"

section \<open>Verification of a bundle\<close>

text \<open>\<open>archive.read(name)\<close>: the last member of that name.\<close>

definition archive_read :: "(string \<times> string) list \<Rightarrow> string \<Rightarrow> string res" where
  "archive_read zs name = (case map_of (rev zs) name of Some d \<Rightarrow> Inr d | None \<Rightarrow> Inl (KeyError name))"

definition decode_ascii :: "string \<Rightarrow> string res" where
  "decode_ascii s = require (list_all (\<lambda>c. char_code c < 128) s) ''ordinal not in range(128)'' (Inr s)"

definition parts_of_artifact :: "string list" where
  "parts_of_artifact = [[], ''.asc'', ''.md5'', ''.sha1'', ''.sha256'', ''.sha512'']"

definition expected_names :: "string \<Rightarrow> string list" where
  "expected_names target = concat (map (\<lambda>suffix. map (\<lambda>x. entry_name target suffix @ x) parts_of_artifact) SUFFIXES)"

definition layout_ok :: "tools \<Rightarrow> (string \<times> string) list \<Rightarrow> string \<Rightarrow> unit res" where
  "layout_ok ts zs target =
     (let names = map fst zs; files = filter (\<lambda>n. \<not> endswith n ''/'') names; expected = expected_names target in
     require (distinct names) ''duplicate bundle paths'' (
     require (set expected \<subseteq> set files)
       (''missing bundle files: '' @ show_names ts (sort (filter (\<lambda>n. n \<notin> set files) expected))) (
     require (set files \<subseteq> set expected)
       (''unexpected bundle files: '' @ show_names ts (sort (filter (\<lambda>n. n \<notin> set expected) files))) (Inr ()))))"

definition named_fields :: "string \<Rightarrow> (string \<times> string) list" where
  "named_fields target = [(''groupId'', GROUP), (''artifactId'', ARTIFACT), (''version'', target)]"

definition required_fields :: "string list list" where
  "required_fields = [[''name''], [''description''], [''url''], [''licenses'', ''license'', ''name''],
     [''licenses'', ''license'', ''url''], [''developers'', ''developer'', ''name''],
     [''developers'', ''developer'', ''url''], [''scm'', ''connection''], [''scm'', ''url'']]"

definition coordinates :: "xml \<Rightarrow> (string \<times> string) res" where
  "coordinates dep = ebind (xml_value dep [''groupId'']) (\<lambda>g. ebind (xml_value dep [''artifactId'']) (\<lambda>a. Inr (g, a)))"

definition pom_ok :: "xml \<Rightarrow> string \<Rightarrow> unit res" where
  "pom_ok pom target =
     ebind (efor (\<lambda>(field, wanted). ebind (xml_value pom [field]) (\<lambda>v.
       require (v = wanted) (''incorrect POM m:'' @ field) (Inr ()))) (named_fields target)) (\<lambda>_.
     ebind (efor (\<lambda>path. ebind (xml_value pom path) (\<lambda>_. Inr ())) required_fields) (\<lambda>_.
     ebind (xml_value pom [''parent'', ''groupId'']) (\<lambda>p. require (p = ''org.springframework.boot'') ''unexpected POM parent'' (
     ebind (emap coordinates (find_all [''dependencies'', ''dependency''] [pom])) (\<lambda>deps.
     require ((''org.springframework.boot'', ''spring-boot-starter-jdbc'') \<in> set deps)
       ''missing runtime Spring dependency'' (Inr ()))))))"

definition checksum_ok :: "tools \<Rightarrow> (string \<times> string) list \<Rightarrow> string \<Rightarrow> string \<Rightarrow> string \<Rightarrow> unit res" where
  "checksum_ok ts zs name data algorithm = ebind (archive_read zs (name @ ''.'' @ algorithm)) (\<lambda>raw.
     ebind (decode_ascii raw) (\<lambda>t. require (strip t = hexdigest ts algorithm data)
       (''bad '' @ algorithm @ '': '' @ name) (Inr ())))"

definition jar_ok :: "tools \<Rightarrow> string \<Rightarrow> string \<Rightarrow> unit res" where
  "jar_ok ts name data = (if \<not> endswith name ''.jar'' then Inr () else
     ebind (unzip ts data) (\<lambda>ms. let members = map fst ms in
       if endswith name ''-sources.jar'' then
         require (list_ex (\<lambda>m. endswith m ''/Weavegate.java'') members) ''sources JAR lacks API'' (Inr ())
       else if endswith name ''-javadoc.jar'' then
         require (''index.html'' \<in> set members) ''Javadoc JAR lacks index'' (Inr ())
       else require (list_ex (\<lambda>m. endswith m ''/Weavegate.class'') members) ''binary JAR lacks API'' (Inr ())))"

definition artifact_ok :: "tools \<Rightarrow> (string \<times> string) list \<Rightarrow> string \<Rightarrow> unit res" where
  "artifact_ok ts zs name = ebind (archive_read zs name) (\<lambda>data.
     require (data \<noteq> []) (''empty artifact: '' @ name) (
     ebind (efor (checksum_ok ts zs name data) ALGORITHMS) (\<lambda>_.
     ebind (archive_read zs (name @ ''.asc'')) (\<lambda>sig.
     erequire (gpg_verify ts sig data) (''invalid GPG signature: '' @ name) (jar_ok ts name data)))))"

definition verify_archive :: "tools \<Rightarrow> (string \<times> string) list \<Rightarrow> string \<Rightarrow> unit res" where
  "verify_archive ts zs target = ebind (layout_ok ts zs target) (\<lambda>_.
     ebind (archive_read zs (entry_name target ''.pom'')) (\<lambda>raw. ebind (xml_of ts raw) (\<lambda>pom.
     ebind (pom_ok pom target) (\<lambda>_. efor (artifact_ok ts zs) (map (entry_name target) SUFFIXES)))))"

definition verify_bundle :: "tools \<Rightarrow> string \<Rightarrow> string \<Rightarrow> unit res" where
  "verify_bundle ts data target = ebind (version target) (\<lambda>_. ebind (unzip ts data) (\<lambda>zs. verify_archive ts zs target))"

section \<open>Writing the version into the POM\<close>

definition version_head :: "string \<Rightarrow> string \<Rightarrow> string" where
  "version_head w1 w2 = group_tag @ w1 @ artifact_tag @ w2 @ ''<version>''"

definition plain_text :: "string \<Rightarrow> bool" where
  "plain_text v = (v \<noteq> [] \<and> CHR ''<'' \<notin> set v)"

lemma after_tag_Some: "after_tag tag s = Some r \<longleftrightarrow> s = tag @ r"
  by (auto simp: after_tag_def startswith_iff)

lemma after_tag_append [simp]: "after_tag tag (tag @ r) = Some r"
  by (simp add: after_tag_Some)

lemma dropWhile_blanks: "list_all is_space w \<Longrightarrow> \<not> is_space c \<Longrightarrow> dropWhile is_space (w @ c # s) = c # s"
  by (induction w) auto

lemma not_space_lt: "\<not> is_space (CHR ''<'')"
  by code_simp

lemma version_start_Some:
  "version_start s = Some r \<longleftrightarrow> (\<exists>w1 w2. list_all is_space w1 \<and> list_all is_space w2 \<and> s = version_head w1 w2 @ r)"
proof
  assume "version_start s = Some r"
  then obtain s1 s2 where s: "s = group_tag @ s1" "dropWhile is_space s1 = artifact_tag @ s2" "dropWhile is_space s2 = ''<version>'' @ r"
    by (auto simp: version_start_def after_tag_Some split: option.splits)
  have "s = version_head (takeWhile is_space s1) (takeWhile is_space s2) @ r"
    unfolding version_head_def s(1) using s(2,3) takeWhile_dropWhile_id [of is_space s1] takeWhile_dropWhile_id [of is_space s2]
    by (metis append.assoc)
  moreover have "list_all is_space (takeWhile is_space t)" for t by (auto simp: list_all_iff dest: set_takeWhileD)
  ultimately show "\<exists>w1 w2. list_all is_space w1 \<and> list_all is_space w2 \<and> s = version_head w1 w2 @ r" by blast
next
  assume "\<exists>w1 w2. list_all is_space w1 \<and> list_all is_space w2 \<and> s = version_head w1 w2 @ r"
  then obtain w1 w2 where w: "list_all is_space w1" "list_all is_space w2" "s = version_head w1 w2 @ r" by blast
  have "dropWhile is_space (w1 @ artifact_tag @ t) = artifact_tag @ t" for t
    using dropWhile_blanks [OF w(1) not_space_lt] by (simp add: artifact_tag_def)
  moreover have "dropWhile is_space (w2 @ ''<version>'' @ r) = ''<version>'' @ r"
    using dropWhile_blanks [OF w(2) not_space_lt] by simp
  ultimately show "version_start s = Some r"
    using after_tag_append [of "''<version>''" r] by (simp add: version_start_def w(3) version_head_def del: append_Cons)
qed

lemma project_version_Some:
  "project_version s = Some (k, v) \<longleftrightarrow> (\<exists>w1 w2 rest. list_all is_space w1 \<and> list_all is_space w2 \<and> plain_text v \<and>
     s = version_head w1 w2 @ v @ ''</version>'' @ rest \<and> k = length (version_head w1 w2))"
proof -
  have tw: "takeWhile (\<lambda>c. c \<noteq> CHR ''<'') (v @ ''</version>'' @ rest) = v" if "plain_text v" for rest
    using that by (subst takeWhile_append2) (auto simp: plain_text_def)
  have plain: "plain_text v" if "v = takeWhile (\<lambda>c. c \<noteq> CHR ''<'') r" "v \<noteq> []" for r
    using that by (auto simp: plain_text_def dest: set_takeWhileD)
  show ?thesis
  proof
    assume p: "project_version s = Some (k, v)"
    then obtain r where r: "version_start s = Some r" "v = takeWhile (\<lambda>c. c \<noteq> CHR ''<'') r" "v \<noteq> []"
        "startswith (drop (length v) r) ''</version>''" "k = length s - length r"
      by (auto simp: project_version_def Let_def split: option.splits if_splits)
    then obtain w1 w2 rest where w: "list_all is_space w1" "list_all is_space w2" "s = version_head w1 w2 @ r"
        "drop (length v) r = ''</version>'' @ rest"
      by (auto simp: version_start_Some startswith_iff)
    have "r = v @ drop (length v) r" unfolding r(2) by (metis append_eq_conv_conj takeWhile_dropWhile_id)
    then show "\<exists>w1 w2 rest. list_all is_space w1 \<and> list_all is_space w2 \<and> plain_text v \<and>
        s = version_head w1 w2 @ v @ ''</version>'' @ rest \<and> k = length (version_head w1 w2)"
      using w r plain by (metis append_same_eq diff_add_inverse2 length_append)
  next
    assume "\<exists>w1 w2 rest. list_all is_space w1 \<and> list_all is_space w2 \<and> plain_text v \<and>
        s = version_head w1 w2 @ v @ ''</version>'' @ rest \<and> k = length (version_head w1 w2)"
    then obtain w1 w2 rest where w: "list_all is_space w1" "list_all is_space w2" "plain_text v"
        "s = version_head w1 w2 @ v @ ''</version>'' @ rest" "k = length (version_head w1 w2)" by blast
    have "version_start s = Some (v @ ''</version>'' @ rest)" using w version_start_Some by blast
    then show "project_version s = Some (k, v)"
      using tw [OF w(3)] w(3-5) by (simp add: project_version_def Let_def plain_text_def del: append_Cons)
  qed
qed

text \<open>The characters that follow a \<open><\<close>: a tag that opens the pattern occurs in a match only at its start.\<close>

fun after_lt :: "string \<Rightarrow> string" where
  "after_lt [] = []"
| "after_lt [c] = []"
| "after_lt (c # d # s) = (if c = CHR ''<'' then d # after_lt (d # s) else after_lt (d # s))"

lemma after_lt_plain: "CHR ''<'' \<notin> set a \<Longrightarrow> after_lt (a @ b) = after_lt b"
proof (induction a)
  case (Cons c a)
  then show ?case by (cases "a @ b") auto
qed simp

lemma after_lt_tag: "CHR ''g'' \<in> set (after_lt (a @ CHR ''<'' # CHR ''g'' # b))"
proof (induction a)
  case (Cons c a)
  then show ?case by (cases a) auto
qed simp

definition version_match :: "string \<Rightarrow> string \<Rightarrow> string \<Rightarrow> string" where
  "version_match w1 w2 v = version_head w1 w2 @ v @ ''</version>''"

lemma blanks_plain: "list_all is_space w \<Longrightarrow> CHR ''<'' \<notin> set w"
  using not_space_lt by (auto simp: list_all_iff)

lemma match_tags:
  assumes "list_all is_space w1" "list_all is_space w2" "plain_text v"
  shows "CHR ''g'' \<notin> set (after_lt (tl (version_match w1 w2 v)))"
proof -
  let ?d = "''</version>''" and ?c = "''<version>''"
  have g: "tl group_tag = ''groupId>io.github.weavegate'' @ ''</groupId>''" by code_simp
  have a: "artifact_tag = ''<artifactId>weavegate-spring'' @ ''</artifactId>''" by code_simp
  have ne: "group_tag \<noteq> []" by code_simp
  have t: "tl (version_match w1 w2 v) = ''groupId>io.github.weavegate'' @ ''</groupId>'' @ w1 @ ''<artifactId>weavegate-spring'' @ ''</artifactId>'' @ w2 @ ?c @ v @ ?d"
    using ne g a by (simp add: version_match_def version_head_def del: append_Cons)
  have "after_lt (v @ ?d) = ''/''" using assms(3) by (simp add: after_lt_plain plain_text_def)
  then have "after_lt (w2 @ ?c @ v @ ?d) = ''v/''"
    using assms(2) by (cases v) (auto simp: after_lt_plain blanks_plain)
  moreover obtain x y where "w2 @ ?c @ v @ ?d = x # y" by (cases "w2 @ ?c @ v @ ?d") auto
  ultimately have "after_lt (w1 @ ''<artifactId>weavegate-spring'' @ ''</artifactId>'' @ w2 @ ?c @ v @ ?d) = ''a/v/''"
    using assms(1) by (simp add: after_lt_plain blanks_plain)
  moreover obtain x y where "w1 @ ''<artifactId>weavegate-spring'' @ ''</artifactId>'' @ w2 @ ?c @ v @ ?d = x # y"
    by (cases "w1 @ ''<artifactId>weavegate-spring'' @ ''</artifactId>'' @ w2 @ ?c @ v @ ?d") auto
  ultimately show ?thesis unfolding t by (simp add: after_lt_plain)
qed

text \<open>A match that starts before another one would contain its opening tag: it ends before.\<close>

lemma match_before:
  assumes "list_all is_space w1" "list_all is_space w2" "plain_text v"
    and full: "version_match w1 w2 v @ r1 = (c # a @ version_head x1 x2) @ r2"
  shows "\<exists>r. c # a @ version_head x1 x2 = version_match w1 w2 v @ r"
proof (rule ccontr)
  assume "\<nexists>r. c # a @ version_head x1 x2 = version_match w1 w2 v @ r"
  then obtain z where "version_match w1 w2 v = (c # a @ version_head x1 x2) @ z"
    using full [unfolded append_eq_append_conv2] by (metis append_Cons append_assoc)
  then have "tl (version_match w1 w2 v) = a @ group_tag @ x1 @ artifact_tag @ x2 @ ''<version>'' @ z"
    by (simp add: version_head_def del: append_Cons) 
  moreover have "group_tag = CHR ''<'' # CHR ''g'' # drop 2 group_tag" by code_simp
  ultimately have "\<exists>b. tl (version_match w1 w2 v) = a @ CHR ''<'' # CHR ''g'' # b" by (metis append_Cons)
  then show False using match_tags [OF assms(1-3)] after_lt_tag [of a] by auto
qed

lemma match_fits: "project_version s = Some (k, v) \<Longrightarrow> match_length k v \<le> length s"
  unfolding project_version_Some by (elim exE conjE) (simp add: match_length_def)

lemma versions_from_member:
  assumes "(i, v) \<in> set (versions_from pos s)"
  shows "\<exists>j k. i = pos + j + k \<and> j \<le> length s \<and> project_version (drop j s) = Some (k, v)"
  using assms
proof (induction pos s rule: versions_from.induct)
  case (2 pos c s)
  show ?case
  proof (cases "project_version (c # s)")
    case None
    then obtain j k where "i = Suc pos + j + k" "j \<le> length s" "project_version (drop j s) = Some (k, v)" using 2 by auto
    then show ?thesis by (intro exI [of _ "Suc j"] exI [of _ k]) simp
  next
    case (Some p)
    obtain k0 v0 where p: "p = (k0, v0)" by (cases p)
    let ?n = "match_length k0 v0"
    show ?thesis
    proof (cases "(i, v) = (pos + k0, v0)")
      case True
      then show ?thesis using Some p by (intro exI [of _ 0] exI [of _ k0]) auto
    next
      case False
      then obtain j k where j: "i = pos + ?n + j + k" "j \<le> length (drop ?n (c # s))" "project_version (drop j (drop ?n (c # s))) = Some (k, v)"
      proof -
        have "(i, v) \<in> set (versions_from (pos + ?n) (drop ?n (c # s)))" using 2(3) Some p False by (auto simp: Let_def)
        then show thesis using 2(2) [OF Some p [symmetric] refl] that by blast
      qed
      have "?n \<le> length (c # s)" using Some p match_fits by fastforce
      then show ?thesis using j by (intro exI [of _ "?n + j"] exI [of _ k]) (auto simp: add_ac)
    qed
  qed
qed simp

definition replaced :: "nat \<Rightarrow> string \<Rightarrow> string \<Rightarrow> string \<Rightarrow> string" where
  "replaced k old new s = take k s @ new @ drop (k + length old) s"

lemma version_match_head: "version_match w1 w2 v @ r = version_head w1 w2 @ v @ ''</version>'' @ r"
  by (simp add: version_match_def)

lemma project_version_match: "project_version s = Some (k, v) \<longleftrightarrow> (\<exists>w1 w2 r. list_all is_space w1 \<and> list_all is_space w2 \<and>
    plain_text v \<and> s = version_match w1 w2 v @ r \<and> k = length (version_head w1 w2))"
  unfolding project_version_Some version_match_head by blast

lemma versions_none_any: "versions_from p s = [] \<longleftrightarrow> versions_from q s = []"
proof (induction p s arbitrary: q rule: versions_from.induct)
  case (2 p c s)
  then show ?case by (cases "project_version (c # s)") (auto simp: Let_def split: prod.splits)
qed simp

lemma replaced_here:
  assumes "project_version s = Some (k, v)" "plain_text w"
  shows "project_version (replaced k v w s) = Some (k, w) \<and>
    drop (match_length k w) (replaced k v w s) = drop (match_length k v) s"
proof -
  obtain w1 w2 r where s: "list_all is_space w1" "list_all is_space w2" "s = version_head w1 w2 @ v @ ''</version>'' @ r"
      "k = length (version_head w1 w2)"
    using assms(1) project_version_Some by blast
  have e: "replaced k v w s = version_head w1 w2 @ w @ ''</version>'' @ r" by (simp add: replaced_def s)
  have "project_version (version_head w1 w2 @ w @ ''</version>'' @ r) = Some (length (version_head w1 w2), w)"
    unfolding project_version_Some using s(1,2) assms(2) by blast
  then show ?thesis unfolding e by (simp add: s(3,4) match_length_def)
qed

text \<open>No match is created before the replaced one.\<close>

lemma replaced_before:
  assumes here: "project_version (drop j s) = Some (k, v)" "j \<le> length s"
    and new: "project_version (c # replaced (j + k) v w s) = Some (k', v')"
  shows "project_version (c # s) \<noteq> None"
proof -
  obtain x1 x2 r where d: "list_all is_space x1" "list_all is_space x2" "drop j s = version_head x1 x2 @ v @ r" "k = length (version_head x1 x2)"
    using here(1) by (auto simp: project_version_Some)
  have s: "s = (take j s @ version_head x1 x2) @ v @ r" using d(3) append_take_drop_id [of j s] by simp
  have len: "length (take j s @ version_head x1 x2) = j + k" using here(2) d(4) by simp
  have "take (length (take j s @ version_head x1 x2)) s = take j s @ version_head x1 x2"
    using s by (metis append_eq_conv_conj)
  moreover have "drop (length (take j s @ version_head x1 x2) + length v) s = r"
    using s by (metis append_assoc append_eq_conv_conj length_append)
  ultimately have e: "replaced (j + k) v w s = (take j s @ version_head x1 x2) @ w @ r"
    unfolding len by (simp add: replaced_def)
  obtain w1 w2 r1 where m: "list_all is_space w1" "list_all is_space w2" "plain_text v'"
      "c # replaced (j + k) v w s = version_match w1 w2 v' @ r1" "k' = length (version_head w1 w2)"
    using new project_version_match by blast
  have "version_match w1 w2 v' @ r1 = (c # take j s @ version_head x1 x2) @ (w @ r)" using m(4) e by simp
  from match_before [OF m(1-3) this] obtain t where "c # take j s @ version_head x1 x2 = version_match w1 w2 v' @ t" by blast
  then have "c # s = version_match w1 w2 v' @ (t @ v @ r)" using s by (metis append_Cons append_assoc)
  then have "project_version (c # s) = Some (length (version_head w1 w2), v')"
    unfolding project_version_match using m(1-3) by blast
  then show ?thesis by simp
qed

lemma versions_replaced:
  assumes "versions_from pos s = [(pos + k, v)]" "plain_text w"
  shows "versions_from pos (replaced k v w s) = [(pos + k, w)]"
  using assms(1)
proof (induction pos s arbitrary: k rule: versions_from.induct)
  case (2 pos c s)
  show ?case
  proof (cases "project_version (c # s)")
    case None
    then have tail: "versions_from (Suc pos) s = [(pos + k, v)]" using 2(3) by simp
    then obtain j k0 where j: "pos + k = Suc pos + j + k0" "j \<le> length s" "project_version (drop j s) = Some (k0, v)"
      using versions_from_member [of "pos + k" v "Suc pos" s] by auto
    then have k: "k = Suc (j + k0)" by simp
    have "versions_from (Suc pos) (replaced (j + k0) v w s) = [(Suc pos + (j + k0), w)]"
      using 2(1) [OF None] tail k by simp
    moreover have "project_version (c # replaced (j + k0) v w s) = None"
    proof (rule ccontr)
      assume "project_version (c # replaced (j + k0) v w s) \<noteq> None"
      then obtain k' v' where "project_version (c # replaced (j + k0) v w s) = Some (k', v')" by auto
      from replaced_before [OF j(3,2) this] None show False by simp
    qed
    moreover have "replaced k v w (c # s) = c # replaced (j + k0) v w s" by (simp add: replaced_def k)
    ultimately show ?thesis by (simp add: k)
  next
    case (Some p)
    obtain k0 v0 where p: "p = (k0, v0)" by (cases p)
    have f: "k0 = k" "v0 = v" "versions_from (pos + match_length k v) (drop (match_length k v) (c # s)) = []"
      using 2(3) Some p by (auto simp: Let_def)
    note here = replaced_here [OF Some [unfolded p f(1,2)] assms(2)]
    obtain d u where r: "replaced k v w (c # s) = d # u"
      using here by (cases "replaced k v w (c # s)") (auto simp: project_version_def version_start_def after_tag_def startswith_def group_tag_def)
    have "versions_from (pos + match_length k w) (drop (match_length k v) (c # s)) = []"
      using f(3) versions_none_any by blast
    then show ?thesis using here unfolding r by (simp add: Let_def)
  qed
qed simp

lemma release_version_plain:
  assumes "version target = Inr ()"
  shows "plain_text target"
proof -
  have re: "version_re target" using assms by (simp add: version_def)
  have vc: "list_all version_char s \<Longrightarrow> CHR ''<'' \<notin> set s" for s
    by (induction s) (auto simp: version_char_def is_alnum_def is_digit_def is_lower_def is_upper_def)
  have dg: "digits s \<Longrightarrow> list_all version_char s" for s
    by (auto simp: digits_def version_char_def is_alnum_def elim: list.pred_mono_strong)
  obtain a b c where abc: "split_on (CHR ''.'') (takeWhile (\<lambda>c. c \<noteq> CHR ''-'') target) = [a, b, c]" "digits a" "digits b" "digits c"
    using re by (auto simp: version_re_def split: list.splits)
  have "takeWhile (\<lambda>c. c \<noteq> CHR ''-'') target = a @ ''.'' @ b @ ''.'' @ c"
    using join_split_on [of "CHR ''.''" "takeWhile (\<lambda>c. c \<noteq> CHR ''-'') target"] abc(1) by simp
  then have front: "CHR ''<'' \<notin> set (takeWhile (\<lambda>c. c \<noteq> CHR ''-'') target)" "target \<noteq> []"
    using vc [OF dg [OF abc(2)]] vc [OF dg [OF abc(3)]] vc [OF dg [OF abc(4)]] by auto
  have "CHR ''<'' \<notin> set (dropWhile (\<lambda>c. c \<noteq> CHR ''-'') target)"
  proof (cases "dropWhile (\<lambda>c. c \<noteq> CHR ''-'') target")
    case (Cons x xs)
    then have "x = CHR ''-''" using hd_dropWhile [of "\<lambda>c. c \<noteq> CHR ''-''" target] by auto
    moreover have "list_all version_char xs"
      using re Cons by (auto simp: version_re_def version_char_def split: list.splits)
    ultimately show ?thesis using Cons vc by auto
  next
    case Nil
    then show ?thesis unfolding Nil by simp
  qed
  then have "CHR ''<'' \<notin> set target" using front(1) takeWhile_dropWhile_id by (metis UnE set_append)
  then show ?thesis using front(2) by (simp add: plain_text_def)
qed

text \<open>
  The version is set exactly: when \<open>set_version\<close> accepts a POM, it has one project version, nothing but that
  version changes, the new text has the release's version as its one project version, and setting it again
  changes nothing.
\<close>

theorem set_version_exact:
  assumes "set_version pom target = Inr updated"
  shows "\<exists>k old. versions_from 0 pom = [(k, old)] \<and> updated = take k pom @ target @ drop (k + length old) pom \<and>
    versions_from 0 updated = [(k, target)] \<and> set_version updated target = Inr updated"
proof -
  obtain k old where v: "version target = Inr ()" "versions_from 0 pom = [(k, old)]"
      "updated = take k pom @ target @ drop (k + length old) pom"
    using assms by (auto simp: set_version_def ebind_eq_Inr split: list.splits)
  have "versions_from 0 updated = [(k, target)]"
    using versions_replaced [of 0 pom k old target] v release_version_plain [OF v(1)] by (simp add: replaced_def)
  moreover from this have "k + length target \<le> length updated"
    using versions_from_member [of k target 0 updated] by (auto simp: project_version_Some dest!: arg_cong [where f = length])
  ultimately show ?thesis using v by (simp add: set_version_def)
qed

definition sample_source_pom :: string where
  "sample_source_pom = ''<project>'' @ group_tag @ '' '' @ artifact_tag @ '' <version>0.0.0-SNAPSHOT</version></project>''"

lemma set_version_exact_witness:
  "\<exists>updated. set_version sample_source_pom ''1.2.3'' = Inr updated \<and> map snd (versions_from 0 updated) = [''1.2.3'']"
proof -
  have "set_version sample_source_pom ''1.2.3'' =
      Inr (''<project>'' @ group_tag @ '' '' @ artifact_tag @ '' <version>1.2.3</version></project>'')"
    by code_simp
  then show ?thesis using set_version_exact by fastforce
qed

section \<open>A built bundle verifies\<close>

lemma archive_read_member: "distinct (map fst zs) \<Longrightarrow> (n, d) \<in> set zs \<Longrightarrow> archive_read zs n = Inr d"
  by (simp add: archive_read_def map_of_is_SomeI rev_map [symmetric])

definition name_ends :: "string list" where
  "name_ends = concat (map (\<lambda>suffix. map (\<lambda>x. suffix @ x) parts_of_artifact) SUFFIXES)"

lemma name_ends_facts: "distinct name_ends \<and> list_all (\<lambda>y. y \<noteq> [] \<and> last y \<noteq> CHR ''/'') name_ends"
  by code_simp

lemma expected_names_ends: "expected_names target = map (\<lambda>y. entry_name target [] @ y) name_ends"
  by (simp add: expected_names_def name_ends_def entry_name_def file_name_def map_concat comp_def)

lemma expected_names_distinct: "distinct (expected_names target)"
  using name_ends_facts by (simp add: expected_names_ends distinct_map inj_on_def)

lemma endswith_slash: "y \<noteq> [] \<Longrightarrow> endswith y ''/'' \<longleftrightarrow> last y = CHR ''/''"
  by (cases y rule: rev_cases) (auto simp: endswith_def startswith_def)

lemma expected_names_files: "filter (\<lambda>n. \<not> endswith n ''/'') (expected_names target) = expected_names target"
  using name_ends_facts by (auto simp: expected_names_ends filter_id_conv list_all_iff endswith_slash)

lemma artifact_entries_names:
  assumes "artifact_entries ts wd target suffix = Inr es"
  shows "map fst es = map (\<lambda>x. entry_name target suffix @ x) parts_of_artifact"
  using assms by (auto simp: artifact_entries_def Let_def ebind_eq_Inr checksums_def ALGORITHMS_def parts_of_artifact_def)

lemma built_names:
  assumes "build_bundle ts wd target = Inr zs"
  shows "map fst zs = expected_names target"
proof -
  obtain parts where p: "list_all2 (\<lambda>s es. artifact_entries ts wd target s = Inr es) SUFFIXES parts" "zs = concat parts"
    using assms by (auto simp: build_bundle_def ebind_eq_Inr emap_eq_Inr)
  from p(1) have "map (map fst) parts = map (\<lambda>s. map (\<lambda>x. entry_name target s @ x) parts_of_artifact) SUFFIXES"
    by (induction rule: list_all2_induct) (auto dest: artifact_entries_names)
  then show ?thesis by (simp add: p(2) expected_names_def map_concat)
qed

lemma built_entries:
  assumes "build_bundle ts wd target = Inr zs" "suffix \<in> set SUFFIXES"
  shows "\<exists>data sig. source_bytes wd target suffix = Inr data \<and> data \<noteq> [] \<and> wd_read wd (signature_name target suffix) = Inr sig \<and>
    archive_read zs (entry_name target suffix) = Inr data \<and> archive_read zs (entry_name target suffix @ ''.asc'') = Inr sig \<and>
    (\<forall>a \<in> set ALGORITHMS. archive_read zs (entry_name target suffix @ ''.'' @ a) = Inr (hexdigest ts a data))"
proof -
  obtain parts where p: "list_all2 (\<lambda>s es. artifact_entries ts wd target s = Inr es) SUFFIXES parts" "zs = concat parts"
    using assms(1) by (auto simp: build_bundle_def ebind_eq_Inr emap_eq_Inr)
  obtain es where es: "es \<in> set parts" "artifact_entries ts wd target suffix = Inr es"
  proof -
    obtain i where "i < length SUFFIXES" "SUFFIXES ! i = suffix" using assms(2) by (auto simp: in_set_conv_nth)
    then show thesis using that [of "parts ! i"] list_all2_nthD [OF p(1), of i] list_all2_lengthD [OF p(1)] by auto
  qed
  have d: "distinct (map fst zs)" by (simp add: built_names [OF assms(1)] expected_names_distinct)
  have sub: "set es \<subseteq> set zs" using es(1) p(2) by auto
  have rd: "archive_read zs n = Inr x" if "(n, x) \<in> set es" for n x
    using archive_read_member [OF d] that sub by auto
  obtain data sig where e: "source_bytes wd target suffix = Inr data" "data \<noteq> []" "wd_read wd (signature_name target suffix) = Inr sig"
      "es = [(entry_name target suffix, data), (entry_name target suffix @ ''.asc'', sig)] @ checksums ts (entry_name target suffix) data"
    using es(2) by (auto simp: artifact_entries_def Let_def ebind_eq_Inr)
  have "archive_read zs (entry_name target suffix) = Inr data" "archive_read zs (entry_name target suffix @ ''.asc'') = Inr sig"
    by (rule rd, simp add: e(4))+
  moreover have "archive_read zs (entry_name target suffix @ ''.'' @ a) = Inr (hexdigest ts a data)" if "a \<in> set ALGORITHMS" for a
    using that by (intro rd) (auto simp: e(4) checksums_def)
  ultimately show ?thesis using e by blast
qed

lemma built_layout: "build_bundle ts wd target = Inr zs \<Longrightarrow> layout_ok ts zs target = Inr ()"
  by (simp add: layout_ok_def Let_def built_names expected_names_files expected_names_distinct del: set_filter)

lemma built_artifact:
  assumes built: "build_bundle ts wd target = Inr zs" and s: "suffix \<in> set SUFFIXES"
    and jar: "\<And>data. source_bytes wd target suffix = Inr data \<Longrightarrow> jar_ok ts (entry_name target suffix) data = Inr ()"
    and signed: "\<And>data sig. source_bytes wd target suffix = Inr data \<Longrightarrow>
      wd_read wd (signature_name target suffix) = Inr sig \<Longrightarrow> gpg_verify ts sig data = Inr True"
    and hex: "\<And>a data. list_all (\<lambda>c. char_code c < 128) (hexdigest ts a data) \<and> strip (hexdigest ts a data) = hexdigest ts a data"
  shows "artifact_ok ts zs (entry_name target suffix) = Inr ()"
proof -
  obtain data sig where e: "source_bytes wd target suffix = Inr data" "data \<noteq> []" "wd_read wd (signature_name target suffix) = Inr sig"
      "archive_read zs (entry_name target suffix) = Inr data" "archive_read zs (entry_name target suffix @ ''.asc'') = Inr sig"
      "\<forall>a \<in> set ALGORITHMS. archive_read zs (entry_name target suffix @ ''.'' @ a) = Inr (hexdigest ts a data)"
    using built_entries [OF built s] by blast
  then show ?thesis using hex jar [OF e(1)] signed [OF e(1,3)]
    by (simp add: artifact_ok_def checksum_ok_def decode_ascii_def ebind_eq_Inr)
qed

text \<open>
  C38. A built bundle verifies: what \<open>build_bundle\<close> assembles is accepted by \<open>verify_bundle\<close>, if the POM has the
  release's metadata, the JAR files hold the API, \<open>gpg\<close> accepts the signatures and the digests are plain text.
\<close>

theorem built_bundle_verifies:
  assumes built: "build_bundle ts wd target = Inr zs"
    and pom: "wd_pom wd = Inr raw" "xml_of ts raw = Inr pom" "pom_ok pom target = Inr ()"
    and jars: "\<forall>suffix \<in> set SUFFIXES. \<forall>data. source_bytes wd target suffix = Inr data \<longrightarrow> jar_ok ts (entry_name target suffix) data = Inr ()"
    and signed: "\<forall>suffix \<in> set SUFFIXES. \<forall>data sig. source_bytes wd target suffix = Inr data \<and>
      wd_read wd (signature_name target suffix) = Inr sig \<longrightarrow> gpg_verify ts sig data = Inr True"
    and hex: "\<forall>a data. list_all (\<lambda>c. char_code c < 128) (hexdigest ts a data) \<and> strip (hexdigest ts a data) = hexdigest ts a data"
  shows "verify_archive ts zs target = Inr ()"
proof -
  have "archive_read zs (entry_name target ''.pom'') = Inr raw"
    using built_entries [OF built, of "''.pom''"] pom(1) by (auto simp: SUFFIXES_def source_bytes_def)
  moreover have "artifact_ok ts zs (entry_name target suffix) = Inr ()" if "suffix \<in> set SUFFIXES" for suffix
    using built_artifact [OF built that] jars signed hex that by blast
  ultimately show ?thesis using built_layout [OF built] pom by (simp add: verify_archive_def)
qed

section \<open>A sample release\<close>

definition pom_leaf :: "string \<Rightarrow> string \<Rightarrow> xml" where
  "pom_leaf name t = Elem (NS name) (Some t) []"

definition sample_pom :: xml where
  "sample_pom = Elem (NS ''project'') None
     [pom_leaf ''groupId'' GROUP, pom_leaf ''artifactId'' ARTIFACT, pom_leaf ''version'' ''1.0.0'',
      pom_leaf ''name'' ''n'', pom_leaf ''description'' ''d'', pom_leaf ''url'' ''u'',
      Elem (NS ''licenses'') None [Elem (NS ''license'') None [pom_leaf ''name'' ''l'', pom_leaf ''url'' ''u'']],
      Elem (NS ''developers'') None [Elem (NS ''developer'') None [pom_leaf ''name'' ''l'', pom_leaf ''url'' ''u'']],
      Elem (NS ''scm'') None [pom_leaf ''connection'' ''c'', pom_leaf ''url'' ''u''],
      Elem (NS ''parent'') None [pom_leaf ''groupId'' ''org.springframework.boot''],
      Elem (NS ''dependencies'') None [Elem (NS ''dependency'') None
        [pom_leaf ''groupId'' ''org.springframework.boot'', pom_leaf ''artifactId'' ''spring-boot-starter-jdbc'']]]"

definition sample_workdir :: workdir where
  "sample_workdir = \<lparr>wd_path = ''t'', wd_pom = Inr ''p'', wd_read = (\<lambda>_. Inr ''j''), wd_is_file = (\<lambda>_. True)\<rparr>"

definition sample_archive :: "(string \<times> string) list" where
  "sample_archive = concat (map (\<lambda>suffix. let name = entry_name ''1.0.0'' suffix; d = (if suffix = ''.pom'' then ''p'' else ''j'') in
     [(name, d), (name @ ''.asc'', ''j'')] @ map (\<lambda>a. (name @ ''.'' @ a, ''0'')) ALGORITHMS) SUFFIXES)"

definition sample_tools :: tools where
  "sample_tools = \<lparr>unzip = (\<lambda>d. Inr (if d = ''zip'' then sample_archive
       else [(''a/Weavegate.class'', []), (''a/Weavegate.java'', []), (''index.html'', [])])),
     xml_of = (\<lambda>_. Inr sample_pom), hexdigest = (\<lambda>_ _. ''0''), gpg_verify = (\<lambda>_ _. Inr True),
     show_names = concat, show_value = (\<lambda>_. [])\<rparr>"

lemma sample_built: "build_bundle sample_tools sample_workdir ''1.0.0'' = Inr sample_archive"
  by code_simp

lemma sample_jar:
  assumes "suffix \<in> set SUFFIXES"
  shows "jar_ok sample_tools (entry_name ''1.0.0'' suffix) (if suffix = ''.pom'' then ''p'' else ''j'') = Inr ()"
proof -
  have "list_all (\<lambda>suffix. jar_ok sample_tools (entry_name ''1.0.0'' suffix) (if suffix = ''.pom'' then ''p'' else ''j'') = Inr ()) SUFFIXES"
    by code_simp
  then show ?thesis using assms by (simp add: list_all_iff)
qed

lemma sample_source: "source_bytes sample_workdir target suffix = Inr (if suffix = ''.pom'' then ''p'' else ''j'')"
  by (simp add: source_bytes_def sample_workdir_def)

lemma sample_gpg: "gpg_verify sample_tools sig data = Inr True"
  by (simp add: sample_tools_def)

lemma sample_digest: "list_all (\<lambda>c. char_code c < 128) (hexdigest sample_tools a data) \<and>
    strip (hexdigest sample_tools a data) = hexdigest sample_tools a data"
  by (simp add: sample_tools_def strip_def is_space_def char_code_def)

lemma sample_pom_ok: "pom_ok sample_pom ''1.0.0'' = Inr ()"
  by code_simp

lemma sample_verified: "verify_bundle sample_tools ''zip'' ''1.0.0'' = Inr ()"
proof -
  have "unzip sample_tools ''zip'' = Inr sample_archive" "xml_of sample_tools raw = Inr sample_pom" for raw
    by (simp_all add: sample_tools_def)
  moreover have "version ''1.0.0'' = Inr ()" by code_simp
  moreover have "\<exists>raw. archive_read sample_archive (entry_name ''1.0.0'' ''.pom'') = Inr raw"
    using built_entries [OF sample_built, of "''.pom''"] by (auto simp: SUFFIXES_def)
  moreover have "artifact_ok sample_tools sample_archive (entry_name ''1.0.0'' suffix) = Inr ()" if "suffix \<in> set SUFFIXES" for suffix
    by (rule built_artifact [OF sample_built that]) (use sample_jar [OF that] sample_gpg sample_digest in \<open>auto simp: sample_source\<close>)
  ultimately show ?thesis
    using built_layout [OF sample_built] sample_pom_ok by (auto simp: verify_bundle_def verify_archive_def)
qed

lemma built_bundle_verifies_witness:
  "verify_archive sample_tools sample_archive ''1.0.0'' = Inr ()"
proof (rule built_bundle_verifies)
  show "build_bundle sample_tools sample_workdir ''1.0.0'' = Inr sample_archive" by (rule sample_built)
  show "wd_pom sample_workdir = Inr ''p''" "xml_of sample_tools ''p'' = Inr sample_pom"
    by (simp_all add: sample_workdir_def sample_tools_def)
qed (use sample_jar sample_gpg sample_digest sample_pom_ok in \<open>auto simp: sample_source\<close>)

end
