(* ===== verification/Redaction.thy ===== *)
theory Redaction
  imports Guard
begin

text \<open>
  \<open>experiments/gate-performance/harness/redaction.py\<close>: the secrets' spellings, \<open>sanitize\<close> over the
  files of a directory, the metadata exemptions of the collector's own files, and the admission check of
  the public evidence.  \<open>validate_paths\<close> is in \<open>Guard\<close>.

  The collector encodes each secret from an environment value, so a secret is given by its text and
  \<open>utf8\<close> is its byte string; a file's bytes are a string whose characters are the bytes.  \<open>loads\<close> and
  \<open>dumps\<close> are \<open>read_json\<close> on a file's bytes and \<open>canonical\<close>.  The replacement counter that the code passes
  by reference is returned with the value.  Spellings of equal length are tried in the order given, where
  Python's order is that of a set.
\<close>

section \<open>Bytes\<close>

text \<open>\<open>str.encode\<close>\<close>

definition utf8 :: "string \<Rightarrow> string" where
  "utf8 s = concat (map (\<lambda>c. let n = char_code c in
     if n < 128 then [c] else [char_of (192 + n div 64), char_of (128 + n mod 64)]) s)"

text \<open>\<open>s.replace(old, new)\<close> and \<open>s.count(old)\<close> for a nonempty \<open>old\<close>; the first argument counts the
  characters of the current occurrence still to be passed over.\<close>

fun replace_from :: "nat \<Rightarrow> string \<Rightarrow> string \<Rightarrow> string \<Rightarrow> string" where
  "replace_from k old new [] = []"
| "replace_from (Suc k) old new (c # s) = replace_from k old new s"
| "replace_from 0 old new (c # s) = (if startswith (c # s) old then new @ replace_from (length old - 1) old new s
     else c # replace_from 0 old new s)"

fun count_from :: "nat \<Rightarrow> string \<Rightarrow> string \<Rightarrow> nat" where
  "count_from k old [] = 0"
| "count_from (Suc k) old (c # s) = count_from k old s"
| "count_from 0 old (c # s) = (if startswith (c # s) old then Suc (count_from (length old - 1) old s)
     else count_from 0 old s)"

text \<open>The body of \<open>json.dumps(s)\<close> between its quotes.\<close>

definition hex_digit :: "nat \<Rightarrow> char" where
  "hex_digit n = (if n < 10 then char_of (48 + n) else char_of (87 + n))"

definition escape_char :: "bool \<Rightarrow> char \<Rightarrow> string" where
  "escape_char ascii c = (let n = char_code c; bs = CHR 0x5C in
     if n = 34 \<or> n = 92 then [bs, c]
     else if n = 10 then [bs, CHR ''n''] else if n = 13 then [bs, CHR ''r''] else if n = 9 then [bs, CHR ''t'']
     else if n = 12 then [bs, CHR ''f''] else if n = 8 then [bs, CHR ''b'']
     else if n < 32 \<or> (ascii \<and> 126 < n) then [bs] @ ''u00'' @ [hex_digit (n div 16), hex_digit (n mod 16)]
     else [c])"

definition json_escape :: "bool \<Rightarrow> string \<Rightarrow> string" where
  "json_escape ascii s = concat (map (escape_char ascii) s)"

section \<open>Secrets\<close>

definition REDACTION_MARKER :: string where
  "REDACTION_MARKER = ''[REDACTED]''"

definition secrets_ok :: "string list \<Rightarrow> bool" where
  "secrets_ok secrets = list_all (\<lambda>s. s \<noteq> [] \<and> \<not> contains REDACTION_MARKER (utf8 s)) secrets"

definition validate_redaction_secrets :: "string list \<Rightarrow> unit res" where
  "validate_redaction_secrets secrets =
     require (secrets_ok secrets) ''secret must be nonempty and absent from the redaction marker'' (Inr ())"

text \<open>\<open>sorted(..., key=len, reverse=True)\<close>\<close>

definition longest_first :: "(string \<Rightarrow> nat) \<Rightarrow> string list \<Rightarrow> string list" where
  "longest_first measure_of xs = sort_key (\<lambda>s. - int (measure_of s)) xs"

definition secret_variants :: "string list \<Rightarrow> string list" where
  "secret_variants secrets = longest_first length
     (remdups (map utf8 secrets @ map (utf8 \<circ> json_escape True) secrets @ map (utf8 \<circ> json_escape False) secrets))"

definition leaks :: "string list \<Rightarrow> string \<Rightarrow> bool" where
  "leaks variants data = list_ex (contains data) variants"

section \<open>Values\<close>

text \<open>Replacing each of the secrets in turn, with the number of replacements.\<close>

fun replace_each :: "string list \<Rightarrow> string \<Rightarrow> string \<times> nat" where
  "replace_each [] s = (s, 0)"
| "replace_each (x # xs) s = (case replace_each xs (replace_from 0 x REDACTION_MARKER s) of
     (t, n) \<Rightarrow> (t, count_from 0 x s + n))"

definition redact_text :: "string list \<Rightarrow> string \<Rightarrow> string \<times> nat" where
  "redact_text secrets s = replace_each (longest_first (length \<circ> utf8) secrets) s"

text \<open>A dict comprehension: a later equal key replaces the earlier item.\<close>

definition dict_of :: "(string \<times> 'a) list \<Rightarrow> (string \<times> 'a) list" where
  "dict_of kvs = foldl (\<lambda>d (k, v). dict_set k v d) [] kvs"

fun redact :: "string list \<Rightarrow> pv \<Rightarrow> pv \<times> nat" where
  "redact secrets (PStr s) = (case redact_text secrets s of (t, n) \<Rightarrow> (PStr t, n))"
| "redact secrets (PList xs) = (let rs = map (redact secrets) xs in (PList (map fst rs), sum_list (map snd rs)))"
| "redact secrets (PDict d) = (let rs = map (\<lambda>(k, v). (redact_text secrets k, redact secrets v)) d in
     (PDict (dict_of (map (\<lambda>(k, v). (fst k, fst v)) rs)), sum_list (map (\<lambda>(k, v). snd k + snd v) rs)))"
| "redact secrets v = (v, 0)"

definition redact_value :: "string list \<Rightarrow> pv \<Rightarrow> (pv \<times> nat) res" where
  "redact_value secrets v = ebind (validate_redaction_secrets secrets) (\<lambda>_. Inr (redact secrets v))"

text \<open>The public and the known fields of a collector-owned file.\<close>

definition owned_fields :: "string \<Rightarrow> (string list \<times> string list) option" where
  "owned_fields name =
     (if name = ''attempt.json'' then
        (let public = [''collection_root'', ''cleanup_inputs_valid'', ''state''] in Some (public, ''reason'' # public))
      else if name = ''trial.json'' then
        (let public = [''block'', ''block_id'', ''workload'', ''date_slot'', ''date'', ''arms'', ''arm'', ''attempt'',
           ''classification'', ''collection_root'', ''metrics'', ''started'', ''exit'', ''elapsed_seconds'', ''cleanup_proven'']
         in Some (public, [''reason'', ''facts''] @ public))
      else if name \<in> set (map (\<lambda>step. step @ ''.command.json'') STEPS) then
        (let public = [''step'', ''argv'', ''cwd'', ''env'', ''redacted_env_names'', ''started_at'', ''ended_at'', ''started'',
           ''exit'', ''timeout'', ''seconds'', ''interrupted'', ''finished'', ''containment_proven'', ''redactions'']
         in Some (public, ''error'' # public))
      else if name = ''redactions.json'' then Some ([''replacements''], [''replacements''])
      else None)"

definition PROTECTED :: "string list" where
  "PROTECTED = [''slot.json'', ''collection-command.json'', ''completed-arm-hashes.json'', ''cleanup-inputs.json'']"

text \<open>One item of the comprehension: the key, the value and their replacements.\<close>

definition redact_item :: "string list \<Rightarrow> string list \<Rightarrow> string list \<Rightarrow> string \<times> pv \<Rightarrow> ((string \<times> pv) \<times> nat) res" where
  "redact_item secrets public known = (\<lambda>(key, v).
     ebind (if key \<in> set known then Inr (PStr key, 0) else redact_value secrets (PStr key)) (\<lambda>(k, m).
     ebind (if key \<in> set public then Inr (v, 0) else redact_value secrets v) (\<lambda>(w, n). Inr ((str_of k, w), m + n))))"

definition redact_metadata :: "string list \<Rightarrow> string \<Rightarrow> pv \<Rightarrow> (pv \<times> nat) res" where
  "redact_metadata secrets filename v =
     (if \<not> is_dict v then redact_value secrets v
      else if filename \<in> set PROTECTED then Inr (v, 0)
      else case owned_fields filename of
        None \<Rightarrow> redact_value secrets v
      | Some (public, known) \<Rightarrow> ebind (emap (redact_item secrets public known) (items_of v)) (\<lambda>rs.
          Inr (PDict (dict_of (map fst rs)), sum_list (map snd rs))))"

section \<open>Files\<close>

definition json_suffix :: "path \<Rightarrow> bool" where
  "json_suffix p = (p \<noteq> [] \<and> endswith (last p) ''.json'' \<and> 5 < length (last p))"

text \<open>What is written to a file that parses, to any other, and the number of replacements.\<close>

definition sanitize_json ::
  "(pv \<Rightarrow> string) \<Rightarrow> string list \<Rightarrow> string \<Rightarrow> string \<Rightarrow> pv \<Rightarrow> (string option \<times> nat) res" where
  "sanitize_json dumps secrets filename data v = ebind (redact_metadata secrets filename v) (\<lambda>(redacted, n).
     let serialized = dumps redacted; retained = if n \<noteq> 0 then serialized else data in
     require (\<not> (leaks (secret_variants secrets) serialized \<or> leaks (secret_variants secrets) retained))
       ''secret remains in JSON after string redaction'' (Inr (if n \<noteq> 0 then Some serialized else None, n)))"

definition sanitize_bytes :: "string list \<Rightarrow> string \<Rightarrow> string option \<times> nat" where
  "sanitize_bytes secrets original = (case replace_each (secret_variants secrets) original of
     (data, n) \<Rightarrow> (if data \<noteq> original then Some data else None, n))"

definition parsed :: "(string \<Rightarrow> pv res) \<Rightarrow> path \<Rightarrow> string \<Rightarrow> pv option res" where
  "parsed loads p data = (if \<not> json_suffix p then Inr None else case loads data of
     Inr v \<Rightarrow> Inr (Some v) | Inl (ValueError _) \<Rightarrow> Inr None | Inl e \<Rightarrow> Inl e)"

definition sanitize_file ::
  "(string \<Rightarrow> pv res) \<Rightarrow> (pv \<Rightarrow> string) \<Rightarrow> string list \<Rightarrow> path list \<Rightarrow> path \<Rightarrow> string \<Rightarrow> (string option \<times> nat) res" where
  "sanitize_file loads dumps secrets owned p data = ebind (parsed loads p data) (\<lambda>r. case r of
     Some v \<Rightarrow> sanitize_json dumps secrets (if p \<in> set owned then last p else []) data v
   | None \<Rightarrow> Inr (sanitize_bytes secrets data))"

text \<open>\<open>write_bytes\<close> replaces the file under a fresh inode.\<close>

definition rewrite_file :: "(path \<Rightarrow> inode) \<Rightarrow> path \<Rightarrow> string option \<Rightarrow> bundle_tree \<Rightarrow> bundle_tree" where
  "rewrite_file fresh p written b = (case written of None \<Rightarrow> b | Some data \<Rightarrow> put_file p (fresh p) data b)"

fun sanitize_files ::
  "(string \<Rightarrow> pv res) \<Rightarrow> (pv \<Rightarrow> string) \<Rightarrow> (path \<Rightarrow> inode) \<Rightarrow> string list \<Rightarrow> path list \<Rightarrow> (path \<times> node) list \<Rightarrow>
     bundle_tree \<Rightarrow> (bundle_tree \<times> nat) res" where
  "sanitize_files loads dumps fresh secrets owned [] b = Inr (b, 0)"
| "sanitize_files loads dumps fresh secrets owned ((p, nd) # fs) b =
     ebind (sanitize_file loads dumps secrets owned p (bytes_of nd)) (\<lambda>(written, n).
     ebind (sanitize_files loads dumps fresh secrets owned fs (rewrite_file fresh p written b)) (\<lambda>(b', m).
       Inr (b', n + m)))"

definition sanitize ::
  "(string \<Rightarrow> pv res) \<Rightarrow> (pv \<Rightarrow> string) \<Rightarrow> (path \<Rightarrow> inode) \<Rightarrow> string list \<Rightarrow> path list \<Rightarrow> path \<Rightarrow> bundle_tree \<Rightarrow>
     (bundle_tree \<times> nat) res" where
  "sanitize loads dumps fresh secrets owned d b =
     ebind (validate_redaction_secrets secrets) (\<lambda>_.
     ebind (validate_paths secrets owned d b) (\<lambda>_.
     ebind (files (subtree d b)) (\<lambda>fs. sanitize_files loads dumps fresh secrets owned fs b)))"

section \<open>Admission of the public evidence\<close>

definition public_data_ok :: "string list \<Rightarrow> string \<Rightarrow> unit res" where
  "public_data_ok variants data =
     require (\<not> leaks variants data) ''secret in public campaign evidence or metadata'' (Inr ())"

definition public_entry_ok ::
  "(string \<Rightarrow> pv res) \<Rightarrow> (pv \<Rightarrow> string) \<Rightarrow> string list \<Rightarrow> path \<times> node \<Rightarrow> unit res" where
  "public_entry_ok loads dumps variants = (\<lambda>(p, nd). ebind (public_data_ok variants (utf8 (path_str p))) (\<lambda>_.
     if \<not> is_file nd then Inr ()
     else ebind (public_data_ok variants (bytes_of nd)) (\<lambda>_.
       ebind (parsed loads p (bytes_of nd)) (\<lambda>r. case r of
         Some v \<Rightarrow> public_data_ok variants (dumps v) | None \<Rightarrow> Inr ()))))"

definition validate_public_evidence ::
  "(string \<Rightarrow> pv res) \<Rightarrow> (pv \<Rightarrow> string) \<Rightarrow> bundle_tree \<Rightarrow> string list \<Rightarrow> pv \<Rightarrow> unit res" where
  "validate_public_evidence loads dumps b secrets metadata = (if secrets = [] then Inr () else
     ebind (public_data_ok (secret_variants secrets) (dumps metadata)) (\<lambda>_.
     ebind (entries b) (efor (public_entry_ok loads dumps (secret_variants secrets)))))"

section \<open>What sanitizing a bundle leaves\<close>

lemma count_zero_unchanged: "count_from k old s = 0 \<Longrightarrow> k = 0 \<Longrightarrow> replace_from k old new s = s"
  by (induction k old new s rule: replace_from.induct) (auto split: if_splits)

lemma replace_each_zero: "replace_each xs s = (t, 0) \<Longrightarrow> t = s"
proof (induction xs arbitrary: s)
  case (Cons x xs)
  then have "count_from 0 x s = 0" "replace_each xs (replace_from 0 x REDACTION_MARKER s) = (t, 0)"
    by (auto split: prod.splits)
  then show ?case using Cons.IH count_zero_unchanged by metis
qed simp

lemma sanitize_file_zero: "sanitize_file loads dumps secrets owned p data = Inr (w, 0) \<Longrightarrow> w = None"
  by (auto simp: sanitize_file_def sanitize_json_def sanitize_bytes_def Let_def ebind_eq_Inr
      split: option.splits prod.splits if_splits dest: replace_each_zero)

lemma sanitize_files_zero:
  "sanitize_files loads dumps fresh secrets owned fs b = Inr (b', 0) \<Longrightarrow> b' = b"
proof (induction fs arbitrary: b)
  case (Cons x fs)
  obtain p nd where x: "x = (p, nd)" by (cases x)
  with Cons.prems obtain w where w: "sanitize_file loads dumps secrets owned p (bytes_of nd) = Inr (w, 0)"
    and r: "sanitize_files loads dumps fresh secrets owned fs (rewrite_file fresh p w b) = Inr (b', 0)"
    by (auto simp: ebind_eq_Inr)
  from sanitize_file_zero [OF w] have "rewrite_file fresh p w b = b" by (simp add: rewrite_file_def)
  with r Cons.IH show ?case by simp
qed simp

lemma map_of_removed: "map_of (filter (\<lambda>(q, n). q \<noteq> p) b) q = (if q = p then None else map_of b q)"
  by (induction b) auto

lemma map_of_put_file: "map_of (put_file p i c b) q = (if q = p then Some (File i 1 c) else map_of b q)"
  by (simp add: put_file_def map_of_removed)

lemma map_of_rewrite_file:
  "map_of (rewrite_file fresh p w b) q =
     (if q = p then (case w of None \<Rightarrow> map_of b p | Some data \<Rightarrow> Some (File (fresh p) 1 data)) else map_of b q)"
  by (simp add: rewrite_file_def map_of_put_file split: option.splits)

text \<open>Each file is treated once, on its original bytes, and nothing else changes.\<close>

lemma sanitize_files_others:
  "sanitize_files loads dumps fresh secrets owned fs b = Inr (b', n) \<Longrightarrow> q \<notin> fst ` set fs \<Longrightarrow> map_of b' q = map_of b q"
proof (induction fs arbitrary: b n)
  case (Cons x fs)
  obtain p nd where x: "x = (p, nd)" by (cases x)
  with Cons.prems obtain w m where "sanitize_files loads dumps fresh secrets owned fs (rewrite_file fresh p w b) = Inr (b', m)"
    by (auto simp: ebind_eq_Inr)
  from Cons.IH [OF this] Cons.prems(2) x show ?case by (simp add: map_of_rewrite_file)
qed simp

lemma sanitize_files_at:
  assumes "sanitize_files loads dumps fresh secrets owned fs b = Inr (b', n)" "distinct (map fst fs)" "(p, nd) \<in> set fs"
  obtains w k where "sanitize_file loads dumps secrets owned p (bytes_of nd) = Inr (w, k)"
    "map_of b' p = (case w of None \<Rightarrow> map_of b p | Some data \<Rightarrow> Some (File (fresh p) 1 data))"
  using assms
proof (induction fs arbitrary: b n thesis)
  case (Cons x fs)
  obtain q md where x: "x = (q, md)" by (cases x)
  with Cons.prems(2) obtain w k m where w: "sanitize_file loads dumps secrets owned q (bytes_of md) = Inr (w, k)"
    and r: "sanitize_files loads dumps fresh secrets owned fs (rewrite_file fresh q w b) = Inr (b', m)"
    by (auto simp: ebind_eq_Inr)
  show ?case
  proof (cases "p = q")
    case True
    then have nd: "nd = md" and p: "p \<notin> fst ` set fs" using Cons.prems(3,4) x by (auto simp: image_iff)
    from sanitize_files_others [OF r p] True show ?thesis
      using w nd by (intro Cons.prems(1) [of w k]) (auto simp: map_of_rewrite_file)
  next
    case False
    then have "(p, nd) \<in> set fs" "distinct (map fst fs)" using Cons.prems(3,4) x by auto
    from Cons.IH [OF _ r this(2,1)] obtain u j where
      "sanitize_file loads dumps secrets owned p (bytes_of nd) = Inr (u, j)"
      "map_of b' p = (case u of None \<Rightarrow> map_of (rewrite_file fresh q w b) p | Some data \<Rightarrow> Some (File (fresh p) 1 data))"
      by blast
    then show ?thesis using False by (intro Cons.prems(1)) (auto simp: map_of_rewrite_file split: option.splits)
  qed
qed simp

text \<open>The bytes a parsed file is left with hold no spelling of a secret.\<close>

lemma sanitize_file_clean:
  assumes "sanitize_file loads dumps secrets owned p data = Inr (w, k)" "json_suffix p" "loads data = Inr v"
  shows "\<not> leaks (secret_variants secrets) (case w of None \<Rightarrow> data | Some d \<Rightarrow> d)"
  using assms
  by (auto simp: sanitize_file_def parsed_def sanitize_json_def Let_def ebind_eq_Inr split: if_splits)

lemma set_secret_variants:
  "set (secret_variants secrets) = utf8 ` set secrets \<union> utf8 ` json_escape True ` set secrets \<union> utf8 ` json_escape False ` set secrets"
  by (auto simp: secret_variants_def longest_first_def image_image)

lemma not_leaksD: "\<not> leaks (secret_variants secrets) data \<Longrightarrow> s \<in> set secrets \<Longrightarrow>
    \<not> contains data (utf8 s) \<and> \<not> contains data (utf8 (json_escape True s)) \<and> \<not> contains data (utf8 (json_escape False s))"
  by (auto simp: leaks_def list_ex_iff set_secret_variants)

lemma files_subtree:
  assumes "wf_bundle b" "files (subtree d b) = Inr fs"
  shows "distinct (map fst fs)" "set fs = {(p, nd). (p, nd) \<in> set b \<and> below d p \<and> is_file nd}"
proof -
  from assms(2) have fs: "fs = filter (\<lambda>(p, nd). is_file nd) (sort_key fst (subtree d b))"
    by (auto simp: files_def ebind_eq_Inr entries_eq_Inr)
  have "distinct (map fst (subtree d b))"
    using assms(1) by (simp add: wf_bundle_def subtree_def distinct_map_filter)
  moreover have "mset (map fst (sort_key fst (subtree d b))) = mset (map fst (subtree d b))" by simp
  ultimately have "distinct (map fst (sort_key fst (subtree d b)))" by (metis mset_eq_imp_distinct_iff)
  then show "distinct (map fst fs)" by (simp add: fs distinct_map_filter)
  show "set fs = {(p, nd). (p, nd) \<in> set b \<and> below d p \<and> is_file nd}"
    by (auto simp: fs subtree_def)
qed

lemma sanitizeE:
  assumes "sanitize loads dumps fresh secrets owned d b = Inr (b', n)"
  obtains fs where "secrets_ok secrets" "files (subtree d b) = Inr fs"
    "sanitize_files loads dumps fresh secrets owned fs b = Inr (b', n)"
  using assms by (auto simp: sanitize_def validate_redaction_secrets_def ebind_eq_Inr)

text \<open>
  C17. When \<open>sanitize\<close> accepts a directory, each of its files that is named \<open>.json\<close> and parses is
  left with bytes that contain no secret, neither its own bytes nor either JSON spelling; every path
  outside the directory, and every entry when no replacement is reported, is as before.
\<close>

theorem sanitized_json_clean:
  assumes wf: "wf_bundle b" and ok: "sanitize loads dumps fresh secrets owned d b = Inr (b', n)"
    and at: "(p, File i l data) \<in> set b" "below d p" "json_suffix p" "loads data = Inr v" and s: "s \<in> set secrets"
  shows "(\<exists>i' l' data'. map_of b' p = Some (File i' l' data') \<and> \<not> contains data' (utf8 s) \<and>
       \<not> contains data' (utf8 (json_escape True s)) \<and> \<not> contains data' (utf8 (json_escape False s))) \<and>
     (\<forall>q. \<not> below d q \<longrightarrow> map_of b' q = map_of b q) \<and> (n = 0 \<longrightarrow> b' = b)"
proof -
  from ok obtain fs where fs: "files (subtree d b) = Inr fs"
    and run: "sanitize_files loads dumps fresh secrets owned fs b = Inr (b', n)" by (rule sanitizeE)
  note dist = files_subtree(1) [OF wf fs] and mem = files_subtree(2) [OF wf fs]
  have b: "map_of b p = Some (File i l data)" using wf at(1) by (simp add: wf_bundle_def)
  have "(p, File i l data) \<in> set fs" using at mem by (simp add: is_file_def)
  from sanitize_files_at [OF run dist this] obtain w k
    where w: "sanitize_file loads dumps secrets owned p data = Inr (w, k)"
      and p: "map_of b' p = (case w of None \<Rightarrow> map_of b p | Some d \<Rightarrow> Some (File (fresh p) 1 d))"
    by (auto simp: bytes_of_def)
  note clean = not_leaksD [OF sanitize_file_clean [OF w at(3,4)] s]
  have "\<exists>i' l' data'. map_of b' p = Some (File i' l' data') \<and> \<not> contains data' (utf8 s) \<and>
       \<not> contains data' (utf8 (json_escape True s)) \<and> \<not> contains data' (utf8 (json_escape False s))"
    using clean p b by (cases w) auto
  moreover have "map_of b' q = map_of b q" if "\<not> below d q" for q
  proof -
    have "q \<notin> fst ` set fs" using that mem by auto
    then show ?thesis by (rule sanitize_files_others [OF run])
  qed
  moreover have "b' = b" if "n = 0"
    using sanitize_files_zero run that by blast
  ultimately show ?thesis by blast
qed

text \<open>A JSON file whose string holds the secret, and the sanitized bundle.\<close>

definition sample_secret_tree :: bundle_tree where
  "sample_secret_tree = [([''a''], Dir), ([''a'', ''x.json''], File \<lparr>dev = 0, ino = 1\<rparr> 1 ''pw'')]"

definition sample_dumps :: "pv \<Rightarrow> string" where
  "sample_dumps v = str_of v"

lemma sample_sanitized:
  "sanitize (\<lambda>t. Inr (PStr t)) sample_dumps (\<lambda>_. \<lparr>dev = 0, ino = 2\<rparr>) [''pw''] [] [''a''] sample_secret_tree =
     Inr ([([''a'', ''x.json''], File \<lparr>dev = 0, ino = 2\<rparr> 1 ''[REDACTED]''), ([''a''], Dir)], 1)"
  by code_simp

lemma sanitized_json_clean_witness:
  "\<exists>i l data. map_of [([''a'', ''x.json''], File \<lparr>dev = 0, ino = 2\<rparr> 1 ''[REDACTED]''), ([''a''], Dir)] [''a'', ''x.json''] =
       Some (File i l data) \<and> \<not> contains data (utf8 ''pw'')"
proof -
  have "wf_bundle sample_secret_tree" by (simp add: wf_bundle_def sample_secret_tree_def)
  from sanitized_json_clean [OF this sample_sanitized, of "[''a'', ''x.json'']" "\<lparr>dev = 0, ino = 1\<rparr>" 1 "''pw''" "PStr ''pw''" "''pw''"]
  show ?thesis
    by (simp add: sample_secret_tree_def below_def json_suffix_def endswith_def startswith_def)
qed

text \<open>A file that is not JSON is not examined again: the marker can complete an occurrence with the
  bytes that follow it.\<close>

lemma sanitized_bytes_keep_secret:
  "secrets_ok ['']]''] \<and> sanitize_bytes ['']]''] '']]]'' = (Some ''[REDACTED]]'', 1) \<and> contains ''[REDACTED]]'' (utf8 '']]'')"
  by code_simp

end
