(* ===== verification/Central.thy ===== *)
theory Central
  imports Release Redaction
begin

text \<open>
  The publication on Maven Central, the network half of \<open>scripts/java-central.py\<close>: the search for an existing
  deployment, the check of the public repository, the upload and the wait for its publication.

  The network and the clock are the record \<open>internet\<close>, whose answers may depend on everything done before.
  The effects of a run are the list of its requests, printed lines and sleeps, which every operation extends.
  A \<open>while True\<close> of the code is \<open>repeat_until\<close> on a body, so a run that never ends is \<open>None\<close>; locale
  \<open>ending_loop\<close> is what a body promises for the loop to end, and both loops are interpretations of it.
\<close>

section \<open>Requests\<close>

datatype request =
    Get string (rq_auth: string)
  | Post string (rq_auth: string) string string

datatype effect = Asked request | Printed string | Slept rat

type_synonym 'a act = "effect list \<Rightarrow> effect list \<times> 'a res"

text \<open>What the network answers (the status and the body, or the exception of \<open>urlopen\<close> and \<open>read\<close>) and
  what the monotonic clock shows, after the effects so far.\<close>

record internet =
  answer :: "effect list \<Rightarrow> request \<Rightarrow> (nat \<times> string) res"
  clock :: "effect list \<Rightarrow> rat"
  json_of :: "string \<Rightarrow> pv res"
  boundary_hex :: string

text \<open>\<open>while True\<close> around requests: the body goes on with a new state, leaves with a result, or raises.
  \<open>None\<close> is a loop that never ends.\<close>

partial_function (option) repeat_until ::
  "('s \<Rightarrow> effect list \<Rightarrow> effect list \<times> ('s + 'b) res) \<Rightarrow> 's \<Rightarrow> effect list \<Rightarrow> (effect list \<times> 'b res) option" where
  "repeat_until body s fx = (case body s fx of
       (fx1, Inl e) \<Rightarrow> Some (fx1, Inl e)
     | (fx1, Inr out) \<Rightarrow> (case out of Inl s' \<Rightarrow> repeat_until body s' fx1 | Inr b \<Rightarrow> Some (fx1, Inr b)))"

definition urlopen :: "internet \<Rightarrow> request \<Rightarrow> (nat \<times> string) act" where
  "urlopen net rq fx = (fx @ [Asked rq], answer net fx rq)"

definition CENTRAL_URL :: string where "CENTRAL_URL = ''https://central.sonatype.com''"
definition REPOSITORY_URL :: string where "REPOSITORY_URL = ''https://repo.maven.apache.org/maven2''"

definition hex_upper :: "nat \<Rightarrow> char" where
  "hex_upper n = (if n < 10 then char_of (48 + n) else char_of (55 + n))"

text \<open>\<open>urllib.parse.quote_plus\<close> and \<open>urlencode\<close>\<close>

definition quote_char :: "char \<Rightarrow> string" where
  "quote_char c = (if is_alnum c \<or> c \<in> {CHR ''_'', CHR ''.'', CHR ''-'', CHR ''~''} then [c]
     else if c = CHR '' '' then ''+''
     else concat (map (\<lambda>b. [CHR 0x25, hex_upper (char_code b div 16), hex_upper (char_code b mod 16)]) (utf8 [c])))"

definition quote_plus :: "string \<Rightarrow> string" where
  "quote_plus s = concat (map quote_char s)"

definition urlencode :: "(string \<times> string) list \<Rightarrow> string" where
  "urlencode kvs = join ''&'' (map (\<lambda>(k, v). quote_plus k @ ''='' @ quote_plus v) kvs)"

text \<open>\<open>base64.b64encode\<close>\<close>

definition b64_char :: "nat \<Rightarrow> char" where
  "b64_char n = (if n < 26 then char_of (65 + n) else if n < 52 then char_of (71 + n) else if n < 62 then char_of (n - 4)
     else if n = 62 then CHR ''+'' else CHR ''/'')"

fun b64 :: "string \<Rightarrow> string" where
  "b64 [] = []"
| "b64 [a] = (let n = char_code a in [b64_char (n div 4), b64_char (n mod 4 * 16), CHR ''='', CHR ''=''])"
| "b64 [a, b] = (let n = char_code a; m = char_code b in
     [b64_char (n div 4), b64_char (n mod 4 * 16 + m div 16), b64_char (m mod 16 * 4), CHR ''=''])"
| "b64 (a # b # c # s) = (let n = char_code a; m = char_code b; k = char_code c in
     [b64_char (n div 4), b64_char (n mod 4 * 16 + m div 16), b64_char (m mod 16 * 4 + k div 64), b64_char (k mod 64)] @ b64 s)"

text \<open>\<open>uuid.UUID(s)\<close>: 32 characters that \<open>int(_, 16)\<close> reads, after the braces, dashes and URN words.\<close>

fun hex_digits_ok :: "string \<Rightarrow> bool" where
  "hex_digits_ok [] = False"
| "hex_digits_ok [c] = (is_hex c \<or> (CHR ''A'' \<le> c \<and> c \<le> CHR ''F''))"
| "hex_digits_ok (c # d # s) = ((is_hex c \<or> (CHR ''A'' \<le> c \<and> c \<le> CHR ''F'')) \<and>
     (if d = CHR ''_'' then hex_digits_ok s else hex_digits_ok (d # s)))"

definition int16_ok :: "string \<Rightarrow> bool" where
  "int16_ok s = (let t = strip s; u = (if startswith t ''+'' then tl t else t);
       prefixed = startswith u ''0x'' \<or> startswith u ''0X'';
       w = (if prefixed then drop 2 u else u) in
     hex_digits_ok (if prefixed \<and> startswith w ''_'' then tl w else w))"

definition strip_braces :: "string \<Rightarrow> string" where
  "strip_braces s = (let brace = (\<lambda>c. c = CHR 0x7B \<or> c = CHR 0x7D) in rev (dropWhile brace (rev (dropWhile brace s))))"

definition uuid :: "string \<Rightarrow> unit res" where
  "uuid s = (let h = filter (\<lambda>c. c \<noteq> CHR ''-'') (strip_braces (replace_from 0 ''uuid:'' [] (replace_from 0 ''urn:'' [] s))) in
     require (length h = 32) ''badly formed hexadecimal UUID string'' (
     require (int16_ok h) ''invalid literal for int() with base 16'' (Inr ())))"

section \<open>Published artifacts\<close>

definition not_ok :: "string \<Rightarrow> nat \<Rightarrow> string \<Rightarrow> string" where
  "not_ok what status name = what @ '' returned HTTP '' @ show_nat status @ '': '' @ name"

definition is_404 :: "exn \<Rightarrow> bool" where
  "is_404 e = (case e of HTTPError n _ \<Rightarrow> n = 404 | _ \<Rightarrow> False)"

text \<open>One artifact and its signature: \<open>False\<close> when it is the first one and absent.\<close>

definition signature_reply :: "tools \<Rightarrow> string \<Rightarrow> string \<Rightarrow> nat \<times> string \<Rightarrow> bool res" where
  "signature_reply ts name copy = (\<lambda>(status, sig).
     require (status = 200) (not_ok ''public signature'' status name) (
     erequire (gpg_verify ts sig copy) (''invalid published signature: '' @ name) (Inr True)))"

definition artifact_reply :: "(string \<times> string) list \<Rightarrow> string \<Rightarrow> nat \<times> string \<Rightarrow> string res" where
  "artifact_reply zs name = (\<lambda>(status, copy).
     require (status = 200) (not_ok ''public artifact'' status name) (
     ebind (archive_read zs name) (\<lambda>data.
     require (copy = data) (''published artifact differs from verified bundle: '' @ name) (Inr copy))))"

definition published_one :: "tools \<Rightarrow> internet \<Rightarrow> (string \<times> string) list \<Rightarrow> string \<Rightarrow> bool \<Rightarrow> string \<Rightarrow> bool act" where
  "published_one ts net zs repository first name fx =
     (let url = repository @ ''/'' @ name in
      case urlopen net (Get url []) fx of
        (fx1, Inl e) \<Rightarrow> (fx1, if first \<and> is_404 e then Inr False else Inl e)
      | (fx1, Inr reply) \<Rightarrow> (case artifact_reply zs name reply of
            Inl e \<Rightarrow> (fx1, Inl e)
          | Inr copy \<Rightarrow> (case urlopen net (Get (url @ ''.asc'') []) fx1 of
              (fx2, reply2) \<Rightarrow> (fx2, ebind reply2 (signature_reply ts name copy)))))"

fun published_from :: "tools \<Rightarrow> internet \<Rightarrow> (string \<times> string) list \<Rightarrow> string \<Rightarrow> bool \<Rightarrow> string list \<Rightarrow> bool act" where
  "published_from ts net zs repository first [] fx = (fx, Inr True)"
| "published_from ts net zs repository first (name # names) fx =
     (case published_one ts net zs repository first name fx of
        (fx1, Inl e) \<Rightarrow> (fx1, Inl e)
      | (fx1, Inr there) \<Rightarrow> if there then published_from ts net zs repository False names fx1 else (fx1, Inr False))"

definition published_coordinate :: "tools \<Rightarrow> internet \<Rightarrow> string \<Rightarrow> string \<Rightarrow> string \<Rightarrow> bool act" where
  "published_coordinate ts net data target repository fx = (case unzip ts data of
     Inl e \<Rightarrow> (fx, Inl e)
   | Inr zs \<Rightarrow> published_from ts net zs repository True (map (entry_name target) SUFFIXES) fx)"

section \<open>An existing deployment\<close>

definition purl :: "string \<Rightarrow> string" where
  "purl target = ''pkg:maven/'' @ GROUP @ ''/'' @ ARTIFACT @ ''@'' @ target"

definition or_empty :: "pv \<Rightarrow> pv" where
  "or_empty v = (if truthy v then v else PList [])"

definition deployment_item :: "string \<Rightarrow> string \<Rightarrow> pv \<Rightarrow> string list \<Rightarrow> string list res" where
  "deployment_item name target entry matches =
     require (is_dict entry) ''invalid Central deployment item'' (
     if fld entry ''deploymentName'' \<noteq> PStr name \<or> fld entry ''namespace'' \<noteq> PStr GROUP then Inr matches
     else let components = or_empty (fld entry ''deploymentComponents''); ident = fld entry ''deploymentId'' in
       require (is_list components \<and> list_all is_dict (elems_of components)) ''invalid matching deployment components'' (
       require (list_all (\<lambda>c. fld c ''purl'' = PNone \<or> fld c ''purl'' = PStr (purl target)) (elems_of components))
         ''matching deployment has another coordinate'' (
       require (is_str ident) ''matching deployment lacks an ID'' (
       ebind (uuid (str_of ident)) (\<lambda>_. Inr (List.insert (str_of ident) matches))))))"

definition listing_page :: "internet \<Rightarrow> string \<Rightarrow> string \<Rightarrow> nat \<times> string \<Rightarrow> string list \<Rightarrow> (string list \<times> int) res" where
  "listing_page net name target reply matches =
     require (fst reply = 200) (''Central deployment list returned HTTP '' @ show_nat (fst reply)) (
     ebind (json_of net (snd reply)) (\<lambda>listing.
     require (is_dict listing) ''invalid Central deployment list'' (
     let deployments = fld listing ''deployments'' in
     case int_like (fld listing ''pageCount'') of
       None \<Rightarrow> Inl (ValueError ''invalid Central deployment pagination'')
     | Some n \<Rightarrow>
         require (is_list deployments \<and> 0 \<le> n) ''invalid Central deployment pagination'' (
         ebind (efold (deployment_item name target) (elems_of deployments) matches) (\<lambda>ms. Inr (ms, n))))))"

definition list_request :: "string \<Rightarrow> string \<Rightarrow> string \<Rightarrow> nat \<Rightarrow> request" where
  "list_request base name token page = Get (base @ ''/api/v1/publisher/deployments?'' @
     urlencode [(''namespace'', GROUP), (''deploymentName'', name), (''page'', show_nat page), (''size'', ''100'')]) (''Bearer '' @ token)"

definition ask_page :: "internet \<Rightarrow> string \<Rightarrow> string \<Rightarrow> string \<Rightarrow> string \<Rightarrow> nat \<Rightarrow> string list \<Rightarrow> (string list \<times> int) act" where
  "ask_page net base name target token page matches fx =
     (case urlopen net (list_request base name token page) fx of (fx1, reply) \<Rightarrow>
       (fx1, ebind reply (\<lambda>r. listing_page net name target r matches)))"

text \<open>The body of the loop over the pages: it ends only if their announced number does not keep growing.\<close>

definition page_body ::
  "internet \<Rightarrow> string \<Rightarrow> string \<Rightarrow> string \<Rightarrow> string \<Rightarrow> nat \<times> string list \<Rightarrow> (nat \<times> string list + string list) act" where
  "page_body net base name target token = (\<lambda>(page, matches) fx.
     (case ask_page net base name target token page matches fx of
        (fx1, Inl e) \<Rightarrow> (fx1, Inl e)
      | (fx1, Inr (ms, n)) \<Rightarrow> (fx1, Inr (if n \<le> int (page + 1) then Inr ms else Inl (page + 1, ms)))))"

definition one_match :: "string list \<Rightarrow> string option res" where
  "one_match matches = require (length matches \<le> 1) ''multiple deployments match this release''
     (Inr (case matches of [] \<Rightarrow> None | m # _ \<Rightarrow> Some m))"

definition existing_deployment ::
  "internet \<Rightarrow> string \<Rightarrow> string \<Rightarrow> string \<Rightarrow> string \<Rightarrow> effect list \<Rightarrow> (effect list \<times> string option res) option" where
  "existing_deployment net name target token base fx =
     map_option (\<lambda>(fx1, r). (fx1, ebind r one_match)) (repeat_until (page_body net base name target token) (0, []) fx)"

section \<open>Waiting for the publication\<close>

definition poll_request :: "string \<Rightarrow> string \<Rightarrow> string \<Rightarrow> request" where
  "poll_request base ident token =
     Post (base @ ''/api/v1/publisher/status?'' @ urlencode [(''id'', ident)]) (''Bearer '' @ token) [] []"

text \<open>The reading of one status: published, or still under way.\<close>

definition read_status :: "tools \<Rightarrow> internet \<Rightarrow> string \<Rightarrow> string \<Rightarrow> nat \<times> string \<Rightarrow> bool res" where
  "read_status ts net ident target reply =
     require (fst reply = 200) (''Central status returned HTTP '' @ show_nat (fst reply)) (
     ebind (json_of net (snd reply)) (\<lambda>v.
     require (is_dict v) ''invalid Central status response'' (
     require (fld v ''deploymentId'' = PStr ident) ''Central status returned another deployment'' (
     let state = fld v ''deploymentState'' in
     if state = PStr ''PUBLISHED'' then
       erequire (py_in (purl target) (or_empty (fld v ''purls''))) ''published deployment lacks expected coordinate'' (Inr True)
     else require (state \<in> {PStr ''PENDING'', PStr ''VALIDATING'', PStr ''PUBLISHING''})
       (''Central deployment did not publish: '' @ py_str (show_value ts) state) (Inr False)))))"

definition poll :: "tools \<Rightarrow> internet \<Rightarrow> string \<Rightarrow> string \<Rightarrow> string \<Rightarrow> string \<Rightarrow> bool act" where
  "poll ts net base ident target token fx = (case urlopen net (poll_request base ident token) fx of
     (fx1, reply) \<Rightarrow> (fx1, ebind reply (read_status ts net ident target)))"

definition published_line :: "string \<Rightarrow> string \<Rightarrow> effect" where
  "published_line target rest = Printed (''JAVA_CENTRAL_PUBLISH_RESULT version='' @ target @ rest)"

definition wait_body ::
  "tools \<Rightarrow> internet \<Rightarrow> string \<Rightarrow> string \<Rightarrow> string \<Rightarrow> string \<Rightarrow> rat \<Rightarrow> unit \<Rightarrow> (unit + unit) act" where
  "wait_body ts net base ident target token deadline = (\<lambda>_ fx.
     (case poll ts net base ident target token fx of
        (fx1, Inl e) \<Rightarrow> (fx1, Inl e)
      | (fx1, Inr arrived) \<Rightarrow>
          if arrived then (fx1 @ [published_line target ('' deployment='' @ ident @ '' state=published'')], Inr (Inr ()))
          else if deadline \<le> clock net fx1 then (fx1, Inl (ValueError ''timed out waiting for Central publication''))
          else (fx1 @ [Slept (min 15 (max 0 (deadline - clock net fx1)))], Inr (Inl ()))))"

definition wait_for_publication ::
  "tools \<Rightarrow> internet \<Rightarrow> string \<Rightarrow> string \<Rightarrow> string \<Rightarrow> string \<Rightarrow> effect list \<Rightarrow> (effect list \<times> unit res) option" where
  "wait_for_publication ts net ident target token base fx =
     repeat_until (wait_body ts net base ident target token (clock net fx + 1800)) () fx"

section \<open>Publishing a bundle\<close>

definition crlf :: string where "crlf = [CHR 0x0D, CHR 0x0A]"

definition upload_body :: "internet \<Rightarrow> string \<Rightarrow> string" where
  "upload_body net data = (let boundary = ''weavegate-'' @ boundary_hex net in
     ''--'' @ boundary @ crlf @ ''Content-Disposition: form-data; name=\"bundle\"; filename=\"central-bundle.zip\"'' @ crlf @
     ''Content-Type: application/octet-stream'' @ crlf @ crlf @ data @ crlf @ ''--'' @ boundary @ ''--'' @ crlf)"

definition upload_request :: "internet \<Rightarrow> string \<Rightarrow> string \<Rightarrow> string \<Rightarrow> string \<Rightarrow> request" where
  "upload_request net base name token data =
     Post (base @ ''/api/v1/publisher/upload?'' @ urlencode [(''name'', name), (''publishingType'', ''AUTOMATIC'')])
       (''Bearer '' @ token) (''multipart/form-data; boundary='' @ ''weavegate-'' @ boundary_hex net) (upload_body net data)"

definition upload :: "internet \<Rightarrow> string \<Rightarrow> string \<Rightarrow> string \<Rightarrow> string \<Rightarrow> string act" where
  "upload net base name token data fx = (case urlopen net (upload_request net base name token data) fx of
     (fx1, reply) \<Rightarrow> (fx1, ebind reply (\<lambda>(status, body).
       require (status = 201) (''Central upload returned HTTP '' @ show_nat status) (
       ebind (decode_ascii body) (\<lambda>t.
       (case uuid (strip t) of Inl _ \<Rightarrow> Inl (ValueError ''Central returned an invalid deployment ID'')
        | Inr _ \<Rightarrow> Inr (strip t)))))))"

definition url_error :: "exn \<Rightarrow> bool" where
  "url_error e = (case e of URLError _ \<Rightarrow> True | HTTPError _ _ \<Rightarrow> True | _ \<Rightarrow> False)"

text \<open>After the check for published artifacts: the line printed when they are there, else what follows.\<close>

definition unless_published ::
  "tools \<Rightarrow> internet \<Rightarrow> string \<Rightarrow> string \<Rightarrow> string \<Rightarrow> effect list \<Rightarrow>
   (effect list \<Rightarrow> (effect list \<times> unit res) option) \<Rightarrow> (effect list \<times> unit res) option" where
  "unless_published ts net data target repository fx absent =
     (case published_coordinate ts net data target repository fx of
        (fx1, Inl e) \<Rightarrow> Some (fx1, Inl e)
      | (fx1, Inr True) \<Rightarrow> Some (fx1 @ [published_line target '' state=published source=repository''], Inr ())
      | (fx1, Inr False) \<Rightarrow> absent fx1)"

definition upload_and_wait ::
  "tools \<Rightarrow> internet \<Rightarrow> string \<Rightarrow> string \<Rightarrow> string \<Rightarrow> string \<Rightarrow> string \<Rightarrow> effect list \<Rightarrow> (effect list \<times> unit res) option" where
  "upload_and_wait ts net base name target token data fx =
     (case upload net base name token data fx of
        (fx1, Inl e) \<Rightarrow> Some (fx1, Inl e)
      | (fx1, Inr ident) \<Rightarrow> wait_for_publication ts net ident target token base fx1)"

record credentials =
  username :: string
  password :: string

definition token_of :: "credentials \<Rightarrow> string" where
  "token_of c = b64 (utf8 (username c @ '':'' @ password c))"

definition deployment_name :: "string \<Rightarrow> string \<Rightarrow> string" where
  "deployment_name target revision = ARTIFACT @ ''-'' @ target @ ''-'' @ revision"

definition publish_verified ::
  "tools \<Rightarrow> internet \<Rightarrow> string \<Rightarrow> string \<Rightarrow> string \<Rightarrow> string \<Rightarrow> string \<Rightarrow> string \<Rightarrow> effect list \<Rightarrow> (effect list \<times> unit res) option" where
  "publish_verified ts net data target token name base repository fx =
     (case existing_deployment net name target token base fx of
        None \<Rightarrow> None
      | Some (fx1, Inl e) \<Rightarrow>
          if url_error e then unless_published ts net data target repository fx1 (\<lambda>fx2. Some (fx2, Inl e))
          else Some (fx1, Inl e)
      | Some (fx1, Inr (Some ident)) \<Rightarrow>
          if ident \<noteq> [] then wait_for_publication ts net ident target token base fx1
          else unless_published ts net data target repository fx1 (upload_and_wait ts net base name target token data)
      | Some (fx1, Inr None) \<Rightarrow>
          unless_published ts net data target repository fx1 (upload_and_wait ts net base name target token data))"

definition publish_bundle ::
  "tools \<Rightarrow> internet \<Rightarrow> string res \<Rightarrow> string \<Rightarrow> credentials \<Rightarrow> string \<Rightarrow> string \<Rightarrow> string \<Rightarrow> effect list \<Rightarrow> (effect list \<times> unit res) option" where
  "publish_bundle ts net file target cred revision base repository fx =
     (case require (hex_string 40 revision) ''invalid release revision'' (
           ebind file (\<lambda>data. ebind (verify_bundle ts data target) (\<lambda>_. Inr data))) of
        Inl e \<Rightarrow> Some (fx, Inl e)
      | Inr data \<Rightarrow> publish_verified ts net data target (token_of cred) (deployment_name target revision) base repository fx)"

text \<open>The command line's \<open>publish\<close>: without credentials nothing is asked.\<close>

definition publish_command ::
  "tools \<Rightarrow> internet \<Rightarrow> string res \<Rightarrow> string \<Rightarrow> credentials \<Rightarrow> string \<Rightarrow> (effect list \<times> unit res) option" where
  "publish_command ts net file target cred revision =
     (if username cred = [] \<or> password cred = [] then Some ([], Inl (ValueError ''missing Central token credentials''))
      else publish_bundle ts net file target cred revision CENTRAL_URL REPOSITORY_URL [])"

section \<open>What a run adds to its effects\<close>

definition is_upload :: "string \<Rightarrow> effect \<Rightarrow> bool" where
  "is_upload base e = (case e of Asked (Post url _ _ _) \<Rightarrow> startswith url (base @ ''/api/v1/publisher/upload?'') | _ \<Rightarrow> False)"

text \<open>\<open>quiet base fx fx'\<close>: the effects grew, without an upload.\<close>

definition quiet :: "string \<Rightarrow> effect list \<Rightarrow> effect list \<Rightarrow> bool" where
  "quiet base fx fx' = (\<exists>new. fx' = fx @ new \<and> filter (is_upload base) new = [])"

lemma quiet_refl [simp]: "quiet base fx fx"
  by (simp add: quiet_def)

lemma quiet_step: "quiet base fx fx1 \<Longrightarrow> \<not> is_upload base e \<Longrightarrow> quiet base fx (fx1 @ [e])"
  by (auto simp: quiet_def)

lemma quiet_trans: "quiet base fx fx1 \<Longrightarrow> quiet base fx1 fx2 \<Longrightarrow> quiet base fx fx2"
  by (auto simp: quiet_def)

lemma quiet_uploads: "quiet base fx fx' \<Longrightarrow> filter (is_upload base) fx' = filter (is_upload base) fx"
  by (auto simp: quiet_def)

lemma no_upload [simp]:
  "\<not> is_upload base (Printed s)" "\<not> is_upload base (Slept d)" "\<not> is_upload base (Asked (Get url a))"
  "\<not> is_upload base (published_line target s)" "\<not> is_upload base (Asked (list_request base name token page))"
  "\<not> is_upload base (Asked (poll_request base ident token))"
  by (simp_all add: is_upload_def published_line_def list_request_def poll_request_def startswith_def)

lemma upload_is_upload [simp]: "is_upload base (Asked (upload_request net base name token data))"
  by (simp add: is_upload_def upload_request_def startswith_def)

lemma ask_page_quiet: "ask_page net base name target token page ms fx = (fx1, r) \<Longrightarrow> quiet base fx fx1"
  by (auto simp: ask_page_def urlopen_def intro: quiet_step)

lemma poll_quiet: "poll ts net base ident target token fx = (fx1, r) \<Longrightarrow> quiet base fx fx1"
  by (auto simp: poll_def urlopen_def intro: quiet_step)

section \<open>Loops\<close>

lemma repeat_until_rule:
  assumes run: "repeat_until body s fx = Some (fx', r)" and start: "I s fx"
    and continue: "\<And>s fx fx1 s'. I s fx \<Longrightarrow> body s fx = (fx1, Inr (Inl s')) \<Longrightarrow> I s' fx1"
    and break: "\<And>s fx fx1 b. I s fx \<Longrightarrow> body s fx = (fx1, Inr (Inr b)) \<Longrightarrow> Q fx1 (Inr b)"
    and raise: "\<And>s fx fx1 e. I s fx \<Longrightarrow> body s fx = (fx1, Inl e) \<Longrightarrow> Q fx1 (Inl e)"
  shows "Q fx' r"
proof -
  have "body = body \<longrightarrow> I s fx \<longrightarrow> Q (fst (fx', r)) (snd (fx', r))"
  proof (rule repeat_until.raw_induct [where P = "\<lambda>b s fx y. b = body \<longrightarrow> I s fx \<longrightarrow> Q (fst y) (snd y)", OF _ run])
    fix f b s fx y
    assume IH: "\<And>b s fx y. f b s fx = Some y \<Longrightarrow> b = body \<longrightarrow> I s fx \<longrightarrow> Q (fst y) (snd y)"
      and eq: "(case b s fx of (fx1, Inl e) \<Rightarrow> Some (fx1, Inl e)
        | (fx1, Inr out) \<Rightarrow> (case out of Inl s' \<Rightarrow> f b s' fx1 | Inr b \<Rightarrow> Some (fx1, Inr b))) = Some y"
    show "b = body \<longrightarrow> I s fx \<longrightarrow> Q (fst y) (snd y)"
    proof (intro impI)
      assume "b = body" "I s fx"
      then show "Q (fst y) (snd y)" using eq IH continue break raise
        by (auto split: prod.splits sum.splits)
    qed
  qed
  then show ?thesis using start by simp
qed

text \<open>The contract of a loop that ends: an invariant under which every further round has less left to do.\<close>

locale ending_loop =
  fixes body :: "'s \<Rightarrow> effect list \<Rightarrow> effect list \<times> ('s + 'b) res"
    and inv :: "'s \<Rightarrow> effect list \<Rightarrow> bool"
    and left :: "'s \<Rightarrow> effect list \<Rightarrow> nat"
  assumes round: "inv s fx \<Longrightarrow> body s fx = (fx1, Inr (Inl s')) \<Longrightarrow> inv s' fx1 \<and> left s' fx1 < left s fx"
begin

lemma returns: "inv s fx \<Longrightarrow> \<exists>y. repeat_until body s fx = Some y"
proof (induction "left s fx" arbitrary: s fx rule: less_induct)
  case less
  obtain fx1 r where b: "body s fx = (fx1, r)" by fastforce
  show ?case
  proof (cases "\<exists>s'. r = Inr (Inl s')")
    case True
    then obtain s' where r: "r = Inr (Inl s')" by blast
    have "inv s' fx1" "left s' fx1 < left s fx" using round [OF less.prems] b r by auto
    then have "\<exists>y. repeat_until body s' fx1 = Some y" using less.hyps by blast
    then show ?thesis using b r by (simp add: repeat_until.simps [of body s])
  next
    case False
    then show ?thesis using b by (auto simp: repeat_until.simps [of body s] split: sum.splits)
  qed
qed

end

section \<open>At most one upload, of verified bytes\<close>

lemma existing_quiet:
  assumes "existing_deployment net name target token base fx = Some (fx', r)"
  shows "quiet base fx fx'"
proof -
  obtain ms where run: "repeat_until (page_body net base name target token) (0, []) fx = Some (fx', ms)"
    using assms by (auto simp: existing_deployment_def)
  show ?thesis
    by (rule repeat_until_rule [OF run, where I = "\<lambda>_ fx1. quiet base fx fx1" and Q = "\<lambda>fx1 _. quiet base fx fx1"])
      (auto simp: page_body_def split: prod.splits sum.splits if_splits intro: quiet_trans dest: ask_page_quiet)
qed

lemma wait_quiet:
  assumes "wait_for_publication ts net ident target token base fx = Some (fx', r)"
  shows "quiet base fx fx'"
  by (rule repeat_until_rule [OF assms [unfolded wait_for_publication_def],
        where I = "\<lambda>_ fx1. quiet base fx fx1" and Q = "\<lambda>fx1 _. quiet base fx fx1"])
    (auto simp: wait_body_def split: prod.splits sum.splits if_splits intro!: quiet_step dest!: poll_quiet intro: quiet_trans)

lemma published_one_quiet: "published_one ts net zs repository first name fx = (fx', r) \<Longrightarrow> quiet base fx fx'"
  by (auto simp: published_one_def urlopen_def Let_def quiet_def split: prod.splits sum.splits)

lemma published_from_quiet: "published_from ts net zs repository first names fx = (fx', r) \<Longrightarrow> quiet base fx fx'"
proof (induction names arbitrary: first fx)
  case (Cons name names)
  then show ?case
    by (auto split: prod.splits sum.splits if_splits dest: published_one_quiet intro: quiet_trans)
qed simp

lemma coordinate_quiet: "published_coordinate ts net data target repository fx = (fx', r) \<Longrightarrow> quiet base fx fx'"
  by (auto simp: published_coordinate_def split: sum.splits intro: published_from_quiet)

text \<open>A deployment found is a UUID, so it is not the empty text.\<close>

lemma uuid_nonempty: "uuid s = Inr () \<Longrightarrow> s \<noteq> []"
  by (auto simp: uuid_def Let_def strip_braces_def)

lemma deployment_item_uuids:
  "deployment_item name target v ms = Inr ms' \<Longrightarrow> [] \<notin> set ms \<Longrightarrow> [] \<notin> set ms'"
  by (auto simp: deployment_item_def Let_def ebind_eq_Inr dest: uuid_nonempty split: if_splits)

lemma ask_page_uuids:
  assumes "ask_page net base name target token page ms fx = (fx1, Inr (ms', n))" "[] \<notin> set ms"
  shows "[] \<notin> set ms'"
proof -
  obtain ds where "efold (deployment_item name target) ds ms = Inr ms'"
    using assms(1) by (auto simp: ask_page_def listing_page_def Let_def ebind_eq_Inr split: prod.splits option.splits)
  then show ?thesis
    by (rule efold_invariant [where I = "\<lambda>ms. [] \<notin> set ms"]) (use assms(2) deployment_item_uuids in auto)
qed

lemma existing_nonempty: "existing_deployment net name target token base fx \<noteq> Some (fx', Inr (Some []))"
proof
  assume "existing_deployment net name target token base fx = Some (fx', Inr (Some []))"
  then obtain ms where run: "repeat_until (page_body net base name target token) (0, []) fx = Some (fx', ms)"
      and one: "ebind ms one_match = Inr (Some [])"
    by (auto simp: existing_deployment_def)
  have "\<forall>xs. ms = Inr xs \<longrightarrow> [] \<notin> set xs"
    by (rule repeat_until_rule [OF run, where I = "\<lambda>s _. [] \<notin> set (snd s)" and Q = "\<lambda>_ r. \<forall>xs. r = Inr xs \<longrightarrow> [] \<notin> set xs"])
      (auto simp: page_body_def split: prod.splits sum.splits if_splits dest: ask_page_uuids)
  then show False using one by (cases ms) (auto simp: one_match_def split: list.splits)
qed

lemma upload_and_wait_effects:
  assumes "upload_and_wait ts net base name target token data fx = Some (fx', r)"
  shows "quiet base (fx @ [Asked (upload_request net base name token data)]) fx'"
  using assms by (auto simp: upload_and_wait_def upload_def urlopen_def split: sum.splits intro: wait_quiet)

lemma unless_published_cases:
  assumes "unless_published ts net data target repository fx absent = Some (fx', r)"
  shows "quiet base fx fx' \<or> (\<exists>fx2. published_coordinate ts net data target repository fx = (fx2, Inr False) \<and>
    quiet base fx fx2 \<and> absent fx2 = Some (fx', r))"
proof -
  obtain fx2 q where pc: "published_coordinate ts net data target repository fx = (fx2, q)" by fastforce
  then have "quiet base fx fx2" by (rule coordinate_quiet)
  then show ?thesis using assms pc by (cases q) (auto simp: unless_published_def quiet_step split: bool.splits)
qed

text \<open>
  C28. One upload, of verified bytes, and only of a release that is not there: when \<open>publish_bundle\<close> returns
  and an upload is among its requests, then the file read was accepted by \<open>verify_bundle\<close> and exactly its
  bytes were sent, in the only upload of the run; before it, all pages of Central listed no deployment of this
  tag and commit, and the repository answered 404 for the coordinate.
\<close>

theorem upload_only_verified:
  assumes run: "publish_bundle ts net file target cred revision base repository [] = Some (fx, r)"
    and e: "e \<in> set fx" "is_upload base e"
  shows "\<exists>data fx1 fx2. file = Inr data \<and> verify_bundle ts data target = Inr () \<and>
    existing_deployment net (deployment_name target revision) target (token_of cred) base [] = Some (fx1, Inr None) \<and>
    published_coordinate ts net data target repository fx1 = (fx2, Inr False) \<and>
    e = Asked (upload_request net base (deployment_name target revision) (token_of cred) data) \<and>
    filter (is_upload base) fx = [e]"
proof -
  let ?name = "deployment_name target revision" and ?token = "token_of cred"
  have loud: "\<not> quiet base [] fx" using e quiet_uploads [of base "[]" fx] by (auto simp: filter_empty_conv)
  obtain data where data: "file = Inr data" "verify_bundle ts data target = Inr ()"
    and pub: "publish_verified ts net data target ?token ?name base repository [] = Some (fx, r)"
    using run loud by (auto simp: publish_bundle_def ebind_eq_Inr split: sum.splits)
  obtain fx1 found where ex: "existing_deployment net ?name target ?token base [] = Some (fx1, found)"
    using pub by (auto simp: publish_verified_def split: option.splits)
  have q: "quiet base [] fx1" by (rule existing_quiet [OF ex])
  have none: "found = Inr None" and
    up: "unless_published ts net data target repository fx1 (upload_and_wait ts net base ?name target ?token data) = Some (fx, r)"
  proof -
    have "found = Inr None \<and>
      unless_published ts net data target repository fx1 (upload_and_wait ts net base ?name target ?token data) = Some (fx, r)"
    proof (cases found)
      case (Inl x)
      then show ?thesis
        using pub ex loud q unless_published_cases [of ts net data target repository fx1 "\<lambda>fx2. Some (fx2, Inl x)" fx r base]
        by (auto simp: publish_verified_def split: if_splits dest: quiet_trans)
    next
      case (Inr o1)
      then show ?thesis
        using pub ex loud existing_nonempty quiet_trans [OF q wait_quiet]
        by (cases o1) (auto simp: publish_verified_def split: if_splits)
    qed
    then show "found = Inr None" "unless_published ts net data target repository fx1
      (upload_and_wait ts net base ?name target ?token data) = Some (fx, r)" by auto
  qed
  obtain fx2 where pc: "published_coordinate ts net data target repository fx1 = (fx2, Inr False)" "quiet base fx1 fx2"
    and aw: "upload_and_wait ts net base ?name target ?token data fx2 = Some (fx, r)"
    using unless_published_cases [OF up, of base] loud q quiet_trans by blast
  have only: "filter (is_upload base) fx = [Asked (upload_request net base ?name ?token data)]"
    using quiet_uploads [OF upload_and_wait_effects [OF aw]] quiet_uploads [OF quiet_trans [OF q pc(2)]] by simp
  have "e \<in> set (filter (is_upload base) fx)" using e by simp
  then have "e = Asked (upload_request net base ?name ?token data)" unfolding only by simp
  then show ?thesis using data ex none pc(1) only by blast
qed

section \<open>What success means\<close>

text \<open>A request of the run and its answer.\<close>

definition answered :: "internet \<Rightarrow> effect list \<Rightarrow> request \<Rightarrow> nat \<times> string \<Rightarrow> bool" where
  "answered net fx rq reply = (\<exists>before after. fx = before @ Asked rq # after \<and> answer net before rq = Inr reply)"

lemma answered_last [simp]: "answer net fx rq = Inr reply \<Longrightarrow> answered net (fx @ [Asked rq]) rq reply"
  by (auto simp: answered_def)

lemma answered_quiet: "answered net fx rq reply \<Longrightarrow> quiet base fx fx' \<Longrightarrow> answered net fx' rq reply"
  unfolding answered_def quiet_def by fastforce

lemma answered_append [simp]: "answered net fx rq reply \<Longrightarrow> answered net (fx @ new) rq reply"
  unfolding answered_def by fastforce

text \<open>Central said that the deployment \<open>ident\<close> is published with the coordinate.\<close>

definition published_status :: "internet \<Rightarrow> effect list \<Rightarrow> string \<Rightarrow> string \<Rightarrow> string \<Rightarrow> string \<Rightarrow> bool" where
  "published_status net fx base token target ident = (\<exists>body v. answered net fx (poll_request base ident token) (200, body) \<and>
     json_of net body = Inr v \<and> fld v ''deploymentId'' = PStr ident \<and> fld v ''deploymentState'' = PStr ''PUBLISHED'' \<and>
     py_in (purl target) (or_empty (fld v ''purls'')) = Inr True)"

text \<open>The repository holds the artifact \<open>name\<close> of the archive, byte for byte, with a signature that verifies.\<close>

definition in_repository :: "tools \<Rightarrow> internet \<Rightarrow> effect list \<Rightarrow> string \<Rightarrow> (string \<times> string) list \<Rightarrow> string \<Rightarrow> bool" where
  "in_repository ts net fx repository zs name = (\<exists>data sig. archive_read zs name = Inr data \<and>
     answered net fx (Get (repository @ ''/'' @ name) []) (200, data) \<and>
     answered net fx (Get (repository @ ''/'' @ name @ ''.asc'') []) (200, sig) \<and> gpg_verify ts sig data = Inr True)"

lemma in_repository_quiet: "in_repository ts net fx repository zs name \<Longrightarrow> quiet base fx fx' \<Longrightarrow> in_repository ts net fx' repository zs name"
  unfolding in_repository_def using answered_quiet by blast

lemma published_one_there:
  assumes "published_one ts net zs repository first name fx = (fx', Inr True)"
  shows "in_repository ts net fx' repository zs name"
proof -
  let ?rq = "Get (repository @ ''/'' @ name) []" and ?rs = "Get (repository @ ''/'' @ name @ ''.asc'') []"
  obtain data sig where a: "answer net fx ?rq = Inr (200, data)" "archive_read zs name = Inr data"
      "answer net (fx @ [Asked ?rq]) ?rs = Inr (200, sig)" "gpg_verify ts sig data = Inr True"
      and fx': "fx' = (fx @ [Asked ?rq]) @ [Asked ?rs]"
    using assms
    by (auto simp: published_one_def urlopen_def Let_def artifact_reply_def signature_reply_def ebind_eq_Inr
      split: prod.splits sum.splits if_splits)
  have "answered net fx' ?rq (200, data)" "answered net fx' ?rs (200, sig)"
    unfolding fx' using answered_append [OF answered_last [OF a(1)], of "[Asked ?rs]"] answered_last [OF a(3)] by simp_all
  then show ?thesis using a unfolding in_repository_def by blast
qed

lemma published_from_there:
  "published_from ts net zs repository first names fx = (fx', Inr True) \<Longrightarrow> \<forall>name \<in> set names. in_repository ts net fx' repository zs name"
proof (induction names arbitrary: first fx)
  case (Cons name names)
  then obtain fx1 where one: "published_one ts net zs repository first name fx = (fx1, Inr True)"
    and rest: "published_from ts net zs repository False names fx1 = (fx', Inr True)"
    by (auto split: prod.splits sum.splits if_splits)
  have "in_repository ts net fx' repository zs name"
    by (rule in_repository_quiet [OF published_one_there [OF one] published_from_quiet [OF rest]])
  then show ?case using Cons.IH [OF rest] by simp
qed simp

lemma poll_arrived:
  assumes "poll ts net base ident target token fx = (fx1, Inr True)"
  shows "published_status net fx1 base token target ident"
proof -
  obtain body v where a: "answer net fx (poll_request base ident token) = Inr (200, body)" "json_of net body = Inr v"
      "fld v ''deploymentId'' = PStr ident" "fld v ''deploymentState'' = PStr ''PUBLISHED''"
      "py_in (purl target) (or_empty (fld v ''purls'')) = Inr True"
      and fx1: "fx1 = fx @ [Asked (poll_request base ident token)]"
    using assms by (auto simp: poll_def urlopen_def read_status_def Let_def ebind_eq_Inr split: if_splits)
  show ?thesis unfolding published_status_def fx1 using a answered_last [OF a(1)] by blast
qed

lemma published_status_append: "published_status net fx base token target ident \<Longrightarrow> published_status net (fx @ new) base token target ident"
  unfolding published_status_def using answered_append by blast

lemma wait_published:
  assumes "wait_for_publication ts net ident target token base fx = Some (fx', Inr ())"
  shows "published_status net fx' base token target ident"
proof -
  have "(Inr () :: unit res) = Inr () \<longrightarrow> published_status net fx' base token target ident"
    by (rule repeat_until_rule [OF assms [unfolded wait_for_publication_def], where I = "\<lambda>_ _. True"
          and Q = "\<lambda>fx1 r. r = Inr () \<longrightarrow> published_status net fx1 base token target ident"])
      (auto simp: wait_body_def split: prod.splits sum.splits if_splits dest: poll_arrived intro: published_status_append)
  then show ?thesis by simp
qed

lemma unless_published_done:
  assumes "unless_published ts net data target repository fx absent = Some (fx', Inr ())" "unzip ts data = Inr zs"
  shows "(\<forall>suffix \<in> set SUFFIXES. in_repository ts net fx' repository zs (entry_name target suffix)) \<or>
    (\<exists>fx2. absent fx2 = Some (fx', Inr ()))"
proof -
  obtain fx2 q where pc: "published_coordinate ts net data target repository fx = (fx2, q)" by fastforce
  show ?thesis
  proof (cases "q = Inr True")
    case True
    then have "published_from ts net zs repository True (map (entry_name target) SUFFIXES) fx = (fx2, Inr True)"
      using pc assms(2) by (simp add: published_coordinate_def)
    moreover have "quiet base fx2 fx'" for base using assms(1) pc True by (auto simp: unless_published_def quiet_def)
    ultimately show ?thesis using published_from_there in_repository_quiet by fastforce
  next
    case False
    then show ?thesis using assms(1) pc by (auto simp: unless_published_def split: sum.splits bool.splits)
  qed
qed

text \<open>
  C30. What success means: when \<open>publish_bundle\<close> returns without an exception, the file read was accepted by
  \<open>verify_bundle\<close>, and either Central reported some deployment published with the release's coordinate, or
  the repository served the four artifacts of the bundle byte for byte with signatures that verify.
\<close>

theorem publish_success:
  assumes "publish_bundle ts net source target cred revision base repository [] = Some (fx, Inr ())"
  shows "\<exists>data zs. source = Inr data \<and> unzip ts data = Inr zs \<and> verify_archive ts zs target = Inr () \<and>
    ((\<exists>ident. published_status net fx base (token_of cred) target ident) \<or>
     list_all (\<lambda>suffix. in_repository ts net fx repository zs (entry_name target suffix)) SUFFIXES)"
proof -
  let ?name = "deployment_name target revision" and ?token = "token_of cred"
  obtain data zs where data: "source = Inr data" "unzip ts data = Inr zs" "verify_archive ts zs target = Inr ()"
    and pub: "publish_verified ts net data target ?token ?name base repository [] = Some (fx, Inr ())"
    using assms by (auto simp: publish_bundle_def verify_bundle_def ebind_eq_Inr split: sum.splits)
  note over = unless_published_done [OF _ data(2)]
  define S where "S = (\<exists>ident. published_status net fx base ?token target ident)"
  have waited: "wait_for_publication ts net ident target ?token base fx1 = Some (fx, Inr ()) \<Longrightarrow> S" for ident fx1
    unfolding S_def using wait_published by blast
  have up: "upload_and_wait ts net base ?name target ?token data fx2 = Some (fx, Inr ()) \<Longrightarrow> S" for fx2
    by (auto simp: upload_and_wait_def split: prod.splits sum.splits intro: waited)
  have "S \<or> (\<forall>suffix \<in> set SUFFIXES. in_repository ts net fx repository zs (entry_name target suffix))"
    using pub by (auto simp: publish_verified_def split: option.splits sum.splits if_splits dest!: over dest: waited up)
  then show ?thesis using data by (auto simp: list_all_iff S_def)
qed

section \<open>The conversation ends\<close>

text \<open>Central announces no more than \<open>N\<close> pages; the monotonic clock never goes back and a sleep lasts as long as asked.\<close>

definition pages_bounded :: "internet \<Rightarrow> string \<Rightarrow> string \<Rightarrow> string \<Rightarrow> nat \<Rightarrow> bool" where
  "pages_bounded net base name token N = (\<forall>fx page body v k. answer net fx (list_request base name token page) = Inr (200, body) \<and>
     json_of net body = Inr v \<and> int_like (fld v ''pageCount'') = Some k \<longrightarrow> k \<le> int N)"

definition clock_advances :: "internet \<Rightarrow> bool" where
  "clock_advances net = ((\<forall>fx e. clock net fx \<le> clock net (fx @ [e])) \<and> (\<forall>fx d. clock net fx + d \<le> clock net (fx @ [Slept d])))"

lemma ask_page_bounded:
  assumes "pages_bounded net base name token N" "ask_page net base name target token page ms fx = (fx1, Inr (ms', n))"
  shows "n \<le> int N"
  using assms by (auto simp: pages_bounded_def ask_page_def urlopen_def listing_page_def Let_def ebind_eq_Inr split: option.splits)

interpretation paging: ending_loop "page_body net base name target token" "\<lambda>_ _. pages_bounded net base name token N"
  "\<lambda>s _. N - fst s" for net base name target token N
  by unfold_locales
    (auto simp: page_body_def split: prod.splits sum.splits if_splits dest!: ask_page_bounded)

lemma poll_clock:
  assumes "clock_advances net" "poll ts net base ident target token fx = (fx1, r)"
  shows "clock net fx \<le> clock net fx1"
  using assms by (auto simp: clock_advances_def poll_def urlopen_def)

lemma slept_closer:
  fixes deadline now later :: rat
  assumes "now < deadline" "now + min 15 (deadline - now) \<le> later" "t \<le> now"
  shows "nat \<lceil>deadline - later\<rceil> < nat \<lceil>deadline - t\<rceil>"
proof (cases "deadline - now \<le> 15")
  case True
  then have "deadline - later \<le> 0" using assms(2) by simp
  moreover have "0 < deadline - t" using assms by simp
  ultimately show ?thesis by (simp add: ceiling_le_zero zero_less_nat_eq nat_less_iff)
next
  case False
  then have "deadline - later \<le> deadline - t - 1" "0 < deadline - t" using assms by auto
  then have "\<lceil>deadline - later\<rceil> \<le> \<lceil>deadline - t\<rceil> - 1" "0 < \<lceil>deadline - t\<rceil>"
    using ceiling_mono [of "deadline - later" "deadline - t - 1"] by auto
  then show ?thesis by linarith
qed

interpretation polling: ending_loop "wait_body ts net base ident target token deadline" "\<lambda>_ _. clock_advances net"
  "\<lambda>_ fx. nat \<lceil>deadline - clock net fx\<rceil>" for ts net base ident target token deadline
proof
  fix s s' :: unit and fx fx1
  assume c: "clock_advances net" and b: "wait_body ts net base ident target token deadline s fx = (fx1, Inr (Inl s'))"
  obtain fx2 where p: "poll ts net base ident target token fx = (fx2, Inr False)" and late: "clock net fx2 < deadline"
    and fx1: "fx1 = fx2 @ [Slept (min 15 (deadline - clock net fx2))]"
    using b by (auto simp: wait_body_def split: prod.splits sum.splits if_splits)
  have "clock net fx2 + min 15 (deadline - clock net fx2) \<le> clock net fx1"
    using c unfolding fx1 clock_advances_def by blast
  then show "clock_advances net \<and> nat \<lceil>deadline - clock net fx1\<rceil> < nat \<lceil>deadline - clock net fx\<rceil>"
    using slept_closer [OF late _ poll_clock [OF c p]] c by blast
qed

lemma unless_published_returns: "(\<And>fx2. absent fx2 \<noteq> None) \<Longrightarrow> unless_published ts net data target repository fx absent \<noteq> None"
  by (auto simp: unless_published_def split: prod.splits sum.splits bool.splits)

text \<open>
  C37. The conversation ends: if Central announces boundedly many pages for this release, and the monotonic clock
  does not go back and advances by what \<open>time.sleep\<close> was asked for, then \<open>publish_bundle\<close> returns, with a
  result or with an exception, whatever the servers answer.
\<close>

theorem publish_returns:
  assumes "pages_bounded net base (deployment_name target revision) (token_of cred) N" "clock_advances net"
  shows "\<exists>y. publish_bundle ts net source target cred revision base repository fx = Some y"
proof -
  let ?name = "deployment_name target revision" and ?token = "token_of cred"
  have wait: "wait_for_publication ts net ident target ?token base fx1 \<noteq> None" for ident fx1
    using polling.returns [OF assms(2)] by (auto simp: wait_for_publication_def)
  have up: "upload_and_wait ts net base ?name target ?token data fx1 \<noteq> None" for data fx1
    using wait by (auto simp: upload_and_wait_def simp del: not_None_eq split: prod.splits sum.splits)
  obtain fx1 found where "existing_deployment net ?name target ?token base fx = Some (fx1, found)"
    using paging.returns [OF assms(1), of target "(0, [])" fx] by (auto simp: existing_deployment_def)
  then have "publish_verified ts net data target ?token ?name base repository fx \<noteq> None" for data
    using wait unless_published_returns [OF up] unless_published_returns [of "\<lambda>fx2. Some (fx2, Inl _)"]
    by (simp add: publish_verified_def split: sum.splits option.splits)
  then show ?thesis by (auto simp: publish_bundle_def simp del: not_None_eq split: sum.splits) auto
qed

section \<open>A sample publication\<close>

definition sample_id :: string where "sample_id = replicate 32 (CHR ''a'')"
definition sample_revision :: string where "sample_revision = replicate 40 (CHR ''b'')"
definition sample_cred :: credentials where "sample_cred = \<lparr>username = ''u'', password = ''p''\<rparr>"

definition slept :: "effect list \<Rightarrow> rat" where
  "slept fx = sum_list (map (\<lambda>e. case e of Slept d \<Rightarrow> max d 0 | _ \<Rightarrow> 0) fx)"

definition sample_net :: internet where
  "sample_net = \<lparr>answer = (\<lambda>fx rq. case rq of Get url auth \<Rightarrow> (if auth = [] then Inl (HTTPError 404 ''Not Found'') else Inr (200, ''page''))
       | Post url auth kind body \<Rightarrow> (if kind = [] then Inr (200, ''status'') else Inr (201, sample_id))),
     clock = slept,
     json_of = (\<lambda>s. Inr (if s = ''page'' then PDict [(''deployments'', PList []), (''pageCount'', PInt 0)]
       else PDict [(''deploymentId'', PStr sample_id), (''deploymentState'', PStr ''PUBLISHED''), (''purls'', PList [PStr (purl ''1.0.0'')])])),
     boundary_hex = ''0''\<rparr>"

definition sample_name :: string where "sample_name = deployment_name ''1.0.0'' sample_revision"

definition sample_upload :: effect where
  "sample_upload = Asked (upload_request sample_net ''c'' sample_name (token_of sample_cred) ''zip'')"

definition sample_effects :: "effect list" where
  "sample_effects = [Asked (list_request ''c'' sample_name (token_of sample_cred) 0),
     Asked (Get (''r/'' @ entry_name ''1.0.0'' ''.pom'') []), sample_upload,
     Asked (poll_request ''c'' sample_id (token_of sample_cred)),
     published_line ''1.0.0'' ('' deployment='' @ sample_id @ '' state=published'')]"

lemma sample_net_simps [simp]:
  "answer sample_net fx (list_request base name token page) = Inr (200, ''page'')"
  "answer sample_net fx (poll_request base ident token) = Inr (200, ''status'')"
  "answer sample_net fx (Get url []) = Inl (HTTPError 404 ''Not Found'')"
  "answer sample_net fx (upload_request net base name token data) = Inr (201, sample_id)"
  "json_of sample_net ''page'' = Inr (PDict [(''deployments'', PList []), (''pageCount'', PInt 0)])"
  "clock sample_net = slept"
  by (simp_all add: sample_net_def list_request_def poll_request_def upload_request_def)

lemma sample_listed:
  "existing_deployment sample_net name ''1.0.0'' token base fx = Some (fx @ [Asked (list_request base name token 0)], Inr None)"
  unfolding existing_deployment_def
  by (subst repeat_until.simps)
    (simp add: page_body_def ask_page_def urlopen_def listing_page_def Let_def fld_def int_like_def one_match_def)

lemma sample_absent:
  "published_coordinate sample_tools sample_net ''zip'' ''1.0.0'' repository fx =
     (fx @ [Asked (Get (repository @ ''/'' @ entry_name ''1.0.0'' ''.pom'') [])], Inr False)"
  by (simp add: published_coordinate_def sample_tools_def SUFFIXES_def published_one_def urlopen_def Let_def is_404_def)

lemma sample_uploaded:
  "upload sample_net base name token data fx = (fx @ [Asked (upload_request sample_net base name token data)], Inr sample_id)"
proof -
  have "decode_ascii sample_id = Inr sample_id" "strip sample_id = sample_id" "uuid sample_id = Inr ()" by code_simp+
  then show ?thesis by (simp add: upload_def urlopen_def)
qed

lemma sample_status:
  "read_status sample_tools sample_net sample_id ''1.0.0'' (200, ''status'') = Inr True"
  by code_simp

lemma sample_waited:
  "wait_for_publication sample_tools sample_net sample_id ''1.0.0'' token base fx =
     Some (fx @ [Asked (poll_request base sample_id token), published_line ''1.0.0'' ('' deployment='' @ sample_id @ '' state=published'')], Inr ())"
  unfolding wait_for_publication_def
  by (subst repeat_until.simps) (simp add: wait_body_def poll_def urlopen_def sample_status)

lemma sample_publish:
  "publish_bundle sample_tools sample_net (Inr ''zip'') ''1.0.0'' sample_cred sample_revision ''c'' ''r'' [] = Some (sample_effects, Inr ())"
proof -
  have "hex_string 40 sample_revision" by code_simp
  then show ?thesis
    by (simp add: publish_bundle_def publish_verified_def sample_verified sample_listed unless_published_def sample_absent
        upload_and_wait_def sample_uploaded sample_waited sample_effects_def sample_upload_def sample_name_def)
qed

lemma upload_only_verified_witness:
  "filter (is_upload ''c'') sample_effects = [sample_upload] \<and> verify_bundle sample_tools ''zip'' ''1.0.0'' = Inr ()"
proof -
  have "sample_upload \<in> set sample_effects" "is_upload ''c'' sample_upload"
    by (simp_all add: sample_effects_def sample_upload_def)
  from upload_only_verified [OF sample_publish this] show ?thesis by auto
qed

lemma publish_success_witness:
  "\<exists>zs. unzip sample_tools ''zip'' = Inr zs \<and> verify_archive sample_tools zs ''1.0.0'' = Inr ()"
  using publish_success [OF sample_publish] by auto

lemma slept_advances: "clock_advances sample_net"
  by (auto simp: clock_advances_def slept_def split: effect.split)

lemma publish_returns_witness:
  "\<exists>y. publish_bundle sample_tools sample_net (Inr ''zip'') ''1.0.0'' sample_cred sample_revision ''c'' ''r'' [] = Some y"
proof (rule publish_returns)
  show "pages_bounded sample_net ''c'' (deployment_name ''1.0.0'' sample_revision) (token_of sample_cred) 0"
    by (auto simp: pages_bounded_def fld_def int_like_def)
qed (rule slept_advances)

end
