(* ===== verification/Collector.thy ===== *)
theory Collector
  imports Redaction Support Evidence
begin

text \<open>
  The collector of the E1/E2 harness, \<open>harness/collector.py\<close>, over the modelled plan, guard, redaction and
  evidence functions: the admission of a block, the steps of an arm with their teardown, the quarantine of a
  block whose cleanup is unproven, and the final checkpoint.

  A step of the collector is an operation on the record \<open>col\<close>: the bundle with its guard, the redaction counts,
  the containment flag, the attempt document of the arm and the flag \<open>safe\<close>.  An operation returns or raises;
  \<open>andthen\<close>, \<open>handle\<close> and \<open>ensure\<close> are the sequence, the \<open>except\<close> and the \<open>finally\<close> of the code, and a fault is an
  exception, a \<open>ReceiptIntegrityError\<close> or an interrupt, which no \<open>except EVIDENCE_ERRORS\<close> catches.

  What happens outside (the hook that \<open>execution.execute\<close> runs, the files the execution pins name, the date,
  pending signals, the inodes of new files) is the record \<open>env\<close>, whose answers depend on the moments so far: hooks
  run, pins verified, dates read, files written, seals.
\<close>

section \<open>Operations\<close>

datatype fault = Failed exn | Integrity string | Interrupt

datatype moment = Ran string | Verified_pins | Read_date | Wrote path | Sealed

record attempt =
  at_state :: string
  at_reason :: string
  at_valid :: bool
  at_observation :: "string option"

record col =
  c_world :: world
  c_counts :: "path \<Rightarrow> pv option"
  c_contained :: bool
  c_state :: attempt
  c_safe :: bool
  c_moments :: "moment list"

type_synonym 'a op = "col \<Rightarrow> col \<times> (fault + 'a)"

definition give :: "'a \<Rightarrow> 'a op" where
  "give x c = (c, Inr x)"

definition stop :: "fault \<Rightarrow> 'a op" where
  "stop e c = (c, Inl e)"

definition andthen :: "'a op \<Rightarrow> ('a \<Rightarrow> 'b op) \<Rightarrow> 'b op" where
  "andthen m f c = (case m c of (c1, Inl e) \<Rightarrow> (c1, Inl e) | (c1, Inr x) \<Rightarrow> f x c1)"

definition handle :: "'a op \<Rightarrow> (fault \<Rightarrow> 'a op) \<Rightarrow> 'a op" where
  "handle m h c = (case m c of (c1, Inl e) \<Rightarrow> h e c1 | (c1, Inr x) \<Rightarrow> (c1, Inr x))"

definition ensure :: "'a op \<Rightarrow> unit op \<Rightarrow> 'a op" where
  "ensure m f c = (case m c of (c1, r) \<Rightarrow> (case f c1 of (c2, Inl e) \<Rightarrow> (c2, Inl e) | (c2, Inr _) \<Rightarrow> (c2, r)))"

definition ask :: "(col \<Rightarrow> 'a) \<Rightarrow> 'a op" where
  "ask f c = (c, Inr (f c))"

definition change :: "(col \<Rightarrow> col) \<Rightarrow> unit op" where
  "change f c = (f c, Inr ())"

definition lift :: "(col \<Rightarrow> 'a res) \<Rightarrow> 'a op" where
  "lift f c = (c, map_sum Failed id (f c))"

definition only_if :: "(col \<Rightarrow> bool) \<Rightarrow> unit op \<Rightarrow> unit op" where
  "only_if p m c = (if p c then m c else (c, Inr ()))"

definition on_world :: "(world \<Rightarrow> world \<times> unit res) \<Rightarrow> unit op" where
  "on_world f c = (case f (c_world c) of (w, r) \<Rightarrow> (c\<lparr>c_world := w\<rparr>, map_sum Failed id r))"

definition tree :: "col \<Rightarrow> bundle_tree" where
  "tree c = w_tree (c_world c)"

definition error :: "col \<Rightarrow> string option" where
  "error c = g_error (w_guard (c_world c))"

definition mark :: "moment \<Rightarrow> unit op" where
  "mark m = change (\<lambda>c. c\<lparr>c_moments := c_moments c @ [m]\<rparr>)"

definition set_error :: "(string option \<Rightarrow> string) \<Rightarrow> unit op" where
  "set_error f = change (\<lambda>c. c\<lparr>c_world := (c_world c)\<lparr>w_guard := (w_guard (c_world c))\<lparr>g_error := Some (f (error c))\<rparr>\<rparr>\<rparr>)"

definition set_tree :: "bundle_tree \<Rightarrow> unit op" where
  "set_tree b = change (\<lambda>c. c\<lparr>c_world := (c_world c)\<lparr>w_tree := b\<rparr>\<rparr>)"

definition set_state :: "(attempt \<Rightarrow> attempt) \<Rightarrow> unit op" where
  "set_state f = change (\<lambda>c. c\<lparr>c_state := f (c_state c)\<rparr>)"

section \<open>Outside the collector\<close>

record env =
  v_te :: trial_env
  v_dumps :: "pv \<Rightarrow> string"
  v_secrets :: "string list"
  v_manifest :: pv
  v_root :: string
  v_run :: "moment list \<Rightarrow> pv \<Rightarrow> path \<Rightarrow> string \<Rightarrow> world \<Rightarrow> bundle_tree \<times> inode res \<times> (fault + pv)"
  v_file_at :: "moment list \<Rightarrow> string \<Rightarrow> bool"
  v_may_run :: "moment list \<Rightarrow> string \<Rightarrow> bool"
  v_digest :: "moment list \<Rightarrow> string \<Rightarrow> string res"
  v_today :: "moment list \<Rightarrow> string"
  v_inode :: "moment list \<Rightarrow> path \<Rightarrow> inode"
  v_signal :: "moment list \<Rightarrow> bool"
  v_csv :: "string list \<Rightarrow> pv list \<Rightarrow> string"
  v_line :: "pv \<Rightarrow> string"

abbreviation v_sha :: "env \<Rightarrow> string \<Rightarrow> string" where "v_sha v \<equiv> te_sha (v_te v)"
abbreviation v_loads :: "env \<Rightarrow> string \<Rightarrow> pv res" where "v_loads v \<equiv> te_loads (v_te v)"

text \<open>\<open>with defer_interrupts()\<close>: a signal that arrived meanwhile is raised at the end of the block.\<close>

definition deferred :: "env \<Rightarrow> 'a op \<Rightarrow> 'a op" where
  "deferred v m c = (case m c of (c1, r) \<Rightarrow> if v_signal v (c_moments c1) then (c1, Inl Interrupt) else (c1, r))"

definition verify_pins :: "env \<Rightarrow> string list option \<Rightarrow> unit op" where
  "verify_pins v selected = andthen
     (lift (\<lambda>c. let now = c_moments c in
        Inr (verify_execution_pins (v_file_at v now) (v_may_run v now) (v_digest v now) (v_manifest v) selected)))
     (\<lambda>r. andthen (mark Verified_pins) (\<lambda>_. lift (\<lambda>_. r)))"

definition current_date :: "env \<Rightarrow> slot \<Rightarrow> bool op" where
  "current_date v slot = andthen (ask (\<lambda>c. slot_date slot = v_today v (c_moments c))) (\<lambda>b. andthen (mark Read_date) (\<lambda>_. give b))"

text \<open>\<open>except EVIDENCE_ERRORS as error\<close>: the text of the error.\<close>

definition evidence_text :: "fault \<Rightarrow> string option" where
  "evidence_text e = (case e of Failed x \<Rightarrow> if evidence_error x then Some (exn_text x) else None
     | Integrity m \<Rightarrow> Some m | Interrupt \<Rightarrow> None)"

definition value_or_os :: "fault \<Rightarrow> bool" where
  "value_or_os e = (case e of Failed x \<Rightarrow> is_value_error x \<or> os_error x | Integrity _ \<Rightarrow> True | Interrupt \<Rightarrow> False)"

section \<open>The guarded bundle\<close>

definition guard_check :: "env \<Rightarrow> path list \<Rightarrow> unit op" where
  "guard_check v writing = on_world (after_check (v_sha v) (v_secrets v) (map path_str writing) (\<lambda>w. (w, Inr ())))"

definition guard_mkdir :: "env \<Rightarrow> path \<Rightarrow> unit op" where
  "guard_mkdir v p = on_world (after_check (v_sha v) (v_secrets v) [] (mkdir p))"

definition guard_own :: "env \<Rightarrow> path \<Rightarrow> pv \<Rightarrow> unit op" where
  "guard_own v p x = andthen (ask (\<lambda>c. v_inode v (c_moments c) p)) (\<lambda>i. andthen
     (on_world (after_check (v_sha v) (v_secrets v) [] (own (v_sha v) p i (v_dumps v x)))) (\<lambda>_. mark (Wrote p)))"

definition guard_checkpoint :: "env \<Rightarrow> unit op" where
  "guard_checkpoint v = on_world (after_check (v_sha v) (v_secrets v) [] (checkpoint (v_sha v)))"

definition command_complete :: "env \<Rightarrow> path \<Rightarrow> string \<Rightarrow> unit op" where
  "command_complete v d step = on_world (after_check (v_sha v) (v_secrets v) (map path_str (receipt_paths d step))
     (record_receipts (v_sha v) (receipt_paths d step)))"

text \<open>\<open>write_bytes\<close>, without the guard.\<close>

definition write_bytes :: "env \<Rightarrow> path \<Rightarrow> string \<Rightarrow> unit op" where
  "write_bytes v p data = andthen (lift (\<lambda>c. if \<not> parent_is_dir (tree c) p \<or> map_of (tree c) p = Some Dir
       then Inl (OSError (path_str p)) else Inr (put_file p (v_inode v (c_moments c) p) data (tree c))))
     (\<lambda>b. andthen (set_tree b) (\<lambda>_. mark (Wrote p)))"

definition write_json :: "env \<Rightarrow> path \<Rightarrow> pv \<Rightarrow> unit op" where
  "write_json v p x = write_bytes v p (v_dumps v x)"

definition count_of :: "col \<Rightarrow> path \<Rightarrow> pv" where
  "count_of c d = (case c_counts c d of Some n \<Rightarrow> n | None \<Rightarrow> PInt 0)"

definition add_count :: "path \<Rightarrow> pv \<Rightarrow> unit op" where
  "add_count d n = andthen (lift (\<lambda>c. py_add (count_of c d) n)) (\<lambda>k. change (\<lambda>c. c\<lparr>c_counts := (c_counts c)(d \<mapsto> k)\<rparr>))"

definition save :: "env \<Rightarrow> path \<Rightarrow> pv \<Rightarrow> unit op" where
  "save v p x = andthen (lift (\<lambda>_. redact_metadata (v_secrets v) (last p) x)) (\<lambda>(y, n).
     andthen (only_if (\<lambda>c. g_active (w_guard (c_world c)) = Some (butlast p)) (add_count (butlast p) (PInt (int n)))) (\<lambda>_.
     andthen (ask (\<lambda>c. error c = None)) (\<lambda>intact. if intact then guard_own v p y else write_json v p y)))"

text \<open>\<open>redaction.sanitize\<close> with the tree it leaves when it raises.\<close>

fun sanitize_files_left ::
  "(string \<Rightarrow> pv res) \<Rightarrow> (pv \<Rightarrow> string) \<Rightarrow> (path \<Rightarrow> inode) \<Rightarrow> string list \<Rightarrow> path list \<Rightarrow> (path \<times> node) list \<Rightarrow>
     bundle_tree \<Rightarrow> bundle_tree \<times> nat res" where
  "sanitize_files_left loads dumps fresh secrets owned [] b = (b, Inr 0)"
| "sanitize_files_left loads dumps fresh secrets owned ((p, nd) # fs) b =
     (case sanitize_file loads dumps secrets owned p (bytes_of nd) of
        Inl e \<Rightarrow> (b, Inl e)
      | Inr (written, n) \<Rightarrow> (case sanitize_files_left loads dumps fresh secrets owned fs (rewrite_file fresh p written b) of
          (b', r) \<Rightarrow> (b', ebind r (\<lambda>m. Inr (n + m)))))"

definition sanitize_left ::
  "(string \<Rightarrow> pv res) \<Rightarrow> (pv \<Rightarrow> string) \<Rightarrow> (path \<Rightarrow> inode) \<Rightarrow> string list \<Rightarrow> path list \<Rightarrow> path \<Rightarrow> bundle_tree \<Rightarrow>
     bundle_tree \<times> nat res" where
  "sanitize_left loads dumps fresh secrets owned d b =
     (case ebind (validate_redaction_secrets secrets) (\<lambda>_. ebind (validate_paths secrets owned d b) (\<lambda>_. files (subtree d b))) of
        Inl e \<Rightarrow> (b, Inl e)
      | Inr fs \<Rightarrow> sanitize_files_left loads dumps fresh secrets owned fs b)"

definition first_error :: "string \<Rightarrow> string option \<Rightarrow> string" where
  "first_error m old = (case old of Some t \<Rightarrow> if t = [] then m else t | None \<Rightarrow> m)"

definition clean :: "env \<Rightarrow> path \<Rightarrow> unit op" where
  "clean v d = andthen
     (ask (\<lambda>c. sanitize_left (v_loads v) (v_dumps v) (v_inode v (c_moments c)) (v_secrets v) (owned_paths d) d (tree c)))
     (\<lambda>(b, r). andthen (set_tree b) (\<lambda>_. case r of
        Inr n \<Rightarrow> add_count d (PInt (int n))
      | Inl e \<Rightarrow> if is_value_error e \<or> os_error e then andthen (set_error (first_error (exn_text e))) (\<lambda>_. stop (Failed e))
          else stop (Failed e)))"

section \<open>A step of an arm\<close>

definition run_hook :: "env \<Rightarrow> pv \<Rightarrow> path \<Rightarrow> string \<Rightarrow> pv op" where
  "run_hook v spec d step c = (case v_run v (c_moments c) spec d step (c_world c) of (b, l, r) \<Rightarrow>
     (c\<lparr>c_world := (c_world c)\<lparr>w_tree := b, w_lock := l\<rparr>, c_moments := c_moments c @ [Ran step]\<rparr>, r))"

definition count_doc :: "pv \<Rightarrow> pv" where
  "count_doc n = PDict [(''replacements'', n)]"

text \<open>The receipt the step left: containment and redactions.\<close>

definition take_receipt :: "env \<Rightarrow> path \<Rightarrow> string \<Rightarrow> unit op" where
  "take_receipt v d step = only_if (\<lambda>c. exists_at (tree c) (d @ [step @ ''.command.json'']))
     (andthen (lift (\<lambda>c. ebind (json_at (v_loads v) (tree c) (d @ [step @ ''.command.json''])) (\<lambda>receipt.
          ebind (pgetn receipt ''containment_proven'') (\<lambda>k. ebind (pget receipt ''redactions'' (PInt 0)) (\<lambda>n. Inr (k, n))))))
        (\<lambda>(k, n). andthen (change (\<lambda>c. c\<lparr>c_contained := c_contained c \<and> k = PBool True\<rparr>)) (\<lambda>_. add_count d n)))"

definition step_recorded :: "env \<Rightarrow> path \<Rightarrow> string \<Rightarrow> bool \<Rightarrow> unit op" where
  "step_recorded v d step teardown = andthen (command_complete v d step) (\<lambda>_. andthen (take_receipt v d step) (\<lambda>_.
     andthen (only_if (\<lambda>_. \<not> teardown \<and> step \<noteq> ''observe'')
         (andthen (ask (\<lambda>c. count_of c d)) (\<lambda>n. save v (d @ [''redactions.json'']) (count_doc n)))) (\<lambda>_.
     guard_checkpoint v)))"

text \<open>The \<open>finally\<close> of \<open>command\<close>: detect rewrites, sanitize what is new, record the step.\<close>

definition after_hook :: "env \<Rightarrow> path \<Rightarrow> string \<Rightarrow> bool \<Rightarrow> unit op" where
  "after_hook v d step teardown =
     andthen (ensure (only_if (\<lambda>c. error c = None) (guard_check v (receipt_paths d step))) (clean v d)) (\<lambda>_.
     only_if (\<lambda>c. error c = None) (step_recorded v d step teardown))"

text \<open>A \<open>ReceiptIntegrityError\<close> becomes the guard's error, whatever it was before.\<close>

definition integrity_lost :: "fault \<Rightarrow> 'a op" where
  "integrity_lost e = (case e of Integrity m \<Rightarrow> andthen (set_error (\<lambda>_. m)) (\<lambda>_. stop e) | _ \<Rightarrow> stop e)"

definition command :: "env \<Rightarrow> path \<Rightarrow> string \<Rightarrow> pv \<Rightarrow> bool \<Rightarrow> pv op" where
  "command v d step spec teardown =
     andthen (only_if (\<lambda>_. \<not> teardown) (andthen (guard_check v []) (\<lambda>_. verify_pins v None))) (\<lambda>_.
     ensure (handle (run_hook v spec d step) integrity_lost) (after_hook v d step teardown))"

section \<open>The end of an arm\<close>

definition attempt_doc :: "string \<Rightarrow> attempt \<Rightarrow> pv" where
  "attempt_doc base a = PDict ([(''collection_root'', PStr base), (''state'', PStr (at_state a)), (''reason'', PStr (at_reason a)),
     (''cleanup_inputs_valid'', PBool (at_valid a))] @
     (case at_observation a of None \<Rightarrow> [] | Some m \<Rightarrow> [(''observation_error'', PStr m)]))"

definition slot_doc :: "slot \<Rightarrow> (string \<times> pv) list" where
  "slot_doc slot = [(''block'', PStr (slot_block slot)), (''block_id'', PStr (slot_block_id slot)),
     (''workload'', PStr (slot_workload slot)), (''date_slot'', PStr (slot_date_slot slot)), (''date'', PStr (slot_date slot)),
     (''arms'', PList (map PStr (slot_arms slot)))]"

definition row_doc :: "slot \<Rightarrow> string \<Rightarrow> trial_row \<Rightarrow> pv" where
  "row_doc slot arm row = PDict (slot_doc slot @ [(''arm'', PStr arm), (''attempt'', PInt 1), (''started'', PBool (t_started row)),
     (''classification'', PStr (t_class row)), (''reason'', t_reason row), (''metrics'', PDict (t_metrics row)),
     (''facts'', t_facts row), (''exit'', t_exit row), (''elapsed_seconds'', t_elapsed row), (''cleanup_proven'', PBool (t_cleanup row))])"

definition save_attempt :: "env \<Rightarrow> path \<Rightarrow> unit op" where
  "save_attempt v d = andthen (ask c_state) (\<lambda>a. save v (d @ [''attempt.json'']) (attempt_doc (v_root v) a))"

definition finish :: "env \<Rightarrow> path \<Rightarrow> slot \<Rightarrow> string \<Rightarrow> unit op" where
  "finish v d slot arm = andthen (clean v d) (\<lambda>_. andthen (set_state (\<lambda>a. a\<lparr>at_state := ''finished''\<rparr>)) (\<lambda>_.
     andthen (save_attempt v d) (\<lambda>_.
     andthen (lift (\<lambda>c. trial (v_te v) (tree c) (v_manifest v) slot arm)) (\<lambda>row.
     andthen (save v (d @ [''trial.json'']) (row_doc slot arm row)) (\<lambda>_.
     andthen (ask (\<lambda>c. count_of c d)) (\<lambda>n. andthen (save v (d @ [''redactions.json'']) (count_doc n)) (\<lambda>_.
     only_if (\<lambda>c. error c = None) (guard_checkpoint v))))))))"

section \<open>Teardown\<close>

definition set_valid :: "bool \<Rightarrow> attempt \<Rightarrow> attempt" where
  "set_valid b a = a\<lparr>at_valid := b\<rparr>"

definition set_reason :: "string \<Rightarrow> attempt \<Rightarrow> attempt" where
  "set_reason m a = a\<lparr>at_reason := m\<rparr>"

definition pins_of :: "pv \<Rightarrow> string list option res" where
  "pins_of spec = ebind (pgetn spec ''execution_pins'') (\<lambda>p. if p = PNone then Inr None
     else ebind (py_iter p) (\<lambda>names. Inr (Some (map str_of names))))"

definition save_inputs :: "env \<Rightarrow> path \<Rightarrow> unit op" where
  "save_inputs v d = only_if (\<lambda>c. error c = None)
     (andthen (lift (\<lambda>c. cleanup_inventory (v_sha v) (tree c) d)) (save v (d @ [''cleanup-inputs.json''])))"

definition prove_cleanup :: "env \<Rightarrow> path \<Rightarrow> bool \<Rightarrow> unit op" where
  "prove_cleanup v d pins_match =
     andthen (lift (\<lambda>c. cleanup_valid (v_sha v) (v_loads v) (tree c) d True)) (\<lambda>_.
     andthen (verify_pins v None) (\<lambda>_.
     andthen (ask (\<lambda>c. pins_match \<and> c_contained c \<and> error c = None)) (\<lambda>b. set_state (set_valid b))))"

definition pins_still_match :: "env \<Rightarrow> bool op" where
  "pins_still_match v = handle (andthen (verify_pins v None) (\<lambda>_. give True)) (\<lambda>e. if value_or_os e then give False else stop e)"

definition cleanup_body :: "env \<Rightarrow> path \<Rightarrow> pv \<Rightarrow> unit op" where
  "cleanup_body v d commands =
     andthen (pins_still_match v) (\<lambda>pins_match.
     andthen (lift (\<lambda>_. item commands ''cleanup'' (\<lambda>spec. ebind (pins_of spec) (\<lambda>own. Inr (spec, own))))) (\<lambda>(spec, own).
     andthen (verify_pins v own) (\<lambda>_.
     andthen (ensure (save_inputs v d) (andthen (command v d ''cleanup'' spec True) (\<lambda>_. give ()))) (\<lambda>_.
     prove_cleanup v d pins_match))))"

definition cleanup :: "env \<Rightarrow> slot \<Rightarrow> string \<Rightarrow> path \<Rightarrow> pv \<Rightarrow> unit op" where
  "cleanup v slot arm d commands = ensure
     (handle (cleanup_body v d commands) (\<lambda>e. if evidence_text e = None then stop e else set_state (set_valid False)))
     (finish v d slot arm)"

section \<open>An arm\<close>

definition step_of :: "env \<Rightarrow> path \<Rightarrow> pv \<Rightarrow> string \<Rightarrow> pv op" where
  "step_of v d commands step = andthen (lift (\<lambda>_. getitem commands step)) (\<lambda>spec. command v d step spec False)"

text \<open>The observation of the run, whose failure is kept beside the reason.\<close>

definition observe_run :: "env \<Rightarrow> slot \<Rightarrow> string \<Rightarrow> path \<Rightarrow> pv \<Rightarrow> unit op" where
  "observe_run v slot arm d outcome = handle
     (lift (\<lambda>c. item outcome ''seconds'' (\<lambda>seconds. observation (v_sha v) (v_loads v) (te_fromiso (v_te v)) (te_fsum (v_te v)) (tree c) d
        (v_manifest v) (slot_workload slot) arm seconds None)))
     (\<lambda>e. case evidence_text e of None \<Rightarrow> stop e
        | Some m \<Rightarrow> andthen (set_state (\<lambda>a. a\<lparr>at_observation := Some m\<rparr>)) (\<lambda>_. stop e))"

definition measure :: "env \<Rightarrow> slot \<Rightarrow> string \<Rightarrow> path \<Rightarrow> pv \<Rightarrow> unit op" where
  "measure v slot arm d commands =
     andthen (step_of v d commands ''run'') (\<lambda>outcome.
     andthen (step_of v d commands ''observe'') (\<lambda>_.
     andthen (observe_run v slot arm d outcome) (\<lambda>_.
     andthen (step_of v d commands ''check'') (\<lambda>_. give ()))))"

definition body :: "env \<Rightarrow> slot \<Rightarrow> string \<Rightarrow> path \<Rightarrow> pv \<Rightarrow> unit op" where
  "body v slot arm d commands =
     andthen (step_of v d commands ''prepare'') (\<lambda>prepared.
     andthen (lift (\<lambda>_. succeeded prepared)) (\<lambda>good. if \<not> good then give ()
     else andthen (current_date v slot) (\<lambda>today. if today then measure v slot arm d commands
       else set_state (set_reason ''registered_date_expired''))))"

definition arm_run :: "env \<Rightarrow> slot \<Rightarrow> string \<Rightarrow> path \<Rightarrow> unit op" where
  "arm_run v slot arm d =
     andthen (lift (\<lambda>_. by_arm_of (v_manifest v) ''commands'' (slot_workload slot) arm)) (\<lambda>commands.
     ensure (handle (body v slot arm d commands) (\<lambda>e. case evidence_text e of
           Some m \<Rightarrow> set_state (set_reason m)
         | None \<Rightarrow> andthen (set_state (set_reason ''interrupted_collection'')) (\<lambda>_. stop e)))
       (deferred v (cleanup v slot arm d commands)))"

section \<open>A block\<close>

definition entered :: attempt where
  "entered = \<lparr>at_state = ''entered'', at_reason = [], at_valid = False, at_observation = None\<rparr>"

definition skipped :: "string \<Rightarrow> attempt \<Rightarrow> attempt" where
  "skipped reason a = a\<lparr>at_state := ''finished'', at_reason := reason\<rparr>"

text \<open>\<open>safe\<close> is lost when the arm starts and comes back only with a valid cleanup, however the arm ends.\<close>

definition keep_safe :: "unit op \<Rightarrow> unit op" where
  "keep_safe m = andthen (change (\<lambda>c. c\<lparr>c_safe := False\<rparr>)) (\<lambda>_.
     ensure m (change (\<lambda>c. c\<lparr>c_safe := at_valid (c_state c)\<rparr>)))"

definition enter_arm :: "env \<Rightarrow> path \<Rightarrow> unit op" where
  "enter_arm v d = andthen (guard_mkdir v d) (\<lambda>_.
     andthen (change (\<lambda>c. c\<lparr>c_world := (c_world c)\<lparr>w_guard := (w_guard (c_world c))\<lparr>g_active := Some d\<rparr>\<rparr>\<rparr>)) (\<lambda>_.
     andthen (set_state (\<lambda>_. entered)) (\<lambda>_. save_attempt v d)))"

definition one_arm :: "env \<Rightarrow> slot \<Rightarrow> string \<Rightarrow> unit op" where
  "one_arm v slot arm = (let d = arm_dir slot arm in
     andthen (enter_arm v d) (\<lambda>_.
     andthen (ask c_safe) (\<lambda>safe.
     andthen (if safe then current_date v slot else give False) (\<lambda>go.
     if go then keep_safe (arm_run v slot arm d)
     else andthen (set_state (skipped (if safe then ''registered_date_expired'' else ''cleanup_unproven''))) (\<lambda>_. finish v d slot arm)))))"

fun arms_loop :: "env \<Rightarrow> slot \<Rightarrow> string list \<Rightarrow> unit op" where
  "arms_loop v slot [] = give ()"
| "arms_loop v slot (arm # arms) = andthen (one_arm v slot arm) (\<lambda>_. arms_loop v slot arms)"

section \<open>The tables of the campaign\<close>

definition TRIAL_FIELDS :: "string list" where
  "TRIAL_FIELDS = [''block'', ''workload'', ''date_slot'', ''arm'', ''attempt'', ''started'', ''classification'', ''reason'',
     ''exit'', ''elapsed_seconds'']"

definition pick :: "string list \<Rightarrow> pv \<Rightarrow> pv" where
  "pick names x = PDict (map (\<lambda>n. (n, fld x n)) names)"

definition updated :: "pv \<Rightarrow> (string \<times> pv) list \<Rightarrow> pv" where
  "updated x more_items = PDict (foldl (\<lambda>d (k, y). dict_set k y d) (items_of x) more_items)"

definition arm_commands :: "env \<Rightarrow> bundle_tree \<Rightarrow> slot \<times> string \<Rightarrow> pv list res" where
  "arm_commands v b = (\<lambda>(slot, arm).
     ebind (emap (\<lambda>step. ebind (json_at (v_loads v) b (arm_dir slot arm @ [step @ ''.command.json''])) (\<lambda>x.
         if is_dict x \<or> x = PList [] \<or> x = PStr [] then Inr (updated x [(''block'', PStr (slot_block slot)), (''arm'', PStr arm)]) else Inl (TypeError ''dict'')))
       (filter (\<lambda>step. exists_at b (arm_dir slot arm @ [step @ ''.command.json''])) STEPS)) Inr)"

definition arm_environment :: "env \<Rightarrow> bundle_tree \<Rightarrow> slot \<times> string \<Rightarrow> pv list res" where
  "arm_environment v b = (\<lambda>(slot, arm).
     if \<not> exists_at b (arm_dir slot arm @ [''receipt.json'']) then Inr []
     else (case json_at (v_loads v) b (arm_dir slot arm @ [''receipt.json'']) of
         Inl e \<Rightarrow> if is_value_error e then Inr [] else Inl e
       | Inr receipt \<Rightarrow> Inr (if is_dict receipt
           then [PDict [(''block'', PStr (slot_block slot)), (''arm'', PStr arm), (''observed'', fld receipt ''environment'')]] else [])))"

definition planned_arms :: "env \<Rightarrow> (slot \<times> string) list res" where
  "planned_arms v = ebind (order (v_sha v) (inputs_of (v_manifest v))) (\<lambda>slots.
     Inr (concat (map (\<lambda>slot. map (\<lambda>arm. (slot, arm)) (slot_arms slot)) slots)))"

definition lines :: "env \<Rightarrow> pv list \<Rightarrow> string" where
  "lines v xs = concat (map (\<lambda>x. v_line v x @ [CHR 0x0A]) xs)"

definition inventory_files :: "env \<Rightarrow> bundle_tree \<Rightarrow> (string \<times> string) list res" where
  "inventory_files v b = ebind (planned_arms v) (\<lambda>arms.
     ebind (emap (\<lambda>(slot, arm). ebind (trial (v_te v) b (v_manifest v) slot arm) (\<lambda>row.
       ebind (arm_commands v b (slot, arm)) (\<lambda>commands. ebind (arm_environment v b (slot, arm)) (\<lambda>environments.
       Inr (pick TRIAL_FIELDS (row_doc slot arm row), commands, environments))))) arms) (\<lambda>parts.
     let commands = concat (map (fst \<circ> snd) parts) in
     Inr [(''trials.csv'', v_csv v TRIAL_FIELDS (map fst parts)),
          (''commands.jsonl'', lines v commands),
          (''events.jsonl'', lines v (map (pick [''block'', ''arm'', ''step'', ''seconds'', ''started_at'', ''ended_at'']) commands)),
          (''environments.jsonl'', lines v (concat (map (snd \<circ> snd) parts)))]))"

fun write_files :: "env \<Rightarrow> (string \<times> string) list \<Rightarrow> unit op" where
  "write_files v [] = give ()"
| "write_files v ((name, data) # fs) = andthen (write_bytes v [name] data) (\<lambda>_. write_files v fs)"

definition inventory :: "env \<Rightarrow> unit op" where
  "inventory v = andthen (lift (\<lambda>c. inventory_files v (tree c))) (write_files v)"

section \<open>The final checkpoint\<close>

definition seal_bundle :: "env \<Rightarrow> unit op" where
  "seal_bundle v = andthen (lift (\<lambda>c. seal (v_sha v) (v_dumps v) (v_inode v (c_moments c) [SUMS]) (tree c))) (\<lambda>b.
     andthen (set_tree b) (\<lambda>_. mark Sealed))"

definition stop_doc :: "slot \<Rightarrow> bool \<Rightarrow> pv" where
  "stop_doc slot safe = PDict [(''reason'', PStr (if safe then ''interrupted_collection'' else ''cleanup_unproven'')),
     (''block'', PStr (slot_block slot))]"

definition refused :: "unit op" where
  "refused = stop (Failed (ValueError ''protected campaign evidence changed; refusing to reseal''))"

definition aggregate :: "env \<Rightarrow> slot \<Rightarrow> bool \<Rightarrow> unit op" where
  "aggregate v slot interrupted =
     andthen (ask c_safe) (\<lambda>safe.
     andthen (only_if (\<lambda>_. \<not> safe \<or> interrupted) (save v [''stopped.json''] (stop_doc slot safe))) (\<lambda>_.
     andthen (ask error) (\<lambda>e. case e of
         Some m \<Rightarrow> andthen (lift (\<lambda>_. redact_metadata (v_secrets v) [] (PStr m))) (\<lambda>(t, n).
           andthen (write_json v [''blocks'', slot_block slot, ''integrity-error.json''] (PDict [(''reason'', t)])) (\<lambda>_. refused))
       | None \<Rightarrow> andthen (guard_check v []) (\<lambda>_. andthen (inventory v) (\<lambda>_. seal_bundle v)))))"

text \<open>A signal received during the checkpoint stops the campaign, too.\<close>

definition aggregate_again :: "env \<Rightarrow> slot \<Rightarrow> unit op" where
  "aggregate_again v slot = andthen (ask error) (\<lambda>e. if e \<noteq> None then refused
     else andthen (ask c_safe) (\<lambda>safe. andthen (write_json v [''stopped.json''] (stop_doc slot safe)) (\<lambda>_.
       andthen (inventory v) (\<lambda>_. seal_bundle v))))"

definition finalize :: "env \<Rightarrow> slot \<Rightarrow> bool \<Rightarrow> unit op" where
  "finalize v slot interrupted = handle (deferred v (aggregate v slot interrupted)) (\<lambda>e.
     if e = Interrupt then andthen (deferred v (aggregate_again v slot)) (\<lambda>_. stop Interrupt) else stop e)"

definition session :: "env \<Rightarrow> slot \<Rightarrow> bool op" where
  "session v slot c = (case arms_loop v slot (slot_arms slot) c of (c1, r) \<Rightarrow>
     andthen (finalize v slot (isl r)) (\<lambda>_ c2. (c2, map_sum id (\<lambda>_. c_safe c2) r)) c1)"

section \<open>Admission of a block\<close>

text \<open>What \<open>collect_locked\<close> reads outside the bundle.\<close>

record station =
  st_sources :: "(string \<times> string res) list"
  st_links :: "path \<Rightarrow> bool"
  st_address_ok :: "string \<Rightarrow> bool"
  st_registration :: "pv res"
  st_environ :: "string \<Rightarrow> string option"
  st_now :: string
  st_argv :: "string list"

definition validate_registration :: "(string \<Rightarrow> bool) \<Rightarrow> iso_reader \<Rightarrow> pv \<Rightarrow> unit res" where
  "validate_registration address_ok fromiso reg =
     require (is_dict reg \<and> Plan.nonblank (fld reg ''public_url'') \<and> Plan.nonblank (fld reg ''revision''))
       ''invalid public registration receipt'' (
     let url = str_of (fld reg ''public_url'') in
     require (\<not> list_ex url_char_bad url) ''invalid public registration URL'' (
     ebind (urlsplit address_ok url) (\<lambda>u.
     require (url_scheme u \<in> {''http'', ''https''} \<and> fst (url_host_port u) \<noteq> [] \<and> CHR ''@'' \<notin> set (url_netloc u))
       ''invalid public registration URL'' (
     ebind (url_port u) (\<lambda>_. ebind (timestamp fromiso (fld reg ''registered_at'')) (\<lambda>_. Inr ()))))))"

definition digest_at :: "env \<Rightarrow> bundle_tree \<Rightarrow> path \<Rightarrow> string res" where
  "digest_at v b p = ebind (read_file b p) (\<lambda>data. Inr (v_sha v data))"

definition registration_binds :: "env \<Rightarrow> station \<Rightarrow> bundle_tree \<Rightarrow> pv \<Rightarrow> bool res" where
  "registration_binds v st b reg =
     eand (item reg ''campaign_sha256'' (\<lambda>x. ebind (digest_at v b [''campaign.json'']) (\<lambda>h. Inr (py_eq x (PStr h)))))
    (eand (item reg ''order_sha256'' (\<lambda>x. ebind (digest_at v b [''order.json'']) (\<lambda>h. Inr (py_eq x (PStr h)))))
     (item reg ''registered_at'' (\<lambda>r. ebind (timestamp (te_fromiso (v_te v)) r) (\<lambda>t.
        ebind (timestamp (te_fromiso (v_te v)) (PStr (st_now st))) (\<lambda>now. Inr (t < now))))))"

definition receipt_unchanged :: "env \<Rightarrow> bundle_tree \<Rightarrow> pv \<Rightarrow> bool res" where
  "receipt_unchanged v b reg = (if \<not> exists_at b [''registration.json''] then Inr True
     else ebind (json_at (v_loads v) b [''registration.json'']) (\<lambda>old. Inr (v_dumps v old = v_dumps v reg)))"

definition earlier_complete :: "bundle_tree \<Rightarrow> slot list \<Rightarrow> slot \<Rightarrow> bool" where
  "earlier_complete b slots slot = list_all (\<lambda>s. list_all (\<lambda>arm. exists_at b (arm_dir s arm @ [''trial.json''])) (slot_arms s))
     (takeWhile (\<lambda>s. s \<noteq> slot) (filter (\<lambda>s. slot_workload s = slot_workload slot \<and> slot_date_slot s = slot_date_slot slot) slots))"

definition block_path :: "slot \<Rightarrow> path" where
  "block_path slot = [''blocks'', slot_block slot]"

definition collection_command :: "env \<Rightarrow> station \<Rightarrow> slot \<Rightarrow> pv" where
  "collection_command v st slot = PDict [(''argv'', PList (map PStr (st_argv st @
     [''collect'', v_root v, ''--block'', slot_block slot, ''--registration'', v_root v @ ''/registration.json''])))]"

definition invocations :: "env \<Rightarrow> pv \<Rightarrow> slot \<Rightarrow> pv list res" where
  "invocations v m slot = ebind (emap (\<lambda>arm. ebind (by_arm_of m ''commands'' (slot_workload slot) arm) (\<lambda>cs.
     ebind (py_values cs) (emap (\<lambda>spec. ebind (expand_command (map_of
         [(''campaign_dir'', v_root v), (''trial_dir'', v_root v @ ''/'' @ path_str (arm_dir slot arm)),
          (''block_id'', slot_block slot), (''arm'', arm), (''redact_env'', te_text (v_te v) (fld m ''redact_env''))]) spec)
       (\<lambda>(argv, cwd, envs). Inr (PList [argv, cwd, PDict envs])))))) (slot_arms slot)) (\<lambda>parts. Inr (concat parts))"

definition secrets_of :: "station \<Rightarrow> pv \<Rightarrow> string list res" where
  "secrets_of st m = (let names = strings_of (fld m ''redact_env'') in
     require (list_all (\<lambda>n. st_environ st n \<notin> {None, Some []}) names) ''missing required redaction environment variable'' (
     let secrets = map (\<lambda>n. utf8 (the (st_environ st n))) names in
     ebind (validate_redaction_secrets secrets) (\<lambda>_. Inr secrets)))"

definition frozen_campaign :: "env \<Rightarrow> station \<Rightarrow> moment list \<Rightarrow> bundle_tree \<Rightarrow> (pv \<times> slot list) res" where
  "frozen_campaign v st now b =
     ebind (verify (v_sha v) (v_loads v) b) (\<lambda>_.
     require (\<not> exists_at b [''stopped.json'']) ''campaign stopped; register a new campaign'' (
     ebind (json_at (v_loads v) b [''campaign.json'']) (\<lambda>m. ebind (validate_manifest (st_links st) m) (\<lambda>_.
     ebind (verify_execution_pins (v_file_at v now) (v_may_run v now) (v_digest v now) m None) (\<lambda>_.
     ebind (efor (\<lambda>(name, live). ebind live (\<lambda>h. ebind (digest_at v b [''analysis'', ''source'', name]) (\<lambda>k.
       require (h = k) ''collector source changed since campaign freeze'' (Inr ())))) (st_sources st)) (\<lambda>_.
     ebind (json_at (v_loads v) b [''order.json'']) (\<lambda>frozen. ebind (order (v_sha v) (inputs_of m)) (\<lambda>slots.
     require (py_eq frozen (PList (map (\<lambda>s. PDict (slot_doc s)) slots))) ''registered order differs'' (Inr (m, slots))))))))))"

definition admitted_slot :: "env \<Rightarrow> bundle_tree \<Rightarrow> moment list \<Rightarrow> slot list \<Rightarrow> pv \<Rightarrow> string \<Rightarrow> slot res" where
  "admitted_slot v b now slots reg block = (case filter (\<lambda>s. slot_block s = block) slots of
     [slot] \<Rightarrow>
       require (earlier_complete b slots slot) ''earlier assigned block is missing/incomplete'' (
       require (slot_date slot = v_today v now) ''block must execute on its registered UTC date'' (
       ebind (timestamp (te_fromiso (v_te v)) (fld reg ''registered_at'')) (\<lambda>t.
       require (\<not> slot_date slot < iso_date t) ''registration postdates block'' (Inr slot))))
   | _ \<Rightarrow> Inl (ValueError ''unknown block''))"

definition admit :: "env \<Rightarrow> station \<Rightarrow> moment list \<Rightarrow> bundle_tree \<Rightarrow> string \<Rightarrow> (pv \<times> pv \<times> slot \<times> string list) res" where
  "admit v st now b block =
     ebind (frozen_campaign v st now b) (\<lambda>(m, slots). ebind (st_registration st) (\<lambda>reg.
     ebind (validate_registration (st_address_ok st) (te_fromiso (v_te v)) reg) (\<lambda>_.
     erequire (registration_binds v st b reg) ''invalid public registration receipt'' (
     erequire (receipt_unchanged v b reg) ''registration receipt cannot change'' (
     ebind (admitted_slot v b now slots reg block) (\<lambda>slot.
     ebind (secrets_of st m) (\<lambda>secrets. ebind (invocations v m slot) (\<lambda>calls.
     ebind (validate_public_evidence (v_loads v) (v_dumps v) b secrets (PList [reg, collection_command v st slot, PList calls])) (\<lambda>_.
     Inr (m, reg, slot, secrets))))))))))"

section \<open>Collecting a block\<close>

definition make_dir :: "path \<Rightarrow> bool \<Rightarrow> unit op" where
  "make_dir p exist_ok = andthen (lift (\<lambda>c. if map_of (tree c) p = Some Dir \<and> exist_ok then Inr (tree c)
     else if map_of (tree c) p \<noteq> None \<or> \<not> parent_is_dir (tree c) p then Inl (OSError (path_str p)) else Inr ((p, Dir) # tree c)))
     set_tree"

text \<open>The slot is consumed, the bundle sealed, and the guard opened, before any hook.\<close>

definition open_block :: "env \<Rightarrow> station \<Rightarrow> slot \<Rightarrow> pv \<Rightarrow> unit op" where
  "open_block v st slot reg =
     andthen (make_dir [''blocks''] True) (\<lambda>_. andthen (make_dir (block_path slot) False) (\<lambda>_.
     andthen (write_json v [''registration.json''] reg) (\<lambda>_.
     andthen (write_json v (block_path slot @ [''collection-command.json'']) (collection_command v st slot)) (\<lambda>_.
     andthen (write_json v (block_path slot @ [''slot.json'']) (PDict (slot_doc slot))) (\<lambda>_.
     andthen (seal_bundle v) (\<lambda>_.
     andthen (lift (\<lambda>c. new_guard (v_sha v) (w_lock (c_world c)) (tree c))) (\<lambda>g.
     change (\<lambda>c. c\<lparr>c_world := (c_world c)\<lparr>w_guard := g\<rparr>, c_counts := Map.empty, c_contained := True, c_safe := True\<rparr>))))))))"

definition collect_locked :: "env \<Rightarrow> station \<Rightarrow> string \<Rightarrow> bool op" where
  "collect_locked v0 st block = andthen (lift (\<lambda>c. admit v0 st (c_moments c) (tree c) block)) (\<lambda>(m, reg, slot, secrets).
     let v = v0\<lparr>v_manifest := m, v_secrets := secrets\<rparr> in
     andthen (handle (andthen (open_block v st slot reg) (\<lambda>_. give True)) (\<lambda>e c.
         (c, Inl (if v_signal v (c_moments c) then Interrupt else e)))) (\<lambda>_ c.
     if v_signal v (c_moments c) then andthen (finalize v slot True) (\<lambda>_. stop Interrupt) c else session v slot c))"

end
