(* ===== verification/Lifecycle.thy ===== *)
theory Lifecycle
  imports Collector
begin

text \<open>
  What holds of the collector of theory \<open>Collector\<close> whatever the hooks do: the order of an arm's steps, what a
  reusable host rests on, how a block ends whose cleanup is unproven, and what the final checkpoint seals.

  A view of the state that only hooks, verdicts and the flag \<open>safe\<close> change is an instance of locale \<open>view\<close>; an
  operation that leaves a view alone is a \<open>frame\<close> for it.  The hooks run so far, the verdict on the cleanup and
  \<open>safe\<close> are the three interpretations the proofs use.
\<close>

section \<open>What an operation leaves alone\<close>

definition frame :: "(col \<Rightarrow> 'x) \<Rightarrow> 'a op \<Rightarrow> bool" where
  "frame f m = (\<forall>c. f (fst (m c)) = f c)"

named_theorems frames \<open>operations that leave a view of the state alone\<close>

lemma frameD: "frame f m \<Longrightarrow> m c = (c', r) \<Longrightarrow> f c' = f c"
  by (metis frame_def fst_conv)

lemma frame_give [frames]: "frame f (give x)" by (simp add: frame_def give_def)
lemma frame_stop [frames]: "frame f (stop e)" by (simp add: frame_def stop_def)
lemma frame_ask [frames]: "frame f (ask g)" by (simp add: frame_def ask_def)
lemma frame_lift [frames]: "frame f (lift g)" by (simp add: frame_def lift_def)

lemma frame_andthen [frames]: "frame f m \<Longrightarrow> (\<And>x. frame f (k x)) \<Longrightarrow> frame f (andthen m k)"
  by (auto simp: frame_def andthen_def split: prod.splits sum.splits) (metis fst_conv)+

lemma frame_handle [frames]: "frame f m \<Longrightarrow> (\<And>e. frame f (h e)) \<Longrightarrow> frame f (handle m h)"
  by (auto simp: frame_def handle_def split: prod.splits sum.splits) (metis fst_conv)+

lemma frame_ensure [frames]: "frame f m \<Longrightarrow> frame f k \<Longrightarrow> frame f (ensure m k)"
  by (auto simp: frame_def ensure_def split: prod.splits sum.splits) (metis fst_conv)+

lemma frame_only_if [frames]: "frame f m \<Longrightarrow> frame f (only_if p m)"
  by (simp add: frame_def only_if_def)

lemma frame_if [frames]: "(b \<Longrightarrow> frame f m) \<Longrightarrow> (\<not> b \<Longrightarrow> frame f k) \<Longrightarrow> frame f (if b then m else k)"
  by simp

lemma frame_prod [frames]: "(\<And>x y. frame f (k x y)) \<Longrightarrow> frame f (case z of (x, y) \<Rightarrow> k x y)"
  by (cases z) simp

lemma frame_sum [frames]: "(\<And>e. frame f (k e)) \<Longrightarrow> (\<And>x. frame f (l x)) \<Longrightarrow> frame f (case z of Inl e \<Rightarrow> k e | Inr x \<Rightarrow> l x)"
  by (cases z) simp_all

lemma frame_option [frames]: "frame f k \<Longrightarrow> (\<And>x. frame f (l x)) \<Longrightarrow> frame f (case z of None \<Rightarrow> k | Some x \<Rightarrow> l x)"
  by (cases z) simp_all

lemma frame_deferred [frames]: "frame f m \<Longrightarrow> frame f (deferred v m)"
  by (auto simp: frame_def deferred_def split: prod.splits) (metis fst_conv)+

lemma frame_change: "(\<And>c. f (g c) = f c) \<Longrightarrow> frame f (change g)"
  by (simp add: frame_def change_def)

text \<open>A view of the state that no write, count or mark reaches: then only hooks, verdicts and \<open>safe\<close> do.\<close>

locale view =
  fixes f :: "col \<Rightarrow> 'x"
  assumes world: "f (c\<lparr>c_world := w\<rparr>) = f c"
    and counts: "f (c\<lparr>c_counts := k\<rparr>) = f c"
    and contained: "f (c\<lparr>c_contained := b\<rparr>) = f c"
    and finished: "f (c\<lparr>c_state := (c_state c)\<lparr>at_state := s\<rparr>\<rparr>) = f c"
    and marked: "\<forall>step. m \<noteq> Ran step \<Longrightarrow> f (c\<lparr>c_moments := c_moments c @ [m]\<rparr>) = f c"
begin

lemma on_world_frame [frames]: "frame f (on_world g)"
  by (auto simp: frame_def on_world_def world split: prod.splits)

lemma mark_frame [frames]: "\<forall>step. m \<noteq> Ran step \<Longrightarrow> frame f (mark m)"
  unfolding mark_def by (rule frame_change) (rule marked)

lemma set_tree_frame [frames]: "frame f (set_tree b)" "frame f (set_error g)"
  unfolding set_tree_def set_error_def by (rule frame_change, rule world)+

lemma add_count_frame [frames]: "frame f (add_count d n)"
  unfolding add_count_def by (intro frames frame_change) (rule counts)

lemma guard_frames [frames]:
  "frame f (guard_check v ps)" "frame f (guard_mkdir v p)" "frame f (guard_own v p x)" "frame f (guard_checkpoint v)"
  "frame f (command_complete v d step)"
  unfolding guard_check_def guard_mkdir_def guard_own_def guard_checkpoint_def command_complete_def
  by (intro frames on_world_frame mark_frame; simp)+

lemma write_frames [frames]: "frame f (write_bytes v p data)" "frame f (write_json v p x)"
  unfolding write_json_def write_bytes_def by (intro frames set_tree_frame mark_frame; simp)+

lemma save_frame [frames]: "frame f (save v p x)"
  unfolding save_def by (intro frames add_count_frame guard_frames write_frames)

lemma clean_frame [frames]: "frame f (clean v d)"
  unfolding clean_def by (intro frames set_tree_frame add_count_frame)

lemma verify_pins_frame [frames]: "frame f (verify_pins v s)"
  unfolding verify_pins_def by (intro frames mark_frame) simp

lemma current_date_frame [frames]: "frame f (current_date v slot)"
  unfolding current_date_def by (intro frames mark_frame) simp

lemma take_receipt_frame [frames]: "frame f (take_receipt v d step)"
  unfolding take_receipt_def by (intro frames add_count_frame frame_change) (rule contained)

lemma after_hook_frame [frames]: "frame f (after_hook v d step teardown)"
  unfolding after_hook_def step_recorded_def
  by (intro frames guard_frames clean_frame take_receipt_frame save_frame)

lemma save_attempt_frame [frames]: "frame f (save_attempt v d)"
  unfolding save_attempt_def by (intro frames save_frame)

lemma finish_frame [frames]: "frame f (finish v d slot arm)"
  unfolding finish_def set_state_def
  by (intro frames clean_frame frame_change save_attempt_frame save_frame guard_frames) (rule finished)

lemma save_inputs_frame [frames]: "frame f (save_inputs v d)"
  unfolding save_inputs_def by (intro frames save_frame)

lemma write_files_frame [frames]: "frame f (write_files v fs)"
  by (induction v fs rule: write_files.induct) (simp_all add: frame_give frame_andthen write_frames)

lemma seal_frames [frames]: "frame f (inventory v)" "frame f (seal_bundle v)"
  unfolding inventory_def seal_bundle_def by (intro frames write_files_frame set_tree_frame mark_frame; simp)+

lemma aggregate_frames [frames]: "frame f (aggregate v slot b)" "frame f (aggregate_again v slot)"
  unfolding aggregate_def aggregate_again_def refused_def
  by (intro frames save_frame guard_frames seal_frames write_frames)+

lemma finalize_frame: "frame f (finalize v slot b)"
  unfolding finalize_def by (intro frames aggregate_frames)

end

text \<open>The hooks run so far, the verdict on the cleanup, and the flag \<open>safe\<close> are such views.\<close>

definition steps :: "col \<Rightarrow> string list" where
  "steps c = concat (map (\<lambda>m. case m of Ran s \<Rightarrow> [s] | _ \<Rightarrow> []) (c_moments c))"

definition valid :: "col \<Rightarrow> bool" where
  "valid c = at_valid (c_state c)"

interpretation steps_view: view steps
  by unfold_locales (auto simp: steps_def split: moment.split)

interpretation valid_view: view valid
  by unfold_locales (simp_all add: valid_def)

interpretation safe_view: view c_safe
  by unfold_locales simp_all

lemmas all_frames = steps_view.guard_frames steps_view.clean_frame steps_view.save_frame steps_view.after_hook_frame
  steps_view.finish_frame steps_view.save_inputs_frame steps_view.verify_pins_frame steps_view.current_date_frame
  steps_view.save_attempt_frame steps_view.set_tree_frame
  valid_view.guard_frames valid_view.clean_frame valid_view.save_frame valid_view.after_hook_frame
  valid_view.finish_frame valid_view.save_inputs_frame valid_view.verify_pins_frame valid_view.current_date_frame
  valid_view.save_attempt_frame valid_view.set_tree_frame
  safe_view.guard_frames safe_view.clean_frame safe_view.save_frame safe_view.after_hook_frame
  safe_view.finish_frame safe_view.save_inputs_frame safe_view.verify_pins_frame safe_view.current_date_frame
  safe_view.save_attempt_frame safe_view.set_tree_frame

lemma set_state_frame: "frame steps (set_state g)" "frame c_safe (set_state g)"
  unfolding set_state_def by (rule frame_change, simp add: steps_def)+

section \<open>The steps of an arm\<close>

lemma andthenE:
  assumes "andthen m k c = (c', r)"
  obtains (raises) e where "m c = (c', Inl e)" "r = Inl e" | (goes) c1 x where "m c = (c1, Inr x)" "k x c1 = (c', r)"
  using assms by (auto simp: andthen_def split: prod.splits sum.splits)

lemma handleE:
  assumes "handle m h c = (c', r)"
  obtains (handled) c1 e where "m c = (c1, Inl e)" "h e c1 = (c', r)" | (passed) x where "m c = (c', Inr x)" "r = Inr x"
  using assms by (auto simp: handle_def split: prod.splits sum.splits)

lemma ensureE:
  assumes "ensure m k c = (c', r)"
  obtains c1 r1 r2 where "m c = (c1, r1)" "k c1 = (c', r2)" "r = (case r2 of Inl e \<Rightarrow> Inl e | Inr _ \<Rightarrow> r1)"
  using assms by (auto simp: ensure_def split: prod.splits sum.splits)

lemma lifted [simp]: "map_sum Failed id r = Inr y \<longleftrightarrow> r = Inr y"
  by (cases r) auto

lemma run_hook_steps: "run_hook v spec d step c = (c', r) \<Longrightarrow> steps c' = steps c @ [step] \<and> valid c' = valid c \<and> c_safe c' = c_safe c"
  by (auto simp: run_hook_def steps_def valid_def split: prod.splits)

text \<open>A hook is entered at most once per \<open>command\<close>, and always in a teardown.\<close>

lemma command_steps:
  assumes "command v d step spec teardown c = (c', r)"
  shows "(steps c' = steps c @ [step] \<or> (\<not> teardown \<and> steps c' = steps c \<and> isl r)) \<and> valid c' = valid c \<and> c_safe c' = c_safe c"
proof -
  let ?pre = "only_if (\<lambda>_. \<not> teardown) (andthen (guard_check v []) (\<lambda>_. verify_pins v None))"
  let ?hook = "handle (run_hook v spec d step) integrity_lost"
  have pre: "frame steps ?pre" "frame valid ?pre" "frame c_safe ?pre" by (intro frames all_frames)+
  have hook: "steps c2 = steps c1 @ [step] \<and> valid c2 = valid c1 \<and> c_safe c2 = c_safe c1" if "?hook c1 = (c2, r1)" for c1 c2 r1
    using that
  proof (cases rule: handleE)
    case (handled c3 e)
    have lost: "frame steps (integrity_lost e :: pv op)" "frame valid (integrity_lost e :: pv op)" "frame c_safe (integrity_lost e :: pv op)"
      by (cases e; simp add: integrity_lost_def; intro frames all_frames)+
    show ?thesis using run_hook_steps [OF handled(1)] frameD [OF lost(1) handled(2)] frameD [OF lost(2) handled(2)] frameD [OF lost(3) handled(2)] by simp
  next
    case (passed x)
    then show ?thesis using run_hook_steps by blast
  qed
  from assms [unfolded command_def] show ?thesis
  proof (cases rule: andthenE)
    case (raises e)
    then have "\<not> teardown" by (auto simp: only_if_def split: if_splits)
    then show ?thesis using raises frameD [OF pre(1) raises(1)] frameD [OF pre(2) raises(1)] frameD [OF pre(3) raises(1)] by simp
  next
    case (goes c1 x)
    from goes(2) obtain c2 r1 r2 where h: "?hook c1 = (c2, r1)" and a: "after_hook v d step teardown c2 = (c', r2)"
      by (rule ensureE)
    show ?thesis
      using hook [OF h] frameD [OF pre(1) goes(1)] frameD [OF pre(2) goes(1)] frameD [OF pre(3) goes(1)]
        frameD [OF steps_view.after_hook_frame a] frameD [OF valid_view.after_hook_frame a] frameD [OF safe_view.after_hook_frame a]
      by simp
  qed
qed

text \<open>The effect of an operation on the three views at once.\<close>

definition adds :: "string list \<Rightarrow> col \<Rightarrow> col \<Rightarrow> bool" where
  "adds ss c c' = (steps c' = steps c @ ss \<and> valid c' = valid c \<and> c_safe c' = c_safe c)"

lemma adds_refl [simp]: "adds [] c c"
  by (simp add: adds_def)

lemma adds_trans: "adds ss c c1 \<Longrightarrow> adds ts c1 c2 \<Longrightarrow> adds (ss @ ts) c c2"
  by (simp add: adds_def)

lemma adds_frame:
  "frame steps m \<Longrightarrow> frame valid m \<Longrightarrow> frame c_safe m \<Longrightarrow> m c = (c', r) \<Longrightarrow> adds [] c c'"
  by (simp add: adds_def frameD)

lemma step_of_steps:
  assumes "step_of v d commands step c = (c', r)"
  shows "adds [step] c c' \<or> (adds [] c c' \<and> isl r)"
  using assms [unfolded step_of_def]
proof (cases rule: andthenE)
  case (raises e)
  then show ?thesis by (auto simp: lift_def)
next
  case (goes c1 spec)
  then have "c1 = c" by (simp add: lift_def)
  then show ?thesis using command_steps [OF goes(2)] by (auto simp: adds_def)
qed

lemma observe_run_adds: "observe_run v slot arm d x c = (c', r) \<Longrightarrow> adds [] c c'"
  by (auto simp: observe_run_def handle_def lift_def stop_def andthen_def set_state_def change_def adds_def steps_def valid_def
      split: sum.splits option.splits prod.splits)

text \<open>\<open>observe_run\<close> accepted the observation of the run in the tree at hand.\<close>

lemma observe_run_accepts: "observe_run v slot arm d x c = (c', Inr u) \<Longrightarrow>
    c' = c \<and> (\<exists>seconds. observation (v_sha v) (v_loads v) (te_fromiso (v_te v)) (te_fsum (v_te v)) (tree c) d (v_manifest v)
      (slot_workload slot) arm seconds None = Inr ())"
  by (auto simp: observe_run_def handle_def lift_def stop_def andthen_def set_state_def change_def ebind_eq_Inr
      split: sum.splits option.splits prod.splits)

lemma step_of_goes: "step_of v d commands step c = (c', Inr x) \<Longrightarrow> adds [step] c c'"
  using step_of_steps [of v d commands step c c' "Inr x"] by simp

text \<open>From \<open>c\<close> on, the run and the observer returned and the observation of the run was accepted.\<close>

definition run_observed :: "env \<Rightarrow> slot \<Rightarrow> string \<Rightarrow> path \<Rightarrow> pv \<Rightarrow> col \<Rightarrow> bool" where
  "run_observed v slot arm d commands c = (\<exists>c1 outcome c2 x. step_of v d commands ''run'' c = (c1, Inr outcome) \<and>
     step_of v d commands ''observe'' c1 = (c2, Inr x) \<and> observe_run v slot arm d outcome c2 = (c2, Inr ()))"

lemma measure_steps:
  assumes "measure v slot arm d commands c = (c', r)"
  shows "\<exists>n \<le> 3. adds (take n [''run'', ''observe'', ''check'']) c c' \<and> (n = 3 \<longrightarrow> run_observed v slot arm d commands c)"
  using assms [unfolded measure_def]
proof (cases rule: andthenE)
  case (raises e)
  then show ?thesis using step_of_steps [OF raises(1)] by (auto intro: exI [of _ 0] exI [of _ "Suc 0"])
next
  case (goes c1 x)
  note ran = goes(1) and one = step_of_goes [OF goes(1)]
  from goes(2) show ?thesis
  proof (cases rule: andthenE)
    case (raises e)
    then have "adds [''observe''] c1 c' \<or> adds [] c1 c'" using step_of_steps by blast
    then show ?thesis using adds_trans [OF one] by (auto intro: exI [of _ "Suc 0"] exI [of _ 2])
  next
    case (goes c2 y)
    note obs = goes(1)
    have two: "adds [''run'', ''observe''] c c2" using adds_trans [OF one step_of_goes [OF goes(1)]] by simp
    from goes(2) show ?thesis
    proof (cases rule: andthenE)
      case (raises e)
      then show ?thesis using adds_trans [OF two observe_run_adds [OF raises(1)]] by (auto intro: exI [of _ 2])
    next
      case (goes c3 z)
      then have ok: "c3 = c2" "run_observed v slot arm d commands c"
        using observe_run_accepts [OF goes(1)] ran obs by (auto simp: run_observed_def)
      have "adds [''check''] c2 c' \<or> adds [] c2 c'"
        using goes(2) ok(1) by (auto simp: give_def elim!: andthenE dest: step_of_steps)
      then show ?thesis using adds_trans [OF two] ok(2) by (auto intro: exI [of _ 2] exI [of _ 3])
    qed
  qed
qed

lemma current_date_adds:
  "current_date v slot c = (c', r) \<Longrightarrow> adds [] c c' \<and> r = Inr (slot_date slot = v_today v (c_moments c))"
  by (auto simp: current_date_def andthen_def ask_def mark_def change_def give_def adds_def steps_def valid_def)

text \<open>\<open>prepare\<close> succeeded and the date was still the slot's.\<close>

definition prepared_ok :: "env \<Rightarrow> slot \<Rightarrow> path \<Rightarrow> pv \<Rightarrow> col \<Rightarrow> col \<Rightarrow> bool" where
  "prepared_ok v slot d commands c c2 = (\<exists>c1 p. step_of v d commands ''prepare'' c = (c1, Inr p) \<and> succeeded p = Inr True \<and>
     current_date v slot c1 = (c2, Inr True))"

text \<open>What holds when the first \<open>n\<close> steps were entered.\<close>

definition justified :: "env \<Rightarrow> slot \<Rightarrow> string \<Rightarrow> path \<Rightarrow> pv \<Rightarrow> col \<Rightarrow> nat \<Rightarrow> bool" where
  "justified v slot arm d commands c n = (2 \<le> n \<longrightarrow> (\<exists>c2. prepared_ok v slot d commands c c2 \<and>
     (n = 4 \<longrightarrow> run_observed v slot arm d commands c2)))"

definition MAIN :: "string list" where
  "MAIN = [''prepare'', ''run'', ''observe'', ''check'']"

lemma body_steps:
  assumes "body v slot arm d commands c = (c', r)"
  shows "\<exists>n \<le> 4. adds (take n MAIN) c c' \<and> justified v slot arm d commands c n"
  using assms [unfolded body_def]
proof (cases rule: andthenE)
  case (raises e)
  then show ?thesis using step_of_steps [OF raises(1)] by (auto simp: MAIN_def justified_def intro: exI [of _ 0] exI [of _ "Suc 0"])
next
  case (goes c1 p)
  have one: "adds (take 1 MAIN) c c1" using step_of_goes [OF goes(1)] by (simp add: MAIN_def)
  from goes(2) show ?thesis
  proof (cases rule: andthenE)
    case (raises e)
    then show ?thesis using one by (auto simp: lift_def justified_def intro: exI [of _ "Suc 0"])
  next
    case (goes c2 good)
    then have c2: "c2 = c1" "succeeded p = Inr good" by (auto simp: lift_def)
    show ?thesis
    proof (cases good)
      case False
      then show ?thesis using goes(2) one c2 by (auto simp: give_def justified_def intro: exI [of _ "Suc 0"])
    next
      case True
      then have "andthen (current_date v slot) (\<lambda>today. if today then measure v slot arm d commands
          else set_state (set_reason ''registered_date_expired'')) c1 = (c', r)" using goes(2) c2 by simp
      then show ?thesis
      proof (cases rule: andthenE)
        case (raises e)
        then show ?thesis using current_date_adds by blast
      next
        case (goes c3 today)
        have t: "today = (slot_date slot = v_today v (c_moments c1))" and c3: "adds [] c1 c3"
          using current_date_adds [OF goes(1)] by auto
        show ?thesis
        proof (cases today)
          case False
          then have "adds [] c3 c'"
            using goes(2) by (auto simp: set_state_def change_def adds_def steps_def valid_def set_reason_def)
          then have "adds (take 1 MAIN) c c'" using adds_trans [OF one adds_trans [OF c3]] by fastforce
          then show ?thesis by (intro exI [of _ 1]) (simp add: justified_def)
        next
          case True
          then obtain n where n: "n \<le> 3" "adds (take n [''run'', ''observe'', ''check'']) c3 c'" "n = 3 \<longrightarrow> run_observed v slot arm d commands c3"
            using goes(2) measure_steps [of v slot arm d commands c3 c' r] by auto
          have "prepared_ok v slot d commands c c3"
            using \<open>step_of v d commands ''prepare'' c = (c1, Inr p)\<close> c2(2) \<open>good\<close> goes(1) True by (auto simp: prepared_ok_def)
          then have "justified v slot arm d commands c (Suc n)" using n(3) by (auto simp: justified_def)
          moreover have "adds (take (Suc n) MAIN) c c'"
            using adds_trans [OF one adds_trans [OF c3 n(2)]] by (simp add: MAIN_def)
          ultimately show ?thesis using n(1) by (intro exI [of _ "Suc n"]) auto
        qed
      qed
    qed
  qed
qed

text \<open>Teardown: its hook runs last and once, unless its own pins do not verify; then the cleanup is not valid.\<close>

definition reuse_proven :: "env \<Rightarrow> path \<Rightarrow> col \<Rightarrow> bool" where
  "reuse_proven v d c = (cleanup_valid (v_sha v) (v_loads v) (tree c) d True = Inr () \<and> c_contained c \<and> error c = None \<and>
     (let now = c_moments c in verify_execution_pins (v_file_at v now) (v_may_run v now) (v_digest v now) (v_manifest v) None = Inr ()))"

text \<open>The state in which the verdict is written.\<close>

definition proven_state :: "col \<Rightarrow> col" where
  "proven_state c = c\<lparr>c_state := set_valid True (c_state c), c_moments := c_moments c @ [Verified_pins]\<rparr>"

lemma verify_pins_passed:
  assumes "verify_pins v selected c = (c', Inr ())"
  shows "c' = c\<lparr>c_moments := c_moments c @ [Verified_pins]\<rparr> \<and>
    (let now = c_moments c in verify_execution_pins (v_file_at v now) (v_may_run v now) (v_digest v now) (v_manifest v) selected = Inr ())"
  using assms by (auto simp: verify_pins_def andthen_def lift_def mark_def change_def Let_def)

lemma pins_frames: "frame steps (verify_pins v s)" "frame valid (verify_pins v s)" "frame c_safe (verify_pins v s)"
  by (rule all_frames)+

text \<open>An operation that adds no step either stops with a fault or goes on.\<close>

lemma quietE:
  assumes "andthen m k c = (c', r)" "frame steps m" "frame valid m" "frame c_safe m"
  obtains (raises) "adds [] c c'" "isl r" | (goes) c1 x where "m c = (c1, Inr x)" "adds [] c c1" "k x c1 = (c', r)"
  using assms(1) adds_frame [OF assms(2-4)] by (cases rule: andthenE) auto

lemma frames3: "frame steps (lift g)" "frame valid (lift g)" "frame c_safe (lift g)"
  "frame steps (pins_still_match v)" "frame valid (pins_still_match v)" "frame c_safe (pins_still_match v)"
  unfolding pins_still_match_def by (intro frames pins_frames)+

lemma prove_cleanup_steps:
  assumes "prove_cleanup v d pins_match c = (c', r)"
  shows "steps c' = steps c \<and> c_safe c' = c_safe c \<and> (if isl r then valid c' = valid c else valid c' \<longrightarrow> reuse_proven v d c \<and> c' = proven_state c)"
  using assms [unfolded prove_cleanup_def] frames3(1-3)
proof (cases rule: quietE)
  case raises
  then show ?thesis by (simp add: adds_def)
next
  case (goes c1 x)
  then have c1: "c1 = c" "cleanup_valid (v_sha v) (v_loads v) (tree c) d True = Inr ()" by (auto simp: lift_def)
  from goes(3) pins_frames show ?thesis
  proof (cases rule: quietE)
    case raises
    then show ?thesis using c1 by (simp add: adds_def)
  next
    case (goes c2 y)
    note v2 = verify_pins_passed [OF goes(1) [unfolded c1(1), simplified]]
    have "c' = c2\<lparr>c_state := set_valid (pins_match \<and> c_contained c2 \<and> error c2 = None) (c_state c2)\<rparr>" "r = Inr ()"
      using goes(3) by (auto simp: andthen_def ask_def set_state_def change_def)
    then show ?thesis using v2 c1(2) by (auto simp: steps_def valid_def set_valid_def reuse_proven_def error_def proven_state_def)
  qed
qed

lemma teardown_steps:
  assumes "ensure (save_inputs v d) (andthen (command v d ''cleanup'' spec True) (\<lambda>_. give ())) c = (c', r)"
  shows "adds [''cleanup''] c c'"
proof -
  have fi: "frame steps (save_inputs v d)" "frame valid (save_inputs v d)" "frame c_safe (save_inputs v d)" by (rule all_frames)+
  from assms obtain c1 r1 r2 where h: "save_inputs v d c = (c1, r1)" "andthen (command v d ''cleanup'' spec True) (\<lambda>_. give ()) c1 = (c', r2)"
    by (rule ensureE)
  from h(2) obtain r3 where "command v d ''cleanup'' spec True c1 = (c', r3)" by (cases rule: andthenE) (auto simp: give_def)
  from adds_frame [OF fi h(1)] command_steps [OF this] show ?thesis by (simp add: adds_def)
qed

lemma cleanup_body_steps:
  assumes "cleanup_body v d commands c = (c', r)"
  shows "c_safe c' = c_safe c \<and> (if steps c' = steps c then isl r \<and> valid c' = valid c else
    steps c' = steps c @ [''cleanup''] \<and> (if isl r then valid c' = valid c else
      valid c' \<longrightarrow> (\<exists>c1. reuse_proven v d c1 \<and> c' = proven_state c1)))"
  using assms [unfolded cleanup_body_def] frames3(4-6)
proof (cases rule: quietE)
  case raises
  then show ?thesis by (simp add: adds_def)
next
  case (goes c1 pins_match)
  note a1 = goes(2)
  from goes(3) frames3(1-3) show ?thesis
  proof (cases rule: quietE)
    case raises
    then show ?thesis using a1 by (simp add: adds_def)
  next
    case (goes c2 z)
    obtain spec own where z: "z = (spec, own)" by (cases z)
    note a2 = adds_trans [OF a1 goes(2)]
    from goes(3) [unfolded z prod.case] pins_frames show ?thesis
    proof (cases rule: quietE)
      case raises
      then show ?thesis using a2 by (simp add: adds_def)
    next
      case (goes c3 u)
      note a3 = adds_trans [OF a2 goes(2)]
      from goes(3) show ?thesis
      proof (cases rule: andthenE)
        case (raises e)
        then show ?thesis using adds_trans [OF a3 teardown_steps [OF raises(1)]] by (simp add: adds_def)
      next
        case (goes c4 w)
        show ?thesis using adds_trans [OF a3 teardown_steps [OF goes(1)]] prove_cleanup_steps [OF goes(2)]
          by (auto simp: adds_def)
      qed
    qed
  qed
qed

lemma cleanup_steps:
  assumes "cleanup v slot arm d commands c = (c', r)" "\<not> valid c"
  shows "c_safe c' = c_safe c \<and> (steps c' = steps c @ [''cleanup''] \<or> (steps c' = steps c \<and> \<not> valid c')) \<and>
    (valid c' \<longrightarrow> (\<exists>c1 r2. reuse_proven v d c1 \<and> finish v d slot arm (proven_state c1) = (c', r2)))"
proof -
  let ?h = "\<lambda>e. if evidence_text e = None then stop e else set_state (set_valid False)"
  obtain c1 r1 r2 where h: "handle (cleanup_body v d commands) ?h c = (c1, r1)" and f: "finish v d slot arm c1 = (c', r2)"
    using assms(1) [unfolded cleanup_def] by (rule ensureE)
  have fin: "steps c' = steps c1" "valid c' = valid c1" "c_safe c' = c_safe c1"
    using frameD [OF steps_view.finish_frame f] frameD [OF valid_view.finish_frame f] frameD [OF safe_view.finish_frame f] by auto
  from h show ?thesis
  proof (cases rule: handleE)
    case (handled c2 e)
    then have "steps c1 = steps c2 \<and> c_safe c1 = c_safe c2 \<and> \<not> valid c1"
      using cleanup_body_steps [OF handled(1)] assms(2)
      by (auto simp: stop_def set_state_def change_def steps_def valid_def set_valid_def split: if_splits)
    then show ?thesis using cleanup_body_steps [OF handled(1)] fin by (auto split: if_splits)
  next
    case (passed x)
    then show ?thesis using cleanup_body_steps [OF passed(1)] fin f by (auto split: if_splits)
  qed
qed

lemma deferred_run: "deferred v m c = (c', r) \<Longrightarrow> \<exists>r1. m c = (c', r1)"
  by (auto simp: deferred_def split: prod.splits if_splits)

lemma arm_steps:
  assumes "arm_run v slot arm d c = (c', r)" "\<not> valid c"
  shows "\<exists>n k. n \<le> 4 \<and> (k = [''cleanup''] \<or> (k = [] \<and> \<not> valid c')) \<and> steps c' = steps c @ take n MAIN @ k \<and> c_safe c' = c_safe c \<and>
    (0 < n \<longrightarrow> (\<exists>commands. by_arm_of (v_manifest v) ''commands'' (slot_workload slot) arm = Inr commands \<and> justified v slot arm d commands c n)) \<and>
    (valid c' \<longrightarrow> (\<exists>c1 r2. reuse_proven v d c1 \<and> finish v d slot arm (proven_state c1) = (c', r2)))"
  using assms(1) [unfolded arm_run_def]
proof (cases rule: andthenE)
  case (raises e)
  then have "c' = c" by (simp add: lift_def)
  then show ?thesis using assms(2) by (intro exI [of _ 0] exI [of _ "[]"]) simp
next
  case (goes c1 commands)
  then have c1: "c1 = c" "by_arm_of (v_manifest v) ''commands'' (slot_workload slot) arm = Inr commands" by (simp_all add: lift_def)
  let ?h = "\<lambda>e. case evidence_text e of Some m \<Rightarrow> set_state (set_reason m)
     | None \<Rightarrow> andthen (set_state (set_reason ''interrupted_collection'')) (\<lambda>_. stop e)"
  obtain c2 r1 r2 where h: "handle (body v slot arm d commands) ?h c = (c2, r1)"
    and f: "deferred v (cleanup v slot arm d commands) c2 = (c', r2)"
    using goes(2) unfolding c1(1) by (rule ensureE)
  have reason: "adds [] c3 c2" if "?h e c3 = (c2, r3)" for e c3 r3
    using that by (auto simp: set_state_def change_def andthen_def stop_def adds_def steps_def valid_def set_reason_def split: option.splits)
  have "\<exists>n \<le> 4. adds (take n MAIN) c c2 \<and> justified v slot arm d commands c n"
    using h
  proof (cases rule: handleE)
    case (handled c3 e)
    then show ?thesis using body_steps [OF handled(1)] adds_trans [OF _ reason [OF handled(2)]] by fastforce
  qed (use body_steps in blast)
  then obtain n where n: "n \<le> 4" "adds (take n MAIN) c c2" "justified v slot arm d commands c n" by blast
  obtain r3 where "cleanup v slot arm d commands c2 = (c', r3)" using deferred_run [OF f] by blast
  note cl = cleanup_steps [OF this]
  have "\<not> valid c2" using n(2) assms(2) by (simp add: adds_def)
  note cl = cl [OF this]
  show ?thesis
  proof (cases "steps c' = steps c2 @ [''cleanup'']")
    case True
    then show ?thesis using n cl c1(2) by (intro exI [of _ n] exI [of _ "[''cleanup'']"]) (auto simp: adds_def)
  next
    case False
    then show ?thesis using n cl c1(2) by (intro exI [of _ n] exI [of _ "[]"]) (auto simp: adds_def)
  qed
qed


text \<open>
  C14. Reuse is proven: an arm leaves the host to the next one only if it ended with a teardown after which the
  cleanup proof was valid for the bundle, every receipt of the session had proved containment, the guard had
  seen no violation and all execution pins verified, and nothing but the closing records came after.
\<close>

theorem safe_arm_proven:
  assumes "arm_run v slot arm d c = (c', r)" "\<not> at_valid (c_state c)" "at_valid (c_state c')"
  shows "last (steps c') = ''cleanup'' \<and> (\<exists>c1 r2. finish v d slot arm (proven_state c1) = (c', r2) \<and>
    cleanup_valid (v_sha v) (v_loads v) (tree c1) d True = Inr () \<and> c_contained c1 \<and> error c1 = None \<and>
    verify_execution_pins (v_file_at v (c_moments c1)) (v_may_run v (c_moments c1)) (v_digest v (c_moments c1)) (v_manifest v) None = Inr ())"
proof -
  have "last (steps c') = ''cleanup''" using arm_steps [OF assms(1)] assms(2,3) unfolding valid_def by fastforce
  moreover obtain c1 r2 where "reuse_proven v d c1" "finish v d slot arm (proven_state c1) = (c', r2)"
    using arm_steps [OF assms(1)] assms(2,3) unfolding valid_def by blast
  ultimately show ?thesis by (auto simp: reuse_proven_def Let_def)
qed

section \<open>A block whose cleanup is unproven\<close>

lemma enter_frames: "frame steps (enter_arm v d)" "frame c_safe (enter_arm v d)"
  unfolding enter_arm_def
  by (intro frames all_frames set_state_frame frame_change; simp add: steps_def)+

lemma one_arm_unsafe:
  assumes "one_arm v slot arm c = (c', r)" "\<not> c_safe c"
  shows "steps c' = steps c \<and> \<not> c_safe c'"
  using assms(1) [unfolded one_arm_def Let_def]
proof (cases rule: andthenE)
  case (raises e)
  then show ?thesis using frameD [OF enter_frames(1) raises(1)] frameD [OF enter_frames(2) raises(1)] assms(2) by simp
next
  case (goes c1 x)
  have c1: "steps c1 = steps c" "\<not> c_safe c1"
    using frameD [OF enter_frames(1) goes(1)] frameD [OF enter_frames(2) goes(1)] assms(2) by simp_all
  then have "andthen (set_state (skipped ''cleanup_unproven'')) (\<lambda>_. finish v (arm_dir slot arm) slot arm) c1 = (c', r)"
    using goes(2) by (simp add: andthen_def ask_def give_def)
  moreover have "frame steps (andthen (set_state (skipped ''cleanup_unproven'')) (\<lambda>_. finish v (arm_dir slot arm) slot arm))"
    "frame c_safe (andthen (set_state (skipped ''cleanup_unproven'')) (\<lambda>_. finish v (arm_dir slot arm) slot arm))"
    by (intro frame_andthen set_state_frame steps_view.finish_frame safe_view.finish_frame)+
  ultimately have "steps c' = steps c1" "c_safe c' = c_safe c1" by (blast dest: frameD)+
  then show ?thesis using c1 by simp
qed

lemma arms_loop_unsafe: "arms_loop v slot arms c = (c', r) \<Longrightarrow> \<not> c_safe c \<Longrightarrow> steps c' = steps c \<and> \<not> c_safe c'"
proof (induction arms arbitrary: c)
  case (Cons arm arms)
  from Cons.prems(1) have "andthen (one_arm v slot arm) (\<lambda>_. arms_loop v slot arms) c = (c', r)" by simp
  then show ?case
  proof (cases rule: andthenE)
    case (raises e)
    then show ?thesis using one_arm_unsafe Cons.prems(2) by blast
  next
    case (goes c1 x)
    then show ?thesis using one_arm_unsafe [OF goes(1) Cons.prems(2)] Cons.IH by simp
  qed
qed (simp add: give_def)

lemma arms_loop_append: "arms_loop v slot (xs @ ys) c = andthen (arms_loop v slot xs) (\<lambda>_. arms_loop v slot ys) c"
proof (induction xs arbitrary: c)
  case (Cons arm xs)
  then show ?case by (simp add: andthen_def split: prod.splits sum.splits)
qed (simp add: give_def andthen_def)

section \<open>What the final checkpoint seals\<close>

definition TABLES :: "string list" where
  "TABLES = [''trials.csv'', ''commands.jsonl'', ''events.jsonl'', ''environments.jsonl'']"

text \<open>\<open>only_wrote names c c'\<close>: the guard is the same, and so is every file but those of \<open>names\<close>.\<close>

definition only_wrote :: "string list \<Rightarrow> col \<Rightarrow> col \<Rightarrow> bool" where
  "only_wrote names c c' = (w_guard (c_world c') = w_guard (c_world c) \<and> w_lock (c_world c') = w_lock (c_world c) \<and>
     (\<forall>p. p \<notin> (\<lambda>n. [n]) ` set names \<longrightarrow> map_of (tree c') p = map_of (tree c) p))"

lemma write_bytes_wrote: "write_bytes v p data c = (c', Inr u) \<Longrightarrow>
    w_guard (c_world c') = w_guard (c_world c) \<and> w_lock (c_world c') = w_lock (c_world c) \<and>
    (\<exists>i. \<forall>q. map_of (tree c') q = (if q = p then Some (File i 1 data) else map_of (tree c) q))"
  by (auto simp: write_bytes_def andthen_def lift_def set_tree_def mark_def change_def tree_def map_of_put_file split: if_splits)

lemma write_files_wrote: "write_files v fs c = (c', Inr u) \<Longrightarrow> only_wrote (map fst fs) c c'"
proof (induction v fs arbitrary: c rule: write_files.induct)
  case (2 v name data fs)
  from 2(2) have "andthen (write_bytes v [name] data) (\<lambda>_. write_files v fs) c = (c', Inr u)" by simp
  then show ?case
  proof (cases rule: andthenE)
    case (goes c1 x)
    show ?thesis using write_bytes_wrote [OF goes(1)] 2(1) [OF goes(2)] by (auto simp: only_wrote_def)
  qed simp
qed (simp add: only_wrote_def give_def)

lemma inventory_wrote:
  assumes "inventory v c = (c', Inr u)"
  shows "only_wrote TABLES c c'"
  using assms [unfolded inventory_def]
proof (cases rule: andthenE)
  case (goes c1 fs)
  then have "c1 = c" "inventory_files v (tree c) = Inr fs" by (auto simp: lift_def)
  moreover from this(2) have "map fst fs = TABLES"
    by (auto simp: inventory_files_def ebind_eq_Inr Let_def TABLES_def)
  ultimately show ?thesis using write_files_wrote goes(2) by metis
qed simp

lemma only_wrote_trans: "only_wrote ns c c1 \<Longrightarrow> only_wrote ms c1 c2 \<Longrightarrow> only_wrote (ns @ ms) c c2"
  by (simp add: only_wrote_def image_Un)

lemma seal_bundle_wrote:
  assumes "seal_bundle v c = (c', Inr u)"
  shows "only_wrote [SUMS] c c' \<and> (\<exists>i. seal (v_sha v) (v_dumps v) i (tree c) = Inr (tree c'))"
  using assms
  by (auto simp: seal_bundle_def andthen_def lift_def set_tree_def mark_def change_def tree_def seal_def ebind_eq_Inr
      only_wrote_def map_of_put_file split: sum.splits)

text \<open>The state whose evidence was checked last before the seal.\<close>

lemma after_check_passes:
  assumes "after_check sha secrets writing act w = (w', Inr u)"
  shows "act w = (w', Inr u) \<and> g_error (w_guard w) = None \<and>
    inspect sha secrets (w_lock w) writing (w_tree w) (w_guard w) = Inr ()"
  using assms by (auto simp: after_check_def check_def split: option.splits sum.splits)

lemma guard_check_passes: "guard_check v [] c = (c', Inr u) \<Longrightarrow> c' = c \<and> error c = None \<and>
    inspect (v_sha v) (v_secrets v) (w_lock (c_world c)) [] (tree c) (w_guard (c_world c)) = Inr ()"
  by (auto simp: guard_check_def on_world_def error_def tree_def split: prod.splits dest!: after_check_passes)

lemma guard_own_done: "guard_own v p x c = (c', Inr u) \<Longrightarrow> exists_at (tree c') p \<and> error c' = error c"
  by (auto simp: guard_own_def andthen_def ask_def mark_def change_def on_world_def own_def error_def tree_def exists_at_def
      map_of_put_file record_hash_def split: prod.splits sum.splits if_splits dest!: after_check_passes)

lemma add_count_world: "add_count d n c = (c', r) \<Longrightarrow> c_world c' = c_world c"
  by (auto simp: add_count_def andthen_def lift_def change_def split: prod.splits sum.splits)

lemma save_done:
  assumes "save v p x c = (c', Inr u)"
  shows "exists_at (tree c') p \<and> (error c' = None \<longleftrightarrow> error c = None)"
proof -
  from assms obtain c1 y n where w: "c_world c1 = c_world c"
    and last: "(if error c1 = None then guard_own v p y else write_json v p y) c1 = (c', Inr u)"
    unfolding save_def
    by (auto simp: andthen_def lift_def ask_def only_if_def split: prod.splits sum.splits if_splits dest: add_count_world)
  show ?thesis
  proof (cases "error c1 = None")
    case True
    then show ?thesis using guard_own_done [of v p y c1 c' u] last w by (simp add: error_def)
  next
    case False
    then show ?thesis using write_bytes_wrote [of v p "v_dumps v y" c1 c' u] last w
      by (auto simp: write_json_def error_def exists_at_def)
  qed
qed

text \<open>The state whose evidence was checked last before the seal.\<close>

definition checked_last :: "env \<Rightarrow> col \<Rightarrow> col \<Rightarrow> bool" where
  "checked_last v c1 c' = (error c1 = None \<and> error c' = None \<and>
     inspect (v_sha v) (v_secrets v) (w_lock (c_world c1)) [] (tree c1) (w_guard (c_world c1)) = Inr () \<and>
     only_wrote (TABLES @ [SUMS]) c1 c' \<and> (\<exists>b i. seal (v_sha v) (v_dumps v) i b = Inr (tree c')))"

lemma guarded_seal:
  assumes "andthen (guard_check v []) (\<lambda>_. andthen (inventory v) (\<lambda>_. seal_bundle v)) c = (c', Inr u)"
  shows "checked_last v c c'"
  using assms
proof (cases rule: andthenE)
  case (goes c1 x)
  note g = guard_check_passes [OF goes(1)]
  from goes(2) show ?thesis
  proof (cases rule: andthenE)
    case (goes c2 y)
    have wrote: "only_wrote (TABLES @ [SUMS]) c1 c'"
      using only_wrote_trans [OF inventory_wrote [OF goes(1)]] seal_bundle_wrote [OF goes(2)] by blast
    moreover from wrote have "error c' = error c1" by (simp add: only_wrote_def error_def)
    ultimately show ?thesis using g seal_bundle_wrote [OF goes(2)] by (auto simp: checked_last_def)
  qed simp
qed simp

lemma aggregate_sealed:
  assumes "aggregate v slot interrupted c = (c', Inr u)"
  shows "\<exists>c1. checked_last v c1 c' \<and> (c_safe c \<and> \<not> interrupted \<or> exists_at (tree c1) [''stopped.json''])"
  using assms [unfolded aggregate_def]
proof (cases rule: andthenE)
  case (goes c0 safe)
  then have c0: "c0 = c" "safe = c_safe c" by (auto simp: ask_def)
  from goes(2) show ?thesis
  proof (cases rule: andthenE)
    case (goes c1 x)
    have stopped: "c_safe c \<and> \<not> interrupted \<or> exists_at (tree c1) [''stopped.json'']"
      using goes(1) c0 by (auto simp: only_if_def split: if_splits dest: save_done)
    have "error c1 = None"
      using goes(2) by (auto simp: andthen_def ask_def lift_def refused_def stop_def split: option.splits prod.splits sum.splits)
    then have "andthen (guard_check v []) (\<lambda>_. andthen (inventory v) (\<lambda>_. seal_bundle v)) c1 = (c', Inr u)"
      using goes(2) by (simp add: andthen_def ask_def)
    then show ?thesis using guarded_seal stopped by blast
  qed simp
qed simp

lemma finalize_sealed:
  assumes "finalize v slot interrupted c = (c', Inr u)"
  shows "aggregate v slot interrupted c = (c', Inr u)"
  using assms [unfolded finalize_def]
proof (cases rule: handleE)
  case (handled c1 e)
  then show ?thesis by (auto simp: andthen_def stop_def split: if_splits prod.splits sum.splits)
next
  case (passed x)
  then show ?thesis by (auto simp: deferred_def split: prod.splits if_splits)
qed

lemma session_sealed:
  assumes "session v slot c = (c', Inr safe)"
  shows "\<exists>c1. arms_loop v slot (slot_arms slot) c = (c1, Inr ()) \<and> aggregate v slot False c1 = (c', Inr ()) \<and> safe = c_safe c'"
proof -
  obtain c1 r where run: "arms_loop v slot (slot_arms slot) c = (c1, r)" by fastforce
  then have "andthen (finalize v slot (isl r)) (\<lambda>_ c2. (c2, map_sum id (\<lambda>_. c_safe c2) r)) c1 = (c', Inr safe)"
    using assms by (simp add: session_def)
  then show ?thesis
  proof (cases rule: andthenE)
    case (goes c2 x)
    then have "r = Inr ()" by (cases r) auto
    moreover from this have "c2 = c'" "safe = c_safe c'" using goes(2) by auto
    ultimately show ?thesis using finalize_sealed [of v slot False c1 c2] goes(1) run by simp
  qed simp
qed

lemma checked_last_keeps:
  assumes "checked_last v c1 c'" "n \<notin> set (TABLES @ [SUMS])"
  shows "exists_at (tree c') [n] = exists_at (tree c1) [n]"
proof -
  have "[n] \<notin> (\<lambda>n. [n]) ` set (TABLES @ [SUMS])" using assms(2) by auto
  then have "map_of (tree c') [n] = map_of (tree c1) [n]"
    using assms(1) unfolding checked_last_def only_wrote_def by blast
  then show ?thesis by (simp add: exists_at_def)
qed

lemma session_stopped:
  assumes "session v slot c = (c', Inr safe)"
  shows "(\<exists>c1. checked_last v c1 c') \<and> safe = c_safe c' \<and> (safe \<or> exists_at (tree c') [''stopped.json''])"
proof -
  obtain c1 where c1: "arms_loop v slot (slot_arms slot) c = (c1, Inr ())" "aggregate v slot False c1 = (c', Inr ())" "safe = c_safe c'"
    using session_sealed [OF assms] by blast
  obtain c2 where c2: "checked_last v c2 c'" "c_safe c1 \<or> exists_at (tree c2) [''stopped.json'']"
    using aggregate_sealed [OF c1(2)] by blast
  have "exists_at (tree c') [''stopped.json''] = exists_at (tree c2) [''stopped.json'']"
    using checked_last_keeps [OF c2(1), of "''stopped.json''"] by (simp add: TABLES_def SUMS_def)
  moreover have "c_safe c' = c_safe c1" using frameD [OF safe_view.aggregate_frames(1) c1(2)] .
  ultimately show ?thesis using c1(3) c2 by blast
qed

text \<open>
  C16. Only intact evidence is sealed: a block ends normally only if, at the final checkpoint, the guard had seen
  no violation and accepted the whole bundle; the sealed bundle differs from the accepted one in the campaign's
  tables and the checksums only; and it holds \<open>stopped.json\<close> unless the last cleanup was proven.
\<close>

theorem block_sealed:
  assumes "session v slot c = (c', Inr safe)"
  shows "\<exists>c1. error c1 = None \<and> inspect (v_sha v) (v_secrets v) (w_lock (c_world c1)) [] (tree c1) (w_guard (c_world c1)) = Inr () \<and>
    only_wrote (TABLES @ [SUMS]) c1 c' \<and> (\<exists>b i. seal (v_sha v) (v_dumps v) i b = Inr (tree c')) \<and>
    (safe \<and> c_safe c' \<or> exists_at (tree c') [''stopped.json''])"
  using session_stopped [OF assms] unfolding checked_last_def by blast

lemma stopped_refused: "exists_at (tree c) [''stopped.json''] \<Longrightarrow> \<exists>e. collect_locked w st block c = (c, Inl e)"
proof -
  assume "exists_at (tree c) [''stopped.json'']"
  then obtain e where "frozen_campaign w st (c_moments c) (tree c) = Inl e"
    by (cases "verify (v_sha w) (v_loads w) (tree c)") (simp_all add: frozen_campaign_def require_def)
  then have "admit w st (c_moments c) (tree c) block = Inl e" by (simp add: admit_def)
  then show ?thesis by (simp add: collect_locked_def andthen_def lift_def)
qed


section \<open>A small campaign\<close>

text \<open>
  Preparing fails on this host; its teardown succeeds or fails as the argument says.  The digest is the identity, a
  document is written as its first key.
\<close>

definition command_doc :: "int \<Rightarrow> pv" where
  "command_doc code = PDict [(''started'', PBool True), (''finished'', PBool True), (''interrupted'', PBool False), (''exit'', PInt code),
     (''timeout'', PBool False), (''error'', PNone), (''containment_proven'', PBool True), (''redactions'', PInt 0)]"

definition example_documents :: "(string \<times> pv) list" where
  "example_documents = [(''failed'', command_doc 1), (''done'', command_doc 0),
     (''proof'', PDict [(''proven'', PBool True), (''evidence'', PDict [(''down'', PStr ''d'')])]),
     (''paths'', PDict [(''paths'', PDict [(''prepare.command.json'', PStr ''failed'')]), (''identities'', PList [])]),
     (''collection_root'', PDict [(''collection_root'', PStr ''/c''), (''state'', PStr ''entered''), (''reason'', PStr []), (''cleanup_inputs_valid'', PBool False)]),
     (''reg'', PDict [(''registered_at'', PStr [])]), (''replacements'', PDict [(''replacements'', PInt 0)])]"

definition example_manifest :: pv where
  "example_manifest = (let spec = PDict [(''argv'', PList [PStr ''/x'']), (''cwd'', PStr ''/''), (''env'', PDict []), (''timeout_seconds'', PFloat (Fin 2))];
       one = (\<lambda>v. PDict [(''w'', PDict [(''baseline'', v), (''candidate'', v)])]) in
     PDict [(''experiment'', PStr ''E3''), (''redact_env'', PList []), (''execution_pins'', PList []),
       (''commands'', one (PDict [(''prepare'', spec), (''cleanup'', spec)]))])"

definition example_file :: "nat \<Rightarrow> string \<Rightarrow> node" where
  "example_file i data = File \<lparr>dev = 0, ino = i\<rparr> 1 data"

definition example_hook :: "string \<Rightarrow> moment list \<Rightarrow> pv \<Rightarrow> path \<Rightarrow> string \<Rightarrow> world \<Rightarrow> bundle_tree \<times> inode res \<times> (fault + pv)" where
  "example_hook teardown now spec d step w = (
     if step = ''cleanup'' then (w_tree w @ [(d @ [''cleanup.command.json''], example_file 2 teardown), (d @ [''cleanup.json''], example_file 3 ''proof''),
        (d @ [''down''], example_file 4 ''d'')], w_lock w, Inr (command_doc 0))
     else (w_tree w @ [(d @ [''prepare.command.json''], example_file 1 ''failed'')], w_lock w, Inr (command_doc 1)))"

definition example_te :: trial_env where
  "example_te = \<lparr>te_sha = id, te_loads = (\<lambda>s. case map_of example_documents s of Some v \<Rightarrow> Inr v | None \<Rightarrow> Inl (ValueError s)),
     te_fromiso = (\<lambda>s. Inr (int (length s), Some 0)), te_fsum = (\<lambda>_. Fin 0), te_text = (\<lambda>_. []), te_time = (\<lambda>_. [])\<rparr>"

definition example_env :: "string \<Rightarrow> env" where
  "example_env teardown = \<lparr>v_te = example_te, v_dumps = (\<lambda>x. case items_of x of [] \<Rightarrow> [] | e # es \<Rightarrow> fst e), v_secrets = [], v_manifest = example_manifest,
     v_root = ''/c'', v_run = example_hook teardown, v_file_at = (\<lambda>_ _. True), v_may_run = (\<lambda>_ _. True), v_digest = (\<lambda>_ p. Inr p),
     v_today = (\<lambda>_. ''1970-01-01''), v_inode = (\<lambda>now p. \<lparr>dev = 1, ino = length now\<rparr>), v_signal = (\<lambda>_. False),
     v_csv = (\<lambda>_ _. []), v_line = (\<lambda>_. [])\<rparr>"

definition example_col :: col where
  "example_col = \<lparr>c_world = \<lparr>w_tree = [([''blocks''], Dir), ([''blocks'', ''b''], Dir), (sample_dir, Dir), ([''registration.json''], example_file 5 ''reg'')],
        w_lock = Inr \<lparr>dev = 0, ino = 9\<rparr>,
        w_guard = \<lparr>g_lock = \<lparr>dev = 0, ino = 9\<rparr>, g_hashes = [(''blocks'', PNone), (''blocks/b'', PNone), (''blocks/b/baseline'', PNone), (''registration.json'', PStr ''reg'')],
          g_active = Some sample_dir, g_error = None\<rparr>\<rparr>,
     c_counts = Map.empty, c_contained = True, c_state = entered, c_safe = True, c_moments = []\<rparr>"



definition opened_col :: col where
  "opened_col = \<lparr>c_world = \<lparr>w_tree = [([''blocks''], Dir), ([''blocks'', ''b''], Dir), ([''registration.json''], example_file 5 ''reg'')],
        w_lock = Inr \<lparr>dev = 0, ino = 9\<rparr>,
        w_guard = \<lparr>g_lock = \<lparr>dev = 0, ino = 9\<rparr>, g_hashes = [(''blocks'', PNone), (''blocks/b'', PNone), (''registration.json'', PStr ''reg'')],
          g_active = None, g_error = None\<rparr>\<rparr>,
     c_counts = Map.empty, c_contained = True, c_state = entered, c_safe = True, c_moments = []\<rparr>"

lemma example_arm: "(case arm_run (example_env ''done'') sample_slot ''baseline'' sample_dir example_col of (c', r) \<Rightarrow>
   r = Inr () \<and> steps c' = [''prepare'', ''cleanup''] \<and> at_valid (c_state c'))"
  by code_simp

lemma example_unsafe: "(case arms_loop (example_env ''failed'') sample_slot [''baseline''] opened_col of (c', r) \<Rightarrow>
   r = Inr () \<and> \<not> c_safe c')"
  by code_simp

lemma example_block: "(case session (example_env ''failed'') sample_slot opened_col of (c', r) \<Rightarrow> r = Inr False)"
  by code_simp

lemma example_starts: "\<not> at_valid (c_state example_col)"
  by (simp add: example_col_def entered_def)

lemma example_ran:
  obtains c' where "arm_run (example_env ''done'') sample_slot ''baseline'' sample_dir example_col = (c', Inr ())"
    "steps c' = [''prepare'', ''cleanup'']" "at_valid (c_state c')"
  using example_arm by (auto split: prod.splits)


lemma safe_arm_proven_witness:
  "\<exists>c1. cleanup_valid id (te_loads example_te) (tree c1) sample_dir True = Inr () \<and> c_contained c1 \<and> error c1 = None"
proof -
  obtain c' where c': "arm_run (example_env ''done'') sample_slot ''baseline'' sample_dir example_col = (c', Inr ())"
    "steps c' = [''prepare'', ''cleanup'']" "at_valid (c_state c')"
    by (rule example_ran)
  have "v_te (example_env ''done'') = example_te" "te_sha example_te = id" by (simp_all add: example_env_def example_te_def)
  then show ?thesis using safe_arm_proven [OF c'(1) example_starts c'(3)] by auto
qed

lemma example_stops:
  obtains c' where "session (example_env ''failed'') sample_slot opened_col = (c', Inr False)"
  using example_block by (auto split: prod.splits)

lemma block_sealed_witness:
  "\<exists>c1 c'. session (example_env ''failed'') sample_slot opened_col = (c', Inr False) \<and> error c1 = None \<and>
    only_wrote (TABLES @ [SUMS]) c1 c' \<and> exists_at (tree c') [''stopped.json'']"
proof -
  obtain c' where c': "session (example_env ''failed'') sample_slot opened_col = (c', Inr False)" by (rule example_stops)
  then show ?thesis using block_sealed [OF c'] by blast
qed

definition example_station :: station where
  "example_station = \<lparr>st_sources = [], st_links = (\<lambda>_. False), st_address_ok = (\<lambda>_. True), st_registration = Inr PNone,
     st_environ = Map.empty, st_now = [], st_argv = []\<rparr>"


end
