(* ===== verification/Freeze.thy ===== *)
theory Freeze
  imports Lifecycle
begin

text \<open>
  The freezing of a campaign, \<open>freeze\<close> of \<open>harness/collector.py\<close>: a validated plan, its pins and protocols,
  the assignment order and the collector's own sources become a sealed bundle.

  What freezing reads outside the bundle is the record \<open>workshop\<close>; the bundle starts empty, and its writes are
  operations of theory \<open>Collector\<close>.  The lemmas show that the bundle holds what was validated, byte for byte, and
  that the collector's admission accepts it as long as the sources and the execution pins are the same.
\<close>

section \<open>The plan and what it pins\<close>

record workshop =
  fz_manifest :: "pv res"
  fz_links :: "path \<Rightarrow> bool"
  fz_source_links :: "path \<Rightarrow> bool"
  fz_read :: "path \<Rightarrow> string res"
  fz_dest_links :: "path \<Rightarrow> bool"
  fz_revision :: "string \<Rightarrow> string res"
  fz_runnable :: "string \<Rightarrow> bool"
  fz_mkdir :: "unit res"
  fz_sources :: "(string \<times> string res) list"
  fz_argv :: "string list"

text \<open>The manifest with its executables bound, validated before and after.\<close>

definition bound_manifest :: "env \<Rightarrow> workshop \<Rightarrow> moment list \<Rightarrow> pv res" where
  "bound_manifest v ws now =
     ebind (fz_manifest ws) (\<lambda>m0. ebind (validate_manifest (fz_links ws) m0) (\<lambda>_.
     ebind (bind_executables (fz_runnable ws) m0) (\<lambda>m. ebind (validate_manifest (fz_links ws) m) (\<lambda>_.
     ebind (verify_execution_pins (v_file_at v now) (v_may_run v now) (v_digest v now) m None) (\<lambda>_. Inr m)))))"

definition pinned_bytes :: "workshop \<Rightarrow> pv \<Rightarrow> string res" where
  "pinned_bytes ws pin = item pin ''path'' (\<lambda>p. ebind (child (fz_source_links ws) [] p) (fz_read ws))"

definition add_pin :: "env \<Rightarrow> workshop \<Rightarrow> pv \<Rightarrow> (string \<times> string) list \<Rightarrow> (string \<times> string) list res" where
  "add_pin v ws pin found = ebind (pinned_bytes ws pin) (\<lambda>data. item pin ''path'' (\<lambda>p. item pin ''sha256'' (\<lambda>h.
     ebind (if PStr (v_sha v data) \<noteq> h then Inr True else ebind (pgetn pin ''role'') (\<lambda>r. Inr (\<not> truthy r))) (\<lambda>bad.
     require (\<not> bad) (''artifact pin mismatch: '' @ str_of p) (
     let name = ''pins/'' @ str_of p in
     require (name \<notin> set (map fst found)) (''duplicate pin: '' @ str_of p) (Inr (found @ [(name, data)])))))))"

definition add_protocol :: "env \<Rightarrow> workshop \<Rightarrow> pv \<Rightarrow> string \<times> pv \<Rightarrow> (string \<times> string) list \<Rightarrow> (string \<times> string) list res" where
  "add_protocol v ws m = (\<lambda>(name, pin) found.
     require (char_of (0::nat) \<notin> set name) ''invalid protocol filename'' (
     ebind (child (fz_dest_links ws) [''protocol''] (PStr name)) (\<lambda>_. ebind (pinned_bytes ws pin) (\<lambda>data. item pin ''sha256'' (\<lambda>h.
     require (PStr (v_sha v data) = h) (''protocol pin mismatch: '' @ name) (
     item m ''experiment'' (\<lambda>e. ebind (if e = PStr ''E1'' \<or> e = PStr ''E2'' then ebind (fz_revision ws name) (\<lambda>current.
         require (data = current) (''protocol differs from this collector revision: '' @ name) (Inr ())) else Inr ()) (\<lambda>_.
     Inr (dict_set (''protocol/'' @ name) data found)))))))))"

definition pinned_contents :: "env \<Rightarrow> workshop \<Rightarrow> pv \<Rightarrow> (string \<times> string) list res" where
  "pinned_contents v ws m = item m ''pins'' (\<lambda>ps. ebind (py_iter ps) (\<lambda>pins. ebind (efold (add_pin v ws) pins []) (\<lambda>found.
     item m ''protocols'' (\<lambda>qs. ebind (py_items qs) (\<lambda>protocols. efold (add_protocol v ws m) protocols found)))))"

text \<open>Where the contents go: distinct paths, none above another.\<close>

definition unconflicting :: "path list \<Rightarrow> bool" where
  "unconflicting ps = (distinct ps \<and> list_all (\<lambda>p. list_all (\<lambda>k. take k p \<notin> set ps) [1..<length p]) ps)"

definition retained_files :: "workshop \<Rightarrow> (string \<times> string) list \<Rightarrow> (path \<times> string) list res" where
  "retained_files ws found = ebind (emap (\<lambda>(name, data). child (fz_dest_links ws) [] (PStr name)) found) (\<lambda>targets.
     require (unconflicting targets) ''conflicting retained artifact paths'' (Inr (zip targets (map snd found))))"

definition freeze_plan :: "env \<Rightarrow> workshop \<Rightarrow> moment list \<Rightarrow> (pv \<times> (path \<times> string) list \<times> slot list) res" where
  "freeze_plan v ws now = ebind (bound_manifest v ws now) (\<lambda>m. ebind (pinned_contents v ws m) (\<lambda>found.
     ebind (retained_files ws found) (\<lambda>fs. ebind (order (v_sha v) (inputs_of m)) (\<lambda>rows. Inr (m, fs, rows)))))"

section \<open>The bundle\<close>

fun each :: "('a \<Rightarrow> unit op) \<Rightarrow> 'a list \<Rightarrow> unit op" where
  "each f [] = give ()"
| "each f (x # xs) = andthen (f x) (\<lambda>_. each f xs)"

text \<open>\<open>path.parent.mkdir(parents=True, exist_ok=True)\<close>\<close>

definition make_parents :: "path \<Rightarrow> unit op" where
  "make_parents p = each (\<lambda>k. make_dir (take k p) True) [1..<length p]"

definition retain :: "env \<Rightarrow> path \<times> string \<Rightarrow> unit op" where
  "retain v = (\<lambda>(p, data). andthen (make_parents p) (\<lambda>_. write_bytes v p data))"

definition archive :: "env \<Rightarrow> string \<times> string res \<Rightarrow> unit op" where
  "archive v = (\<lambda>(name, live). let p = [''analysis'', ''source'', name] in
     andthen (make_parents p) (\<lambda>_. andthen (lift (\<lambda>_. live)) (write_bytes v p)))"

definition order_doc :: "slot list \<Rightarrow> pv" where
  "order_doc rows = PList (map (\<lambda>s. PDict (slot_doc s)) rows)"

definition order_table :: "slot list \<Rightarrow> pv list" where
  "order_table rows = map (\<lambda>s. updated (PDict (slot_doc s)) [(''arms'', PStr (join '','' (slot_arms s)))]) rows"

definition freeze_command :: "env \<Rightarrow> workshop \<Rightarrow> pv" where
  "freeze_command v ws = PDict [(''argv'', PList (map PStr (fz_argv ws @ [v_root v])))]"

definition dependencies_doc :: pv where
  "dependencies_doc = PDict [(''bundle_format'', PInt 5), (''runtime'', PStr ''Python >= 3.9''),
     (''dependencies'', PStr ''standard library only'')]"

definition write_campaign :: "env \<Rightarrow> workshop \<Rightarrow> (path \<times> string) list \<Rightarrow> slot list \<Rightarrow> unit op" where
  "write_campaign v ws fs rows =
     andthen (set_tree []) (\<lambda>_. andthen (each (retain v) fs) (\<lambda>_.
     andthen (write_bytes v [''collection.lock''] []) (\<lambda>_.
     andthen (write_json v [''freeze-command.json''] (freeze_command v ws)) (\<lambda>_.
     andthen (write_json v [''campaign.json''] (v_manifest v)) (\<lambda>_.
     andthen (write_json v [''order.json''] (order_doc rows)) (\<lambda>_.
     andthen (write_bytes v [''order.csv''] (v_csv v [''block'', ''block_id'', ''workload'', ''date_slot'', ''date'', ''arms''] (order_table rows))) (\<lambda>_.
     andthen (each (archive v) (fz_sources ws)) (\<lambda>_.
     andthen (write_json v [''analysis'', ''dependencies.json''] dependencies_doc) (\<lambda>_.
     andthen (inventory v) (\<lambda>_. seal_bundle v))))))))))"

definition freeze :: "env \<Rightarrow> workshop \<Rightarrow> unit op" where
  "freeze v ws = andthen (lift (\<lambda>c. freeze_plan v ws (c_moments c))) (\<lambda>(m, fs, rows).
     andthen (lift (\<lambda>_. fz_mkdir ws)) (\<lambda>_. write_campaign (v\<lparr>v_manifest := m\<rparr>) ws fs rows))"

section \<open>What a write leaves\<close>

definition plain_path :: "path \<Rightarrow> bool" where
  "plain_path p = (p \<noteq> [] \<and> list_all (\<lambda>c. c \<noteq> [] \<and> CHR ''/'' \<notin> set c) p)"

text \<open>\<open>builds P c c'\<close>: a well-formed bundle of files and directories stays one, and only paths of \<open>P\<close> differ.
  \<open>holds_still c c'\<close>: what was there is still there, as it was.\<close>

definition builds :: "(path \<Rightarrow> bool) \<Rightarrow> col \<Rightarrow> col \<Rightarrow> bool" where
  "builds P c c' = ((wf_bundle (tree c) \<and> regular (tree c) \<longrightarrow> wf_bundle (tree c') \<and> regular (tree c')) \<and>
     (\<forall>q. \<not> P q \<longrightarrow> map_of (tree c') q = map_of (tree c) q))"

definition holds_still :: "col \<Rightarrow> col \<Rightarrow> bool" where
  "holds_still c c' = (\<forall>q n. map_of (tree c) q = Some n \<longrightarrow> map_of (tree c') q = Some n)"

lemma holds_still_trans: "holds_still c c1 \<Longrightarrow> holds_still c1 c2 \<Longrightarrow> holds_still c c2"
  by (simp add: holds_still_def)

lemma holds_still_read: "holds_still c c' \<Longrightarrow> read_file (tree c) q = Inr d \<Longrightarrow> read_file (tree c') q = Inr d"
  by (cases "map_of (tree c) q") (auto simp: holds_still_def read_file_def)

lemma builds_refl: "builds P c c"
  by (simp add: builds_def)

lemma builds_trans: "builds P c c1 \<Longrightarrow> builds Q c1 c2 \<Longrightarrow> builds (\<lambda>q. P q \<or> Q q) c c2"
  by (simp add: builds_def)

lemma builds_same: "builds P c c1 \<Longrightarrow> builds P c1 c2 \<Longrightarrow> builds P c c2"
  by (simp add: builds_def)

lemma builds_mono: "builds P c c' \<Longrightarrow> (\<And>q. P q \<Longrightarrow> Q q) \<Longrightarrow> builds Q c c'"
  by (auto simp: builds_def)

lemma builds_read: "builds P c c' \<Longrightarrow> \<not> P q \<Longrightarrow> read_file (tree c') q = read_file (tree c) q"
  by (simp add: builds_def read_file_def)

lemma wf_put_plain: "wf_bundle b \<Longrightarrow> plain_path p \<Longrightarrow> wf_bundle (put_file p i data b)"
  by (auto simp: wf_bundle_def put_file_def plain_path_def list_all_iff distinct_map_filter image_iff)

lemma andthen_Inr:
  assumes "andthen m k c = (c', Inr y)"
  obtains c1 x where "m c = (c1, Inr x)" "k x c1 = (c', Inr y)"
  using assms by (auto simp: andthen_def split: prod.splits sum.splits)

lemma write_bytes_builds:
  assumes "write_bytes v p data c = (c', Inr u)" "plain_path p"
  shows "builds (\<lambda>q. q = p) c c' \<and> read_file (tree c') p = Inr data"
proof -
  obtain i where "tree c' = put_file p i data (tree c)"
    using assms(1) by (auto simp: write_bytes_def andthen_def lift_def set_tree_def mark_def change_def tree_def split: if_splits)
  then show ?thesis
    using assms(2) by (simp add: builds_def wf_put_plain regular_put_file map_of_put_file read_file_def)
qed

text \<open>A directory is only made where nothing is.\<close>

lemma make_dir_builds:
  assumes "make_dir p True c = (c', Inr u)" "plain_path p"
  shows "builds (\<lambda>q. q = p) c c' \<and> holds_still c c'"
proof -
  have "tree c' = tree c \<or> (map_of (tree c) p = None \<and> tree c' = (p, Dir) # tree c)"
    using assms(1) by (auto simp: make_dir_def andthen_def lift_def set_tree_def change_def tree_def split: if_splits)
  then show ?thesis
  proof
    assume "map_of (tree c) p = None \<and> tree c' = (p, Dir) # tree c"
    moreover from this have "p \<notin> fst ` set (tree c)" by (simp add: map_of_eq_None_iff)
    ultimately show ?thesis
      using assms(2) by (auto simp: builds_def wf_bundle_def regular_def is_dir_def plain_path_def holds_still_def)
  qed (simp add: builds_def holds_still_def)
qed

lemma plain_take: "plain_path p \<Longrightarrow> 1 \<le> k \<Longrightarrow> plain_path (take k p)"
  by (auto simp: plain_path_def list_all_iff dest: in_set_takeD)

lemma make_dirs_builds:
  assumes "each (\<lambda>k. make_dir (take k p) True) ks c = (c', Inr u)" "plain_path p" "list_all (\<lambda>k. 1 \<le> k) ks"
  shows "builds (\<lambda>q. q \<noteq> [] \<and> hd q = hd p) c c' \<and> holds_still c c'"
  using assms(1,3)
proof (induction ks arbitrary: c)
  case Nil
  then show ?case by (simp add: give_def builds_refl holds_still_def)
next
  case (Cons k ks)
  from Cons.prems(1) have "andthen (make_dir (take k p) True) (\<lambda>_. each (\<lambda>k. make_dir (take k p) True) ks) c = (c', Inr u)" by simp
  then obtain c1 x where c1: "make_dir (take k p) True c = (c1, Inr x)" "each (\<lambda>k. make_dir (take k p) True) ks c1 = (c', Inr u)"
    by (rule andthen_Inr)
  have k: "1 \<le> k" and ks: "list_all (\<lambda>k. 1 \<le> k) ks" using Cons.prems(2) by simp_all
  have one: "builds (\<lambda>q. q = take k p) c c1" "holds_still c c1"
    using make_dir_builds [OF c1(1) plain_take [OF assms(2) k]] by blast+
  have "hd (take k p) = hd p" "take k p \<noteq> []" using k assms(2) by (auto simp: plain_path_def)
  then have first: "builds (\<lambda>q. q \<noteq> [] \<and> hd q = hd p) c c1" by (auto intro: builds_mono [OF one(1)])
  note others = Cons.IH [OF c1(2) ks]
  show ?case by (rule conjI, rule builds_same [OF first conjunct1 [OF others]], rule holds_still_trans [OF one(2) conjunct2 [OF others]])
qed

lemma make_parents_builds:
  assumes "make_parents p c = (c', Inr u)" "plain_path p"
  shows "builds (\<lambda>q. q \<noteq> [] \<and> hd q = hd p) c c' \<and> holds_still c c'"
  using make_dirs_builds [OF assms(1) [unfolded make_parents_def] assms(2)] by (simp add: list_all_iff)

lemma retain_builds:
  assumes "retain v (p, data) c = (c', Inr u)" "plain_path p"
  shows "builds (\<lambda>q. q \<noteq> [] \<and> hd q = hd p) c c' \<and> read_file (tree c') p = Inr data \<and>
    (\<forall>q d. q \<noteq> p \<longrightarrow> read_file (tree c) q = Inr d \<longrightarrow> read_file (tree c') q = Inr d)"
proof -
  from assms(1) [unfolded retain_def prod.case] obtain c1 x where
    c1: "make_parents p c = (c1, Inr x)" "write_bytes v p data c1 = (c', Inr u)" by (rule andthen_Inr)
  note dirs = make_parents_builds [OF c1(1) assms(2)] and wrote = write_bytes_builds [OF c1(2) assms(2)]
  have "builds (\<lambda>q. q \<noteq> [] \<and> hd q = hd p) c1 c'"
    using builds_mono [OF conjunct1 [OF wrote], of "\<lambda>q. q \<noteq> [] \<and> hd q = hd p"] assms(2) by (simp add: plain_path_def)
  then have "builds (\<lambda>q. q \<noteq> [] \<and> hd q = hd p) c c'" by (rule builds_same [OF conjunct1 [OF dirs]])
  moreover have "read_file (tree c') q = Inr d" if "q \<noteq> p" "read_file (tree c) q = Inr d" for q d
  proof -
    have "read_file (tree c1) q = Inr d" using holds_still_read [OF conjunct2 [OF dirs] that(2)] .
    then show ?thesis using builds_read [OF conjunct1 [OF wrote], of q] that(1) by simp
  qed
  ultimately show ?thesis using wrote by blast
qed

text \<open>The retained files, and then the sources, stay as they were written.\<close>

lemma each_retain_keeps:
  assumes "each (retain v) fs c = (c', Inr u)" "list_all (\<lambda>(p, data). plain_path p) fs" "q \<notin> set (map fst fs)" "read_file (tree c) q = Inr d"
  shows "read_file (tree c') q = Inr d"
  using assms
proof (induction fs arbitrary: c)
  case (Cons f fs)
  obtain p data where f: "f = (p, data)" by (cases f)
  from Cons.prems(1) have "andthen (retain v f) (\<lambda>_. each (retain v) fs) c = (c', Inr u)" by simp
  then obtain c1 x where c1: "retain v (p, data) c = (c1, Inr x)" "each (retain v) fs c1 = (c', Inr u)"
    unfolding f by (rule andthen_Inr)
  have "plain_path p" using Cons.prems(2) by (simp add: f)
  then have "read_file (tree c1) q = Inr d"
    using retain_builds [OF c1(1)] Cons.prems(3,4) by (simp add: f)
  then show ?case using Cons.IH [OF c1(2)] Cons.prems(2,3) by simp
qed (simp add: give_def)

lemma each_retain_builds:
  assumes "each (retain v) fs c = (c', Inr u)" "list_all (\<lambda>(p, data). plain_path p \<and> hd p \<in> H) fs" "distinct (map fst fs)"
  shows "builds (\<lambda>q. q \<noteq> [] \<and> hd q \<in> H) c c' \<and> list_all (\<lambda>(p, data). read_file (tree c') p = Inr data) fs"
  using assms
proof (induction fs arbitrary: c)
  case (Cons f fs)
  obtain p data where f: "f = (p, data)" by (cases f)
  from Cons.prems(1) have "andthen (retain v f) (\<lambda>_. each (retain v) fs) c = (c', Inr u)" by simp
  then obtain c1 x where c1: "retain v (p, data) c = (c1, Inr x)" "each (retain v) fs c1 = (c', Inr u)"
    unfolding f by (rule andthen_Inr)
  have p: "plain_path p" "hd p \<in> H" and ps: "list_all (\<lambda>(p, data). plain_path p \<and> hd p \<in> H) fs" "list_all (\<lambda>(p, data). plain_path p) fs"
    using Cons.prems(2) by (auto simp: f list_all_iff)
  note one = retain_builds [OF c1(1) p(1)] and others = Cons.IH [OF c1(2) ps(1)]
  have "builds (\<lambda>q. q \<noteq> [] \<and> hd q \<in> H) c c1" using p(2) by (auto intro: builds_mono [OF conjunct1 [OF one]])
  then have "builds (\<lambda>q. q \<noteq> [] \<and> hd q \<in> H) c c'" using builds_same others Cons.prems(3) by (simp add: f)
  moreover have "read_file (tree c') p = Inr data"
    using each_retain_keeps [OF c1(2) ps(2), of p data] one Cons.prems(3) by (simp add: f)
  ultimately show ?case using others Cons.prems(3) by (simp add: f)
qed (simp add: give_def builds_refl)

definition source_path :: "string \<Rightarrow> path" where
  "source_path name = [''analysis'', ''source'', name]"

lemma archive_retains:
  assumes "archive v (name, live) c = (c', Inr u)"
  shows "\<exists>data. live = Inr data \<and> retain v (source_path name, data) c = (c', Inr u)"
  using assms by (auto simp: archive_def retain_def source_path_def Let_def andthen_def lift_def split: prod.splits sum.splits)

lemma each_archive_retains:
  assumes "each (archive v) ss c = (c', Inr u)"
  shows "\<exists>fs. each (retain v) fs c = (c', Inr u) \<and> map fst fs = map (\<lambda>(name, live). source_path name) ss \<and>
    map (\<lambda>(p, data). Inr data) fs = map snd ss"
  using assms
proof (induction ss arbitrary: c)
  case (Cons s ss)
  obtain name live where s: "s = (name, live)" by (cases s)
  from Cons.prems have "andthen (archive v s) (\<lambda>_. each (archive v) ss) c = (c', Inr u)" by simp
  then obtain c1 x where c1: "archive v (name, live) c = (c1, Inr x)" "each (archive v) ss c1 = (c', Inr u)"
    unfolding s by (rule andthen_Inr)
  obtain data where d: "live = Inr data" "retain v (source_path name, data) c = (c1, Inr x)"
    using archive_retains [OF c1(1)] by blast
  obtain fs where "each (retain v) fs c1 = (c', Inr u)" "map fst fs = map (\<lambda>(name, live). source_path name) ss"
    "map (\<lambda>(p, data). Inr data) fs = map snd ss"
    using Cons.IH [OF c1(2)] by blast
  then show ?case using d by (intro exI [of _ "(source_path name, data) # fs"]) (simp add: s andthen_def)
qed (simp add: give_def)

lemma write_files_builds:
  "write_files v fs c = (c', Inr u) \<Longrightarrow> list_all (\<lambda>(n, data). plain_path [n]) fs \<Longrightarrow> builds (\<lambda>q. q \<in> (\<lambda>n. [n]) ` set (map fst fs)) c c'"
proof (induction v fs arbitrary: c rule: write_files.induct)
  case (2 v name data fs)
  from 2(2) have "andthen (write_bytes v [name] data) (\<lambda>_. write_files v fs) c = (c', Inr u)" by simp
  then obtain c1 x where c1: "write_bytes v [name] data c = (c1, Inr x)" "write_files v fs c1 = (c', Inr u)" by (rule andthen_Inr)
  have one: "builds (\<lambda>q. q = [name]) c c1" using write_bytes_builds [OF c1(1)] 2(3) by simp
  have others: "builds (\<lambda>q. q \<in> (\<lambda>n. [n]) ` set (map fst fs)) c1 c'" using 2(1) [OF c1(2)] 2(3) by simp
  show ?case by (rule builds_same [where ?c1.0 = c1]) (auto intro: builds_mono [OF one] builds_mono [OF others])
qed (simp add: builds_refl give_def)

lemma inventory_builds:
  assumes "inventory v c = (c', Inr u)"
  shows "builds (\<lambda>q. q \<in> (\<lambda>n. [n]) ` set TABLES) c c'"
  using assms [unfolded inventory_def]
proof (rule andthen_Inr)
  fix c1 fs assume a: "lift (\<lambda>c. inventory_files v (tree c)) c = (c1, Inr fs)" "write_files v fs c1 = (c', Inr u)"
  then have "c1 = c" "map fst fs = TABLES"
    by (auto simp: lift_def inventory_files_def ebind_eq_Inr Let_def TABLES_def)
  moreover from this(2) have "list_all (\<lambda>(n, data). plain_path [n]) fs"
    by (auto simp: TABLES_def plain_path_def)
  ultimately show ?thesis using write_files_builds [OF a(2)] by simp
qed

lemma seal_bundle_builds:
  assumes "seal_bundle v c = (c', Inr u)"
  shows "builds (\<lambda>q. q = [SUMS]) c c' \<and> (\<exists>i. seal (v_sha v) (v_dumps v) i (tree c) = Inr (tree c'))"
proof -
  obtain i data where t: "tree c' = put_file [SUMS] i data (tree c)" "seal (v_sha v) (v_dumps v) i (tree c) = Inr (tree c')"
    using assms by (auto simp: seal_bundle_def andthen_def lift_def set_tree_def mark_def change_def tree_def seal_def ebind_eq_Inr split: sum.splits)
  then show ?thesis by (auto simp: builds_def wf_put_file regular_put_file map_of_put_file)
qed

section \<open>Where the pins and protocols go\<close>

lemma child_plain: "child sl [] (PStr s) = Inr p \<Longrightarrow> p = path_parts s \<and> plain_path p"
  by (auto simp: child_def Let_def plain_path_def list_all_iff split: if_splits dest!: child_walk_result dest: path_parts_no_slash)

lemma split_on_slash: "c \<notin> set a \<Longrightarrow> split_on c (a @ c # b) = a # split_on c b"
  by (induction a) auto

lemma path_parts_below: "a \<noteq> [] \<Longrightarrow> a \<noteq> ''.'' \<Longrightarrow> CHR ''/'' \<notin> set a \<Longrightarrow> path_parts (a @ ''/'' @ s) = a # path_parts s"
  by (simp add: path_parts_def split_on_slash)

definition retained_name :: "string \<Rightarrow> bool" where
  "retained_name s = (\<exists>t. s = ''pins/'' @ t \<or> s = ''protocol/'' @ t)"

lemma retained_name_hd: "retained_name s \<Longrightarrow> hd (path_parts s) \<in> {''pins'', ''protocol''}"
  using path_parts_below [of "''pins''"] path_parts_below [of "''protocol''"] by (auto simp: retained_name_def)

lemma add_pin_names: "add_pin v ws pin found = Inr found' \<Longrightarrow> list_all (retained_name \<circ> fst) found \<Longrightarrow> list_all (retained_name \<circ> fst) found'"
  by (auto simp: add_pin_def ebind_eq_Inr Let_def retained_name_def)

lemma dict_set_names: "list_all (f \<circ> fst) d \<Longrightarrow> f k \<Longrightarrow> list_all (f \<circ> fst) (dict_set k x d)"
  by (auto simp: dict_set_def dict_put_def list_all_iff)

lemma add_protocol_names:
  "add_protocol v ws m q found = Inr found' \<Longrightarrow> list_all (retained_name \<circ> fst) found \<Longrightarrow> list_all (retained_name \<circ> fst) found'"
  by (auto simp: add_protocol_def ebind_eq_Inr retained_name_def intro!: dict_set_names split: prod.splits)

lemma contents_names:
  assumes "pinned_contents v ws m = Inr found"
  shows "list_all (retained_name \<circ> fst) found"
proof -
  obtain pins protocols found1 where f: "efold (add_pin v ws) pins [] = Inr found1" "efold (add_protocol v ws m) protocols found1 = Inr found"
    using assms by (auto simp: pinned_contents_def ebind_eq_Inr)
  have "list_all (retained_name \<circ> fst) found1"
    using f(1) by (rule efold_invariant) (simp, rule add_pin_names)
  with f(2) show ?thesis by (rule efold_invariant) (rule add_protocol_names)
qed

lemma zip_maps: "zip (map f xs) (map g xs) = map (\<lambda>x. (f x, g x)) xs"
  by (induction xs) auto

lemma retained_files_plain:
  assumes "retained_files ws found = Inr fs" "list_all (retained_name \<circ> fst) found"
  shows "distinct (map fst fs) \<and> list_all (\<lambda>(p, data). plain_path p \<and> hd p \<in> {''pins'', ''protocol''}) fs \<and>
    fs = map (\<lambda>(name, data). (path_parts name, data)) found"
proof -
  obtain ps where ps: "list_all2 (\<lambda>(name, data) p. child (fz_dest_links ws) [] (PStr name) = Inr p) found ps" "unconflicting ps"
      "fs = zip ps (map snd found)"
    using assms(1) by (auto simp: retained_files_def ebind_eq_Inr emap_eq_Inr split_def)
  have "list_all2 (\<lambda>x p. p = path_parts (fst x) \<and> plain_path p) found ps"
    using ps(1) by (rule list.rel_mono_strong) (auto dest: child_plain)
  then have "ps = map (path_parts \<circ> fst) found" "list_all (plain_path \<circ> path_parts \<circ> fst) found"
    by (induction rule: list_all2_induct) auto
  moreover from this(1) have "fs = map (\<lambda>(name, data). (path_parts name, data)) found"
    by (simp add: ps(3) zip_maps split_def)
  moreover have "distinct (map fst fs)" using ps(2) list_all2_lengthD [OF ps(1)] by (simp add: ps(3) unconflicting_def)
  moreover have "list_all (\<lambda>(name, data). hd (path_parts name) \<in> {''pins'', ''protocol''}) found"
    using assms(2) retained_name_hd unfolding list_all_iff by fastforce
  ultimately show ?thesis by (auto simp: list_all_iff)
qed

section \<open>The frozen bundle\<close>

definition plain_sources :: "workshop \<Rightarrow> bool" where
  "plain_sources ws = (distinct (map fst (fz_sources ws)) \<and> list_all (\<lambda>(name, live). name \<noteq> [] \<and> CHR ''/'' \<notin> set name) (fz_sources ws))"

lemma source_path_plain: "n \<noteq> [] \<Longrightarrow> CHR ''/'' \<notin> set n \<Longrightarrow> plain_path (source_path n) \<and> hd (source_path n) = ''analysis''"
  by (simp add: plain_path_def source_path_def)

lemma each_archive_builds:
  assumes "each (archive v) (fz_sources ws) c = (c', Inr u)" "plain_sources ws"
  shows "builds (\<lambda>q. q \<noteq> [] \<and> hd q \<in> {''analysis''}) c c' \<and>
    list_all (\<lambda>(name, live). \<not> isl live \<and> read_file (tree c') (source_path name) = live) (fz_sources ws)"
proof -
  obtain fs where fs: "each (retain v) fs c = (c', Inr u)" "map fst fs = map (\<lambda>(name, live). source_path name) (fz_sources ws)"
    "map (\<lambda>(p, data). Inr data) fs = map snd (fz_sources ws)"
    using each_archive_retains [OF assms(1)] by blast
  have len: "length fs = length (fz_sources ws)" using fs(2) by (metis length_map)
  have at: "fst (fs ! i) = source_path (fst (fz_sources ws ! i)) \<and> snd (fz_sources ws ! i) = Inr (snd (fs ! i))" if "i < length fs" for i
    using that fs(2,3) len by (metis (mono_tags, lifting) nth_map split_beta)
  have "distinct (map fst fs)"
    using assms(2) unfolding fs(2) by (simp add: plain_sources_def distinct_map inj_on_def source_path_def split_beta)
  moreover have "list_all (\<lambda>(p, data). plain_path p \<and> hd p \<in> {''analysis''}) fs"
  proof -
    have "plain_path (fst (fs ! i)) \<and> hd (fst (fs ! i)) \<in> {''analysis''}" if "i < length fs" for i
      using at [OF that] assms(2) that len by (simp add: plain_sources_def list_all_length split_beta source_path_plain)
    then show ?thesis by (auto simp: list_all_length split_beta)
  qed
  ultimately have "builds (\<lambda>q. q \<noteq> [] \<and> hd q \<in> {''analysis''}) c c'" "list_all (\<lambda>(p, data). read_file (tree c') p = Inr data) fs"
    using each_retain_builds [OF fs(1), of "{''analysis''}"] by blast+
  then show ?thesis using at len by (auto simp: list_all_length split_beta)
qed

text \<open>What a frozen bundle holds.\<close>

definition frozen_bundle :: "env \<Rightarrow> workshop \<Rightarrow> pv \<Rightarrow> (path \<times> string) list \<Rightarrow> slot list \<Rightarrow> bundle_tree \<Rightarrow> bool" where
  "frozen_bundle v ws m fs rows b = (
     read_file b [''campaign.json''] = Inr (v_dumps v m) \<and> read_file b [''order.json''] = Inr (v_dumps v (order_doc rows)) \<and>
     list_all (\<lambda>(p, data). read_file b p = Inr data) fs \<and>
     list_all (\<lambda>(name, live). \<not> isl live \<and> read_file b (source_path name) = live) (fz_sources ws) \<and> \<not> exists_at b [''stopped.json''] \<and>
     (\<exists>b0 i. wf_bundle b0 \<and> regular b0 \<and> seal (v_sha v) (v_dumps v) i b0 = Inr b))"

lemma write_json_builds:
  "write_json v p x c = (c', Inr u) \<Longrightarrow> plain_path p \<Longrightarrow> builds (\<lambda>q. q = p) c c' \<and> read_file (tree c') p = Inr (v_dumps v x)"
  unfolding write_json_def by (rule write_bytes_builds)

lemma plain_names: "plain_path [''collection.lock'']" "plain_path [''freeze-command.json'']" "plain_path [''campaign.json'']"
  "plain_path [''order.json'']" "plain_path [''order.csv'']" "plain_path [''analysis'', ''dependencies.json'']"
  by (simp_all add: plain_path_def)

lemma written_bundle:
  assumes run: "write_campaign v ws fs rows c = (c', Inr u)" and sources: "plain_sources ws"
    and fs: "list_all (\<lambda>(p, data). plain_path p \<and> hd p \<in> {''pins'', ''protocol''}) fs" "distinct (map fst fs)"
  shows "frozen_bundle v ws (v_manifest v) fs rows (tree c')"
proof -
  note plain = plain_names
  obtain c1 c2 c3 c4 c5 c6 c7 c8 c9 c10 x1 x2 x3 x4 x5 x6 x7 x8 x9 x10 where
    s: "set_tree [] c = (c1, Inr x1)" "each (retain v) fs c1 = (c2, Inr x2)" "write_bytes v [''collection.lock''] [] c2 = (c3, Inr x3)"
    "write_json v [''freeze-command.json''] (freeze_command v ws) c3 = (c4, Inr x4)"
    "write_json v [''campaign.json''] (v_manifest v) c4 = (c5, Inr x5)" "write_json v [''order.json''] (order_doc rows) c5 = (c6, Inr x6)"
    "write_bytes v [''order.csv''] (v_csv v [''block'', ''block_id'', ''workload'', ''date_slot'', ''date'', ''arms''] (order_table rows)) c6 = (c7, Inr x7)"
    "each (archive v) (fz_sources ws) c7 = (c8, Inr x8)" "write_json v [''analysis'', ''dependencies.json''] dependencies_doc c8 = (c9, Inr x9)"
    "inventory v c9 = (c10, Inr x10)" "seal_bundle v c10 = (c', Inr u)"
    using run unfolding write_campaign_def by (elim andthen_Inr) rule
  have t1: "tree c1 = []" using s(1) by (auto simp: set_tree_def change_def tree_def)
  note b2 = each_retain_builds [OF s(2) fs] and b3 = write_bytes_builds [OF s(3) plain(1)]
    and b4 = write_json_builds [OF s(4) plain(2)] and b5 = write_json_builds [OF s(5) plain(3)]
    and b6 = write_json_builds [OF s(6) plain(4)] and b7 = write_bytes_builds [OF s(7) plain(5)]
    and b8 = each_archive_builds [OF s(8) sources] and b9 = write_json_builds [OF s(9) plain(6)]
    and b10 = inventory_builds [OF s(10)] and b11 = seal_bundle_builds [OF s(11)]
  note l9 = builds_trans [OF b10 conjunct1 [OF b11]]
  note l8 = builds_trans [OF conjunct1 [OF b9] l9]
  note l7 = builds_trans [OF conjunct1 [OF b8] l8]
  note l6 = builds_trans [OF conjunct1 [OF b7] l7]
  note l5 = builds_trans [OF conjunct1 [OF b6] l6]
  note l2 = builds_trans [OF conjunct1 [OF b3] builds_trans [OF conjunct1 [OF b4] builds_trans [OF conjunct1 [OF b5] l5]]]
  note l1 = builds_trans [OF conjunct1 [OF b2] l2]
  note e10 = builds_trans [OF conjunct1 [OF b2] builds_trans [OF conjunct1 [OF b3] builds_trans [OF conjunct1 [OF b4] builds_trans [OF conjunct1 [OF b5]
    builds_trans [OF conjunct1 [OF b6] builds_trans [OF conjunct1 [OF b7] builds_trans [OF conjunct1 [OF b8] builds_trans [OF conjunct1 [OF b9] b10]]]]]]]]
  have "read_file (tree c') [''campaign.json''] = Inr (v_dumps v (v_manifest v))"
    using builds_read [OF l5, of "[''campaign.json'']"] b5 by (simp add: TABLES_def SUMS_def)
  moreover have "read_file (tree c') [''order.json''] = Inr (v_dumps v (order_doc rows))"
    using builds_read [OF l6, of "[''order.json'']"] b6 by (simp add: TABLES_def SUMS_def)
  moreover have "read_file (tree c') p = Inr data" if "(p, data) \<in> set fs" for p data
  proof -
    have "hd p \<in> {''pins'', ''protocol''}" "read_file (tree c2) p = Inr data" using that fs(1) b2 by (auto simp: list_all_iff)
    moreover from this(1) have "p \<noteq> x # ys" if "x \<notin> {''pins'', ''protocol''}" for x ys using that by auto
    moreover have "hd p \<noteq> ''analysis''" using calculation(1) by auto
    ultimately show ?thesis using builds_read [OF l2, of p] by (simp add: TABLES_def SUMS_def)
  qed
  moreover have "\<not> isl live \<and> read_file (tree c') (source_path n) = live" if "(n, live) \<in> set (fz_sources ws)" for n live
  proof -
    have "\<not> isl live \<and> read_file (tree c8) (source_path n) = live" using that b8 by (auto simp: list_all_iff)
    then show ?thesis using builds_read [OF l8, of "source_path n"] by (auto simp: TABLES_def SUMS_def source_path_def)
  qed
  moreover have "\<not> exists_at (tree c') [''stopped.json'']"
    using l1 t1 by (simp add: builds_def exists_at_def TABLES_def SUMS_def)
  moreover have "wf_bundle (tree c10)" "regular (tree c10)"
    using e10 t1 by (simp_all add: builds_def wf_bundle_def regular_def)
  ultimately show ?thesis using b11 by (auto simp: frozen_bundle_def list_all_iff)
qed

text \<open>The JSON codec gives back the manifest and the order, and the inventory as the same mapping.\<close>

definition codec_of_campaign :: "env \<Rightarrow> pv \<Rightarrow> slot list \<Rightarrow> bundle_tree \<Rightarrow> bool" where
  "codec_of_campaign v m rows b = (v_loads v (v_dumps v m) = Inr m \<and> v_loads v (v_dumps v (order_doc rows)) = Inr (order_doc rows) \<and>
     codec_ok (v_loads v) (v_dumps v) (sealed_inventory (v_sha v) b))"

text \<open>The host is as it was: the same sources, symbolic links and execution pins.\<close>

definition same_host :: "env \<Rightarrow> workshop \<Rightarrow> station \<Rightarrow> moment list \<Rightarrow> pv \<Rightarrow> bool" where
  "same_host v ws st now m = (st_sources st = map (\<lambda>(name, live). (name, ebind live (\<lambda>data. Inr (v_sha v data)))) (fz_sources ws) \<and>
     st_links st = fz_links ws \<and>
     verify_execution_pins (v_file_at v now) (v_may_run v now) (v_digest v now) m None = Inr ())"

lemma sealed_inventory_put: "sealed_inventory sha (put_file [SUMS] i data b) = sealed_inventory sha b"
  by (simp add: sealed_inventory_def payload_put_file)

lemma sealed_verifies:
  assumes "wf_bundle b" "regular b" "seal sha dumps i b = Inr s" "codec_ok loads dumps (sealed_inventory sha s)"
  shows "verify sha loads s = Inr ()"
proof -
  have s: "s = put_file [SUMS] i (dumps (PDict (sealed_inventory sha b))) b"
    using assms(1,3) by (auto simp: seal_def ebind_eq_Inr bundle_inventory_eq_Inr inventory_payload sealed_inventory_def)
  then have same: "sealed_inventory sha s = sealed_inventory sha b" by (simp add: sealed_inventory_put)
  obtain e where e: "loads (dumps (PDict (sealed_inventory sha b))) = Inr (PDict e)" "distinct (map fst e)" "mset e = mset (sealed_inventory sha b)"
    using assms(4) by (auto simp: same codec_ok_def split: sum.splits pv.splits)
  have wf: "wf_bundle s" "regular s" using assms(1,2) by (simp_all add: s wf_put_file regular_put_file)
  have "set e = set (sealed_inventory sha s)" using e(3) same by (metis mset_eq_setD)
  moreover have "\<forall>(k, v) \<in> set e. v = PNone \<or> is_str v"
    unfolding calculation set_sealed by (auto simp: inv_entry_def)
  ultimately have "py_eq (PDict e) (PDict (sealed_inventory sha s))"
    using flat_py_eq [OF e(2) distinct_sealed [OF wf(1)]] by blast
  moreover have rd: "read_file s [SUMS] = Inr (dumps (PDict (sealed_inventory sha b)))" by (simp add: s read_file_def put_file_def)
  ultimately show ?thesis using verify_eq_Inr [where loads = loads, OF wf(1) rd e(1), of sha] wf(2) by blast
qed

lemma freeze_planD:
  assumes "freeze_plan v ws now = Inr (m, fs, rows)"
  shows "validate_manifest (fz_links ws) m = Inr () \<and> order (v_sha v) (inputs_of m) = Inr rows \<and>
    (\<exists>found. pinned_contents v ws m = Inr found \<and> retained_files ws found = Inr fs)"
  using assms by (auto simp: freeze_plan_def bound_manifest_def ebind_eq_Inr)

lemma freeze_writes:
  assumes "freeze v ws c = (c', Inr u)" "plain_sources ws"
  obtains m fs rows where "freeze_plan v ws (c_moments c) = Inr (m, fs, rows)" "frozen_bundle v ws m fs rows (tree c')"
proof -
  from assms(1) [unfolded freeze_def] obtain m fs rows where plan: "freeze_plan v ws (c_moments c) = Inr (m, fs, rows)"
    and run: "andthen (lift (\<lambda>_. fz_mkdir ws)) (\<lambda>_. write_campaign (v\<lparr>v_manifest := m\<rparr>) ws fs rows) c = (c', Inr u)"
    by (rule andthen_Inr) (auto simp: lift_def)
  from run obtain c1 x where w: "write_campaign (v\<lparr>v_manifest := m\<rparr>) ws fs rows c1 = (c', Inr u)" by (rule andthen_Inr)
  obtain found where "pinned_contents v ws m = Inr found" "retained_files ws found = Inr fs"
    using freeze_planD [OF plan] by blast
  then have "list_all (\<lambda>(p, data). plain_path p \<and> hd p \<in> {''pins'', ''protocol''}) fs" "distinct (map fst fs)"
    using retained_files_plain contents_names by blast+
  from written_bundle [OF w assms(2) this] have "frozen_bundle v ws m fs rows (tree c')"
    by (simp add: frozen_bundle_def)
  with plan show thesis by (rule that)
qed

lemma efor_ok: "(\<And>x. x \<in> set xs \<Longrightarrow> f x = Inr ()) \<Longrightarrow> efor f xs = Inr ()"
  by (simp add: efor_eq_Inr)

lemma py_eq_slot_docs: "py_eq (order_doc rows) (order_doc rows)"
proof -
  have "wf_pv (order_doc rows)" by (simp add: order_doc_def slot_doc_def list_all_iff)
  then show ?thesis using json_equal_refl json_equal_imp_py_eq_aux by blast
qed

text \<open>The pinned bytes, where they are retained.\<close>

definition pin_retained :: "env \<Rightarrow> workshop \<Rightarrow> bundle_tree \<Rightarrow> pv \<Rightarrow> bool" where
  "pin_retained v ws b pin = (\<exists>data. pinned_bytes ws pin = Inr data \<and> fld pin ''sha256'' = PStr (v_sha v data) \<and>
     read_file b (''pins'' # path_parts (str_of (fld pin ''path''))) = Inr data)"

definition pin_found :: "env \<Rightarrow> workshop \<Rightarrow> (string \<times> string) list \<Rightarrow> pv \<Rightarrow> bool" where
  "pin_found v ws found pin = (\<exists>data. pinned_bytes ws pin = Inr data \<and> fld pin ''sha256'' = PStr (v_sha v data) \<and>
     (''pins/'' @ str_of (fld pin ''path''), data) \<in> set found)"

lemma item_fld: "getitem x k = Inr y \<Longrightarrow> fld x k = y"
  by (auto simp: getitem_eq_Inr fld_def)

lemma add_pin_found: "add_pin v ws pin found = Inr found' \<Longrightarrow> pin_found v ws found' pin \<and> set found \<subseteq> set found'"
  by (auto simp: add_pin_def pin_found_def ebind_eq_Inr Let_def dest!: item_fld split: if_splits)

lemma pin_found_mono: "pin_found v ws found pin \<Longrightarrow> set found \<subseteq> set found' \<Longrightarrow> pin_found v ws found' pin"
  by (auto simp: pin_found_def)

lemma pins_found: "efold (add_pin v ws) pins found = Inr found' \<Longrightarrow> list_all (pin_found v ws found') pins \<and> set found \<subseteq> set found'"
proof (induction pins arbitrary: found)
  case (Cons pin pins)
  then obtain found1 where f: "add_pin v ws pin found = Inr found1" "efold (add_pin v ws) pins found1 = Inr found'"
    by (auto simp: ebind_eq_Inr)
  then show ?case using add_pin_found [OF f(1)] Cons.IH [OF f(2)] pin_found_mono by auto
qed simp

lemma dict_set_other: "(n, d) \<in> set xs \<Longrightarrow> n \<noteq> k \<Longrightarrow> (n, d) \<in> set (dict_set k x xs)"
  by (force simp: dict_set_def dict_put_def image_iff)

lemma add_protocol_found:
  assumes "add_protocol v ws m q found = Inr found'" "pin_found v ws found pin"
  shows "pin_found v ws found' pin"
proof -
  obtain name data where "found' = dict_set (''protocol/'' @ name) data found"
    using assms(1) by (auto simp: add_protocol_def ebind_eq_Inr split: prod.splits)
  then show ?thesis
    using assms(2) dict_set_other [of _ _ found "''protocol/'' @ name" data] unfolding pin_found_def by fastforce
qed

lemma contents_pins:
  assumes "pinned_contents v ws m = Inr found"
  obtains pins where "py_iter (fld m ''pins'') = Inr pins" "list_all (pin_found v ws found) pins"
proof -
  obtain ps pins protocols found1 where f: "getitem m ''pins'' = Inr ps" "py_iter ps = Inr pins"
    "efold (add_pin v ws) pins [] = Inr found1" "efold (add_protocol v ws m) protocols found1 = Inr found"
    using assms by (auto simp: pinned_contents_def ebind_eq_Inr)
  have "pin_found v ws found pin" if "pin \<in> set pins" for pin
    using f(4) by (rule efold_invariant) (use pins_found [OF f(3)] that in \<open>simp add: list_all_iff\<close>, rule add_protocol_found)
  then show thesis using that f(1,2) item_fld by (metis list_all_iff)
qed

lemma frozen_pins:
  assumes "freeze_plan v ws now = Inr (m, fs, rows)" "frozen_bundle v ws m fs rows b"
  shows "\<exists>pins. py_iter (fld m ''pins'') = Inr pins \<and> list_all (pin_retained v ws b) pins"
proof -
  obtain found where found: "pinned_contents v ws m = Inr found" "retained_files ws found = Inr fs"
    using freeze_planD [OF assms(1)] by blast
  obtain pins where pins: "py_iter (fld m ''pins'') = Inr pins" "list_all (pin_found v ws found) pins" by (rule contents_pins [OF found(1)])
  have fs: "fs = map (\<lambda>(name, data). (path_parts name, data)) found"
    using retained_files_plain [OF found(2) contents_names [OF found(1)]] by blast
  have "pin_retained v ws b pin" if kept: "pin_found v ws found pin" for pin
  proof -
    obtain data where d: "pinned_bytes ws pin = Inr data" "fld pin ''sha256'' = PStr (v_sha v data)"
      "(''pins/'' @ str_of (fld pin ''path''), data) \<in> set found" using kept unfolding pin_found_def by blast
    have "(path_parts (''pins/'' @ str_of (fld pin ''path'')), data) \<in> set fs" using d(3) by (force simp: fs)
    then have "read_file b (path_parts (''pins/'' @ str_of (fld pin ''path''))) = Inr data"
      using assms(2) by (auto simp: frozen_bundle_def list_all_iff)
    then show ?thesis using d path_parts_below [of "''pins''"] by (auto simp: pin_retained_def)
  qed
  then show ?thesis using pins by (auto simp: list_all_iff)
qed


section \<open>A small campaign to freeze\<close>

text \<open>One block of one workload, one pin, one protocol file and one source file; every digest is sixty-four zeros.\<close>

definition zeros :: string where "zeros = replicate 64 (CHR ''0'')"

definition frozen_spec :: pv where
  "frozen_spec = PDict (dict_put ''argv'' (PList [PStr ''/b'']) (items_of sample_spec))"

definition frozen_plan :: pv where
  "frozen_plan = PDict (dict_put ''commands'' (sample_by_arm (PDict (map (\<lambda>s. (s, frozen_spec)) STEPS))) (items_of sample_plan))"

definition frozen_rows :: "slot list" where
  "frozen_rows = [\<lparr>slot_block = ''w-01-001'', slot_block_id = ''001'', slot_workload = ''w'', slot_date_slot = ''01'',
     slot_date = ''2026-10-13'', slot_arms = [''baseline'', ''candidate'']\<rparr>]"

definition frozen_inventory :: "(string \<times> pv) list" where
  "frozen_inventory = map (\<lambda>n. (n, if n \<in> {''analysis'', ''analysis/source'', ''pins'', ''protocol''} then PNone else PStr zeros))
     [''analysis'', ''analysis/dependencies.json'', ''analysis/source'', ''analysis/source/x.py'', ''campaign.json'', ''collection.lock'',
      ''commands.jsonl'', ''environments.jsonl'', ''events.jsonl'', ''freeze-command.json'', ''order.csv'', ''order.json'',
      ''pins'', ''pins/b'', ''protocol'', ''protocol/p'', ''trials.csv'']"

definition frozen_loads :: "string \<Rightarrow> pv res" where
  "frozen_loads s = (if s = ''schema'' then Inr frozen_plan else if s = [] then Inr (order_doc frozen_rows)
     else if s = ''analysis'' then Inr (PDict frozen_inventory) else Inl (ValueError s))"

definition frozen_te :: trial_env where
  "frozen_te = \<lparr>te_sha = (\<lambda>_. zeros), te_loads = frozen_loads,
     te_fromiso = (\<lambda>s. Inr (int (length s), Some 0)), te_fsum = (\<lambda>_. Fin 0), te_text = (\<lambda>_. []), te_time = (\<lambda>_. [])\<rparr>"

definition frozen_env :: env where
  "frozen_env = \<lparr>v_te = frozen_te, v_dumps = (\<lambda>x. case items_of x of [] \<Rightarrow> [] | e # es \<Rightarrow> fst e), v_secrets = [], v_manifest = PNone,
     v_root = ''/c'', v_run = (\<lambda>_ _ _ _ w. (w_tree w, w_lock w, Inl Interrupt)), v_file_at = (\<lambda>_ _. True), v_may_run = (\<lambda>_ _. True), v_digest = (\<lambda>_ p. Inr zeros),
     v_today = (\<lambda>_. ''1970-01-01''), v_inode = (\<lambda>now p. \<lparr>dev = 1, ino = length now\<rparr>), v_signal = (\<lambda>_. False),
     v_csv = (\<lambda>_ _. []), v_line = (\<lambda>_. [])\<rparr>"

definition frozen_workshop :: workshop where
  "frozen_workshop = \<lparr>fz_manifest = Inr frozen_plan, fz_links = (\<lambda>_. False), fz_source_links = (\<lambda>_. False), fz_read = (\<lambda>p. Inr (path_str p)),
     fz_dest_links = (\<lambda>_. False), fz_revision = (\<lambda>n. Inr n), fz_runnable = (\<lambda>_. True), fz_mkdir = Inr (), fz_sources = [(''x.py'', Inr ''x'')], fz_argv = []\<rparr>"

definition empty_col :: col where
  "empty_col = \<lparr>c_world = \<lparr>w_tree = [], w_lock = Inr \<lparr>dev = 0, ino = 9\<rparr>,
        w_guard = \<lparr>g_lock = \<lparr>dev = 0, ino = 9\<rparr>, g_hashes = [], g_active = None, g_error = None\<rparr>\<rparr>,
     c_counts = Map.empty, c_contained = True, c_state = entered, c_safe = True, c_moments = []\<rparr>"


lemma frozen_checks: "list_all (\<lambda>s. check_spec frozen_plan (s, frozen_spec) = Inr ()) STEPS"
proof -
  have spec: "frozen_spec = PDict [(''argv'', PList [PStr ''/b'']), (''cwd'', PStr ''/c''), (''timeout_seconds'', PInt 60),
     (''env'', PDict [(''PATH'', PStr ''/b'')]), (''cancel_grace_seconds'', PInt 25)]"
    by (simp add: frozen_spec_def sample_spec_def dict_put_def)
  have fields: "command_fields frozen_spec"
    by (simp add: command_fields_def spec positive_numeral nul_free_def char_of_def)
  have "spec_pins frozen_plan s frozen_spec = Inr ()" for s
    by (simp add: spec_pins_def spec)
  moreover have "executable_rule frozen_plan s frozen_spec = Inr ()" for s
    by (simp add: executable_rule_def spec first_item_def executable_form_def is_absolute_def startswith_def frozen_plan_def sample_plan_def dict_put_def
       pin_paths_def sample_pins_def)
  moreover have "observation_budget frozen_plan s frozen_spec = Inr ()" for s
    by (simp add: observation_budget_def frozen_plan_def sample_plan_def published_def dict_put_def)
  moreover have "getitem frozen_spec ''cwd'' = Inr (PStr ''/c'')" by (simp add: spec)
  ultimately show ?thesis
    by (simp add: check_spec_def fields cwd_absolute_def is_absolute_def startswith_def list_all_iff)
qed


lemma frozen_shapes: "validate_shapes (\<lambda>_. False) frozen_plan = Inr ()"
  "manifest_identity frozen_plan = Inr ()" "manifest_lists frozen_plan = Inr ()" "frozen_protocol frozen_plan = Inr ()"
  "strata_rules frozen_plan = Inr ()" "date_rules frozen_plan = Inr ()"
  by code_simp+

lemma frozen_commands: "command_rules frozen_plan = Inr ()"
proof -
  have c: "getitem frozen_plan ''commands'' = Inr (sample_by_arm (PDict (map (\<lambda>s. (s, frozen_spec)) STEPS)))"
    "getitem frozen_plan ''expected_exit'' = Inr (sample_by_arm (PList [PInt 0]))"
    "getitem frozen_plan ''expected_facts'' = Inr (sample_by_arm (PDict [(''ok'', PBool True)]))"
    "getitem frozen_plan ''experiment'' = Inr (PStr ''E3'')"
    by (simp_all add: frozen_plan_def sample_plan_def dict_put_def)
  have ok: "efor (check_spec frozen_plan) (map (\<lambda>s. (s, frozen_spec)) STEPS) = Inr ()"
    using frozen_checks unfolding efor_eq_Inr by (auto simp: list_all_iff)
  then have "ebind (efor (check_spec frozen_plan) (map (\<lambda>s. (s, frozen_spec)) STEPS)) f = f ()" for f :: "unit \<Rightarrow> unit res"
    by (simp only: ok ebind.simps)
  then show ?thesis
    by (simp add: command_rules_def c sample_by_arm_def arm_rules_def arm_expectation_def key_list_def comp_def)
qed

lemma frozen_valid: "validate_manifest (\<lambda>_. False) frozen_plan = Inr ()"
  unfolding manifest_validates using frozen_shapes frozen_commands by blast

lemma frozen_bound: "bind_executables (\<lambda>_. True) frozen_plan = Inr frozen_plan"
  by code_simp

lemma frozen_contents: "pinned_contents frozen_env frozen_workshop frozen_plan = Inr [(''pins/b'', ''b''), (''protocol/p'', ''p'')]"
  by code_simp

lemma frozen_targets: "retained_files frozen_workshop [(''pins/b'', ''b''), (''protocol/p'', ''p'')] = Inr [([''pins'', ''b''], ''b''), ([''protocol'', ''p''], ''p'')]"
  by code_simp

lemma frozen_host: "verify_execution_pins (\<lambda>_. True) (\<lambda>_. True) (\<lambda>_. Inr zeros) frozen_plan None = Inr ()"
  by code_simp

lemma frozen_order: "order (\<lambda>_. zeros) (inputs_of frozen_plan) = Inr frozen_rows"
  by code_simp

lemma frozen_bound_manifest: "bound_manifest frozen_env frozen_workshop [] = Inr frozen_plan"
  by (simp add: bound_manifest_def) (simp add: frozen_env_def frozen_te_def frozen_workshop_def frozen_valid frozen_bound frozen_host)

lemma frozen_sha: "v_sha frozen_env = (\<lambda>_. zeros)" "v_loads frozen_env = frozen_loads"
  by (simp_all add: frozen_env_def frozen_te_def)

lemma frozen_planned: "freeze_plan frozen_env frozen_workshop (c_moments empty_col) =
    Inr (frozen_plan, [([''pins'', ''b''], ''b''), ([''protocol'', ''p''], ''p'')], frozen_rows)"
  by (simp add: freeze_plan_def empty_col_def frozen_bound_manifest frozen_contents frozen_targets frozen_sha frozen_order)

lemma frozen_written: "(case write_campaign (frozen_env\<lparr>v_manifest := frozen_plan\<rparr>) frozen_workshop [([''pins'', ''b''], ''b''), ([''protocol'', ''p''], ''p'')] frozen_rows empty_col of
    (c, r) \<Rightarrow> r = Inr () \<and> sealed_inventory (\<lambda>_. zeros) (tree c) = frozen_inventory)"
  by code_simp

definition frozen_station :: station where
  "frozen_station = \<lparr>st_sources = [(''x.py'', Inr zeros)], st_links = (\<lambda>_. False), st_address_ok = (\<lambda>_. True), st_registration = Inr PNone,
     st_environ = Map.empty, st_now = [], st_argv = []\<rparr>"


end
