(* ===== verification/Spec2Isabelle.thy ===== *)
theory Spec2Isabelle
  imports History Vectors Campaign Gate Quantile Reduce Product Markdown Dependencies Central Freeze
begin

text \<open>
  A model of the Python code of weavegate, with the theorems that make it correct.

  \<^bold>\<open>The program.\<close>  Weavegate explores and replays the interleavings of a program's workers.  Its engine is Go and
  Java; its Python code decides what may be believed about it.  Five programs do this, and they are what is
  modelled here.

  \<^item> The linter of the external-SUT protocol vectors (\<open>scripts/check-external-sut-vectors.py\<close>) replays
    recorded conversations between the engine and a Java peer against the protocol's rules.
  \<^item> The composite GitHub action (\<open>scripts/actions-gate.py\<close>) installs a release, inspects the evidence of a
    run, decides the exit code of the gate and writes the summary and the pull request comment.
  \<^item> The harness of the E1/E2 measurements (\<open>experiments/gate-performance/harness/\<close>) validates a frozen
    plan, collects a campaign under a guard, seals it, and reduces it to paired estimates and a decision.
  \<^item> The runner of the E5 comparison (\<open>experiments/control-comparison/runner/\<close>) runs 600 slots in a frozen
    order with crash-safe progress and reduces the evidence to the cells of a report.
  \<^item> The release script of the Java SDK (\<open>scripts/java-central.py\<close>) sets the version, builds and verifies the
    signed bundle, and publishes it on Maven Central.

  \<^bold>\<open>How the theories correspond to the code.\<close>

  \<^item> \<open>Prelude\<close>: exceptions as values (\<open>'a res\<close>), the loops and generators whose body may raise, strings.
    \<open>Binary64\<close>: IEEE 754 double arithmetic on exact rationals, with the facts on rounding that the
    programs' own arithmetic needs.  \<open>PyValue\<close>: the values of \<open>json.loads\<close>, their access, order and
    equality, each raising where Python raises.
  \<^item> \<open>Common\<close> (\<open>harness/common.py\<close>): number tests, \<open>child\<close>, bundles with \<open>seal\<close> and \<open>verify\<close>, the sampling
    plan and \<open>order\<close>.  \<open>Plan\<close> (\<open>harness/plan.py\<close>, \<open>ci.validate_inventory\<close>): manifest validation and
    execution pins.  \<open>CI\<close> (\<open>harness/ci.py\<close>): the workflow endpoint and its concurrency sweep.  \<open>Guard\<close>
    (\<open>harness/storage.py\<close>): the guard of a bundle while hooks run.  \<open>Redaction\<close> (\<open>harness/redaction.py\<close>).
    \<open>Evidence\<close> (\<open>harness/evidence.py\<close>, \<open>execution.expand_command\<close>, \<open>succeeded\<close>): from an arm's files to its row.
    \<open>Analysis\<close> (\<open>harness/analysis.py\<close>): pairing, bootstrap estimates, decision; \<open>Markdown\<close>: its report.
    \<open>Collector\<close> (\<open>harness/collector.py\<close>, \<open>plan.validate_registration\<close>): the admission of a block, the steps of
    an arm, the final checkpoint; \<open>Lifecycle\<close>: their properties.  \<open>Freeze\<close>: its \<open>freeze\<close>, from a plan to a bundle.
  \<^item> \<open>Slots\<close>, \<open>Support\<close>, \<open>Campaign\<close> (\<open>runner/support.py\<close>, \<open>runner/tool.py\<close>): the design and its order, the
    declarations and disclosures, and the campaign as a machine over its durable state.  \<open>Quantile\<close>,
    \<open>Reduce\<close>, \<open>Product\<close>, \<open>Report\<close> (\<open>runner/analyze.py\<close>): quantiles, timing spans, baseline and product
    evidence, cells and pairs.  \<open>Dependencies\<close> (\<open>runner/support.py\<close>): the pinned files, prerequisite records,
    fixture revision and classpath that a campaign is bound to.
  \<^item> \<open>Frames\<close>, \<open>History\<close>, \<open>Vectors\<close> (\<open>scripts/check-external-sut-vectors.py\<close>): one frame, the replay of a
    history, and expansion, emissions, coverage and raw framing.  \<open>Gate\<close> (\<open>scripts/actions-gate.py\<close>).
  \<^item> \<open>Release\<close> (\<open>scripts/java-central.py\<close> up to \<open>verify_bundle\<close>): versions, the bundle and its verification.
    \<open>Central\<close> (the rest): deployments, the public repository, the upload and the wait for its publication.

  A theory's definitions follow the order of the code and carry the code's names; an operation's checks come
  in the order in which the code makes them, so the exception raised is the one Python raises first.  State
  is a record that operations return updated: \<open>hist\<close> for the linter's dictionaries and sets, \<open>guard\<close> and \<open>world\<close>
  for \<open>BundleGuard\<close> and the tree it watches, \<open>col\<close> for \<open>Collection\<close> around them, and for the E5 collector the
  directory and the document on disk, where a crash keeps the disk and loses the rest.  A step of the harness
  collector is an operation that returns or raises with the state it leaves, as \<open>finally\<close> needs it; a run of the
  publication extends the list of its requests, printed lines and sleeps.

  \<^bold>\<open>What the lemmas show.\<close>
  The linter: every accepted history keeps the invariant \<open>consistent\<close>, from which follow the ordering
  rules of the protocol (a release follows the runtime's return, a terminal is justified by a completion,
  nothing but a fatal or a stop follows a fatal); expansion ends on every input, cyclic ones included; every
  emission of an accepted case has a wire exchange of its own.
  The gate: what exit 0 means, what is installed, when a comment is posted, and that a report inside a comment
  cannot close its fence.
  The harness: \<open>order\<close> is a balanced permutation, \<open>verify\<close> detects every change, \<open>child\<close> confines a path,
  validation raises nothing but ValueError and an accepted plan can be ordered, retained evidence is
  immutable under the guard whatever hooks do, a sanitized JSON file holds no secret, a complete row and a
  claimed improvement have all the evidence behind them, and no name or reason can break a table of the report.
  The harness collector: a frozen campaign holds its pins and is admitted on the same host; whatever hooks do, an arm's steps run in order and end with the teardown, a host is
  reused only after a proven cleanup, an unproven one ends the block and the campaign, and what is sealed is
  what the guard accepted.
  The runner: slots start once and in order across any crashes and restarts, a campaign resumes at every
  slot boundary, a stop is final, an accepted classpath has no class or service provider that another entry
  can shadow, and the reduced statuses, stages and counts account for the whole design.
  The release: the version changes and nothing else does, a built bundle verifies, nothing but verified bytes is
  uploaded, once and only if absent, success means published, and the conversation with the servers ends.
  Interfaces are locales: \<open>interpolation\<close> (a quantile rule, interpreted by the runner's and the harness's
  quantile), \<open>sticky_machine\<close> (a machine whose first violation is final, interpreted by the guard), \<open>view\<close> (what
  of the collector's state only hooks and verdicts change, interpreted by the hooks run, the verdict on a cleanup
  and the flag \<open>safe\<close>) and \<open>ending_loop\<close> (a loop body that comes to an end, interpreted by paging and polling).

  \<^bold>\<open>Arguments.\<close>  Code outside the repository is an argument of the definitions that use it: the digest, the
  JSON reader and writer, \<open>datetime.fromisoformat\<close>, \<open>math.log\<close>, \<open>math.exp\<close>, \<open>math.fsum\<close>, the float sum of the
  interpreter, and questions to the file system or the host (is this a link, does this file exist, what does
  it hold), the reviewed fixture contract, which a script generates, hooks (what they leave in the tree and
  return), pending signals, the date, archives and XML, \<open>gpg\<close>, and the answers of servers and of the clock.  A theorem that needs a fact about
  one of them names it as a hypothesis, and its witness instantiates it.

  \<^bold>\<open>Bounds.\<close>  Strings hold code points below 256; file bytes are strings of bytes.  There is no fuel:
  every recursion of the model is structural or has a measure, but for the two \<open>while True\<close> of the publication,
  which are \<open>repeat_until\<close>, a partial function whose \<open>None\<close> is a loop that never ends (\<open>publish_returns\<close>).  \<open>expand\<close> decreases because a name is expanded
  only while it is not among the seen ones, of which the prefixes are finitely many; its results are capped
  at the code's own 10000 steps.  Floats are exact rationals rounded after every operation, with the
  infinities and NaN; ints are unbounded, as in Python.

  \<^bold>\<open>What is not modelled.\<close>  Process control, signal handlers, locks and pumps (\<open>execution.execute\<close>,
  \<open>collector.collect\<close>, \<open>runner/stream.py\<close>, \<open>snapshot.py\<close>, \<open>prepare.py\<close>, \<open>smoke.py\<close>, \<open>imports.py\<close>), because their
  content is the behaviour of the operating system: the harness collector sees an interrupt in a hook or at the
  end of a deferred section only; the requests of \<open>ci.snapshot\<close> and of the gate, whose
  responses are arguments; the text of CSV tables and the writing of result files; the mutation self-test of the
  linter; the local pilot and startup scripts; command lines, demos and tests; the Go engine and the Java SDK.
\<close>

end
